(* ===== verification/Prelude.thy ===== *)
theory Prelude
  imports Main "HOL-Library.Sublist"
begin

text \<open>
  Shared vocabulary of the development: the errors a handler throws, the JavaScript string and
  array operations the service uses (\<open>split(/\s+/)\<close>, \<open>trim\<close>, \<open>join\<close>, \<open>startsWith\<close>,
  \<open>[...new Set(xs)]\<close>), JSON values, the Prisma table operations over rows kept in a list
  (\<open>updateMany\<close>, \<open>deleteMany\<close>, \<open>count\<close>, \<open>findFirst\<close>), the durations of the settings
  registry, and the interface \<open>single_use\<close> that every one-time credential of the service
  implements.  Strings are lists of code units below 256; instants and durations are integers
  (milliseconds where the code uses \<open>Date\<close>, seconds where it says so).
\<close>

named_theorems js_simps \<open>rewriting the JavaScript string and array operations\<close>
named_theorems table_simps \<open>rewriting the table operations\<close>

section \<open>Errors\<close>

text \<open>
  The body of an HTTP exception: a plain message, or the OAuth error object
  \<open>{error, error_description}\<close>.  \<open>Gate_Refused\<close> is the internal \<open>RefreshGateRefused\<close> that aborts
  the issuing transaction, \<open>Db_Conflict\<close> Prisma's unique-constraint error (P2002) and
  \<open>Db_Missing\<close> its record-not-found error (P2025); \<open>Server_Error\<close> is a plain \<open>Error\<close>.
\<close>

datatype error_body =
    Msg string
  | OAuth string "string option"

datatype error =
    Bad_Request error_body
  | Unauthorized error_body
  | Forbidden error_body
  | Not_Found error_body
  | Gate_Refused string
  | Db_Conflict
  | Db_Missing
  | Server_Error string

type_synonym time = int

abbreviation invalid_grant :: "string \<Rightarrow> error" where
  "invalid_grant d \<equiv> Bad_Request (OAuth ''invalid_grant'' (Some d))"

definition ok :: "'e + 'a \<Rightarrow> 'a option" where
  "ok r = (case r of Inl _ \<Rightarrow> None | Inr x \<Rightarrow> Some x)"

lemma ok_simps [simp]: "ok (Inl e) = None" "ok (Inr x) = Some x"
  by (simp_all add: ok_def)

lemma ok_Some_iff: "ok r = Some x \<longleftrightarrow> r = Inr x"
  by (cases r) auto

lemma ok_None_iff: "ok r = None \<longleftrightarrow> (\<exists>e. r = Inl e)"
  by (cases r) auto

section \<open>JSON values\<close>

datatype json =
    JNull
  | JBool bool
  | JNum int
  | JStr string
  | JArr "json list"
  | JObj "(string \<times> json) list"

text \<open>Reading a member of an object; \<open>undefined\<close> (a missing member, or not an object) is \<open>None\<close>.\<close>

fun jget :: "json \<Rightarrow> string \<Rightarrow> json option" where
  "jget (JObj kvs) k = map_of kvs k"
| "jget _ k = None"

fun jnum :: "json option \<Rightarrow> int option" where
  "jnum (Some (JNum n)) = Some n"
| "jnum _ = None"

fun jstr :: "json option \<Rightarrow> string option" where
  "jstr (Some (JStr s)) = Some s"
| "jstr _ = None"

fun jarr :: "json option \<Rightarrow> json list option" where
  "jarr (Some (JArr xs)) = Some xs"
| "jarr _ = None"

definition strings_of :: "json list \<Rightarrow> string list" where
  "strings_of xs = List.map_filter (\<lambda>v. jstr (Some v)) xs"

lemma strings_of_simps [simp]:
  "strings_of [] = []"
  "strings_of (JStr s # xs) = s # strings_of xs"
  by (simp_all add: strings_of_def List.map_filter_def)

section \<open>Options as nullable values\<close>

definition nullish :: "'a option \<Rightarrow> 'a \<Rightarrow> 'a" where
  "nullish v d = (case v of None \<Rightarrow> d | Some x \<Rightarrow> x)"

lemma nullish_simps [simp]: "nullish None d = d" "nullish (Some x) d = x"
  by (simp_all add: nullish_def)

text \<open>A nullable string is truthy when it is present and not empty.\<close>

fun truthy :: "string option \<Rightarrow> bool" where
  "truthy None = False"
| "truthy (Some s) = (s \<noteq> [])"

lemma truthyE: "truthy x \<Longrightarrow> (\<And>s. x = Some s \<Longrightarrow> s \<noteq> [] \<Longrightarrow> P) \<Longrightarrow> P"
  by (cases x) auto

section \<open>Strings\<close>

text \<open>The white space of a JavaScript regular expression (\<open>\s\<close>) among code units below 256.\<close>

definition is_ws :: "char \<Rightarrow> bool" where
  "is_ws c = (let n = of_char c :: nat in (9 \<le> n \<and> n \<le> 13) \<or> n = 32 \<or> n = 160)"

fun split_by :: "(char \<Rightarrow> bool) \<Rightarrow> string \<Rightarrow> string list" where
  "split_by p [] = [[]]"
| "split_by p (c # cs) =
     (if p c then [] # split_by p cs
      else (case split_by p cs of [] \<Rightarrow> [[c]] | w # ws \<Rightarrow> (c # w) # ws))"

definition split_char :: "char \<Rightarrow> string \<Rightarrow> string list" where
  "split_char d s = split_by (\<lambda>c. c = d) s"

text \<open>\<open>s.split(/\s+/).filter(Boolean)\<close>: the maximal runs without white space.\<close>

definition words_of :: "string \<Rightarrow> string list" where
  "words_of s = filter (\<lambda>w. w \<noteq> []) (split_by is_ws s)"

fun join_with :: "string \<Rightarrow> string list \<Rightarrow> string" where
  "join_with sep [] = []"
| "join_with sep [w] = w"
| "join_with sep (w # ws) = w @ sep @ join_with sep ws"

abbreviation join_sp :: "string list \<Rightarrow> string" where
  "join_sp \<equiv> join_with '' ''"

definition trim :: "string \<Rightarrow> string" where
  "trim s = rev (dropWhile is_ws (rev (dropWhile is_ws s)))"

definition is_infix :: "string \<Rightarrow> string \<Rightarrow> bool" where
  "is_infix w s \<longleftrightarrow> list_ex (prefix w) (suffixes s)"

definition lower_char :: "char \<Rightarrow> char" where
  "lower_char c = (let n = of_char c :: nat in
     if (65 \<le> n \<and> n \<le> 90) \<or> (192 \<le> n \<and> n \<le> 222 \<and> n \<noteq> 215) then char_of (n + 32) else c)"

definition lower :: "string \<Rightarrow> string" where
  "lower s = map lower_char s"

text \<open>\<open>toUpperCase\<close>; the sharp s becomes two letters.\<close>

definition upper_char :: "char \<Rightarrow> string" where
  "upper_char c = (let n = of_char c :: nat in
     if n = 223 then ''SS''
     else if (97 \<le> n \<and> n \<le> 122) \<or> (224 \<le> n \<and> n \<le> 254 \<and> n \<noteq> 247) then [char_of (n - 32)] else [c])"

definition upper :: "string \<Rightarrow> string" where
  "upper s = concat (map upper_char s)"

lemma split_by_ne [simp]: "split_by p s \<noteq> []"
  by (induction s) (auto split: list.split)

lemma split_by_app:
  assumes "\<forall>c \<in> set w. \<not> p c"
  shows "split_by p (w @ s) = (w @ hd (split_by p s)) # tl (split_by p s)"
  using assms by (induction w) (auto split: list.split)

lemma split_by_word: "\<forall>c \<in> set w. \<not> p c \<Longrightarrow> split_by p w = [w]"
  using split_by_app [of w p "[]"] by simp

lemma split_by_join:
  assumes "p d" and "ws \<noteq> []" and "\<forall>w \<in> set ws. \<forall>c \<in> set w. \<not> p c"
  shows "split_by p (join_with [d] ws) = ws"
  using assms(2,3)
proof (induction "[d]" ws rule: join_with.induct)
  case (3 w v vs)
  then show ?case using assms(1) by (simp add: split_by_app)
qed (simp_all add: split_by_word)

definition is_word :: "string \<Rightarrow> bool" where
  "is_word w \<longleftrightarrow> w \<noteq> [] \<and> (\<forall>c \<in> set w. \<not> is_ws c)"

lemma split_by_sound: "w \<in> set (split_by p s) \<Longrightarrow> c \<in> set w \<Longrightarrow> \<not> p c"
proof (induction s arbitrary: w)
  case (Cons a s)
  then show ?case
    by (cases "split_by p s") (force split: if_splits)+
qed simp

lemma words_of_word: "w \<in> set (words_of s) \<Longrightarrow> is_word w"
  unfolding words_of_def is_word_def by (auto dest: split_by_sound)

lemma is_ws_space [simp]: "is_ws CHR '' ''"
  by (simp add: is_ws_def)

text \<open>Joining words with a blank and splitting again returns the words.\<close>

lemma words_of_join [js_simps]:
  assumes "\<forall>w \<in> set ws. is_word w"
  shows "words_of (join_sp ws) = ws"
proof (cases ws)
  case Nil
  then show ?thesis by (simp add: words_of_def)
next
  case (Cons w vs)
  have "split_by is_ws (join_sp ws) = ws"
    by (rule split_by_join) (use assms Cons in \<open>auto simp: is_word_def\<close>)
  then show ?thesis using assms by (auto simp: words_of_def is_word_def intro!: filter_True)
qed

lemma words_of_Nil [simp]: "words_of [] = []"
  by (simp add: words_of_def)

text \<open>\<open>[...new Set(xs)]\<close>: the distinct elements, in the order of their first occurrence.\<close>

fun uniq :: "'a list \<Rightarrow> 'a list" where
  "uniq [] = []"
| "uniq (x # xs) = x # removeAll x (uniq xs)"

lemma set_uniq [simp]: "set (uniq xs) = set xs"
  by (induction xs) auto

lemma distinct_uniq [simp]: "distinct (uniq xs)"
  by (induction xs) (auto simp: distinct_removeAll)

lemma uniq_distinct: "distinct xs \<Longrightarrow> uniq xs = xs"
  by (induction xs) auto

lemma uniq_empty_iff [simp]: "uniq xs = [] \<longleftrightarrow> xs = []"
  by (cases xs) auto

lemma map_sum_InrE:
  assumes "map_sum f g r = Inr j"
  obtains x where "r = Inr x" "j = g x"
  using assms by (cases r) auto

lemma ws_lower: "is_ws (lower_char c) = is_ws c"
proof (cases "(65 \<le> (of_char c :: nat) \<and> (of_char c :: nat) \<le> 90)
    \<or> (192 \<le> (of_char c :: nat) \<and> (of_char c :: nat) \<le> 222 \<and> (of_char c :: nat) \<noteq> 215)")
  case True
  then have "(of_char (char_of (of_char c + 32 :: nat) :: char) :: nat) = of_char c + 32" by auto
  with True show ?thesis by (auto simp: is_ws_def lower_char_def Let_def)
qed (auto simp: lower_char_def Let_def)

lemma lower_char_again: "lower_char (lower_char c) = lower_char c"
proof (cases "(65 \<le> (of_char c :: nat) \<and> (of_char c :: nat) \<le> 90)
    \<or> (192 \<le> (of_char c :: nat) \<and> (of_char c :: nat) \<le> 222 \<and> (of_char c :: nat) \<noteq> 215)")
  case True
  then have "(of_char (char_of (of_char c + 32 :: nat) :: char) :: nat) = of_char c + 32" by auto
  with True show ?thesis by (auto simp: lower_char_def Let_def)
qed (auto simp: lower_char_def Let_def)

lemma drop_lower: "dropWhile is_ws (map lower_char s) = map lower_char (dropWhile is_ws s)"
  by (induction s) (auto simp: ws_lower)

lemma trim_lower: "trim (lower s) = lower (trim s)"
  by (simp add: trim_def lower_def drop_lower rev_map)

lemma lower_again: "lower (lower s) = lower s"
  by (simp add: lower_def lower_char_again)

lemma drop_rev_drop: "dropWhile P (rev (dropWhile P (rev (dropWhile P s)))) = rev (dropWhile P (rev (dropWhile P s)))"
proof (cases "dropWhile P s")
  case (Cons c cs)
  then have c: "\<not> P c" by (metis list.sel(1) list.distinct(1) hd_dropWhile)
  then have "dropWhile P (rev cs @ [c]) = dropWhile P (rev cs) @ [c]" by (auto simp: dropWhile_append)
  with Cons c show ?thesis by simp
qed (simp only: dropWhile.simps rev.simps)

lemma trim_again [simp]: "trim (trim s) = trim s"
  by (simp add: trim_def drop_rev_drop)

section \<open>Durations\<close>

text \<open>
  \<open>token-expiry.ts\<close>: \<open>durationSeconds\<close> reads \<open>^(\d+)([smhd]?)$\<close> after \<open>trim\<close>; a bare
  number is seconds.  Numbers are exact integers here (JavaScript loses precision past \<open>2^53\<close>).
\<close>

definition is_digit :: "char \<Rightarrow> bool" where
  "is_digit c = (let n = of_char c :: nat in 48 \<le> n \<and> n \<le> 57)"

fun digits_value :: "string \<Rightarrow> int \<Rightarrow> int" where
  "digits_value [] acc = acc"
| "digits_value (c # cs) acc = digits_value cs (10 * acc + (int (of_char c) - 48))"

definition duration_unit :: "string \<Rightarrow> int option" where
  "duration_unit u =
     (if u = '''' then Some 1 else if u = ''s'' then Some 1 else if u = ''m'' then Some 60
      else if u = ''h'' then Some 3600 else if u = ''d'' then Some 86400 else None)"

definition duration_seconds :: "string \<Rightarrow> int option" where
  "duration_seconds v =
     (let t = trim v; ds = takeWhile is_digit t; u = dropWhile is_digit t
      in if ds = [] then None
         else (case duration_unit u of None \<Rightarrow> None | Some k \<Rightarrow> Some (digits_value ds 0 * k)))"

definition expiry_seconds :: "string \<Rightarrow> int \<Rightarrow> int" where
  "expiry_seconds e fallback = nullish (duration_seconds e) fallback"

lemma digits_value_nonneg:
  "\<forall>c \<in> set ds. is_digit c \<Longrightarrow> 0 \<le> acc \<Longrightarrow> 0 \<le> digits_value ds acc"
  by (induction ds arbitrary: acc) (auto simp: is_digit_def Let_def)

lemma duration_seconds_nonneg: "duration_seconds v = Some n \<Longrightarrow> 0 \<le> n"
  by (auto simp: duration_seconds_def Let_def duration_unit_def split: if_splits option.splits
        intro!: mult_nonneg_nonneg digits_value_nonneg dest: set_takeWhileD)

text \<open>Decimal notation, as a template literal prints a count.\<close>

fun nat_str :: "nat \<Rightarrow> string" where
  "nat_str n = (if n < 10 then [char_of (48 + n)] else nat_str (n div 10) @ [char_of (48 + n mod 10)])"

declare nat_str.simps [simp del]

definition int_str :: "int \<Rightarrow> string" where
  "int_str n = (if n < 0 then ''-'' @ nat_str (nat (- n)) else nat_str (nat n))"

text \<open>\<open>String(v)\<close>, as a template literal converts a value.\<close>

fun js_string :: "json \<Rightarrow> string" where
  "js_string JNull = ''null''"
| "js_string (JBool b) = (if b then ''true'' else ''false'')"
| "js_string (JNum n) = int_str n"
| "js_string (JStr s) = s"
| "js_string (JArr xs) = join_with '','' (map (\<lambda>x. if x = JNull then [] else js_string x) xs)"
| "js_string (JObj _) = ''[object Object]''"

section \<open>Tables\<close>

text \<open>
  A Prisma table is the list of its rows.  \<open>update_many\<close> changes the rows that match (the number
  of them is \<open>count_where\<close> before the update), \<open>delete_many\<close> removes them.
\<close>

definition update_many :: "('r \<Rightarrow> bool) \<Rightarrow> ('r \<Rightarrow> 'r) \<Rightarrow> 'r list \<Rightarrow> 'r list" where
  "update_many p f t = map (\<lambda>r. if p r then f r else r) t"

definition count_where :: "('r \<Rightarrow> bool) \<Rightarrow> 'r list \<Rightarrow> nat" where
  "count_where p t = length (filter p t)"

definition delete_many :: "('r \<Rightarrow> bool) \<Rightarrow> 'r list \<Rightarrow> 'r list" where
  "delete_many p t = filter (\<lambda>r. \<not> p r) t"

lemma set_update_many: "set (update_many p f t) = {if p r then f r else r | r. r \<in> set t}"
  by (auto simp: update_many_def)

lemma filter_update_many:
  "(\<And>x. x \<in> set t \<Longrightarrow> q x \<Longrightarrow> \<not> p x \<and> \<not> p (f x)) \<Longrightarrow> filter p (update_many q f t) = filter p t"
  by (induction t) (auto simp: update_many_def)

lemma filter_delete_many:
  "(\<And>x. x \<in> set t \<Longrightarrow> q x \<Longrightarrow> \<not> p x) \<Longrightarrow> filter p (delete_many q t) = filter p t"
  by (induction t) (auto simp: delete_many_def)

lemma distinct_mapD: "distinct (map f t) \<Longrightarrow> x \<in> set t \<Longrightarrow> y \<in> set t \<Longrightarrow> f x = f y \<Longrightarrow> x = y"
  by (auto simp: distinct_map dest: inj_onD)

lemma in_map_filter: "y \<in> set (List.map_filter f xs) \<longleftrightarrow> (\<exists>x \<in> set xs. f x = Some y)"
  by (induction xs) (auto simp: List.map_filter_simps split: option.splits)

lemma map_filter_empty: "List.map_filter f xs = [] \<longleftrightarrow> (\<forall>x \<in> set xs. f x = None)"
  by (induction xs) (auto simp: List.map_filter_simps split: option.splits)

lemma update_manyE:
  assumes "r' \<in> set (update_many p f t)"
  obtains r where "r \<in> set t" "r' = (if p r then f r else r)"
  using assms unfolding update_many_def set_map by (elim imageE) blast

lemma update_manyI: "r \<in> set t \<Longrightarrow> (if p r then f r else r) \<in> set (update_many p f t)"
  unfolding update_many_def set_map by (rule imageI)

lemma update_many_outside:
  assumes "Q r" and "\<And>x. p x \<Longrightarrow> \<not> Q x" and "\<And>x. p x \<Longrightarrow> \<not> Q (f x)"
  shows "r \<in> set (update_many p f t) \<longleftrightarrow> r \<in> set t"
  using assms by (induction t) (auto simp: update_many_def)

lemma update_many_Nil [simp]: "update_many p f [] = []"
  by (simp add: update_many_def)

lemma update_many_Cons [simp]:
  "update_many p f (r # t) = (if p r then f r else r) # update_many p f t"
  by (simp add: update_many_def)

lemma length_update_many [simp]: "length (update_many p f t) = length t"
  by (simp add: update_many_def)

lemma update_many_append [simp]: "update_many p f (t @ u) = update_many p f t @ update_many p f u"
  by (simp add: update_many_def)

lemma delete_many_simps [simp]:
  "delete_many p [] = []"
  "delete_many p (r # t) = (if p r then delete_many p t else r # delete_many p t)"
  by (simp_all add: delete_many_def)

lemma set_delete_many [simp]: "set (delete_many p t) = {r \<in> set t. \<not> p r}"
  by (auto simp: delete_many_def)

lemma count_where_simps [simp]:
  "count_where p [] = 0"
  "count_where p (r # t) = (if p r then Suc (count_where p t) else count_where p t)"
  by (simp_all add: count_where_def)

lemma count_where_0: "count_where p t = 0 \<longleftrightarrow> (\<forall>r \<in> set t. \<not> p r)"
  by (auto simp: count_where_def filter_empty_conv)

lemma map_update_many:
  assumes "\<And>r. key (f r) = key r"
  shows "map key (update_many p f t) = map key t"
  by (simp add: update_many_def assms)

lemma find_key:
  assumes "distinct (map key t)" and "r \<in> set t"
  shows "List.find (\<lambda>x. key x = key r) t = Some r"
  using assms by (induction t) (auto simp: image_iff)

lemma update_id_find:
  assumes "\<And>r. key (f r) = key r" and "List.find (\<lambda>r. key r = k) t = Some x"
  shows "List.find (\<lambda>r. key r = k) (update_many p f t) = Some (if p x then f x else x)"
  using assms by (induction t) (auto split: if_splits)

lemma update_id_none:
  assumes "\<And>r. key (f r) = key r"
  shows "List.find (\<lambda>r. key r = k) (update_many p f t) = None \<longleftrightarrow> List.find (\<lambda>r. key r = k) t = None"
  using assms by (induction t) (auto split: if_splits)

lemma find_SomeD: "List.find p t = Some r \<Longrightarrow> r \<in> set t \<and> p r"
  by (induction t) (auto split: if_splits)

lemma find_NoneD: "List.find p t = None \<Longrightarrow> r \<in> set t \<Longrightarrow> \<not> p r"
  by (induction t) (auto split: if_splits)

lemma find_append_None: "List.find p xs = None \<Longrightarrow> List.find p (xs @ ys) = List.find p ys"
  by (induction xs) (auto split: if_splits)

lemma find_append_Some: "List.find p xs = Some y \<Longrightarrow> List.find p (xs @ ys) = Some y"
  by (induction xs) (auto split: if_splits)

lemma count_key_le_1: "distinct (map key t) \<Longrightarrow> count_where (\<lambda>r. key r = k \<and> p r) t \<le> 1"
proof (induction t)
  case (Cons a t)
  have "count_where (\<lambda>r. key r = k \<and> p r) t = 0" if "key a = k"
    using Cons.prems that by (simp add: count_where_0) (metis image_eqI)
  then show ?case using Cons by auto
qed simp

lemma count_key_1_iff:
  assumes "distinct (map key t)"
  shows "count_where (\<lambda>r. key r = k \<and> p r) t = 1 \<longleftrightarrow> (\<exists>r \<in> set t. key r = k \<and> p r)"
  using count_key_le_1 [OF assms, of k p]
  by (metis (mono_tags, lifting) One_nat_def count_where_0 le_SucE le_zero_eq zero_neq_one)

section \<open>Single-use credentials\<close>

text \<open>
  The contract of a credential that may be redeemed once: a request names a key; winning spends
  the key; a spent key loses; and no request of the interface un-spends a key, all of it under an
  invariant of the store (the unique constraint of its table) that every request keeps.  Authorization
  codes, refresh-token rotations, approved device codes, pushed authorization requests and
  client-assertion identifiers all provide it.
\<close>

fun run_requests :: "('q \<Rightarrow> 's \<Rightarrow> 'r option \<times> 's) \<Rightarrow> 'q list \<Rightarrow> 's \<Rightarrow> 'r option list \<times> 's" where
  "run_requests f [] s = ([], s)"
| "run_requests f (q # qs) s =
     (let (r, s1) = f q s; (rs, s2) = run_requests f qs s1 in (r # rs, s2))"

definition wins :: "('q \<Rightarrow> 'k) \<Rightarrow> 'k \<Rightarrow> 'q list \<Rightarrow> 'r option list \<Rightarrow> nat" where
  "wins key k qs rs = length (filter (\<lambda>(q, r). key q = k \<and> r \<noteq> None) (zip qs rs))"

locale single_use =
  fixes claim :: "'q \<Rightarrow> 's \<Rightarrow> 'r option \<times> 's"
    and key :: "'q \<Rightarrow> 'k"
    and spent :: "'k \<Rightarrow> 's \<Rightarrow> bool"
    and inv :: "'s \<Rightarrow> bool"
  assumes inv_kept: "inv s \<Longrightarrow> inv (snd (claim q s))"
    and win_spends: "inv s \<Longrightarrow> claim q s = (Some r, s') \<Longrightarrow> spent (key q) s'"
    and spent_loses: "inv s \<Longrightarrow> spent (key q) s \<Longrightarrow> fst (claim q s) = None"
    and spent_kept: "inv s \<Longrightarrow> spent k s \<Longrightarrow> spent k (snd (claim q s))"
begin

lemma no_win_when_spent:
  "inv s \<Longrightarrow> spent k s \<Longrightarrow> wins key k qs (fst (run_requests claim qs s)) = 0"
proof (induction qs arbitrary: s)
  case (Cons q qs)
  have "wins key k qs (fst (run_requests claim qs (snd (claim q s)))) = 0"
    by (rule Cons.IH) (use Cons.prems inv_kept spent_kept in simp_all)
  moreover have "key q = k \<Longrightarrow> fst (claim q s) = None" using Cons.prems spent_loses by blast
  ultimately show ?case by (auto simp: wins_def split: prod.split)
qed (simp add: wins_def)

lemma at_most_one_win: "inv s \<Longrightarrow> wins key k qs (fst (run_requests claim qs s)) \<le> 1"
proof (induction qs arbitrary: s)
  case (Cons q qs)
  have inv': "inv (snd (claim q s))" using Cons.prems by (rule inv_kept)
  show ?case
  proof (cases "key q = k \<and> fst (claim q s) \<noteq> None")
    case True
    then obtain r where "claim q s = (Some r, snd (claim q s))" by (metis option.exhaust prod.collapse)
    then have "spent k (snd (claim q s))" using win_spends Cons.prems True by blast
    then have "wins key k qs (fst (run_requests claim qs (snd (claim q s)))) = 0"
      by (rule no_win_when_spent [OF inv'])
    then show ?thesis by (auto simp: wins_def split: prod.split)
  next
    case False
    then show ?thesis using Cons.IH [OF inv'] by (auto simp: wins_def split: prod.split)
  qed
qed (simp add: wins_def)

end

end
