(* ===== verification/Environment.thy ===== *)
theory Environment
  imports Prelude
begin

text \<open>
  What a handler is run with: the primitives of Node and of the packages the service calls
  (parameters of the model), the operator settings (\<open>common/settings/settings.service.ts\<close>), and
  the ambient request (\<open>common/request-context.ts\<close>, \<open>common/device-metadata.ts\<close>).
\<close>

section \<open>Primitives\<close>

text \<open>A parsed WHATWG URL: the members the service reads.\<close>

record url =
  url_protocol :: string
  url_hostname :: string
  url_port :: string
  url_pathname :: string
  url_hash :: string
  url_username :: string
  url_password :: string
  url_origin :: string

record sign_options =
  so_expires_in :: int
  so_audience :: string
  so_issuer :: string

text \<open>
  \<open>p_hmac secret m\<close> and \<open>p_sha256 m\<close> are the digests in base64url, \<open>p_sha256_hex\<close> in hex;
  \<open>p_seal key iv m\<close> is AES-256-GCM giving (tag, ciphertext) and \<open>p_open\<close> its inverse, \<open>None\<close>
  where the decipher throws (key, IV, tag and ciphertext in base64url); \<open>p_stringify\<close> and
  \<open>p_json_parse\<close> are \<open>JSON.stringify\<close> and \<open>JSON.parse\<close>; \<open>p_sign\<close> is \<open>JwtService.sign\<close>;
  \<open>p_parse_url\<close> is \<open>new URL\<close>.
\<close>

record prims =
  p_hmac :: "string \<Rightarrow> string \<Rightarrow> string"
  p_sha256 :: "string \<Rightarrow> string"
  p_sha256_hex :: "string \<Rightarrow> string"
  p_seal :: "string \<Rightarrow> string \<Rightarrow> string \<Rightarrow> string \<times> string"
  p_open :: "string \<Rightarrow> string \<Rightarrow> string \<Rightarrow> string \<Rightarrow> string option"
  p_stringify :: "json \<Rightarrow> string"
  p_json_parse :: "string \<Rightarrow> json option"
  p_sign :: "json \<Rightarrow> sign_options \<Rightarrow> string"
  p_parse_url :: "string \<Rightarrow> url option"

section \<open>Settings\<close>

text \<open>
  \<open>cf_store\<close> is the snapshot of the database overrides (\<open>AppSettingsStore\<close>), \<open>cf_env\<close> the
  environment (\<open>ConfigService\<close>).
\<close>

record config =
  cf_store :: "string \<Rightarrow> string option"
  cf_env :: "string \<Rightarrow> string option"

definition setting_raw :: "config \<Rightarrow> string \<Rightarrow> string option" where
  "setting_raw c k = (case cf_store c k of Some v \<Rightarrow> Some v | None \<Rightarrow> cf_env c k)"

definition setting_flag :: "config \<Rightarrow> string \<Rightarrow> bool" where
  "setting_flag c k \<longleftrightarrow> setting_raw c k = Some ''true''"

definition setting_value :: "config \<Rightarrow> string \<Rightarrow> string \<Rightarrow> string" where
  "setting_value c k fallback = nullish (setting_raw c k) fallback"

datatype setting_source = From_Db | From_Env | From_Default

definition setting_source :: "config \<Rightarrow> string \<Rightarrow> setting_source" where
  "setting_source c k =
     (if cf_store c k \<noteq> None then From_Db
      else if cf_env c k \<noteq> None then From_Env else From_Default)"

lemma setting_value_source:
  "setting_value c k d =
     (case setting_source c k of
        From_Db \<Rightarrow> the (cf_store c k) | From_Env \<Rightarrow> the (cf_env c k) | From_Default \<Rightarrow> d)"
  by (auto simp: setting_value_def setting_raw_def setting_source_def split: option.split)

text \<open>\<open>configService.get('JWT_ISSUER', 'http://localhost:3002')\<close>.\<close>

definition jwt_issuer :: "config \<Rightarrow> string" where
  "jwt_issuer c = nullish (cf_env c ''JWT_ISSUER'') ''http://localhost:3002''"

section \<open>The request\<close>

text \<open>
  \<open>rq_now\<close> is the clock: a handler reads it once here, where the code may read \<open>Date\<close> several
  times within the same request.
\<close>

record request =
  rq_now :: time
  rq_id :: string
  rq_ip :: "string option"
  rq_user_agent :: "string option"

text \<open>
  What a request draws at random: the bytes of a token or a code, the identifiers of the rows it
  creates, the IV of an encryption.
\<close>

record entropy =
  en_token :: string
  en_row_id :: string
  en_agent_id :: string
  en_org_id :: string
  en_iv :: string

definition max_user_agent_len :: nat where "max_user_agent_len = 400"
definition max_ip_len :: nat where "max_ip_len = 64"

definition capped :: "nat \<Rightarrow> string option \<Rightarrow> string option" where
  "capped n v = (case v of None \<Rightarrow> None | Some s \<Rightarrow> if take n s = [] then None else Some (take n s))"

definition device_ip :: "request \<Rightarrow> string option" where
  "device_ip r = capped max_ip_len (rq_ip r)"

definition device_user_agent :: "request \<Rightarrow> string option" where
  "device_user_agent r = capped max_user_agent_len (rq_user_agent r)"

lemma capped_length: "capped n v = Some s \<Longrightarrow> s \<noteq> [] \<and> length s \<le> n"
  by (auto simp: capped_def split: option.splits if_splits)

end
