(* ===== verification/Scopes.thy ===== *)
theory Scopes
  imports Prelude
begin

text \<open>
  \<open>src/oauth/oauth-scopes.registry.ts\<close>: the scope registry and the rule that says which of the
  requested scopes a client may hold.
\<close>

section \<open>The registry\<close>

definition STANDARD_SCOPES :: "string list" where
  "STANDARD_SCOPES = [''openid'', ''profile'', ''email'', ''offline_access'']"

definition BRAIN_SCOPES :: "string list" where
  "BRAIN_SCOPES =
     [''brain:read'', ''brain:write'', ''brain:admin'', ''brain:read_pii'',
      ''registry:publish'', ''indexer:write'']"

definition MIKEFLUFF_SCOPES :: "string list" where
  "MIKEFLUFF_SCOPES = [''mikefluff:purchase'', ''mikefluff:booking'']"

definition WALLET_SCOPES :: "string list" where
  "WALLET_SCOPES = [''wallet:pay'']"

definition BILLING_SCOPES :: "string list" where
  "BILLING_SCOPES = [''billing:account'']"

definition FUND_SCOPES :: "string list" where
  "FUND_SCOPES = [''fund:read'', ''fund:write'']"

definition DCR_VERTICAL_SCOPES :: "string list" where
  "DCR_VERTICAL_SCOPES =
     [''brain:read'', ''brain:write''] @ MIKEFLUFF_SCOPES @ WALLET_SCOPES @ BILLING_SCOPES @ FUND_SCOPES"

definition supportedScopes :: "string list" where
  "supportedScopes =
     STANDARD_SCOPES @ BRAIN_SCOPES @ MIKEFLUFF_SCOPES @ WALLET_SCOPES @ BILLING_SCOPES @ FUND_SCOPES"

definition dcrSupportedScopes :: "string list" where
  "dcrSupportedScopes = STANDARD_SCOPES @ DCR_VERTICAL_SCOPES"

definition DEFAULT_SCOPE :: string where
  "DEFAULT_SCOPE = ''openid profile email''"

lemmas scope_lists =
  STANDARD_SCOPES_def BRAIN_SCOPES_def MIKEFLUFF_SCOPES_def WALLET_SCOPES_def BILLING_SCOPES_def
  FUND_SCOPES_def DCR_VERTICAL_SCOPES_def supportedScopes_def dcrSupportedScopes_def

text \<open>The scopes only an operator may provision: the sensitive tail of the brain scopes.\<close>

definition operator_scopes :: "string list" where
  "operator_scopes = filter (\<lambda>s. s \<notin> set dcrSupportedScopes) supportedScopes"

lemma operator_scopes_eq:
  "operator_scopes = [''brain:admin'', ''brain:read_pii'', ''registry:publish'', ''indexer:write'']"
  by (simp add: operator_scopes_def scope_lists)

section \<open>What a client may hold\<close>

definition isDynamicClientId :: "string option \<Rightarrow> bool" where
  "isDynamicClientId cid = (case cid of None \<Rightarrow> False | Some s \<Rightarrow> prefix ''dcr_'' s)"

record scope_bound_client =
  sb_client_id :: string
  sb_allowed_scopes :: "string list option"
  sb_is_public :: "bool option"

text \<open>The client argument of \<open>permittedScopes\<close>: nothing, an identifier, or a row.\<close>

datatype scope_client = No_Client | Client_Id string | Client_Row scope_bound_client

fun scope_client_id :: "scope_client \<Rightarrow> string option" where
  "scope_client_id No_Client = None"
| "scope_client_id (Client_Id cid) = Some cid"
| "scope_client_id (Client_Row c) = Some (sb_client_id c)"

definition requested_scopes :: "string option \<Rightarrow> string list" where
  "requested_scopes requested = uniq (words_of (nullish requested ''''))"

definition scope_ceiling :: "scope_client \<Rightarrow> string list" where
  "scope_ceiling client =
     (if isDynamicClientId (scope_client_id client) then dcrSupportedScopes
      else case client of
             Client_Row c \<Rightarrow>
               STANDARD_SCOPES @ nullish (sb_allowed_scopes c) []
               @ (if sb_is_public c = Some True then DCR_VERTICAL_SCOPES else [])
           | _ \<Rightarrow> STANDARD_SCOPES)"

definition permittedScopes :: "scope_client \<Rightarrow> string option \<Rightarrow> string list" where
  "permittedScopes client requested =
     filter (\<lambda>s. s \<in> set (scope_ceiling client)) (requested_scopes requested)"

definition grantableScope :: "scope_client \<Rightarrow> string option \<Rightarrow> string" where
  "grantableScope client requested =
     (let scopes = permittedScopes client requested
      in if scopes \<noteq> [] then join_sp scopes else DEFAULT_SCOPE)"

section \<open>Lemmas\<close>

lemma requested_scopes_word: "s \<in> set (requested_scopes r) \<Longrightarrow> is_word s"
  by (auto simp: requested_scopes_def dest: words_of_word)

lemma permitted_word: "s \<in> set (permittedScopes c r) \<Longrightarrow> is_word s"
  by (auto simp: permittedScopes_def dest: requested_scopes_word)

lemma set_permitted:
  "set (permittedScopes c r) = set (words_of (nullish r '''')) \<inter> set (scope_ceiling c)"
  by (auto simp: permittedScopes_def requested_scopes_def)

lemma distinct_permitted: "distinct (permittedScopes c r)"
  by (simp add: permittedScopes_def requested_scopes_def)

lemma words_join_permitted: "words_of (join_sp (permittedScopes c r)) = permittedScopes c r"
  by (rule words_of_join) (auto dest: permitted_word)

lemma standard_in_ceiling: "set STANDARD_SCOPES \<subseteq> set (scope_ceiling c)"
  by (auto simp: scope_ceiling_def dcrSupportedScopes_def split: scope_client.split)

lemma permitted_join_permitted:
  "permittedScopes c (Some (join_sp (permittedScopes c' r))) =
     filter (\<lambda>s. s \<in> set (scope_ceiling c)) (permittedScopes c' r)"
  by (simp add: permittedScopes_def [of c] requested_scopes_def words_join_permitted
      uniq_distinct distinct_permitted)

lemma permitted_stable: "permittedScopes c (Some (join_sp (permittedScopes c r))) = permittedScopes c r"
  by (simp add: permitted_join_permitted) (auto simp: permittedScopes_def intro!: filter_True)

lemma default_scope_words: "words_of DEFAULT_SCOPE = [''openid'', ''profile'', ''email'']"
  by (simp add: DEFAULT_SCOPE_def words_of_def is_ws_def Let_def)

lemma permitted_default: "permittedScopes c (Some DEFAULT_SCOPE) = [''openid'', ''profile'', ''email'']"
  using standard_in_ceiling [of c]
  by (simp add: permittedScopes_def requested_scopes_def default_scope_words STANDARD_SCOPES_def)

lemma operator_scope_not_dynamic:
  assumes "isDynamicClientId (scope_client_id c)" and "s \<in> set operator_scopes"
  shows "s \<notin> set (permittedScopes c r)"
  using assms by (auto simp: permittedScopes_def scope_ceiling_def operator_scopes_def)

lemma grantable_words:
  "words_of (grantableScope c r) =
     (if permittedScopes c r = [] then [''openid'', ''profile'', ''email''] else permittedScopes c r)"
  by (simp add: grantableScope_def words_join_permitted default_scope_words)

text \<open>The scopes a client is permitted are requested scopes without repetition, all of them
  under the client's ceiling; applying the rule again to what was granted changes nothing, so a
  refresh under an unchanged client keeps the scope and a chain of grants only narrows.\<close>

theorem permitted_scopes_narrow:
  "set (permittedScopes c r) = set (words_of (nullish r '''')) \<inter> set (scope_ceiling c)
   \<and> distinct (permittedScopes c r)
   \<and> permittedScopes c (Some (join_sp (permittedScopes c r))) = permittedScopes c r
   \<and> set (permittedScopes c' (Some (join_sp (permittedScopes c r)))) \<subseteq> set (permittedScopes c r)"
  by (auto simp: permitted_stable distinct_permitted set_permitted permitted_join_permitted)

text \<open>What an authorization request is granted is never empty, lies under the client's
  ceiling, is stable under the rule itself, and for a dynamically registered client never holds a
  scope that only an operator may provision (\<open>brain:admin\<close>, PII, registry and indexer rights),
  whatever its row says and whatever it asks for.\<close>

theorem grantable_scope_safe:
  "words_of (grantableScope c r) \<noteq> []
   \<and> set (words_of (grantableScope c r)) \<subseteq> set (scope_ceiling c)
   \<and> grantableScope c (Some (grantableScope c r)) = grantableScope c r
   \<and> (isDynamicClientId (scope_client_id c) \<longrightarrow>
        set (words_of (grantableScope c r)) \<inter> set operator_scopes = {})"
proof (intro conjI impI)
  show "words_of (grantableScope c r) \<noteq> []" by (simp add: grantable_words)
  show sub: "set (words_of (grantableScope c r)) \<subseteq> set (scope_ceiling c)"
    using standard_in_ceiling [of c] by (auto simp: grantable_words set_permitted STANDARD_SCOPES_def)
  show "grantableScope c (Some (grantableScope c r)) = grantableScope c r"
    by (cases "permittedScopes c r = []")
       (simp_all add: grantableScope_def permitted_default permitted_stable Let_def,
        simp add: DEFAULT_SCOPE_def)
  assume "isDynamicClientId (scope_client_id c)"
  with sub show "set (words_of (grantableScope c r)) \<inter> set operator_scopes = {}"
    by (auto simp: scope_ceiling_def operator_scopes_def)
qed

text \<open>The witness: a registered agent asks for an administrator's scope and is granted none of it.\<close>

theorem grantable_scope_safe_witness:
  "set (words_of (grantableScope (Client_Id ''dcr_1'') (Some ''brain:admin brain:read'')))
     \<inter> set operator_scopes = {}"
proof -
  have "isDynamicClientId (scope_client_id (Client_Id ''dcr_1''))"
    by (simp add: isDynamicClientId_def)
  then show ?thesis
    using grantable_scope_safe [of "Client_Id ''dcr_1''" "Some ''brain:admin brain:read''"] by blast
qed

end
