(* ===== verification/Resources.thy ===== *)
theory Resources
  imports Environment Scopes
begin

text \<open>
  \<open>src/oauth/resource-registry.ts\<close>: which RFC 8707 resource a client may bind a token to.  The
  URL parser is the parameter \<open>pu\<close>, the operator's \<open>OAUTH_RESOURCE_REGISTRY\<close> the parameter
  \<open>reg\<close>.
\<close>

definition FAMILY_DOMAINS :: "string list" where
  "FAMILY_DOMAINS =
     [''inite.ai'', ''inite.services'', ''inite.rent'', ''inite.estate'', ''inite.digital'',
      ''inite.club'', ''inite.solutions'', ''inite.fund'', ''inite.studio'', ''inite.shop'',
      ''inite.food'', ''inite.travel'', ''inite.events'', ''inite.health'', ''inite.training'',
      ''inite.education'', ''inite.sport'', ''mikefluff.com'']"

text \<open>\<open>s.replace(/\/$/, '')\<close>: one trailing slash removed.\<close>

definition strip_slash :: "string \<Rightarrow> string" where
  "strip_slash s = (if suffix ''/'' s then butlast s else s)"

definition extraEntries :: "string option \<Rightarrow> string list" where
  "extraEntries reg =
     filter (\<lambda>e. e \<noteq> []) (map (\<lambda>e. strip_slash (trim e)) (split_char CHR '','' (nullish reg '''')))"

definition onFamilyHost :: "url \<Rightarrow> bool" where
  "onFamilyHost u = (let host = lower (url_hostname u)
     in list_ex (\<lambda>d. host = d \<or> suffix (''.'' @ d) host) FAMILY_DOMAINS)"

definition isRegisteredResource :: "(string \<Rightarrow> url option) \<Rightarrow> string option \<Rightarrow> string \<Rightarrow> bool" where
  "isRegisteredResource pu reg resource =
     (case pu resource of
        None \<Rightarrow> False
      | Some u \<Rightarrow>
          if url_hash u \<noteq> [] \<or> CHR ''#'' \<in> set resource then False
          else if url_username u \<noteq> [] \<or> url_password u \<noteq> [] then False
          else (let trimmed = strip_slash resource; extra = extraEntries reg
                in if trimmed \<in> set extra \<or> url_origin u \<in> set extra then True
                   else if url_protocol u \<noteq> ''https:'' then False
                   else if url_port u \<noteq> [] then False
                   else onFamilyHost u))"

record resource_client =
  rc_client_id :: string
  rc_is_public :: "bool option"
  rc_allowed_audiences :: "string list option"
  rc_redirect_uris :: "string list option"

definition needsRegisteredResource :: "resource_client \<Rightarrow> bool" where
  "needsRegisteredResource c =
     (if length (nullish (rc_allowed_audiences c) []) > 0 then False
      else isDynamicClientId (Some (rc_client_id c)) \<or> rc_is_public c = Some True)"

definition isOwnResource :: "(string \<Rightarrow> url option) \<Rightarrow> resource_client \<Rightarrow> string \<Rightarrow> bool" where
  "isOwnResource pu c resource =
     (if resource = rc_client_id c then True
      else case pu resource of
             None \<Rightarrow> False
           | Some u \<Rightarrow>
               if url_protocol u \<noteq> ''https:'' \<or> url_hash u \<noteq> [] \<or> CHR ''#'' \<in> set resource then False
               else if url_username u \<noteq> [] \<or> url_password u \<noteq> [] then False
               else list_ex (\<lambda>uri. case pu uri of
                        None \<Rightarrow> False
                      | Some own \<Rightarrow> url_protocol own = ''https:'' \<and> url_origin own = url_origin u)
                    (nullish (rc_redirect_uris c) []))"

definition isResourceAllowed ::
  "(string \<Rightarrow> url option) \<Rightarrow> string option \<Rightarrow> resource_client \<Rightarrow> string option \<Rightarrow> bool" where
  "isResourceAllowed pu reg c resource =
     (if \<not> truthy resource then True
      else let r = nullish resource ''''; l = nullish (rc_allowed_audiences c) []
           in if length l > 0 then r \<in> set l
              else if needsRegisteredResource c then isRegisteredResource pu reg r
              else isOwnResource pu c r)"

text \<open>The refusal of \<open>assertResourceAllowed\<close>, or none.\<close>

definition assertResourceAllowed ::
  "(string \<Rightarrow> url option) \<Rightarrow> string option \<Rightarrow> resource_client \<Rightarrow> string option \<Rightarrow> error + unit" where
  "assertResourceAllowed pu reg c resource =
     (if isResourceAllowed pu reg c resource then Inr ()
      else let r = nullish resource ''''
           in Inl (Bad_Request (OAuth ''invalid_target'' (Some
                (if needsRegisteredResource c
                 then ''Resource \"'' @ r @ ''\" is not a registered INITE resource''
                 else ''Resource \"'' @ r @ ''\" is not allowed for this client'')))))"

section \<open>Lemmas\<close>

text \<open>The shape of a resource of the family: https on a family host, nothing hidden in the URL.\<close>

definition family_url :: "url \<Rightarrow> bool" where
  "family_url u \<longleftrightarrow> url_protocol u = ''https:'' \<and> url_port u = [] \<and> url_username u = []
     \<and> url_password u = [] \<and> url_hash u = [] \<and> onFamilyHost u"

lemma registered_cases:
  assumes "isRegisteredResource pu reg r"
  obtains u where "pu r = Some u" "url_hash u = []" "url_username u = []" "url_password u = []"
    "strip_slash r \<in> set (extraEntries reg) \<or> url_origin u \<in> set (extraEntries reg) \<or> family_url u"
  using assms
  by (auto simp: isRegisteredResource_def family_url_def Let_def split: option.splits if_splits)

lemma extra_none [simp]: "extraEntries None = []"
  by (simp add: extraEntries_def split_char_def trim_def strip_slash_def)

lemma assert_ok_iff: "assertResourceAllowed pu reg c r = Inr () \<longleftrightarrow> isResourceAllowed pu reg c r"
  by (simp add: assertResourceAllowed_def Let_def)

text \<open>A client with no allow-list of its own that registered itself, or is public, is bound
  only to a parsed URL without credentials or fragment that the operator listed or that is https on
  a family host with no port override; in particular a bare identifier such as another product's
  client id is never granted, and with no operator list only family URLs are.\<close>

theorem open_client_resource_bound:
  assumes "isResourceAllowed pu reg c (Some r)" and "r \<noteq> []"
    and "nullish (rc_allowed_audiences c) [] = []"
    and "isDynamicClientId (Some (rc_client_id c)) \<or> rc_is_public c = Some True"
  shows "\<exists>u. pu r = Some u \<and> url_hash u = [] \<and> url_username u = [] \<and> url_password u = []
     \<and> (strip_slash r \<in> set (extraEntries reg) \<or> url_origin u \<in> set (extraEntries reg) \<or> family_url u)
     \<and> (reg = None \<longrightarrow> family_url u)"
proof -
  have "isRegisteredResource pu reg r"
    using assms by (simp add: isResourceAllowed_def needsRegisteredResource_def Let_def)
  then show ?thesis by (rule registered_cases) auto
qed

definition demo_parse :: "string \<Rightarrow> url option" where
  "demo_parse s =
     (if s = ''https://brain.inite.ai/mcp''
      then Some \<lparr>url_protocol = ''https:'', url_hostname = ''brain.inite.ai'', url_port = [],
                 url_pathname = ''/mcp'', url_hash = [], url_username = [], url_password = [],
                 url_origin = ''https://brain.inite.ai''\<rparr>
      else if s = ''https://app.example/cb''
      then Some \<lparr>url_protocol = ''https:'', url_hostname = ''app.example'', url_port = [],
                 url_pathname = ''/cb'', url_hash = [], url_username = [], url_password = [],
                 url_origin = ''https://app.example''\<rparr>
      else None)"

definition demo_dcr :: resource_client where
  "demo_dcr = \<lparr>rc_client_id = ''dcr_1'', rc_is_public = None, rc_allowed_audiences = Some [],
               rc_redirect_uris = None\<rparr>"

theorem open_client_resource_bound_witness:
  "\<exists>u. demo_parse ''https://brain.inite.ai/mcp'' = Some u \<and> family_url u"
proof -
  have "isResourceAllowed demo_parse None demo_dcr (Some ''https://brain.inite.ai/mcp'')"
    by code_simp
  moreover have "nullish (rc_allowed_audiences demo_dcr) [] = []"
    and "isDynamicClientId (Some (rc_client_id demo_dcr)) \<or> rc_is_public demo_dcr = Some True"
    by (simp_all add: demo_dcr_def isDynamicClientId_def)
  ultimately show ?thesis
    using open_client_resource_bound [of demo_parse None demo_dcr "''https://brain.inite.ai/mcp''"]
    by auto
qed

text \<open>A confidential client an operator provisioned without an allow-list is bound only to
  itself: its own client id, or an https URL on the origin of one of its own redirect URIs.\<close>

theorem own_client_resource_bound:
  assumes "isResourceAllowed pu reg c (Some r)" and "r \<noteq> []"
    and "nullish (rc_allowed_audiences c) [] = []"
    and "\<not> isDynamicClientId (Some (rc_client_id c))" and "rc_is_public c \<noteq> Some True"
  shows "r = rc_client_id c
     \<or> (\<exists>u. pu r = Some u \<and> url_protocol u = ''https:'' \<and> url_username u = [] \<and> url_password u = []
         \<and> (\<exists>uri own. uri \<in> set (nullish (rc_redirect_uris c) []) \<and> pu uri = Some own
              \<and> url_protocol own = ''https:'' \<and> url_origin own = url_origin u))"
proof -
  have "isOwnResource pu c r"
    using assms by (simp add: isResourceAllowed_def needsRegisteredResource_def Let_def)
  then show ?thesis
    by (auto simp: isOwnResource_def list_ex_iff split: option.splits if_splits)
qed

definition demo_product :: resource_client where
  "demo_product = \<lparr>rc_client_id = ''shop'', rc_is_public = Some False, rc_allowed_audiences = None,
               rc_redirect_uris = Some [''https://app.example/cb'']\<rparr>"

theorem own_client_resource_bound_witness:
  "''https://app.example/cb'' = rc_client_id demo_product
   \<or> (\<exists>u. demo_parse ''https://app.example/cb'' = Some u \<and> url_origin u = ''https://app.example'')"
proof -
  have "isResourceAllowed demo_parse None demo_product (Some ''https://app.example/cb'')"
    by code_simp
  moreover have "nullish (rc_allowed_audiences demo_product) [] = []"
    and "\<not> isDynamicClientId (Some (rc_client_id demo_product))"
    and "rc_is_public demo_product \<noteq> Some True"
    by (simp_all add: demo_product_def isDynamicClientId_def)
  ultimately show ?thesis
    using own_client_resource_bound [of demo_parse None demo_product "''https://app.example/cb''"]
    by (auto simp: demo_parse_def)
qed

end
