(* ===== verification/Database.thy ===== *)
theory Database
  imports Environment Scopes Resources
begin

text \<open>
  The rows of \<open>prisma/schema.prisma\<close> that the modelled services read and write, and the database
  as one record of tables.  A nullable column is an option; \<open>effects\<close> collects what leaves the
  service: audit records, shared-signals events, e-mails and metrics, in the order they are sent.
\<close>

section \<open>Rows\<close>

record refresh_row =
  rt_id :: string
  rt_lookup :: "string option"
  rt_user :: string
  rt_client :: string
  rt_company :: "string option"
  rt_scope :: "string option"
  rt_nonce :: "string option"
  rt_amr :: "string list"
  rt_details :: "json option"
  rt_resource :: "string option"
  rt_expires :: time
  rt_rotated_from :: "string option"
  rt_grace_replay :: "string option"
  rt_grace_until :: "time option"
  rt_revoked :: bool
  rt_revoked_at :: "time option"
  rt_created :: time
  rt_ip :: "string option"
  rt_user_agent :: "string option"
  rt_last_used :: "time option"

record code_row =
  ac_code :: string
  ac_user :: string
  ac_client :: string
  ac_company :: "string option"
  ac_redirect_uri :: string
  ac_scope :: "string option"
  ac_nonce :: "string option"
  ac_acr_values :: "string option"
  ac_amr :: "string list"
  ac_challenge :: "string option"
  ac_challenge_method :: "string option"
  ac_resource :: "string option"
  ac_details :: "json option"
  ac_expires :: time
  ac_used :: bool

record device_row =
  dv_id :: string
  dv_code_hash :: string
  dv_user_code :: string
  dv_client :: string
  dv_scope :: "string option"
  dv_resource :: "string option"
  dv_user :: "string option"
  dv_status :: string
  dv_expires :: time
  dv_last_polled :: "time option"
  dv_interval :: int

record client_row =
  cl_client_id :: string
  cl_name :: string
  cl_secret_hash :: string
  cl_prev_secret_hash :: "string option"
  cl_prev_secret_expires :: "time option"
  cl_redirect_uris :: "string list"
  cl_allowed_scopes :: "string list"
  cl_allowed_grants :: "string list"
  cl_company :: "string option"
  cl_allowed_audiences :: "string list"
  cl_custom_claims :: "json option"
  cl_is_public :: bool
  cl_auth_method :: string
  cl_jwks :: "json option"
  cl_active :: bool
  cl_first_party :: bool
  cl_customer_lane :: bool
  cl_jwks_uri :: "string option"
  cl_tls_subject_dn :: "string option"
  cl_logo_url :: "string option"
  cl_privacy_url :: "string option"
  cl_terms_url :: "string option"
  cl_backchannel_uri :: "string option"

record user_row =
  us_id :: string
  us_did :: string
  us_email :: "string option"
  us_email_verified :: bool
  us_name :: "string option"
  us_avatar :: "string option"
  us_metadata :: "json option"
  us_failed_logins :: int
  us_lockout_until :: "time option"
  us_password_hash :: "string option"
  us_reset_token :: "string option"
  us_reset_expires :: "time option"
  us_reset_params :: "json option"
  us_totp_secret :: "string option"
  us_totp_enabled :: bool
  us_verify_token :: "string option"
  us_verify_expires :: "time option"
  us_bio :: "string option"
  us_location :: "string option"
  us_profession :: "string option"

record org_row =
  og_id :: string
  og_company :: string
  og_slug :: string
  og_name :: string
  og_metadata :: "json option"

record membership_row =
  mb_user :: string
  mb_org :: string
  mb_role :: string
  mb_status :: string
  mb_external :: "string option"

record role_row =
  ro_id :: string
  ro_org :: "string option"
  ro_slug :: string
  ro_name :: string
  ro_permissions :: "string list"

record consent_row =
  cs_user :: string
  cs_client :: string
  cs_scopes :: "string list"

record agent_row =
  ag_id :: string
  ag_user :: string
  ag_client :: string
  ag_wallet_grant :: "json option"
  ag_last_used :: "time option"
  ag_revoked_at :: "time option"

record jti_row =
  jt_client :: string
  jt_jti :: string
  jt_expires :: time

section \<open>Effects\<close>

record audit_event =
  ae_event :: string
  ae_client :: "string option"
  ae_company :: "string option option"
  ae_sub :: "string option"
  ae_scopes :: "string list"
  ae_audience :: "string option"
  ae_ip :: "string option"
  ae_user_agent :: "string option"
  ae_success :: bool
  ae_error :: "string option"
  ae_metadata :: "(string \<times> json) list"

datatype effect =
    Audit audit_event
  | Ssf_Event string string "string option" "(string \<times> json) list"
  | Email string string "string list"
  | Metric string "(string \<times> string) list"

section \<open>The database\<close>

record api_key_row =
  ak_id :: string
  ak_hash :: string
  ak_prefix :: string
  ak_name :: string
  ak_user :: "string option"
  ak_org :: string
  ak_audience :: string
  ak_scopes :: "string list"
  ak_policies :: "string list"
  ak_expires :: "time option"
  ak_revoked :: bool
  ak_revoked_at :: "time option"
  ak_last_used :: "time option"
  ak_created :: time

record magic_row =
  ml_id :: string
  ml_token :: string
  ml_email :: string
  ml_user :: "string option"
  ml_purpose :: string
  ml_expires :: time
  ml_used :: bool
  ml_used_at :: "time option"
  ml_params :: "json option"

record passkey_row =
  pk_id :: string
  pk_user :: string
  pk_credential :: string
  pk_public_key :: string
  pk_counter :: int
  pk_transports :: "json option"
  pk_last_used :: time

record wallet_row =
  wl_id :: string
  wl_user :: string
  wl_address :: string
  wl_chain :: string
  wl_signature :: string
  wl_message :: "string option"

record identity_row =
  fi_id :: string
  fi_user :: string
  fi_provider :: string
  fi_subject :: string
  fi_email :: "string option"
  fi_email_verified :: bool
  fi_name :: "string option"
  fi_avatar :: "string option"

record db =
  refresh_tokens :: "refresh_row list"
  auth_codes :: "code_row list"
  devices :: "device_row list"
  clients :: "client_row list"
  users :: "user_row list"
  orgs :: "org_row list"
  memberships :: "membership_row list"
  consents :: "consent_row list"
  agents :: "agent_row list"
  assertion_jtis :: "jti_row list"
  api_keys :: "api_key_row list"
  magic_links :: "magic_row list"
  known_devices :: "(string \<times> string) list"
  org_roles :: "role_row list"
  passkeys :: "passkey_row list"
  linked_wallets :: "wallet_row list"
  oauth_identities :: "identity_row list"
  effects :: "effect list"

definition emit :: "effect \<Rightarrow> db \<Rightarrow> db" where
  "emit e d = d\<lparr>effects := effects d @ [e]\<rparr>"

definition find_client :: "db \<Rightarrow> string \<Rightarrow> client_row option" where
  "find_client d cid = List.find (\<lambda>c. cl_client_id c = cid) (clients d)"

definition find_user :: "db \<Rightarrow> string \<Rightarrow> user_row option" where
  "find_user d uid = List.find (\<lambda>u. us_id u = uid) (users d)"

definition find_refresh :: "refresh_row list \<Rightarrow> string \<Rightarrow> refresh_row option" where
  "find_refresh t lookup = List.find (\<lambda>r. rt_lookup r = Some lookup) t"

definition find_refresh_id :: "refresh_row list \<Rightarrow> string \<Rightarrow> refresh_row option" where
  "find_refresh_id t i = List.find (\<lambda>r. rt_id r = i) t"

text \<open>A client row as the scope and the resource rule read it.\<close>

definition scope_client_of :: "client_row \<Rightarrow> scope_client" where
  "scope_client_of c = Client_Row \<lparr>sb_client_id = cl_client_id c,
     sb_allowed_scopes = Some (cl_allowed_scopes c), sb_is_public = Some (cl_is_public c)\<rparr>"

definition resource_client_of :: "client_row \<Rightarrow> resource_client" where
  "resource_client_of c = \<lparr>rc_client_id = cl_client_id c, rc_is_public = Some (cl_is_public c),
     rc_allowed_audiences = Some (cl_allowed_audiences c),
     rc_redirect_uris = Some (cl_redirect_uris c)\<rparr>"

text \<open>\<open>create\<close> on the refresh-token table: the primary key and the lookup are unique.\<close>

definition insert_refresh :: "refresh_row \<Rightarrow> refresh_row list \<Rightarrow> error + refresh_row list" where
  "insert_refresh r t =
     (if list_ex (\<lambda>x. rt_id x = rt_id r \<or> (rt_lookup r \<noteq> None \<and> rt_lookup x = rt_lookup r)) t
      then Inl Db_Conflict else Inr (t @ [r]))"

lemma emit_simps [simp]:
  "refresh_tokens (emit e d) = refresh_tokens d" "auth_codes (emit e d) = auth_codes d"
  "devices (emit e d) = devices d" "clients (emit e d) = clients d" "users (emit e d) = users d"
  "orgs (emit e d) = orgs d" "memberships (emit e d) = memberships d"
  "consents (emit e d) = consents d" "agents (emit e d) = agents d"
  "assertion_jtis (emit e d) = assertion_jtis d" "effects (emit e d) = effects d @ [e]"
  by (simp_all add: emit_def)

lemma find_client_emit [simp]: "find_client (emit e d) = find_client d"
  by (simp add: find_client_def fun_eq_iff)

lemma find_user_emit [simp]: "find_user (emit e d) = find_user d"
  by (simp add: find_user_def fun_eq_iff)

lemma find_refreshD: "find_refresh t l = Some r \<Longrightarrow> r \<in> set t \<and> rt_lookup r = Some l"
  unfolding find_refresh_def by (drule find_SomeD) simp

lemma find_refresh_idD: "find_refresh_id t i = Some r \<Longrightarrow> r \<in> set t \<and> rt_id r = i"
  unfolding find_refresh_id_def by (drule find_SomeD) simp

lemma find_clientD: "find_client d i = Some c \<Longrightarrow> c \<in> set (clients d) \<and> cl_client_id c = i"
  unfolding find_client_def by (drule find_SomeD) simp

lemma find_userD: "find_user d i = Some u \<Longrightarrow> u \<in> set (users d) \<and> us_id u = i"
  unfolding find_user_def by (drule find_SomeD) simp

end
