(* ===== verification/Field_Crypto.thy ===== *)
theory Field_Crypto
  imports Environment
begin

text \<open>
  \<open>src/common/field-crypto.ts\<close>: the envelope \<open>v1.<iv>.<tag>.<ciphertext>\<close> of an encrypted column.
  The cipher is a primitive; the envelope, its recognition and the pass-through of legacy
  plaintext are modelled.  \<open>fc_key\<close> is the derived key, or none when the environment has none.
\<close>

record field_crypto =
  fc_key :: "string option"

definition key_missing :: string where
  "key_missing = ''FIELD_ENCRYPTION_KEY is not configured'' @
     '' - required to encrypt/decrypt at-rest secrets (e.g. 2FA)''"

definition isEncrypted :: "string option \<Rightarrow> bool" where
  "isEncrypted v = (case v of None \<Rightarrow> False
     | Some s \<Rightarrow> prefix ''v1.'' s \<and> length (split_char CHR ''.'' s) = 4)"

definition encrypt :: "prims \<Rightarrow> field_crypto \<Rightarrow> string \<Rightarrow> string \<Rightarrow> error + string" where
  "encrypt P fc iv plaintext =
     (case fc_key fc of
        None \<Rightarrow> Inl (Server_Error key_missing)
      | Some k \<Rightarrow> (case p_seal P k iv plaintext of
                     (tag, ct) \<Rightarrow> Inr (join_with ''.'' [''v1'', iv, tag, ct])))"

definition decrypt :: "prims \<Rightarrow> field_crypto \<Rightarrow> string \<Rightarrow> error + string" where
  "decrypt P fc v =
     (if \<not> isEncrypted (Some v) then Inr v
      else case fc_key fc of
             None \<Rightarrow> Inl (Server_Error key_missing)
           | Some k \<Rightarrow>
               let parts = split_char CHR ''.'' v
               in (case p_open P k (parts ! 1) (parts ! 2) (parts ! 3) of
                     None \<Rightarrow> Inl (Server_Error ''Unsupported state or unable to authenticate data'')
                   | Some m \<Rightarrow> Inr m))"

text \<open>
  What the cipher and the encoding promise under a key: opening what was sealed returns the
  plaintext, and base64url has no dot.
\<close>

definition no_dot :: "string \<Rightarrow> bool" where
  "no_dot s \<longleftrightarrow> CHR ''.'' \<notin> set s"

definition cipher_ok :: "prims \<Rightarrow> string \<Rightarrow> bool" where
  "cipher_ok P k \<longleftrightarrow> (\<forall>iv m. no_dot iv \<longrightarrow>
     (case p_seal P k iv m of (tag, ct) \<Rightarrow> no_dot tag \<and> no_dot ct \<and> p_open P k iv tag ct = Some m))"

lemma envelope_split:
  assumes "no_dot iv" "no_dot tag" "no_dot ct"
  shows "split_char CHR ''.'' (join_with ''.'' [''v1'', iv, tag, ct]) = [''v1'', iv, tag, ct]"
proof -
  have "split_by (\<lambda>c. c = CHR ''.'') (join_with [CHR ''.''] [''v1'', iv, tag, ct]) = [''v1'', iv, tag, ct]"
    by (rule split_by_join [where d = "CHR ''.''"]) (use assms in \<open>auto simp: no_dot_def\<close>)
  then show ?thesis by (simp only: split_char_def)
qed

lemma cipher_okD:
  assumes "cipher_ok P k" and "no_dot iv" and "p_seal P k iv m = (tag, ct)"
  shows "no_dot tag" and "no_dot ct" and "p_open P k iv tag ct = Some m"
proof -
  have "case p_seal P k iv m of (tag, ct) \<Rightarrow> no_dot tag \<and> no_dot ct \<and> p_open P k iv tag ct = Some m"
    by (rule assms(1) [unfolded cipher_ok_def, rule_format, OF assms(2)])
  then show "no_dot tag" and "no_dot ct" and "p_open P k iv tag ct = Some m"
    by (simp_all add: assms(3))
qed

lemma encrypt_isEncrypted:
  assumes "cipher_ok P k" and "no_dot iv" and "fc_key fc = Some k" and "encrypt P fc iv m = Inr v"
  shows "isEncrypted (Some v)"
proof -
  obtain tag ct where s: "p_seal P k iv m = (tag, ct)" by fastforce
  note nd = cipher_okD(1,2) [OF assms(1,2) s]
  have v: "v = join_with ''.'' [''v1'', iv, tag, ct]"
    using assms(3,4) s by (simp add: encrypt_def)
  have "length (split_char CHR ''.'' v) = 4"
    by (simp only: v envelope_split [OF assms(2) nd]) simp
  moreover have "prefix ''v1.'' v" unfolding v by simp
  ultimately show ?thesis by (simp add: isEncrypted_def)
qed

lemma decrypt_encrypt:
  assumes "cipher_ok P k" and "no_dot iv" and "fc_key fc = Some k" and "encrypt P fc iv m = Inr v"
  shows "decrypt P fc v = Inr m"
proof -
  obtain tag ct where s: "p_seal P k iv m = (tag, ct)" by fastforce
  note c = cipher_okD [OF assms(1,2) s]
  have v: "v = join_with ''.'' [''v1'', iv, tag, ct]"
    using assms(3,4) s by (simp add: encrypt_def)
  have e: "isEncrypted (Some v)" by (rule encrypt_isEncrypted [OF assms])
  have sp: "split_char CHR ''.'' v = [''v1'', iv, tag, ct]"
    unfolding v by (rule envelope_split [OF assms(2) c(1,2)])
  show ?thesis using e sp assms(3) c(3) by (simp add: decrypt_def Let_def)
qed

end
