(* ===== verification/Samples.thy ===== *)
theory Samples
  imports Database Field_Crypto
begin

text \<open>
  Concrete primitives, rows and databases for the witnesses.  The sample cipher is an escape code
  (no dot in what it writes), which is enough for the law \<open>cipher_ok\<close> of an authenticated cipher to
  hold of it for every plaintext; the sample digests are injective.
\<close>

section \<open>Primitives\<close>

fun esc :: "string \<Rightarrow> string" where
  "esc [] = []"
| "esc (c # cs) =
     (if c = CHR ''.'' then ''~d'' @ esc cs else if c = CHR ''~'' then ''~~'' @ esc cs else c # esc cs)"

fun unesc :: "string \<Rightarrow> string" where
  "unesc [] = []"
| "unesc [c] = [c]"
| "unesc (c # c' # cs) =
     (if c = CHR ''~'' then (if c' = CHR ''d'' then CHR ''.'' else CHR ''~'') # unesc cs
      else c # unesc (c' # cs))"

lemma unesc_plain: "c \<noteq> CHR ''~'' \<Longrightarrow> unesc (c # cs) = c # unesc cs"
  by (cases cs) simp_all

lemma unesc_esc [simp]: "unesc (esc m) = m"
  by (induction m) (simp_all add: unesc_plain)

lemma esc_no_dot [simp]: "no_dot (esc m)"
  by (induction m) (auto simp: no_dot_def)

definition demo_stringify :: "json \<Rightarrow> string" where
  "demo_stringify j = (if j = JNull then ''null'' else ''pair'')"

definition demo_prims :: "(string \<Rightarrow> json option) \<Rightarrow> prims" where
  "demo_prims parse =
     \<lparr>p_hmac = (\<lambda>k m. ''h:'' @ m), p_sha256 = (\<lambda>m. ''s:'' @ m), p_sha256_hex = (\<lambda>m. m),
      p_seal = (\<lambda>k iv m. (''tag'', esc m)), p_open = (\<lambda>k iv tag ct. Some (unesc ct)),
      p_stringify = demo_stringify, p_json_parse = parse,
      p_sign = (\<lambda>c o1. ''jwt:'' @ so_audience o1), p_parse_url = demo_parse\<rparr>"

abbreviation P0 :: prims where "P0 \<equiv> demo_prims (\<lambda>_. None)"

lemma demo_cipher_ok: "cipher_ok (demo_prims parse) k"
  by (simp add: cipher_ok_def demo_prims_def) (simp add: no_dot_def)

definition demo_config :: config where
  "demo_config = \<lparr>cf_store = (\<lambda>k. if k = ''RBAC_TOKEN_CLAIMS_ENABLED'' then Some ''true'' else None),
                  cf_env = (\<lambda>_. None)\<rparr>"

lemma demo_parse_json [simp]: "p_json_parse (demo_prims parse) = parse"
  by (simp add: demo_prims_def)

section \<open>Rows\<close>

definition ann :: user_row where
  "ann = \<lparr>us_id = ''u1'', us_did = ''did:web:ann'', us_email = Some ''ann@x.io'',
     us_email_verified = True, us_name = Some ''Ann'', us_avatar = None, us_metadata = None,
     us_failed_logins = 0, us_lockout_until = None, us_password_hash = Some ''b:hunter2'',
     us_reset_token = None, us_reset_expires = None, us_reset_params = None, us_totp_secret = None, us_totp_enabled = False,
     us_verify_token = None, us_verify_expires = None, us_bio = None, us_location = None, us_profession = None\<rparr>"

definition shop :: client_row where
  "shop = \<lparr>cl_client_id = ''shop'', cl_name = ''Shop'', cl_secret_hash = ''s:secret'',
     cl_prev_secret_hash = None, cl_prev_secret_expires = None,
     cl_redirect_uris = [''https://app.example/cb''], cl_allowed_scopes = [''offline_access''],
     cl_allowed_grants = [''authorization_code'', ''refresh_token''], cl_company = Some ''acme'',
     cl_allowed_audiences = [], cl_custom_claims = None, cl_is_public = False,
     cl_auth_method = ''client_secret_post'', cl_jwks = None, cl_active = True,
     cl_first_party = True, cl_customer_lane = False, cl_jwks_uri = None,
     cl_tls_subject_dn = None, cl_logo_url = None, cl_privacy_url = None, cl_terms_url = None, cl_backchannel_uri = None\<rparr>"

definition acme :: org_row where
  "acme = \<lparr>og_id = ''o1'', og_company = ''acme'', og_slug = ''acme'', og_name = ''Acme'',
     og_metadata = None\<rparr>"

definition ann_acme :: membership_row where
  "ann_acme = \<lparr>mb_user = ''u1'', mb_org = ''o1'', mb_role = ''admin'', mb_status = ''active'',
     mb_external = None\<rparr>"

definition row0 :: refresh_row where
  "row0 = \<lparr>rt_id = ''t1'', rt_lookup = Some ''h:first'', rt_user = ''u1'', rt_client = ''shop'',
     rt_company = Some ''acme'', rt_scope = Some ''openid offline_access'', rt_nonce = None,
     rt_amr = [''pwd''], rt_details = None, rt_resource = None, rt_expires = 1000000,
     rt_rotated_from = None, rt_grace_replay = None, rt_grace_until = None, rt_revoked = False,
     rt_revoked_at = None, rt_created = 0, rt_ip = None, rt_user_agent = None, rt_last_used = None\<rparr>"

definition demo_db :: db where
  "demo_db = \<lparr>refresh_tokens = [row0], auth_codes = [], devices = [], clients = [shop], users = [ann],
     orgs = [acme], memberships = [ann_acme], consents = [], agents = [], assertion_jtis = [],
     api_keys = [], magic_links = [], known_devices = [], org_roles = [], passkeys = [], linked_wallets = [],
     oauth_identities = [], effects = []\<rparr>"

definition demo_rq :: request where
  "demo_rq = \<lparr>rq_now = 5000, rq_id = ''rq'', rq_ip = None, rq_user_agent = None\<rparr>"

definition demo_en :: entropy where
  "demo_en = \<lparr>en_token = ''second'', en_row_id = ''t2'', en_agent_id = ''a1'', en_org_id = ''o9'',
     en_iv = ''iv''\<rparr>"

end
