(* ===== verification/Customer_Lane.thy ===== *)
theory Customer_Lane
  imports Samples
begin

text \<open>
  \<open>src/oauth/customer-lane.ts\<close> (the rules) and \<open>src/oauth/customer-lane.service.ts\<close> (the database
  side): a tenant's own customers sign in without a password and hold a \<open>customer\<close> membership in the
  hinted organization, for a marked request of a lane client that the organization has.
\<close>

section \<open>The rules\<close>

definition CUSTOMER_ROLE :: string where "CUSTOMER_ROLE = ''customer''"

definition PASSWORDLESS_AMR :: "string list" where
  "PASSWORDLESS_AMR = [''otp'', ''magic-link'']"

definition CLOSED_STATUSES :: "string list" where
  "CLOSED_STATUSES = [''inactive'', ''suspended'', ''archived'', ''deleted'']"

record lane_org =
  lo_id :: string
  lo_company :: string
  lo_slug :: string

record lane_client =
  lc_client_id :: string
  lc_company :: "string option"
  lc_customer_lane :: bool

definition normalizeCustomerMarker :: "string option \<Rightarrow> string option" where
  "normalizeCustomerMarker raw =
     (if raw = Some ''1'' \<or> raw = Some ''true'' then Some ''1'' else None)"

definition normalizeOrganizationHint :: "string option \<Rightarrow> string option" where
  "normalizeOrganizationHint raw =
     (case raw of None \<Rightarrow> None
      | Some s \<Rightarrow> let v = lower (trim s) in if v = [] then None else Some v)"

definition is_slug_head :: "char \<Rightarrow> bool" where
  "is_slug_head c = (let n = of_char c :: nat in (97 \<le> n \<and> n \<le> 122) \<or> (48 \<le> n \<and> n \<le> 57))"

text \<open>\<open>^[a-z0-9][a-z0-9-]{0,62}$\<close>.\<close>

definition isSlug :: "string \<Rightarrow> bool" where
  "isSlug v = (case v of [] \<Rightarrow> False
     | c # cs \<Rightarrow> is_slug_head c \<and> length cs \<le> 62 \<and> list_all (\<lambda>x. is_slug_head x \<or> x = CHR ''-'') cs)"

definition metadataOf :: "json option \<Rightarrow> json" where
  "metadataOf m = (case m of Some (JObj kvs) \<Rightarrow> JObj kvs | _ \<Rightarrow> JObj [])"

definition isOrganizationActive :: "json option \<Rightarrow> bool" where
  "isOrganizationActive md =
     (let m = metadataOf md
      in if jget m ''active'' = Some (JBool False) then False
         else (case jstr (jget m ''status'') of None \<Rightarrow> True | Some s \<Rightarrow> s \<notin> set CLOSED_STATUSES))"

definition orgAllowsClient :: "org_row \<Rightarrow> lane_client \<Rightarrow> bool" where
  "orgAllowsClient org client =
     (if truthy (lc_company client) \<and> lc_company client = Some (og_company org) then True
      else (case jget (metadataOf (og_metadata org)) ''customerLane'' of
              None \<Rightarrow> False
            | Some lane \<Rightarrow>
                (case jarr (jget lane ''clients'') of
                   None \<Rightarrow> False
                 | Some cs \<Rightarrow> JStr (lc_client_id client) \<in> set cs)))"

definition isPasswordlessSession :: "string list \<Rightarrow> bool" where
  "isPasswordlessSession amr \<longleftrightarrow> ''pwd'' \<notin> set amr \<and> list_ex (\<lambda>m. m \<in> set PASSWORDLESS_AMR) amr"

datatype lane_verdict = Staff | Customer | Passwordless | Closed

definition laneVerdict :: "membership_row option \<Rightarrow> string list \<Rightarrow> lane_verdict" where
  "laneVerdict membership amr =
     (case membership of
        None \<Rightarrow> if isPasswordlessSession amr then Customer else Passwordless
      | Some m \<Rightarrow> if mb_status m \<noteq> ''active'' then Closed
                  else if mb_role m \<noteq> CUSTOMER_ROLE then Staff
                  else if isPasswordlessSession amr then Customer else Passwordless)"

text \<open>\<open>clientRow\<close> is the client's tenant and lane flag, or none; \<open>granted\<close> the org the grant is for.\<close>

definition tokenTenant :: "(string option \<times> bool) option \<Rightarrow> string option \<Rightarrow> string option" where
  "tokenTenant clientRow granted =
     (case clientRow of
        None \<Rightarrow> None
      | Some (company, lane) \<Rightarrow> if lane \<and> truthy granted then granted else company)"

definition staffRoles :: "string list \<Rightarrow> string list" where
  "staffRoles roles = filter (\<lambda>r. r \<noteq> CUSTOMER_ROLE) roles"

section \<open>The service\<close>

definition UNKNOWN_ORG :: error where
  "UNKNOWN_ORG = Bad_Request (OAuth ''invalid_request'' (Some ''Unknown or inactive organization''))"

definition NOT_BOUND :: error where
  "NOT_BOUND = Bad_Request (OAuth ''unauthorized_client''
     (Some ''This client may not sign in customers for that organization''))"

definition orgFor :: "config \<Rightarrow> lane_client \<Rightarrow> string option \<Rightarrow> string option \<Rightarrow> db \<Rightarrow> error + lane_org option" where
  "orgFor cf client organization customer d =
     (case normalizeOrganizationHint organization of
        None \<Rightarrow> Inr None
      | Some slug \<Rightarrow>
          if normalizeCustomerMarker customer = None \<or> \<not> lc_customer_lane client then Inr None
          else if \<not> setting_flag cf ''CUSTOMER_LANE_ENABLED'' then Inr None
          else if \<not> isSlug slug then Inl UNKNOWN_ORG
          else (case List.find (\<lambda>o1. og_slug o1 = slug) (orgs d) of
                  None \<Rightarrow> Inl UNKNOWN_ORG
                | Some org \<Rightarrow>
                    if \<not> isOrganizationActive (og_metadata org) then Inl UNKNOWN_ORG
                    else if \<not> orgAllowsClient org client then Inl NOT_BOUND
                    else Inr (Some \<lparr>lo_id = og_id org, lo_company = og_company org, lo_slug = og_slug org\<rparr>)))"

definition membershipOf :: "db \<Rightarrow> string \<Rightarrow> string \<Rightarrow> membership_row option" where
  "membershipOf d userId orgId = List.find (\<lambda>m. mb_user m = userId \<and> mb_org m = orgId) (memberships d)"

text \<open>\<open>membership.create\<close>: the pair of user and organization is unique.\<close>

definition insert_membership :: "membership_row \<Rightarrow> db \<Rightarrow> error + db" where
  "insert_membership m d =
     (if list_ex (\<lambda>x. mb_user x = mb_user m \<and> mb_org x = mb_org m) (memberships d)
      then Inl Db_Conflict else Inr (d\<lparr>memberships := memberships d @ [m]\<rparr>))"

definition createCustomer :: "string \<Rightarrow> string \<Rightarrow> db \<Rightarrow> (error + string) \<times> db" where
  "createCustomer userId orgId d =
     (case insert_membership \<lparr>mb_user = userId, mb_org = orgId, mb_role = CUSTOMER_ROLE,
                              mb_status = ''active'', mb_external = None\<rparr> d of
        Inr d1 \<Rightarrow> (Inr CUSTOMER_ROLE, d1)
      | Inl _ \<Rightarrow>
          (case membershipOf d userId orgId of
             None \<Rightarrow> (Inl (Forbidden (OAuth ''access_denied'' None)), d)
           | Some row \<Rightarrow> if mb_status row \<noteq> ''active''
                         then (Inl (Forbidden (OAuth ''access_denied'' None)), d)
                         else (Inr (mb_role row), d)))"

definition recordJoined :: "string \<Rightarrow> string \<Rightarrow> lane_org \<Rightarrow> db \<Rightarrow> db" where
  "recordJoined userId clientId org d =
     emit (Audit \<lparr>ae_event = ''membership.customer.created'', ae_client = Some clientId,
       ae_company = Some (Some (lo_company org)), ae_sub = None, ae_scopes = [], ae_audience = None,
       ae_ip = None, ae_user_agent = None, ae_success = True, ae_error = None,
       ae_metadata = [(''userId'', JStr userId), (''organizationId'', JStr (lo_id org))]\<rparr>) d"

definition admit ::
  "string \<Rightarrow> string \<Rightarrow> lane_org \<Rightarrow> string list \<Rightarrow> db \<Rightarrow> (error + (string \<times> bool)) \<times> db"
where
  "admit userId clientId org amr d =
     (let existing = membershipOf d userId (lo_id org)
      in case laneVerdict existing amr of
           Closed \<Rightarrow> (Inl (Forbidden (OAuth ''access_denied'' (Some ''Membership is not active''))), d)
         | Passwordless \<Rightarrow>
             (Inl (Unauthorized (OAuth ''login_required''
                (Some ''Customers sign in with an email code or a sign-in link''))), d)
         | _ \<Rightarrow>
             (case existing of
                Some m \<Rightarrow> (Inr (mb_role m, False), d)
              | None \<Rightarrow>
                  (case find_user d userId of
                     Some u \<Rightarrow>
                       if \<not> us_email_verified u
                       then (Inl (Unauthorized (OAuth ''login_required'' (Some ''Email address not verified''))), d)
                       else (case createCustomer userId (lo_id org) d of
                               (Inl e, d1) \<Rightarrow> (Inl e, d1)
                             | (Inr role, d1) \<Rightarrow>
                                 (Inr (role, role = CUSTOMER_ROLE),
                                  if role = CUSTOMER_ROLE then recordJoined userId clientId org d1 else d1))
                   | None \<Rightarrow>
                       (Inl (Unauthorized (OAuth ''login_required'' (Some ''Email address not verified''))), d))))"

section \<open>Lemmas\<close>

lemma membershipOfD: "membershipOf d u i = Some m \<Longrightarrow> m \<in> set (memberships d) \<and> mb_user m = u \<and> mb_org m = i"
  unfolding membershipOf_def by (drule find_SomeD) simp

lemma membershipOf_None_insert:
  assumes "membershipOf d u i = None"
  shows "insert_membership \<lparr>mb_user = u, mb_org = i, mb_role = r, mb_status = st, mb_external = x\<rparr> d
     = Inr (d\<lparr>memberships := memberships d @ [\<lparr>mb_user = u, mb_org = i, mb_role = r, mb_status = st, mb_external = x\<rparr>]\<rparr>)"
  using find_NoneD [OF assms [unfolded membershipOf_def]]
  by (auto simp: insert_membership_def list_ex_iff)

lemma createCustomer_new:
  assumes "membershipOf d u i = None"
  shows "createCustomer u i d = (Inr CUSTOMER_ROLE, d\<lparr>memberships := memberships d @
     [\<lparr>mb_user = u, mb_org = i, mb_role = CUSTOMER_ROLE, mb_status = ''active'', mb_external = None\<rparr>]\<rparr>)"
  by (simp add: createCustomer_def membershipOf_None_insert [OF assms])

lemma lane_customer_passwordless: "laneVerdict m amr = Customer \<Longrightarrow> isPasswordlessSession amr"
  by (auto simp: laneVerdict_def split: option.splits if_splits)

text \<open>A request is in the lane only when the lane is enabled, the client is a lane client, the
  request is marked, and the named organization exists, is not closed and has the client: it is the
  client's own tenant or lists the client by name.  Every other hint is ignored or refused, never
  honoured.\<close>

theorem lane_org_safe:
  assumes "orgFor cf client organization customer d = Inr (Some lo)"
  shows "setting_flag cf ''CUSTOMER_LANE_ENABLED'' \<and> lc_customer_lane client
     \<and> normalizeCustomerMarker customer = Some ''1''
     \<and> (\<exists>org \<in> set (orgs d). og_id org = lo_id lo \<and> og_company org = lo_company lo
          \<and> normalizeOrganizationHint organization = Some (og_slug org) \<and> isSlug (og_slug org)
          \<and> isOrganizationActive (og_metadata org) \<and> orgAllowsClient org client)"
proof -
  from assms obtain slug org where o:
    "normalizeOrganizationHint organization = Some slug" "normalizeCustomerMarker customer \<noteq> None"
    "lc_customer_lane client" "setting_flag cf ''CUSTOMER_LANE_ENABLED''" "isSlug slug"
    "List.find (\<lambda>o1. og_slug o1 = slug) (orgs d) = Some org"
    "isOrganizationActive (og_metadata org)" "orgAllowsClient org client"
    "lo = \<lparr>lo_id = og_id org, lo_company = og_company org, lo_slug = og_slug org\<rparr>"
    unfolding orgFor_def by (auto split: option.splits if_splits)
  have "org \<in> set (orgs d)" and "og_slug org = slug" using find_SomeD [OF o(6)] by simp_all
  then show ?thesis using o by (auto simp: normalizeCustomerMarker_def split: if_splits)
qed

text \<open>Admitting a person never changes a membership that is there: a staff member keeps the
  role, a membership that is not active is refused rather than revived, and no other person's or
  organization's membership moves.  A membership is only ever added for a person who had none, as an
  active \<open>customer\<close>, after a passwordless sign-in and with a verified address.\<close>

theorem lane_admit_safe:
  assumes "admit userId clientId org amr d = (Inr (role, created), d')"
  shows "(\<exists>m. membershipOf d userId (lo_id org) = Some m \<and> mb_status m = ''active'' \<and> role = mb_role m
            \<and> \<not> created \<and> memberships d' = memberships d
            \<and> (mb_role m = CUSTOMER_ROLE \<longrightarrow> isPasswordlessSession amr))
       \<or> (membershipOf d userId (lo_id org) = None \<and> role = CUSTOMER_ROLE \<and> created
            \<and> isPasswordlessSession amr
            \<and> (\<exists>u. find_user d userId = Some u \<and> us_email_verified u)
            \<and> memberships d' = memberships d @ [\<lparr>mb_user = userId, mb_org = lo_id org,
                 mb_role = CUSTOMER_ROLE, mb_status = ''active'', mb_external = None\<rparr>])"
proof (cases "membershipOf d userId (lo_id org)")
  case (Some m)
  then show ?thesis using assms
    by (auto simp: admit_def laneVerdict_def split: if_splits)
next
  case None
  then show ?thesis using assms
    by (auto simp: admit_def laneVerdict_def createCustomer_new [OF None] recordJoined_def
        split: if_splits option.splits)
qed

text \<open>A refused admission leaves every membership as it was.\<close>

theorem lane_refusal_keeps_memberships:
  assumes "admit userId clientId org amr d = (Inl e, d')"
  shows "d' = d"
proof (cases "membershipOf d userId (lo_id org)")
  case (Some m)
  then show ?thesis using assms
    by (auto simp: admit_def laneVerdict_def split: if_splits)
next
  case None
  then show ?thesis using assms
    by (auto simp: admit_def laneVerdict_def createCustomer_new [OF None]
        split: if_splits option.splits)
qed

text \<open>The witnesses: a salon that lists the product's client, and a person with an emailed code.\<close>

definition lane_config :: config where
  "lane_config = demo_config\<lparr>cf_env := (\<lambda>k. if k = ''CUSTOMER_LANE_ENABLED'' then Some ''true'' else None)\<rparr>"

definition booking :: lane_client where
  "booking = \<lparr>lc_client_id = ''booking'', lc_company = Some ''acme'', lc_customer_lane = True\<rparr>"

definition acme_lane :: lane_org where
  "acme_lane = \<lparr>lo_id = ''o1'', lo_company = ''acme'', lo_slug = ''acme''\<rparr>"

theorem lane_org_safe_witness:
  "orgFor lane_config booking (Some '' Acme '') (Some ''1'') demo_db = Inr (Some acme_lane)
   \<and> (\<exists>org \<in> set (orgs demo_db). orgAllowsClient org booking)"
proof -
  have o1: "orgFor lane_config booking (Some '' Acme '') (Some ''1'') demo_db = Inr (Some acme_lane)"
    by code_simp
  then show ?thesis using lane_org_safe [OF o1] by blast
qed

theorem lane_admit_safe_witness:
  "\<exists>d'. admit ''u1'' ''booking'' acme_lane [''otp''] (demo_db\<lparr>memberships := []\<rparr>) = (Inr (CUSTOMER_ROLE, True), d')
     \<and> isPasswordlessSession [''otp''] \<and> length (memberships d') = 1"
proof -
  have "ok (fst (admit ''u1'' ''booking'' acme_lane [''otp''] (demo_db\<lparr>memberships := []\<rparr>))) = Some (CUSTOMER_ROLE, True)"
    by code_simp
  then obtain d' where a: "admit ''u1'' ''booking'' acme_lane [''otp''] (demo_db\<lparr>memberships := []\<rparr>) = (Inr (CUSTOMER_ROLE, True), d')"
    by (cases "admit ''u1'' ''booking'' acme_lane [''otp''] (demo_db\<lparr>memberships := []\<rparr>)") (auto simp: ok_Some_iff)
  from lane_admit_safe [OF a] a show ?thesis by auto
qed

theorem lane_refusal_keeps_memberships_witness:
  "\<exists>e. admit ''u1'' ''booking'' acme_lane [''pwd''] (demo_db\<lparr>memberships := []\<rparr>)
     = (Inl e, demo_db\<lparr>memberships := []\<rparr>)"
proof -
  have "ok (fst (admit ''u1'' ''booking'' acme_lane [''pwd''] (demo_db\<lparr>memberships := []\<rparr>))) = None"
    by code_simp
  then obtain e d' where a: "admit ''u1'' ''booking'' acme_lane [''pwd''] (demo_db\<lparr>memberships := []\<rparr>) = (Inl e, d')"
    by (cases "admit ''u1'' ''booking'' acme_lane [''pwd''] (demo_db\<lparr>memberships := []\<rparr>)") (auto simp: ok_None_iff)
  from lane_refusal_keeps_memberships [OF a] a show ?thesis by auto
qed

end
