(* ===== verification/Claims.thy ===== *)
theory Claims
  imports Customer_Lane
begin

text \<open>
  The claim builders an issued token is made of: \<open>src/oauth/custom-claims.ts\<close>,
  \<open>src/oauth/org-claims.ts\<close>, \<open>src/oauth/platform-role-claim.ts\<close> with the user part of
  \<open>src/admin/admin-scope.ts\<close>, and \<open>src/organizations/demo-tenant.ts\<close>.  A claims object is the
  list of its members in source order, spreads included; \<open>mk_obj\<close> gives it JavaScript's meaning,
  where a later member replaces an earlier one of the same name.
\<close>

section \<open>Object literals with spreads\<close>

fun obj_put :: "string \<Rightarrow> json \<Rightarrow> (string \<times> json) list \<Rightarrow> (string \<times> json) list" where
  "obj_put k v [] = [(k, v)]"
| "obj_put k v ((k', v') # kvs) = (if k = k' then (k, v) # kvs else (k', v') # obj_put k v kvs)"

definition mk_obj :: "(string \<times> json) list \<Rightarrow> json" where
  "mk_obj kvs = JObj (fold (\<lambda>(k, v). obj_put k v) kvs [])"

lemma map_of_obj_put: "map_of (obj_put k v kvs) = (map_of kvs)(k \<mapsto> v)"
  by (induction kvs) (auto simp: fun_upd_twist)

lemma map_of_fold_put: "map_of (fold (\<lambda>(k, v). obj_put k v) kvs acc) = map_of acc ++ map_of (rev kvs)"
  by (induction kvs arbitrary: acc) (auto simp: map_of_obj_put)

lemma jget_mk_obj: "jget (mk_obj kvs) k = map_of (rev kvs) k"
  by (simp add: mk_obj_def map_of_fold_put)

text \<open>A member survives a spread that does not name it.\<close>

lemma jget_last_named:
  assumes "k \<notin> fst ` set ys"
  shows "jget (mk_obj (xs @ (k, v) # ys)) k = Some v"
  using assms by (simp add: jget_mk_obj map_add_dom_app_simps(3) dom_map_of_conv_image_fst
      map_add_def map_of_eq_None_iff [THEN iffD2] split: option.split)

definition jopt :: "string option \<Rightarrow> json" where
  "jopt v = (case v of None \<Rightarrow> JNull | Some s \<Rightarrow> JStr s)"

section \<open>Custom claims\<close>

definition ALLOWED_CLAIM_KEYS :: "string list" where
  "ALLOWED_CLAIM_KEYS = [''policy'', ''packs'']"

definition MAX_VALUES_PER_KEY :: nat where "MAX_VALUES_PER_KEY = 16"

definition is_lower :: "char \<Rightarrow> bool" where
  "is_lower c = (let n = of_char c :: nat in 97 \<le> n \<and> n \<le> 122)"

text \<open>\<open>^[a-z][a-z0-9_-]{1,63}$\<close>, the charset of policy-set and pack names.\<close>

definition valid_name :: "string \<Rightarrow> bool" where
  "valid_name v = (case v of [] \<Rightarrow> False
     | c # cs \<Rightarrow> is_lower c \<and> 1 \<le> length cs \<and> length cs \<le> 63
               \<and> list_all (\<lambda>x. is_lower x \<or> is_digit x \<or> x = CHR ''_'' \<or> x = CHR ''-'') cs)"

definition claim_values :: "json list \<Rightarrow> string list" where
  "claim_values xs = take MAX_VALUES_PER_KEY (filter valid_name (strings_of xs))"

fun sanitize_entries :: "(string \<times> json) list \<Rightarrow> (string \<times> string list) list" where
  "sanitize_entries [] = []"
| "sanitize_entries ((k, v) # kvs) =
     (if k \<notin> set ALLOWED_CLAIM_KEYS then sanitize_entries kvs
      else (case v of
              JArr xs \<Rightarrow> if claim_values xs \<noteq> [] then (k, claim_values xs) # sanitize_entries kvs
                         else sanitize_entries kvs
            | _ \<Rightarrow> sanitize_entries kvs))"

definition sanitizeCustomClaims :: "json option \<Rightarrow> (string \<times> string list) list" where
  "sanitizeCustomClaims raw = (case raw of Some (JObj kvs) \<Rightarrow> sanitize_entries kvs | _ \<Rightarrow> [])"

definition custom_members :: "(string \<times> string list) list \<Rightarrow> (string \<times> json) list" where
  "custom_members cc = map (\<lambda>(k, vs). (k, JArr (map JStr vs))) cc"

lemma claim_values_valid: "v \<in> set (claim_values xs) \<Longrightarrow> valid_name v"
  unfolding claim_values_def by (drule in_set_takeD) simp

lemma claim_values_length: "length (claim_values xs) \<le> MAX_VALUES_PER_KEY"
  by (simp add: claim_values_def)

lemma sanitize_entries_safe:
  "(k, vs) \<in> set (sanitize_entries kvs) \<Longrightarrow>
     k \<in> set ALLOWED_CLAIM_KEYS \<and> vs \<noteq> [] \<and> length vs \<le> MAX_VALUES_PER_KEY \<and> (\<forall>v \<in> set vs. valid_name v)"
proof (induction kvs)
  case (Cons kv kvs)
  obtain k' v where kv: "kv = (k', v)" by (cases kv)
  show ?case
  proof (cases v)
    case (JArr xs)
    then show ?thesis using Cons kv
      by (auto simp: claim_values_length dest: claim_values_valid split: if_splits)
  qed (use Cons kv in \<open>auto split: if_splits\<close>)
qed simp

lemma sanitize_keys: "fst ` set (sanitizeCustomClaims raw) \<subseteq> set ALLOWED_CLAIM_KEYS"
  unfolding sanitizeCustomClaims_def
  by (auto split: option.splits json.splits dest!: sanitize_entries_safe)

lemma custom_member_keys: "fst ` set (custom_members cc) = fst ` set cc"
  by (force simp: custom_members_def)

section \<open>Platform role\<close>

datatype admin_scope = Superadmin | Scoped string

definition meta_list :: "json \<Rightarrow> string \<Rightarrow> json list" where
  "meta_list m k = nullish (jarr (jget m k)) []"

definition resolveUserScope :: "json option \<Rightarrow> admin_scope option" where
  "resolveUserScope metadata =
     (let m = nullish metadata (JObj []); roles = meta_list m ''roles''
      in if jget m ''isSuperadmin'' = Some (JBool True) \<or> JStr ''superadmin'' \<in> set roles
         then Some Superadmin
         else if \<not> (jget m ''isAdmin'' = Some (JBool True) \<or> JStr ''admin'' \<in> set roles) then None
         else (case jstr (jget m ''companyId'') of
                 Some c \<Rightarrow> if c \<noteq> [] then Some (Scoped c) else Some Superadmin
               | None \<Rightarrow> Some Superadmin))"

definition platformRoleClaim :: "json option \<Rightarrow> (string \<times> json) list" where
  "platformRoleClaim metadata =
     (if resolveUserScope metadata = Some Superadmin
      then [(''platform_role'', JStr ''superadmin'')] else [])"

section \<open>Demo tenant and org claims\<close>

definition DEMO_ORG_ID :: string where "DEMO_ORG_ID = ''a7a71c00-de00-4000-8000-000000000001''"

definition isDemoOrganization :: "org_row \<Rightarrow> bool" where
  "isDemoOrganization org =
     (if og_id org = DEMO_ORG_ID then True
      else (case og_metadata org of None \<Rightarrow> False
            | Some m \<Rightarrow> jget m ''isDemo'' = Some (JBool True)))"

record act_claim =
  act_sub :: string
  act_client :: string

record org_context =
  oc_roles :: "string list"
  oc_custom :: "(string \<times> string list) list"
  oc_org :: "string option"
  oc_org_id :: "string option"
  oc_org_role :: "string option"
  oc_org_slug :: "string option"
  oc_demo :: bool
  oc_act :: "act_claim option"

definition opt_member :: "string \<Rightarrow> string option \<Rightarrow> (string \<times> json) list" where
  "opt_member k v = (if truthy v then [(k, jopt v)] else [])"

definition orgClaims :: "org_context \<Rightarrow> (string \<times> json) list" where
  "orgClaims ctx =
     (if \<not> truthy (oc_org ctx) then []
      else [(''org'', jopt (oc_org ctx)), (''org_id'', jopt (oc_org_id ctx))]
           @ opt_member ''org_slug'' (oc_org_slug ctx)
           @ opt_member ''org_role'' (oc_org_role ctx)
           @ (if oc_demo ctx then [(''demo'', JBool True)] else []))"

lemma orgClaims_keys:
  "fst ` set (orgClaims ctx) \<subseteq> {''org'', ''org_id'', ''org_slug'', ''org_role'', ''demo''}"
  by (auto simp: orgClaims_def opt_member_def)

lemma platformRole_keys: "fst ` set (platformRoleClaim m) \<subseteq> {''platform_role''}"
  by (auto simp: platformRoleClaim_def)

text \<open>What an operator's custom-claims column adds to a token is only the \<open>policy\<close> and
  \<open>packs\<close> members, each a non-empty list of at most sixteen names of the policy charset, whatever
  JSON the column holds; so it can never restate a registered claim.\<close>

theorem custom_claims_safe:
  assumes "(k, vs) \<in> set (sanitizeCustomClaims raw)"
  shows "k \<in> {''policy'', ''packs''} \<and> vs \<noteq> [] \<and> length vs \<le> 16 \<and> (\<forall>v \<in> set vs. valid_name v)"
  using assms sanitize_entries_safe [of k vs]
  by (auto simp: sanitizeCustomClaims_def ALLOWED_CLAIM_KEYS_def MAX_VALUES_PER_KEY_def
      split: option.splits json.splits)

theorem custom_claims_safe_witness:
  "(''policy'', [''readers'']) \<in> set (sanitizeCustomClaims
     (Some (JObj [(''sub'', JStr ''did:x''), (''policy'', JArr [JStr ''readers'', JStr ''NOT ok''])])))
   \<and> valid_name ''readers''"
proof -
  have m: "(''policy'', [''readers'']) \<in> set (sanitizeCustomClaims
     (Some (JObj [(''sub'', JStr ''did:x''), (''policy'', JArr [JStr ''readers'', JStr ''NOT ok''])])))"
    by code_simp
  show ?thesis using m custom_claims_safe [OF m] by simp
qed

end
