(* ===== verification/Agents.thy ===== *)
theory Agents
  imports Claims
begin

text \<open>
  \<open>src/oauth/self-agent.ts\<close> and \<open>src/oauth/agents.service.ts\<close>: AI agents as principals.  A third
  party acting for a person gets one live agent row, made on first use, which the token names in
  \<open>act\<close>; a client that registered itself with its own credentials is an agent in its own right and
  is named by its DID, whose document publishes its public keys.
\<close>

section \<open>Agents that exist on their own\<close>

definition is_hex_lower :: "char \<Rightarrow> bool" where
  "is_hex_lower c \<longleftrightarrow> is_digit c \<or> (let n = of_char c :: nat in 97 \<le> n \<and> n \<le> 102)"

text \<open>\<open>^dcr_[0-9a-f]{32}$\<close>.\<close>

definition isSelfAgentId :: "string \<Rightarrow> bool" where
  "isSelfAgentId i \<longleftrightarrow> prefix ''dcr_'' i \<and> length i = 36 \<and> list_all is_hex_lower (drop 4 i)"

definition strip_slashes :: "string \<Rightarrow> string" where
  "strip_slashes p =
     rev (dropWhile (\<lambda>c. c = CHR ''/'') (rev (dropWhile (\<lambda>c. c = CHR ''/'') p)))"

text \<open>\<open>None\<close> where \<open>new URL(issuer)\<close> throws.\<close>

definition agentDid :: "prims \<Rightarrow> string \<Rightarrow> string \<Rightarrow> string option" where
  "agentDid P issuer agentId =
     (case p_parse_url P issuer of
        None \<Rightarrow> None
      | Some u \<Rightarrow>
          let host = (if url_port u \<noteq> [] then url_hostname u @ ''%3A'' @ url_port u else url_hostname u);
              path = strip_slashes (url_pathname u)
          in Some (join_with '':'' ([''did:web'', host]
               @ (if path \<noteq> [] then split_char CHR ''/'' path else []) @ [''agents'', agentId])))"

definition jwk_ok :: "json \<Rightarrow> bool" where
  "jwk_ok k \<longleftrightarrow> jstr (jget k ''kty'') \<noteq> None"

definition selfAgentKeys :: "client_row \<Rightarrow> json list" where
  "selfAgentKeys c =
     (case cl_jwks c of None \<Rightarrow> []
      | Some jwks \<Rightarrow> filter jwk_ok (nullish (jarr (jget jwks ''keys'')) []))"

definition isSelfAgent :: "client_row \<Rightarrow> bool" where
  "isSelfAgent c =
     (if \<not> isSelfAgentId (cl_client_id c) \<or> truthy (cl_company c) then False
      else if ''client_credentials'' \<notin> set (cl_allowed_grants c) then False
      else if cl_auth_method c = ''private_key_jwt'' then length (selfAgentKeys c) > 0
      else cl_auth_method c \<in> set [''client_secret_post'', ''client_secret_basic''])"

fun drop_member :: "string \<Rightarrow> json \<Rightarrow> json" where
  "drop_member k (JObj kvs) = JObj (filter (\<lambda>(k', v). k' \<noteq> k) kvs)"
| "drop_member k v = v"

definition key_method :: "string \<Rightarrow> nat \<Rightarrow> json \<Rightarrow> json" where
  "key_method i n jwk = mk_obj
     [(''id'', JStr (i @ ''#'' @ (case jstr (jget jwk ''kid'') of Some kid \<Rightarrow> kid
                                | None \<Rightarrow> ''key-'' @ nat_str (n + 1)))),
      (''type'', JStr ''JsonWebKey2020''), (''controller'', JStr i),
      (''publicKeyJwk'', drop_member ''d'' jwk)]"

definition key_methods :: "string \<Rightarrow> json list \<Rightarrow> json list" where
  "key_methods i keys = map (\<lambda>(n, jwk). key_method i n jwk) (List.enumerate 0 keys)"

definition client_service :: "string \<Rightarrow> client_row \<Rightarrow> json" where
  "client_service i c = mk_obj
     [(''id'', JStr (i @ ''#client'')), (''type'', JStr ''OAuthClient''),
      (''serviceEndpoint'', mk_obj [(''client_id'', JStr (cl_client_id c)), (''name'', JStr (cl_name c))])]"

definition selfAgentDocument :: "prims \<Rightarrow> string \<Rightarrow> client_row \<Rightarrow> json option" where
  "selfAgentDocument P issuer c =
     map_option (\<lambda>i.
       let methods = key_methods i (selfAgentKeys c);
           ids = map (\<lambda>m. nullish (jget m ''id'') JNull) methods
       in mk_obj
         [(''@context'', JArr [JStr ''https://www.w3.org/ns/did/v1'',
                              JStr ''https://w3id.org/security/suites/jws-2020/v1'']),
          (''id'', JStr i), (''controller'', JStr i), (''verificationMethod'', JArr methods),
          (''authentication'', JArr ids), (''assertionMethod'', JArr ids),
          (''service'', JArr [client_service i c])])
       (agentDid P issuer (cl_client_id c))"

section \<open>Agents acting for a person\<close>

record agent_ref =
  ar_id :: string
  ar_did :: string

definition LAST_USED_GRANULARITY_MS :: int where "LAST_USED_GRANULARITY_MS = 60 * 60 * 1000"

text \<open>\<open>ConsentService.isFirstParty\<close>.\<close>

definition isFirstParty :: "client_row \<Rightarrow> bool" where
  "isFirstParty c \<longleftrightarrow> cl_first_party c \<and> \<not> prefix ''dcr_'' (cl_client_id c)"

definition WALLET_AUTHORIZATION_DETAILS_TYPE :: string where
  "WALLET_AUTHORIZATION_DETAILS_TYPE = ''inite_wallet''"

definition isWalletGrant :: "json \<Rightarrow> bool" where
  "isWalletGrant detail \<longleftrightarrow> jget detail ''type'' = Some (JStr WALLET_AUTHORIZATION_DETAILS_TYPE)"

definition live_agent :: "agent_row list \<Rightarrow> string \<Rightarrow> string \<Rightarrow> agent_row option" where
  "live_agent t u c = List.find (\<lambda>a. ag_user a = u \<and> ag_client a = c \<and> ag_revoked_at a = None) t"

text \<open>
  \<open>agent.create\<close>: the primary key, and at most one live agent per person and application
  (migration 0029's partial unique index).
\<close>

definition insert_agent :: "agent_row \<Rightarrow> agent_row list \<Rightarrow> error + agent_row list" where
  "insert_agent a t =
     (if list_ex (\<lambda>x. ag_id x = ag_id a \<or> (ag_user x = ag_user a \<and> ag_client x = ag_client a
           \<and> ag_revoked_at x = None \<and> ag_revoked_at a = None)) t
      then Inl Db_Conflict else Inr (t @ [a]))"

definition ref_of :: "prims \<Rightarrow> string \<Rightarrow> agent_row \<Rightarrow> error + agent_ref option" where
  "ref_of P issuer a =
     (case agentDid P issuer (ag_id a) of
        None \<Rightarrow> Inl (Server_Error ''Invalid URL'')
      | Some did \<Rightarrow> Inr (Some \<lparr>ar_id = ag_id a, ar_did = did\<rparr>))"

definition forToken ::
  "prims \<Rightarrow> config \<Rightarrow> request \<Rightarrow> entropy \<Rightarrow> string \<Rightarrow> string \<Rightarrow> db \<Rightarrow> (error + agent_ref option) \<times> db"
where
  "forToken P cf rq en userId clientId d =
     (case find_client d clientId of
        None \<Rightarrow> (Inr None, d)
      | Some c \<Rightarrow>
          if isFirstParty c then (Inr None, d)
          else (case live_agent (agents d) userId clientId of
                  None \<Rightarrow>
                    (let a = \<lparr>ag_id = en_agent_id en, ag_user = userId, ag_client = clientId,
                              ag_wallet_grant = None, ag_last_used = Some (rq_now rq), ag_revoked_at = None\<rparr>
                     in (case insert_agent a (agents d) of
                           Inr t \<Rightarrow> (ref_of P (jwt_issuer cf) a, d\<lparr>agents := t\<rparr>)
                         | Inl e \<Rightarrow> (case live_agent (agents d) userId clientId of
                                       None \<Rightarrow> (Inl e, d)
                                     | Some b \<Rightarrow> (ref_of P (jwt_issuer cf) b, d))))
                | Some a \<Rightarrow>
                    if (case ag_last_used a of None \<Rightarrow> True
                        | Some at \<Rightarrow> rq_now rq - at > LAST_USED_GRANULARITY_MS)
                    then (ref_of P (jwt_issuer cf) a,
                          d\<lparr>agents := update_many (\<lambda>x. ag_id x = ag_id a)
                                       (\<lambda>x. x\<lparr>ag_last_used := Some (rq_now rq)\<rparr>) (agents d)\<rparr>)
                    else (ref_of P (jwt_issuer cf) a, d)))"

definition recordGrant :: "string \<Rightarrow> json list option \<Rightarrow> db \<Rightarrow> db" where
  "recordGrant agentId details d =
     (case List.find isWalletGrant (nullish details []) of
        None \<Rightarrow> d
      | Some w \<Rightarrow> d\<lparr>agents := update_many (\<lambda>x. ag_id x = agentId)
                     (\<lambda>x. x\<lparr>ag_wallet_grant := Some w\<rparr>) (agents d)\<rparr>)"

definition actFor ::
  "prims \<Rightarrow> config \<Rightarrow> request \<Rightarrow> entropy \<Rightarrow> string \<Rightarrow> string \<Rightarrow> json list option \<Rightarrow> db \<Rightarrow>
   (error + act_claim option) \<times> db"
where
  "actFor P cf rq en userId clientId details d =
     (case forToken P cf rq en userId clientId d of
        (Inl e, d1) \<Rightarrow> (Inl e, d1)
      | (Inr None, d1) \<Rightarrow> (Inr None, d1)
      | (Inr (Some a), d1) \<Rightarrow>
          (Inr (Some \<lparr>act_sub = ar_did a, act_client = clientId\<rparr>),
           if nullish details [] \<noteq> [] then recordGrant (ar_id a) details d1 else d1))"

definition SESSION_REVOKED :: string where
  "SESSION_REVOKED = ''https://schemas.openid.net/secevent/caep/event-type/session-revoked''"

definition agent_revoked_event :: "prims \<Rightarrow> config \<Rightarrow> string \<Rightarrow> agent_row \<Rightarrow> db \<Rightarrow> effect list" where
  "agent_revoked_event P cf clientId a d =
     (case (find_user d (ag_user a), agentDid P (jwt_issuer cf) (ag_id a)) of
        (Some u, Some did) \<Rightarrow>
          [Ssf_Event SESSION_REVOKED (us_did u) None
             [(''agent'', JStr did), (''client_id'', JStr clientId), (''reason'', JStr ''agent_disconnected'')]]
      | _ \<Rightarrow> [])"

definition revoke_agents ::
  "prims \<Rightarrow> config \<Rightarrow> request \<Rightarrow> string \<Rightarrow> string \<Rightarrow> db \<Rightarrow> nat \<times> db"
where
  "revoke_agents P cf rq userId clientId d =
     (let live = filter (\<lambda>a. ag_user a = userId \<and> ag_client a = clientId \<and> ag_revoked_at a = None) (agents d);
          d1 = d\<lparr>agents := update_many (\<lambda>a. ag_id a \<in> ag_id ` set live)
                  (\<lambda>a. a\<lparr>ag_revoked_at := Some (rq_now rq)\<rparr>) (agents d)\<rparr>
      in if live = [] then (0, d)
         else (length live,
               d1\<lparr>effects := effects d1 @ concat (map (\<lambda>a. agent_revoked_event P cf clientId a d) live)\<rparr>))"

section \<open>Lemmas\<close>

definition agents_inv :: "agent_row list \<Rightarrow> bool" where
  "agents_inv t \<longleftrightarrow> distinct (map ag_id t)
     \<and> (\<forall>u c. count_where (\<lambda>a. ag_user a = u \<and> ag_client a = c \<and> ag_revoked_at a = None) t \<le> 1)"

lemma recordGrant_frame [simp]:
  "refresh_tokens (recordGrant a ds d) = refresh_tokens d" "clients (recordGrant a ds d) = clients d"
  "users (recordGrant a ds d) = users d" "auth_codes (recordGrant a ds d) = auth_codes d"
  "memberships (recordGrant a ds d) = memberships d" "orgs (recordGrant a ds d) = orgs d"
  "devices (recordGrant a ds d) = devices d" "consents (recordGrant a ds d) = consents d"
  by (simp_all add: recordGrant_def split: option.split)

lemma forToken_frame:
  assumes "forToken P cf rq en u c d = (r, d')"
  shows "refresh_tokens d' = refresh_tokens d" "clients d' = clients d" "users d' = users d"
    "auth_codes d' = auth_codes d" "memberships d' = memberships d" "orgs d' = orgs d"
    "devices d' = devices d" "consents d' = consents d" "effects d' = effects d"
  using assms by (auto simp: forToken_def Let_def split: option.splits sum.splits if_splits)

lemma actFor_frame:
  assumes "actFor P cf rq en u c ds d = (r, d')"
  shows "refresh_tokens d' = refresh_tokens d" "clients d' = clients d" "users d' = users d"
    "auth_codes d' = auth_codes d" "memberships d' = memberships d" "orgs d' = orgs d"
    "devices d' = devices d" "consents d' = consents d"
  using assms
  by (auto simp: actFor_def split: prod.splits sum.splits option.splits if_splits dest: forToken_frame)

text \<open>The DID document of a self-registered agent publishes no private key: none of the
  published key objects has the member \<open>d\<close>.\<close>

theorem did_document_public:
  assumes "m \<in> set (key_methods i (selfAgentKeys c))"
  shows "\<exists>jwk. jget m ''publicKeyJwk'' = Some jwk \<and> jget jwk ''d'' = None"
proof -
  obtain n jwk where m: "m = key_method i n jwk"
    using assms by (auto simp: key_methods_def)
  have "jget (drop_member ''d'' jwk) ''d'' = None"
    by (cases jwk) (auto simp: map_of_eq_None_iff)
  then show ?thesis by (simp add: m key_method_def jget_mk_obj)
qed

definition agent_client :: client_row where
  "agent_client = shop\<lparr>cl_client_id := ''dcr_0'',
     cl_jwks := Some (JObj [(''keys'', JArr [JObj [(''kty'', JStr ''OKP''), (''d'', JStr ''secret'')]])])\<rparr>"

theorem did_document_public_witness:
  "length (key_methods ''did:x'' (selfAgentKeys agent_client)) = 1
   \<and> list_all (\<lambda>m. \<exists>jwk. jget m ''publicKeyJwk'' = Some jwk \<and> jget jwk ''d'' = None)
        (key_methods ''did:x'' (selfAgentKeys agent_client))"
  unfolding list_all_iff
proof (intro conjI ballI)
  show "length (key_methods ''did:x'' (selfAgentKeys agent_client)) = 1" by code_simp
qed (rule did_document_public)

end
