(* ===== verification/Workspace.thy ===== *)
theory Workspace
  imports Claims
begin

text \<open>
  \<open>src/oauth/personal-workspace.ts\<close> and \<open>src/oauth/personal-workspace.service.ts\<close>: the workspace a
  person without an organization gets on first contact with a product that provisions one.
\<close>

definition PERSONAL_WORKSPACE_PREFIX :: string where "PERSONAL_WORKSPACE_PREFIX = ''co_u_''"

definition personalWorkspaceCompanyId :: "prims \<Rightarrow> string \<Rightarrow> string" where
  "personalWorkspaceCompanyId P userId = PERSONAL_WORKSPACE_PREFIX @ take 16 (p_sha256_hex P userId)"

definition personalWorkspaceSlug :: "prims \<Rightarrow> string \<Rightarrow> string" where
  "personalWorkspaceSlug P userId =
     map (\<lambda>c. if c = CHR ''_'' then CHR ''-'' else c) (personalWorkspaceCompanyId P userId)"

definition isPersonalWorkspace :: "string \<Rightarrow> bool" where
  "isPersonalWorkspace companyId \<longleftrightarrow> prefix PERSONAL_WORKSPACE_PREFIX companyId"

definition DEFAULT_PERSONAL_WORKSPACE_CLIENTS :: string where
  "DEFAULT_PERSONAL_WORKSPACE_CLIENTS = ''inite-rent,inite-education,inite-ai,ideaudit-dashboard''"

definition parseClientList :: "string option \<Rightarrow> string list" where
  "parseClientList csv = filter (\<lambda>c. c \<noteq> []) (map trim (split_char CHR '','' (nullish csv '''')))"

definition requestsProvisioningVertical :: "string option \<Rightarrow> string option \<Rightarrow> string list \<Rightarrow> bool" where
  "requestsProvisioningVertical scope clientId provisioningClients =
     (if truthy clientId \<and> nullish clientId '''' \<in> set provisioningClients then True
      else list_ex (\<lambda>s. prefix ''brain:'' s) (words_of (nullish scope '''')))"

text \<open>\<open>organization.create\<close>: identifier, companyId and slug are unique.\<close>

definition insert_org :: "org_row \<Rightarrow> db \<Rightarrow> error + db" where
  "insert_org o1 d =
     (if list_ex (\<lambda>x. og_id x = og_id o1 \<or> og_company x = og_company o1 \<or> og_slug x = og_slug o1) (orgs d)
      then Inl Db_Conflict else Inr (d\<lparr>orgs := orgs d @ [o1]\<rparr>))"

text \<open>\<open>organization.upsert\<close> with an empty update, and \<open>membership.upsert\<close>.\<close>

definition upsert_workspace :: "prims \<Rightarrow> entropy \<Rightarrow> string \<Rightarrow> db \<Rightarrow> (error + org_row) \<times> db" where
  "upsert_workspace P en userId d =
     (case List.find (\<lambda>o1. og_company o1 = personalWorkspaceCompanyId P userId) (orgs d) of
        Some o1 \<Rightarrow> (Inr o1, d)
      | None \<Rightarrow>
          (let o1 = \<lparr>og_id = en_org_id en, og_company = personalWorkspaceCompanyId P userId,
                     og_slug = personalWorkspaceSlug P userId, og_name = ''Personal workspace'',
                     og_metadata = Some (JObj [(''personal'', JBool True), (''provisionedFor'', JStr userId)])\<rparr>
           in (case insert_org o1 d of Inl e \<Rightarrow> (Inl e, d) | Inr d1 \<Rightarrow> (Inr o1, d1))))"

definition upsert_owner :: "string \<Rightarrow> string \<Rightarrow> db \<Rightarrow> db" where
  "upsert_owner userId orgId d =
     (if membershipOf d userId orgId \<noteq> None
      then d\<lparr>memberships := update_many (\<lambda>m. mb_user m = userId \<and> mb_org m = orgId)
                             (\<lambda>m. m\<lparr>mb_status := ''active''\<rparr>) (memberships d)\<rparr>
      else d\<lparr>memberships := memberships d @
               [\<lparr>mb_user = userId, mb_org = orgId, mb_role = ''owner'', mb_status = ''active'', mb_external = None\<rparr>]\<rparr>)"

definition provisionFor ::
  "prims \<Rightarrow> config \<Rightarrow> entropy \<Rightarrow> string \<Rightarrow> string option \<Rightarrow> string option \<Rightarrow> db \<Rightarrow> org_row option \<times> db"
where
  "provisionFor P cf en userId scope clientId d =
     (if \<not> setting_flag cf ''PERSONAL_WORKSPACE_PROVISIONING_ENABLED'' then (None, d)
      else let provisioning = parseClientList (Some (setting_value cf ''PERSONAL_WORKSPACE_CLIENTS''
                                DEFAULT_PERSONAL_WORKSPACE_CLIENTS))
           in if \<not> requestsProvisioningVertical scope clientId provisioning then (None, d)
              else (case upsert_workspace P en userId d of
                      (Inl _, d1) \<Rightarrow> (None, d1)
                    | (Inr o1, d1) \<Rightarrow> (Some o1, upsert_owner userId (og_id o1) d1)))"

section \<open>Lemmas\<close>

lemma provision_frame:
  assumes "provisionFor P cf en u s c d = (r, d')"
  shows "refresh_tokens d' = refresh_tokens d" "clients d' = clients d" "users d' = users d"
    "auth_codes d' = auth_codes d" "agents d' = agents d" "devices d' = devices d"
    "consents d' = consents d" "effects d' = effects d"
  using assms
  by (auto simp: provisionFor_def upsert_workspace_def upsert_owner_def insert_org_def Let_def
      split: if_splits option.splits prod.splits sum.splits)

lemma personal_company [simp]: "isPersonalWorkspace (personalWorkspaceCompanyId P u)"
  by (simp add: isPersonalWorkspace_def personalWorkspaceCompanyId_def)

lemma upsert_workspace_found:
  assumes "upsert_workspace P en u d = (Inr o1, d1)"
  shows "List.find (\<lambda>x. og_company x = personalWorkspaceCompanyId P u) (orgs d1) = Some o1"
  using assms
  by (auto simp: upsert_workspace_def insert_org_def Let_def find_append_None
      split: option.splits if_splits)

lemma upsert_owner_member: "membershipOf (upsert_owner u i d) u i \<noteq> None"
proof
  assume n: "membershipOf (upsert_owner u i d) u i = None"
  have no: "\<not> (mb_user m = u \<and> mb_org m = i)" if "m \<in> set (memberships (upsert_owner u i d))" for m
    using find_NoneD [OF n [unfolded membershipOf_def] that] .
  show False
  proof (cases "membershipOf d u i")
    case None
    then show ?thesis
      using no [of "\<lparr>mb_user = u, mb_org = i, mb_role = ''owner'', mb_status = ''active'', mb_external = None\<rparr>"]
      by (simp add: upsert_owner_def)
  next
    case (Some m)
    then have "m \<in> set (memberships d)" "mb_user m = u" "mb_org m = i" by (auto dest: membershipOfD)
    then show ?thesis using no [of "m\<lparr>mb_status := ''active''\<rparr>"] Some
        update_manyI [of m "memberships d" "\<lambda>m. mb_user m = u \<and> mb_org m = i"
          "\<lambda>m. m\<lparr>mb_status := ''active''\<rparr>"]
      by (simp add: upsert_owner_def)
  qed
qed

lemma upsert_owner_active:
  assumes "m \<in> set (memberships (upsert_owner u i d))" and "mb_user m = u" and "mb_org m = i"
  shows "mb_status m = ''active''"
proof (cases "membershipOf d u i")
  case None
  have "\<not> (mb_user x = u \<and> mb_org x = i)" if "x \<in> set (memberships d)" for x
    using find_NoneD [OF None [unfolded membershipOf_def] that] .
  then have "m \<notin> set (memberships d)" using assms(2,3) by blast
  then have "m = \<lparr>mb_user = u, mb_org = i, mb_role = ''owner'', mb_status = ''active'', mb_external = None\<rparr>"
    using assms(1) None by (simp add: upsert_owner_def)
  then show ?thesis by (rule ssubst) simp
next
  case (Some x)
  then have eq: "memberships (upsert_owner u i d) = update_many (\<lambda>m. mb_user m = u \<and> mb_org m = i)
      (\<lambda>m. m\<lparr>mb_status := ''active''\<rparr>) (memberships d)"
    by (simp add: upsert_owner_def)
  from assms(1) [unfolded eq]
  obtain y where "m = (if mb_user y = u \<and> mb_org y = i then y\<lparr>mb_status := ''active''\<rparr> else y)"
    by (rule update_manyE)
  then show ?thesis using assms(2,3) by (cases "mb_user y = u \<and> mb_org y = i") simp_all
qed

lemma upsert_owner_again:
  "memberships (upsert_owner u i (upsert_owner u i d)) = memberships (upsert_owner u i d)"
proof -
  have "map (\<lambda>r. if mb_user r = u \<and> mb_org r = i then r\<lparr>mb_status := ''active''\<rparr> else r)
      (memberships (upsert_owner u i d)) = memberships (upsert_owner u i d)"
    by (rule map_idI) (auto dest: upsert_owner_active)
  then show ?thesis
    using upsert_owner_member [of u i d]
    by (simp add: upsert_owner_def [of u i "upsert_owner u i d"] update_many_def)
qed

lemma upsert_owner_orgs [simp]: "orgs (upsert_owner u i d) = orgs d"
  by (simp add: upsert_owner_def)

text \<open>Provisioning is idempotent: whatever identifier the second request draws, it finds the
  workspace of the first one, returns the same organization, and changes neither the organizations
  nor the memberships.\<close>

theorem provision_idempotent:
  assumes "provisionFor P cf en u s c d = (Some o1, d1)"
    and "provisionFor P cf en' u s' c' d1 = (Some o2, d2)"
  shows "o2 = o1 \<and> orgs d2 = orgs d1 \<and> memberships d2 = memberships d1
     \<and> isPersonalWorkspace (og_company o1)"
proof -
  from assms(1) obtain e1 where e1: "upsert_workspace P en u d = (Inr o1, e1)"
    "d1 = upsert_owner u (og_id o1) e1"
    by (auto simp: provisionFor_def Let_def split: if_splits prod.splits sum.splits)
  have f1: "List.find (\<lambda>x. og_company x = personalWorkspaceCompanyId P u) (orgs d1) = Some o1"
    using upsert_workspace_found [OF e1(1)] by (simp add: e1(2))
  from assms(2) obtain e2 where e2: "upsert_workspace P en' u d1 = (Inr o2, e2)"
    "d2 = upsert_owner u (og_id o2) e2"
    by (auto simp: provisionFor_def Let_def split: if_splits prod.splits sum.splits)
  have "o2 = o1" and e2d: "e2 = d1" using e2(1) f1 by (auto simp: upsert_workspace_def)
  moreover have "og_company o1 = personalWorkspaceCompanyId P u" using find_SomeD [OF f1] by simp
  ultimately show ?thesis using e2(2) e1(2) by (simp add: upsert_owner_again)
qed

definition workspace_config :: config where
  "workspace_config = demo_config\<lparr>cf_env := (\<lambda>k. if k = ''PERSONAL_WORKSPACE_PROVISIONING_ENABLED'' then Some ''true'' else None)\<rparr>"

theorem provision_idempotent_witness:
  "\<exists>o1 d1 d2. provisionFor P0 workspace_config demo_en ''u2'' None (Some ''inite-ai'') demo_db = (Some o1, d1)
     \<and> provisionFor P0 workspace_config (demo_en\<lparr>en_org_id := ''o10''\<rparr>) ''u2'' None (Some ''inite-ai'') d1 = (Some o1, d2)
     \<and> orgs d2 = orgs d1"
proof -
  let ?p = "provisionFor P0 workspace_config demo_en ''u2'' None (Some ''inite-ai'') demo_db"
  let ?q = "provisionFor P0 workspace_config (demo_en\<lparr>en_org_id := ''o10''\<rparr>) ''u2'' None (Some ''inite-ai'') (snd ?p)"
  have "fst ?p \<noteq> None" "fst ?q \<noteq> None" by code_simp+
  then obtain o1 o2 where p: "?p = (Some o1, snd ?p)" and q: "?q = (Some o2, snd ?q)"
    by (metis option.exhaust prod.collapse)
  from provision_idempotent [OF p q] p q show ?thesis by metis
qed

end
