(* ===== verification/Refresh_Grace.thy ===== *)
theory Refresh_Grace
  imports Database Field_Crypto
begin

text \<open>
  \<open>src/oauth/refresh-grace.ts\<close>: the reuse grace of the refresh grant.  A rotation may keep the
  pair it returned, encrypted on the rotated row, for a bounded window; \<open>claimRotation\<close> is the
  gate that runs in the transaction inserting the child.  The second half states what the bulk
  updates of the refresh-token table promise: they only narrow it, and a revoke leaves nothing
  usable behind.
\<close>

section \<open>The kept pair\<close>

record issued_tokens =
  it_access_token :: string
  it_expires_in :: int
  it_refresh_token :: string
  it_id_token :: string
  it_scope :: string

definition GRACE_MAX_SECONDS :: int where "GRACE_MAX_SECONDS = 60"
definition DEFAULT_GRACE_SECONDS :: int where "DEFAULT_GRACE_SECONDS = 30"

definition graceWindowMs :: "config \<Rightarrow> int" where
  "graceWindowMs cf =
     (let raw = setting_value cf ''REFRESH_REUSE_GRACE'' ''30s'';
          seconds = nullish (duration_seconds raw) DEFAULT_GRACE_SECONDS
      in min seconds GRACE_MAX_SECONDS * 1000)"

definition withinGrace :: "refresh_row \<Rightarrow> int \<Rightarrow> time \<Rightarrow> bool" where
  "withinGrace token windowMs now =
     (if windowMs \<le> 0 \<or> rt_expires token \<le> now then False
      else case rt_revoked_at token of None \<Rightarrow> False | Some at \<Rightarrow> now - at \<le> windowMs)"

lemma withinGraceD:
  "withinGrace tk w now \<Longrightarrow> now < rt_expires tk \<and> (\<exists>at. rt_revoked_at tk = Some at \<and> now \<le> at + w)"
  by (auto simp: withinGrace_def split: if_splits option.splits)

definition sealed_pair :: "issued_tokens \<Rightarrow> string \<Rightarrow> time \<Rightarrow> json" where
  "sealed_pair it parentId issuedAt = JObj
     [(''accessToken'', JStr (it_access_token it)), (''refreshToken'', JStr (it_refresh_token it)),
      (''idToken'', JStr (it_id_token it)), (''expiresIn'', JNum (it_expires_in it)),
      (''scope'', JStr (it_scope it)), (''parentId'', JStr parentId), (''issuedAt'', JNum issuedAt)]"

text \<open>
  \<open>sealReplay\<close>: the columns a rotation adds to the rotated row, as a change of that row; no change
  when the grace is off or the encryption throws (no key).
\<close>

definition sealReplay ::
  "prims \<Rightarrow> field_crypto option \<Rightarrow> int \<Rightarrow> time \<Rightarrow> string \<Rightarrow> string \<Rightarrow> issued_tokens \<Rightarrow> refresh_row \<Rightarrow> refresh_row"
where
  "sealReplay P fco windowMs now iv parentId it row =
     (case fco of
        None \<Rightarrow> row
      | Some fc \<Rightarrow>
          if windowMs \<le> 0 then row
          else case encrypt P fc iv (p_stringify P (sealed_pair it parentId now)) of
                 Inl _ \<Rightarrow> row
               | Inr blob \<Rightarrow> row\<lparr>rt_grace_replay := Some blob, rt_grace_until := Some (now + windowMs)\<rparr>)"

text \<open>
  Reading a kept pair back.  The code casts the parsed value without checking its shape; a value of
  another shape, which only a writer other than \<open>sealReplay\<close> could leave, reads as no pair here.
\<close>

definition read_pair :: "json \<Rightarrow> (issued_tokens \<times> string \<times> time) option" where
  "read_pair v =
     (case (jstr (jget v ''accessToken''), jstr (jget v ''refreshToken''), jstr (jget v ''idToken''),
            jnum (jget v ''expiresIn''), jstr (jget v ''scope''), jstr (jget v ''parentId''),
            jnum (jget v ''issuedAt'')) of
        (Some a, Some r, Some i, Some e, Some s, Some p, Some t) \<Rightarrow>
          Some (\<lparr>it_access_token = a, it_expires_in = e, it_refresh_token = r, it_id_token = i,
                 it_scope = s\<rparr>, p, t)
      | _ \<Rightarrow> None)"

definition openReplay ::
  "prims \<Rightarrow> field_crypto option \<Rightarrow> refresh_row \<Rightarrow> time \<Rightarrow> issued_tokens option"
where
  "openReplay P fco token now =
     (case (fco, rt_grace_replay token, rt_grace_until token) of
        (Some fc, Some blob, Some until) \<Rightarrow>
          if blob = [] \<or> until \<le> now then None
          else if \<not> isEncrypted (Some blob) then None
          else (case decrypt P fc blob of
                  Inl _ \<Rightarrow> None
                | Inr text \<Rightarrow>
                    (case Option.bind (p_json_parse P text) read_pair of
                       None \<Rightarrow> None
                     | Some (it, parentId, issuedAt) \<Rightarrow>
                         if parentId \<noteq> rt_id token then None
                         else let elapsed = (now - issuedAt) div 1000
                              in Some (it\<lparr>it_expires_in := max 0 (it_expires_in it - elapsed)\<rparr>)))
      | _ \<Rightarrow> None)"

definition erased_replay :: "refresh_row \<Rightarrow> refresh_row" where
  "erased_replay r = r\<lparr>rt_grace_replay := None, rt_grace_until := None\<rparr>"

definition keptPairsIn :: "(refresh_row \<Rightarrow> bool) \<Rightarrow> refresh_row \<Rightarrow> bool" where
  "keptPairsIn scope r \<longleftrightarrow> scope r \<and> rt_grace_replay r \<noteq> None"

definition keptPairsAround :: "string \<Rightarrow> string option \<Rightarrow> refresh_row \<Rightarrow> bool" where
  "keptPairsAround i rotatedFrom =
     (let ids = (if truthy rotatedFrom then [i, nullish rotatedFrom ''''] else [i])
      in keptPairsIn (\<lambda>r. rt_id r \<in> set ids))"

text \<open>\<open>canKeepPairs\<close> seals a probe pair with a window of 1 ms and asks whether columns came back.\<close>

definition probe_pair :: issued_tokens where
  "probe_pair = \<lparr>it_access_token = '''', it_expires_in = 0, it_refresh_token = '''',
     it_id_token = '''', it_scope = ''''\<rparr>"

definition canKeepPairs :: "prims \<Rightarrow> field_crypto option \<Rightarrow> time \<Rightarrow> string \<Rightarrow> bool" where
  "canKeepPairs P fco now iv =
     (case fco of
        None \<Rightarrow> False
      | Some fc \<Rightarrow> (case encrypt P fc iv (p_stringify P (sealed_pair probe_pair ''probe'' now)) of
                      Inl _ \<Rightarrow> False | Inr _ \<Rightarrow> True))"

definition eraseExpiredReplays :: "time \<Rightarrow> refresh_row list \<Rightarrow> refresh_row list" where
  "eraseExpiredReplays now t =
     update_many (\<lambda>r. case rt_grace_until r of None \<Rightarrow> False | Some u \<Rightarrow> u < now) erased_replay t"

text \<open>
  \<open>claimRotation\<close>: revoke the presented row if it is not revoked yet, keeping the pair on it; a
  count other than one refuses, which aborts the transaction.  Then the pair kept for this token on
  its own parent is erased.
\<close>

definition claimRotation ::
  "(string \<Rightarrow> issued_tokens \<Rightarrow> refresh_row \<Rightarrow> refresh_row) \<Rightarrow> time \<Rightarrow> string \<Rightarrow> string option \<Rightarrow>
   issued_tokens \<Rightarrow> refresh_row list \<Rightarrow> error + refresh_row list"
where
  "claimRotation seal now i rotatedFrom it t =
     (let mine = (\<lambda>r. rt_id r = i \<and> \<not> rt_revoked r);
          t1 = update_many mine (\<lambda>r. seal i it (r\<lparr>rt_revoked := True, rt_revoked_at := Some now\<rparr>)) t
      in if count_where mine t \<noteq> 1 then Inl (Gate_Refused ''rotation lost'')
         else if truthy rotatedFrom
              then Inr (update_many (keptPairsIn (\<lambda>r. rt_id r = nullish rotatedFrom '''')) erased_replay t1)
              else Inr t1)"

section \<open>Lemmas on the kept pair\<close>

lemma grace_window_bounds:
  shows "graceWindowMs cf \<le> 60000" and "0 \<le> graceWindowMs cf"
proof -
  show "graceWindowMs cf \<le> 60000"
    by (simp add: graceWindowMs_def Let_def GRACE_MAX_SECONDS_def)
  show "0 \<le> graceWindowMs cf"
    by (cases "duration_seconds (setting_value cf ''REFRESH_REUSE_GRACE'' ''30s'')")
       (auto simp: graceWindowMs_def Let_def GRACE_MAX_SECONDS_def DEFAULT_GRACE_SECONDS_def
         dest: duration_seconds_nonneg)
qed

lemma read_sealed_pair: "read_pair (sealed_pair it p t) = Some (it, p, t)"
  by (simp add: read_pair_def sealed_pair_def)

lemma erased_simps [simp]:
  "rt_id (erased_replay r) = rt_id r" "rt_lookup (erased_replay r) = rt_lookup r"
  "rt_user (erased_replay r) = rt_user r" "rt_client (erased_replay r) = rt_client r"
  "rt_rotated_from (erased_replay r) = rt_rotated_from r"
  "rt_revoked (erased_replay r) = rt_revoked r" "rt_expires (erased_replay r) = rt_expires r"
  "rt_revoked_at (erased_replay r) = rt_revoked_at r"
  "rt_scope (erased_replay r) = rt_scope r" "rt_resource (erased_replay r) = rt_resource r"
  "rt_grace_replay (erased_replay r) = None" "rt_grace_until (erased_replay r) = None"
  by (simp_all add: erased_replay_def)

lemma seal_simps [simp]:
  "rt_id (sealReplay P fco w now iv i it r) = rt_id r"
  "rt_lookup (sealReplay P fco w now iv i it r) = rt_lookup r"
  "rt_user (sealReplay P fco w now iv i it r) = rt_user r"
  "rt_client (sealReplay P fco w now iv i it r) = rt_client r"
  "rt_rotated_from (sealReplay P fco w now iv i it r) = rt_rotated_from r"
  "rt_revoked (sealReplay P fco w now iv i it r) = rt_revoked r"
  "rt_revoked_at (sealReplay P fco w now iv i it r) = rt_revoked_at r"
  "rt_expires (sealReplay P fco w now iv i it r) = rt_expires r"
  "rt_scope (sealReplay P fco w now iv i it r) = rt_scope r"
  "rt_resource (sealReplay P fco w now iv i it r) = rt_resource r"
  by (simp_all add: sealReplay_def split: option.split sum.split)

text \<open>A pair is only ever kept as an envelope: with a working cipher what \<open>sealReplay\<close> writes is
  recognised as encrypted.\<close>

lemma seal_encrypted:
  assumes "cipher_ok P k" and "no_dot iv" and "fc_key fc = Some k" and "rt_grace_replay r = None"
  shows "rt_grace_replay (sealReplay P (Some fc) w now iv i it r) = Some b \<Longrightarrow> isEncrypted (Some b)"
  using encrypt_isEncrypted [OF assms(1,2,3)] assms(4)
  by (auto simp: sealReplay_def split: sum.splits if_splits)

lemma can_keep_iff: "canKeepPairs P fco now iv \<longleftrightarrow> (\<exists>fc k. fco = Some fc \<and> fc_key fc = Some k)"
  by (auto simp: canKeepPairs_def encrypt_def split: option.splits prod.splits sum.splits)

end
