(* ===== verification/Refresh_Store.thy ===== *)
theory Refresh_Store
  imports Refresh_Grace
begin

text \<open>
  The refresh-token table as a store with a contract.  Every bulk update of the service (theft
  verdict, code replay, sign-out, consent withdrawal, RFC 7009 revocation, the hourly cleanup) only
  narrows it: no row appears, no revoked row comes back, a kept pair is never written.  A revoke of
  a scope moreover leaves every row of the scope revoked and without a kept pair.  Both contracts
  are locales; the rotation chain invariant is preserved by every narrowing operation.
\<close>

section \<open>Narrowing\<close>

definition same_grant :: "refresh_row \<Rightarrow> refresh_row \<Rightarrow> bool" where
  "same_grant r r' \<longleftrightarrow> rt_id r' = rt_id r \<and> rt_lookup r' = rt_lookup r \<and> rt_user r' = rt_user r
     \<and> rt_client r' = rt_client r \<and> rt_rotated_from r' = rt_rotated_from r
     \<and> rt_expires r' = rt_expires r \<and> rt_scope r' = rt_scope r \<and> rt_resource r' = rt_resource r"

definition row_narrows :: "refresh_row \<Rightarrow> refresh_row \<Rightarrow> bool" where
  "row_narrows r r' \<longleftrightarrow> same_grant r r' \<and> (rt_revoked r \<longrightarrow> rt_revoked r')
     \<and> (rt_grace_replay r' = rt_grace_replay r \<or> rt_grace_replay r' = None)"

definition table_narrows :: "refresh_row list \<Rightarrow> refresh_row list \<Rightarrow> bool" where
  "table_narrows t t' \<longleftrightarrow> subseq (map rt_id t') (map rt_id t)
     \<and> (\<forall>r' \<in> set t'. \<exists>r \<in> set t. row_narrows r r')"

lemma row_narrows_refl [simp]: "row_narrows r r"
  by (simp add: row_narrows_def same_grant_def)

lemma row_narrows_trans: "row_narrows a b \<Longrightarrow> row_narrows b c \<Longrightarrow> row_narrows a c"
  by (auto simp: row_narrows_def same_grant_def)

lemma table_narrows_refl [simp]: "table_narrows t t"
  by (auto simp: table_narrows_def intro: row_narrows_refl)

lemma table_narrows_trans: "table_narrows t u \<Longrightarrow> table_narrows u v \<Longrightarrow> table_narrows t v"
  unfolding table_narrows_def by (meson row_narrows_trans subseq_order.order_trans)

lemma table_narrowsD:
  "table_narrows t t' \<Longrightarrow> r' \<in> set t' \<Longrightarrow> (\<And>r. r \<in> set t \<Longrightarrow> row_narrows r r' \<Longrightarrow> P) \<Longrightarrow> P"
  unfolding table_narrows_def by blast

lemma distinct_subseq: "subseq xs ys \<Longrightarrow> distinct ys \<Longrightarrow> distinct xs"
  by (metis distinct_nthsI subseq_conv_nths)

lemma narrows_update_many:
  assumes "\<And>r. p r \<Longrightarrow> row_narrows r (f r)"
  shows "table_narrows t (update_many p f t)"
proof -
  have "map rt_id (update_many p f t) = map rt_id t"
    using assms by (auto simp: update_many_def row_narrows_def same_grant_def)
  moreover have "\<forall>r' \<in> set (update_many p f t). \<exists>r \<in> set t. row_narrows r r'"
    using assms by (fastforce simp: set_update_many)
  ultimately show ?thesis by (simp add: table_narrows_def)
qed

lemma narrows_delete_many: "table_narrows t (delete_many p t)"
  by (auto simp: table_narrows_def delete_many_def intro!: subseq_map subseq_filter_left bexI [of _ r for r])

lemma row_narrows_erased [simp]: "row_narrows r (erased_replay r)"
  by (simp add: row_narrows_def same_grant_def)

definition mark_revoked :: "time \<Rightarrow> refresh_row \<Rightarrow> refresh_row" where
  "mark_revoked now r = r\<lparr>rt_revoked := True, rt_revoked_at := Some now\<rparr>"

lemma mark_revoked_simps [simp]:
  "rt_id (mark_revoked now r) = rt_id r" "rt_user (mark_revoked now r) = rt_user r"
  "rt_client (mark_revoked now r) = rt_client r" "rt_revoked (mark_revoked now r)"
  "rt_rotated_from (mark_revoked now r) = rt_rotated_from r"
  "rt_grace_replay (mark_revoked now r) = rt_grace_replay r"
  "rt_expires (mark_revoked now r) = rt_expires r"
  by (simp_all add: mark_revoked_def)

lemma row_narrows_mark [simp]: "row_narrows r (mark_revoked now r)"
  by (simp add: row_narrows_def same_grant_def mark_revoked_def)

text \<open>The two statements every scope-wide revoke runs: revoke what is live, erase what is kept.\<close>

definition revoke_where :: "(refresh_row \<Rightarrow> bool) \<Rightarrow> time \<Rightarrow> refresh_row list \<Rightarrow> refresh_row list" where
  "revoke_where scope now t =
     update_many (keptPairsIn scope) erased_replay
       (update_many (\<lambda>r. scope r \<and> \<not> rt_revoked r) (mark_revoked now) t)"

lemma narrows_revoke_where: "table_narrows t (revoke_where scope now t)"
  unfolding revoke_where_def
  by (rule table_narrows_trans [OF narrows_update_many narrows_update_many]) simp_all

section \<open>The contract of a revoke\<close>

definition usable :: "time \<Rightarrow> refresh_row \<Rightarrow> bool" where
  "usable now r \<longleftrightarrow> \<not> rt_revoked r \<and> now \<le> rt_expires r"

definition scope_closed :: "(string \<Rightarrow> string \<Rightarrow> bool) \<Rightarrow> refresh_row list \<Rightarrow> bool" where
  "scope_closed sc t \<longleftrightarrow>
     (\<forall>r \<in> set t. sc (rt_user r) (rt_client r) \<longrightarrow> rt_revoked r \<and> rt_grace_replay r = None)"

lemma scope_closed_narrow: "scope_closed sc t \<Longrightarrow> table_narrows t t' \<Longrightarrow> scope_closed sc t'"
  unfolding scope_closed_def by (force elim!: table_narrowsD simp: row_narrows_def same_grant_def)

locale narrowing_op =
  fixes op :: "refresh_row list \<Rightarrow> refresh_row list"
  assumes narrows: "table_narrows t (op t)"
begin

lemma keeps_closed: "scope_closed sc t \<Longrightarrow> scope_closed sc (op t)"
  by (rule scope_closed_narrow [OF _ narrows])

lemma no_new_row: "r' \<in> set (op t) \<Longrightarrow> \<exists>r \<in> set t. rt_id r = rt_id r'"
  by (rule table_narrowsD [OF narrows]) (auto simp: row_narrows_def same_grant_def)

lemma no_revival: "r' \<in> set (op t) \<Longrightarrow> \<not> rt_revoked r' \<Longrightarrow> \<exists>r \<in> set t. rt_id r = rt_id r' \<and> \<not> rt_revoked r"
  by (rule table_narrowsD [OF narrows]) (auto simp: row_narrows_def same_grant_def)

end

locale revoke_op = narrowing_op +
  fixes sc :: "string \<Rightarrow> string \<Rightarrow> bool"
  assumes closes: "scope_closed sc (op t)"
begin

lemma nothing_usable: "r \<in> set (op t) \<Longrightarrow> sc (rt_user r) (rt_client r) \<Longrightarrow> \<not> usable now r"
  using closes [of t] by (simp add: scope_closed_def usable_def)

lemma nothing_kept: "r \<in> set (op t) \<Longrightarrow> sc (rt_user r) (rt_client r) \<Longrightarrow> rt_grace_replay r = None"
  using closes [of t] by (simp add: scope_closed_def)

end

lemma closes_revoke_where:
  "scope_closed sc (revoke_where (\<lambda>r. sc (rt_user r) (rt_client r)) now t)"
proof -
  have "rt_revoked r \<and> rt_grace_replay r = None"
    if r: "r \<in> set (revoke_where (\<lambda>r. sc (rt_user r) (rt_client r)) now t)"
      and s: "sc (rt_user r) (rt_client r)" for r
  proof -
    from r obtain r1 where r1: "r1 \<in> set (update_many (\<lambda>r. sc (rt_user r) (rt_client r) \<and> \<not> rt_revoked r) (mark_revoked now) t)"
      and r: "r = (if keptPairsIn (\<lambda>r. sc (rt_user r) (rt_client r)) r1 then erased_replay r1 else r1)"
      unfolding revoke_where_def by (rule update_manyE)
    from r1 obtain r0 where r0: "r1 = (if sc (rt_user r0) (rt_client r0) \<and> \<not> rt_revoked r0 then mark_revoked now r0 else r0)"
      by (rule update_manyE)
    show ?thesis using s unfolding r r0 by (auto simp: keptPairsIn_def split: if_splits)
  qed
  then show ?thesis by (simp add: scope_closed_def)
qed

text \<open>The scopes the service revokes: one user's tokens at one client, and all of one user's.\<close>

definition family_scope :: "string \<Rightarrow> string \<Rightarrow> string \<Rightarrow> string \<Rightarrow> bool" where
  "family_scope u c = (\<lambda>u' c'. u' = u \<and> c' = c)"

definition user_scope :: "string \<Rightarrow> string \<Rightarrow> string \<Rightarrow> bool" where
  "user_scope u = (\<lambda>u' c'. u' = u)"

definition revoke_family :: "string \<Rightarrow> string \<Rightarrow> time \<Rightarrow> refresh_row list \<Rightarrow> refresh_row list" where
  "revoke_family u c now t = revoke_where (\<lambda>r. rt_user r = u \<and> rt_client r = c) now t"

definition revoke_user :: "string \<Rightarrow> time \<Rightarrow> refresh_row list \<Rightarrow> refresh_row list" where
  "revoke_user u now t = revoke_where (\<lambda>r. rt_user r = u) now t"

interpretation family: revoke_op "revoke_family u c now" "family_scope u c"
  using closes_revoke_where [of "family_scope u c"]
  by unfold_locales (simp_all add: revoke_family_def narrows_revoke_where family_scope_def)

interpretation everywhere: revoke_op "revoke_user u now" "user_scope u"
  using closes_revoke_where [of "user_scope u"]
  by unfold_locales (simp_all add: revoke_user_def narrows_revoke_where user_scope_def)

interpretation expiry: narrowing_op "eraseExpiredReplays now"
  by unfold_locales (simp add: eraseExpiredReplays_def narrows_update_many)

section \<open>The rotation chain\<close>

text \<open>
  Identifiers are unique, a row that was rotated is revoked, a child belongs to its parent's user
  and client, and no token has two children: the chain never forks.
\<close>

definition chain_inv :: "refresh_row list \<Rightarrow> bool" where
  "chain_inv t \<longleftrightarrow> distinct (map rt_id t)
     \<and> (\<forall>c \<in> set t. \<forall>p \<in> set t. rt_rotated_from c = Some (rt_id p) \<longrightarrow>
          rt_revoked p \<and> rt_user c = rt_user p \<and> rt_client c = rt_client p)
     \<and> (\<forall>c \<in> set t. \<forall>c' \<in> set t. rt_rotated_from c \<noteq> None \<and> rt_rotated_from c' = rt_rotated_from c
          \<longrightarrow> rt_id c' = rt_id c)"

lemma chain_invD:
  assumes "chain_inv t"
  shows "distinct (map rt_id t)"
    and "c \<in> set t \<Longrightarrow> p \<in> set t \<Longrightarrow> rt_rotated_from c = Some (rt_id p) \<Longrightarrow>
           rt_revoked p \<and> rt_user c = rt_user p \<and> rt_client c = rt_client p"
    and "c \<in> set t \<Longrightarrow> c' \<in> set t \<Longrightarrow> rt_rotated_from c \<noteq> None \<Longrightarrow>
           rt_rotated_from c' = rt_rotated_from c \<Longrightarrow> rt_id c' = rt_id c"
  using assms unfolding chain_inv_def by blast+

text \<open>
  What the chain needs of a change: rows keep their grant and stay revoked.  Narrowing is one such
  change; keeping a pair on a rotated row is another.
\<close>

definition row_moves :: "refresh_row \<Rightarrow> refresh_row \<Rightarrow> bool" where
  "row_moves r r' \<longleftrightarrow> same_grant r r' \<and> (rt_revoked r \<longrightarrow> rt_revoked r')"

definition table_moves :: "refresh_row list \<Rightarrow> refresh_row list \<Rightarrow> bool" where
  "table_moves t t' \<longleftrightarrow> subseq (map rt_id t') (map rt_id t)
     \<and> (\<forall>r' \<in> set t'. \<exists>r \<in> set t. row_moves r r')"

lemma row_moves_refl [simp]: "row_moves r r"
  by (simp add: row_moves_def same_grant_def)

lemma row_narrows_moves: "row_narrows r r' \<Longrightarrow> row_moves r r'"
  by (simp add: row_narrows_def row_moves_def)

lemma row_moves_trans: "row_moves a b \<Longrightarrow> row_moves b c \<Longrightarrow> row_moves a c"
  by (auto simp: row_moves_def same_grant_def)

lemma table_moves_trans: "table_moves t u \<Longrightarrow> table_moves u v \<Longrightarrow> table_moves t v"
  unfolding table_moves_def by (meson row_moves_trans subseq_order.order_trans)

lemma narrows_moves: "table_narrows t t' \<Longrightarrow> table_moves t t'"
  unfolding table_narrows_def table_moves_def by (meson row_narrows_moves)

lemma table_movesE:
  assumes "table_moves t t'" and "r' \<in> set t'"
  obtains r where "r \<in> set t" "row_moves r r'"
  using assms unfolding table_moves_def by blast

lemma moves_update_many:
  assumes "\<And>r. p r \<Longrightarrow> row_moves r (f r)"
  shows "table_moves t (update_many p f t)"
proof -
  have "map rt_id (update_many p f t) = map rt_id t"
    using assms by (auto simp: update_many_def row_moves_def same_grant_def)
  moreover have "\<forall>r' \<in> set (update_many p f t). \<exists>r \<in> set t. row_moves r r'"
    using assms by (fastforce simp: set_update_many)
  ultimately show ?thesis by (simp add: table_moves_def)
qed

lemma chain_inv_moves:
  assumes inv: "chain_inv t" and mv: "table_moves t t'"
  shows "chain_inv t'"
  unfolding chain_inv_def
proof (intro conjI ballI impI)
  show "distinct (map rt_id t')"
    using chain_invD(1) [OF inv] mv distinct_subseq unfolding table_moves_def by blast
next
  fix c p assume cp: "c \<in> set t'" "p \<in> set t'" "rt_rotated_from c = Some (rt_id p)"
  from mv cp(1) obtain c0 where c0: "c0 \<in> set t" "row_moves c0 c" by (rule table_movesE)
  from mv cp(2) obtain p0 where p0: "p0 \<in> set t" "row_moves p0 p" by (rule table_movesE)
  have "rt_rotated_from c0 = Some (rt_id p0)"
    using cp(3) c0(2) p0(2) by (simp add: row_moves_def same_grant_def)
  from chain_invD(2) [OF inv c0(1) p0(1) this]
  have "rt_revoked p0 \<and> rt_user c0 = rt_user p0 \<and> rt_client c0 = rt_client p0" .
  with c0(2) p0(2) show "rt_revoked p" and "rt_user c = rt_user p" and "rt_client c = rt_client p"
    by (simp_all add: row_moves_def same_grant_def)
next
  fix c c' assume cc: "c \<in> set t'" "c' \<in> set t'"
    "rt_rotated_from c \<noteq> None \<and> rt_rotated_from c' = rt_rotated_from c"
  from mv cc(1) obtain a where a: "a \<in> set t" "row_moves a c" by (rule table_movesE)
  from mv cc(2) obtain b where b: "b \<in> set t" "row_moves b c'" by (rule table_movesE)
  have "rt_rotated_from a \<noteq> None \<and> rt_rotated_from b = rt_rotated_from a"
    using cc(3) a(2) b(2) by (simp add: row_moves_def same_grant_def)
  with chain_invD(3) [OF inv a(1) b(1)] have "rt_id b = rt_id a" by simp
  with a(2) b(2) show "rt_id c' = rt_id c" by (simp add: row_moves_def same_grant_def)
qed

lemma chain_inv_narrow: "chain_inv t \<Longrightarrow> table_narrows t t' \<Longrightarrow> chain_inv t'"
  by (erule chain_inv_moves) (rule narrows_moves)

text \<open>A fresh identifier: no row has it, and no row claims to descend from it.\<close>

definition fresh_id :: "string \<Rightarrow> refresh_row list \<Rightarrow> bool" where
  "fresh_id i t \<longleftrightarrow> (\<forall>r \<in> set t. rt_id r \<noteq> i \<and> rt_rotated_from r \<noteq> Some i)"

lemma chain_inv_insert:
  assumes inv: "chain_inv t" and fresh: "fresh_id (rt_id c) t"
    and self: "rt_rotated_from c \<noteq> Some (rt_id c)"
    and parent: "\<And>p. p \<in> set t \<Longrightarrow> rt_rotated_from c = Some (rt_id p) \<Longrightarrow>
           rt_revoked p \<and> rt_user c = rt_user p \<and> rt_client c = rt_client p"
    and only: "\<And>r. r \<in> set t \<Longrightarrow> rt_rotated_from c \<noteq> None \<Longrightarrow> rt_rotated_from r \<noteq> rt_rotated_from c"
  shows "chain_inv (t @ [c])"
  unfolding chain_inv_def
proof (intro conjI ballI impI)
  show "distinct (map rt_id (t @ [c]))"
    using chain_invD(1) [OF inv] fresh by (auto simp: fresh_id_def)
next
  fix a p assume ap: "a \<in> set (t @ [c])" "p \<in> set (t @ [c])" "rt_rotated_from a = Some (rt_id p)"
  have "p \<noteq> c" using ap fresh self by (auto simp: fresh_id_def)
  then have p: "p \<in> set t" using ap(2) by simp
  have "rt_revoked p \<and> rt_user a = rt_user p \<and> rt_client a = rt_client p"
  proof (cases "a = c")
    case True
    then show ?thesis using parent [OF p] ap(3) by simp
  next
    case False
    then have "a \<in> set t" using ap(1) by simp
    then show ?thesis using chain_invD(2) [OF inv _ p ap(3)] by simp
  qed
  then show "rt_revoked p" and "rt_user a = rt_user p" and "rt_client a = rt_client p" by simp_all
next
  fix a b assume ab: "a \<in> set (t @ [c])" "b \<in> set (t @ [c])"
    "rt_rotated_from a \<noteq> None \<and> rt_rotated_from b = rt_rotated_from a"
  show "rt_id b = rt_id a"
  proof (cases "a \<in> set t \<and> b \<in> set t")
    case True
    then show ?thesis using chain_invD(3) [OF inv] ab(3) by blast
  next
    case False
    then have "a = c \<or> b = c" using ab(1,2) by auto
    moreover have "x = c" if "x \<in> set (t @ [c])" "rt_rotated_from x = rt_rotated_from c" "rt_rotated_from c \<noteq> None" for x
      using only [of x] that by auto
    ultimately show ?thesis using ab by metis
  qed
qed

lemma fresh_id_moves: "fresh_id i t \<Longrightarrow> table_moves t t' \<Longrightarrow> fresh_id i t'"
  unfolding fresh_id_def by (metis row_moves_def same_grant_def table_movesE)

section \<open>The rotation claim\<close>

text \<open>What a seal may do to the row it is given: write the two columns of the kept pair.\<close>

definition seal_ok :: "(string \<Rightarrow> issued_tokens \<Rightarrow> refresh_row \<Rightarrow> refresh_row) \<Rightarrow> bool" where
  "seal_ok seal \<longleftrightarrow> (\<forall>i it r. same_grant r (seal i it r) \<and> rt_revoked (seal i it r) = rt_revoked r)"

lemma seal_ok_replay [simp]: "seal_ok (sealReplay P fco w now iv)"
  by (simp add: seal_ok_def same_grant_def)

abbreviation live_row :: "string \<Rightarrow> refresh_row \<Rightarrow> bool" where
  "live_row i \<equiv> \<lambda>r. rt_id r = i \<and> \<not> rt_revoked r"

abbreviation mark_rotated where
  "mark_rotated seal now i it \<equiv>
     update_many (live_row i) (\<lambda>r. seal i it (r\<lparr>rt_revoked := True, rt_revoked_at := Some now\<rparr>))"

lemma claim_okE:
  assumes "claimRotation seal now i rf it t = Inr t'"
  obtains t1 p where "t1 = mark_rotated seal now i it t" "count_where (live_row i) t = 1"
    "p \<in> set t" "rt_id p = i" "\<not> rt_revoked p"
    "t' = (if truthy rf then update_many (keptPairsIn (\<lambda>r. rt_id r = nullish rf '''')) erased_replay t1 else t1)"
proof -
  have c: "count_where (live_row i) t = 1"
    using assms by (auto simp: claimRotation_def Let_def split: if_splits)
  then have "count_where (live_row i) t \<noteq> 0" by simp
  then obtain p where "p \<in> set t" "rt_id p = i" "\<not> rt_revoked p" unfolding count_where_0 by blast
  moreover have "t' = (if truthy rf then update_many (keptPairsIn (\<lambda>r. rt_id r = nullish rf [])) erased_replay
      (mark_rotated seal now i it t) else mark_rotated seal now i it t)"
    using assms c unfolding claimRotation_def Let_def by (cases "truthy rf") simp_all
  ultimately show ?thesis using c by (intro that [OF refl])
qed

lemma claim_marks:
  assumes "seal_ok seal"
  shows "table_moves t (mark_rotated seal now i it t)"
  by (rule moves_update_many) (use assms in \<open>simp add: seal_ok_def row_moves_def same_grant_def\<close>)

lemma claim_moves:
  assumes "claimRotation seal now i rf it t = Inr t'" and ok: "seal_ok seal"
  shows "table_moves t t'"
proof -
  from assms(1) obtain t1 where t1: "t1 = mark_rotated seal now i it t"
    and t': "t' = (if truthy rf then update_many (keptPairsIn (\<lambda>r. rt_id r = nullish rf '''')) erased_replay t1 else t1)"
    by (rule claim_okE)
  have "table_moves t t1" unfolding t1 by (rule claim_marks [OF ok])
  moreover have "table_moves t1 t'"
    unfolding t' by (simp add: narrows_moves narrows_update_many)
  ultimately show ?thesis by (rule table_moves_trans)
qed

lemma claim_revokes:
  assumes "claimRotation seal now i rf it t = Inr t'" and ok: "seal_ok seal"
    and r: "r \<in> set t'" "rt_id r = i"
  shows "rt_revoked r"
proof -
  from assms(1) obtain t1 where t1: "t1 = mark_rotated seal now i it t"
    and t': "t' = (if truthy rf then update_many (keptPairsIn (\<lambda>r. rt_id r = nullish rf '''')) erased_replay t1 else t1)"
    by (rule claim_okE)
  have one: "rt_revoked a" if "a \<in> set t1" "rt_id a = i" for a
    using that(1) unfolding t1
    by (rule update_manyE) (use ok that(2) in \<open>auto simp: seal_ok_def same_grant_def split: if_splits\<close>)
  from r(1) obtain a where "a \<in> set t1" "rt_id a = rt_id r" "rt_revoked r = rt_revoked a"
    unfolding t' by (auto split: if_splits elim!: update_manyE)
  with one r(2) show ?thesis by simp
qed

lemma claim_lost:
  "claimRotation seal now i rf it t = Inl e \<Longrightarrow> e = Gate_Refused ''rotation lost''"
  by (auto simp: claimRotation_def Let_def split: if_splits)

lemma claim_live:
  assumes "distinct (map rt_id t)" and "p \<in> set t" and "rt_id p = i" and "\<not> rt_revoked p"
  shows "\<exists>t'. claimRotation seal now i rf it t = Inr t'"
proof -
  have "count_where (live_row i) t = 1"
    using count_key_1_iff [OF assms(1), of i "\<lambda>r. \<not> rt_revoked r"] assms(2-4) by blast
  then show ?thesis by (auto simp: claimRotation_def Let_def)
qed

lemma claim_dead:
  assumes "distinct (map rt_id t)" and "p \<in> set t" and "rt_id p = i" and "rt_revoked p"
  shows "claimRotation seal now i rf it t = Inl (Gate_Refused ''rotation lost'')"
proof -
  have "\<not> live_row i r" if "r \<in> set t" for r
    using that assms by (metis distinct_map inj_on_def)
  then have "count_where (live_row i) t = 0" unfolding count_where_0 by blast
  then show ?thesis by (simp add: claimRotation_def Let_def)
qed

text \<open>The claim of a rotation and the insert of its child keep the chain.\<close>

lemma rotation_keeps_chain:
  assumes inv: "chain_inv t" and cl: "claimRotation seal now i rf it t = Inr t'" and ok: "seal_ok seal"
    and fresh: "fresh_id (rt_id c) t" and par: "rt_rotated_from c = Some i"
    and own: "\<And>p. p \<in> set t \<Longrightarrow> rt_id p = i \<Longrightarrow> rt_user c = rt_user p \<and> rt_client c = rt_client p"
  shows "chain_inv (t' @ [c])"
proof (rule chain_inv_insert)
  note mv = claim_moves [OF cl ok]
  from cl obtain p where p: "p \<in> set t" "rt_id p = i" "\<not> rt_revoked p" by (rule claim_okE)
  show "chain_inv t'" by (rule chain_inv_moves [OF inv mv])
  show "fresh_id (rt_id c) t'" by (rule fresh_id_moves [OF fresh mv])
  show "rt_rotated_from c \<noteq> Some (rt_id c)" using fresh p par by (auto simp: fresh_id_def)
  show "rt_revoked q \<and> rt_user c = rt_user q \<and> rt_client c = rt_client q"
    if q: "q \<in> set t'" "rt_rotated_from c = Some (rt_id q)" for q
  proof -
    from mv q(1) obtain q0 where q0: "q0 \<in> set t" "row_moves q0 q" by (rule table_movesE)
    have "rt_id q = i" using q(2) par by simp
    then show ?thesis using claim_revokes [OF cl ok q(1)] own [OF q0(1)] q0(2)
      by (simp add: row_moves_def same_grant_def)
  qed
  show "rt_rotated_from r \<noteq> rt_rotated_from c" if r: "r \<in> set t'" for r
  proof
    assume eq: "rt_rotated_from r = rt_rotated_from c"
    from mv r obtain r0 where r0: "r0 \<in> set t" "row_moves r0 r" by (rule table_movesE)
    have "rt_rotated_from r0 = Some (rt_id p)"
      using eq par p(2) r0(2) by (simp add: row_moves_def same_grant_def)
    then show False using chain_invD(2) [OF inv r0(1) p(1)] p(3) by simp
  qed
qed

end
