(* ===== verification/Refresh_Grant.thy ===== *)
theory Refresh_Grant
  imports Refresh_Store
begin

text \<open>
  \<open>src/oauth/refresh-bounds.ts\<close> and \<open>src/oauth/refresh-grant.ts\<close>: the refresh_token grant with
  rotation, theft detection and the reuse grace.  The grant calls the issuer through the interface
  \<open>RefreshGrantDeps.issue\<close>: the parameter \<open>issue\<close> of the definitions, whose contract is the locale
  \<open>token_issue\<close>, interpreted on the modelled issuer in theory \<open>Token_Issuer\<close>.
\<close>

section \<open>Bounds of a refresh\<close>

definition refreshBounds ::
  "(string \<Rightarrow> url option) \<Rightarrow> string option \<Rightarrow> client_row option \<Rightarrow> refresh_row \<Rightarrow>
   error + (string \<times> string option)"
where
  "refreshBounds pu reg client token =
     (case client of
        None \<Rightarrow> Inr (nullish (rt_scope token) '''', rt_resource token)
      | Some c \<Rightarrow>
          if \<not> isResourceAllowed pu reg (resource_client_of c) (rt_resource token)
          then Inl (invalid_grant ''Refresh token is bound to a resource this client may not target'')
          else Inr (join_sp (permittedScopes (scope_client_of c) (rt_scope token)), rt_resource token))"

lemma refresh_bounds_scope:
  assumes "refreshBounds pu reg (Some c) token = Inr (sc, res)"
  shows "set (words_of sc) \<subseteq> set (words_of (nullish (rt_scope token) ''''))
     \<inter> set (scope_ceiling (scope_client_of c))"
    and "res = rt_resource token"
    and "isResourceAllowed pu reg (resource_client_of c) res"
  using assms
  by (auto simp: refreshBounds_def words_join_permitted set_permitted split: if_splits)

section \<open>The issuer as the grant sees it\<close>

record gen_input =
  gi_user :: user_row
  gi_client :: string
  gi_scope :: string
  gi_rotated_from :: "string option"
  gi_nonce :: "string option"
  gi_amr :: "string list"
  gi_acr :: "string option"
  gi_audience :: "string option"
  gi_details :: "json list option"
  gi_tenant :: "string option"

type_synonym gate = "issued_tokens \<Rightarrow> refresh_row list \<Rightarrow> error + refresh_row list"

type_synonym issuer = "request \<Rightarrow> entropy \<Rightarrow> gen_input \<Rightarrow> gate option \<Rightarrow> db \<Rightarrow> (error + issued_tokens) \<times> db"

definition REFRESH_TTL_MS :: int where "REFRESH_TTL_MS = 7 * 24 * 60 * 60 * 1000"

text \<open>The row an issuance adds: live, for this user and client, with the input's scope, resource
  and parent, found by the digest of the token handed out.\<close>

definition issued_row :: "(string \<Rightarrow> string) \<Rightarrow> request \<Rightarrow> entropy \<Rightarrow> gen_input \<Rightarrow> issued_tokens \<Rightarrow> refresh_row \<Rightarrow> bool" where
  "issued_row hash rq en inp it r \<longleftrightarrow>
     rt_id r = en_row_id en \<and> rt_lookup r = Some (hash (it_refresh_token it))
     \<and> rt_user r = us_id (gi_user inp) \<and> rt_client r = gi_client inp \<and> rt_scope r = Some (gi_scope inp)
     \<and> rt_resource r = gi_audience inp \<and> rt_rotated_from r = gi_rotated_from inp
     \<and> rt_nonce r = gi_nonce inp \<and> rt_amr r = gi_amr inp
     \<and> \<not> rt_revoked r \<and> rt_grace_replay r = None \<and> rt_expires r = rq_now rq + REFRESH_TTL_MS"

definition gated :: "gate option \<Rightarrow> issued_tokens \<Rightarrow> refresh_row list \<Rightarrow> error + refresh_row list" where
  "gated g it t = (case g of None \<Rightarrow> Inr t | Some gate \<Rightarrow> gate it t)"

locale token_issue =
  fixes issue :: issuer
    and hash :: "string \<Rightarrow> string"
  assumes issue_ok: "issue rq en inp g d = (Inr it, d') \<Longrightarrow>
      it_scope it = gi_scope inp \<and> it_refresh_token it = en_token en
      \<and> (\<exists>t r. gated g it (refresh_tokens d) = Inr t \<and> issued_row hash rq en inp it r
           \<and> insert_refresh r t = Inr (refresh_tokens d'))"
    and issue_error: "issue rq en inp g d = (Inl e, d') \<Longrightarrow> refresh_tokens d' = refresh_tokens d"
begin

lemma issue_one_row:
  assumes "issue rq en inp g d = (Inr it, d')"
  obtains t r where "gated g it (refresh_tokens d) = Inr t" "issued_row hash rq en inp it r"
    "refresh_tokens d' = t @ [r]"
  using issue_ok [OF assms] by (auto simp: insert_refresh_def split: if_splits)

lemma refused_gate_keeps_table:
  assumes "\<And>it. gate it (refresh_tokens d) = Inl e"
  shows "refresh_tokens (snd (issue rq en inp (Some gate) d)) = refresh_tokens d
     \<and> (\<exists>e. fst (issue rq en inp (Some gate) d) = Inl e)"
proof (cases "issue rq en inp (Some gate) d")
  case (Pair r d')
  show ?thesis
  proof (cases r)
    case (Inl e')
    then show ?thesis using issue_error Pair by auto
  next
    case (Inr it)
    then show ?thesis using issue_ok [of rq en inp "Some gate" d it d'] Pair assms
      by (simp add: gated_def)
  qed
qed

end

section \<open>The grant\<close>

record grant_deps =
  gd_prims :: prims
  gd_config :: config
  gd_secret :: string
  gd_registry :: "string option"
  gd_crypto :: "field_crypto option"
  gd_issue :: issuer

datatype grace_outcome = Kept_Pair issued_tokens | Already_Rotated | No_Grace

datatype child_state = Child_Live string | Child_Rotated | Child_Gone

definition TOKEN_CLAIMS_CHANGE :: string where
  "TOKEN_CLAIMS_CHANGE = ''https://schemas.openid.net/secevent/caep/event-type/token-claims-change''"

definition auditReuse ::
  "request \<Rightarrow> refresh_row \<Rightarrow> user_row option \<Rightarrow> string \<Rightarrow> bool \<Rightarrow> string option \<Rightarrow> string list \<Rightarrow>
   (string \<times> json) list \<Rightarrow> db \<Rightarrow> db"
where
  "auditReuse rq token user ev success err scopes meta d =
     emit (Audit \<lparr>ae_event = ev, ae_client = Some (rt_client token), ae_company = Some (rt_company token),
       ae_sub = map_option us_did user, ae_scopes = scopes, ae_audience = None,
       ae_ip = device_ip rq, ae_user_agent = device_user_agent rq, ae_success = success,
       ae_error = err, ae_metadata = meta @ [(''refreshTokenId'', JStr (rt_id token))]\<rparr>) d"

definition signalTokenRevoked :: "user_row option \<Rightarrow> string option \<Rightarrow> db \<Rightarrow> db" where
  "signalTokenRevoked user company d =
     (case user of None \<Rightarrow> d
      | Some u \<Rightarrow> if us_did u = [] then d else emit (Ssf_Event TOKEN_CLAIMS_CHANGE (us_did u) company []) d)"

definition childState :: "refresh_row \<Rightarrow> time \<Rightarrow> refresh_row list \<Rightarrow> child_state \<times> refresh_row list" where
  "childState token now t =
     (case List.find (\<lambda>r. rt_user r = rt_user token \<and> rt_client r = rt_client token
              \<and> rt_rotated_from r = Some (rt_id token)) t of
        None \<Rightarrow> (Child_Gone, t)
      | Some child \<Rightarrow>
          let live = (\<lambda>r. rt_id r = rt_id child \<and> \<not> rt_revoked r \<and> rt_expires r > now);
              t1 = update_many live (\<lambda>r. r\<lparr>rt_last_used := Some now\<rparr>) t
          in if count_where live t = 1 then (Child_Live (rt_id child), t1)
             else if count_where (\<lambda>r. rt_user r = rt_user token \<and> rt_client r = rt_client token
                       \<and> rt_rotated_from r = Some (rt_id child)) t1 > 0
                  then (Child_Rotated, t1) else (Child_Gone, t1))"

definition erase_stale_pair :: "refresh_row \<Rightarrow> time \<Rightarrow> refresh_row list \<Rightarrow> refresh_row list" where
  "erase_stale_pair token now t =
     (case rt_grace_until token of
        Some until \<Rightarrow>
          if truthy (rt_grace_replay token) \<and> until \<le> now
          then update_many (keptPairsIn (\<lambda>r. rt_id r = rt_id token)) erased_replay t else t
      | None \<Rightarrow> t)"

definition graceReuse ::
  "grant_deps \<Rightarrow> request \<Rightarrow> string \<Rightarrow> refresh_row \<Rightarrow> user_row option \<Rightarrow> db \<Rightarrow> grace_outcome \<times> db"
where
  "graceReuse D rq iv token user d =
     (let now = rq_now rq;
          t1 = erase_stale_pair token now (refresh_tokens d);
          d1 = d\<lparr>refresh_tokens := t1\<rparr>
      in if \<not> canKeepPairs (gd_prims D) (gd_crypto D) now iv
            \<or> \<not> withinGrace token (graceWindowMs (gd_config D)) now
         then (No_Grace, d1)
         else (case childState token now t1 of
                 (st, t2) \<Rightarrow>
                   let d2 = d1\<lparr>refresh_tokens := t2\<rparr>
                   in (case st of
                         Child_Rotated \<Rightarrow> (Already_Rotated, d2)
                       | Child_Gone \<Rightarrow> (No_Grace, d2)
                       | Child_Live child \<Rightarrow>
                           (case openReplay (gd_prims D) (gd_crypto D) token now of
                              None \<Rightarrow> (No_Grace, d2)
                            | Some it \<Rightarrow>
                                let age = now - nullish (rt_revoked_at token) now
                                in (Kept_Pair it,
                                    auditReuse rq token user ''token.refreshed.grace_reuse'' True None
                                      (if it_scope it = [] then [] else split_char CHR '' '' (it_scope it))
                                      [(''ageMs'', JNum age), (''childRefreshTokenId'', JStr child)] d2)))))"

definition replayed ::
  "grant_deps \<Rightarrow> request \<Rightarrow> string \<Rightarrow> refresh_row \<Rightarrow> user_row option \<Rightarrow> db \<Rightarrow> (error + issued_tokens) \<times> db"
where
  "replayed D rq iv token user d =
     (case graceReuse D rq iv token user d of
        (Kept_Pair it, d1) \<Rightarrow> (Inr it, d1)
      | (Already_Rotated, d1) \<Rightarrow> (Inl (invalid_grant ''Refresh token already rotated''), d1)
      | (No_Grace, d1) \<Rightarrow>
          let d2 = d1\<lparr>refresh_tokens :=
                     revoke_family (rt_user token) (rt_client token) (rq_now rq) (refresh_tokens d1)\<rparr>;
              d3 = auditReuse rq token user ''token.failed.refresh_reuse'' False
                     (Some ''Refresh token revoked'') [] [] d2
          in (Inl (invalid_grant ''Refresh token revoked''),
              signalTokenRevoked user (rt_company token) d3))"

definition rotationInput :: "refresh_row \<Rightarrow> user_row \<Rightarrow> string \<Rightarrow> string option \<Rightarrow> gen_input" where
  "rotationInput token user scope resource =
     \<lparr>gi_user = user, gi_client = rt_client token, gi_scope = scope,
      gi_rotated_from = Some (rt_id token), gi_nonce = rt_nonce token, gi_amr = rt_amr token,
      gi_acr = None, gi_audience = resource, gi_details = jarr (rt_details token),
      gi_tenant = rt_company token\<rparr>"

definition rotation_gate :: "grant_deps \<Rightarrow> request \<Rightarrow> string \<Rightarrow> refresh_row \<Rightarrow> gate" where
  "rotation_gate D rq iv token =
     claimRotation (sealReplay (gd_prims D) (gd_crypto D) (graceWindowMs (gd_config D)) (rq_now rq) iv)
       (rq_now rq) (rt_id token) (rt_rotated_from token)"

text \<open>
  The second half of a refresh, from the claim on: it runs on the database as it is then, which in
  the interleaved model below is not the one the row was read from.
\<close>

definition rotate ::
  "grant_deps \<Rightarrow> request \<Rightarrow> entropy \<Rightarrow> refresh_row \<Rightarrow> user_row \<Rightarrow> string \<Rightarrow> string option \<Rightarrow> db \<Rightarrow>
   (error + issued_tokens) \<times> db"
where
  "rotate D rq en token user scope resource d =
     (case gd_issue D rq en (rotationInput token user scope resource)
             (Some (rotation_gate D rq (en_iv en) token)) d of
        (Inr it, d1) \<Rightarrow> (Inr it, d1)
      | (Inl (Gate_Refused m), d1) \<Rightarrow>
          (case find_refresh_id (refresh_tokens d1) (rt_id token) of
             None \<Rightarrow> (Inl (invalid_grant ''Refresh token already rotated''), d1)
           | Some rotated \<Rightarrow>
               (case graceReuse D rq (en_iv en) rotated (find_user d1 (rt_user rotated)) d1 of
                  (Kept_Pair it, d2) \<Rightarrow> (Inr it, d2)
                | (_, d2) \<Rightarrow> (Inl (invalid_grant ''Refresh token already rotated''), d2)))
      | (Inl e, d1) \<Rightarrow> (Inl e, d1))"

text \<open>The first half: what the presented value reads as.\<close>

datatype refresh_read =
    Refused error
  | Replay refresh_row "user_row option"
  | Rotate refresh_row user_row string "string option"

definition read_refresh ::
  "grant_deps \<Rightarrow> request \<Rightarrow> string \<Rightarrow> string \<Rightarrow> client_row option \<Rightarrow> db \<Rightarrow> refresh_read"
where
  "read_refresh D rq tokenValue clientId client d =
     (case find_refresh (refresh_tokens d) (p_hmac (gd_prims D) (gd_secret D) tokenValue) of
        None \<Rightarrow> Refused (invalid_grant ''Invalid refresh token'')
      | Some token \<Rightarrow>
          if rt_client token \<noteq> clientId then Refused (invalid_grant ''Invalid refresh token'')
          else if rt_revoked token then Replay token (find_user d (rt_user token))
          else if rt_expires token < rq_now rq then Refused (invalid_grant ''Refresh token expired'')
          else (case refreshBounds (p_parse_url (gd_prims D)) (gd_registry D) client token of
                  Inl e \<Rightarrow> Refused e
                | Inr (scope, resource) \<Rightarrow>
                    (case find_user d (rt_user token) of
                       None \<Rightarrow> Refused Db_Missing
                     | Some user \<Rightarrow> Rotate token user scope resource)))"

definition refresh ::
  "grant_deps \<Rightarrow> request \<Rightarrow> entropy \<Rightarrow> string \<Rightarrow> string \<Rightarrow> client_row option \<Rightarrow> db \<Rightarrow>
   (error + issued_tokens) \<times> db"
where
  "refresh D rq en tokenValue clientId client d =
     (case read_refresh D rq tokenValue clientId client d of
        Refused e \<Rightarrow> (Inl e, d)
      | Replay token user \<Rightarrow> replayed D rq (en_iv en) token user d
      | Rotate token user scope resource \<Rightarrow> rotate D rq en token user scope resource d)"

end
