(* ===== verification/Token_Issuer.thy ===== *)
theory Token_Issuer
  imports Agents Workspace Refresh_Grant Samples
begin

text \<open>
  \<open>src/oauth/oauth-token-issuer.service.ts\<close>: what an issued pair says (the access and ID token
  claims), the organization context it is stamped with, the refresh row it persists in the gated
  transaction, and RFC 7009 revocation.  The last part interprets the interface the refresh grant
  relies on.
\<close>

section \<open>Organization context\<close>

definition metadata_roles :: "user_row \<Rightarrow> string list" where
  "metadata_roles u = strings_of (meta_list (nullish (us_metadata u) JNull) ''roles'')"

definition find_org :: "db \<Rightarrow> string \<Rightarrow> org_row option" where
  "find_org d i = List.find (\<lambda>o1. og_id o1 = i) (orgs d)"

definition active_memberships :: "db \<Rightarrow> string \<Rightarrow> (membership_row \<times> org_row) list" where
  "active_memberships d userId =
     List.map_filter (\<lambda>m. if mb_user m = userId \<and> mb_status m = ''active''
                          then map_option (Pair m) (find_org d (mb_org m)) else None) (memberships d)"

definition or_user :: "string list \<Rightarrow> string list" where
  "or_user roles = (if roles \<noteq> [] then roles else [''user''])"

definition base_context :: "string list \<Rightarrow> json option \<Rightarrow> org_context" where
  "base_context roles custom =
     \<lparr>oc_roles = or_user roles, oc_custom = sanitizeCustomClaims custom, oc_org = None,
      oc_org_id = None, oc_org_role = None, oc_org_slug = None, oc_demo = False, oc_act = None\<rparr>"

definition member_context ::
  "org_context \<Rightarrow> string list \<Rightarrow> string option \<Rightarrow> (membership_row \<times> org_row) list \<Rightarrow> org_context"
where
  "member_context base metaRoles tenant ms =
     (let (m, org) = nullish (List.find (\<lambda>(m, org). Some (og_company org) = tenant) ms) (hd ms);
          roles = uniq (metaRoles @ staffRoles (map (\<lambda>(m, _). mb_role m) ms))
      in base\<lparr>oc_roles := or_user roles, oc_org := Some (og_company org), oc_org_id := Some (mb_org m),
              oc_org_role := Some (mb_role m), oc_org_slug := Some (og_slug org),
              oc_demo := isDemoOrganization org\<rparr>)"

definition client_tenant :: "client_row option \<Rightarrow> (string option \<times> bool) option" where
  "client_tenant c = map_option (\<lambda>c. (cl_company c, cl_customer_lane c)) c"

definition resolveOrgContext ::
  "prims \<Rightarrow> config \<Rightarrow> entropy \<Rightarrow> gen_input \<Rightarrow> db \<Rightarrow> org_context \<times> db"
where
  "resolveOrgContext P cf en inp d =
     (let metaRoles = metadata_roles (gi_user inp);
          clientRow = find_client d (gi_client inp);
          base = base_context metaRoles (Option.bind clientRow cl_custom_claims)
      in if \<not> setting_flag cf ''RBAC_TOKEN_CLAIMS_ENABLED'' then (base, d)
         else (case active_memberships d (us_id (gi_user inp)) of
                 [] \<Rightarrow>
                   (case provisionFor P cf en (us_id (gi_user inp)) (Some (gi_scope inp))
                           (Some (gi_client inp)) d of
                      (None, d1) \<Rightarrow> (base, d1)
                    | (Some o1, d1) \<Rightarrow>
                        (base\<lparr>oc_roles := uniq (metaRoles @ [''owner'']), oc_org := Some (og_company o1),
                              oc_org_id := Some (og_id o1), oc_org_role := Some ''owner'',
                              oc_org_slug := Some (og_slug o1)\<rparr>, d1))
               | m # ms \<Rightarrow>
                   (member_context base metaRoles
                      (tokenTenant (client_tenant clientRow) (gi_tenant inp)) (m # ms), d)))"

section \<open>Claims\<close>

definition act_members :: "org_context \<Rightarrow> (string \<times> json) list" where
  "act_members ctx =
     (case oc_act ctx of None \<Rightarrow> []
      | Some a \<Rightarrow> [(''act'', mk_obj [(''sub'', JStr (act_sub a)), (''client_id'', JStr (act_client a))])])"

definition identity_members :: "user_row \<Rightarrow> (string \<times> json) list" where
  "identity_members u =
     [(''email'', jopt (us_email u)), (''email_verified'', JBool (us_email_verified u)),
      (''name'', jopt (us_name u)), (''picture'', jopt (us_avatar u))]"

definition access_claims :: "gen_input \<Rightarrow> org_context \<Rightarrow> (string \<times> json) list" where
  "access_claims inp ctx =
     (let u = gi_user inp in
      [(''sub'', JStr (us_did u)), (''client_id'', JStr (gi_client inp)), (''userId'', JStr (us_id u))]
      @ identity_members u
      @ [(''roles'', JArr (map JStr (oc_roles ctx)))]
      @ platformRoleClaim (us_metadata u)
      @ orgClaims ctx
      @ custom_members (oc_custom ctx)
      @ act_members ctx
      @ (if nullish (gi_details inp) [] \<noteq> []
         then [(''authorization_details'', JArr (nullish (gi_details inp) []))] else [])
      @ [(''scope'', JStr (gi_scope inp))])"

definition id_claims :: "gen_input \<Rightarrow> org_context \<Rightarrow> (string \<times> json) list" where
  "id_claims inp ctx =
     (let u = gi_user inp in
      [(''sub'', JStr (us_did u))] @ identity_members u
      @ [(''roles'', JArr (map JStr (oc_roles ctx)))]
      @ platformRoleClaim (us_metadata u)
      @ orgClaims ctx
      @ opt_member ''nonce'' (gi_nonce inp)
      @ (if gi_amr inp \<noteq> [] then [(''amr'', JArr (map JStr (gi_amr inp)))] else [])
      @ opt_member ''acr'' (gi_acr inp))"

section \<open>Issuing\<close>

record issuer_deps =
  is_prims :: prims
  is_config :: config
  is_secret :: string

definition access_ttl :: "config \<Rightarrow> int" where
  "access_ttl cf = expiry_seconds (setting_value cf ''JWT_ACCESS_TOKEN_EXPIRY'' ''10m'') 600"

definition access_audience :: "gen_input \<Rightarrow> string" where
  "access_audience inp = nullish (gi_audience inp) (gi_client inp)"

definition buildAccessToken :: "issuer_deps \<Rightarrow> gen_input \<Rightarrow> org_context \<Rightarrow> string" where
  "buildAccessToken I inp ctx =
     p_sign (is_prims I) (mk_obj (access_claims inp ctx))
       \<lparr>so_expires_in = access_ttl (is_config I), so_audience = access_audience inp,
        so_issuer = jwt_issuer (is_config I)\<rparr>"

definition buildIdToken :: "issuer_deps \<Rightarrow> gen_input \<Rightarrow> org_context \<Rightarrow> string" where
  "buildIdToken I inp ctx =
     p_sign (is_prims I) (mk_obj (id_claims inp ctx))
       \<lparr>so_expires_in = access_ttl (is_config I), so_audience = gi_client inp,
        so_issuer = jwt_issuer (is_config I)\<rparr>"

definition refresh_row_for ::
  "issuer_deps \<Rightarrow> request \<Rightarrow> entropy \<Rightarrow> gen_input \<Rightarrow> issued_tokens \<Rightarrow> db \<Rightarrow> refresh_row"
where
  "refresh_row_for I rq en inp it d =
     \<lparr>rt_id = en_row_id en,
      rt_lookup = Some (p_hmac (is_prims I) (is_secret I) (it_refresh_token it)),
      rt_user = us_id (gi_user inp), rt_client = gi_client inp,
      rt_company = tokenTenant (client_tenant (find_client d (gi_client inp))) (gi_tenant inp),
      rt_scope = Some (gi_scope inp), rt_nonce = gi_nonce inp, rt_amr = gi_amr inp,
      rt_details = (if nullish (gi_details inp) [] \<noteq> [] then Some (JArr (nullish (gi_details inp) [])) else None),
      rt_resource = gi_audience inp, rt_expires = rq_now rq + REFRESH_TTL_MS,
      rt_rotated_from = gi_rotated_from inp, rt_grace_replay = None, rt_grace_until = None,
      rt_revoked = False, rt_revoked_at = None, rt_created = rq_now rq,
      rt_ip = device_ip rq, rt_user_agent = device_user_agent rq, rt_last_used = Some (rq_now rq)\<rparr>"

definition persistRefreshToken ::
  "issuer_deps \<Rightarrow> request \<Rightarrow> entropy \<Rightarrow> gen_input \<Rightarrow> issued_tokens \<Rightarrow> gate option \<Rightarrow> db \<Rightarrow> error + db"
where
  "persistRefreshToken I rq en inp it g d =
     (case gated g it (refresh_tokens d) of
        Inl e \<Rightarrow> Inl e
      | Inr t \<Rightarrow> (case insert_refresh (refresh_row_for I rq en inp it d) t of
                    Inl e \<Rightarrow> Inl e
                  | Inr t' \<Rightarrow> Inr (d\<lparr>refresh_tokens := t'\<rparr>)))"

definition generateTokens :: "issuer_deps \<Rightarrow> issuer" where
  "generateTokens I rq en inp g d =
     (case actFor (is_prims I) (is_config I) rq en (us_id (gi_user inp)) (gi_client inp) (gi_details inp) d of
        (Inl e, d1) \<Rightarrow> (Inl e, d1)
      | (Inr act, d1) \<Rightarrow>
          (case resolveOrgContext (is_prims I) (is_config I) en inp d1 of
             (ctx0, d2) \<Rightarrow>
               let ctx = ctx0\<lparr>oc_act := act\<rparr>;
                   it = \<lparr>it_access_token = buildAccessToken I inp ctx,
                         it_expires_in = access_ttl (is_config I), it_refresh_token = en_token en,
                         it_id_token = buildIdToken I inp ctx, it_scope = gi_scope inp\<rparr>
               in (case persistRefreshToken I rq en inp it g d2 of
                     Inl e \<Rightarrow> (Inl e, d2)
                   | Inr d3 \<Rightarrow> (Inr it, d3))))"

section \<open>Revocation\<close>

definition mark_token_revoked :: "string \<Rightarrow> string \<Rightarrow> time \<Rightarrow> refresh_row list \<Rightarrow> refresh_row list" where
  "mark_token_revoked lookup clientId now t =
     update_many (\<lambda>r. rt_lookup r = Some lookup \<and> rt_client r = clientId \<and> \<not> rt_revoked r)
       (mark_revoked now) t"

definition revoke_token_table :: "string \<Rightarrow> string \<Rightarrow> time \<Rightarrow> refresh_row list \<Rightarrow> refresh_row list" where
  "revoke_token_table lookup clientId now t =
     (case List.find (\<lambda>r. rt_lookup r = Some lookup \<and> rt_client r = clientId) t of
        None \<Rightarrow> mark_token_revoked lookup clientId now t
      | Some row \<Rightarrow>
          update_many (\<lambda>r. keptPairsAround (rt_id row) (rt_rotated_from row) r \<and> rt_client r = clientId)
            erased_replay (mark_token_revoked lookup clientId now t))"

definition revokeToken :: "issuer_deps \<Rightarrow> request \<Rightarrow> string \<Rightarrow> string \<Rightarrow> db \<Rightarrow> db" where
  "revokeToken I rq token clientId d =
     (let lookup = p_hmac (is_prims I) (is_secret I) token;
          d1 = d\<lparr>refresh_tokens := revoke_token_table lookup clientId (rq_now rq) (refresh_tokens d)\<rparr>
      in case List.find (\<lambda>r. rt_lookup r = Some lookup \<and> rt_client r = clientId) (refresh_tokens d) of
           None \<Rightarrow> d1
         | Some row \<Rightarrow> signalTokenRevoked (find_user d (rt_user row)) (rt_company row) d1)"

lemma narrows_mark_token: "table_narrows t (mark_token_revoked lookup clientId now t)"
  by (simp add: mark_token_revoked_def narrows_update_many)

interpretation rfc7009: narrowing_op "revoke_token_table lookup clientId now"
proof unfold_locales
  fix t
  have "table_narrows (mark_token_revoked lookup clientId now t) (update_many p erased_replay
      (mark_token_revoked lookup clientId now t))" for p
    by (simp add: narrows_update_many)
  then show "table_narrows t (revoke_token_table lookup clientId now t)"
    by (auto simp: revoke_token_table_def narrows_mark_token split: option.split
        intro: table_narrows_trans [OF narrows_mark_token])
qed

section \<open>The issuer keeps the contract of the grant\<close>

lemma resolve_frame:
  assumes "resolveOrgContext P cf en inp d = (ctx, d')"
  shows "refresh_tokens d' = refresh_tokens d" "clients d' = clients d" "users d' = users d"
    "auth_codes d' = auth_codes d" "agents d' = agents d" "devices d' = devices d"
    "consents d' = consents d" "effects d' = effects d"
  using assms
  by (auto simp: resolveOrgContext_def Let_def split: if_splits list.splits prod.splits option.splits
      dest: provision_frame)

lemma issued_row_for:
  "it_refresh_token it = tok \<Longrightarrow>
   issued_row (p_hmac (is_prims I) (is_secret I)) rq en inp it (refresh_row_for I rq en inp it d)"
  by (simp add: issued_row_def refresh_row_for_def)

lemma persist_okE:
  assumes "persistRefreshToken I rq en inp it g d = Inr d'"
  obtains t where "gated g it (refresh_tokens d) = Inr t"
    "insert_refresh (refresh_row_for I rq en inp it d) t = Inr (refresh_tokens d')"
    "d' = d\<lparr>refresh_tokens := refresh_tokens d'\<rparr>"
  using assms by (auto simp: persistRefreshToken_def split: sum.splits)

lemma generate_okE:
  assumes "generateTokens I rq en inp g d = (Inr it, d')"
  obtains act d1 ctx d2 where
    "actFor (is_prims I) (is_config I) rq en (us_id (gi_user inp)) (gi_client inp) (gi_details inp) d
       = (Inr act, d1)"
    "resolveOrgContext (is_prims I) (is_config I) en inp d1 = (ctx, d2)"
    "it = \<lparr>it_access_token = buildAccessToken I inp (ctx\<lparr>oc_act := act\<rparr>),
           it_expires_in = access_ttl (is_config I), it_refresh_token = en_token en,
           it_id_token = buildIdToken I inp (ctx\<lparr>oc_act := act\<rparr>), it_scope = gi_scope inp\<rparr>"
    "persistRefreshToken I rq en inp it g d2 = Inr d'"
  using assms by (auto simp: generateTokens_def Let_def split: prod.splits sum.splits)

lemma generate_ok:
  assumes "generateTokens I rq en inp g d = (Inr it, d')"
  shows "it_scope it = gi_scope inp \<and> it_refresh_token it = en_token en
    \<and> (\<exists>t r. gated g it (refresh_tokens d) = Inr t
         \<and> issued_row (p_hmac (is_prims I) (is_secret I)) rq en inp it r
         \<and> insert_refresh r t = Inr (refresh_tokens d'))"
proof -
  from assms obtain act d1 ctx d2 where g:
    "actFor (is_prims I) (is_config I) rq en (us_id (gi_user inp)) (gi_client inp) (gi_details inp) d
       = (Inr act, d1)"
    "resolveOrgContext (is_prims I) (is_config I) en inp d1 = (ctx, d2)"
    "it_scope it = gi_scope inp" "it_refresh_token it = en_token en"
    "persistRefreshToken I rq en inp it g d2 = Inr d'"
    by (auto elim!: generate_okE)
  have "refresh_tokens d2 = refresh_tokens d"
    using actFor_frame(1) [OF g(1)] resolve_frame(1) [OF g(2)] by simp
  moreover obtain t where "gated g it (refresh_tokens d2) = Inr t"
    "insert_refresh (refresh_row_for I rq en inp it d2) t = Inr (refresh_tokens d')"
    using g(5) by (rule persist_okE)
  ultimately show ?thesis using g(3,4) issued_row_for [OF g(4)] by metis
qed

lemma generate_error:
  assumes "generateTokens I rq en inp g d = (Inl e, d')"
  shows "refresh_tokens d' = refresh_tokens d"
  using assms
  by (auto simp: generateTokens_def Let_def actFor_frame(1) resolve_frame(1)
      split: prod.splits sum.splits)

interpretation issuer: token_issue "generateTokens I" "p_hmac (is_prims I) (is_secret I)"
  using generate_ok generate_error by unfold_locales blast+

section \<open>What a token says\<close>

lemma reserved_not_custom:
  assumes "fst ` set (oc_custom ctx) \<subseteq> set ALLOWED_CLAIM_KEYS" and "k \<notin> set ALLOWED_CLAIM_KEYS"
  shows "k \<notin> fst ` set (custom_members (oc_custom ctx))"
  using assms by (auto simp: custom_member_keys)

definition stamp_base :: "gen_input \<Rightarrow> db \<Rightarrow> org_context" where
  "stamp_base inp d = base_context (metadata_roles (gi_user inp))
     (Option.bind (find_client d (gi_client inp)) cl_custom_claims)"

lemma resolve_cases:
  assumes "resolveOrgContext P cf en inp d = (ctx, d')"
  obtains (bare) "ctx = stamp_base inp d"
  | (fresh) o1 where "active_memberships d (us_id (gi_user inp)) = []"
      "provisionFor P cf en (us_id (gi_user inp)) (Some (gi_scope inp)) (Some (gi_client inp)) d = (Some o1, d')"
      "ctx = (stamp_base inp d)\<lparr>oc_roles := uniq (metadata_roles (gi_user inp) @ [''owner'']),
         oc_org := Some (og_company o1), oc_org_id := Some (og_id o1), oc_org_role := Some ''owner'',
         oc_org_slug := Some (og_slug o1)\<rparr>"
  | (member) "active_memberships d (us_id (gi_user inp)) \<noteq> []" "d' = d"
      "ctx = member_context (stamp_base inp d) (metadata_roles (gi_user inp))
         (tokenTenant (client_tenant (find_client d (gi_client inp))) (gi_tenant inp))
         (active_memberships d (us_id (gi_user inp)))"
proof (cases "setting_flag cf ''RBAC_TOKEN_CLAIMS_ENABLED''")
  case False
  then show ?thesis using assms bare by (auto simp: resolveOrgContext_def Let_def stamp_base_def)
next
  case True
  show ?thesis
  proof (cases "active_memberships d (us_id (gi_user inp))")
    case Nil
    obtain r d1 where p: "provisionFor P cf en (us_id (gi_user inp)) (Some (gi_scope inp))
        (Some (gi_client inp)) d = (r, d1)" by fastforce
    show ?thesis
    proof (cases r)
      case None
      have "ctx = stamp_base inp d"
        using assms Nil True p None by (simp add: resolveOrgContext_def Let_def stamp_base_def)
      then show ?thesis by (rule bare)
    next
      case (Some o1)
      have "d' = d1" and "ctx = (stamp_base inp d)\<lparr>oc_roles := uniq (metadata_roles (gi_user inp) @ [''owner'']),
         oc_org := Some (og_company o1), oc_org_id := Some (og_id o1), oc_org_role := Some ''owner'',
         oc_org_slug := Some (og_slug o1)\<rparr>"
        using assms Nil True p Some by (simp_all add: resolveOrgContext_def Let_def stamp_base_def)
      then show ?thesis using fresh [OF Nil] p Some by blast
    qed
  next
    case (Cons m ms)
    have "d' = d" and "ctx = member_context (stamp_base inp d) (metadata_roles (gi_user inp))
         (tokenTenant (client_tenant (find_client d (gi_client inp))) (gi_tenant inp))
         (active_memberships d (us_id (gi_user inp)))"
      using assms Cons True by (auto simp: resolveOrgContext_def Let_def stamp_base_def)
    with Cons show ?thesis by (intro member) simp_all
  qed
qed

lemma member_context_custom [simp]: "oc_custom (member_context b r t ms) = oc_custom b"
  by (simp add: member_context_def Let_def split: prod.split)

lemma stamp_base_simps [simp]:
  "oc_custom (stamp_base inp d) = sanitizeCustomClaims
     (Option.bind (find_client d (gi_client inp)) cl_custom_claims)"
  "oc_org (stamp_base inp d) = None" "oc_org_id (stamp_base inp d) = None"
  "oc_roles (stamp_base inp d) = or_user (metadata_roles (gi_user inp))"
  by (simp_all add: stamp_base_def base_context_def)

lemma resolve_custom_keys:
  assumes "resolveOrgContext P cf en inp d = (ctx, d')"
  shows "fst ` set (oc_custom ctx) \<subseteq> set ALLOWED_CLAIM_KEYS"
  using assms by (rule resolve_cases) (simp_all add: sanitize_keys)

text \<open>Reading a member of a claims object, spread by spread.\<close>

lemma jget_append:
  "jget (mk_obj (xs @ ys)) k =
     (case jget (mk_obj ys) k of None \<Rightarrow> jget (mk_obj xs) k | Some v \<Rightarrow> Some v)"
  by (simp add: jget_mk_obj map_add_def split: option.split)

lemma jget_Cons:
  "jget (mk_obj ((k', v) # ys)) k =
     (case jget (mk_obj ys) k of None \<Rightarrow> (if k = k' then Some v else None) | Some w \<Rightarrow> Some w)"
  by (simp add: jget_mk_obj map_add_def split: option.split)

lemma jget_Nil [simp]: "jget (mk_obj []) k = None"
  by (simp add: jget_mk_obj)

lemma jget_unnamed: "k \<notin> fst ` set ys \<Longrightarrow> jget (mk_obj ys) k = None"
  by (simp add: jget_mk_obj map_of_eq_None_iff)

lemma jget_custom: "fst ` set (oc_custom ctx) \<subseteq> set ALLOWED_CLAIM_KEYS \<Longrightarrow>
   k \<notin> set ALLOWED_CLAIM_KEYS \<Longrightarrow> jget (mk_obj (custom_members (oc_custom ctx))) k = None"
  by (rule jget_unnamed) (rule reserved_not_custom)

lemma jget_act: "k \<noteq> ''act'' \<Longrightarrow> jget (mk_obj (act_members ctx)) k = None"
  by (rule jget_unnamed) (auto simp: act_members_def split: option.split)

lemma jget_org: "k \<notin> {''org'', ''org_id'', ''org_slug'', ''org_role'', ''demo''} \<Longrightarrow>
   jget (mk_obj (orgClaims ctx)) k = None"
  using orgClaims_keys by (blast intro: jget_unnamed)

lemma jget_platform: "jget (mk_obj (platformRoleClaim m)) k =
   (if k = ''platform_role'' \<and> resolveUserScope m = Some Superadmin then Some (JStr ''superadmin'') else None)"
  by (simp add: platformRoleClaim_def jget_Cons)

lemmas jget_claims = jget_append jget_Cons jget_custom jget_act jget_org jget_platform

lemma access_claims_members:
  assumes "fst ` set (oc_custom ctx) \<subseteq> set ALLOWED_CLAIM_KEYS"
  shows "jget (mk_obj (access_claims inp ctx)) ''sub'' = Some (JStr (us_did (gi_user inp)))"
    and "jget (mk_obj (access_claims inp ctx)) ''client_id'' = Some (JStr (gi_client inp))"
    and "jget (mk_obj (access_claims inp ctx)) ''userId'' = Some (JStr (us_id (gi_user inp)))"
    and "jget (mk_obj (access_claims inp ctx)) ''scope'' = Some (JStr (gi_scope inp))"
    and "jget (mk_obj (access_claims inp ctx)) ''roles'' = Some (JArr (map JStr (oc_roles ctx)))"
    and "jget (mk_obj (access_claims inp ctx)) ''platform_role'' =
      (if resolveUserScope (us_metadata (gi_user inp)) = Some Superadmin then Some (JStr ''superadmin'')
       else None)"
  using assms
  by (simp_all add: access_claims_def Let_def identity_members_def jget_claims ALLOWED_CLAIM_KEYS_def)

text \<open>C7. The access token a grant issues is signed for the requested resource (or the client
  itself) and says who the person is, which client it is for and the granted scope; the operator's
  custom claims, the organization claims and the delegation claim cannot restate any of these, and
  the platform role is there exactly when the person's own metadata grants it: no membership does.\<close>

theorem issued_token_claims:
  assumes "generateTokens I rq en inp g d = (Inr it, d')"
  shows "\<exists>claims. it_access_token it = p_sign (is_prims I) claims
       \<lparr>so_expires_in = access_ttl (is_config I),
        so_audience = nullish (gi_audience inp) (gi_client inp), so_issuer = jwt_issuer (is_config I)\<rparr>
     \<and> jget claims ''sub'' = Some (JStr (us_did (gi_user inp)))
     \<and> jget claims ''client_id'' = Some (JStr (gi_client inp))
     \<and> jget claims ''userId'' = Some (JStr (us_id (gi_user inp)))
     \<and> jget claims ''scope'' = Some (JStr (gi_scope inp))
     \<and> (jget claims ''platform_role'' =
          (if resolveUserScope (us_metadata (gi_user inp)) = Some Superadmin
           then Some (JStr ''superadmin'') else None))"
proof -
  from assms obtain act d1 ctx d2 where
    c: "resolveOrgContext (is_prims I) (is_config I) en inp d1 = (ctx, d2)"
    and it: "it_access_token it = buildAccessToken I inp (ctx\<lparr>oc_act := act\<rparr>)"
    by (auto elim!: generate_okE)
  have "fst ` set (oc_custom (ctx\<lparr>oc_act := act\<rparr>)) \<subseteq> set ALLOWED_CLAIM_KEYS"
    using resolve_custom_keys [OF c] by simp
  from access_claims_members [OF this] show ?thesis
    by (intro exI [of _ "mk_obj (access_claims inp (ctx\<lparr>oc_act := act\<rparr>))"])
       (simp add: it buildAccessToken_def access_audience_def)
qed

definition demo_issuer :: issuer_deps where
  "demo_issuer = \<lparr>is_prims = P0, is_config = demo_config, is_secret = ''k''\<rparr>"

definition demo_input :: gen_input where
  "demo_input = \<lparr>gi_user = ann, gi_client = ''shop'', gi_scope = ''openid'', gi_rotated_from = None,
     gi_nonce = None, gi_amr = [''pwd''], gi_acr = None, gi_audience = None, gi_details = None,
     gi_tenant = Some ''acme''\<rparr>"

lemma demo_generate:
  "generateTokens demo_issuer demo_rq demo_en demo_input None demo_db
     = (Inr (case fst (generateTokens demo_issuer demo_rq demo_en demo_input None demo_db) of Inr it \<Rightarrow> it),
        snd (generateTokens demo_issuer demo_rq demo_en demo_input None demo_db))"
  by code_simp

theorem issued_token_claims_witness:
  "\<exists>(it :: issued_tokens) claims. it_access_token it = p_sign P0 claims
       \<lparr>so_expires_in = 600, so_audience = ''shop'', so_issuer = ''http://localhost:3002''\<rparr>
     \<and> jget claims ''sub'' = Some (JStr ''did:web:ann'')"
proof -
  have s: "is_prims demo_issuer = P0" "gi_audience demo_input = None" "gi_client demo_input = ''shop''"
      "us_did (gi_user demo_input) = ''did:web:ann''"
    by (simp_all add: demo_issuer_def demo_input_def ann_def)
  have c: "access_ttl (is_config demo_issuer) = 600" "jwt_issuer (is_config demo_issuer) = ''http://localhost:3002''"
    by code_simp+
  show ?thesis using issued_token_claims [OF demo_generate] unfolding s c nullish_simps
    by (intro exI [of _ "case fst (generateTokens demo_issuer demo_rq demo_en demo_input None demo_db) of Inr it \<Rightarrow> it"])
       (elim exE conjE, intro exI conjI)
qed

lemma active_membershipsD:
  assumes "(m, org) \<in> set (active_memberships d u)"
  shows "m \<in> set (memberships d)" "org \<in> set (orgs d)" "mb_user m = u" "mb_status m = ''active''"
    "mb_org m = og_id org"
proof -
  from assms have m: "m \<in> set (memberships d)" "mb_user m = u" "mb_status m = ''active''"
    and o1: "List.find (\<lambda>o1. og_id o1 = mb_org m) (orgs d) = Some org"
    by (auto simp: active_memberships_def List.map_filter_def find_org_def split: if_splits)
  show "m \<in> set (memberships d)" "mb_user m = u" "mb_status m = ''active''" by (fact m)+
  show "org \<in> set (orgs d)" "mb_org m = og_id org" using find_SomeD [OF o1] by simp_all
qed

lemma member_choice:
  fixes ms :: "(membership_row \<times> org_row) list"
  assumes "ms \<noteq> []"
  obtains m org where "(m, org) \<in> set ms"
    "nullish (List.find (\<lambda>(m, org). Some (og_company org) = tenant) ms) (hd ms) = (m, org)"
    "(\<exists>(m', org') \<in> set ms. Some (og_company org') = tenant) \<longrightarrow> Some (og_company org) = tenant"
proof (cases "List.find (\<lambda>(m, org). Some (og_company org) = tenant) ms")
  case None
  have "\<not> (\<exists>(m', org') \<in> set ms. Some (og_company org') = tenant)"
    using find_NoneD [OF None] by auto
  then show ?thesis using that [of "fst (hd ms)" "snd (hd ms)"] assms None by simp
next
  case (Some x)
  then show ?thesis using that [of "fst x" "snd x"] find_SomeD [OF Some] by (simp add: case_prod_beta)
qed

lemma provision_member:
  assumes "provisionFor P cf en u s c d = (Some o1, d')"
  shows "\<exists>m \<in> set (memberships d'). mb_user m = u \<and> mb_org m = og_id o1 \<and> mb_status m = ''active''"
    and "o1 \<in> set (orgs d')"
proof -
  from assms obtain d1 where w: "upsert_workspace P en u d = (Inr o1, d1)"
    and d': "d' = upsert_owner u (og_id o1) d1"
    by (auto simp: provisionFor_def Let_def split: if_splits prod.splits sum.splits)
  obtain m where m: "membershipOf d' u (og_id o1) = Some m"
    using upsert_owner_member [of u "og_id o1" d1] d' by auto
  from membershipOfD [OF m]
  have mm: "m \<in> set (memberships d')" "mb_user m = u" "mb_org m = og_id o1" by simp_all
  then have "mb_status m = ''active''" unfolding d' by (rule upsert_owner_active)
  with mm show "\<exists>m \<in> set (memberships d'). mb_user m = u \<and> mb_org m = og_id o1 \<and> mb_status m = ''active''"
    by blast
  show "o1 \<in> set (orgs d')" using find_SomeD [OF upsert_workspace_found [OF w]] by (simp add: d')
qed

text \<open>When a token is stamped with an organization, the person holds an active membership in it
  (the workspace just provisioned counts); when the person is a member of the client's tenant, or of
  the tenant a lane grant was made for, the stamp names that tenant and no other; and the role
  \<open>customer\<close> is never among the roles unless the person's own metadata says so.\<close>

theorem org_stamp_is_a_membership:
  assumes "resolveOrgContext P cf en inp d = (ctx, d')" and "oc_org_id ctx = Some i"
  shows "(\<exists>m \<in> set (memberships d'). mb_user m = us_id (gi_user inp) \<and> mb_org m = i \<and> mb_status m = ''active'')
     \<and> (\<exists>org \<in> set (orgs d'). og_id org = i \<and> oc_org ctx = Some (og_company org))
     \<and> ((\<exists>(m, org) \<in> set (active_memberships d (us_id (gi_user inp))).
           Some (og_company org) = tokenTenant (client_tenant (find_client d (gi_client inp))) (gi_tenant inp))
         \<longrightarrow> oc_org ctx = tokenTenant (client_tenant (find_client d (gi_client inp))) (gi_tenant inp))
     \<and> (CUSTOMER_ROLE \<in> set (oc_roles ctx) \<longrightarrow> CUSTOMER_ROLE \<in> set (metadata_roles (gi_user inp)))"
  using assms(1)
proof (cases rule: resolve_cases)
  case bare
  then show ?thesis using assms(2) by simp
next
  case (fresh o1)
  then have "og_id o1 = i" using assms(2) by simp
  then show ?thesis using fresh provision_member [OF fresh(2)]
    by (auto simp: CUSTOMER_ROLE_def)
next
  case member
  let ?t = "tokenTenant (client_tenant (find_client d (gi_client inp))) (gi_tenant inp)"
  let ?ms = "active_memberships d (us_id (gi_user inp))"
  from member(1) obtain m org where mo: "(m, org) \<in> set ?ms"
    "nullish (List.find (\<lambda>(m, org). Some (og_company org) = ?t) ?ms) (hd ?ms) = (m, org)"
    "(\<exists>(m', org') \<in> set ?ms. Some (og_company org') = ?t) \<longrightarrow> Some (og_company org) = ?t"
    by (rule member_choice [where tenant = ?t])
  have ctx: "oc_org_id ctx = Some (mb_org m)" "oc_org ctx = Some (og_company org)"
    "oc_roles ctx = or_user (uniq (metadata_roles (gi_user inp) @ staffRoles (map (\<lambda>(m, _). mb_role m) ?ms)))"
    using member(3) mo(2) by (simp_all add: member_context_def)
  note am = active_membershipsD [OF mo(1)]
  have no: "CUSTOMER_ROLE \<notin> set (or_user xs)" if "CUSTOMER_ROLE \<notin> set xs" for xs
    using that by (simp add: or_user_def CUSTOMER_ROLE_def)
  have "CUSTOMER_ROLE \<notin> set (oc_roles ctx)" if "CUSTOMER_ROLE \<notin> set (metadata_roles (gi_user inp))"
    unfolding ctx(3) by (rule no) (use that in \<open>simp add: staffRoles_def\<close>)
  then show ?thesis using am mo(3) ctx assms(2) member(2) by auto
qed

theorem org_stamp_is_a_membership_witness:
  "\<exists>m \<in> set (memberships demo_db). mb_user m = ''u1'' \<and> mb_org m = ''o1'' \<and> mb_status m = ''active''"
proof -
  obtain ctx d' where r: "resolveOrgContext P0 demo_config demo_en demo_input demo_db = (ctx, d')"
    by fastforce
  have "oc_org_id (fst (resolveOrgContext P0 demo_config demo_en demo_input demo_db)) = Some ''o1''"
    "memberships (snd (resolveOrgContext P0 demo_config demo_en demo_input demo_db)) = memberships demo_db"
    "us_id (gi_user demo_input) = ''u1''"
    by code_simp+
  then show ?thesis using org_stamp_is_a_membership [OF r] r by simp
qed

section \<open>What a revocation does\<close>

lemma mark_token_closes:
  assumes "r \<in> set (mark_token_revoked l c now t)" and "rt_lookup r = Some l" and "rt_client r = c"
  shows "rt_revoked r"
  using assms(1) unfolding mark_token_revoked_def
  by (rule update_manyE) (use assms(2,3) in \<open>auto split: if_splits\<close>)

lemma mark_token_others:
  "rt_client r \<noteq> c \<Longrightarrow> r \<in> set (mark_token_revoked l c now t) \<longleftrightarrow> r \<in> set t"
  unfolding mark_token_revoked_def
  by (auto simp: set_update_many split: if_splits)

lemma erase_rows:
  assumes "r \<in> set (update_many p erased_replay t)"
  obtains r1 where "r1 \<in> set t" "r = (if p r1 then erased_replay r1 else r1)" "rt_lookup r = rt_lookup r1"
    "rt_client r = rt_client r1" "rt_revoked r = rt_revoked r1"
  using assms by (rule update_manyE) (auto split: if_splits)

lemma revoke_table_closes:
  assumes "r \<in> set (revoke_token_table l c now t)" and "rt_lookup r = Some l" and "rt_client r = c"
  shows "rt_revoked r"
proof (cases "List.find (\<lambda>r. rt_lookup r = Some l \<and> rt_client r = c) t")
  case None
  then show ?thesis using assms by (auto simp: revoke_token_table_def dest: mark_token_closes)
next
  case (Some row)
  with assms(1) obtain r1 where "r1 \<in> set (mark_token_revoked l c now t)"
    "rt_lookup r = rt_lookup r1" "rt_client r = rt_client r1" "rt_revoked r = rt_revoked r1"
    by (auto simp: revoke_token_table_def elim: erase_rows)
  then show ?thesis using assms(2,3) mark_token_closes by metis
qed

lemma revoke_table_others:
  assumes "rt_client r \<noteq> c"
  shows "r \<in> set (revoke_token_table l c now t) \<longleftrightarrow> r \<in> set t"
proof -
  have "r \<in> set (update_many (\<lambda>r. p r \<and> rt_client r = c) erased_replay u) \<longleftrightarrow> r \<in> set u" for p u
    using assms by (auto simp: set_update_many split: if_splits)
  then show ?thesis
    using mark_token_others [OF assms] by (auto simp: revoke_token_table_def split: option.split)
qed

lemma revokeToken_table:
  "refresh_tokens (revokeToken I rq token c d)
     = revoke_token_table (p_hmac (is_prims I) (is_secret I) token) c (rq_now rq) (refresh_tokens d)"
  by (simp add: revokeToken_def Let_def signalTokenRevoked_def split: option.split)

text \<open>Revoking a refresh token (RFC 7009) leaves it revoked, whether or not it was live, and
  adds nothing to the table; no row of another client changes, whoever's token is presented.\<close>

theorem revoke_token_closes:
  "(\<forall>r. r \<in> set (refresh_tokens (revokeToken I rq token c d))
        \<and> rt_lookup r = Some (p_hmac (is_prims I) (is_secret I) token) \<and> rt_client r = c \<longrightarrow> rt_revoked r)
   \<and> (\<forall>r. rt_client r \<noteq> c \<longrightarrow>
        (r \<in> set (refresh_tokens (revokeToken I rq token c d)) \<longleftrightarrow> r \<in> set (refresh_tokens d)))
   \<and> table_narrows (refresh_tokens d) (refresh_tokens (revokeToken I rq token c d))"
  unfolding revokeToken_table
  using revoke_table_closes revoke_table_others rfc7009.narrows by blast

theorem revoke_token_closes_witness:
  "map rt_revoked (refresh_tokens demo_db) = [False]
   \<and> list_all rt_revoked (refresh_tokens (revokeToken demo_issuer demo_rq ''first'' ''shop'' demo_db))"
proof -
  have "map rt_revoked (refresh_tokens demo_db) = [False]"
    "\<forall>r \<in> set (refresh_tokens (revokeToken demo_issuer demo_rq ''first'' ''shop'' demo_db)).
      rt_lookup r = Some (p_hmac (is_prims demo_issuer) (is_secret demo_issuer) ''first'') \<and> rt_client r = ''shop''"
    by code_simp+
  then show ?thesis using revoke_token_closes [of demo_issuer demo_rq "''first''" "''shop''" demo_db]
    unfolding list_all_iff by blast
qed

end
