(* ===== verification/Refresh_Props.thy ===== *)
theory Refresh_Props
  imports Token_Issuer
begin

text \<open>
  What the refresh grant guarantees.  The first section proves, inside the issuer's interface, how
  each half of the grant changes the table; the grant is then wired to the modelled issuer as
  \<open>oauth.service.ts\<close> does (\<open>grant_of\<close>) and the properties follow.
\<close>

section \<open>The reuse paths only narrow\<close>

lemma erase_stale_narrows: "table_narrows t (erase_stale_pair token now t)"
  by (simp add: erase_stale_pair_def narrows_update_many split: option.split)

lemma childState_narrows:
  assumes "childState token now t = (st, t')"
  shows "table_narrows t t'"
proof -
  have "table_narrows t (update_many p (\<lambda>r. r\<lparr>rt_last_used := Some now\<rparr>) t)" for p
    by (rule narrows_update_many) (simp add: row_narrows_def same_grant_def)
  then show ?thesis using assms by (auto simp: childState_def Let_def split: option.splits if_splits)
qed

lemma childState_live:
  assumes "childState token now t = (Child_Live i, t')" and uq: "distinct (map rt_id t)"
  shows "\<exists>c \<in> set t. rt_id c = i \<and> \<not> rt_revoked c \<and> now < rt_expires c \<and> rt_user c = rt_user token
     \<and> rt_client c = rt_client token \<and> rt_rotated_from c = Some (rt_id token)"
proof -
  obtain child where c: "List.find (\<lambda>r. rt_user r = rt_user token \<and> rt_client r = rt_client token
      \<and> rt_rotated_from r = Some (rt_id token)) t = Some child" "i = rt_id child"
    and n: "count_where (\<lambda>r. rt_id r = rt_id child \<and> \<not> rt_revoked r \<and> rt_expires r > now) t = 1"
    using assms(1) by (auto simp: childState_def Let_def split: option.splits if_splits)
  have "count_where (\<lambda>r. rt_id r = rt_id child \<and> \<not> rt_revoked r \<and> rt_expires r > now) t \<noteq> 0"
    using n by simp
  then obtain x where x: "x \<in> set t" "rt_id x = rt_id child" "\<not> rt_revoked x" "now < rt_expires x"
    unfolding count_where_0 by blast
  have ch: "child \<in> set t" "rt_user child = rt_user token" "rt_client child = rt_client token"
    "rt_rotated_from child = Some (rt_id token)"
    using find_SomeD [OF c(1)] by simp_all
  have "x = child" using uq x(1,2) ch(1) by (metis distinct_map inj_on_def)
  then show ?thesis using x ch c(2) by blast
qed

lemma graceReuse_narrows:
  assumes "graceReuse D rq iv token user d = (oc, d')"
  shows "table_narrows (refresh_tokens d) (refresh_tokens d')"
proof -
  obtain st t2 where cs: "childState token (rq_now rq)
      (erase_stale_pair token (rq_now rq) (refresh_tokens d)) = (st, t2)" by fastforce
  have "refresh_tokens d' = erase_stale_pair token (rq_now rq) (refresh_tokens d) \<or> refresh_tokens d' = t2"
    using assms cs
    by (auto simp: graceReuse_def Let_def auditReuse_def split: if_splits child_state.splits option.splits)
  then show ?thesis
    using erase_stale_narrows childState_narrows [OF cs] table_narrows_trans by metis
qed

lemma signal_frame [simp]: "refresh_tokens (signalTokenRevoked u c d) = refresh_tokens d"
  by (simp add: signalTokenRevoked_def split: option.split)

lemma audit_frame [simp]: "refresh_tokens (auditReuse rq tk u ev s er sc md d) = refresh_tokens d"
  by (simp add: auditReuse_def)

lemma replayed_narrows:
  assumes "replayed D rq iv token user d = (r, d')"
  shows "table_narrows (refresh_tokens d) (refresh_tokens d')"
proof -
  obtain oc d1 where g: "graceReuse D rq iv token user d = (oc, d1)" by fastforce
  have "refresh_tokens d' = refresh_tokens d1 \<or> refresh_tokens d' =
      revoke_family (rt_user token) (rt_client token) (rq_now rq) (refresh_tokens d1)"
    using assms g by (cases oc) (auto simp: replayed_def Let_def)
  then show ?thesis
    using graceReuse_narrows [OF g] family.narrows table_narrows_trans by metis
qed

section \<open>The rotation\<close>

context token_issue
begin

text \<open>Either the claim was won and the child inserted, or the table narrows.\<close>

lemma rotate_cases:
  assumes "rotate D rq en token user scope resource d = (r, d')" and iss: "gd_issue D = issue"
  obtains (rotated) it t c where "r = Inr it"
      "rotation_gate D rq (en_iv en) token it (refresh_tokens d) = Inr t"
      "issued_row hash rq en (rotationInput token user scope resource) it c"
      "it_scope it = scope" "it_refresh_token it = en_token en"
      "refresh_tokens d' = t @ [c]" "insert_refresh c t = Inr (refresh_tokens d')"
  | (lost) "table_narrows (refresh_tokens d) (refresh_tokens d')"
proof -
  let ?g = "Some (rotation_gate D rq (en_iv en) token)"
  obtain r1 d1 where i: "issue rq en (rotationInput token user scope resource) ?g d = (r1, d1)" by fastforce
  show ?thesis
  proof (cases r1)
    case (Inr it)
    then have "r = Inr it" and "d' = d1" using assms i by (simp_all add: rotate_def)
    with issue_ok [OF i [unfolded Inr]] show ?thesis
      by (auto simp: gated_def rotationInput_def insert_refresh_def split: if_splits intro!: rotated)
  next
    case (Inl e)
    have same: "refresh_tokens d1 = refresh_tokens d" using issue_error [OF i [unfolded Inl]] .
    have "table_narrows (refresh_tokens d1) (refresh_tokens d')"
    proof (cases "\<exists>m x. e = Gate_Refused m \<and> find_refresh_id (refresh_tokens d1) (rt_id token) = Some x")
      case True
      then obtain m x where mx: "e = Gate_Refused m" "find_refresh_id (refresh_tokens d1) (rt_id token) = Some x"
        by blast
      obtain oc d2 where g: "graceReuse D rq (en_iv en) x (find_user d1 (rt_user x)) d1 = (oc, d2)" by fastforce
      have "d' = d2" using assms i Inl mx g by (cases oc) (simp_all add: rotate_def)
      then show ?thesis using graceReuse_narrows [OF g] by simp
    next
      case False
      then have "d' = d1" using assms i Inl
        by (auto simp: rotate_def split: error.splits option.splits)
      then show ?thesis by simp
    qed
    then show ?thesis using same lost by simp
  qed
qed

lemma rotate_error_narrows:
  assumes "rotate D rq en token user scope resource d = (Inl e, d')" and "gd_issue D = issue"
  shows "table_narrows (refresh_tokens d) (refresh_tokens d')"
  using assms by (rule rotate_cases) simp_all

lemma rotate_keeps_chain:
  assumes r: "rotate D rq en token user scope resource d = (r, d')" and iss: "gd_issue D = issue"
    and inv: "chain_inv (refresh_tokens d)" and fresh: "fresh_id (en_row_id en) (refresh_tokens d)"
    and user: "us_id user = rt_user token"
    and own: "\<And>p. p \<in> set (refresh_tokens d) \<Longrightarrow> rt_id p = rt_id token \<Longrightarrow>
       rt_user p = rt_user token \<and> rt_client p = rt_client token"
  shows "chain_inv (refresh_tokens d')"
  using r iss
proof (cases rule: rotate_cases)
  case (rotated it t c)
  have c: "rt_id c = en_row_id en" "rt_rotated_from c = Some (rt_id token)" "rt_user c = us_id user"
    "rt_client c = rt_client token"
    using rotated(3) by (simp_all add: issued_row_def rotationInput_def)
  show ?thesis unfolding rotated(6)
    by (rule rotation_keeps_chain [OF inv rotated(2) [unfolded rotation_gate_def]])
       (use c fresh user own in \<open>auto\<close>)
next
  case lost
  then show ?thesis by (rule chain_inv_narrow [OF inv])
qed

end

section \<open>The pair a replay gets\<close>

lemma graceReuse_pair:
  assumes g: "graceReuse D rq iv token user d = (Kept_Pair it, d')"
    and uq: "distinct (map rt_id (refresh_tokens d))"
  shows "openReplay (gd_prims D) (gd_crypto D) token (rq_now rq) = Some it"
    and "withinGrace token (graceWindowMs (gd_config D)) (rq_now rq)"
    and "\<exists>c \<in> set (refresh_tokens d). \<not> rt_revoked c \<and> rq_now rq < rt_expires c
           \<and> rt_user c = rt_user token \<and> rt_client c = rt_client token \<and> rt_rotated_from c = Some (rt_id token)"
proof -
  let ?t1 = "erase_stale_pair token (rq_now rq) (refresh_tokens d)"
  obtain i t2 where o1: "openReplay (gd_prims D) (gd_crypto D) token (rq_now rq) = Some it"
    and w: "withinGrace token (graceWindowMs (gd_config D)) (rq_now rq)"
    and cs: "childState token (rq_now rq) ?t1 = (Child_Live i, t2)"
    using g by (auto simp: graceReuse_def Let_def split: if_splits child_state.splits option.splits prod.splits)
  show "openReplay (gd_prims D) (gd_crypto D) token (rq_now rq) = Some it"
    "withinGrace token (graceWindowMs (gd_config D)) (rq_now rq)" by (fact o1 w)+
  have "distinct (map rt_id ?t1)"
    using uq distinct_subseq erase_stale_narrows unfolding table_narrows_def by blast
  from childState_live [OF cs this] obtain c where c: "c \<in> set ?t1" "\<not> rt_revoked c" "rq_now rq < rt_expires c"
    "rt_user c = rt_user token" "rt_client c = rt_client token" "rt_rotated_from c = Some (rt_id token)"
    by blast
  from erase_stale_narrows c(1) obtain c0 where "c0 \<in> set (refresh_tokens d)" "row_narrows c0 c"
    by (rule table_narrowsD)
  then show "\<exists>c \<in> set (refresh_tokens d). \<not> rt_revoked c \<and> rq_now rq < rt_expires c
      \<and> rt_user c = rt_user token \<and> rt_client c = rt_client token \<and> rt_rotated_from c = Some (rt_id token)"
    using c by (intro bexI [of _ c0]) (auto simp: row_narrows_def same_grant_def)
qed

section \<open>The grant on the modelled issuer\<close>

definition grant_of :: "issuer_deps \<Rightarrow> string option \<Rightarrow> field_crypto option \<Rightarrow> grant_deps" where
  "grant_of I reg fco = \<lparr>gd_prims = is_prims I, gd_config = is_config I, gd_secret = is_secret I,
     gd_registry = reg, gd_crypto = fco, gd_issue = generateTokens I\<rparr>"

definition refreshAccessToken ::
  "issuer_deps \<Rightarrow> string option \<Rightarrow> field_crypto option \<Rightarrow> request \<Rightarrow> entropy \<Rightarrow> string \<Rightarrow> string \<Rightarrow>
   client_row option \<Rightarrow> db \<Rightarrow> (error + issued_tokens) \<times> db"
where
  "refreshAccessToken I reg fco rq en refreshTokenValue clientId client d =
     refresh (grant_of I reg fco) rq en refreshTokenValue clientId client d"

lemma grant_of_simps [simp]:
  "gd_prims (grant_of I reg fco) = is_prims I" "gd_config (grant_of I reg fco) = is_config I"
  "gd_secret (grant_of I reg fco) = is_secret I" "gd_registry (grant_of I reg fco) = reg"
  "gd_crypto (grant_of I reg fco) = fco" "gd_issue (grant_of I reg fco) = generateTokens I"
  by (simp_all add: grant_of_def)

definition token_lookup :: "issuer_deps \<Rightarrow> string \<Rightarrow> string" where
  "token_lookup I v = p_hmac (is_prims I) (is_secret I) v"

definition presented :: "issuer_deps \<Rightarrow> string \<Rightarrow> db \<Rightarrow> refresh_row option" where
  "presented I v d = find_refresh (refresh_tokens d) (token_lookup I v)"

lemma presentedD: "presented I v d = Some tk \<Longrightarrow> tk \<in> set (refresh_tokens d) \<and> rt_lookup tk = Some (token_lookup I v)"
  by (simp add: presented_def find_refreshD)

lemma read_cases:
  assumes "read_refresh (grant_of I reg fco) rq v cid client d = x"
  obtains (refused) e where "x = Refused e"
  | (replay) tk where "presented I v d = Some tk" "rt_client tk = cid" "rt_revoked tk"
      "x = Replay tk (find_user d (rt_user tk))"
  | (live) tk user sc res where "presented I v d = Some tk" "rt_client tk = cid" "\<not> rt_revoked tk"
      "rq_now rq \<le> rt_expires tk" "find_user d (rt_user tk) = Some user"
      "refreshBounds (p_parse_url (is_prims I)) reg client tk = Inr (sc, res)"
      "x = Rotate tk user sc res"
proof (cases x)
  case (Rotate tk user sc res)
  then have "presented I v d = Some tk" "rt_client tk = cid" "\<not> rt_revoked tk"
    "rq_now rq \<le> rt_expires tk" "find_user d (rt_user tk) = Some user"
    "refreshBounds (p_parse_url (is_prims I)) reg client tk = Inr (sc, res)"
    using assms
    by (auto simp: read_refresh_def presented_def token_lookup_def split: option.splits if_splits sum.splits prod.splits)
  then show ?thesis using live Rotate by blast
next
  case (Replay tk u)
  then have "presented I v d = Some tk" "rt_client tk = cid" "rt_revoked tk" "u = find_user d (rt_user tk)"
    using assms
    by (auto simp: read_refresh_def presented_def token_lookup_def split: option.splits if_splits sum.splits prod.splits)
  then show ?thesis using replay Replay by blast
qed (rule refused)

lemma same_id_same_row:
  assumes "chain_inv t" and "tk \<in> set t" and "p \<in> set t" and "rt_id p = rt_id tk"
  shows "p = tk"
  using chain_invD(1) [OF assms(1)] assms(2-4) by (metis distinct_map inj_on_def)

lemma refresh_keeps_chain:
  assumes inv: "chain_inv (refresh_tokens d)" and fresh: "fresh_id (en_row_id en) (refresh_tokens d)"
    and run: "refreshAccessToken I reg fco rq en v cid client d = (r, d')"
  shows "chain_inv (refresh_tokens d')"
proof -
  define x where "x = read_refresh (grant_of I reg fco) rq v cid client d"
  from x_def [symmetric] show ?thesis
  proof (cases rule: read_cases)
    case (refused e)
    then show ?thesis using run inv by (simp add: refreshAccessToken_def refresh_def x_def [symmetric])
  next
    case (replay tk)
    then have "replayed (grant_of I reg fco) rq (en_iv en) tk (find_user d (rt_user tk)) d = (r, d')"
      using run by (simp add: refreshAccessToken_def refresh_def x_def [symmetric])
    then show ?thesis using chain_inv_narrow [OF inv] replayed_narrows by blast
  next
    case (live tk user sc res)
    then have rot: "rotate (grant_of I reg fco) rq en tk user sc res d = (r, d')"
      using run by (simp add: refreshAccessToken_def refresh_def x_def [symmetric])
    have tk: "tk \<in> set (refresh_tokens d)" using presentedD [OF live(1)] by simp
    show ?thesis
    proof (rule issuer.rotate_keeps_chain [OF rot grant_of_simps(6) inv fresh])
      show "us_id user = rt_user tk" using find_userD [OF live(5)] by simp
    qed (auto dest: same_id_same_row [OF inv tk])
  qed
qed

text \<open>The bounds of a rotation, with and without a client row.\<close>

lemma bounds_narrow:
  assumes "refreshBounds pu reg client tk = Inr (sc, res)"
  shows "set (words_of sc) \<subseteq> set (words_of (nullish (rt_scope tk) '''')) \<and> res = rt_resource tk"
proof (cases client)
  case None
  then show ?thesis using assms by (simp add: refreshBounds_def)
next
  case (Some c)
  then show ?thesis using refresh_bounds_scope [OF assms [unfolded Some]] by blast
qed

lemma refresh_run:
  assumes "refreshAccessToken I reg fco rq en v cid client d = (Inr it, d')"
  obtains (rotating) tk user sc res where "presented I v d = Some tk" "rt_client tk = cid"
      "\<not> rt_revoked tk" "rq_now rq \<le> rt_expires tk" "find_user d (rt_user tk) = Some user"
      "refreshBounds (p_parse_url (is_prims I)) reg client tk = Inr (sc, res)"
      "rotate (grant_of I reg fco) rq en tk user sc res d = (Inr it, d')"
  | (replaying) tk where "presented I v d = Some tk" "rt_client tk = cid" "rt_revoked tk"
      "graceReuse (grant_of I reg fco) rq (en_iv en) tk (find_user d (rt_user tk)) d = (Kept_Pair it, d')"
proof -
  define x where "x = read_refresh (grant_of I reg fco) rq v cid client d"
  from x_def [symmetric] show ?thesis
  proof (cases rule: read_cases)
    case (refused e)
    then show ?thesis using assms by (simp add: refreshAccessToken_def refresh_def x_def [symmetric])
  next
    case (replay tk)
    then show ?thesis using assms replaying
      by (auto simp: refreshAccessToken_def refresh_def x_def [symmetric] replayed_def Let_def
          split: prod.splits grace_outcome.splits)
  next
    case (live tk user sc res)
    then show ?thesis using assms rotating
      by (simp add: refreshAccessToken_def refresh_def x_def [symmetric])
  qed
qed

lemma rotate_live:
  assumes rot: "rotate (grant_of I reg fco) rq en tk user sc res d = (Inr it, d')"
    and inv: "chain_inv (refresh_tokens d)" and tk: "tk \<in> set (refresh_tokens d)" "\<not> rt_revoked tk"
  obtains t c where
    "claimRotation (sealReplay (is_prims I) fco (graceWindowMs (is_config I)) (rq_now rq) (en_iv en))
       (rq_now rq) (rt_id tk) (rt_rotated_from tk) it (refresh_tokens d) = Inr t"
    "issued_row (token_lookup I) rq en (rotationInput tk user sc res) it c"
    "refresh_tokens d' = t @ [c]" "it_refresh_token it = en_token en" "it_scope it = sc"
proof -
  let ?g = "Some (rotation_gate (grant_of I reg fco) rq (en_iv en) tk)"
  obtain r1 d1 where i: "generateTokens I rq en (rotationInput tk user sc res) ?g d = (r1, d1)" by fastforce
  have hash: "p_hmac (is_prims I) (is_secret I) = token_lookup I" by (simp add: fun_eq_iff token_lookup_def)
  show ?thesis
  proof (cases r1)
    case (Inr it')
    then have "it' = it" "d1 = d'" using rot i by (simp_all add: rotate_def)
    with issuer.issue_ok [OF i [unfolded Inr]] show ?thesis
      by (auto simp: gated_def rotation_gate_def rotationInput_def insert_refresh_def hash
          split: if_splits intro!: that)
  next
    case (Inl e)
    show ?thesis
    proof (cases "\<exists>m. e = Gate_Refused m")
      case False
      then show ?thesis using rot i Inl by (auto simp: rotate_def split: error.splits)
    next
      case True
      have t: "refresh_tokens d1 = refresh_tokens d" using issuer.issue_error [OF i [unfolded Inl]] .
      have "find_refresh_id (refresh_tokens d1) (rt_id tk) = Some tk"
        using find_key [of rt_id, OF chain_invD(1) [OF inv] tk(1)] by (simp add: t find_refresh_id_def)
      with True rot i Inl obtain d2 oc where g:
        "graceReuse (grant_of I reg fco) rq (en_iv en) tk (find_user d1 (rt_user tk)) d1 = (Kept_Pair it, d')"
        by (auto simp: rotate_def split: prod.splits grace_outcome.splits)
      have "distinct (map rt_id (refresh_tokens d1))" using chain_invD(1) [OF inv] t by simp
      from graceReuse_pair(3) [OF g this] obtain c where "c \<in> set (refresh_tokens d)"
        "rt_rotated_from c = Some (rt_id tk)" using t by auto
      then show ?thesis using chain_invD(2) [OF inv _ tk(1)] tk(2) by blast
    qed
  qed
qed

text \<open>The rotation chain never forks: starting from a table in which identifiers are unique, a
  rotated token is revoked, a child belongs to its parent's user and client and no token has two
  children, a refresh with any token, any client and any grace window leaves such a table, whether
  it succeeds, is refused, replays a kept pair or is taken for theft.\<close>

theorem refresh_never_forks:
  assumes "chain_inv (refresh_tokens d)" and "fresh_id (en_row_id en) (refresh_tokens d)"
  shows "chain_inv (refresh_tokens (snd (refreshAccessToken I reg fco rq en v cid client d)))"
  using assms refresh_keeps_chain [of d en I reg fco rq v cid client
      "fst (refreshAccessToken I reg fco rq en v cid client d)"]
  by simp

text \<open>C3. A refresh that succeeds is one of two things.  Either the presented token was live,
  unexpired and this client's: then exactly one row is added, live, of the same user, client and
  resource, descending from the presented one, with a scope inside the scope of the presented one,
  found by the token handed out; and the presented row is revoked.  Or the presented token was
  already rotated within the grace: then nothing is added, its live child exists, and the reply is
  the pair kept on its row.\<close>

theorem refresh_success:
  assumes inv: "chain_inv (refresh_tokens d)"
    and run: "refreshAccessToken I reg fco rq en v cid client d = (Inr it, d')"
  shows "\<exists>tk. presented I v d = Some tk \<and> rt_client tk = cid
    \<and> ((\<not> rt_revoked tk \<and> rq_now rq \<le> rt_expires tk
        \<and> (\<exists>t c. refresh_tokens d' = t @ [c] \<and> table_moves (refresh_tokens d) t
             \<and> rt_id c = en_row_id en \<and> \<not> rt_revoked c \<and> rt_grace_replay c = None
             \<and> rt_lookup c = Some (token_lookup I (it_refresh_token it)) \<and> rt_user c = rt_user tk
             \<and> rt_client c = cid \<and> rt_rotated_from c = Some (rt_id tk) \<and> rt_resource c = rt_resource tk
             \<and> rt_scope c = Some (it_scope it)
             \<and> set (words_of (it_scope it)) \<subseteq> set (words_of (nullish (rt_scope tk) ''''))
             \<and> (\<forall>r \<in> set t. rt_id r = rt_id tk \<longrightarrow> rt_revoked r)))
      \<or> (rt_revoked tk \<and> table_narrows (refresh_tokens d) (refresh_tokens d')
        \<and> rq_now rq < rt_expires tk
        \<and> (\<exists>at. rt_revoked_at tk = Some at \<and> rq_now rq \<le> at + graceWindowMs (is_config I))
        \<and> openReplay (is_prims I) fco tk (rq_now rq) = Some it
        \<and> (\<exists>c \<in> set (refresh_tokens d). \<not> rt_revoked c \<and> rt_rotated_from c = Some (rt_id tk))))"
  using run
proof (cases rule: refresh_run)
  case (rotating tk user sc res)
  have tk: "tk \<in> set (refresh_tokens d)" using presentedD [OF rotating(1)] by simp
  from rotate_live [OF rotating(7) inv tk rotating(3)] obtain t c where
    cl: "claimRotation (sealReplay (is_prims I) fco (graceWindowMs (is_config I)) (rq_now rq) (en_iv en))
       (rq_now rq) (rt_id tk) (rt_rotated_from tk) it (refresh_tokens d) = Inr t"
    and c: "issued_row (token_lookup I) rq en (rotationInput tk user sc res) it c"
    and d': "refresh_tokens d' = t @ [c]" and sc: "it_scope it = sc" .
  have "\<forall>r \<in> set t. rt_id r = rt_id tk \<longrightarrow> rt_revoked r"
    using claim_revokes [OF cl seal_ok_replay] by blast
  moreover have "us_id user = rt_user tk" using find_userD [OF rotating(5)] by simp
  ultimately show ?thesis
    using rotating c d' sc bounds_narrow [OF rotating(6)] claim_moves [OF cl seal_ok_replay]
    by (intro exI [of _ tk]) (simp add: issued_row_def rotationInput_def)
next
  case (replaying tk)
  note gp = graceReuse_pair [OF replaying(4) chain_invD(1) [OF inv]]
  show ?thesis
    using replaying(1-3) gp graceReuse_narrows [OF replaying(4)]
    by (intro exI [of _ tk]) (auto dest: withinGraceD)
qed

lemma demo_inv: "chain_inv (refresh_tokens demo_db)"
  by (simp add: chain_inv_def demo_db_def row0_def)

lemma demo_fresh: "fresh_id (en_row_id demo_en) (refresh_tokens demo_db)"
  by (simp add: fresh_id_def demo_db_def row0_def demo_en_def)

definition demo_crypto :: "field_crypto option" where
  "demo_crypto = Some \<lparr>fc_key = Some ''k''\<rparr>"

abbreviation demo_refresh where
  "demo_refresh rq en v d \<equiv> refreshAccessToken demo_issuer None demo_crypto rq en v ''shop'' (Some shop) d"

theorem refresh_never_forks_witness:
  "map rt_id (refresh_tokens (snd (demo_refresh demo_rq demo_en ''first'' demo_db))) = [''t1'', ''t2'']
   \<and> chain_inv (refresh_tokens (snd (demo_refresh demo_rq demo_en ''first'' demo_db)))"
proof
  show "map rt_id (refresh_tokens (snd (demo_refresh demo_rq demo_en ''first'' demo_db))) = [''t1'', ''t2'']"
    by code_simp
  show "chain_inv (refresh_tokens (snd (demo_refresh demo_rq demo_en ''first'' demo_db)))"
    by (rule refresh_never_forks [OF demo_inv demo_fresh])
qed

theorem refresh_success_witness:
  "\<exists>it d'. demo_refresh demo_rq demo_en ''first'' demo_db = (Inr it, d')
     \<and> (\<exists>tk. presented demo_issuer ''first'' demo_db = Some tk \<and> rt_client tk = ''shop'')"
proof -
  have "(case fst (demo_refresh demo_rq demo_en ''first'' demo_db) of Inl _ \<Rightarrow> False | Inr _ \<Rightarrow> True)"
    by code_simp
  then obtain it d' where r: "demo_refresh demo_rq demo_en ''first'' demo_db = (Inr it, d')"
    by (cases "demo_refresh demo_rq demo_en ''first'' demo_db") (auto split: sum.splits)
  with refresh_success [OF demo_inv r] show ?thesis by blast
qed

text \<open>A refused refresh costs nothing when the token is unknown, another client's, expired, or
  bound to a resource the client may no longer target: nothing in the database changes, so neither
  does a grace or a theft verdict follow; in particular a legitimate token survives being presented
  by the wrong client.\<close>

theorem refresh_refusal_is_free:
  assumes "presented I v d = None
    \<or> (\<exists>tk. presented I v d = Some tk
         \<and> (rt_client tk \<noteq> cid
            \<or> \<not> rt_revoked tk \<and> rt_expires tk < rq_now rq
            \<or> \<not> rt_revoked tk \<and> (\<exists>c. client = Some c \<and>
                 \<not> isResourceAllowed (p_parse_url (is_prims I)) reg (resource_client_of c) (rt_resource tk))))"
  shows "\<exists>m. refreshAccessToken I reg fco rq en v cid client d = (Inl (invalid_grant m), d)"
  using assms
  by (auto simp: refreshAccessToken_def refresh_def read_refresh_def presented_def token_lookup_def
      refreshBounds_def)

theorem refresh_refusal_is_free_witness:
  "\<exists>m. refreshAccessToken demo_issuer None demo_crypto demo_rq demo_en ''first'' ''rival'' None demo_db
      = (Inl (invalid_grant m), demo_db)"
proof -
  have p: "presented demo_issuer ''first'' demo_db = Some row0" and c: "rt_client row0 \<noteq> ''rival''"
    by (simp_all add: presented_def find_refresh_def token_lookup_def demo_issuer_def demo_prims_def
        demo_db_def row0_def)
  show ?thesis by (rule refresh_refusal_is_free) (use p c in blast)
qed

section \<open>Theft\<close>

definition theft_audited :: "refresh_row \<Rightarrow> user_row option \<Rightarrow> db \<Rightarrow> bool" where
  "theft_audited tk user d \<longleftrightarrow>
     (\<exists>a. Audit a \<in> set (effects d) \<and> ae_event a = ''token.failed.refresh_reuse''
        \<and> ae_client a = Some (rt_client tk) \<and> ae_sub a = map_option us_did user \<and> \<not> ae_success a
        \<and> (''refreshTokenId'', JStr (rt_id tk)) \<in> set (ae_metadata a))
     \<and> (\<forall>u. user = Some u \<and> us_did u \<noteq> [] \<longrightarrow>
          Ssf_Event TOKEN_CLAIMS_CHANGE (us_did u) (rt_company tk) [] \<in> set (effects d))"

lemma effects_signal:
  "effects (signalTokenRevoked user c d) = effects d @
     (case user of None \<Rightarrow> [] | Some u \<Rightarrow> if us_did u = [] then [] else [Ssf_Event TOKEN_CLAIMS_CHANGE (us_did u) c []])"
  by (simp add: signalTokenRevoked_def split: option.split)

lemma theft_told:
  "theft_audited tk user (signalTokenRevoked user (rt_company tk)
     (auditReuse rq tk user ''token.failed.refresh_reuse'' False e sc [] d))"
proof -
  let ?d = "auditReuse rq tk user ''token.failed.refresh_reuse'' False e sc [] d"
  obtain a where a: "effects ?d = effects d @ [Audit a]" "ae_event a = ''token.failed.refresh_reuse''"
    "ae_client a = Some (rt_client tk)" "ae_sub a = map_option us_did user" "\<not> ae_success a"
    "ae_metadata a = [(''refreshTokenId'', JStr (rt_id tk))]"
    by (simp add: auditReuse_def)
  show ?thesis unfolding theft_audited_def effects_signal a(1)
    by (intro conjI exI [of _ a]) (use a(2-6) in \<open>auto split: option.splits\<close>)
qed

lemma theft_branch:
  assumes g: "graceReuse D rq iv tk user d = (No_Grace, d1)"
  shows "fst (replayed D rq iv tk user d) = Inl (invalid_grant ''Refresh token revoked'')"
    and "scope_closed (family_scope (rt_user tk) (rt_client tk))
           (refresh_tokens (snd (replayed D rq iv tk user d)))"
    and "theft_audited tk user (snd (replayed D rq iv tk user d))"
proof -
  show "fst (replayed D rq iv tk user d) = Inl (invalid_grant ''Refresh token revoked'')"
    using g by (simp add: replayed_def Let_def)
  have "refresh_tokens (snd (replayed D rq iv tk user d))
      = revoke_family (rt_user tk) (rt_client tk) (rq_now rq) (refresh_tokens d1)"
    using g by (simp add: replayed_def Let_def)
  then show "scope_closed (family_scope (rt_user tk) (rt_client tk))
      (refresh_tokens (snd (replayed D rq iv tk user d)))"
    using family.closes by simp
  show "theft_audited tk user (snd (replayed D rq iv tk user d))"
    using g theft_told by (simp add: replayed_def Let_def)
qed

text \<open>C4. A revoked token presented again by its client outside the grace window, or by any replay
  when pairs cannot be kept (no encryption key), is taken for theft: the request is refused, every
  refresh token of that user at that client is revoked and holds no kept pair, an audit record names
  the replayed row, and the subscribed receivers are told.\<close>

theorem refresh_replay_is_theft:
  assumes "presented I v d = Some tk" and "rt_client tk = cid" and "rt_revoked tk"
    and "\<not> withinGrace tk (graceWindowMs (is_config I)) (rq_now rq) \<or> fco = None
      \<or> (\<exists>fc. fco = Some fc \<and> fc_key fc = None)"
  shows "\<exists>d'. refreshAccessToken I reg fco rq en v cid client d
        = (Inl (invalid_grant ''Refresh token revoked''), d')
     \<and> scope_closed (family_scope (rt_user tk) cid) (refresh_tokens d')
     \<and> theft_audited tk (find_user d (rt_user tk)) d'"
proof -
  have run: "refreshAccessToken I reg fco rq en v cid client d
      = replayed (grant_of I reg fco) rq (en_iv en) tk (find_user d (rt_user tk)) d"
    using assms(1-3)
    by (simp add: refreshAccessToken_def refresh_def read_refresh_def presented_def token_lookup_def)
  obtain d1 where g: "graceReuse (grant_of I reg fco) rq (en_iv en) tk (find_user d (rt_user tk)) d = (No_Grace, d1)"
    using assms(4) by (auto simp: graceReuse_def Let_def can_keep_iff)
  note th = theft_branch [OF g]
  show ?thesis unfolding run
    by (intro exI [of _ "snd (replayed (grant_of I reg fco) rq (en_iv en) tk (find_user d (rt_user tk)) d)"] conjI)
       (use th assms(2) in \<open>simp_all add: prod_eq_iff\<close>)
qed

definition spent_db :: db where
  "spent_db = demo_db\<lparr>refresh_tokens := [row0\<lparr>rt_revoked := True, rt_revoked_at := Some 4000\<rparr>,
     row0\<lparr>rt_id := ''t2'', rt_lookup := Some ''h:second'', rt_rotated_from := Some ''t1''\<rparr>]\<rparr>"

theorem refresh_replay_is_theft_witness:
  "map rt_revoked (refresh_tokens spent_db) = [True, False]
   \<and> (\<exists>d'. refreshAccessToken demo_issuer None None demo_rq demo_en ''first'' ''shop'' (Some shop) spent_db
        = (Inl (invalid_grant ''Refresh token revoked''), d')
     \<and> scope_closed (family_scope ''u1'' ''shop'') (refresh_tokens d'))"
proof
  show "map rt_revoked (refresh_tokens spent_db) = [True, False]" by code_simp
  have p: "presented demo_issuer ''first'' spent_db = Some (row0\<lparr>rt_revoked := True, rt_revoked_at := Some 4000\<rparr>)"
    by (simp add: presented_def find_refresh_def token_lookup_def demo_issuer_def demo_prims_def
        spent_db_def row0_def)
  have "\<exists>d'. refreshAccessToken demo_issuer None None demo_rq demo_en ''first'' ''shop'' (Some shop) spent_db
        = (Inl (invalid_grant ''Refresh token revoked''), d')
     \<and> scope_closed (family_scope (rt_user (row0\<lparr>rt_revoked := True, rt_revoked_at := Some 4000\<rparr>)) ''shop'') (refresh_tokens d')
     \<and> theft_audited (row0\<lparr>rt_revoked := True, rt_revoked_at := Some 4000\<rparr>)
         (find_user spent_db (rt_user (row0\<lparr>rt_revoked := True, rt_revoked_at := Some 4000\<rparr>))) d'"
    by (rule refresh_replay_is_theft [OF p]) (simp_all add: row0_def)
  then show "\<exists>d'. refreshAccessToken demo_issuer None None demo_rq demo_en ''first'' ''shop'' (Some shop) spent_db
        = (Inl (invalid_grant ''Refresh token revoked''), d')
     \<and> scope_closed (family_scope ''u1'' ''shop'') (refresh_tokens d')"
    by (auto simp: row0_def)
qed

section \<open>A retry within the grace\<close>

text \<open>What \<open>sealReplay\<close> wrote, \<open>openReplay\<close> reads back, for the row it was written on.\<close>

lemma open_sealed:
  assumes c: "cipher_ok P k" "no_dot iv" "fc_key fc = Some k"
    and js: "p_json_parse P (p_stringify P (sealed_pair it i t0)) = Some (sealed_pair it i t0)"
    and w: "0 < w" and now: "now < t0 + w" and id: "rt_id r = i"
  shows "openReplay P (Some fc) (sealReplay P (Some fc) w t0 iv i it r) now
     = Some (it\<lparr>it_expires_in := max 0 (it_expires_in it - (now - t0) div 1000)\<rparr>)"
proof -
  obtain blob where b: "encrypt P fc iv (p_stringify P (sealed_pair it i t0)) = Inr blob"
    using c(3) by (cases "p_seal P k iv (p_stringify P (sealed_pair it i t0))") (simp add: encrypt_def)
  note e = encrypt_isEncrypted [OF c b] and d = decrypt_encrypt [OF c b]
  have "blob \<noteq> []" using e by (auto simp: isEncrypted_def)
  then show ?thesis using w now id b e d js
    by (simp add: sealReplay_def openReplay_def read_sealed_pair Let_def)
qed

text \<open>The row a rotation leaves behind: revoked now, carrying the kept pair, found as before.\<close>

lemma find_refresh_update:
  assumes "\<And>r. p r \<Longrightarrow> rt_lookup (f r) = rt_lookup r"
  shows "find_refresh (update_many p f t) l = map_option (\<lambda>r. if p r then f r else r) (find_refresh t l)"
  using assms by (induction t) (auto simp: find_refresh_def)

lemma find_refresh_append: "find_refresh t l = Some r \<Longrightarrow> find_refresh (t @ u) l = Some r"
  unfolding find_refresh_def by (induction t) (auto split: if_splits)

lemma rotated_row:
  assumes cl: "claimRotation seal now (rt_id tk) (rt_rotated_from tk) it t = Inr t'" and inv: "chain_inv t"
    and tk: "find_refresh t l = Some tk" "\<not> rt_revoked tk" and ok: "seal_ok seal"
  shows "find_refresh t' l = Some (seal (rt_id tk) it (tk\<lparr>rt_revoked := True, rt_revoked_at := Some now\<rparr>))"
proof -
  let ?rf = "rt_rotated_from tk"
  let ?s = "seal (rt_id tk) it (tk\<lparr>rt_revoked := True, rt_revoked_at := Some now\<rparr>)"
  from cl obtain t1 where t1: "t1 = mark_rotated seal now (rt_id tk) it t"
    and t': "t' = (if truthy ?rf then update_many (keptPairsIn (\<lambda>r. rt_id r = nullish ?rf '''')) erased_replay t1 else t1)"
    by (rule claim_okE)
  have s1: "find_refresh t1 l = Some ?s" unfolding t1
    by (subst find_refresh_update) (use ok tk in \<open>simp_all add: seal_ok_def same_grant_def\<close>)
  have id: "rt_id ?s = rt_id tk" using ok by (simp add: seal_ok_def same_grant_def)
  have "nullish ?rf '''' \<noteq> rt_id tk" if "truthy ?rf"
  proof
    assume "nullish ?rf '''' = rt_id tk"
    then have "?rf = Some (rt_id tk)" using that by (auto elim!: truthyE)
    then show False using chain_invD(2) [OF inv] find_refreshD [OF tk(1)] tk(2) by blast
  qed
  then show ?thesis unfolding t' using s1 id
    by (cases "truthy ?rf") (auto simp: find_refresh_update keptPairsIn_def)
qed

lemma childState_of_live:

  assumes inv: "chain_inv t" and c: "c \<in> set t" "\<not> rt_revoked c" "now < rt_expires c"
    "rt_rotated_from c = Some (rt_id tk)" "rt_user c = rt_user tk" "rt_client c = rt_client tk"
  shows "\<exists>t'. childState tk now t = (Child_Live (rt_id c), t')"
proof -
  obtain x where f: "List.find (\<lambda>r. rt_user r = rt_user tk \<and> rt_client r = rt_client tk
      \<and> rt_rotated_from r = Some (rt_id tk)) t = Some x"
    using find_NoneD [of "\<lambda>r. rt_user r = rt_user tk \<and> rt_client r = rt_client tk
      \<and> rt_rotated_from r = Some (rt_id tk)" t c] c by (cases "List.find (\<lambda>r. rt_user r = rt_user tk \<and> rt_client r = rt_client tk
      \<and> rt_rotated_from r = Some (rt_id tk)) t") auto
  have "rt_id x = rt_id c" using find_SomeD [OF f] chain_invD(3) [OF inv c(1)] c(4) by simp
  then have "x = c" using same_id_same_row [OF inv c(1)] find_SomeD [OF f] by blast
  moreover have "count_where (\<lambda>r. rt_id r = rt_id c \<and> \<not> rt_revoked r \<and> rt_expires r > now) t = 1"
    using count_key_1_iff [OF chain_invD(1) [OF inv], of "rt_id c" "\<lambda>r. \<not> rt_revoked r \<and> rt_expires r > now"]
      c by blast
  ultimately show ?thesis using f by (simp add: childState_def Let_def)
qed

lemma graceReuse_live:
  assumes now: "rq_now rq < nullish (rt_grace_until tk) 0" "rt_grace_until tk \<noteq> None"
    and keep: "canKeepPairs (gd_prims D) (gd_crypto D) (rq_now rq) iv"
    and w: "withinGrace tk (graceWindowMs (gd_config D)) (rq_now rq)"
    and o1: "openReplay (gd_prims D) (gd_crypto D) tk (rq_now rq) = Some it"
    and cs: "childState tk (rq_now rq) (refresh_tokens d) = (Child_Live i, t2)"
  shows "\<exists>d'. graceReuse D rq iv tk user d = (Kept_Pair it, d')"
proof -
  have "erase_stale_pair tk (rq_now rq) (refresh_tokens d) = refresh_tokens d"
    using now by (auto simp: erase_stale_pair_def)
  then show ?thesis using keep w o1 cs by (simp add: graceReuse_def Let_def)
qed

text \<open>A retry of a refresh within the grace window gets the very pair the rotation returned, only
  with the remaining lifetime: same access, refresh and ID token, whatever the client row says by
  then, and the table gains no row.  It rests on the cipher opening what it sealed and on the
  round trip of this pair through \<open>JSON\<close>.\<close>

theorem refresh_retry_same_pair:
  assumes inv: "chain_inv (refresh_tokens d)"
    and tk: "presented I v d = Some tk" "\<not> rt_revoked tk"
    and first: "refreshAccessToken I reg (Some fc) rq en v cid client d = (Inr it, d1)"
    and fresh: "fresh_id (en_row_id en) (refresh_tokens d)"
    and cipher: "cipher_ok (is_prims I) k" "no_dot (en_iv en)" "fc_key fc = Some k"
    and json: "p_json_parse (is_prims I) (p_stringify (is_prims I) (sealed_pair it (rt_id tk) (rq_now rq)))
       = Some (sealed_pair it (rt_id tk) (rq_now rq))"
    and time: "rq_now rq \<le> rq_now rq2" "rq_now rq2 < rq_now rq + graceWindowMs (is_config I)"
       "rq_now rq2 < rt_expires tk"
  shows "\<exists>d2. refreshAccessToken I reg (Some fc) rq2 en2 v cid client2 d1
        = (Inr (it\<lparr>it_expires_in := max 0 (it_expires_in it - (rq_now rq2 - rq_now rq) div 1000)\<rparr>), d2)
     \<and> table_narrows (refresh_tokens d1) (refresh_tokens d2)"
proof -
  let ?w = "graceWindowMs (is_config I)"
  let ?seal = "sealReplay (is_prims I) (Some fc) ?w (rq_now rq) (en_iv en)"
  let ?s = "?seal (rt_id tk) it (tk\<lparr>rt_revoked := True, rt_revoked_at := Some (rq_now rq)\<rparr>)"
  let ?now = "rq_now rq2"
  let ?it = "it\<lparr>it_expires_in := max 0 (it_expires_in it - (?now - rq_now rq) div 1000)\<rparr>"
  have w: "0 < ?w" using time by simp
  from first tk obtain user sc res where u: "find_user d (rt_user tk) = Some user" "rt_client tk = cid"
    and rot: "rotate (grant_of I reg (Some fc)) rq en tk user sc res d = (Inr it, d1)"
    by (cases rule: refresh_run) auto
  have mem: "tk \<in> set (refresh_tokens d)" using presentedD [OF tk(1)] by simp
  from rotate_live [OF rot inv mem tk(2)] obtain t c where
    cl: "claimRotation ?seal (rq_now rq) (rt_id tk) (rt_rotated_from tk) it (refresh_tokens d) = Inr t"
    and c: "issued_row (token_lookup I) rq en (rotationInput tk user sc res) it c"
    and d1: "refresh_tokens d1 = t @ [c]" .
  have f: "find_refresh t (token_lookup I v) = Some ?s"
    by (rule rotated_row [OF cl inv _ tk(2)]) (use tk(1) in \<open>simp_all add: presented_def\<close>)
  have p1: "presented I v d1 = Some ?s"
    unfolding presented_def d1 by (rule find_refresh_append [OF f])
  have inv1: "chain_inv (refresh_tokens d1)" by (rule refresh_keeps_chain [OF inv fresh first])
  have cu: "rt_user c = rt_user tk" "rt_client c = rt_client tk" "rt_rotated_from c = Some (rt_id tk)"
    "\<not> rt_revoked c" "rt_expires c = rq_now rq + REFRESH_TTL_MS"
    using c find_userD [OF u(1)] by (simp_all add: issued_row_def rotationInput_def)
  have "\<exists>t2. childState ?s ?now (refresh_tokens d1) = (Child_Live (rt_id c), t2)"
    by (rule childState_of_live [OF inv1])
       (use cu d1 time grace_window_bounds(1) [of "is_config I"] in \<open>simp_all add: REFRESH_TTL_MS_def\<close>)
  then obtain t2 where cs: "childState ?s ?now (refresh_tokens d1) = (Child_Live (rt_id c), t2)" by blast
  have op: "openReplay (is_prims I) (Some fc) ?s ?now = Some ?it"
    by (rule open_sealed [OF cipher json w time(2)]) simp
  obtain blob where b: "encrypt (is_prims I) fc (en_iv en)
      (p_stringify (is_prims I) (sealed_pair it (rt_id tk) (rq_now rq))) = Inr blob"
    using cipher(3) by (cases "p_seal (is_prims I) k (en_iv en)
      (p_stringify (is_prims I) (sealed_pair it (rt_id tk) (rq_now rq)))") (simp add: encrypt_def)
  have gu: "rt_grace_until ?s = Some (rq_now rq + ?w)" using w b by (simp add: sealReplay_def)
  have wg: "withinGrace ?s ?w ?now" using w time by (simp add: withinGrace_def)
  have "\<exists>d'. graceReuse (grant_of I reg (Some fc)) rq2 (en_iv en2) ?s (find_user d1 (rt_user ?s)) d1 = (Kept_Pair ?it, d')"
    by (rule graceReuse_live [where i = "rt_id c"])
       (use gu time(2) wg op cs cipher(3) in \<open>auto simp: can_keep_iff\<close>)
  then obtain d' where g:
    "graceReuse (grant_of I reg (Some fc)) rq2 (en_iv en2) ?s (find_user d1 (rt_user ?s)) d1 = (Kept_Pair ?it, d')"
    by blast
  have rv: "rt_revoked ?s" "rt_client ?s = cid" using u(2) by simp_all
  have "refreshAccessToken I reg (Some fc) rq2 en2 v cid client2 d1 = (Inr ?it, d')"
    using p1 rv g
    by (simp add: refreshAccessToken_def refresh_def read_refresh_def presented_def token_lookup_def replayed_def)
  then show ?thesis using graceReuse_narrows [OF g] by blast
qed

definition pair0 :: issued_tokens where
  "pair0 = \<lparr>it_access_token = ''jwt:shop'', it_expires_in = 600, it_refresh_token = ''second'',
     it_id_token = ''jwt:shop'', it_scope = ''openid offline_access''\<rparr>"

definition retry_issuer :: issuer_deps where
  "retry_issuer = demo_issuer\<lparr>is_prims := demo_prims (\<lambda>_. Some (sealed_pair pair0 ''t1'' 5000))\<rparr>"

theorem refresh_retry_same_pair_witness:
  "\<exists>d2. refreshAccessToken retry_issuer None demo_crypto (demo_rq\<lparr>rq_now := 9000\<rparr>) demo_en ''first'' ''shop''
       (Some shop) (snd (refreshAccessToken retry_issuer None demo_crypto demo_rq demo_en ''first'' ''shop'' (Some shop) demo_db))
     = (Inr (pair0\<lparr>it_expires_in := 596\<rparr>), d2)"
proof -
  let ?first = "refreshAccessToken retry_issuer None (Some \<lparr>fc_key = Some ''k''\<rparr>) demo_rq demo_en ''first'' ''shop'' (Some shop) demo_db"
  have "ok (fst ?first) = Some pair0" by code_simp
  then have first: "?first = (Inr pair0, snd ?first)" by (simp add: ok_Some_iff prod_eq_iff)
  have tk: "presented retry_issuer ''first'' demo_db = Some row0"
    by (simp add: presented_def find_refresh_def token_lookup_def retry_issuer_def demo_issuer_def
        demo_prims_def demo_db_def row0_def)
  have s: "is_prims retry_issuer = demo_prims (\<lambda>_. Some (sealed_pair pair0 ''t1'' 5000))"
    "rt_id row0 = ''t1''" "rq_now demo_rq = 5000" "\<not> rt_revoked row0" "rt_expires row0 = 1000000"
    "en_iv demo_en = ''iv''" "it_expires_in pair0 = 600"
    by (simp_all add: retry_issuer_def row0_def demo_rq_def demo_en_def pair0_def)
  have w: "graceWindowMs (is_config retry_issuer) = 30000" by code_simp
  have "\<exists>d2. refreshAccessToken retry_issuer None (Some \<lparr>fc_key = Some ''k''\<rparr>) (demo_rq\<lparr>rq_now := 9000\<rparr>)
        demo_en ''first'' ''shop'' (Some shop) (snd ?first)
      = (Inr (pair0\<lparr>it_expires_in := max 0 (it_expires_in pair0 - (rq_now (demo_rq\<lparr>rq_now := 9000\<rparr>) - rq_now demo_rq) div 1000)\<rparr>), d2)
     \<and> table_narrows (refresh_tokens (snd ?first)) (refresh_tokens d2)"
    by (rule refresh_retry_same_pair [OF demo_inv tk s(4) first demo_fresh, where k = "''k''"])
       (simp_all add: s w demo_cipher_ok no_dot_def)
  then show ?thesis by (auto simp: s demo_crypto_def)
qed

section \<open>A rotation is claimed once\<close>

text \<open>
  The claim alone, as concurrent requests run it: a request carries the token, its parent, the pair
  to keep, the window, the IV and the clock.  It provides the single-use interface, the key being
  the token's row.
\<close>

record rotation_claim =
  rl_id :: string
  rl_from :: "string option"
  rl_pair :: issued_tokens
  rl_window :: int
  rl_iv :: string
  rl_now :: time

definition claim_rotation ::
  "prims \<Rightarrow> field_crypto option \<Rightarrow> rotation_claim \<Rightarrow> refresh_row list \<Rightarrow> unit option \<times> refresh_row list"
where
  "claim_rotation P fco q t =
     (case claimRotation (sealReplay P fco (rl_window q) (rl_now q) (rl_iv q)) (rl_now q) (rl_id q)
             (rl_from q) (rl_pair q) t of
        Inl _ \<Rightarrow> (None, t) | Inr t' \<Rightarrow> (Some (), t'))"

definition rotated_away :: "string \<Rightarrow> refresh_row list \<Rightarrow> bool" where
  "rotated_away i t \<longleftrightarrow> count_where (live_row i) t = 0"

lemma rotated_away_moves: "rotated_away i t \<Longrightarrow> table_moves t t' \<Longrightarrow> rotated_away i t'"
  unfolding rotated_away_def count_where_0
  by (auto elim!: table_movesE simp: row_moves_def same_grant_def)

interpretation rotation: single_use "claim_rotation P fco" rl_id rotated_away "\<lambda>_. True"
proof unfold_locales
  show "rotated_away (rl_id q) s'" if "claim_rotation P fco q s = (Some r, s')" for s q r s'
  proof -
    from that have cl: "claimRotation (sealReplay P fco (rl_window q) (rl_now q) (rl_iv q)) (rl_now q)
        (rl_id q) (rl_from q) (rl_pair q) s = Inr s'"
      by (auto simp: claim_rotation_def split: sum.splits)
    show ?thesis using claim_revokes [OF cl seal_ok_replay] by (auto simp: rotated_away_def count_where_0)
  qed
  show "fst (claim_rotation P fco q s) = None" if "rotated_away (rl_id q) s" for s q
    using that by (simp add: rotated_away_def claim_rotation_def claimRotation_def Let_def)
  show "rotated_away k (snd (claim_rotation P fco q s))" if "rotated_away k s" for s k q
    using that by (auto simp: claim_rotation_def split: sum.split dest: claim_moves [OF _ seal_ok_replay]
        intro: rotated_away_moves)
qed (rule TrueI)

text \<open>Whatever claims run against one table, in whatever order, for whatever pairs and windows,
  at most one of them wins a given token.\<close>

theorem rotation_won_once:
  "wins rl_id i qs (fst (run_requests (claim_rotation P fco) qs t)) \<le> 1"
  by (rule rotation.at_most_one_win) (rule TrueI)

end
