(* ===== verification/Session.thy ===== *)
theory Session
  imports Refresh_Props
begin

text \<open>
  \<open>src/auth/session.service.ts\<close>: the sessions a person sees (live refresh tokens), signing one of
  them out, and signing out everywhere (or everywhere else).
\<close>

section \<open>Listing\<close>

record active_session =
  as_id :: string
  as_client :: string
  as_client_name :: "string option"
  as_scope :: "string option"
  as_created :: time
  as_expires :: time
  as_last_used :: "time option"
  as_ip :: "string option"
  as_user_agent :: "string option"
  as_current :: bool

definition is_active :: "time \<Rightarrow> string \<Rightarrow> refresh_row \<Rightarrow> bool" where
  "is_active now u r \<longleftrightarrow> rt_user r = u \<and> \<not> rt_revoked r \<and> rt_expires r > now"

text \<open>\<open>orderBy lastUsedAt desc, createdAt desc\<close>; PostgreSQL puts the rows without a last use first.\<close>

definition by_last_use :: "refresh_row list \<Rightarrow> refresh_row list" where
  "by_last_use t =
     sort_key (\<lambda>r. case rt_last_used r of None \<Rightarrow> (0 :: int) | Some _ \<Rightarrow> 1)
       (sort_key (\<lambda>r. case rt_last_used r of None \<Rightarrow> 0 | Some u \<Rightarrow> - u)
         (sort_key (\<lambda>r. - rt_created r) t))"

definition same_device :: "request option \<Rightarrow> refresh_row \<Rightarrow> bool" where
  "same_device caller r =
     (case caller of
        None \<Rightarrow> False
      | Some c \<Rightarrow> truthy (rt_user_agent r) \<and> truthy (rq_user_agent c)
          \<and> rt_user_agent r = rq_user_agent c
          \<and> rt_ip r = (if truthy (rq_ip c) then rq_ip c else None))"

definition active_session_of :: "db \<Rightarrow> request option \<Rightarrow> refresh_row \<Rightarrow> active_session" where
  "active_session_of d caller r =
     \<lparr>as_id = rt_id r, as_client = rt_client r,
      as_client_name = map_option cl_name (find_client d (rt_client r)), as_scope = rt_scope r,
      as_created = rt_created r, as_expires = rt_expires r, as_last_used = rt_last_used r,
      as_ip = rt_ip r, as_user_agent = rt_user_agent r, as_current = same_device caller r\<rparr>"

definition getActiveSessions :: "time \<Rightarrow> request option \<Rightarrow> string \<Rightarrow> db \<Rightarrow> active_session list" where
  "getActiveSessions now caller u d =
     map (active_session_of d caller) (by_last_use (filter (is_active now u) (refresh_tokens d)))"

section \<open>Revoking\<close>

definition signalSessionRevoked :: "string \<Rightarrow> string option \<Rightarrow> db \<Rightarrow> db" where
  "signalSessionRevoked u company d =
     (case find_user d u of None \<Rightarrow> d | Some x \<Rightarrow> emit (Ssf_Event SESSION_REVOKED (us_did x) company []) d)"

definition revoke_session_table :: "string \<Rightarrow> string \<Rightarrow> time \<Rightarrow> refresh_row list \<Rightarrow> refresh_row list" where
  "revoke_session_table u sid now t =
     (let t1 = update_many (\<lambda>r. rt_id r = sid \<and> rt_user r = u) (mark_revoked now) t
      in case List.find (\<lambda>r. rt_id r = sid \<and> rt_user r = u) t of
           None \<Rightarrow> t1
         | Some tk \<Rightarrow> update_many (\<lambda>r. keptPairsAround (rt_id tk) (rt_rotated_from tk) r \<and> rt_user r = u)
                        erased_replay t1)"

definition revokeSession :: "request \<Rightarrow> string \<Rightarrow> string \<Rightarrow> db \<Rightarrow> db" where
  "revokeSession rq u sid d =
     signalSessionRevoked u
       (Option.bind (List.find (\<lambda>r. rt_id r = sid \<and> rt_user r = u) (refresh_tokens d)) rt_company)
       (d\<lparr>refresh_tokens := revoke_session_table u sid (rq_now rq) (refresh_tokens d)\<rparr>)"

definition revoke_all_table :: "string \<Rightarrow> string option \<Rightarrow> time \<Rightarrow> refresh_row list \<Rightarrow> refresh_row list" where
  "revoke_all_table u except now t =
     update_many (keptPairsIn (\<lambda>r. rt_user r = u)) erased_replay
       (update_many (\<lambda>r. rt_user r = u \<and> \<not> rt_revoked r
            \<and> (truthy except \<longrightarrow> rt_id r \<noteq> nullish except '''')) (mark_revoked now) t)"

definition revokeAllSessions :: "request \<Rightarrow> string \<Rightarrow> string option \<Rightarrow> db \<Rightarrow> db" where
  "revokeAllSessions rq u except d =
     signalSessionRevoked u None
       (d\<lparr>refresh_tokens := revoke_all_table u except (rq_now rq) (refresh_tokens d)\<rparr>)"

section \<open>Lemmas\<close>

lemma signal_session_frame [simp]:
  "refresh_tokens (signalSessionRevoked u c d) = refresh_tokens d"
  "auth_codes (signalSessionRevoked u c d) = auth_codes d"
  "users (signalSessionRevoked u c d) = users d"
  by (simp_all add: signalSessionRevoked_def split: option.split)

lemma set_by_last_use [simp]: "set (by_last_use t) = set t"
  by (simp add: by_last_use_def)

lemma sessions_ids:
  "as_id ` set (getActiveSessions now caller u d) = rt_id ` {r \<in> set (refresh_tokens d). is_active now u r}"
  by (auto simp: getActiveSessions_def active_session_of_def image_image)

lemma narrows_marks: "table_narrows t (update_many p (mark_revoked now) t)"
  by (rule narrows_update_many) simp

lemma narrows_erases: "table_narrows t (update_many p erased_replay t)"
  by (rule narrows_update_many) simp

interpretation sign_out: narrowing_op "revoke_session_table u sid now"
  by unfold_locales
     (auto simp: revoke_session_table_def Let_def split: option.split
       intro: narrows_marks table_narrows_trans [OF narrows_marks narrows_erases])

interpretation sign_out_all: narrowing_op "revoke_all_table u except now"
  by unfold_locales
     (auto simp: revoke_all_table_def intro: table_narrows_trans [OF narrows_marks narrows_erases])

lemma revoke_all_everywhere: "revoke_all_table u None now = revoke_user u now"
  by (simp add: fun_eq_iff revoke_all_table_def revoke_user_def revoke_where_def)

lemma revoke_all_row:
  assumes "r \<in> set (revoke_all_table u except now t)" and "rt_user r = u"
  shows "rt_grace_replay r = None \<and> (except = Some (rt_id r) \<or> rt_revoked r)"
proof -
  from assms(1) obtain r1 where
    r1: "r1 \<in> set (update_many (\<lambda>r. rt_user r = u \<and> \<not> rt_revoked r
            \<and> (truthy except \<longrightarrow> rt_id r \<noteq> nullish except '''')) (mark_revoked now) t)"
    and r: "r = (if keptPairsIn (\<lambda>r. rt_user r = u) r1 then erased_replay r1 else r1)"
    unfolding revoke_all_table_def by (rule update_manyE)
  from r1 obtain r0 where "r1 = (if rt_user r0 = u \<and> \<not> rt_revoked r0
      \<and> (truthy except \<longrightarrow> rt_id r0 \<noteq> nullish except '''') then mark_revoked now r0 else r0)"
    by (rule update_manyE)
  then have "rt_user r1 = u \<Longrightarrow> except = Some (rt_id r1) \<or> rt_revoked r1"
    by (cases except) (auto split: if_splits)
  then show ?thesis using r assms(2) by (auto simp: keptPairsIn_def split: if_splits)
qed

lemma revoke_all_others:
  assumes "rt_user r \<noteq> u"
  shows "r \<in> set (revoke_all_table u except now t) \<longleftrightarrow> r \<in> set t"
proof -
  let ?p = "\<lambda>r. rt_user r = u \<and> \<not> rt_revoked r \<and> (truthy except \<longrightarrow> rt_id r \<noteq> nullish except [])"
  have "r \<in> set (revoke_all_table u except now t) \<longleftrightarrow> r \<in> set (update_many ?p (mark_revoked now) t)"
    unfolding revoke_all_table_def
    by (rule update_many_outside [where Q = "\<lambda>r. rt_user r \<noteq> u"]) (simp_all add: assms keptPairsIn_def)
  also have "\<dots> \<longleftrightarrow> r \<in> set t"
    by (rule update_many_outside [where Q = "\<lambda>r. rt_user r \<noteq> u"]) (simp_all add: assms)
  finally show ?thesis .
qed

text \<open>Signing out everywhere revokes every refresh token of the person, the excepted session
  aside, erases every pair kept for the reuse grace (the excepted session's too), touches nobody
  else's row, and leaves an empty session list when no session is excepted.\<close>

theorem sign_out_everywhere:
  "(\<forall>r \<in> set (refresh_tokens (revokeAllSessions rq u except d)). rt_user r \<noteq> u
       \<or> rt_grace_replay r = None \<and> (except = Some (rt_id r) \<or> rt_revoked r))
   \<and> (\<forall>r. rt_user r = u \<or> (r \<in> set (refresh_tokens (revokeAllSessions rq u except d)))
           = (r \<in> set (refresh_tokens d)))
   \<and> getActiveSessions now caller u (revokeAllSessions rq u None d) = []"
proof -
  have "\<not> is_active now u r" if "r \<in> set (refresh_tokens (revokeAllSessions rq u None d))" for r
    using that revoke_all_row [of r u None "rq_now rq" "refresh_tokens d"]
    by (auto simp: revokeAllSessions_def is_active_def)
  then have "as_id ` set (getActiveSessions now caller u (revokeAllSessions rq u None d)) = {}"
    unfolding sessions_ids by blast
  then show ?thesis using revoke_all_row revoke_all_others
    by (auto simp: revokeAllSessions_def)
qed

lemma revoke_session_found:
  assumes "List.find (\<lambda>r. rt_id r = sid \<and> rt_user r = u) t = Some tk"
  shows "revoke_session_table u sid now t =
    update_many (\<lambda>r. keptPairsAround (rt_id tk) (rt_rotated_from tk) r \<and> rt_user r = u) erased_replay
      (update_many (\<lambda>r. rt_id r = sid \<and> rt_user r = u) (mark_revoked now) t)"
  using assms by (simp add: revoke_session_table_def Let_def)

lemma revoke_session_row:
  assumes "r \<in> set (revoke_session_table u sid now t)" and "rt_user r = u" and "rt_id r = sid"
  shows "rt_revoked r"
proof -
  let ?t1 = "update_many (\<lambda>r. rt_id r = sid \<and> rt_user r = u) (mark_revoked now) t"
  have one: "rt_revoked x" if "x \<in> set ?t1" "rt_id x = sid" "rt_user x = u" for x
    using that(1) by (rule update_manyE) (use that(2,3) in \<open>auto split: if_splits\<close>)
  show ?thesis
  proof (cases "List.find (\<lambda>r. rt_id r = sid \<and> rt_user r = u) t")
    case None
    then show ?thesis using assms one by (simp add: revoke_session_table_def)
  next
    case (Some tk)
    from assms(1) [unfolded revoke_session_found [OF Some]] obtain x where
      x: "x \<in> set ?t1" "r = (if keptPairsAround (rt_id tk) (rt_rotated_from tk) x \<and> rt_user x = u
            then erased_replay x else x)"
      by (rule update_manyE)
    then have "rt_id x = sid" "rt_user x = u" "rt_revoked r = rt_revoked x"
      using assms(2,3) by (auto split: if_splits)
    then show ?thesis using one x(1) by simp
  qed
qed

lemma revoke_session_unkept:
  assumes "List.find (\<lambda>r. rt_id r = sid \<and> rt_user r = u) t = Some tk"
    and "r \<in> set (revoke_session_table u sid now t)" and "rt_user r = u"
    and "rt_id r = sid \<or> (truthy (rt_rotated_from tk) \<and> rt_rotated_from tk = Some (rt_id r))"
  shows "rt_grace_replay r = None"
  using assms(2) [unfolded revoke_session_found [OF assms(1)]]
proof (rule update_manyE)
  fix x assume r: "r = (if keptPairsAround (rt_id tk) (rt_rotated_from tk) x \<and> rt_user x = u
      then erased_replay x else x)"
  have "rt_id tk = sid" using find_SomeD [OF assms(1)] by simp
  then show "rt_grace_replay r = None" using r assms(3,4)
    by (auto simp: keptPairsAround_def keptPairsIn_def Let_def split: if_splits)
qed

lemma revoke_session_foreign:
  assumes "\<forall>r \<in> set t. rt_id r = sid \<longrightarrow> rt_user r \<noteq> u"
  shows "revoke_session_table u sid now t = t"
proof -
  have n: "List.find (\<lambda>r. rt_id r = sid \<and> rt_user r = u) t = None"
    using assms by (auto simp: find_None_iff)
  have "update_many (\<lambda>r. rt_id r = sid \<and> rt_user r = u) (mark_revoked now) t = t"
    unfolding update_many_def by (rule map_idI) (use assms in auto)
  then show ?thesis using n by (simp add: revoke_session_table_def)
qed

text \<open>Signing one session out revokes the row when it is this person's, and it is gone from the
  session list; neither that row nor the one it was rotated from keeps a pair, so a retry of the
  parent cannot bring the session back; and a session id of somebody else changes no row at all.\<close>

theorem sign_out_one:
  "sid \<notin> as_id ` set (getActiveSessions now caller u (revokeSession rq u sid d))
   \<and> (\<forall>tk. List.find (\<lambda>r. rt_id r = sid \<and> rt_user r = u) (refresh_tokens d) = Some tk \<longrightarrow>
        (\<forall>r \<in> set (refresh_tokens (revokeSession rq u sid d)). rt_user r = u \<longrightarrow>
           (rt_id r = sid \<or> truthy (rt_rotated_from tk) \<and> rt_rotated_from tk = Some (rt_id r)) \<longrightarrow>
           rt_grace_replay r = None))
   \<and> ((\<forall>r \<in> set (refresh_tokens d). rt_id r = sid \<longrightarrow> rt_user r \<noteq> u) \<longrightarrow>
        refresh_tokens (revokeSession rq u sid d) = refresh_tokens d)"
proof -
  have t: "refresh_tokens (revokeSession rq u sid d)
      = revoke_session_table u sid (rq_now rq) (refresh_tokens d)"
    by (simp add: revokeSession_def)
  have "sid \<notin> as_id ` set (getActiveSessions now caller u (revokeSession rq u sid d))"
    unfolding sessions_ids t using revoke_session_row by (fastforce simp: is_active_def)
  then show ?thesis unfolding t using revoke_session_unkept revoke_session_foreign by blast
qed

text \<open>The witnesses: one live session, signed out.\<close>

theorem sign_out_everywhere_witness:
  "map as_id (getActiveSessions 5000 None ''u1'' demo_db) = [''t1'']
   \<and> getActiveSessions 5000 None ''u1'' (revokeAllSessions demo_rq ''u1'' None demo_db) = []"
proof
  show "map as_id (getActiveSessions 5000 None ''u1'' demo_db) = [''t1'']" by code_simp
  show "getActiveSessions 5000 None ''u1'' (revokeAllSessions demo_rq ''u1'' None demo_db) = []"
    using sign_out_everywhere [of demo_rq "''u1''" None demo_db 5000 None] by blast
qed

theorem sign_out_one_witness:
  "map as_id (getActiveSessions 5000 None ''u1'' demo_db) = [''t1'']
   \<and> ''t1'' \<notin> as_id ` set (getActiveSessions 5000 None ''u1'' (revokeSession demo_rq ''u1'' ''t1'' demo_db))"
proof
  show "map as_id (getActiveSessions 5000 None ''u1'' demo_db) = [''t1'']" by code_simp
  show "''t1'' \<notin> as_id ` set (getActiveSessions 5000 None ''u1'' (revokeSession demo_rq ''u1'' ''t1'' demo_db))"
    using sign_out_one [of "''t1''" 5000 None "''u1''" demo_rq demo_db] by blast
qed

end
