(* ===== verification/Consent.thy ===== *)
theory Consent
  imports Session
begin

text \<open>
  \<open>src/oauth/consent.service.ts\<close>: whether a person is asked before an application gets a code, what
  an approval remembers, and disconnecting an application.
\<close>

definition scopesOf :: "string option \<Rightarrow> string list" where
  "scopesOf scope = words_of (nullish scope '''')"

definition find_consent :: "db \<Rightarrow> string \<Rightarrow> string \<Rightarrow> consent_row option" where
  "find_consent d u c = List.find (\<lambda>x. cs_user x = u \<and> cs_client x = c) (consents d)"

text \<open>\<open>details\<close>: whether the request carries RFC 9396 grants.\<close>

definition isRequired :: "string \<Rightarrow> string \<Rightarrow> string \<Rightarrow> bool \<Rightarrow> db \<Rightarrow> bool" where
  "isRequired u c scope details d =
     (if details then True
      else case find_client d c of
             None \<Rightarrow> True
           | Some cl \<Rightarrow>
               if isFirstParty cl then False
               else (case find_consent d u c of
                       None \<Rightarrow> True
                     | Some cs \<Rightarrow> list_ex (\<lambda>s. s \<notin> set (cs_scopes cs)) (scopesOf (Some scope))))"

definition record_consent :: "string \<Rightarrow> string \<Rightarrow> string \<Rightarrow> db \<Rightarrow> db" where
  "record_consent u c scope d =
     (let existing = find_consent d u c;
          merged = uniq ((case existing of None \<Rightarrow> [] | Some x \<Rightarrow> cs_scopes x) @ scopesOf (Some scope))
      in case existing of
           None \<Rightarrow> d\<lparr>consents := consents d @ [\<lparr>cs_user = u, cs_client = c, cs_scopes = merged\<rparr>]\<rparr>
         | Some _ \<Rightarrow> d\<lparr>consents := update_many (\<lambda>x. cs_user x = u \<and> cs_client x = c)
                        (\<lambda>x. x\<lparr>cs_scopes := merged\<rparr>) (consents d)\<rparr>)"

definition revoke_consent :: "request \<Rightarrow> string \<Rightarrow> string \<Rightarrow> db \<Rightarrow> nat \<times> db" where
  "revoke_consent rq u c d =
     (count_where (\<lambda>r. rt_user r = u \<and> rt_client r = c \<and> \<not> rt_revoked r) (refresh_tokens d),
      d\<lparr>consents := delete_many (\<lambda>x. cs_user x = u \<and> cs_client x = c) (consents d),
        refresh_tokens := revoke_family u c (rq_now rq) (refresh_tokens d)\<rparr>)"

section \<open>Lemmas\<close>

definition approved :: "db \<Rightarrow> string \<Rightarrow> string \<Rightarrow> string set" where
  "approved d u c = (case find_consent d u c of None \<Rightarrow> {} | Some x \<Rightarrow> set (cs_scopes x))"

lemma find_consentD: "find_consent d u c = Some x \<Longrightarrow> x \<in> set (consents d) \<and> cs_user x = u \<and> cs_client x = c"
  unfolding find_consent_def by (drule find_SomeD) simp

lemma find_update_key:
  assumes "\<And>r. key (f r) = key r" and "List.find (\<lambda>r. key r = k) t = Some x"
  shows "List.find (\<lambda>r. key r = k) (update_many (\<lambda>r. key r = k') f t) = Some (if k' = k then f x else x)"
  using assms by (induction t) (auto split: if_splits)

lemma find_update_key_None:
  assumes "\<And>r. key (f r) = key r" and "List.find (\<lambda>r. key r = k) t = None"
  shows "List.find (\<lambda>r. key r = k) (update_many (\<lambda>r. key r = k') f t) = None"
  using assms by (induction t) (auto split: if_splits)

lemma find_consent_key: "find_consent d u c = List.find (\<lambda>x. (cs_user x, cs_client x) = (u, c)) (consents d)"
  by (simp add: find_consent_def)

lemma record_key:
  "find_consent d u c = Some y \<Longrightarrow> consents (record_consent u c scope d)
     = update_many (\<lambda>x. (cs_user x, cs_client x) = (u, c))
         (\<lambda>x. x\<lparr>cs_scopes := uniq (cs_scopes y @ scopesOf (Some scope))\<rparr>) (consents d)"
  by (simp add: record_consent_def Let_def)

lemma approved_record:
  "approved (record_consent u c scope d) u' c' =
     (if u' = u \<and> c' = c then approved d u c \<union> set (words_of scope) else approved d u' c')"
proof (cases "find_consent d u c")
  case None
  then have "consents (record_consent u c scope d) =
      consents d @ [\<lparr>cs_user = u, cs_client = c, cs_scopes = uniq (scopesOf (Some scope))\<rparr>]"
    by (simp add: record_consent_def)
  moreover have "find_consent d u' c' = None \<Longrightarrow>
      List.find (\<lambda>x. cs_user x = u' \<and> cs_client x = c') (consents d @ [z])
        = List.find (\<lambda>x. cs_user x = u' \<and> cs_client x = c') [z]" for z
    by (simp add: find_consent_def find_append_None)
  moreover have "find_consent d u' c' = Some y \<Longrightarrow>
      List.find (\<lambda>x. cs_user x = u' \<and> cs_client x = c') (consents d @ [z]) = Some y" for z y
    unfolding find_consent_def by (rule find_append_Some)
  ultimately show ?thesis using None
    by (cases "find_consent d u' c'") (auto simp: approved_def find_consent_def scopesOf_def)
next
  case (Some y)
  let ?f = "\<lambda>x. x\<lparr>cs_scopes := uniq (cs_scopes y @ scopesOf (Some scope))\<rparr>"
  have key: "(cs_user (?f r), cs_client (?f r)) = (cs_user r, cs_client r)" for r by simp
  show ?thesis
  proof (cases "find_consent d u' c'")
    case None
    then have "(u', c') \<noteq> (u, c)" using Some by auto
    moreover have "find_consent (record_consent u c scope d) u' c' = None"
      unfolding find_consent_key record_key [OF Some]
      by (rule find_update_key_None [where key = "\<lambda>x. (cs_user x, cs_client x)", OF key])
         (use None in \<open>simp add: find_consent_key\<close>)
    ultimately show ?thesis using None by (auto simp: approved_def)
  next
    case (Some z)
    have "find_consent (record_consent u c scope d) u' c' = Some (if (u, c) = (u', c') then ?f z else z)"
      unfolding find_consent_key record_key [OF \<open>find_consent d u c = Some y\<close>]
      by (rule find_update_key [where key = "\<lambda>x. (cs_user x, cs_client x)", OF key])
         (use Some in \<open>simp add: find_consent_key\<close>)
    then show ?thesis using Some \<open>find_consent d u c = Some y\<close>
      by (auto simp: approved_def scopesOf_def)
  qed
qed

text \<open>Consent is asked exactly when it has to be: always for a request with RFC 9396 grants and
  for an unknown client, never otherwise for a first-party application, which a dynamically
  registered client cannot be, and else when some requested scope was not approved before.  An
  approval adds its scopes, for this person and application only, and takes none away; so the same
  request is not asked again, and disconnecting asks again for any scope.\<close>

theorem consent_asked:
  "(isRequired u c scope details d \<longleftrightarrow>
      details \<or> find_client d c = None
      \<or> (\<exists>cl. find_client d c = Some cl \<and> \<not> isFirstParty cl
           \<and> (find_consent d u c = None \<or> \<not> set (words_of scope) \<subseteq> approved d u c)))
   \<and> (prefix ''dcr_'' c \<longrightarrow> (\<forall>cl. find_client d c = Some cl \<longrightarrow> \<not> isFirstParty cl))
   \<and> approved (record_consent u c scope d) u c = approved d u c \<union> set (words_of scope)
   \<and> (\<forall>u' c'. (u', c') \<noteq> (u, c) \<longrightarrow> approved (record_consent u c scope d) u' c' = approved d u' c')
   \<and> find_consent (snd (revoke_consent rq u c d)) u c = None"
proof (intro conjI)
  show "isRequired u c scope details d \<longleftrightarrow>
      details \<or> find_client d c = None
      \<or> (\<exists>cl. find_client d c = Some cl \<and> \<not> isFirstParty cl
           \<and> (find_consent d u c = None \<or> \<not> set (words_of scope) \<subseteq> approved d u c))"
    by (auto simp: isRequired_def approved_def scopesOf_def list_ex_iff split: option.split)
  show "prefix ''dcr_'' c \<longrightarrow> (\<forall>cl. find_client d c = Some cl \<longrightarrow> \<not> isFirstParty cl)"
    by (auto simp: isFirstParty_def dest: find_clientD)
  show "find_consent (snd (revoke_consent rq u c d)) u c = None"
    by (auto simp: revoke_consent_def find_consent_def find_None_iff)
qed (auto simp: approved_record)

text \<open>Disconnecting an application leaves no usable refresh token and no kept pair of the person
  at it, and reports how many live tokens it revoked; the person's tokens at other applications,
  and everybody else's, are untouched.\<close>

theorem disconnect_closes:
  "scope_closed (family_scope u c) (refresh_tokens (snd (revoke_consent rq u c d)))
   \<and> fst (revoke_consent rq u c d)
       = length (filter (\<lambda>r. rt_user r = u \<and> rt_client r = c \<and> \<not> rt_revoked r) (refresh_tokens d))
   \<and> (\<forall>r. (rt_user r, rt_client r) \<noteq> (u, c) \<longrightarrow>
        (r \<in> set (refresh_tokens (snd (revoke_consent rq u c d))) \<longleftrightarrow> r \<in> set (refresh_tokens d)))"
proof -
  have "r \<in> set (revoke_family u c now t) \<longleftrightarrow> r \<in> set t" if o1: "(rt_user r, rt_client r) \<noteq> (u, c)" for r now t
  proof -
    let ?Q = "\<lambda>r. (rt_user r, rt_client r) \<noteq> (u, c)"
    have "r \<in> set (revoke_family u c now t) \<longleftrightarrow>
        r \<in> set (update_many (\<lambda>r. (rt_user r = u \<and> rt_client r = c) \<and> \<not> rt_revoked r) (mark_revoked now) t)"
      unfolding revoke_family_def revoke_where_def
      by (rule update_many_outside [where Q = ?Q, OF o1]) (simp_all add: keptPairsIn_def)
    also have "\<dots> \<longleftrightarrow> r \<in> set t"
      by (rule update_many_outside [where Q = ?Q, OF o1]) simp_all
    finally show ?thesis .
  qed
  then show ?thesis by (simp add: revoke_consent_def family.closes count_where_def)
qed

text \<open>The witnesses.\<close>

theorem consent_asked_witness:
  "isRequired ''u1'' ''shop'' ''openid'' True demo_db \<and> \<not> isRequired ''u1'' ''shop'' ''openid'' False demo_db
   \<and> find_consent (snd (revoke_consent demo_rq ''u1'' ''shop'' demo_db)) ''u1'' ''shop'' = None"
  using consent_asked [of "''u1''" "''shop''" "''openid''" True demo_db demo_rq]
  by (auto simp: isRequired_def demo_db_def shop_def find_client_def isFirstParty_def)

theorem disconnect_closes_witness:
  "fst (revoke_consent demo_rq ''u1'' ''shop'' demo_db) = 1
   \<and> scope_closed (family_scope ''u1'' ''shop'') (refresh_tokens (snd (revoke_consent demo_rq ''u1'' ''shop'' demo_db)))"
proof
  show "fst (revoke_consent demo_rq ''u1'' ''shop'' demo_db) = 1" by code_simp
  show "scope_closed (family_scope ''u1'' ''shop'') (refresh_tokens (snd (revoke_consent demo_rq ''u1'' ''shop'' demo_db)))"
    using disconnect_closes [of "''u1''" "''shop''" demo_rq demo_db] by blast
qed

end
