(* ===== verification/Wallet_Grant.thy ===== *)
theory Wallet_Grant
  imports Agents
begin

text \<open>
  \<open>src/oauth/wallet-grant.ts\<close>, \<open>authorization-details.config.ts\<close> and
  \<open>authorization-details.service.ts\<close>: the RFC 9396 details of a request, and the grant on a person's
  wallet among them, which is validated and normalised.  Amounts are read exactly, in cents: the
  code compares doubles of at most seven digits and two decimals, whose order is that of the cents.
\<close>

section \<open>Amounts\<close>

text \<open>\<open>^\d{1,7}(\.\d{1,2})?$\<close>, as the number of cents.\<close>

definition cents_of :: "string \<Rightarrow> nat option" where
  "cents_of t =
     (let ds = takeWhile is_digit t; rest = dropWhile is_digit t; n = nat (digits_value ds 0)
      in if ds = [] \<or> 7 < length ds then None
         else (case rest of
                 [] \<Rightarrow> Some (100 * n)
               | c # fs \<Rightarrow>
                   if c \<noteq> CHR ''.'' \<or> \<not> list_all is_digit fs then None
                   else if length fs = 1 then Some (100 * n + 10 * nat (digits_value fs 0))
                   else if length fs = 2 then Some (100 * n + nat (digits_value fs 0))
                   else None))"

definition digit :: "nat \<Rightarrow> char" where
  "digit n = char_of (48 + n mod 10)"

text \<open>\<open>String(n)\<close> of such a number: no leading zeros, no trailing zeros after the point.\<close>

definition cents_str :: "nat \<Rightarrow> string" where
  "cents_str c =
     nat_str (c div 100) @
       (let f = c mod 100
        in if f = 0 then [] else if f mod 10 = 0 then [CHR ''.'', digit (f div 10)]
           else [CHR ''.'', digit (f div 10), digit f])"

section \<open>The wallet grant\<close>

definition WALLET_ASSET :: string where "WALLET_ASSET = ''USDC''"
definition WALLET_NETWORK :: string where "WALLET_NETWORK = ''eip155:8453''"
definition WALLET_ACR :: string where "WALLET_ACR = ''phr''"
definition WALLET_SCOPE :: string where "WALLET_SCOPE = ''wallet:pay''"
definition MAX_MERCHANTS :: nat where "MAX_MERCHANTS = 50"

datatype limit_field = Per_Payment | Daily | Monthly

fun field_name :: "limit_field \<Rightarrow> string" where
  "field_name Per_Payment = ''per_payment''"
| "field_name Daily = ''daily''"
| "field_name Monthly = ''monthly''"

fun DEFAULT_WALLET_LIMITS :: "limit_field \<Rightarrow> string" where
  "DEFAULT_WALLET_LIMITS Per_Payment = ''10''"
| "DEFAULT_WALLET_LIMITS Daily = ''20''"
| "DEFAULT_WALLET_LIMITS Monthly = ''50''"

text \<open>In dollars.\<close>

fun MAX_WALLET_LIMITS :: "limit_field \<Rightarrow> nat" where
  "MAX_WALLET_LIMITS Per_Payment = 1000"
| "MAX_WALLET_LIMITS Daily = 2000"
| "MAX_WALLET_LIMITS Monthly = 10000"

definition withWalletAcr :: "string option \<Rightarrow> string" where
  "withWalletAcr acrValues =
     (let values = words_of (nullish acrValues '''')
      in if WALLET_ACR \<in> set values then join_sp values else join_sp (WALLET_ACR # values))"

definition hasWalletGrant :: "json list option \<Rightarrow> bool" where
  "hasWalletGrant details = list_ex isWalletGrant (nullish details [])"

definition rawHasWalletGrant :: "prims \<Rightarrow> string option \<Rightarrow> bool" where
  "rawHasWalletGrant P raw =
     (if \<not> truthy raw then False else hasWalletGrant (jarr (p_json_parse P (nullish raw ''''))))"

definition withWalletScopeGrant :: "prims \<Rightarrow> string \<Rightarrow> string option \<Rightarrow> string option" where
  "withWalletScopeGrant P scope raw =
     (let grant = JObj [(''type'', JStr WALLET_AUTHORIZATION_DETAILS_TYPE)]
      in if WALLET_SCOPE \<notin> set (split_by is_ws scope) \<or> rawHasWalletGrant P raw then raw
         else if \<not> truthy raw then Some (p_stringify P (JArr [grant]))
         else (case jarr (p_json_parse P (nullish raw '''')) of
                 None \<Rightarrow> raw
               | Some details \<Rightarrow> Some (p_stringify P (JArr (details @ [grant])))))"

text \<open>A \<open>WalletGrantError\<close> is its message.\<close>

definition amount :: "json option \<Rightarrow> limit_field \<Rightarrow> string + nat" where
  "amount v f =
     (let text = (case v of None \<Rightarrow> DEFAULT_WALLET_LIMITS f | Some x \<Rightarrow> trim (js_string x))
      in (case cents_of text of
            None \<Rightarrow> Inl (''inite_wallet limits.'' @ field_name f @ '' must be an amount in dollars'')
          | Some n \<Rightarrow>
              if n = 0 \<or> 100 * MAX_WALLET_LIMITS f < n
              then Inl (''inite_wallet limits.'' @ field_name f @ '' must be more than 0 and at most ''
                        @ nat_str (MAX_WALLET_LIMITS f))
              else Inr n))"

fun merchant_origins :: "(string \<Rightarrow> url option) \<Rightarrow> json list \<Rightarrow> string + string list" where
  "merchant_origins pu [] = Inr []"
| "merchant_origins pu (m # ms) =
     (case pu (js_string m) of
        None \<Rightarrow> Inl (''inite_wallet merchant '' @ js_string m @ '' is not a URL'')
      | Some u \<Rightarrow>
          if url_protocol u \<noteq> ''https:''
          then Inl (''inite_wallet merchant '' @ url_origin u @ '' must be https'')
          else (case merchant_origins pu ms of Inl e \<Rightarrow> Inl e | Inr os \<Rightarrow> Inr (url_origin u # os)))"

definition merchants :: "(string \<Rightarrow> url option) \<Rightarrow> json option \<Rightarrow> string + string list option" where
  "merchants pu v =
     (case v of
        None \<Rightarrow> Inr None
      | Some x \<Rightarrow>
          (case jarr (Some x) of
             Some ms \<Rightarrow>
               if ms = [] \<or> MAX_MERCHANTS < length ms
               then Inl ''inite_wallet merchants must be 1-50 site origins''
               else (case merchant_origins pu ms of Inl e \<Rightarrow> Inl e | Inr os \<Rightarrow> Inr (Some os))
           | None \<Rightarrow> Inl ''inite_wallet merchants must be 1-50 site origins''))"

definition only_value :: "json option \<Rightarrow> string \<Rightarrow> bool" where
  "only_value v s \<longleftrightarrow> v = None \<or> v = Some (JStr s)"

text \<open>\<open>limits\<close> is \<open>detail.limits ?? {}\<close>: a missing or null member is the empty object.\<close>

definition limits_of :: "json \<Rightarrow> json" where
  "limits_of detail =
     (case jget detail ''limits'' of None \<Rightarrow> JObj [] | Some JNull \<Rightarrow> JObj [] | Some l \<Rightarrow> l)"

definition assertFixed :: "json \<Rightarrow> json \<Rightarrow> string + unit" where
  "assertFixed detail limits =
     (if \<not> (case limits of JObj _ \<Rightarrow> True | _ \<Rightarrow> False) then Inl ''inite_wallet limits must be an object''
      else if \<not> only_value (jget limits ''currency'') ''USD'' then Inl ''inite_wallet limits are in USD''
      else if \<not> only_value (jget detail ''asset'') WALLET_ASSET then Inl ''inite_wallet pays in USDC only''
      else if \<not> only_value (jget detail ''network'') WALLET_NETWORK
      then Inl (''inite_wallet pays on '' @ WALLET_NETWORK @ '' only'')
      else Inr ())"

definition wallet_grant ::
  "json list option \<Rightarrow> nat \<Rightarrow> nat \<Rightarrow> nat \<Rightarrow> string list option \<Rightarrow> json"
where
  "wallet_grant locations p d m sites = JObj
     ([(''type'', JStr WALLET_AUTHORIZATION_DETAILS_TYPE)]
      @ (case locations of None \<Rightarrow> [] | Some ls \<Rightarrow> [(''locations'', JArr ls)])
      @ [(''limits'', JObj [(''currency'', JStr ''USD''), (''per_payment'', JStr (cents_str p)),
            (''daily'', JStr (cents_str d)), (''monthly'', JStr (cents_str m))]),
         (''asset'', JStr WALLET_ASSET), (''network'', JStr WALLET_NETWORK)]
      @ (case sites of None \<Rightarrow> [] | Some os \<Rightarrow> [(''merchants'', JArr (map JStr os))]))"

definition normalizeWalletGrant :: "(string \<Rightarrow> url option) \<Rightarrow> json \<Rightarrow> string + json" where
  "normalizeWalletGrant pu detail =
     (let limits = limits_of detail
      in (case assertFixed detail limits of
            Inl e \<Rightarrow> Inl e
          | Inr _ \<Rightarrow>
              (case amount (jget limits ''per_payment'') Per_Payment of
                 Inl e \<Rightarrow> Inl e
               | Inr p \<Rightarrow>
                   (case amount (jget limits ''daily'') Daily of
                      Inl e \<Rightarrow> Inl e
                    | Inr d \<Rightarrow>
                        (case amount (jget limits ''monthly'') Monthly of
                           Inl e \<Rightarrow> Inl e
                         | Inr m \<Rightarrow>
                             if d < p \<or> m < d
                             then Inl ''inite_wallet limits must satisfy per_payment <= daily <= monthly''
                             else (case merchants pu (jget detail ''merchants'') of
                                     Inl e \<Rightarrow> Inl e
                                   | Inr sites \<Rightarrow>
                                       Inr (wallet_grant (jarr (jget detail ''locations'')) p d m sites)))))))"

section \<open>Authorization details\<close>

definition MCP_AUTHORIZATION_DETAILS_TYPE :: string where
  "MCP_AUTHORIZATION_DETAILS_TYPE = ''inite_mcp_resource''"

definition DEFAULT_AUTHORIZATION_DETAILS_TYPES :: "string list" where
  "DEFAULT_AUTHORIZATION_DETAILS_TYPES =
     [MCP_AUTHORIZATION_DETAILS_TYPE, ''payment_initiation'', WALLET_AUTHORIZATION_DETAILS_TYPE]"

definition resolveAuthorizationDetailsTypes :: "string option \<Rightarrow> string list" where
  "resolveAuthorizationDetailsTypes raw =
     (let types = filter (\<lambda>t. t \<noteq> []) (map trim (split_char CHR '','' (nullish raw '''')))
      in if truthy raw \<and> types \<noteq> [] then types else DEFAULT_AUTHORIZATION_DETAILS_TYPES)"

definition reject :: "string \<Rightarrow> error" where
  "reject description = Bad_Request (OAuth ''invalid_authorization_details'' (Some description))"

definition validateElement :: "prims \<Rightarrow> string list \<Rightarrow> json \<Rightarrow> error + json" where
  "validateElement P supported el =
     (case el of
        JObj _ \<Rightarrow>
          (case jstr (jget el ''type'') of
             None \<Rightarrow> Inl (reject ''each authorization_details entry requires a string \"type\"'')
           | Some ty \<Rightarrow>
               if ty = [] then Inl (reject ''each authorization_details entry requires a string \"type\"'')
               else if ty \<notin> set supported
               then Inl (reject (''unsupported authorization_details type: '' @ ty))
               else if isWalletGrant el
               then (case normalizeWalletGrant (p_parse_url P) el of
                       Inl m \<Rightarrow> Inl (reject m) | Inr g \<Rightarrow> Inr g)
               else Inr el)
      | _ \<Rightarrow> Inl (reject ''each authorization_details entry must be an object''))"

fun validate_all :: "prims \<Rightarrow> string list \<Rightarrow> json list \<Rightarrow> error + json list" where
  "validate_all P supported [] = Inr []"
| "validate_all P supported (e # es) =
     (case validateElement P supported e of
        Inl x \<Rightarrow> Inl x
      | Inr v \<Rightarrow> (case validate_all P supported es of Inl x \<Rightarrow> Inl x | Inr vs \<Rightarrow> Inr (v # vs)))"

definition parse_details :: "prims \<Rightarrow> config \<Rightarrow> string option \<Rightarrow> error + json list option" where
  "parse_details P cf raw =
     (if \<not> truthy raw then Inr None
      else if \<not> setting_flag cf ''RAR_ENABLED''
      then Inl (reject ''authorization_details is not supported by this server'')
      else (case p_json_parse P (nullish raw '''') of
              None \<Rightarrow> Inl (reject ''authorization_details must be a JSON array'')
            | Some v \<Rightarrow>
                (case jarr (Some v) of
                   None \<Rightarrow> Inl (reject ''authorization_details must be a non-empty JSON array'')
                 | Some [] \<Rightarrow> Inl (reject ''authorization_details must be a non-empty JSON array'')
                 | Some es \<Rightarrow>
                     (case validate_all P (resolveAuthorizationDetailsTypes
                              (setting_raw cf ''AUTHORIZATION_DETAILS_TYPES'')) es of
                        Inl x \<Rightarrow> Inl x | Inr vs \<Rightarrow> Inr (Some vs)))))"

section \<open>Amounts read back\<close>

lemma of_char_digit: "n < 10 \<Longrightarrow> of_char (char_of (48 + n :: nat)) = (48 + n :: nat)"
  by (simp add: take_bit_eq_mod)

lemma digits_value_append: "digits_value (a @ b) acc = digits_value b (digits_value a acc)"
  by (induction a arbitrary: acc) auto

lemma digit_char [simp]:
  assumes "n < 10"
  shows "is_digit (char_of (48 + n :: nat))" and "int (of_char (char_of (48 + n :: nat)) :: nat) = 48 + int n"
  using assms by (simp_all add: is_digit_def of_char_digit Let_def)

lemma nat_str_digits: "list_all is_digit (nat_str n)"
proof (induction n rule: nat_str.induct)
  case (1 n)
  show ?case by (subst nat_str.simps) (simp add: 1)
qed

lemma nat_str_value: "digits_value (nat_str n) acc = acc * 10 ^ length (nat_str n) + int n"
proof (induction n arbitrary: acc rule: nat_str.induct)
  case (1 n)
  show ?case
  proof (cases "n < 10")
    case True
    then have s: "nat_str n = [char_of (48 + n)]" by (subst nat_str.simps) simp
    show ?thesis using True by (simp add: s)
  next
    case False
    then have s: "nat_str n = nat_str (n div 10) @ [char_of (48 + n mod 10)]" by (subst nat_str.simps) simp
    have "int n = 10 * int (n div 10) + int (n mod 10)" by presburger
    then show ?thesis using 1 [OF False]
      by (simp add: s digits_value_append algebra_simps)
  qed
qed

lemma nat_str_length: "n < 10 ^ k \<Longrightarrow> 0 < k \<Longrightarrow> length (nat_str n) \<le> k \<and> nat_str n \<noteq> []"
proof (induction n arbitrary: k rule: nat_str.induct)
  case (1 n)
  show ?case
  proof (cases "n < 10")
    case True
    then have "nat_str n = [char_of (48 + n)]" by (subst nat_str.simps) simp
    then show ?thesis using 1(3) by simp
  next
    case False
    then have s: "nat_str n = nat_str (n div 10) @ [char_of (48 + n mod 10)]" by (subst nat_str.simps) simp
    obtain j where k: "k = Suc j" using 1(3) by (cases k) auto
    have "0 < j" using False 1(2) k by (cases j) auto
    moreover have "n div 10 < 10 ^ j" using 1(2) k by (simp add: less_mult_imp_div_less mult.commute)
    ultimately show ?thesis using 1(1) [OF False, of j] s k by simp
  qed
qed

lemma take_digits:
  assumes "list_all is_digit ds" and "rest = [] \<or> \<not> is_digit (hd rest)"
  shows "takeWhile is_digit (ds @ rest) = ds" and "dropWhile is_digit (ds @ rest) = rest"
proof -
  have "takeWhile is_digit rest = []" "dropWhile is_digit rest = rest"
    using assms(2) by (cases rest; auto)+
  then show "takeWhile is_digit (ds @ rest) = ds" "dropWhile is_digit (ds @ rest) = rest"
    using assms(1) by (auto simp: list_all_iff takeWhile_append dropWhile_append)
qed

lemma digit_is [simp]: "is_digit (digit n)" "int (of_char (digit n) :: nat) = 48 + int (n mod 10)"
  using digit_char [of "n mod 10"] by (simp_all add: digit_def)

lemma dot_no_digit [simp]: "\<not> is_digit CHR ''.''"
  by (simp add: is_digit_def)

lemma cents_of_append:
  assumes "list_all is_digit ds" "ds \<noteq> []" "length ds \<le> 7" and "rest = [] \<or> \<not> is_digit (hd rest)"
    and "digits_value ds 0 = int n"
  shows "cents_of (ds @ rest) =
    (case rest of
       [] \<Rightarrow> Some (100 * n)
     | c # fs \<Rightarrow>
         if c \<noteq> CHR ''.'' \<or> \<not> list_all is_digit fs then None
         else if length fs = 1 then Some (100 * n + 10 * nat (digits_value fs 0))
         else if length fs = 2 then Some (100 * n + nat (digits_value fs 0)) else None)"
  unfolding cents_of_def take_digits [OF assms(1,4)] Let_def
  using assms(2,3,5) by (simp split: list.split)

text \<open>Every amount below ten million dollars survives being printed and read.\<close>

lemma cents_round_trip:
  assumes "c < 10 ^ 9"
  shows "cents_of (cents_str c) = Some c"
proof -
  let ?n = "c div 100" and ?f = "c mod 100"
  have n: "?n < 10 ^ 7" using assms by simp
  have val: "digits_value (nat_str ?n) 0 = int ?n" by (simp add: nat_str_value)
  note read = cents_of_append [OF nat_str_digits conjunct2 conjunct1 _ val,
      OF nat_str_length [OF n] nat_str_length [OF n], simplified]
  have c: "c = 100 * ?n + ?f" by simp
  have f: "?f = 10 * (?f div 10) + ?f mod 10" "?f div 10 < 10" by simp_all
  consider "?f = 0" | "?f \<noteq> 0" "?f mod 10 = 0" | "?f mod 10 \<noteq> 0" by auto
  then show ?thesis
  proof cases
    case 1
    then have s: "cents_str c = nat_str ?n @ []" by (simp add: cents_str_def)
    show ?thesis unfolding s by (subst read) (use 1 c in simp_all)
  next
    case 2
    then have s: "cents_str c = nat_str ?n @ [CHR ''.'', digit (?f div 10)]" by (simp add: cents_str_def Let_def)
    show ?thesis unfolding s by (subst read) (use 2 c f in simp_all)
  next
    case 3
    then have s: "cents_str c = nat_str ?n @ [CHR ''.'', digit (?f div 10), digit ?f]"
      by (auto simp: cents_str_def Let_def)
    have "nat (10 * int (?f div 10) + int (?f mod 10)) = 10 * (?f div 10) + ?f mod 10" by linarith
    then have "100 * ?n + nat (10 * int (?f div 10) + int (?f mod 10)) = c" by presburger
    then show ?thesis unfolding s by (subst read) (use f(2) in simp_all)
  qed
qed

section \<open>What a wallet grant allows\<close>

lemma amount_bounds: "amount v f = Inr n \<Longrightarrow> 0 < n \<and> n \<le> 100 * MAX_WALLET_LIMITS f"
  by (auto simp: amount_def Let_def split: option.splits if_splits)

lemma amount_reads:
  assumes "0 < n" "n \<le> 100 * MAX_WALLET_LIMITS f"
  shows "amount (Some (JStr (cents_str n))) f = Inr n"
proof -
  have n: "n < 10 ^ 9" using assms(2) by (cases f) simp_all
  have ws: "\<not> is_ws c" if "is_digit c \<or> c = CHR ''.''" for c
    using that by (auto simp: is_ws_def is_digit_def Let_def)
  have no: "\<not> is_ws c" if "c \<in> set (cents_str n)" for c
    using that nat_str_digits [of "n div 100"]
    by (intro ws) (auto simp: cents_str_def Let_def list_all_iff split: if_splits)
  have "trim (cents_str n) = cents_str n"
    unfolding trim_def by (simp add: dropWhile_eq_self_iff no hd_in_set) (metis dropWhile_eq_self_iff hd_in_set no rev_rev_ident set_rev)
  then show ?thesis using assms n by (simp add: amount_def cents_round_trip)
qed

lemma merchant_originsD:
  assumes "merchant_origins pu ms = Inr os"
  shows "length os = length ms
     \<and> (\<forall>x \<in> set os. \<exists>s u. pu s = Some u \<and> url_protocol u = ''https:'' \<and> x = url_origin u)"
  using assms
proof (induction ms arbitrary: os)
  case (Cons m ms)
  then obtain u os' where u: "pu (js_string m) = Some u" "url_protocol u = ''https:''"
    "merchant_origins pu ms = Inr os'" "os = url_origin u # os'"
    by (auto split: option.splits if_splits sum.splits)
  show ?case using Cons.IH [OF u(3)] u by auto
qed simp

lemma merchantsD:
  assumes "merchants pu v = Inr sites"
  shows "sites = None \<and> v = None \<or> (\<exists>os. sites = Some os \<and> os \<noteq> [] \<and> length os \<le> 50
     \<and> (\<forall>x \<in> set os. \<exists>s u. pu s = Some u \<and> url_protocol u = ''https:'' \<and> x = url_origin u))"
proof (cases v)
  case None
  then show ?thesis using assms by (simp add: merchants_def)
next
  case (Some x)
  with assms obtain ms os where ms: "ms \<noteq> []" "length ms \<le> MAX_MERCHANTS" "merchant_origins pu ms = Inr os"
    "sites = Some os"
    by (auto simp: merchants_def split: option.splits if_splits sum.splits)
  then show ?thesis using merchant_originsD [OF ms(3)]
    by (intro disjI2 exI [of _ os]) (cases os; auto simp: MAX_MERCHANTS_def)
qed

lemma normalize_okE:
  assumes "normalizeWalletGrant pu detail = Inr g"
  obtains p d m sites where "assertFixed detail (limits_of detail) = Inr ()"
    "amount (jget (limits_of detail) ''per_payment'') Per_Payment = Inr p"
    "amount (jget (limits_of detail) ''daily'') Daily = Inr d"
    "amount (jget (limits_of detail) ''monthly'') Monthly = Inr m" "p \<le> d" "d \<le> m"
    "merchants pu (jget detail ''merchants'') = Inr sites"
    "g = wallet_grant (jarr (jget detail ''locations'')) p d m sites"
  using assms
  by (auto simp: normalizeWalletGrant_def Let_def not_less split: sum.splits if_splits)

text \<open>A wallet grant the service accepts is normal: a payment limit, a daily and a monthly limit
  in whole cents, each positive and at most 1000, 2000 and 10000 dollars, ordered, and written so
  that reading them back gives the same amounts; the asset and the network are the fixed ones; and
  the sites, when named, are one to fifty https origins.\<close>

theorem wallet_grant_bounded:
  assumes "normalizeWalletGrant pu detail = Inr g"
  shows "\<exists>p d m sites. g = wallet_grant (jarr (jget detail ''locations'')) p d m sites
     \<and> 0 < p \<and> p \<le> d \<and> d \<le> m \<and> p \<le> 100000 \<and> d \<le> 200000 \<and> m \<le> 1000000
     \<and> cents_of (cents_str p) = Some p \<and> cents_of (cents_str d) = Some d \<and> cents_of (cents_str m) = Some m
     \<and> (\<forall>os. sites = Some os \<longrightarrow> os \<noteq> [] \<and> length os \<le> 50
          \<and> (\<forall>x \<in> set os. \<exists>s u. pu s = Some u \<and> url_protocol u = ''https:'' \<and> x = url_origin u))"
  using assms
proof (rule normalize_okE)
  fix p d m sites
  assume a: "amount (jget (limits_of detail) ''per_payment'') Per_Payment = Inr p"
    "amount (jget (limits_of detail) ''daily'') Daily = Inr d"
    "amount (jget (limits_of detail) ''monthly'') Monthly = Inr m" "p \<le> d" "d \<le> m"
    "merchants pu (jget detail ''merchants'') = Inr sites"
    "g = wallet_grant (jarr (jget detail ''locations'')) p d m sites"
  note b = amount_bounds [OF a(1)] amount_bounds [OF a(2)] amount_bounds [OF a(3)]
  show ?thesis
    by (intro exI [of _ p] exI [of _ d] exI [of _ m] exI [of _ sites] conjI)
       (use a(4,5,7) b merchantsD [OF a(6)] in \<open>auto intro!: cents_round_trip\<close>)
qed

lemma wallet_grant_members [simp]:
  "jget (wallet_grant ls p d m sites) ''type'' = Some (JStr WALLET_AUTHORIZATION_DETAILS_TYPE)"
  "jget (wallet_grant ls p d m sites) ''locations'' = map_option JArr ls"
  "jget (wallet_grant ls p d m sites) ''asset'' = Some (JStr WALLET_ASSET)"
  "jget (wallet_grant ls p d m sites) ''network'' = Some (JStr WALLET_NETWORK)"
  "jget (wallet_grant ls p d m sites) ''merchants'' = map_option (\<lambda>os. JArr (map JStr os)) sites"
  "limits_of (wallet_grant ls p d m sites) = JObj [(''currency'', JStr ''USD''),
     (''per_payment'', JStr (cents_str p)), (''daily'', JStr (cents_str d)), (''monthly'', JStr (cents_str m))]"
  by (simp_all add: wallet_grant_def limits_of_def split: option.split)

lemma merchant_origins_again:
  assumes "\<forall>x \<in> set os. \<exists>u. pu x = Some u \<and> url_protocol u = ''https:'' \<and> url_origin u = x"
  shows "merchant_origins pu (map JStr os) = Inr os"
  using assms by (induction os) auto

text \<open>Normalising is idempotent: a grant that was normalised once is accepted again unchanged,
  so the stored grant, the one on the consent screen and the one in the token are the same.  It
  needs only that the origin of a URL is itself a URL with that origin and its protocol.\<close>

theorem wallet_grant_idempotent:
  assumes "normalizeWalletGrant pu detail = Inr g"
    and "\<forall>s u. pu s = Some u \<and> url_protocol u = ''https:'' \<longrightarrow>
      (\<exists>v. pu (url_origin u) = Some v \<and> url_protocol v = ''https:'' \<and> url_origin v = url_origin u)"
  shows "normalizeWalletGrant pu g = Inr g"
  using assms(1)
proof (rule normalize_okE)
  fix p d m sites
  assume a: "amount (jget (limits_of detail) ''per_payment'') Per_Payment = Inr p"
    "amount (jget (limits_of detail) ''daily'') Daily = Inr d"
    "amount (jget (limits_of detail) ''monthly'') Monthly = Inr m" "p \<le> d" "d \<le> m"
    "merchants pu (jget detail ''merchants'') = Inr sites"
    "g = wallet_grant (jarr (jget detail ''locations'')) p d m sites"
  have am: "amount (Some (JStr (cents_str p))) Per_Payment = Inr p"
    "amount (Some (JStr (cents_str d))) Daily = Inr d" "amount (Some (JStr (cents_str m))) Monthly = Inr m"
    using amount_bounds [OF a(1)] amount_bounds [OF a(2)] amount_bounds [OF a(3)]
    by (auto intro: amount_reads)
  have "merchants pu (map_option (\<lambda>os. JArr (map JStr os)) sites) = Inr sites"
  proof (cases sites)
    case (Some os)
    then have os: "os \<noteq> []" "length os \<le> 50"
      "\<forall>x \<in> set os. \<exists>s u. pu s = Some u \<and> url_protocol u = ''https:'' \<and> x = url_origin u"
      using merchantsD [OF a(6)] by auto
    have "merchant_origins pu (map JStr os) = Inr os"
      by (rule merchant_origins_again) (use os(3) assms(2) in metis)
    then show ?thesis using os Some by (simp add: merchants_def MAX_MERCHANTS_def)
  qed (simp add: merchants_def)
  moreover have "jarr (map_option JArr ls) = ls" for ls by (cases ls) simp_all
  moreover have "assertFixed g (limits_of g) = Inr ()"
    by (simp add: a(7) assertFixed_def only_value_def)
  ultimately show ?thesis using am a(4,5)
    by (simp add: normalizeWalletGrant_def Let_def a(7))
qed

text \<open>The witnesses: a grant with one limit named and one site.\<close>

definition site_url :: url where
  "site_url = \<lparr>url_protocol = ''https:'', url_hostname = ''shop.example'', url_port = [],
     url_pathname = ''/'', url_hash = [], url_username = [], url_password = [],
     url_origin = ''https://shop.example''\<rparr>"

definition site_parse :: "string \<Rightarrow> url option" where
  "site_parse s = (if s = ''https://shop.example'' then Some site_url else None)"

definition demo_detail :: json where
  "demo_detail = JObj [(''type'', JStr ''inite_wallet''),
     (''limits'', JObj [(''per_payment'', JStr '' 05.50 ''), (''daily'', JNum 20)]),
     (''merchants'', JArr [JStr ''https://shop.example''])]"

lemma demo_amounts:
  "amount (Some (JStr '' 05.50 '')) Per_Payment = Inr 550" "amount (Some (JNum 20)) Daily = Inr 2000"
  "amount None Monthly = Inr 5000"
  by (simp_all add: amount_def Let_def trim_def is_ws_def cents_of_def is_digit_def int_str_def
      nat_str.simps)

lemma demo_normal:
  "normalizeWalletGrant site_parse demo_detail
     = Inr (wallet_grant None 550 2000 5000 (Some [''https://shop.example'']))"
  by (simp add: normalizeWalletGrant_def demo_detail_def limits_of_def assertFixed_def only_value_def
      demo_amounts merchants_def MAX_MERCHANTS_def site_parse_def site_url_def)

theorem wallet_grant_bounded_witness:
  "\<exists>p d m sites. wallet_grant None 550 2000 5000 (Some [''https://shop.example'']) = wallet_grant None p d m sites
     \<and> 0 < p \<and> p \<le> d \<and> d \<le> m \<and> m \<le> 1000000"
proof -
  have "jarr (jget demo_detail ''locations'') = None" by code_simp
  from wallet_grant_bounded [OF demo_normal, unfolded this] show ?thesis
    by (elim exE conjE) (intro exI conjI)
qed

theorem wallet_grant_idempotent_witness:
  "normalizeWalletGrant site_parse (wallet_grant None 550 2000 5000 (Some [''https://shop.example'']))
     = Inr (wallet_grant None 550 2000 5000 (Some [''https://shop.example'']))"
  by (rule wallet_grant_idempotent [OF demo_normal]) (simp add: site_parse_def site_url_def)

end
