(* ===== verification/Step_Up.thy ===== *)
theory Step_Up
  imports Environment
begin

text \<open>
  \<open>src/oauth/step-up.service.ts\<close>: the assurance a session achieved (\<open>amr\<close>, RFC 8176) against the one
  a client asks for (\<open>acr_values\<close>), on three ranks, and the RFC 9470 challenge.
\<close>

definition ACR_RANKS :: "(string \<times> nat) list" where
  "ACR_RANKS =
     [(''aal1'', 1), (''1'', 1), (''loa1'', 1), (''low'', 1),
      (''aal2'', 2), (''2'', 2), (''mfa'', 2), (''loa2'', 2), (''silver'', 2),
      (''phr'', 3), (''phrh'', 3), (''aal3'', 3), (''3'', 3), (''loa3'', 3), (''hwk'', 3), (''gold'', 3)]"

text \<open>
  The table is a JavaScript object, so a token that names a member every object inherits finds that
  member instead of nothing; as a number it is \<open>NaN\<close>, which \<open>Math.max\<close> keeps and no comparison
  passes.  \<open>None\<close> stands for it.
\<close>

definition INHERITED_MEMBERS :: "string list" where
  "INHERITED_MEMBERS = [''constructor'', ''__proto__'']"

definition rankOfAcrToken :: "string \<Rightarrow> nat option" where
  "rankOfAcrToken token =
     (let t = lower (trim token)
      in if t \<in> set INHERITED_MEMBERS then None else Some (nullish (map_of ACR_RANKS t) 0))"

fun js_max :: "nat option \<Rightarrow> nat option \<Rightarrow> nat option" where
  "js_max (Some a) (Some b) = Some (max a b)"
| "js_max _ _ = None"

definition RESISTANT_AMR :: "string list" where
  "RESISTANT_AMR = [''fido'', ''hwk'', ''wia'', ''pop'']"

definition isPhishingResistant :: "string list \<Rightarrow> bool" where
  "isPhishingResistant amr \<longleftrightarrow> list_ex (\<lambda>m. lower m \<in> set RESISTANT_AMR) amr"

definition sessionRank :: "string list \<Rightarrow> nat" where
  "sessionRank amr =
     (if amr = [] then 0
      else if isPhishingResistant amr then 3
      else if 2 \<le> length (uniq (map lower amr)) then 2 else 1)"

definition achievedAcr :: "string list \<Rightarrow> string option" where
  "achievedAcr amr =
     (let rank = sessionRank amr
      in if 3 \<le> rank then Some ''phr'' else if rank = 2 then Some ''aal2''
         else if rank = 1 then Some ''aal1'' else None)"

definition requiredRank :: "string option \<Rightarrow> nat option" where
  "requiredRank acrValues =
     (if \<not> truthy acrValues then Some 0
      else foldl (\<lambda>m t. js_max m (rankOfAcrToken t)) (Some 0) (words_of (nullish acrValues '''')))"

definition isSatisfied :: "string list \<Rightarrow> string option \<Rightarrow> bool" where
  "isSatisfied amr acrValues =
     (case requiredRank acrValues of
        None \<Rightarrow> False
      | Some required \<Rightarrow> if required = 0 then True else required \<le> sessionRank amr)"

definition challengeHeader :: "string option \<Rightarrow> nat option \<Rightarrow> string" where
  "challengeHeader acrValues maxAge =
     ''Bearer '' @ join_with '', ''
       ([''error=\"insufficient_user_authentication\"'',
         ''error_description=\"A higher authentication assurance level is required\"'']
        @ (if truthy acrValues then [''acr_values=\"'' @ nullish acrValues '''' @ ''\"''] else [])
        @ (case maxAge of None \<Rightarrow> [] | Some n \<Rightarrow> [''max_age='' @ nat_str n]))"

section \<open>Lemmas\<close>

definition reached :: "nat \<Rightarrow> nat option \<Rightarrow> bool" where
  "reached n r = (case r of None \<Rightarrow> False | Some k \<Rightarrow> k \<le> n)"

lemma reached_iff: "reached n r \<longleftrightarrow> (\<exists>k. r = Some k \<and> k \<le> n)"
  by (auto simp: reached_def split: option.split)

lemma reached_max: "reached n (js_max a b) \<longleftrightarrow> reached n a \<and> reached n b"
  by (cases a; cases b) (auto simp: reached_def)

lemma reached_foldl:
  "reached n (foldl (\<lambda>m t. js_max m (f t)) a ts) \<longleftrightarrow> reached n a \<and> (\<forall>t \<in> set ts. reached n (f t))"
  by (induction ts arbitrary: a) (auto simp: reached_max)

lemma required_reached:
  "reached n (requiredRank acr) \<longleftrightarrow> (\<forall>t \<in> set (words_of (nullish acr [])). reached n (rankOfAcrToken t))"
proof -
  have "reached n (Some 0)" by (simp add: reached_def)
  then show ?thesis by (cases acr) (auto simp: requiredRank_def reached_foldl)
qed

lemma satisfied_iff: "isSatisfied amr acr \<longleftrightarrow> reached (sessionRank amr) (requiredRank acr)"
  by (auto simp: isSatisfied_def reached_def split: option.split)

lemma rank_le_3: "rankOfAcrToken t = Some n \<Longrightarrow> n \<le> 3"
  by (cases "map_of ACR_RANKS (lower (trim t))")
     (auto simp: rankOfAcrToken_def Let_def ACR_RANKS_def dest!: map_of_SomeD split: if_splits)

lemma sessionRank_mono: "set amr \<subseteq> set amr' \<Longrightarrow> sessionRank amr \<le> sessionRank amr'"
proof -
  assume s: "set amr \<subseteq> set amr'"
  have card: "length (uniq (map lower a)) = card (lower ` set a)" for a
    using distinct_card [OF distinct_uniq, of "map lower a"] by simp
  have "card (lower ` set amr) \<le> card (lower ` set amr')"
    using s by (intro card_mono image_mono) auto
  moreover have "isPhishingResistant amr \<Longrightarrow> isPhishingResistant amr'"
    using s by (auto simp: isPhishingResistant_def list_ex_iff)
  moreover have "amr' \<noteq> []" if "amr \<noteq> []" using s that by (cases amr') auto
  ultimately show ?thesis by (auto simp: sessionRank_def card)
qed

text \<open>Step-up is a rank comparison: a request is satisfied exactly when every level it names is
  reached by the session, a token the service does not know asking for nothing; a phishing-resistant
  session satisfies every request but one that names an inherited object member; adding a factor
  never loses a level; and the level the session reports as achieved is satisfied when asked for.\<close>

theorem step_up_ranks:
  "(isSatisfied amr acr \<longleftrightarrow>
      (\<forall>t \<in> set (words_of (nullish acr [])). \<exists>n. rankOfAcrToken t = Some n \<and> n \<le> sessionRank amr))
   \<and> (isPhishingResistant amr \<and> (\<forall>t \<in> set (words_of (nullish acr [])). rankOfAcrToken t \<noteq> None)
        \<longrightarrow> isSatisfied amr acr)
   \<and> (set amr \<subseteq> set amr' \<and> isSatisfied amr acr \<longrightarrow> isSatisfied amr' acr)
   \<and> (\<forall>a. achievedAcr amr = Some a \<longrightarrow> requiredRank (Some a) = Some (sessionRank amr))"
proof -
  have all: "isSatisfied a acr \<longleftrightarrow>
      (\<forall>t \<in> set (words_of (nullish acr [])). \<exists>n. rankOfAcrToken t = Some n \<and> n \<le> sessionRank a)" for a
    unfolding satisfied_iff required_reached by (simp add: reached_iff)
  have "rankOfAcrToken ''phr'' = Some 3" "rankOfAcrToken ''aal2'' = Some 2" "rankOfAcrToken ''aal1'' = Some 1"
    "words_of ''phr'' = [''phr'']" "words_of ''aal2'' = [''aal2'']" "words_of ''aal1'' = [''aal1'']"
    by code_simp+
  then have ach: "achievedAcr amr = Some a \<Longrightarrow> requiredRank (Some a) = Some (sessionRank amr)" for a
    by (auto simp: achievedAcr_def requiredRank_def Let_def sessionRank_def split: if_splits)
  have res: "isPhishingResistant amr \<Longrightarrow> sessionRank amr = 3"
    by (auto simp: sessionRank_def isPhishingResistant_def)
  show ?thesis
  proof (intro conjI impI allI)
    assume p: "isPhishingResistant amr \<and> (\<forall>t \<in> set (words_of (nullish acr [])). rankOfAcrToken t \<noteq> None)"
    then show "isSatisfied amr acr" using rank_le_3 unfolding all res [OF conjunct1 [OF p]] by blast
  next
    assume "set amr \<subseteq> set amr' \<and> isSatisfied amr acr"
    then show "isSatisfied amr' acr"
      using sessionRank_mono [of amr amr'] le_trans unfolding all by blast
  qed (use all ach in blast)+
qed

theorem step_up_ranks_witness:
  "isPhishingResistant [''fido''] \<and> isSatisfied [''fido''] (Some ''phr'') \<and> \<not> isSatisfied [''pwd''] (Some ''phr'')"
proof -
  have "isPhishingResistant [''fido'']" "\<not> isSatisfied [''pwd''] (Some ''phr'')"
    "words_of (nullish (Some ''phr'') []) = [''phr'']" "rankOfAcrToken ''phr'' = Some 3"
    by code_simp+
  then show ?thesis using step_up_ranks [of "[''fido'']" "Some ''phr''" "[''fido'']"]
    by (simp only: list.set ball_simps) blast
qed

text \<open>A request whose \<open>acr_values\<close> names \<open>constructor\<close> (or \<open>__proto__\<close>) is satisfied by no
  session, a passkey included: the level lookup finds the object's own member.\<close>

theorem inherited_acr_locks_out:
  "\<not> isSatisfied amr (Some ''constructor'') \<and> \<not> isSatisfied amr (Some ''__proto__'')
   \<and> isSatisfied amr (Some ''urn:custom'')"
proof -
  have "requiredRank (Some ''constructor'') = None" "requiredRank (Some ''__proto__'') = None"
    "requiredRank (Some ''urn:custom'') = Some 0"
    by code_simp+
  then show ?thesis by (simp add: isSatisfied_def)
qed

end
