(* ===== verification/Auth_Code.thy ===== *)
theory Auth_Code
  imports Consent Wallet_Grant Step_Up
begin

text \<open>
  \<open>src/oauth/pkce.service.ts\<close> and \<open>src/oauth/oauth.service.ts\<close>: authorization codes (issuing, the
  exchange for tokens with its atomic claim, the replay defence), the first-consent notice, userinfo
  and the hourly cleanup.
\<close>

section \<open>PKCE\<close>

definition verifyCodeChallenge :: "prims \<Rightarrow> string \<Rightarrow> string \<Rightarrow> string \<Rightarrow> bool" where
  "verifyCodeChallenge P verifier challenge method =
     (if method = ''plain'' then verifier = challenge
      else if method = ''S256'' then p_sha256 P verifier = challenge
      else False)"

definition generateCodeChallenge :: "prims \<Rightarrow> string \<Rightarrow> string \<Rightarrow> error + string" where
  "generateCodeChallenge P verifier method =
     (if method = ''plain'' then Inr verifier
      else if method = ''S256'' then Inr (p_sha256 P verifier)
      else Inl (Server_Error (''Unsupported code challenge method: '' @ method)))"

section \<open>Issuing a code\<close>

record code_input =
  ci_user :: string
  ci_client :: string
  ci_redirect_uri :: string
  ci_scope :: string
  ci_challenge :: "string option"
  ci_challenge_method :: "string option"
  ci_nonce :: "string option"
  ci_acr_values :: "string option"
  ci_amr :: "string list option"
  ci_resource :: "string option"
  ci_details :: "string option"
  ci_organization :: "string option"
  ci_customer :: "string option"

definition lane_client_of :: "client_row \<Rightarrow> lane_client" where
  "lane_client_of c = \<lparr>lc_client_id = cl_client_id c, lc_company = cl_company c,
     lc_customer_lane = cl_customer_lane c\<rparr>"

definition codeTenant ::
  "config \<Rightarrow> code_input \<Rightarrow> client_row option \<Rightarrow> db \<Rightarrow> (error + string option) \<times> db"
where
  "codeTenant cf input clientRow d =
     (case clientRow of
        None \<Rightarrow> (Inr None, d)
      | Some c \<Rightarrow>
          (case orgFor cf (lane_client_of c) (ci_organization input) (ci_customer input) d of
             Inl e \<Rightarrow> (Inl e, d)
           | Inr None \<Rightarrow> (Inr (cl_company c), d)
           | Inr (Some org) \<Rightarrow>
               (case admit (ci_user input) (ci_client input) org (nullish (ci_amr input) []) d of
                  (Inl e, d1) \<Rightarrow> (Inl e, d1)
                | (Inr _, d1) \<Rightarrow> (Inr (Some (lo_company org)), d1))))"

definition CODE_TTL_MS :: int where "CODE_TTL_MS = 10 * 60 * 1000"

definition insert_code :: "code_row \<Rightarrow> db \<Rightarrow> error + db" where
  "insert_code c d =
     (if list_ex (\<lambda>x. ac_code x = ac_code c) (auth_codes d) then Inl Db_Conflict
      else Inr (d\<lparr>auth_codes := auth_codes d @ [c]\<rparr>))"

definition code_row_for ::
  "request \<Rightarrow> entropy \<Rightarrow> code_input \<Rightarrow> json list option \<Rightarrow> string option \<Rightarrow> code_row"
where
  "code_row_for rq en input details company =
     \<lparr>ac_code = en_token en, ac_user = ci_user input, ac_client = ci_client input, ac_company = company,
      ac_redirect_uri = ci_redirect_uri input, ac_scope = Some (ci_scope input), ac_nonce = ci_nonce input,
      ac_acr_values = ci_acr_values input, ac_amr = nullish (ci_amr input) [],
      ac_challenge = ci_challenge input, ac_challenge_method = ci_challenge_method input,
      ac_resource = ci_resource input, ac_details = map_option JArr details,
      ac_expires = rq_now rq + CODE_TTL_MS, ac_used = False\<rparr>"

definition PASSKEY_NEEDED :: error where
  "PASSKEY_NEEDED = Unauthorized (OAuth ''insufficient_user_authentication''
     (Some ''Approving wallet access needs a passkey''))"

definition createAuthorizationCode ::
  "prims \<Rightarrow> config \<Rightarrow> request \<Rightarrow> entropy \<Rightarrow> code_input \<Rightarrow> db \<Rightarrow> (error + string) \<times> db"
where
  "createAuthorizationCode P cf rq en input d =
     (let clientRow = find_client d (ci_client input)
      in (case parse_details P cf (ci_details input) of
            Inl e \<Rightarrow> (Inl e, d)
          | Inr details \<Rightarrow>
              if hasWalletGrant details \<and> sessionRank (nullish (ci_amr input) []) < 3
              then (Inl PASSKEY_NEEDED, d)
              else (case codeTenant cf input clientRow d of
                      (Inl e, d1) \<Rightarrow> (Inl e, d1)
                    | (Inr company, d1) \<Rightarrow>
                        (case insert_code (code_row_for rq en input details company) d1 of
                           Inl e \<Rightarrow> (Inl e, d1)
                         | Inr d2 \<Rightarrow> (Inr (en_token en), d2)))))"

section \<open>Exchanging a code\<close>

record exchange_input =
  ei_code :: string
  ei_client :: string
  ei_redirect_uri :: string
  ei_verifier :: "string option"

definition claimable :: "exchange_input \<Rightarrow> time \<Rightarrow> code_row \<Rightarrow> bool" where
  "claimable i now c \<longleftrightarrow> ac_code c = ei_code i \<and> ac_client c = ei_client i
     \<and> ac_redirect_uri c = ei_redirect_uri i \<and> \<not> ac_used c \<and> ac_expires c > now"

definition find_code :: "db \<Rightarrow> string \<Rightarrow> code_row option" where
  "find_code d code = List.find (\<lambda>c. ac_code c = code) (auth_codes d)"

definition handleCodeClaimFailure :: "request \<Rightarrow> string \<Rightarrow> db \<Rightarrow> error \<times> db" where
  "handleCodeClaimFailure rq code d =
     (Bad_Request (Msg ''Invalid or expired authorization code''),
      (case find_code d code of
         None \<Rightarrow> d
       | Some replay \<Rightarrow>
           if ac_used replay
           then d\<lparr>refresh_tokens := revoke_family (ac_user replay) (ac_client replay) (rq_now rq)
                    (refresh_tokens d)\<rparr>
           else d))"

definition resolveCodeAudience ::
  "(string \<Rightarrow> url option) \<Rightarrow> string option \<Rightarrow> string \<Rightarrow> string option \<Rightarrow> db \<Rightarrow> error + string option"
where
  "resolveCodeAudience pu reg clientId resource d =
     (if \<not> truthy resource then Inr None
      else let client = find_client d clientId;
               r = nullish resource '''';
               allowed = (case client of None \<Rightarrow> [] | Some c \<Rightarrow> cl_allowed_audiences c)
           in if allowed \<noteq> [] \<and> r \<notin> set allowed
              then Inl (Bad_Request (Msg (''Resource \"'' @ r @ ''\" is not allowed for this client'')))
              else (case assertResourceAllowed pu reg
                      \<lparr>rc_client_id = clientId, rc_is_public = map_option cl_is_public client,
                       rc_allowed_audiences = Some allowed,
                       rc_redirect_uris = Some (case client of None \<Rightarrow> [] | Some c \<Rightarrow> cl_redirect_uris c)\<rparr>
                      resource of
                      Inl e \<Rightarrow> Inl e | Inr _ \<Rightarrow> Inr (Some r)))"

definition code_gen_input :: "code_row \<Rightarrow> user_row \<Rightarrow> string \<Rightarrow> string option \<Rightarrow> gen_input" where
  "code_gen_input c user clientId audience =
     \<lparr>gi_user = user, gi_client = clientId, gi_scope = nullish (ac_scope c) '''', gi_rotated_from = None,
      gi_nonce = ac_nonce c, gi_amr = ac_amr c, gi_acr = ac_acr_values c, gi_audience = audience,
      gi_details = jarr (ac_details c), gi_tenant = ac_company c\<rparr>"

definition notifyFirstTimeConsent :: "request \<Rightarrow> user_row \<Rightarrow> string \<Rightarrow> string \<Rightarrow> db \<Rightarrow> db" where
  "notifyFirstTimeConsent rq user clientId scope d =
     (let cutoff = rq_now rq - 5000;
          prior = count_where (\<lambda>r. rt_user r = us_id user \<and> rt_client r = clientId \<and> rt_created r < cutoff)
                    (refresh_tokens d)
      in if 0 < prior then d
         else emit (Email ''oauth-consent-granted'' (nullish (us_email user) '''')
                (nullish (map_option cl_name (find_client d clientId)) clientId # words_of scope)) d)"

text \<open>\<open>pkce_ok\<close>: the verification step, with the exceptions it throws.\<close>

definition pkce_check :: "prims \<Rightarrow> code_row \<Rightarrow> string option \<Rightarrow> error + unit" where
  "pkce_check P c verifier =
     (if \<not> truthy (ac_challenge c) then Inr ()
      else if \<not> truthy verifier then Inl (Bad_Request (Msg ''Code verifier required''))
      else if verifyCodeChallenge P (nullish verifier '''') (nullish (ac_challenge c) '''')
                (if truthy (ac_challenge_method c) then nullish (ac_challenge_method c) '''' else ''S256'')
           then Inr () else Inl (Bad_Request (Msg ''Invalid code verifier'')))"

definition exchangeAuthorizationCode ::
  "issuer_deps \<Rightarrow> string option \<Rightarrow> request \<Rightarrow> entropy \<Rightarrow> exchange_input \<Rightarrow> db \<Rightarrow> (error + issued_tokens) \<times> db"
where
  "exchangeAuthorizationCode I reg rq en i d =
     (let mine = claimable i (rq_now rq);
          d1 = d\<lparr>auth_codes := update_many mine (\<lambda>c. c\<lparr>ac_used := True\<rparr>) (auth_codes d)\<rparr>
      in if count_where mine (auth_codes d) \<noteq> 1
         then (case handleCodeClaimFailure rq (ei_code i) d1 of (e, d2) \<Rightarrow> (Inl e, d2))
         else (case find_code d1 (ei_code i) of
                 None \<Rightarrow> (Inl (Bad_Request (Msg ''Authorization code not found after claim'')), d1)
               | Some c \<Rightarrow>
                   (case find_user d1 (ac_user c) of
                      None \<Rightarrow> (Inl Db_Missing, d1)
                    | Some user \<Rightarrow>
                        (case pkce_check (is_prims I) c (ei_verifier i) of
                           Inl e \<Rightarrow> (Inl e, d1)
                         | Inr _ \<Rightarrow>
                             (case resolveCodeAudience (p_parse_url (is_prims I)) reg (ei_client i)
                                     (ac_resource c) d1 of
                                Inl e \<Rightarrow> (Inl e, d1)
                              | Inr audience \<Rightarrow>
                                  (case generateTokens I rq en (code_gen_input c user (ei_client i) audience)
                                          None d1 of
                                     (Inl e, d2) \<Rightarrow> (Inl e, d2)
                                   | (Inr it, d2) \<Rightarrow>
                                       (Inr it, notifyFirstTimeConsent rq user (ei_client i)
                                          (nullish (ac_scope c) '''') d2)))))))"

section \<open>Userinfo and cleanup\<close>

text \<open>\<open>wallets\<close> is what the identity service returns for the user: address and chain.\<close>

definition getUserInfo :: "string \<Rightarrow> (string \<times> string) list \<Rightarrow> db \<Rightarrow> error + json" where
  "getUserInfo userId wallets d =
     (case find_user d userId of
        None \<Rightarrow> Inl (Not_Found (Msg ''User not found''))
      | Some u \<Rightarrow> Inr (JObj [(''sub'', JStr (us_did u)), (''email'', jopt (us_email u)),
          (''email_verified'', JBool (us_email_verified u)), (''name'', jopt (us_name u)),
          (''picture'', jopt (us_avatar u)), (''did'', JStr (us_did u)),
          (''wallets'', JArr (map (\<lambda>(a, c). JObj [(''address'', JStr a), (''chain'', JStr c)]) wallets))]))"

definition cleanupExpired :: "request \<Rightarrow> db \<Rightarrow> db" where
  "cleanupExpired rq d =
     d\<lparr>auth_codes := delete_many (\<lambda>c. ac_expires c < rq_now rq) (auth_codes d),
       refresh_tokens := eraseExpiredReplays (rq_now rq)
         (delete_many (\<lambda>r. rt_expires r < rq_now rq) (refresh_tokens d))\<rparr>"

section \<open>Lemmas\<close>

abbreviation mark_used :: "exchange_input \<Rightarrow> time \<Rightarrow> code_row list \<Rightarrow> code_row list" where
  "mark_used i now \<equiv> update_many (claimable i now) (\<lambda>c. c\<lparr>ac_used := True\<rparr>)"

lemma persist_frame:
  assumes "persistRefreshToken I rq en inp it g d = Inr d'"
  shows "auth_codes d' = auth_codes d" "users d' = users d" "clients d' = clients d"
    "devices d' = devices d" "memberships d' = memberships d"
  using assms by (auto simp: persistRefreshToken_def split: sum.splits)

lemma generate_frame:
  assumes "generateTokens I rq en inp g d = (r, d')"
  shows "auth_codes d' = auth_codes d" "users d' = users d" "clients d' = clients d"
    "devices d' = devices d"
proof -
  obtain ra d1 where a: "actFor (is_prims I) (is_config I) rq en (us_id (gi_user inp)) (gi_client inp)
      (gi_details inp) d = (ra, d1)" by fastforce
  obtain ctx d2 where c: "resolveOrgContext (is_prims I) (is_config I) en inp d1 = (ctx, d2)" by fastforce
  have "d' = d1 \<or> d' = d2 \<or> (\<exists>it. persistRefreshToken I rq en inp it g d2 = Inr d')"
    using assms a c by (auto simp: generateTokens_def Let_def split: sum.splits)
  then show "auth_codes d' = auth_codes d" "users d' = users d" "clients d' = clients d"
    "devices d' = devices d"
    using actFor_frame [OF a] resolve_frame [OF c] persist_frame by auto
qed

lemma notify_frame [simp]:
  "auth_codes (notifyFirstTimeConsent rq u c sc d) = auth_codes d"
  "refresh_tokens (notifyFirstTimeConsent rq u c sc d) = refresh_tokens d"
  "devices (notifyFirstTimeConsent rq u c sc d) = devices d"
  by (simp_all add: notifyFirstTimeConsent_def Let_def)

lemma failure_frame [simp]:
  "auth_codes (snd (handleCodeClaimFailure rq code d)) = auth_codes d"
  by (simp add: handleCodeClaimFailure_def split: option.split)

text \<open>Whatever happens to the request, the codes change by the claim alone.\<close>

lemma exchange_codes:
  "auth_codes (snd (exchangeAuthorizationCode I reg rq en i d)) = mark_used i (rq_now rq) (auth_codes d)"
  by (auto simp: exchangeAuthorizationCode_def Let_def case_prod_beta generate_frame(1) [OF surjective_pairing]
      split: option.split sum.split prod.split dest: generate_frame(1))

lemma exchange_success:
  assumes "exchangeAuthorizationCode I reg rq en i d = (Inr it, d')"
  obtains c user audience d2 where
    "count_where (claimable i (rq_now rq)) (auth_codes d) = 1"
    "find_code (d\<lparr>auth_codes := mark_used i (rq_now rq) (auth_codes d)\<rparr>) (ei_code i) = Some c"
    "find_user d (ac_user c) = Some user"
    "pkce_check (is_prims I) c (ei_verifier i) = Inr ()"
    "resolveCodeAudience (p_parse_url (is_prims I)) reg (ei_client i) (ac_resource c)
       (d\<lparr>auth_codes := mark_used i (rq_now rq) (auth_codes d)\<rparr>) = Inr audience"
    "generateTokens I rq en (code_gen_input c user (ei_client i) audience) None
       (d\<lparr>auth_codes := mark_used i (rq_now rq) (auth_codes d)\<rparr>) = (Inr it, d2)"
    "refresh_tokens d' = refresh_tokens d2"
  using assms
  by (auto simp: exchangeAuthorizationCode_def Let_def find_user_def
      split: if_splits option.splits sum.splits prod.splits)

lemma mark_used_codes [simp]: "map ac_code (mark_used i now t) = map ac_code t"
  by (rule map_update_many) simp

lemma claim_unique:
  assumes "distinct (map ac_code t)" and "count_where (claimable i now) t = 1"
  obtains c where "c \<in> set t" "claimable i now c"
    "List.find (\<lambda>x. ac_code x = ei_code i) (mark_used i now t) = Some (c\<lparr>ac_used := True\<rparr>)"
proof -
  have "count_where (claimable i now) t \<noteq> 0" using assms(2) by simp
  then obtain c where c: "c \<in> set t" "claimable i now c" unfolding count_where_0 by blast
  have "c\<lparr>ac_used := True\<rparr> \<in> set (mark_used i now t)"
    using update_manyI [OF c(1), of "claimable i now" "\<lambda>c. c\<lparr>ac_used := True\<rparr>"] c(2) by simp
  from find_key [of ac_code, OF _ this] assms(1) c(2) show ?thesis
    by (intro that [OF c]) (simp add: claimable_def)
qed

definition codes_ok :: "db \<Rightarrow> bool" where
  "codes_ok d \<longleftrightarrow> distinct (map ac_code (auth_codes d))"

definition code_spent :: "string \<Rightarrow> db \<Rightarrow> bool" where
  "code_spent k d \<longleftrightarrow> (\<forall>c \<in> set (auth_codes d). ac_code c = k \<longrightarrow> ac_used c)"

text \<open>A token request with a code, as the interface of a single-use credential sees it.\<close>

definition redeem ::
  "issuer_deps \<Rightarrow> string option \<Rightarrow> request \<times> entropy \<times> exchange_input \<Rightarrow> db \<Rightarrow> issued_tokens option \<times> db"
where
  "redeem I reg q d =
     (case q of (rq, en, i) \<Rightarrow>
        (ok (fst (exchangeAuthorizationCode I reg rq en i d)), snd (exchangeAuthorizationCode I reg rq en i d)))"

definition redeem_key :: "request \<times> entropy \<times> exchange_input \<Rightarrow> string" where
  "redeem_key q = ei_code (snd (snd q))"

lemma spent_after_marks: "code_spent k d \<Longrightarrow> c \<in> set (mark_used i now (auth_codes d)) \<Longrightarrow> ac_code c = k \<Longrightarrow> ac_used c"
  by (auto simp: code_spent_def elim!: update_manyE split: if_splits)

interpretation code: single_use "redeem I reg" redeem_key code_spent codes_ok
proof unfold_locales
  fix q :: "request \<times> entropy \<times> exchange_input" and d :: db
  obtain rq en i where q: "q = (rq, en, i)" by (cases q)
  show "codes_ok (snd (redeem I reg q d))" if "codes_ok d"
    using that by (simp add: codes_ok_def redeem_def q exchange_codes)
  show "code_spent (redeem_key q) d'" if inv: "codes_ok d" and win: "redeem I reg q d = (Some it, d')" for it d'
  proof -
    from win have "exchangeAuthorizationCode I reg rq en i d = (Inr it, d')"
      by (simp add: redeem_def q ok_Some_iff prod_eq_iff)
    then have "count_where (claimable i (rq_now rq)) (auth_codes d) = 1"
      and d': "auth_codes d' = mark_used i (rq_now rq) (auth_codes d)"
      using exchange_codes [of I reg rq en i d] by (auto elim: exchange_success)
    with inv obtain c where c: "c \<in> set (auth_codes d)" "claimable i (rq_now rq) c"
      unfolding codes_ok_def by (auto elim: claim_unique)
    show ?thesis unfolding code_spent_def d'
    proof (intro ballI impI)
      fix x assume x: "x \<in> set (mark_used i (rq_now rq) (auth_codes d))" "ac_code x = redeem_key q"
      from x(1) obtain y where y: "y \<in> set (auth_codes d)"
        "x = (if claimable i (rq_now rq) y then y\<lparr>ac_used := True\<rparr> else y)" by (rule update_manyE)
      have "ac_code y = ac_code c" using x(2) y(2) c(2) by (auto simp: redeem_key_def q claimable_def split: if_splits)
      then have "y = c" using inv y(1) c(1) unfolding codes_ok_def by (metis distinct_map inj_on_def)
      then show "ac_used x" using y(2) c(2) by simp
    qed
  qed
  show "fst (redeem I reg q d) = None" if "codes_ok d" "code_spent (redeem_key q) d"
  proof -
    have "count_where (claimable i (rq_now rq)) (auth_codes d) = 0"
      using that(2) unfolding count_where_0 by (auto simp: code_spent_def redeem_key_def q claimable_def)
    then show ?thesis by (simp add: redeem_def q exchangeAuthorizationCode_def case_prod_beta Let_def)
  qed
  show "code_spent k (snd (redeem I reg q d))" if "code_spent k d" for k
    unfolding code_spent_def [of k "snd (redeem I reg q d)"]
    by (auto simp: redeem_def q exchange_codes intro: spent_after_marks [OF that])
qed

text \<open>C6. An authorization code is redeemed at most once: of any sequence of token requests, with
  whatever clients, redirect URIs, verifiers and clocks, at most one naming the code gets tokens.\<close>

theorem code_redeemed_once:
  assumes "distinct (map ac_code (auth_codes d))"
  shows "wins redeem_key k qs (fst (run_requests (redeem I reg) qs d)) \<le> 1"
  by (rule code.at_most_one_win) (simp add: codes_ok_def assms)

lemma pkce_checkD:
  assumes "pkce_check P c verifier = Inr ()" and "ac_challenge c = Some ch" and "ch \<noteq> []"
  shows "\<exists>v. verifier = Some v \<and> (v = ch \<and> ac_challenge_method c = Some ''plain'' \<or> p_sha256 P v = ch)"
  using assms
  by (cases verifier) (auto simp: pkce_check_def verifyCodeChallenge_def split: if_splits elim!: truthyE)

lemma resolve_audience_ok:
  assumes "resolveCodeAudience pu reg cid (Some r) d = Inr a" and "r \<noteq> []"
    and c: "find_client d cid = Some cl"
  shows "isResourceAllowed pu reg (resource_client_of cl) (Some r)"
proof -
  have "\<lparr>rc_client_id = cid, rc_is_public = Some (cl_is_public cl),
      rc_allowed_audiences = Some (cl_allowed_audiences cl),
      rc_redirect_uris = Some (cl_redirect_uris cl)\<rparr> = resource_client_of cl"
    using find_clientD [OF c] by (simp add: resource_client_of_def)
  then have "assertResourceAllowed pu reg (resource_client_of cl) (Some r) = Inr ()"
    using assms by (auto simp: resolveCodeAudience_def Let_def split: if_splits sum.splits)
  then show ?thesis by (simp add: assert_ok_iff)
qed

lemma resolved_audience:
  "resolveCodeAudience pu reg cid rs d = Inr a \<Longrightarrow> a = (if truthy rs then rs else None)"
  by (auto simp: resolveCodeAudience_def Let_def elim!: truthyE split: if_splits sum.splits)

text \<open>C5. Tokens are issued for a code only when it was unused and unexpired, issued to this client
  and this redirect URI, the PKCE verifier fits its challenge, and the resource it names is one the
  client may target.  Then the code is used, the answer and the refresh token carry the code's scope, and
  exactly one refresh token is added: live, of the code's user at this client, bound to the resource the
  code names (to none when it names none), and the start of a chain.\<close>

theorem exchange_grants:
  assumes inv: "distinct (map ac_code (auth_codes d))"
    and run: "exchangeAuthorizationCode I reg rq en i d = (Inr it, d')"
  shows "\<exists>c \<in> set (auth_codes d). ac_code c = ei_code i \<and> ac_client c = ei_client i
     \<and> ac_redirect_uri c = ei_redirect_uri i \<and> \<not> ac_used c \<and> rq_now rq < ac_expires c
     \<and> (\<forall>ch. ac_challenge c = Some ch \<and> ch \<noteq> [] \<longrightarrow> (\<exists>v. ei_verifier i = Some v
          \<and> (v = ch \<and> ac_challenge_method c = Some ''plain'' \<or> p_sha256 (is_prims I) v = ch)))
     \<and> (\<forall>r cl. ac_resource c = Some r \<and> r \<noteq> [] \<and> find_client d (ei_client i) = Some cl \<longrightarrow>
          isResourceAllowed (p_parse_url (is_prims I)) reg (resource_client_of cl) (Some r))
     \<and> code_spent (ei_code i) d'
     \<and> it_scope it = nullish (ac_scope c) ''''
     \<and> (\<exists>row. refresh_tokens d' = refresh_tokens d @ [row] \<and> rt_user row = ac_user c
          \<and> rt_client row = ei_client i \<and> \<not> rt_revoked row \<and> rt_rotated_from row = None
          \<and> rt_scope row = Some (it_scope it)
          \<and> rt_resource row = (if truthy (ac_resource c) then ac_resource c else None)
          \<and> rt_lookup row = Some (token_lookup I (it_refresh_token it)))"
  using run
proof (rule exchange_success)
  let ?d1 = "d\<lparr>auth_codes := mark_used i (rq_now rq) (auth_codes d)\<rparr>"
  fix c user audience d2
  assume a: "count_where (claimable i (rq_now rq)) (auth_codes d) = 1"
    "find_code ?d1 (ei_code i) = Some c" "find_user d (ac_user c) = Some user"
    "pkce_check (is_prims I) c (ei_verifier i) = Inr ()"
    "resolveCodeAudience (p_parse_url (is_prims I)) reg (ei_client i) (ac_resource c) ?d1 = Inr audience"
    "generateTokens I rq en (code_gen_input c user (ei_client i) audience) None ?d1 = (Inr it, d2)"
    "refresh_tokens d' = refresh_tokens d2"
  from claim_unique [OF inv a(1)] obtain c0 where c0: "c0 \<in> set (auth_codes d)" "claimable i (rq_now rq) c0"
    "List.find (\<lambda>x. ac_code x = ei_code i) (mark_used i (rq_now rq) (auth_codes d)) = Some (c0\<lparr>ac_used := True\<rparr>)" .
  have c: "c = c0\<lparr>ac_used := True\<rparr>" using a(2) c0(3) by (simp add: find_code_def)
  have hash: "p_hmac (is_prims I) (is_secret I) = token_lookup I" by (simp add: fun_eq_iff token_lookup_def)
  from issuer.issue_ok [OF a(6)] obtain row where row:
    "it_scope it = nullish (ac_scope c0) ''''"
    "issued_row (token_lookup I) rq en (code_gen_input c user (ei_client i) audience) it row"
    "insert_refresh row (refresh_tokens d) = Inr (refresh_tokens d2)"
    by (auto simp: gated_def code_gen_input_def c hash)
  have "us_id user = ac_user c0" using find_userD [OF a(3)] c by simp
  then have r: "refresh_tokens d' = refresh_tokens d @ [row]" "rt_user row = ac_user c0"
      "rt_client row = ei_client i" "\<not> rt_revoked row" "rt_rotated_from row = None"
      "rt_scope row = Some (it_scope it)" "rt_lookup row = Some (token_lookup I (it_refresh_token it))"
      "rt_resource row = audience"
    using row a(7) by (auto simp: issued_row_def code_gen_input_def insert_refresh_def c split: if_splits)
  have "redeem I reg (rq, en, i) d = (Some it, d')" by (simp add: redeem_def run)
  then have sp: "code_spent (ei_code i) d'"
    using code.win_spends [of d I reg "(rq, en, i)" it d'] inv by (simp add: codes_ok_def redeem_key_def)
  have aud: "audience = (if truthy (ac_resource c0) then ac_resource c0 else None)"
    using resolved_audience [OF a(5)] by (simp add: c)
  have res: "\<forall>r cl. ac_resource c0 = Some r \<and> r \<noteq> [] \<and> find_client d (ei_client i) = Some cl \<longrightarrow>
      isResourceAllowed (p_parse_url (is_prims I)) reg (resource_client_of cl) (Some r)"
    using a(5) resolve_audience_ok by (fastforce simp: c find_client_def)
  show ?thesis
    by (rule bexI [OF _ c0(1)]) (use c0(2) [unfolded claimable_def] pkce_checkD [OF a(4)] res sp row(1) r aud c in auto)
qed

definition demo_code :: code_row where
  "demo_code = \<lparr>ac_code = ''code1'', ac_user = ''u1'', ac_client = ''shop'', ac_company = Some ''acme'',
     ac_redirect_uri = ''https://app.example/cb'', ac_scope = Some ''openid'', ac_nonce = None,
     ac_acr_values = None, ac_amr = [''pwd''], ac_challenge = Some ''s:verifier'',
     ac_challenge_method = Some ''S256'', ac_resource = None, ac_details = None, ac_expires = 600000,
     ac_used = False\<rparr>"

definition code_db :: db where
  "code_db = demo_db\<lparr>auth_codes := [demo_code], refresh_tokens := []\<rparr>"

definition demo_exchange :: exchange_input where
  "demo_exchange = \<lparr>ei_code = ''code1'', ei_client = ''shop'', ei_redirect_uri = ''https://app.example/cb'',
     ei_verifier = Some ''verifier''\<rparr>"

lemma code_db_distinct: "distinct (map ac_code (auth_codes code_db))"
  by (simp add: code_db_def)

theorem code_redeemed_once_witness:
  "wins redeem_key ''code1'' [(demo_rq, demo_en, demo_exchange), (demo_rq, demo_en, demo_exchange)]
     (fst (run_requests (redeem demo_issuer None)
        [(demo_rq, demo_en, demo_exchange), (demo_rq, demo_en, demo_exchange)] code_db)) \<le> 1
   \<and> fst (redeem demo_issuer None (demo_rq, demo_en, demo_exchange) code_db) \<noteq> None"
proof
  show "fst (redeem demo_issuer None (demo_rq, demo_en, demo_exchange) code_db) \<noteq> None" by code_simp
qed (rule code_redeemed_once [OF code_db_distinct])

theorem exchange_grants_witness:
  "\<exists>it d'. exchangeAuthorizationCode demo_issuer None demo_rq demo_en demo_exchange code_db = (Inr it, d')
     \<and> code_spent ''code1'' d' \<and> (\<exists>row. refresh_tokens d' = [row] \<and> rt_client row = ''shop'')"
proof -
  have "ok (fst (exchangeAuthorizationCode demo_issuer None demo_rq demo_en demo_exchange code_db)) \<noteq> None"
    by code_simp
  then obtain it d' where r: "exchangeAuthorizationCode demo_issuer None demo_rq demo_en demo_exchange code_db = (Inr it, d')"
    by (cases "exchangeAuthorizationCode demo_issuer None demo_rq demo_en demo_exchange code_db")
       (auto simp: ok_Some_iff)
  show ?thesis using exchange_grants [OF code_db_distinct r] r
    by (auto simp: demo_exchange_def code_db_def)
qed

text \<open>A used code presented again, by whichever client and with whatever redirect URI, is refused
  and taken for theft: every refresh token of the code's user at the code's client is revoked and
  keeps no pair.  A request that fails for a code that is unknown, expired or another client's, and
  not used, leaves every refresh token alone.\<close>

theorem code_replay_revokes:
  assumes "distinct (map ac_code (auth_codes d))"
  shows "(\<forall>c. find_code d (ei_code i) = Some c \<and> ac_used c \<longrightarrow>
      (\<exists>e d'. exchangeAuthorizationCode I reg rq en i d = (Inl e, d')
         \<and> scope_closed (family_scope (ac_user c) (ac_client c)) (refresh_tokens d')))
   \<and> ((\<forall>c. find_code d (ei_code i) = Some c \<longrightarrow> \<not> ac_used c \<and> \<not> claimable i (rq_now rq) c) \<longrightarrow>
      (\<exists>e d'. exchangeAuthorizationCode I reg rq en i d = (Inl e, d') \<and> refresh_tokens d' = refresh_tokens d))"
proof -
  let ?d1 = "d\<lparr>auth_codes := mark_used i (rq_now rq) (auth_codes d)\<rparr>"
  have none: "count_where (claimable i (rq_now rq)) (auth_codes d) = 0
      \<and> find_code ?d1 (ei_code i) = find_code d (ei_code i)"
    if n: "\<forall>c. find_code d (ei_code i) = Some c \<longrightarrow> \<not> claimable i (rq_now rq) c"
  proof -
    have no: "\<not> claimable i (rq_now rq) c" if c: "c \<in> set (auth_codes d)" for c
    proof
      assume cl: "claimable i (rq_now rq) c"
      then have "find_code d (ei_code i) = Some c"
        using find_key [of ac_code, OF assms c] by (simp add: find_code_def claimable_def)
      then show False using n cl by blast
    qed
    then have "mark_used i (rq_now rq) (auth_codes d) = auth_codes d"
      unfolding update_many_def by (intro map_idI) simp
    moreover have "count_where (claimable i (rq_now rq)) (auth_codes d) = 0"
      using no unfolding count_where_0 by blast
    ultimately show ?thesis by (simp add: find_code_def)
  qed
  show ?thesis
  proof (intro conjI allI impI)
    fix c assume c: "find_code d (ei_code i) = Some c \<and> ac_used c"
    then have "\<forall>c. find_code d (ei_code i) = Some c \<longrightarrow> \<not> claimable i (rq_now rq) c"
      by (auto simp: claimable_def)
    from none [OF this] c show "\<exists>e d'. exchangeAuthorizationCode I reg rq en i d = (Inl e, d')
         \<and> scope_closed (family_scope (ac_user c) (ac_client c)) (refresh_tokens d')"
      by (simp add: exchangeAuthorizationCode_def Let_def handleCodeClaimFailure_def family.closes)
  next
    assume a: "\<forall>c. find_code d (ei_code i) = Some c \<longrightarrow> \<not> ac_used c \<and> \<not> claimable i (rq_now rq) c"
    then have "\<forall>c. find_code d (ei_code i) = Some c \<longrightarrow> \<not> claimable i (rq_now rq) c" by blast
    from none [OF this] a show "\<exists>e d'. exchangeAuthorizationCode I reg rq en i d = (Inl e, d')
         \<and> refresh_tokens d' = refresh_tokens d"
      by (auto simp: exchangeAuthorizationCode_def Let_def handleCodeClaimFailure_def split: option.split)
  qed
qed

theorem code_replay_revokes_witness:
  "\<exists>e d'. exchangeAuthorizationCode demo_issuer None demo_rq demo_en demo_exchange
       (demo_db\<lparr>auth_codes := [demo_code\<lparr>ac_used := True\<rparr>]\<rparr>) = (Inl e, d')
     \<and> scope_closed (family_scope ''u1'' ''shop'') (refresh_tokens d')"
proof -
  let ?d = "demo_db\<lparr>auth_codes := [demo_code\<lparr>ac_used := True\<rparr>]\<rparr>"
  have "distinct (map ac_code (auth_codes ?d))"
    "find_code ?d (ei_code demo_exchange) = Some (demo_code\<lparr>ac_used := True\<rparr>)"
    by (simp_all add: find_code_def demo_code_def demo_exchange_def)
  with code_replay_revokes [of ?d demo_exchange demo_issuer None demo_rq demo_en]
  show ?thesis by (auto simp: demo_code_def)
qed

text \<open>PKCE binds a code to its verifier: the challenge made from a verifier accepts that verifier,
  a method the service does not know accepts none, and when the digest has no collisions an accepted
  verifier is the one the challenge was made from.\<close>

theorem pkce_binds:
  assumes "inj (p_sha256 P)" and "generateCodeChallenge P v m = Inr ch"
  shows "(verifyCodeChallenge P w ch m \<longleftrightarrow> w = v)
    \<and> (verifyCodeChallenge P w ch m' \<longrightarrow> m' \<in> {''plain'', ''S256''})"
  using assms
  by (auto simp: verifyCodeChallenge_def generateCodeChallenge_def split: if_splits dest: injD)

theorem pkce_binds_witness:
  "\<not> verifyCodeChallenge P0 ''guess'' ''s:verifier'' ''S256''"
proof -
  have "inj (p_sha256 P0)" "generateCodeChallenge P0 ''verifier'' ''S256'' = Inr ''s:verifier''"
    by (simp_all add: demo_prims_def inj_def generateCodeChallenge_def)
  then show ?thesis using pkce_binds [of P0 "''verifier''" "''S256''" "''s:verifier''" "''guess''"] by simp
qed

lemma rank_3: "3 \<le> sessionRank amr \<longleftrightarrow> isPhishingResistant amr"
  by (auto simp: sessionRank_def isPhishingResistant_def)

lemma codeTenant_frame:
  assumes "codeTenant cf input c d = (r, d')"
  shows "auth_codes d' = auth_codes d" "refresh_tokens d' = refresh_tokens d"
  using assms
  by (auto simp: codeTenant_def admit_def Let_def createCustomer_def insert_membership_def recordJoined_def
      split: option.splits sum.splits prod.splits lane_verdict.splits if_splits)

text \<open>A code that is issued is the new one, unused, for ten minutes, for exactly the user, client,
  redirect URI, scope and challenge of the request, and no other code or refresh token changes.  When
  its details grant the wallet, the session was phishing-resistant, and every grant in them has been
  normalised.\<close>

theorem code_issued:
  assumes "createAuthorizationCode P cf rq en input d = (Inr code, d')"
  shows "\<exists>details row. parse_details P cf (ci_details input) = Inr details
     \<and> auth_codes d' = auth_codes d @ [row] \<and> refresh_tokens d' = refresh_tokens d
     \<and> ac_code row = code \<and> code = en_token en \<and> (\<forall>c \<in> set (auth_codes d). ac_code c \<noteq> code)
     \<and> \<not> ac_used row \<and> ac_expires row = rq_now rq + 600000
     \<and> ac_user row = ci_user input \<and> ac_client row = ci_client input
     \<and> ac_redirect_uri row = ci_redirect_uri input \<and> ac_scope row = Some (ci_scope input)
     \<and> ac_challenge row = ci_challenge input \<and> ac_resource row = ci_resource input
     \<and> jarr (ac_details row) = details
     \<and> (hasWalletGrant details \<longrightarrow> isPhishingResistant (nullish (ci_amr input) []))"
proof -
  from assms obtain details company d1 where a:
    "parse_details P cf (ci_details input) = Inr details"
    "\<not> (hasWalletGrant details \<and> sessionRank (nullish (ci_amr input) []) < 3)"
    "codeTenant cf input (find_client d (ci_client input)) d = (Inr company, d1)"
    "insert_code (code_row_for rq en input details company) d1 = Inr d'" "code = en_token en"
    by (auto simp: createAuthorizationCode_def Let_def split: sum.splits if_splits prod.splits)
  have j: "jarr (map_option JArr x) = x" for x by (cases x) simp_all
  show ?thesis
    using a(1,2,5) codeTenant_frame [OF a(3)] a(4)
    by (intro exI [of _ details] exI [of _ "code_row_for rq en input details company"])
       (auto simp: insert_code_def list_ex_iff code_row_for_def CODE_TTL_MS_def not_less rank_3 j split: if_splits)
qed

definition demo_code_input :: code_input where
  "demo_code_input = \<lparr>ci_user = ''u1'', ci_client = ''shop'', ci_redirect_uri = ''https://app.example/cb'',
     ci_scope = ''openid'', ci_challenge = Some ''s:verifier'', ci_challenge_method = Some ''S256'',
     ci_nonce = None, ci_acr_values = None, ci_amr = Some [''pwd''], ci_resource = None, ci_details = None,
     ci_organization = None, ci_customer = None\<rparr>"

theorem code_issued_witness:
  "\<exists>d' row. createAuthorizationCode P0 demo_config demo_rq demo_en demo_code_input demo_db = (Inr ''second'', d')
     \<and> auth_codes d' = [row] \<and> ac_expires row = 605000"
proof -
  have "ok (fst (createAuthorizationCode P0 demo_config demo_rq demo_en demo_code_input demo_db)) = Some ''second''"
    by code_simp
  then obtain d' where r: "createAuthorizationCode P0 demo_config demo_rq demo_en demo_code_input demo_db = (Inr ''second'', d')"
    by (cases "createAuthorizationCode P0 demo_config demo_rq demo_en demo_code_input demo_db") (auto simp: ok_Some_iff)
  from code_issued [OF r] show ?thesis using r by (auto simp: demo_db_def demo_rq_def)
qed

text \<open>The hourly cleanup removes exactly what has expired: every code and refresh token that is
  still valid stays, none that is past its expiry does; refresh tokens only narrow; and no pair is
  kept past its window.\<close>

theorem cleanup_exact:
  "auth_codes (cleanupExpired rq d) = filter (\<lambda>c. rq_now rq \<le> ac_expires c) (auth_codes d)
   \<and> map rt_id (refresh_tokens (cleanupExpired rq d))
       = map rt_id (filter (\<lambda>r. rq_now rq \<le> rt_expires r) (refresh_tokens d))
   \<and> table_narrows (refresh_tokens d) (refresh_tokens (cleanupExpired rq d))
   \<and> (\<forall>r \<in> set (refresh_tokens (cleanupExpired rq d)). \<forall>u. rt_grace_until r = Some u \<longrightarrow> rq_now rq \<le> u)"
proof (intro conjI ballI allI impI)
  let ?t = "delete_many (\<lambda>r. rt_expires r < rq_now rq) (refresh_tokens d)"
  show "auth_codes (cleanupExpired rq d) = filter (\<lambda>c. rq_now rq \<le> ac_expires c) (auth_codes d)"
    by (simp add: cleanupExpired_def delete_many_def not_less)
  have "map rt_id (eraseExpiredReplays (rq_now rq) ?t) = map rt_id ?t"
    unfolding eraseExpiredReplays_def by (rule map_update_many) simp
  then show "map rt_id (refresh_tokens (cleanupExpired rq d))
       = map rt_id (filter (\<lambda>r. rq_now rq \<le> rt_expires r) (refresh_tokens d))"
    by (simp add: cleanupExpired_def delete_many_def not_less)
  show "table_narrows (refresh_tokens d) (refresh_tokens (cleanupExpired rq d))"
    by (simp add: cleanupExpired_def table_narrows_trans [OF narrows_delete_many expiry.narrows])
  fix r u assume "r \<in> set (refresh_tokens (cleanupExpired rq d))" and u: "rt_grace_until r = Some u"
  then have "r \<in> set (eraseExpiredReplays (rq_now rq) ?t)" by (simp add: cleanupExpired_def)
  then show "rq_now rq \<le> u" unfolding eraseExpiredReplays_def
    by (rule update_manyE) (use u in \<open>auto split: if_splits option.splits\<close>)
qed

theorem cleanup_exact_witness:
  "auth_codes (cleanupExpired (demo_rq\<lparr>rq_now := 700000\<rparr>) code_db) = []
   \<and> table_narrows (refresh_tokens demo_db) (refresh_tokens (cleanupExpired (demo_rq\<lparr>rq_now := 700000\<rparr>) demo_db))"
  using cleanup_exact [of "demo_rq\<lparr>rq_now := 700000\<rparr>" code_db]
    cleanup_exact [of "demo_rq\<lparr>rq_now := 700000\<rparr>" demo_db]
  by (simp add: code_db_def demo_code_def)

end
