(* ===== verification/Device_Flow.thy ===== *)
theory Device_Flow
  imports Auth_Code
begin

text \<open>
  \<open>src/oauth/device-flow.service.ts\<close>: the device authorization grant (RFC 8628).  A device gets a pair
  of codes, a person approves or denies the short one, the device polls with the long one until it
  is told the verdict; an approved code is redeemed by deleting its row.
\<close>

section \<open>Issuing\<close>

definition USER_CODE_ALPHABET :: string where "USER_CODE_ALPHABET = ''BCDFGHJKLMNPQRSTVWXZ''"
definition DEFAULT_INTERVAL_SECONDS :: int where "DEFAULT_INTERVAL_SECONDS = 5"
definition DEFAULT_TTL_SECONDS :: int where "DEFAULT_TTL_SECONDS = 600"

text \<open>The random draws: the device code, the row's identifier and, per attempt, eight indices.\<close>

record device_entropy =
  de_code :: string
  de_row_id :: string
  de_picks :: "nat list list"

definition generateUserCode :: "nat list \<Rightarrow> string" where
  "generateUserCode picks =
     (let out = map (\<lambda>i. USER_CODE_ALPHABET ! (i mod length USER_CODE_ALPHABET)) (take 8 picks)
      in take 4 out @ ''-'' @ drop 4 out)"

fun uniqueUserCode :: "nat \<Rightarrow> nat list list \<Rightarrow> db \<Rightarrow> error + string" where
  "uniqueUserCode 0 picks d = Inl (Server_Error ''Failed to mint a unique device user_code'')"
| "uniqueUserCode (Suc n) [] d = Inl (Server_Error ''Failed to mint a unique device user_code'')"
| "uniqueUserCode (Suc n) (p # ps) d =
     (let candidate = generateUserCode p
      in if list_ex (\<lambda>r. dv_user_code r = candidate) (devices d) then uniqueUserCode n ps d
         else Inr candidate)"

definition invalid_target :: "string \<Rightarrow> error" where
  "invalid_target m = Bad_Request (OAuth ''invalid_target'' (Some m))"

definition resolveResource ::
  "(string \<Rightarrow> url option) \<Rightarrow> string option \<Rightarrow> client_row \<Rightarrow> string option \<Rightarrow> error + string option"
where
  "resolveResource pu reg client resource =
     (if \<not> truthy resource then Inr None
      else let r = nullish resource ''''
           in (case pu r of
                 None \<Rightarrow> Inl (invalid_target ''resource must be an absolute URI'')
               | Some u \<Rightarrow>
                   if CHR ''#'' \<in> set r \<or> url_hash u \<noteq> []
                   then Inl (invalid_target ''resource must not contain a fragment'')
                   else if cl_allowed_audiences client \<noteq> [] \<and> r \<notin> set (cl_allowed_audiences client)
                   then Inl (invalid_target (''Resource \"'' @ r @ ''\" is not allowed for this client''))
                   else (case assertResourceAllowed pu reg (resource_client_of client) resource of
                           Inl e \<Rightarrow> Inl e | Inr _ \<Rightarrow> Inr (Some r))))"

definition insert_device :: "device_row \<Rightarrow> db \<Rightarrow> error + db" where
  "insert_device r d =
     (if list_ex (\<lambda>x. dv_id x = dv_id r \<or> dv_code_hash x = dv_code_hash r \<or> dv_user_code x = dv_user_code r)
           (devices d)
      then Inl Db_Conflict else Inr (d\<lparr>devices := devices d @ [r]\<rparr>))"

record device_answer =
  da_device_code :: string
  da_user_code :: string
  da_verification_uri :: string
  da_verification_uri_complete :: string
  da_expires_in :: int
  da_interval :: int

definition device_row_for ::
  "prims \<Rightarrow> request \<Rightarrow> device_entropy \<Rightarrow> client_row \<Rightarrow> string option \<Rightarrow> string option \<Rightarrow> string \<Rightarrow> device_row"
where
  "device_row_for P rq de client scope resource userCode =
     \<lparr>dv_id = de_row_id de, dv_code_hash = p_sha256 P (de_code de), dv_user_code = userCode,
      dv_client = cl_client_id client, dv_scope = scope, dv_resource = resource, dv_user = None,
      dv_status = ''pending'', dv_expires = rq_now rq + DEFAULT_TTL_SECONDS * 1000,
      dv_last_polled = None, dv_interval = DEFAULT_INTERVAL_SECONDS\<rparr>"

definition issue_device ::
  "prims \<Rightarrow> string option \<Rightarrow> request \<Rightarrow> device_entropy \<Rightarrow> client_row \<Rightarrow> string option \<Rightarrow> string option \<Rightarrow>
   string \<Rightarrow> db \<Rightarrow> (error + device_answer) \<times> db"
where
  "issue_device P reg rq de client scope resource uri d =
     (case resolveResource (p_parse_url P) reg client resource of
        Inl e \<Rightarrow> (Inl e, d)
      | Inr res \<Rightarrow>
          (case uniqueUserCode 5 (de_picks de) d of
             Inl e \<Rightarrow> (Inl e, d)
           | Inr uc \<Rightarrow>
               (case insert_device (device_row_for P rq de client scope res uc) d of
                  Inl e \<Rightarrow> (Inl e, d)
                | Inr d1 \<Rightarrow>
                    (Inr \<lparr>da_device_code = de_code de, da_user_code = uc, da_verification_uri = uri,
                       da_verification_uri_complete = uri @ ''?user_code='' @ uc,
                       da_expires_in = DEFAULT_TTL_SECONDS, da_interval = DEFAULT_INTERVAL_SECONDS\<rparr>, d1))))"

section \<open>The person's verdict\<close>

definition normalised :: "string \<Rightarrow> string" where
  "normalised userCode = upper (trim userCode)"

definition findByUserCode :: "request \<Rightarrow> string \<Rightarrow> db \<Rightarrow> device_row option" where
  "findByUserCode rq userCode d =
     (if userCode = [] then None
      else case List.find (\<lambda>r. dv_user_code r = normalised userCode) (devices d) of
             None \<Rightarrow> None
           | Some row \<Rightarrow> if dv_expires row < rq_now rq then None else Some row)"

definition set_device :: "string \<Rightarrow> (device_row \<Rightarrow> device_row) \<Rightarrow> db \<Rightarrow> db" where
  "set_device i f d = d\<lparr>devices := update_many (\<lambda>r. dv_id r = i) f (devices d)\<rparr>"

definition approve_device :: "request \<Rightarrow> string \<Rightarrow> string \<Rightarrow> db \<Rightarrow> (error + device_row) \<times> db" where
  "approve_device rq userCode userId d =
     (case findByUserCode rq (normalised userCode) d of
        None \<Rightarrow> (Inl (Not_Found (Msg ''Invalid or expired device code'')), d)
      | Some row \<Rightarrow>
          if dv_status row = ''approved'' \<and> dv_user row = Some userId then (Inr row, d)
          else if dv_status row \<noteq> ''pending''
          then (Inl (Bad_Request (Msg (''Device code is '' @ dv_status row))), d)
          else let f = (\<lambda>r. r\<lparr>dv_status := ''approved'', dv_user := Some userId\<rparr>)
               in (Inr (f row), set_device (dv_id row) f d))"

definition deny_device :: "request \<Rightarrow> string \<Rightarrow> db \<Rightarrow> db" where
  "deny_device rq userCode d =
     (case findByUserCode rq userCode d of
        None \<Rightarrow> d
      | Some row \<Rightarrow>
          if dv_status row \<noteq> ''pending'' then d
          else set_device (dv_id row) (\<lambda>r. r\<lparr>dv_status := ''denied''\<rparr>) d)"

section \<open>Polling\<close>

definition oauth_error :: "string \<Rightarrow> error" where
  "oauth_error e = Bad_Request (OAuth e None)"

definition pollForApproval ::
  "prims \<Rightarrow> request \<Rightarrow> string \<Rightarrow> string \<Rightarrow> db \<Rightarrow> (error + device_row) \<times> db"
where
  "pollForApproval P rq deviceCode clientId d =
     (case List.find (\<lambda>r. dv_code_hash r = p_sha256 P deviceCode) (devices d) of
        None \<Rightarrow> (Inl (oauth_error ''invalid_grant''), d)
      | Some row \<Rightarrow>
          let now = rq_now rq in
          if dv_client row \<noteq> clientId then (Inl (oauth_error ''invalid_grant''), d)
          else if dv_expires row < now
          then (Inl (oauth_error ''expired_token''), set_device (dv_id row) (\<lambda>r. r\<lparr>dv_status := ''expired''\<rparr>) d)
          else if (case dv_last_polled row of None \<Rightarrow> False | Some t \<Rightarrow> now - t < dv_interval row * 1000)
          then (Inl (oauth_error ''slow_down''),
                set_device (dv_id row)
                  (\<lambda>r. r\<lparr>dv_last_polled := Some now, dv_interval := dv_interval row + 5\<rparr>) d)
          else let d1 = set_device (dv_id row) (\<lambda>r. r\<lparr>dv_last_polled := Some now\<rparr>) d
               in if dv_status row = ''denied'' then (Inl (oauth_error ''access_denied''), d1)
                  else if dv_status row = ''pending'' then (Inl (oauth_error ''authorization_pending''), d1)
                  else if dv_status row \<noteq> ''approved'' \<or> \<not> truthy (dv_user row)
                  then (Inl (oauth_error ''invalid_grant''), d1)
                  else (Inr row, d1\<lparr>devices := delete_many (\<lambda>r. dv_id r = dv_id row) (devices d1)\<rparr>))"

section \<open>A code is redeemed once\<close>

definition devices_ok :: "db \<Rightarrow> bool" where
  "devices_ok d \<longleftrightarrow> distinct (map dv_id (devices d)) \<and> distinct (map dv_code_hash (devices d))"

definition device_gone :: "string \<Rightarrow> db \<Rightarrow> bool" where
  "device_gone h d \<longleftrightarrow> (\<forall>r \<in> set (devices d). dv_code_hash r \<noteq> h)"

record poll_request =
  po_request :: request
  po_code :: string
  po_client :: string

definition poll_claim :: "prims \<Rightarrow> poll_request \<Rightarrow> db \<Rightarrow> device_row option \<times> db" where
  "poll_claim P q d =
     (ok (fst (pollForApproval P (po_request q) (po_code q) (po_client q) d)),
      snd (pollForApproval P (po_request q) (po_code q) (po_client q) d))"

lemma devices_set [simp]: "devices (set_device i f d) = update_many (\<lambda>r. dv_id r = i) f (devices d)"
  by (simp add: set_device_def)

lemma poll_table:
  obtains (same) "devices (snd (pollForApproval P rq c cid d)) = devices d"
      "\<exists>e. fst (pollForApproval P rq c cid d) = Inl e"
  | (changed) i f where "devices (snd (pollForApproval P rq c cid d)) = update_many (\<lambda>r. dv_id r = i) f (devices d)"
      "\<And>r. dv_id (f r) = dv_id r \<and> dv_code_hash (f r) = dv_code_hash r \<and> dv_user_code (f r) = dv_user_code r
         \<and> (dv_status (f r) = ''approved'' \<longrightarrow> dv_status r = ''approved'' \<and> dv_user (f r) = dv_user r)"
      "\<exists>e. fst (pollForApproval P rq c cid d) = Inl e"
  | (redeemed) row where "fst (pollForApproval P rq c cid d) = Inr row" "row \<in> set (devices d)"
      "dv_code_hash row = p_sha256 P c" "dv_client row = cid" "dv_status row = ''approved''"
      "truthy (dv_user row)" "rq_now rq \<le> dv_expires row"
      "devices (snd (pollForApproval P rq c cid d)) = delete_many (\<lambda>r. dv_id r = dv_id row)
         (update_many (\<lambda>r. dv_id r = dv_id row) (\<lambda>r. r\<lparr>dv_last_polled := Some (rq_now rq)\<rparr>) (devices d))"
proof (cases "List.find (\<lambda>r. dv_code_hash r = p_sha256 P c) (devices d)")
  case None
  then show ?thesis by (intro same) (simp_all add: pollForApproval_def)
next
  case (Some row)
  have row: "row \<in> set (devices d)" "dv_code_hash row = p_sha256 P c" using find_SomeD [OF Some] by simp_all
  let ?slow = "case dv_last_polled row of None \<Rightarrow> False | Some t \<Rightarrow> rq_now rq - t < dv_interval row * 1000"
  let ?ok = "dv_status row = ''approved'' \<and> truthy (dv_user row)"
  consider "dv_client row \<noteq> cid" | "dv_client row = cid" "dv_expires row < rq_now rq"
    | "dv_client row = cid" "rq_now rq \<le> dv_expires row" "?slow"
    | "dv_client row = cid" "rq_now rq \<le> dv_expires row" "\<not> ?slow" "\<not> ?ok"
    | "dv_client row = cid" "rq_now rq \<le> dv_expires row" "\<not> ?slow" "?ok" by linarith
  then show ?thesis
  proof cases
    case 1
    then show ?thesis using Some by (intro same) (simp_all add: pollForApproval_def)
  next
    case 2
    then show ?thesis using Some
      by (intro changed [of "dv_id row" "\<lambda>r. r\<lparr>dv_status := ''expired''\<rparr>"]) (auto simp: pollForApproval_def)
  next
    case 3
    then show ?thesis using Some
      by (intro changed [of "dv_id row" "\<lambda>r. r\<lparr>dv_last_polled := Some (rq_now rq), dv_interval := dv_interval row + 5\<rparr>"])
         (auto simp: pollForApproval_def)
  next
    case 4
    then show ?thesis using Some
      by (intro changed [of "dv_id row" "\<lambda>r. r\<lparr>dv_last_polled := Some (rq_now rq)\<rparr>"]) (auto simp: pollForApproval_def Let_def)
  next
    case 5
    then show ?thesis using Some row by (intro redeemed [of row]) (auto simp: pollForApproval_def Let_def)
  qed
qed

lemma keys_update:
  assumes "\<And>r. dv_id (f r) = dv_id r \<and> dv_code_hash (f r) = dv_code_hash r"
  shows "map dv_id (update_many p f t) = map dv_id t" "map dv_code_hash (update_many p f t) = map dv_code_hash t"
  using assms by (simp_all add: map_update_many)

lemma distinct_delete: "distinct (map key t) \<Longrightarrow> distinct (map key (delete_many p t))"
  by (simp add: delete_many_def distinct_map_filter)

lemma poll_keeps_keys:
  assumes "devices_ok d"
  shows "devices_ok (snd (pollForApproval P rq c cid d))"
proof (cases rule: poll_table [of P rq c cid d])
  case (changed i f)
  then show ?thesis using assms by (simp add: devices_ok_def keys_update)
next
  case (redeemed row)
  have "distinct (map dv_id (update_many (\<lambda>r. dv_id r = dv_id row) (\<lambda>r. r\<lparr>dv_last_polled := Some (rq_now rq)\<rparr>) (devices d)))"
    "distinct (map dv_code_hash (update_many (\<lambda>r. dv_id r = dv_id row) (\<lambda>r. r\<lparr>dv_last_polled := Some (rq_now rq)\<rparr>) (devices d)))"
    using assms by (simp_all add: devices_ok_def keys_update)
  then show ?thesis using redeemed(8) by (simp add: devices_ok_def distinct_delete)
qed (use assms in \<open>simp add: devices_ok_def\<close>)

lemma poll_no_new_hash:
  assumes "r \<in> set (devices (snd (pollForApproval P rq c cid d)))"
  shows "\<exists>r0 \<in> set (devices d). dv_code_hash r0 = dv_code_hash r"
proof (cases rule: poll_table [of P rq c cid d])
  case (changed i f)
  show ?thesis using assms unfolding changed(1) by (rule update_manyE) (use changed(2) in \<open>auto split: if_splits\<close>)
next
  case (redeemed row)
  then show ?thesis using assms by (auto elim!: update_manyE split: if_splits)
qed (use assms in auto)

interpretation device: single_use "poll_claim P" "\<lambda>q. p_sha256 P (po_code q)" device_gone devices_ok
proof unfold_locales
  fix q :: poll_request and d :: db
  show "devices_ok (snd (poll_claim P q d))" if "devices_ok d"
    using that by (simp add: poll_claim_def poll_keeps_keys)
  show "device_gone (p_sha256 P (po_code q)) d'"
    if inv: "devices_ok d" and win: "poll_claim P q d = (Some r, d')" for r d'
  proof -
    from win have res: "fst (pollForApproval P (po_request q) (po_code q) (po_client q) d) = Inr r"
      and d': "d' = snd (pollForApproval P (po_request q) (po_code q) (po_client q) d)"
      by (simp_all add: poll_claim_def ok_Some_iff)
    show ?thesis
    proof (cases rule: poll_table [of P "po_request q" "po_code q" "po_client q" d])
      case same
      then show ?thesis using res by simp
    next
      case (changed i f)
      then show ?thesis using res by simp
    next
      case (redeemed row)
      have "x = row" if "x \<in> set (devices d)" "dv_code_hash x = p_sha256 P (po_code q)" for x
        using inv that redeemed(2,3) unfolding devices_ok_def by (metis distinct_map inj_on_def)
      then show ?thesis unfolding device_gone_def d' redeemed(8)
        by (auto elim!: update_manyE split: if_splits)
    qed
  qed
  show "fst (poll_claim P q d) = None" if "device_gone (p_sha256 P (po_code q)) d"
  proof -
    have "List.find (\<lambda>r. dv_code_hash r = p_sha256 P (po_code q)) (devices d) = None"
      using that by (auto simp: device_gone_def find_None_iff)
    then show ?thesis by (simp add: poll_claim_def pollForApproval_def)
  qed
  show "device_gone k (snd (poll_claim P q d))" if "device_gone k d" for k
    using that poll_no_new_hash [of _ P "po_request q" "po_code q" "po_client q" d]
    by (fastforce simp: poll_claim_def device_gone_def)
qed

text \<open>A device code is redeemed at most once: of any sequence of polls, by whatever clients and at
  whatever times, at most one with the code is answered with the approval, because the answer and
  the deletion of the row are one.\<close>

theorem device_code_redeemed_once:
  assumes "distinct (map dv_id (devices d))" and "distinct (map dv_code_hash (devices d))"
  shows "wins (\<lambda>q. p_sha256 P (po_code q)) h qs (fst (run_requests (poll_claim P) qs d)) \<le> 1"
  by (rule device.at_most_one_win) (simp add: devices_ok_def assms)

section \<open>Nothing is redeemed without an approval\<close>

datatype device_op =
    Op_Issue device_entropy client_row "string option" "string option" string
  | Op_Approve string string
  | Op_Deny string
  | Op_Poll string string

fun run_device_op :: "prims \<Rightarrow> string option \<Rightarrow> request \<times> device_op \<Rightarrow> db \<Rightarrow> db" where
  "run_device_op P reg (rq, Op_Issue de c sc res uri) d = snd (issue_device P reg rq de c sc res uri d)"
| "run_device_op P reg (rq, Op_Approve uc u) d = snd (approve_device rq uc u d)"
| "run_device_op P reg (rq, Op_Deny uc) d = deny_device rq uc d"
| "run_device_op P reg (rq, Op_Poll code cid) d = snd (pollForApproval P rq code cid d)"

text \<open>\<open>backed ops d\<close>: every approved row was approved by its user, for its own user code, in \<open>ops\<close>.\<close>

definition approvals :: "(request \<times> device_op) list \<Rightarrow> (string \<times> string) set" where
  "approvals ops = {(normalised (normalised uc), u) | uc u rq. (rq, Op_Approve uc u) \<in> set ops}"

definition backed :: "(request \<times> device_op) list \<Rightarrow> db \<Rightarrow> bool" where
  "backed ops d \<longleftrightarrow> (\<forall>r \<in> set (devices d). dv_status r = ''approved'' \<longrightarrow>
     (\<exists>u. dv_user r = Some u \<and> (dv_user_code r, u) \<in> approvals ops))"

lemma backed_rows:
  assumes "backed ops d" and "approvals ops \<subseteq> approvals ops'"
    and "\<And>r. r \<in> set (devices d') \<Longrightarrow> dv_status r = ''approved'' \<Longrightarrow>
      (\<exists>r0 \<in> set (devices d). dv_status r0 = ''approved'' \<and> dv_user r = dv_user r0 \<and> dv_user_code r = dv_user_code r0)
      \<or> (\<exists>u. dv_user r = Some u \<and> (dv_user_code r, u) \<in> approvals ops')"
  shows "backed ops' d'"
  unfolding backed_def
proof (intro ballI impI)
  fix r assume r: "r \<in> set (devices d')" "dv_status r = ''approved''"
  from assms(3) [OF r] show "\<exists>u. dv_user r = Some u \<and> (dv_user_code r, u) \<in> approvals ops'"
  proof
    assume "\<exists>r0 \<in> set (devices d). dv_status r0 = ''approved'' \<and> dv_user r = dv_user r0 \<and> dv_user_code r = dv_user_code r0"
    then show ?thesis using assms(1,2) unfolding backed_def by (metis subsetD)
  qed
qed

lemma approvals_more: "approvals ops \<subseteq> approvals (ops @ [x])"
  by (auto simp: approvals_def)

lemma find_by_user_codeD:
  "findByUserCode rq uc d = Some r \<Longrightarrow> r \<in> set (devices d) \<and> dv_user_code r = normalised uc \<and> rq_now rq \<le> dv_expires r"
  by (auto simp: findByUserCode_def dest!: find_SomeD split: option.splits if_splits)

lemma backed_issue:
  assumes "backed ops d"
  shows "backed (ops @ [x]) (snd (issue_device P reg rq de c sc res uri d))"
proof (rule backed_rows [OF assms approvals_more])
  fix r assume r: "r \<in> set (devices (snd (issue_device P reg rq de c sc res uri d)))" "dv_status r = ''approved''"
  then have "r \<in> set (devices d)"
    by (auto simp: issue_device_def insert_device_def device_row_for_def split: sum.splits if_splits)
  then show "(\<exists>r0 \<in> set (devices d). dv_status r0 = ''approved'' \<and> dv_user r = dv_user r0 \<and> dv_user_code r = dv_user_code r0)
      \<or> (\<exists>u. dv_user r = Some u \<and> (dv_user_code r, u) \<in> approvals (ops @ [x]))"
    using r(2) by blast
qed

lemma backed_approve:
  assumes "backed ops d" and uq: "distinct (map dv_id (devices d))"
  shows "backed (ops @ [(rq, Op_Approve uc u)]) (snd (approve_device rq uc u d))"
proof (rule backed_rows [OF assms(1) approvals_more])
  fix r assume r: "r \<in> set (devices (snd (approve_device rq uc u d)))" "dv_status r = ''approved''"
  show "(\<exists>r0 \<in> set (devices d). dv_status r0 = ''approved'' \<and> dv_user r = dv_user r0 \<and> dv_user_code r = dv_user_code r0)
      \<or> (\<exists>u'. dv_user r = Some u' \<and> (dv_user_code r, u') \<in> approvals (ops @ [(rq, Op_Approve uc u)]))"
  proof (cases "r \<in> set (devices d)")
    case True
    then show ?thesis using r(2) by blast
  next
    case False
    with r(1) obtain row where row: "findByUserCode rq (normalised uc) d = Some row"
      and m: "r \<in> set (update_many (\<lambda>r. dv_id r = dv_id row)
          (\<lambda>r. r\<lparr>dv_status := ''approved'', dv_user := Some u\<rparr>) (devices d))"
      by (auto simp: approve_device_def Let_def split: option.splits if_splits)
    from m obtain r0 where r0: "r0 \<in> set (devices d)"
      "r = (if dv_id r0 = dv_id row then r0\<lparr>dv_status := ''approved'', dv_user := Some u\<rparr> else r0)"
      by (rule update_manyE)
    then have "dv_id r0 = dv_id row" using False by (auto split: if_splits)
    then have "r0 = row" using find_by_user_codeD [OF row] r0(1) uq by (metis distinct_map inj_on_def)
    then have "dv_user r = Some u" "dv_user_code r = normalised (normalised uc)"
      using r0(2) find_by_user_codeD [OF row] by simp_all
    then show ?thesis by (auto simp: approvals_def)
  qed
qed

lemma backed_deny:
  assumes "backed ops d"
  shows "backed (ops @ [x]) (deny_device rq uc d)"
proof (rule backed_rows [OF assms approvals_more])
  fix r assume r: "r \<in> set (devices (deny_device rq uc d))" "dv_status r = ''approved''"
  then have "r \<in> set (devices d)"
    by (auto simp: deny_device_def elim!: update_manyE split: option.splits if_splits)
  then show "(\<exists>r0 \<in> set (devices d). dv_status r0 = ''approved'' \<and> dv_user r = dv_user r0 \<and> dv_user_code r = dv_user_code r0)
      \<or> (\<exists>u. dv_user r = Some u \<and> (dv_user_code r, u) \<in> approvals (ops @ [x]))"
    using r(2) by blast
qed

lemma backed_poll:
  assumes "backed ops d"
  shows "backed (ops @ [x]) (snd (pollForApproval P rq c cid d))"
proof (rule backed_rows [OF assms approvals_more])
  fix r assume r: "r \<in> set (devices (snd (pollForApproval P rq c cid d)))" "dv_status r = ''approved''"
  have "\<exists>r0 \<in> set (devices d). dv_status r0 = ''approved'' \<and> dv_user r = dv_user r0 \<and> dv_user_code r = dv_user_code r0"
  proof (cases rule: poll_table [of P rq c cid d])
    case (changed i f)
    show ?thesis using r(1) unfolding changed(1)
      by (rule update_manyE) (use r(2) changed(2) in \<open>auto split: if_splits\<close>)
  next
    case (redeemed row)
    show ?thesis using r unfolding redeemed(8) by (auto elim!: update_manyE split: if_splits)
  qed (use r in auto)
  then show "(\<exists>r0 \<in> set (devices d). dv_status r0 = ''approved'' \<and> dv_user r = dv_user r0 \<and> dv_user_code r = dv_user_code r0)
      \<or> (\<exists>u. dv_user r = Some u \<and> (dv_user_code r, u) \<in> approvals (ops @ [x]))"
    by blast
qed

lemma op_keeps_keys:
  assumes "devices_ok d"
  shows "devices_ok (run_device_op P reg (rq, x) d)"
proof (cases x)
  case (Op_Issue de c sc res uri)
  then show ?thesis using assms
    by (auto simp: devices_ok_def issue_device_def insert_device_def list_ex_iff split: sum.split)
next
  case (Op_Approve uc u)
  then show ?thesis using assms
    by (auto simp: devices_ok_def approve_device_def Let_def keys_update split: option.split)
next
  case (Op_Deny uc)
  then show ?thesis using assms
    by (auto simp: devices_ok_def deny_device_def keys_update split: option.split)
next
  case (Op_Poll c cid)
  then show ?thesis using assms by (simp add: poll_keeps_keys)
qed

lemma op_keeps_backed:
  assumes "backed ops d" and "devices_ok d"
  shows "backed (ops @ [(rq, x)]) (run_device_op P reg (rq, x) d)"
  using assms(2)
  by (cases x) (simp_all add: assms(1) backed_issue backed_approve backed_deny backed_poll devices_ok_def)

lemma run_backed:
  assumes "devices d = []"
  shows "backed ops (fold (run_device_op P reg) ops d) \<and> devices_ok (fold (run_device_op P reg) ops d)"
proof (induction ops rule: rev_induct)
  case Nil
  then show ?case using assms by (simp add: backed_def devices_ok_def)
next
  case (snoc x ops)
  obtain rq y where x: "x = (rq, y)" by (cases x)
  show ?case using snoc op_keeps_backed op_keeps_keys by (simp add: x)
qed

text \<open>C12. No device gets an approval that a person did not give: after any sequence of issuing,
  approving, denying and polling, by anyone and at any time, a poll that succeeds does so for its own
  client, before the code expires, with the user of an approval of that very user code.\<close>

theorem device_needs_approval:
  assumes "devices d = []"
    and "pollForApproval P rq code cid (fold (run_device_op P reg) ops d) = (Inr row, d')"
  shows "\<exists>u. dv_user row = Some u \<and> (dv_user_code row, u) \<in> approvals ops
     \<and> dv_client row = cid \<and> dv_code_hash row = p_sha256 P code \<and> rq_now rq \<le> dv_expires row"
proof -
  let ?d = "fold (run_device_op P reg) ops d"
  note b = conjunct1 [OF run_backed [OF assms(1), of ops P reg]]
  from poll_table [of P rq code cid ?d] assms(2) have
    "row \<in> set (devices ?d)" "dv_status row = ''approved''" "dv_client row = cid"
    "dv_code_hash row = p_sha256 P code" "rq_now rq \<le> dv_expires row"
    by (auto elim: poll_table)
  with b show ?thesis unfolding backed_def by blast
qed

text \<open>A poll faster than the interval is told to slow down, is not answered whatever the row's
  status, and has the interval of its row lengthened by five seconds; a denied code
  is refused and an undecided one told to wait, neither of them redeeming the row.\<close>

theorem device_poll_verdicts:
  assumes row: "List.find (\<lambda>r. dv_code_hash r = p_sha256 P code) (devices d) = Some row"
    and "dv_client row = cid" and "rq_now rq \<le> dv_expires row" and uq: "distinct (map dv_id (devices d))"
  shows "(\<forall>t. dv_last_polled row = Some t \<and> rq_now rq - t < dv_interval row * 1000 \<longrightarrow>
        fst (pollForApproval P rq code cid d) = Inl (oauth_error ''slow_down'')
        \<and> row\<lparr>dv_last_polled := Some (rq_now rq), dv_interval := dv_interval row + 5\<rparr>
            \<in> set (devices (snd (pollForApproval P rq code cid d))))
     \<and> (dv_last_polled row = None \<longrightarrow>
        (dv_status row = ''denied'' \<longrightarrow> fst (pollForApproval P rq code cid d) = Inl (oauth_error ''access_denied''))
        \<and> (dv_status row = ''pending'' \<longrightarrow> fst (pollForApproval P rq code cid d) = Inl (oauth_error ''authorization_pending''))
        \<and> (dv_status row \<noteq> ''approved'' \<longrightarrow> length (devices (snd (pollForApproval P rq code cid d))) = length (devices d)))"
proof -
  have m: "row \<in> set (devices d)" using find_SomeD [OF row] by simp
  have up: "f row \<in> set (update_many (\<lambda>r. dv_id r = dv_id row) f (devices d))" for f
    using update_manyI [OF m, of "\<lambda>r. dv_id r = dv_id row" f] by simp
  show ?thesis using assms(1-3) m up by (auto simp: pollForApproval_def Let_def)
qed

definition demo_device :: device_entropy where
  "demo_device = \<lparr>de_code = ''dc'', de_row_id = ''d1'', de_picks = [[0, 1, 2, 3, 4, 5, 6, 7]]\<rparr>"

definition demo_ops :: "(request \<times> device_op) list" where
  "demo_ops = [(demo_rq, Op_Issue demo_device shop None None ''/device''),
     (demo_rq, Op_Approve '' bcdf-ghjk '' ''u1'')]"

lemma demo_poll:
  "ok (fst (pollForApproval P0 demo_rq ''dc'' ''shop'' (fold (run_device_op P0 None) demo_ops demo_db))) \<noteq> None"
  by code_simp

definition demo_poll_input :: poll_request where
  "demo_poll_input = \<lparr>po_request = demo_rq, po_code = ''dc'', po_client = ''shop''\<rparr>"

theorem device_code_redeemed_once_witness:
  "wins (\<lambda>q. p_sha256 P0 (po_code q)) ''s:dc'' [demo_poll_input, demo_poll_input]
     (fst (run_requests (poll_claim P0) [demo_poll_input, demo_poll_input]
        (fold (run_device_op P0 None) demo_ops demo_db))) \<le> 1
   \<and> fst (poll_claim P0 demo_poll_input (fold (run_device_op P0 None) demo_ops demo_db)) \<noteq> None"
proof
  have "devices_ok (fold (run_device_op P0 None) demo_ops demo_db)"
    using run_backed [of demo_db demo_ops P0 None] by (simp add: demo_db_def)
  then show "wins (\<lambda>q. p_sha256 P0 (po_code q)) ''s:dc'' [demo_poll_input, demo_poll_input]
     (fst (run_requests (poll_claim P0) [demo_poll_input, demo_poll_input]
        (fold (run_device_op P0 None) demo_ops demo_db))) \<le> 1"
    unfolding devices_ok_def by (intro device_code_redeemed_once) simp_all
qed (use demo_poll in \<open>simp add: poll_claim_def demo_poll_input_def\<close>)

theorem device_needs_approval_witness:
  "\<exists>row d'. pollForApproval P0 demo_rq ''dc'' ''shop'' (fold (run_device_op P0 None) demo_ops demo_db) = (Inr row, d')
     \<and> (\<exists>u. dv_user row = Some u \<and> (dv_user_code row, u) \<in> approvals demo_ops)"
proof -
  obtain row d' where r: "pollForApproval P0 demo_rq ''dc'' ''shop'' (fold (run_device_op P0 None) demo_ops demo_db) = (Inr row, d')"
    using demo_poll by (cases "pollForApproval P0 demo_rq ''dc'' ''shop'' (fold (run_device_op P0 None) demo_ops demo_db)")
      (auto simp: ok_Some_iff)
  have "devices demo_db = []" by (simp add: demo_db_def)
  from device_needs_approval [OF this r] r show ?thesis by blast
qed

theorem device_poll_verdicts_witness:
  "fst (pollForApproval P0 demo_rq ''dc'' ''shop'' (demo_db\<lparr>devices := [device_row_for P0 demo_rq demo_device shop None None ''BCDF-GHJK'']\<rparr>))
     = Inl (oauth_error ''authorization_pending'')"
proof -
  let ?row = "device_row_for P0 demo_rq demo_device shop None None ''BCDF-GHJK''"
  let ?d = "demo_db\<lparr>devices := [?row]\<rparr>"
  have "List.find (\<lambda>r. dv_code_hash r = p_sha256 P0 ''dc'') (devices ?d) = Some ?row"
    "dv_client ?row = ''shop''" "rq_now demo_rq \<le> dv_expires ?row" "distinct (map dv_id (devices ?d))"
    "dv_last_polled ?row = None" "dv_status ?row = ''pending''"
    by (simp_all add: device_row_for_def demo_device_def demo_prims_def shop_def DEFAULT_TTL_SECONDS_def)
  with device_poll_verdicts [of P0 "''dc''" ?d ?row "''shop''" demo_rq] show ?thesis by blast
qed

end
