(* ===== verification/Refresh_System.thy ===== *)
theory Refresh_System
  imports Device_Flow
begin

text \<open>
  Refreshes as they really interleave: a request reads the presented row, and commits later against
  a table other requests have changed in between.  The system's state is the database, the requests
  in flight with the rows they read, and every row identifier ever drawn; its steps are reads,
  commits, sign-ins and the store operations of the service.  Two results follow by rule induction:
  the chain never forks, and a scope that was closed stays closed until somebody signs in.
\<close>

section \<open>The system\<close>

datatype in_flight =
    Rotating refresh_row user_row string "string option"
  | Replaying refresh_row "user_row option"

fun flight_row :: "in_flight \<Rightarrow> refresh_row" where
  "flight_row (Rotating tk u sc res) = tk"
| "flight_row (Replaying tk u) = tk"

record system =
  sy_db :: db
  sy_flights :: "in_flight list"
  sy_ids :: "string list"

datatype store_op =
    Revoke_Family string string
  | Sign_Out_One string string
  | Sign_Out_All string "string option"
  | Revoke_Value string string
  | Disconnect string string
  | Cleanup

fun run_store :: "issuer_deps \<Rightarrow> request \<Rightarrow> store_op \<Rightarrow> db \<Rightarrow> db" where
  "run_store I rq (Revoke_Family u c) d =
     d\<lparr>refresh_tokens := revoke_family u c (rq_now rq) (refresh_tokens d)\<rparr>"
| "run_store I rq (Sign_Out_One u sid) d = revokeSession rq u sid d"
| "run_store I rq (Sign_Out_All u except) d = revokeAllSessions rq u except d"
| "run_store I rq (Revoke_Value v c) d = revokeToken I rq v c d"
| "run_store I rq (Disconnect u c) d = snd (revoke_consent rq u c d)"
| "run_store I rq Cleanup d = cleanupExpired rq d"

text \<open>What a step shows: an answer to a refresh for a user at a client, a sign-in, or nothing.\<close>

datatype event = Quiet | Answer string string "error + issued_tokens" | Signed_In string string

inductive refresh_step ::
  "issuer_deps \<Rightarrow> string option \<Rightarrow> field_crypto option \<Rightarrow> system \<Rightarrow> event \<Rightarrow> system \<Rightarrow> bool"
  for I reg fco
where
  read_rotate: "read_refresh (grant_of I reg fco) rq v cid client (sy_db s) = Rotate tk u sc res \<Longrightarrow>
     refresh_step I reg fco s Quiet (s\<lparr>sy_flights := Rotating tk u sc res # sy_flights s\<rparr>)"
| read_replay: "read_refresh (grant_of I reg fco) rq v cid client (sy_db s) = Replay tk u \<Longrightarrow>
     refresh_step I reg fco s Quiet (s\<lparr>sy_flights := Replaying tk u # sy_flights s\<rparr>)"
| commit_rotate: "Rotating tk u sc res \<in> set (sy_flights s) \<Longrightarrow> en_row_id en \<notin> set (sy_ids s) \<Longrightarrow>
     rotate (grant_of I reg fco) rq en tk u sc res (sy_db s) = (r, d') \<Longrightarrow>
     refresh_step I reg fco s (Answer (rt_user tk) (rt_client tk) r)
       (s\<lparr>sy_db := d', sy_flights := remove1 (Rotating tk u sc res) (sy_flights s),
          sy_ids := en_row_id en # sy_ids s\<rparr>)"
| commit_replay: "Replaying tk u \<in> set (sy_flights s) \<Longrightarrow>
     replayed (grant_of I reg fco) rq iv tk u (sy_db s) = (r, d') \<Longrightarrow>
     refresh_step I reg fco s (Answer (rt_user tk) (rt_client tk) r)
       (s\<lparr>sy_db := d', sy_flights := remove1 (Replaying tk u) (sy_flights s)\<rparr>)"
| sign_in: "en_row_id en \<notin> set (sy_ids s) \<Longrightarrow> gi_rotated_from inp = None \<Longrightarrow>
     generateTokens I rq en inp None (sy_db s) = (r, d') \<Longrightarrow>
     refresh_step I reg fco s (Signed_In (us_id (gi_user inp)) (gi_client inp))
       (s\<lparr>sy_db := d', sy_ids := en_row_id en # sy_ids s\<rparr>)"
| store: "refresh_step I reg fco s Quiet (s\<lparr>sy_db := run_store I rq x (sy_db s)\<rparr>)"

inductive_cases refresh_stepE: "refresh_step I reg fco s e s'"

inductive refresh_run ::
  "issuer_deps \<Rightarrow> string option \<Rightarrow> field_crypto option \<Rightarrow> system \<Rightarrow> event list \<Rightarrow> system \<Rightarrow> bool"
  for I reg fco
where
  run_nil: "refresh_run I reg fco s [] s"
| run_step: "refresh_run I reg fco s es s1 \<Longrightarrow> refresh_step I reg fco s1 e s2 \<Longrightarrow>
     refresh_run I reg fco s (es @ [e]) s2"

inductive_cases refresh_runE: "refresh_run I reg fco s es s'"

section \<open>The invariant\<close>

text \<open>
  Identifiers in the table, as parents and in flight were all drawn before; a row in flight agrees
  with the row of its identifier on user and client, and a rotation in flight is for its own user.
\<close>

definition flight_ok :: "refresh_row list \<Rightarrow> in_flight \<Rightarrow> bool" where
  "flight_ok t f \<longleftrightarrow>
     (\<forall>p \<in> set t. rt_id p = rt_id (flight_row f) \<longrightarrow>
        rt_user p = rt_user (flight_row f) \<and> rt_client p = rt_client (flight_row f))
     \<and> (case f of Rotating tk u sc res \<Rightarrow> us_id u = rt_user tk | Replaying tk u \<Rightarrow> True)"

definition ids_known :: "string list \<Rightarrow> refresh_row list \<Rightarrow> bool" where
  "ids_known ids t \<longleftrightarrow> (\<forall>r \<in> set t. rt_id r \<in> set ids \<and> (\<forall>i. rt_rotated_from r = Some i \<longrightarrow> i \<in> set ids))"

definition sys_inv :: "system \<Rightarrow> bool" where
  "sys_inv s \<longleftrightarrow> chain_inv (refresh_tokens (sy_db s)) \<and> ids_known (sy_ids s) (refresh_tokens (sy_db s))
     \<and> (\<forall>f \<in> set (sy_flights s). flight_ok (refresh_tokens (sy_db s)) f \<and> rt_id (flight_row f) \<in> set (sy_ids s))"

lemma known_fresh: "ids_known ids t \<Longrightarrow> i \<notin> set ids \<Longrightarrow> fresh_id i t"
  by (auto simp: ids_known_def fresh_id_def)

lemma known_moves: "ids_known ids t \<Longrightarrow> table_moves t t' \<Longrightarrow> ids_known ids t'"
  unfolding ids_known_def
  by (intro ballI) (erule (1) table_movesE, simp add: row_moves_def same_grant_def)

lemma flight_moves: "flight_ok t f \<Longrightarrow> table_moves t t' \<Longrightarrow> flight_ok t' f"
  unfolding flight_ok_def
  by (intro conjI ballI; (erule (1) table_movesE)?) (auto simp: row_moves_def same_grant_def)

lemma sys_invD:
  assumes "sys_inv s"
  shows "chain_inv (refresh_tokens (sy_db s))" "ids_known (sy_ids s) (refresh_tokens (sy_db s))"
    "f \<in> set (sy_flights s) \<Longrightarrow> flight_ok (refresh_tokens (sy_db s)) f"
    "f \<in> set (sy_flights s) \<Longrightarrow> rt_id (flight_row f) \<in> set (sy_ids s)"
  using assms unfolding sys_inv_def by blast+

lemma known_more: "ids_known ids t \<Longrightarrow> set ids \<subseteq> set ids' \<Longrightarrow> ids_known ids' t"
  unfolding ids_known_def by blast

lemma inv_moves:
  assumes inv: "sys_inv s" and mv: "table_moves (refresh_tokens (sy_db s)) (refresh_tokens d')"
    and fs: "set fs \<subseteq> set (sy_flights s)" and ids: "set (sy_ids s) \<subseteq> set ids"
  shows "sys_inv (s\<lparr>sy_db := d', sy_flights := fs, sy_ids := ids\<rparr>)"
proof -
  have "flight_ok (refresh_tokens d') f \<and> rt_id (flight_row f) \<in> set ids" if "f \<in> set fs" for f
    using that fs ids flight_moves [OF sys_invD(3) [OF inv] mv] sys_invD(4) [OF inv] by blast
  then show ?thesis
    using chain_inv_moves [OF sys_invD(1) [OF inv] mv] known_more [OF known_moves [OF sys_invD(2) [OF inv] mv] ids]
    by (simp add: sys_inv_def)
qed

lemma store_narrows: "table_narrows (refresh_tokens d) (refresh_tokens (run_store I rq x d))"
  by (cases x)
     (simp_all add: family.narrows revokeSession_def sign_out.narrows revokeAllSessions_def
        sign_out_all.narrows revokeToken_table rfc7009.narrows revoke_consent_def cleanupExpired_def
        table_narrows_trans [OF narrows_delete_many expiry.narrows])

text \<open>Adding a row with a new identifier whose parent, if any, is known.\<close>

lemma inv_insert:
  assumes inv: "sys_inv s" and mv: "table_moves (refresh_tokens (sy_db s)) t"
    and d': "refresh_tokens d' = t @ [c]" and chain: "chain_inv (t @ [c])"
    and new: "rt_id c \<notin> set (sy_ids s)"
    and par: "\<And>i. rt_rotated_from c = Some i \<Longrightarrow> i \<in> set (sy_ids s)"
    and fs: "set fs \<subseteq> set (sy_flights s)"
  shows "sys_inv (s\<lparr>sy_db := d', sy_flights := fs, sy_ids := rt_id c # sy_ids s\<rparr>)"
proof -
  have "flight_ok (t @ [c]) f \<and> rt_id (flight_row f) \<in> set (sy_ids s)" if "f \<in> set fs" for f
  proof -
    have f: "f \<in> set (sy_flights s)" using that fs by blast
    note k = sys_invD(4) [OF inv f] and o1 = flight_moves [OF sys_invD(3) [OF inv f] mv]
    have "rt_id c \<noteq> rt_id (flight_row f)" using k new by auto
    then show ?thesis using o1 k by (simp add: flight_ok_def)
  qed
  moreover have "ids_known (rt_id c # sy_ids s) (t @ [c])"
    using known_moves [OF sys_invD(2) [OF inv] mv] par by (auto simp: ids_known_def)
  ultimately show ?thesis using chain d' by (simp add: sys_inv_def)
qed

lemma inv_read:
  assumes inv: "sys_inv s" and row: "flight_row f \<in> set (refresh_tokens (sy_db s))"
    and user: "\<And>tk u sc res. f = Rotating tk u sc res \<Longrightarrow> us_id u = rt_user tk"
  shows "sys_inv (s\<lparr>sy_flights := f # sy_flights s\<rparr>)"
proof -
  have "flight_ok (refresh_tokens (sy_db s)) f"
  proof -
    have "p = flight_row f" if "p \<in> set (refresh_tokens (sy_db s))" "rt_id p = rt_id (flight_row f)" for p
      using same_id_same_row [OF sys_invD(1) [OF inv] row] that by blast
    then show ?thesis using user unfolding flight_ok_def by (cases f) auto
  qed
  moreover have "rt_id (flight_row f) \<in> set (sy_ids s)"
    using sys_invD(2) [OF inv] row by (auto simp: ids_known_def)
  ultimately show ?thesis using inv by (simp add: sys_inv_def)
qed

lemma step_keeps_inv:
  assumes "refresh_step I reg fco s e s'" and inv: "sys_inv s"
  shows "sys_inv s'"
  using assms(1)
proof cases
  case (read_rotate rq v cid client tk u sc res)
  from read_rotate(3) have "presented I v (sy_db s) = Some tk \<and> find_user (sy_db s) (rt_user tk) = Some u"
    by (auto elim!: read_cases)
  then show ?thesis unfolding read_rotate(2)
    by (intro inv_read [OF inv]) (auto dest: presentedD find_userD)
next
  case (read_replay rq v cid client tk u)
  from read_replay(3) have "presented I v (sy_db s) = Some tk" by (auto elim!: read_cases)
  then show ?thesis unfolding read_replay(2)
    by (intro inv_read [OF inv]) (auto dest: presentedD)
next
  case (commit_rotate tk u sc res en rq r d')
  note fo = sys_invD(3) [OF inv commit_rotate(3)] and fk = sys_invD(4) [OF inv commit_rotate(3)]
  have own: "rt_user p = rt_user tk \<and> rt_client p = rt_client tk"
    if "p \<in> set (refresh_tokens (sy_db s))" "rt_id p = rt_id tk" for p
    using fo that by (simp add: flight_ok_def)
  have user: "us_id u = rt_user tk" using fo by (simp add: flight_ok_def)
  have rem: "set (remove1 (Rotating tk u sc res) (sy_flights s)) \<subseteq> set (sy_flights s)" by (rule set_remove1_subset)
  have fresh: "fresh_id (en_row_id en) (refresh_tokens (sy_db s))"
    using known_fresh sys_invD(2) [OF inv] commit_rotate(4) by blast
  note chain = issuer.rotate_keeps_chain [OF commit_rotate(5) grant_of_simps(6) sys_invD(1) [OF inv] fresh user own]
  show ?thesis
    using commit_rotate(5) grant_of_simps(6)
  proof (cases rule: issuer.rotate_cases)
    case (rotated it t c)
    have c: "rt_id c = en_row_id en" "rt_rotated_from c = Some (rt_id tk)"
      using rotated(3) by (simp_all add: issued_row_def rotationInput_def)
    have mv: "table_moves (refresh_tokens (sy_db s)) t"
      using claim_moves [OF rotated(2) [unfolded rotation_gate_def]] by simp
    have "sys_inv (s\<lparr>sy_db := d', sy_flights := remove1 (Rotating tk u sc res) (sy_flights s),
        sy_ids := rt_id c # sy_ids s\<rparr>)"
      by (rule inv_insert [OF inv mv rotated(6) _ _ _ rem])
         (use chain rotated(6) c commit_rotate(4) fk in auto)
    then show ?thesis using c by (simp add: commit_rotate(2))
  next
    case lost
    then show ?thesis unfolding commit_rotate(2)
      by (intro inv_moves [OF inv narrows_moves rem]) auto
  qed
next
  case (commit_replay tk u rq iv r d')
  have "sys_inv (s\<lparr>sy_db := d', sy_flights := remove1 (Replaying tk u) (sy_flights s), sy_ids := sy_ids s\<rparr>)"
    by (rule inv_moves [OF inv narrows_moves [OF replayed_narrows [OF commit_replay(4)]] set_remove1_subset]) simp
  then show ?thesis by (simp add: commit_replay(2))
next
  case (sign_in en inp rq r d')
  show ?thesis
  proof (cases r)
    case (Inl e)
    have "refresh_tokens d' = refresh_tokens (sy_db s)"
      using issuer.issue_error sign_in(5) Inl by blast
    then have "sys_inv (s\<lparr>sy_db := d', sy_flights := sy_flights s, sy_ids := en_row_id en # sy_ids s\<rparr>)"
      by (intro inv_moves [OF inv narrows_moves]) auto
    then show ?thesis by (simp add: sign_in(2))
  next
    case (Inr it)
    obtain t c where c: "gated None it (refresh_tokens (sy_db s)) = Inr t"
      "issued_row (p_hmac (is_prims I) (is_secret I)) rq en inp it c" "refresh_tokens d' = t @ [c]"
      using sign_in(5) unfolding Inr by (rule issuer.issue_one_row)
    have t: "t = refresh_tokens (sy_db s)" using c(1) by (simp add: gated_def)
    have cc: "rt_id c = en_row_id en" "rt_rotated_from c = None"
      using c(2) sign_in(4) by (simp_all add: issued_row_def)
    have "chain_inv (t @ [c])"
      by (rule chain_inv_insert)
         (use cc t sys_invD(1) [OF inv] known_fresh [OF sys_invD(2) [OF inv] sign_in(3)] in auto)
    then have "sys_inv (s\<lparr>sy_db := d', sy_flights := sy_flights s, sy_ids := rt_id c # sy_ids s\<rparr>)"
      by (intro inv_insert [OF inv _ c(3)]) (use cc sign_in(3) t in \<open>auto intro: narrows_moves\<close>)
    then show ?thesis using cc by (simp add: sign_in(2))
  qed
next
  case (store rq x)
  have "sys_inv (s\<lparr>sy_db := run_store I rq x (sy_db s), sy_flights := sy_flights s, sy_ids := sy_ids s\<rparr>)"
    by (rule inv_moves [OF inv narrows_moves [OF store_narrows]]) simp_all
  then show ?thesis by (simp add: store(2))
qed

section \<open>A closed scope stays closed\<close>

lemma claim_keeps_closed:
  assumes cl: "claimRotation seal now i rf it t = Inr t'" and ok: "seal_ok seal" and closed: "scope_closed sc t"
  shows "scope_closed sc t'"
proof -
  from cl obtain t1 where t1: "t1 = mark_rotated seal now i it t"
    and t': "t' = (if truthy rf then update_many (keptPairsIn (\<lambda>r. rt_id r = nullish rf '''')) erased_replay t1 else t1)"
    by (rule claim_okE)
  have "rt_revoked r \<and> rt_grace_replay r = None" if r: "r \<in> set t1" "sc (rt_user r) (rt_client r)" for r
  proof -
    from r(1) obtain r0 where r0: "r0 \<in> set t"
      "r = (if live_row i r0 then seal i it (r0\<lparr>rt_revoked := True, rt_revoked_at := Some now\<rparr>) else r0)"
      unfolding t1 by (rule update_manyE)
    have "rt_user r = rt_user r0" "rt_client r = rt_client r0"
      using r0(2) ok by (auto simp: seal_ok_def same_grant_def)
    then have "rt_revoked r0 \<and> rt_grace_replay r0 = None" using closed r0(1) r(2) by (simp add: scope_closed_def)
    then show ?thesis using r0(2) by simp
  qed
  then have "scope_closed sc t1" by (simp add: scope_closed_def)
  then show ?thesis unfolding t' by (simp add: scope_closed_narrow [OF _ narrows_update_many])
qed

lemma closed_row:
  "scope_closed sc t \<Longrightarrow> r \<in> set t \<Longrightarrow> sc (rt_user r) (rt_client r) \<Longrightarrow> rt_revoked r"
  by (simp add: scope_closed_def)

lemma closed_replay:
  assumes "graceReuse D rq iv tk user d = (Kept_Pair it, d')" and "chain_inv (refresh_tokens d)"
    and "scope_closed sc (refresh_tokens d)"
  shows "\<not> sc (rt_user tk) (rt_client tk)"
  using graceReuse_pair(3) [OF assms(1) chain_invD(1) [OF assms(2)]] assms(3)
  by (auto simp: scope_closed_def)

lemma rotate_closed:
  assumes rot: "rotate (grant_of I reg fco) rq en tk user sc res d = (r, d')"
    and inv: "chain_inv (refresh_tokens d)" and closed: "scope_closed S (refresh_tokens d)"
    and own: "\<And>p. p \<in> set (refresh_tokens d) \<Longrightarrow> rt_id p = rt_id tk \<Longrightarrow>
       rt_user p = rt_user tk \<and> rt_client p = rt_client tk"
    and user: "us_id user = rt_user tk"
  shows "scope_closed S (refresh_tokens d')" and "r = Inr it \<Longrightarrow> \<not> S (rt_user tk) (rt_client tk)"
proof -
  let ?g = "Some (rotation_gate (grant_of I reg fco) rq (en_iv en) tk)"
  obtain r1 d1 where i: "generateTokens I rq en (rotationInput tk user sc res) ?g d = (r1, d1)" by fastforce
  have "scope_closed S (refresh_tokens d') \<and> (\<forall>it. r = Inr it \<longrightarrow> \<not> S (rt_user tk) (rt_client tk))"
  proof (cases r1)
    case (Inr it)
    then have rd: "r = Inr it" "d' = d1" using rot i by (simp_all add: rotate_def)
    obtain t c where c: "gated ?g it (refresh_tokens d) = Inr t"
      "issued_row (p_hmac (is_prims I) (is_secret I)) rq en (rotationInput tk user sc res) it c"
      "refresh_tokens d' = t @ [c]"
      using i unfolding Inr rd(2) [symmetric] by (rule issuer.issue_one_row)
    have cl: "claimRotation (sealReplay (is_prims I) fco (graceWindowMs (is_config I)) (rq_now rq) (en_iv en))
        (rq_now rq) (rt_id tk) (rt_rotated_from tk) it (refresh_tokens d) = Inr t"
      using c(1) by (simp add: gated_def rotation_gate_def)
    then obtain p where p: "p \<in> set (refresh_tokens d)" "rt_id p = rt_id tk" "\<not> rt_revoked p" by (rule claim_okE)
    have out: "\<not> S (rt_user tk) (rt_client tk)" using closed_row [OF closed p(1)] own [OF p(1,2)] p(3) by auto
    have "rt_user c = rt_user tk" "rt_client c = rt_client tk"
      using c(2) user by (simp_all add: issued_row_def rotationInput_def)
    then have "scope_closed S (t @ [c])"
      using claim_keeps_closed [OF cl seal_ok_replay closed] out by (auto simp: scope_closed_def)
    then show ?thesis using out c(3) by simp
  next
    case (Inl e)
    have same: "refresh_tokens d1 = refresh_tokens d" using issuer.issue_error [OF i [unfolded Inl]] .
    have n: "\<not> S (rt_user tk) (rt_client tk)" if res: "r = Inr it" for it
    proof -
      from res rot i Inl obtain x d2 where x: "find_refresh_id (refresh_tokens d1) (rt_id tk) = Some x"
        "graceReuse (grant_of I reg fco) rq (en_iv en) x (find_user d1 (rt_user x)) d1 = (Kept_Pair it, d2)"
        by (auto simp: rotate_def split: error.splits option.splits prod.splits grace_outcome.splits)
      have "\<not> S (rt_user x) (rt_client x)"
        using closed_replay [OF x(2)] inv closed same by simp
      then show ?thesis using own [of x] find_refresh_idD [OF x(1)] same by simp
    qed
    have "table_narrows (refresh_tokens d) (refresh_tokens d')"
    proof (cases "\<exists>m x. e = Gate_Refused m \<and> find_refresh_id (refresh_tokens d1) (rt_id tk) = Some x")
      case True
      then obtain m x where mx: "e = Gate_Refused m" "find_refresh_id (refresh_tokens d1) (rt_id tk) = Some x" by blast
      obtain oc d2 where g: "graceReuse (grant_of I reg fco) rq (en_iv en) x (find_user d1 (rt_user x)) d1 = (oc, d2)"
        by fastforce
      have "d' = d2" using rot i Inl mx g by (cases oc) (simp_all add: rotate_def)
      then show ?thesis using graceReuse_narrows [OF g] same by simp
    next
      case False
      then have "d' = d1" using rot i Inl by (auto simp: rotate_def split: error.splits option.splits)
      then show ?thesis using same by simp
    qed
    then show ?thesis using n scope_closed_narrow [OF closed] by blast
  qed
  then show "scope_closed S (refresh_tokens d')" "r = Inr it \<Longrightarrow> \<not> S (rt_user tk) (rt_client tk)" by blast+
qed

text \<open>An event that a closed scope may see.\<close>

definition silent :: "(string \<Rightarrow> string \<Rightarrow> bool) \<Rightarrow> event \<Rightarrow> bool" where
  "silent S e \<longleftrightarrow> (\<forall>u c it. e = Answer u c (Inr it) \<longrightarrow> \<not> S u c)"

definition no_sign_in :: "(string \<Rightarrow> string \<Rightarrow> bool) \<Rightarrow> event \<Rightarrow> bool" where
  "no_sign_in S e \<longleftrightarrow> (\<forall>u c. e = Signed_In u c \<longrightarrow> \<not> S u c)"

lemma step_keeps_closed:
  assumes st: "refresh_step I reg fco s e s'" and inv: "sys_inv s"
    and closed: "scope_closed S (refresh_tokens (sy_db s))" and nosi: "no_sign_in S e"
  shows "scope_closed S (refresh_tokens (sy_db s')) \<and> silent S e"
  using st
proof cases
  case (commit_rotate tk u sc res en rq r d')
  note fo = sys_invD(3) [OF inv commit_rotate(3)]
  have own: "rt_user p = rt_user tk \<and> rt_client p = rt_client tk"
    if "p \<in> set (refresh_tokens (sy_db s))" "rt_id p = rt_id tk" for p
    using fo that by (simp add: flight_ok_def)
  have user: "us_id u = rt_user tk" using fo by (simp add: flight_ok_def)
  note rc = rotate_closed [OF commit_rotate(5) sys_invD(1) [OF inv] closed own user]
  show ?thesis using rc commit_rotate(1,2) by (auto simp: silent_def)
next
  case (commit_replay tk u rq iv r d')
  have "scope_closed S (refresh_tokens d')"
    using scope_closed_narrow [OF closed replayed_narrows [OF commit_replay(4)]] .
  moreover have "\<not> S (rt_user tk) (rt_client tk)" if "r = Inr it" for it
  proof -
    from that commit_replay(4) obtain d1 where "graceReuse (grant_of I reg fco) rq iv tk u (sy_db s) = (Kept_Pair it, d1)"
      by (auto simp: replayed_def Let_def split: prod.splits grace_outcome.splits)
    from closed_replay [OF this sys_invD(1) [OF inv] closed] show ?thesis .
  qed
  ultimately show ?thesis using commit_replay(1,2) by (auto simp: silent_def)
next
  case (sign_in en inp rq r d')
  have out: "\<not> S (us_id (gi_user inp)) (gi_client inp)" using nosi sign_in(1) by (simp add: no_sign_in_def)
  have "scope_closed S (refresh_tokens d')"
  proof (cases r)
    case (Inl e)
    then have "refresh_tokens d' = refresh_tokens (sy_db s)" using issuer.issue_error sign_in(5) by blast
    then show ?thesis using closed by simp
  next
    case (Inr it)
    obtain t c where c: "gated None it (refresh_tokens (sy_db s)) = Inr t"
      "issued_row (p_hmac (is_prims I) (is_secret I)) rq en inp it c" "refresh_tokens d' = t @ [c]"
      using sign_in(5) unfolding Inr by (rule issuer.issue_one_row)
    then show ?thesis using closed out by (auto simp: gated_def issued_row_def scope_closed_def)
  qed
  then show ?thesis using sign_in(1,2) by (simp add: silent_def)
next
  case (store rq x)
  then show ?thesis using scope_closed_narrow [OF closed store_narrows] by (simp add: silent_def)
qed (use closed in \<open>auto simp: silent_def\<close>)

lemma run_keeps_inv: "refresh_run I reg fco s es s' \<Longrightarrow> sys_inv s \<Longrightarrow> sys_inv s'"
  by (induction rule: refresh_run.induct) (auto intro: step_keeps_inv)

text \<open>C1. The chain never forks under any interleaving: whatever requests read whatever rows, and in
  whatever order their commits, sign-ins, sign-outs, revocations, theft verdicts and cleanups take
  effect, identifiers stay unique, a rotated token stays revoked, and no token ever has two
  children.\<close>

theorem interleaved_chain_never_forks:
  assumes "refresh_run I reg fco s es s'" and "sys_inv s"
  shows "chain_inv (refresh_tokens (sy_db s'))"
  using run_keeps_inv [OF assms] by (rule sys_invD(1))

text \<open>C2. No resurrection: once every token of a scope is revoked and keeps no pair, which is what a
  theft verdict, a replayed code, a disconnection and a sign-out everywhere leave behind, no refresh
  of the scope is answered with tokens any more, not even one that had read its row before and
  commits only now, until somebody signs in in that scope; and the scope is still closed then.\<close>

theorem closed_scope_stays_closed:
  assumes "refresh_run I reg fco s es s'" and "sys_inv s"
    and "scope_closed S (refresh_tokens (sy_db s))" and "\<forall>e \<in> set es. no_sign_in S e"
  shows "scope_closed S (refresh_tokens (sy_db s')) \<and> (\<forall>e \<in> set es. silent S e)"
  using assms
proof (induction rule: refresh_run.induct)
  case (run_step s es s1 e s2)
  then have "scope_closed S (refresh_tokens (sy_db s1))" "sys_inv s1" "\<forall>e \<in> set es. silent S e"
    using run_keeps_inv by auto
  then show ?case using step_keeps_closed [OF run_step(2)] run_step(5,6) by auto
qed simp

text \<open>
  The witnesses: a request reads a live token, the family is revoked before it commits, and the
  commit is refused.
\<close>

definition start :: system where
  "start = \<lparr>sy_db = demo_db, sy_flights = [], sy_ids = [''t1'']\<rparr>"

definition flying :: in_flight where
  "flying = Rotating row0 ann ''openid offline_access'' None"

definition revoked_before_commit :: system where
  "revoked_before_commit = start\<lparr>sy_flights := [flying],
     sy_db := run_store demo_issuer demo_rq (Revoke_Family ''u1'' ''shop'') demo_db\<rparr>"

lemma start_inv: "sys_inv start"
  using demo_inv by (simp add: start_def sys_inv_def ids_known_def demo_db_def row0_def)

lemma start_read: "refresh_step demo_issuer None demo_crypto start Quiet (start\<lparr>sy_flights := [flying]\<rparr>)"
proof -
  have "read_refresh (grant_of demo_issuer None demo_crypto) demo_rq ''first'' ''shop'' None demo_db
      = Rotate row0 ann ''openid offline_access'' None"
    by (simp add: read_refresh_def find_refresh_def demo_db_def row0_def demo_issuer_def demo_prims_def
        demo_rq_def refreshBounds_def find_user_def ann_def)
  then have "read_refresh (grant_of demo_issuer None demo_crypto) demo_rq ''first'' ''shop'' None (sy_db start)
      = Rotate row0 ann ''openid offline_access'' None"
    by (simp add: start_def)
  from refresh_step.read_rotate [OF this] show ?thesis by (simp add: flying_def start_def)
qed

lemma start_run: "refresh_run demo_issuer None demo_crypto start [Quiet, Quiet] revoked_before_commit"
proof -
  have "refresh_step demo_issuer None demo_crypto (start\<lparr>sy_flights := [flying]\<rparr>) Quiet revoked_before_commit"
    using refresh_step.store [of demo_issuer None demo_crypto "start\<lparr>sy_flights := [flying]\<rparr>" demo_rq
        "Revoke_Family ''u1'' ''shop''"]
    by (simp add: revoked_before_commit_def start_def)
  with refresh_run.run_step [OF refresh_run.run_step [OF refresh_run.run_nil start_read]] show ?thesis by simp
qed

lemma late_commit:
  "\<exists>r s'. refresh_run demo_issuer None demo_crypto revoked_before_commit [Answer ''u1'' ''shop'' r] s'"
proof -
  obtain r d' where rot: "rotate (grant_of demo_issuer None demo_crypto) demo_rq demo_en row0 ann
      ''openid offline_access'' None (sy_db revoked_before_commit) = (r, d')" by fastforce
  have "Rotating row0 ann ''openid offline_access'' None \<in> set (sy_flights revoked_before_commit)"
    "en_row_id demo_en \<notin> set (sy_ids revoked_before_commit)"
    by (simp_all add: revoked_before_commit_def flying_def start_def demo_en_def)
  from refresh_step.commit_rotate [OF this rot] have
    "\<exists>s'. refresh_step demo_issuer None demo_crypto revoked_before_commit (Answer ''u1'' ''shop'' r) s'"
    by (auto simp: row0_def)
  with refresh_run.run_step [OF refresh_run.run_nil] show ?thesis by fastforce
qed

theorem interleaved_chain_never_forks_witness:
  "chain_inv (refresh_tokens (sy_db revoked_before_commit))"
  by (rule interleaved_chain_never_forks [OF start_run start_inv])

theorem closed_scope_stays_closed_witness:
  "\<exists>r s' e. refresh_run demo_issuer None demo_crypto revoked_before_commit [Answer ''u1'' ''shop'' r] s' \<and> r = Inl e"
proof -
  obtain r s' where run: "refresh_run demo_issuer None demo_crypto revoked_before_commit [Answer ''u1'' ''shop'' r] s'"
    using late_commit by blast
  have inv: "sys_inv revoked_before_commit" by (rule run_keeps_inv [OF start_run start_inv])
  have closed: "scope_closed (family_scope ''u1'' ''shop'') (refresh_tokens (sy_db revoked_before_commit))"
    by (simp add: revoked_before_commit_def family.closes)
  from closed_scope_stays_closed [OF run inv closed] have "silent (family_scope ''u1'' ''shop'') (Answer ''u1'' ''shop'' r)"
    by (simp add: no_sign_in_def)
  then have "\<exists>e. r = Inl e" by (cases r) (auto simp: silent_def family_scope_def)
  then show ?thesis using run by blast
qed

end
