(* ===== verification/IP_Address.thy ===== *)
theory IP_Address
  imports Prelude "HOL-Library.Word"
begin

text \<open>
  IP addresses as Node reads them: the textual forms \<open>net.isIP\<close> accepts (zone identifiers aside) and
  \<open>net.BlockList\<close>.  An address is a 128-bit word, an IPv4 address the word of its IPv4-mapped form,
  which is how a block list matches the two families against each other; a subnet is a word and the
  number of leading bits that must agree.
\<close>

section \<open>Text\<close>

definition hex_digit :: "char \<Rightarrow> int option" where
  "hex_digit c = (let n = int (of_char c) in
     if 48 \<le> n \<and> n \<le> 57 then Some (n - 48)
     else if 97 \<le> n \<and> n \<le> 102 then Some (n - 87)
     else if 65 \<le> n \<and> n \<le> 70 then Some (n - 55) else None)"

fun hex_value :: "string \<Rightarrow> int \<Rightarrow> int option" where
  "hex_value [] acc = Some acc"
| "hex_value (c # cs) acc = (case hex_digit c of None \<Rightarrow> None | Some d \<Rightarrow> hex_value cs (16 * acc + d))"

definition hex_group :: "string \<Rightarrow> int option" where
  "hex_group s = (if 1 \<le> length s \<and> length s \<le> 4 then hex_value s 0 else None)"

text \<open>A decimal octet without a leading zero.\<close>

definition octet :: "string \<Rightarrow> int option" where
  "octet s =
     (if s = [] \<or> 3 < length s \<or> \<not> list_all is_digit s \<or> (1 < length s \<and> hd s = CHR ''0'') then None
      else (let v = digits_value s 0 in if v \<le> 255 then Some v else None))"

fun all_some :: "'a option list \<Rightarrow> 'a list option" where
  "all_some [] = Some []"
| "all_some (None # xs) = None"
| "all_some (Some x # xs) = map_option ((#) x) (all_some xs)"

definition v4_octets :: "string \<Rightarrow> int list option" where
  "v4_octets s =
     (case all_some (map octet (split_char CHR ''.'' s)) of
        Some os \<Rightarrow> if length os = 4 then Some os else None
      | None \<Rightarrow> None)"

definition be_value :: "int \<Rightarrow> int list \<Rightarrow> int" where
  "be_value base ds = foldl (\<lambda>a d. a * base + d) 0 ds"

definition v4_groups :: "string \<Rightarrow> int list option" where
  "v4_groups s = map_option (\<lambda>os. [be_value 256 (take 2 os), be_value 256 (drop 2 os)]) (v4_octets s)"

text \<open>The groups between two colons-colons; a dotted tail only where \<open>tail_ok\<close>.\<close>

definition v6_side :: "bool \<Rightarrow> string \<Rightarrow> int list option" where
  "v6_side tail_ok s =
     (if s = [] then Some []
      else (let ps = split_char CHR '':'' s; l = last ps
            in if tail_ok \<and> CHR ''.'' \<in> set l
               then (case (all_some (map hex_group (butlast ps)), v4_groups l) of
                       (Some gs, Some ts) \<Rightarrow> Some (gs @ ts) | _ \<Rightarrow> None)
               else all_some (map hex_group ps)))"

text \<open>The text before and after the first \<open>::\<close>.\<close>

fun cut_dcolon :: "string \<Rightarrow> (string \<times> string) option" where
  "cut_dcolon (a # b # cs) =
     (if a = CHR '':'' \<and> b = CHR '':'' then Some ([], cs)
      else map_option (\<lambda>(l, r). (a # l, r)) (cut_dcolon (b # cs)))"
| "cut_dcolon cs = None"

definition v6_groups :: "string \<Rightarrow> int list option" where
  "v6_groups s =
     (case cut_dcolon s of
        None \<Rightarrow> (case v6_side True s of
                   Some gs \<Rightarrow> if length gs = 8 then Some gs else None | None \<Rightarrow> None)
      | Some (l, r) \<Rightarrow>
          (case (v6_side False l, v6_side True r) of
             (Some gl, Some gr) \<Rightarrow>
               if length gl + length gr \<le> 7
               then Some (gl @ replicate (8 - length gl - length gr) 0 @ gr) else None
           | _ \<Rightarrow> None))"

section \<open>Addresses\<close>

datatype ip_addr = Ip4 "128 word" | Ip6 "128 word"

definition addr_of :: "ip_addr \<Rightarrow> 128 word" where
  "addr_of a = (case a of Ip4 w \<Rightarrow> w | Ip6 w \<Rightarrow> w)"

definition mapped :: "int \<Rightarrow> 128 word" where
  "mapped v = 0xFFFF00000000 + of_int v"

text \<open>\<open>net.isIP\<close> with the address it found: \<open>None\<close> where it answers 0.\<close>

definition parse_ip :: "string \<Rightarrow> ip_addr option" where
  "parse_ip s =
     (case v4_octets s of
        Some os \<Rightarrow> Some (Ip4 (mapped (be_value 256 os)))
      | None \<Rightarrow> map_option (\<lambda>gs. Ip6 (of_int (be_value 65536 gs))) (v6_groups s))"

definition is_ip :: "string \<Rightarrow> nat" where
  "is_ip s = (case parse_ip s of None \<Rightarrow> 0 | Some (Ip4 _) \<Rightarrow> 4 | Some (Ip6 _) \<Rightarrow> 6)"

section \<open>Block lists\<close>

record subnet =
  sn_addr :: "128 word"
  sn_bits :: nat

text \<open>\<open>addSubnet\<close>; an IPv4 prefix length counts from bit 96 of the mapped form.\<close>

definition subnet_of :: "string \<times> nat \<Rightarrow> subnet list" where
  "subnet_of sp =
     (case parse_ip (fst sp) of
        None \<Rightarrow> []
      | Some (Ip4 w) \<Rightarrow> [\<lparr>sn_addr = w, sn_bits = 96 + snd sp\<rparr>]
      | Some (Ip6 w) \<Rightarrow> [\<lparr>sn_addr = w, sn_bits = snd sp\<rparr>])"

definition in_subnet :: "128 word \<Rightarrow> subnet \<Rightarrow> bool" where
  "in_subnet a n \<longleftrightarrow> drop_bit (128 - sn_bits n) a = drop_bit (128 - sn_bits n) (sn_addr n)"

definition bl_check :: "subnet list \<Rightarrow> ip_addr \<Rightarrow> bool" where
  "bl_check ns a \<longleftrightarrow> list_ex (in_subnet (addr_of a)) ns"

lemma in_subnet_self [simp]: "in_subnet (sn_addr n) n"
  by (simp add: in_subnet_def)

lemma bl_check_append: "bl_check (xs @ ys) a \<longleftrightarrow> bl_check xs a \<or> bl_check ys a"
  by (simp add: bl_check_def)

lemma bl_check_iff: "bl_check ns a \<longleftrightarrow> (\<exists>n \<in> set ns. in_subnet (addr_of a) n)"
  by (simp add: bl_check_def list_ex_iff)

text \<open>A longer prefix is contained in a shorter one that agrees with it.\<close>

lemma in_subnet_mono:
  assumes "in_subnet a n" and "in_subnet (sn_addr n) m" and "sn_bits m \<le> sn_bits n"
  shows "in_subnet a m"
proof -
  define k j where "k = 128 - sn_bits n" and "j = sn_bits n - sn_bits m"
  have "128 - sn_bits m = k + j \<or> (128 - sn_bits m \<le> j \<and> k = 0)"
    using assms(3) by (auto simp: k_def j_def)
  then show ?thesis
  proof
    assume s: "128 - sn_bits m = k + j"
    have "drop_bit j (drop_bit k a) = drop_bit j (drop_bit k (sn_addr n))"
      using assms(1) by (simp only: in_subnet_def k_def)
    then show ?thesis using assms(2) by (simp add: in_subnet_def s add.commute)
  next
    assume "128 - sn_bits m \<le> j \<and> k = 0"
    then have "a = sn_addr n" using assms(1) by (simp add: in_subnet_def k_def)
    then show ?thesis using assms(2) by simp
  qed
qed

end
