(* ===== verification/Client_Ip.thy ===== *)
theory Client_Ip
  imports IP_Address
begin

text \<open>
  \<open>src/common/client-ip.ts\<close>: the address a request is from, which every rate limit and audit row
  keys on.  The walk goes from the socket leftwards through \<open>X-Forwarded-For\<close>, past the hops that
  are our own proxies or a Cloudflare edge, and stops at the first that is not.  A header is the list
  of its values (a repeated header has several).  \<open>Number\<close> on a prefix length is modelled on blank
  strings and decimal digits; other notations are read as not an integer.
\<close>

section \<open>The trusted networks\<close>

definition PRIVATE_V4 :: "(string \<times> nat) list" where
  "PRIVATE_V4 = [(''10.0.0.0'', 8), (''172.16.0.0'', 12), (''192.168.0.0'', 16), (''127.0.0.0'', 8),
     (''169.254.0.0'', 16)]"

definition PRIVATE_V6 :: "(string \<times> nat) list" where
  "PRIVATE_V6 = [(''::1'', 128), (''fc00::'', 7), (''fe80::'', 10)]"

definition CLOUDFLARE_DEFAULT :: "string list" where
  "CLOUDFLARE_DEFAULT =
     [''173.245.48.0/20'', ''103.21.244.0/22'', ''103.22.200.0/22'', ''103.31.4.0/22'',
      ''141.101.64.0/18'', ''108.162.192.0/18'', ''190.93.240.0/20'', ''188.114.96.0/20'',
      ''197.234.240.0/22'', ''198.41.128.0/17'', ''162.158.0.0/15'', ''104.16.0.0/13'',
      ''104.24.0.0/14'', ''172.64.0.0/13'', ''131.0.72.0/22'', ''2400:cb00::/32'', ''2606:4700::/32'',
      ''2803:f800::/32'', ''2405:b500::/32'', ''2405:8100::/32'', ''2a06:98c0::/29'', ''2c0f:f248::/32'']"

definition js_prefix :: "string option \<Rightarrow> nat option" where
  "js_prefix bits =
     (case bits of None \<Rightarrow> None
      | Some b \<Rightarrow> if list_all is_digit (trim b) then Some (nat (digits_value (trim b) 0)) else None)"

text \<open>\<open>addCidr\<close>: the subnets added; \<open>Inl\<close> where \<open>addSubnet\<close> throws on the prefix length.\<close>

definition addCidr :: "string \<Rightarrow> error + subnet list" where
  "addCidr cidr =
     (let ps = split_char CHR ''/'' (trim cidr); net = hd ps;
          family = is_ip net; bits = js_prefix (if 1 < length ps then Some (ps ! 1) else None)
      in case bits of
           None \<Rightarrow> Inr []
         | Some p \<Rightarrow> if family = 0 then Inr []
                     else if (if family = 6 then 128 else 32) < p then Inl (Server_Error ''out of range'')
                     else Inr (subnet_of (net, p)))"

fun add_cidrs :: "string list \<Rightarrow> error + subnet list" where
  "add_cidrs [] = Inr []"
| "add_cidrs (c # cs) =
     (case addCidr c of Inl e \<Rightarrow> Inl e
      | Inr ns \<Rightarrow> (case add_cidrs cs of Inl e \<Rightarrow> Inl e | Inr ms \<Rightarrow> Inr (ns @ ms)))"

definition nonblank_parts :: "string \<Rightarrow> string list" where
  "nonblank_parts s = filter (\<lambda>p. p \<noteq> []) (split_char CHR '','' s)"

definition buildPrivate :: "string \<Rightarrow> error + subnet list" where
  "buildPrivate extra =
     (case add_cidrs (nonblank_parts extra) of
        Inl e \<Rightarrow> Inl e
      | Inr ns \<Rightarrow> Inr (concat (map subnet_of PRIVATE_V4) @ concat (map subnet_of PRIVATE_V6) @ ns))"

definition buildCloudflare :: "string \<Rightarrow> error + subnet list" where
  "buildCloudflare override =
     add_cidrs (if trim override \<noteq> [] then nonblank_parts override else CLOUDFLARE_DEFAULT)"

section \<open>The walk\<close>

definition strip_bracketed :: "string \<Rightarrow> string" where
  "strip_bracketed s =
     (case s of c # cs \<Rightarrow>
        if c = CHR ''['' \<and> CHR '']'' \<in> set s then takeWhile (\<lambda>x. x \<noteq> CHR '']'') cs else s
      | [] \<Rightarrow> [])"

definition mapped_v4 :: "string \<Rightarrow> string option" where
  "mapped_v4 s =
     (let rest = drop 7 s; ps = split_char CHR ''.'' rest
      in if prefix ''::ffff:'' (lower s) \<and> length ps = 4 \<and> list_all (\<lambda>p. p \<noteq> [] \<and> list_all is_digit p) ps
         then Some rest else None)"

definition normalizeIp :: "string option \<Rightarrow> string option" where
  "normalizeIp raw =
     (if \<not> truthy raw then None
      else (let a = strip_bracketed (trim (nullish raw '''')); ip = nullish (mapped_v4 a) a
            in if is_ip ip \<noteq> 0 then Some ip else None))"

definition bl_has :: "subnet list \<Rightarrow> string \<Rightarrow> bool" where
  "bl_has ns s = (case parse_ip s of None \<Rightarrow> False | Some a \<Rightarrow> bl_check ns a)"

record ip_networks =
  nw_ours :: "subnet list"
  nw_cloudflare :: "subnet list"

record client_ip_input =
  cp_socket :: "string option"
  cp_forwarded :: "string list option"
  cp_cf :: "string list option"

fun walk :: "ip_networks \<Rightarrow> string option \<Rightarrow> string list \<Rightarrow> string \<Rightarrow> string" where
  "walk N cf [] current =
     (if bl_has (nw_cloudflare N) current \<and> cf \<noteq> None then nullish cf '''' else current)"
| "walk N cf (h # hops) current =
     (if bl_has (nw_cloudflare N) current \<and> cf \<noteq> None then nullish cf ''''
      else if \<not> bl_has (nw_cloudflare N) current \<and> \<not> bl_has (nw_ours N) current then current
      else (case normalizeIp (Some h) of None \<Rightarrow> current | Some nxt \<Rightarrow> walk N cf hops nxt))"

definition forwarded_hops :: "string \<Rightarrow> string list" where
  "forwarded_hops s = rev (filter (\<lambda>h. h \<noteq> []) (map trim (split_char CHR '','' s)))"

definition header_cf :: "string list option \<Rightarrow> string option" where
  "header_cf h = normalizeIp (case h of Some (x # _) \<Rightarrow> Some x | _ \<Rightarrow> None)"

definition resolve_ip :: "ip_networks \<Rightarrow> client_ip_input \<Rightarrow> string" where
  "resolve_ip N i =
     (case normalizeIp (cp_socket i) of
        None \<Rightarrow> ''unknown''
      | Some socket \<Rightarrow>
          walk N (header_cf (cp_cf i)) (forwarded_hops (join_with '','' (nullish (cp_forwarded i) []))) socket)"

definition createClientIpResolver :: "string option \<Rightarrow> string option \<Rightarrow> error + ip_networks" where
  "createClientIpResolver trustedProxies cloudflareIps =
     (case buildPrivate (nullish trustedProxies '''') of
        Inl e \<Rightarrow> Inl e
      | Inr ours \<Rightarrow>
          (case buildCloudflare (nullish cloudflareIps '''') of
             Inl e \<Rightarrow> Inl e
           | Inr cf \<Rightarrow> Inr \<lparr>nw_ours = ours, nw_cloudflare = cf\<rparr>))"

section \<open>The reference: the first hop that nobody we trust vouches for\<close>

text \<open>The hops the walk can see: the socket and the header from the right, up to the first that is
  no address.\<close>

fun known_hops :: "string list \<Rightarrow> string list" where
  "known_hops [] = []"
| "known_hops (h # hs) = (case normalizeIp (Some h) of None \<Rightarrow> [] | Some a \<Rightarrow> a # known_hops hs)"

definition stops :: "ip_networks \<Rightarrow> string option \<Rightarrow> string \<Rightarrow> bool" where
  "stops N cf a \<longleftrightarrow> (if bl_has (nw_cloudflare N) a then cf \<noteq> None else \<not> bl_has (nw_ours N) a)"

definition first_untrusted :: "ip_networks \<Rightarrow> string option \<Rightarrow> string list \<Rightarrow> string" where
  "first_untrusted N cf path =
     (case List.find (stops N cf) path of
        Some a \<Rightarrow> if bl_has (nw_cloudflare N) a then nullish cf '''' else a
      | None \<Rightarrow> last path)"

lemma known_hops_append:
  "\<exists>ys. known_hops (xs @ zs) = known_hops xs @ ys"
  by (induction xs) (auto split: option.splits)

lemma walk_reference: "walk N cf hops a = first_untrusted N cf (a # known_hops hops)"
  by (induction hops arbitrary: a) (auto simp: first_untrusted_def stops_def split: option.splits)

lemma find_first_append:
  "list_ex P xs \<Longrightarrow> List.find P (xs @ ys) = List.find P xs"
  by (induction xs) auto

lemma known_hops_stop:
  "list_ex P (known_hops xs) \<Longrightarrow> List.find P (known_hops (xs @ zs)) = List.find P (known_hops xs)"
  using known_hops_append [of xs zs] find_first_append [of P "known_hops xs"] by fastforce

lemma walk_ignores_left:
  assumes "list_ex (stops N cf) (a # known_hops real)"
  shows "walk N cf (real @ forged) a = walk N cf real a"
proof (cases "stops N cf a")
  case True
  then show ?thesis by (simp add: walk_reference first_untrusted_def)
next
  case False
  with assms have r: "list_ex (stops N cf) (known_hops real)" by simp
  then have "List.find (stops N cf) (known_hops real) \<noteq> None"
    by (auto simp: find_None_iff list_ex_iff)
  with known_hops_stop [OF r, of forged] False show ?thesis
    by (auto simp: walk_reference first_untrusted_def split: option.split)
qed

lemma split_char_append: "split_char d (a @ d # r) = split_char d a @ split_char d r"
  unfolding split_char_def by (induction a) (auto split: list.splits)

lemma forwarded_hops_append: "forwarded_hops (a @ CHR '','' # r) = forwarded_hops r @ forwarded_hops a"
  by (simp add: forwarded_hops_def split_char_append)


text \<open>The client address is the first hop that nobody we trust vouches for: reading the socket and
  then \<open>X-Forwarded-For\<close> from the right up to the first entry that is no address, it is the first one
  outside our proxies and the Cloudflare edges, or what Cloudflare says at the first edge when it
  says something, or the last of them when all are trusted.\<close>

theorem client_ip_first_untrusted:
  "resolve_ip N i =
     (case normalizeIp (cp_socket i) of
        None \<Rightarrow> ''unknown''
      | Some socket \<Rightarrow> first_untrusted N (header_cf (cp_cf i))
          (socket # known_hops (forwarded_hops (join_with '','' (nullish (cp_forwarded i) [])))))"
  by (simp add: resolve_ip_def walk_reference split: option.split)

text \<open>A caller cannot choose its address: once the hops our own proxies appended contain an
  untrusted one, or a Cloudflare edge that names the client, whatever the caller wrote into
  \<open>X-Forwarded-For\<close> before them is never looked at.\<close>

theorem forged_forwarding_ignored:
  assumes "normalizeIp socket = Some a"
    and "list_ex (stops N (header_cf cf)) (a # known_hops (forwarded_hops real))"
  shows "resolve_ip N \<lparr>cp_socket = socket, cp_forwarded = Some [forged @ '','' @ real], cp_cf = cf\<rparr>
       = resolve_ip N \<lparr>cp_socket = socket, cp_forwarded = Some [real], cp_cf = cf\<rparr>"
proof -
  have "walk N (header_cf cf) (forwarded_hops real @ forwarded_hops forged) a
      = walk N (header_cf cf) (forwarded_hops real) a"
    by (rule walk_ignores_left) (fact assms(2))
  then show ?thesis
    using assms(1) by (simp add: resolve_ip_def forwarded_hops_append)
qed

text \<open>The witness: behind the docker bridge, with the default networks.\<close>

definition demo_networks :: ip_networks where
  "demo_networks = \<lparr>nw_ours = concat (map subnet_of PRIVATE_V4), nw_cloudflare = subnet_of (''104.16.0.0'', 13)\<rparr>"

theorem forged_forwarding_ignored_witness:
  "resolve_ip demo_networks \<lparr>cp_socket = Some ''172.18.0.2'', cp_forwarded = Some [''9.9.9.9,8.8.8.8''],
      cp_cf = None\<rparr> = ''8.8.8.8''"
proof -
  have n: "normalizeIp (Some ''172.18.0.2'') = Some ''172.18.0.2''" by code_simp
  have s: "list_ex (stops demo_networks (header_cf None)) (''172.18.0.2'' # known_hops (forwarded_hops ''8.8.8.8''))"
    by code_simp
  have "resolve_ip demo_networks \<lparr>cp_socket = Some ''172.18.0.2'', cp_forwarded = Some [''8.8.8.8''],
      cp_cf = None\<rparr> = ''8.8.8.8''" by code_simp
  with forged_forwarding_ignored [OF n s, of "''9.9.9.9''"] show ?thesis by simp
qed

end
