(* ===== verification/M2M.thy ===== *)
theory M2M
  imports Wallet_Grant Samples
begin

text \<open>
  \<open>src/oauth/oauth-m2m.service.ts\<close> with \<open>requestedAudience\<close> of \<open>src/oauth/token-support.ts\<close> and the
  key selection of \<open>src/common/jwks.service.ts\<close>: the machine-to-machine token (RFC 6749 section 4.4)
  and the token exchange (RFC 8693).  A verified token is the claims object \<open>JwtService.verify\<close>
  returns, with arrays of strings under \<open>scopes\<close>, as the service signs them.
\<close>

section \<open>Verification keys\<close>

text \<open>\<open>trimmed.replace(/\n/g, newline)\<close> on the two characters backslash and n.\<close>

fun unescape_nl :: "string \<Rightarrow> string" where
  "unescape_nl (a # b # cs) =
     (if a = CHR 0x5C \<and> b = CHR ''n'' then CHR 0x0A # unescape_nl cs else a # unescape_nl (b # cs))"
| "unescape_nl cs = cs"

function chunks_of :: "nat \<Rightarrow> string \<Rightarrow> string list" where
  "chunks_of n s = (if s = [] \<or> n = 0 then [] else take n s # chunks_of n (drop n s))"
  by auto
termination by (relation "measure (\<lambda>(n, s). length s)") auto

declare chunks_of.simps [simp del]

definition normalizePem :: "string \<Rightarrow> string \<Rightarrow> string" where
  "normalizePem pem label =
     (let trimmed = unescape_nl (trim pem); nl = [CHR 0x0A]
      in if is_infix ''-----BEGIN'' trimmed then trimmed
         else ''-----BEGIN '' @ label @ ''-----'' @ nl
              @ join_with nl (chunks_of 64 (filter (\<lambda>c. \<not> is_ws c) trimmed))
              @ nl @ ''-----END '' @ label @ ''-----'')"

record key_entry =
  ke_kid :: string
  ke_pem :: string
  ke_role :: string

definition loadEntries :: "config \<Rightarrow> key_entry list" where
  "loadEntries cf =
     (let spec = (\<lambda>role pem kid dflt.
            if truthy (cf_env cf pem)
            then [\<lparr>ke_kid = nullish (cf_env cf kid) dflt, ke_pem = nullish (cf_env cf pem) '''',
                   ke_role = role\<rparr>]
            else [])
      in spec ''active'' ''JWT_PUBLIC_KEY'' ''JWT_ACTIVE_KID'' ''auth-rs256-key-1''
         @ spec ''next'' ''JWT_PUBLIC_KEY_NEXT'' ''JWT_KID_NEXT'' ''auth-rs256-key-2''
         @ spec ''prev'' ''JWT_PUBLIC_KEY_PREV'' ''JWT_KID_PREV'' ''auth-rs256-key-0'')"

definition isRs256Enabled :: "config \<Rightarrow> bool" where
  "isRs256Enabled cf \<longleftrightarrow> truthy (cf_env cf ''JWT_PRIVATE_KEY'') \<and> truthy (cf_env cf ''JWT_PUBLIC_KEY'')"

definition active_key :: "config \<Rightarrow> string option" where
  "active_key cf =
     map_option (\<lambda>e. normalizePem (ke_pem e) ''PUBLIC KEY'')
       (List.find (\<lambda>e. ke_role e = ''active'') (loadEntries cf))"

text \<open>\<open>kid\<close> is the key id in the token's header, \<open>None\<close> where the header does not decode.\<close>

definition verificationKeyForToken :: "config \<Rightarrow> string option \<Rightarrow> string option" where
  "verificationKeyForToken cf kid =
     (if truthy kid
      then (case List.find (\<lambda>e. Some (ke_kid e) = kid) (loadEntries cf) of
              Some e \<Rightarrow> Some (normalizePem (ke_pem e) ''PUBLIC KEY'')
            | None \<Rightarrow> active_key cf)
      else active_key cf)"

section \<open>The service's dependencies\<close>

text \<open>
  \<open>md_verify key token\<close> is \<open>JwtService.verify\<close> with the public key when one is given (\<open>None\<close>: the
  module's own secret), \<open>None\<close> where it throws; \<open>md_kid\<close> the key id of the token's header.
\<close>

record m2m_deps =
  md_prims :: prims
  md_config :: config
  md_registry :: "string option"
  md_verify :: "string option \<Rightarrow> string \<Rightarrow> json option"
  md_kid :: "string \<Rightarrow> string option"

record client_credentials_input =
  cc_client :: client_row
  cc_scope :: "string option"
  cc_audience :: "string option"
  cc_jkt :: "string option"
  cc_cert :: "string option"

record exchange_token_input =
  xi_client :: client_row
  xi_subject :: string
  xi_subject_type :: string
  xi_actor :: "string option"
  xi_scope :: "string option"
  xi_resource :: "string option"
  xi_audience :: "string option"

record m2m_answer =
  mr_access_token :: string
  mr_expires_in :: int
  mr_scope :: string
  mr_audience :: string
  mr_token_type :: string

definition TOKEN_TYPE_ACCESS :: string where
  "TOKEN_TYPE_ACCESS = ''urn:ietf:params:oauth:token-type:access_token''"

definition TOKEN_TYPE_JWT :: string where
  "TOKEN_TYPE_JWT = ''urn:ietf:params:oauth:token-type:jwt''"

section \<open>Scopes and audiences\<close>

definition resolveClientCredentialsScopes :: "client_row \<Rightarrow> string option \<Rightarrow> error + string list" where
  "resolveClientCredentialsScopes client requestedScope =
     (let requested = words_of (nullish requestedScope ''''); allowed = cl_allowed_scopes client;
          granted = (if requested = [] then allowed else filter (\<lambda>s. s \<in> set allowed) requested)
      in if 0 < length requested \<and> length granted \<noteq> length requested
         then Inl (Bad_Request (Msg (''Scope(s) not allowed for this client: ''
                 @ join_with '', '' (filter (\<lambda>s. s \<notin> set allowed) requested))))
         else if granted = []
         then Inl (Bad_Request (Msg ''No scopes available for this client_credentials grant''))
         else Inr granted)"

definition claimScopes :: "json \<Rightarrow> string list" where
  "claimScopes claims =
     (case jget claims ''scopes'' of
        Some (JArr xs) \<Rightarrow> strings_of xs
      | _ \<Rightarrow> (case jstr (jget claims ''scope'') of Some s \<Rightarrow> words_of s | None \<Rightarrow> []))"

definition resolveExchangeScopes :: "string option \<Rightarrow> string list \<Rightarrow> string list \<Rightarrow> error + string list" where
  "resolveExchangeScopes requested subjectScopes clientAllowed =
     (let ceiling = (if 0 < length clientAllowed
                     then filter (\<lambda>s. s \<in> set clientAllowed) subjectScopes else subjectScopes);
          req = words_of (nullish requested '''');
          denied = filter (\<lambda>s. s \<notin> set ceiling) req
      in if req = []
         then (if ceiling = [] then Inl (Bad_Request (Msg ''No scopes available for token exchange''))
               else Inr ceiling)
         else if denied \<noteq> []
         then Inl (Bad_Request (Msg (''Requested scope exceeds the subject token: '' @ join_with '', '' denied)))
         else Inr req)"

definition resolveExchangeAudience :: "m2m_deps \<Rightarrow> client_row \<Rightarrow> string option \<Rightarrow> error + string" where
  "resolveExchangeAudience M client audience =
     (let allowedAud = cl_allowed_audiences client; a = nullish audience ''''
      in if truthy audience
         then (if 0 < length allowedAud \<and> a \<notin> set allowedAud
               then Inl (Bad_Request (Msg (''Audience \"'' @ a @ ''\" is not allowed for this client'')))
               else if allowedAud = [] \<and> isDynamicClientId (Some (cl_client_id client))
                       \<and> \<not> isRegisteredResource (p_parse_url (md_prims M)) (md_registry M) a
               then Inl (Bad_Request (Msg (''Audience \"'' @ a @ ''\" is not a registered INITE resource'')))
               else Inr a)
         else Inr (case allowedAud of x # _ \<Rightarrow> x | [] \<Rightarrow> cl_client_id client))"

text \<open>
  The audience a client_credentials request asks for: a parameter as parsed from the body, where a
  repeated one is an array.
\<close>

definition first_value :: "json option \<Rightarrow> string option" where
  "first_value raw =
     (let value = (case raw of Some (JArr []) \<Rightarrow> None | Some (JArr (x # _)) \<Rightarrow> Some x | v \<Rightarrow> v)
      in (case jstr value of
            Some s \<Rightarrow> if trim s \<noteq> [] then Some (trim s) else None
          | None \<Rightarrow> None))"

definition requestedAudience :: "json option \<Rightarrow> json option \<Rightarrow> string list \<Rightarrow> string option" where
  "requestedAudience audience resource allowedAudiences =
     (case first_value audience of
        Some a \<Rightarrow> Some a
      | None \<Rightarrow>
          (case first_value resource of
             None \<Rightarrow> None
           | Some r \<Rightarrow> if allowedAudiences = [] \<or> r \<in> set allowedAudiences then Some r else None))"


section \<open>client_credentials\<close>

definition m2m_ttl :: "config \<Rightarrow> int" where
  "m2m_ttl cf = expiry_seconds (setting_value cf ''JWT_M2M_ACCESS_TOKEN_EXPIRY'' ''5m'') 300"

definition m2m_subject :: "m2m_deps \<Rightarrow> client_row \<Rightarrow> error + string" where
  "m2m_subject M client =
     (if isSelfAgent client
      then (case agentDid (md_prims M) (jwt_issuer (md_config M)) (cl_client_id client) of
              None \<Rightarrow> Inl (Server_Error ''Invalid URL'') | Some did \<Rightarrow> Inr did)
      else Inr (nullish (cl_company client) (cl_client_id client)))"

definition cnf_members :: "string option \<Rightarrow> string option \<Rightarrow> (string \<times> json) list" where
  "cnf_members jkt cert =
     (let cnf = opt_member ''jkt'' jkt @ opt_member ''x5t#S256'' cert
      in if cnf = [] then [] else [(''cnf'', JObj cnf)])"

definition client_credentials_claims :: "client_credentials_input \<Rightarrow> string \<Rightarrow> string list \<Rightarrow> json" where
  "client_credentials_claims i sub granted =
     mk_obj ([(''sub'', JStr sub), (''client_id'', JStr (cl_client_id (cc_client i))),
              (''scopes'', JArr (map JStr granted)), (''scope'', JStr (join_sp granted))]
             @ custom_members (sanitizeCustomClaims (cl_custom_claims (cc_client i)))
             @ cnf_members (cc_jkt i) (cc_cert i))"

definition m2m_sign_options :: "m2m_deps \<Rightarrow> string \<Rightarrow> sign_options" where
  "m2m_sign_options M aud =
     \<lparr>so_expires_in = m2m_ttl (md_config M), so_audience = aud, so_issuer = jwt_issuer (md_config M)\<rparr>"

definition issueClientCredentialsToken :: "m2m_deps \<Rightarrow> client_credentials_input \<Rightarrow> error + m2m_answer" where
  "issueClientCredentialsToken M i =
     (case resolveClientCredentialsScopes (cc_client i) (cc_scope i) of
        Inl e \<Rightarrow> Inl e
      | Inr granted \<Rightarrow>
          (case resolveExchangeAudience M (cc_client i) (cc_audience i) of
             Inl e \<Rightarrow> Inl e
           | Inr aud \<Rightarrow>
               (case m2m_subject M (cc_client i) of
                  Inl e \<Rightarrow> Inl e
                | Inr sub \<Rightarrow>
                    Inr \<lparr>mr_access_token = p_sign (md_prims M) (client_credentials_claims i sub granted)
                                              (m2m_sign_options M aud),
                         mr_expires_in = m2m_ttl (md_config M), mr_scope = join_sp granted,
                         mr_audience = aud,
                         mr_token_type = (if truthy (cc_jkt i) then ''DPoP'' else ''Bearer'')\<rparr>)))"

section \<open>Token exchange\<close>

definition verifyExchangeToken :: "m2m_deps \<Rightarrow> string \<Rightarrow> error + json" where
  "verifyExchangeToken M token =
     (let key = (if isRs256Enabled (md_config M)
                 then verificationKeyForToken (md_config M) (md_kid M token) else None)
      in case md_verify M key token of
           None \<Rightarrow> Inl (Bad_Request (Msg ''subject_token or actor_token is invalid or expired''))
         | Some claims \<Rightarrow> Inr claims)"

definition carried_member :: "json \<Rightarrow> string \<Rightarrow> (string \<times> json) list" where
  "carried_member claims k = (case jget claims k of None \<Rightarrow> [] | Some v \<Rightarrow> [(k, v)])"

definition subjectIdentityClaims :: "json \<Rightarrow> (string \<times> json) list" where
  "subjectIdentityClaims subject =
     concat (map (carried_member subject) [''org'', ''org_id'', ''roles''])"

definition subjectMcpAuthorizationDetails :: "json \<Rightarrow> json list" where
  "subjectMcpAuthorizationDetails subject =
     filter (\<lambda>d. jget d ''type'' = Some (JStr MCP_AUTHORIZATION_DETAILS_TYPE))
       (nullish (jarr (jget subject ''authorization_details'')) [])"

definition exchange_act :: "m2m_deps \<Rightarrow> exchange_token_input \<Rightarrow> error + json" where
  "exchange_act M i =
     (if truthy (xi_actor i)
      then (case verifyExchangeToken M (nullish (xi_actor i) '''') of
              Inl e \<Rightarrow> Inl e
            | Inr actor \<Rightarrow> Inr (mk_obj (carried_member actor ''sub''
                             @ [(''client_id'', JStr (cl_client_id (xi_client i)))])))
      else Inr (mk_obj [(''sub'', JStr (cl_client_id (xi_client i)))]))"

definition exchange_claims :: "exchange_token_input \<Rightarrow> json \<Rightarrow> json \<Rightarrow> string list \<Rightarrow> json" where
  "exchange_claims i subject act granted =
     mk_obj (carried_member subject ''sub''
       @ [(''client_id'', JStr (cl_client_id (xi_client i))), (''act'', act),
          (''scopes'', JArr (map JStr granted)), (''scope'', JStr (join_sp granted))]
       @ subjectIdentityClaims subject
       @ custom_members (sanitizeCustomClaims (cl_custom_claims (xi_client i)))
       @ (let mcp = subjectMcpAuthorizationDetails subject
          in if mcp \<noteq> [] then [(''authorization_details'', JArr mcp)] else []))"

record exchange_answer =
  xr_access_token :: string
  xr_expires_in :: int
  xr_scope :: string
  xr_issued_token_type :: string

definition exchangeToken :: "m2m_deps \<Rightarrow> exchange_token_input \<Rightarrow> error + exchange_answer" where
  "exchangeToken M i =
     (if xi_subject_type i \<noteq> TOKEN_TYPE_ACCESS \<and> xi_subject_type i \<noteq> TOKEN_TYPE_JWT
      then Inl (Bad_Request (Msg ''Unsupported subject_token_type''))
      else case verifyExchangeToken M (xi_subject i) of
        Inl e \<Rightarrow> Inl e
      | Inr subject \<Rightarrow>
          (case resolveExchangeScopes (xi_scope i) (claimScopes subject)
                  (cl_allowed_scopes (xi_client i)) of
             Inl e \<Rightarrow> Inl e
           | Inr granted \<Rightarrow>
               (case resolveExchangeAudience M (xi_client i)
                       (if xi_resource i \<noteq> None then xi_resource i else xi_audience i) of
                  Inl e \<Rightarrow> Inl e
                | Inr aud \<Rightarrow>
                    (case exchange_act M i of
                       Inl e \<Rightarrow> Inl e
                     | Inr act \<Rightarrow>
                         Inr \<lparr>xr_access_token = p_sign (md_prims M)
                                (exchange_claims i subject act granted) (m2m_sign_options M aud),
                              xr_expires_in = m2m_ttl (md_config M), xr_scope = join_sp granted,
                              xr_issued_token_type = TOKEN_TYPE_ACCESS\<rparr>))))"


section \<open>Lemmas\<close>

lemma jget_app_left:
  "k \<notin> fst ` set ys \<Longrightarrow> jget (mk_obj (xs @ ys)) k = jget (mk_obj xs) k"
  by (simp add: jget_mk_obj map_add_def map_of_eq_None_iff [THEN iffD2])

lemma jget_app_right:
  "k \<notin> fst ` set xs \<Longrightarrow> jget (mk_obj (xs @ ys)) k = jget (mk_obj ys) k"
  by (simp add: jget_mk_obj map_add_def map_of_eq_None_iff [THEN iffD2] split: option.split)

lemma jget_carried [simp]: "jget (mk_obj (carried_member c k)) k = jget c k"
  by (simp add: carried_member_def jget_mk_obj split: option.split)

lemma carried_keys: "fst ` set (carried_member c k) \<subseteq> {k}"
  by (cases "jget c k") (simp_all add: carried_member_def)

lemma identity_keys: "fst ` set (subjectIdentityClaims c) \<subseteq> {''org'', ''org_id'', ''roles''}"
  using carried_keys [of c "''org''"] carried_keys [of c "''org_id''"] carried_keys [of c "''roles''"]
  by (auto simp: subjectIdentityClaims_def)

lemma sanitized_keys: "fst ` set (custom_members (sanitizeCustomClaims raw)) \<subseteq> {''policy'', ''packs''}"
  using sanitize_keys [of raw] by (simp add: custom_member_keys ALLOWED_CLAIM_KEYS_def)

lemma cnf_keys: "fst ` set (cnf_members jkt cert) \<subseteq> {''cnf''}"
  by (simp add: cnf_members_def Let_def)

text \<open>What an exchanged token says about the subject, the actor and the client.\<close>

lemma exchange_claims_sub: "jget (exchange_claims i subject act granted) ''sub'' = jget subject ''sub''"
proof -
  have "jget (exchange_claims i subject act granted) ''sub''
      = jget (mk_obj (carried_member subject ''sub'')) ''sub''"
    unfolding exchange_claims_def
    by (rule jget_app_left)
       (use identity_keys [of subject] sanitized_keys [of "cl_custom_claims (xi_client i)"]
        in \<open>auto simp: Let_def\<close>)
  then show ?thesis by simp
qed

lemma exchange_claims_named:
  assumes "k \<in> {''client_id'', ''act'', ''scopes'', ''scope''}"
  shows "jget (exchange_claims i subject act granted) k =
     map_of [(''client_id'', JStr (cl_client_id (xi_client i))), (''act'', act),
             (''scopes'', JArr (map JStr granted)), (''scope'', JStr (join_sp granted))] k"
proof -
  have "k \<notin> fst ` set (carried_member subject ''sub'')"
    using assms carried_keys [of subject "''sub''"] by auto
  then have "jget (exchange_claims i subject act granted) k
      = jget (mk_obj ([(''client_id'', JStr (cl_client_id (xi_client i))), (''act'', act),
             (''scopes'', JArr (map JStr granted)), (''scope'', JStr (join_sp granted))]
       @ (subjectIdentityClaims subject
       @ custom_members (sanitizeCustomClaims (cl_custom_claims (xi_client i)))
       @ (let mcp = subjectMcpAuthorizationDetails subject
          in if mcp \<noteq> [] then [(''authorization_details'', JArr mcp)] else [])))) k"
    unfolding exchange_claims_def by (subst jget_app_right) simp_all
  also have "\<dots> = jget (mk_obj [(''client_id'', JStr (cl_client_id (xi_client i))), (''act'', act),
             (''scopes'', JArr (map JStr granted)), (''scope'', JStr (join_sp granted))]) k"
    by (rule jget_app_left)
       (use assms identity_keys [of subject] sanitized_keys [of "cl_custom_claims (xi_client i)"]
        in \<open>auto simp: Let_def\<close>)
  also have "\<dots> = map_of [(''client_id'', JStr (cl_client_id (xi_client i))), (''act'', act),
             (''scopes'', JArr (map JStr granted)), (''scope'', JStr (join_sp granted))] k"
    using assms by (auto simp: jget_mk_obj)
  finally show ?thesis .
qed

lemma jget_identity:
  "k \<in> {''org'', ''org_id'', ''roles''} \<Longrightarrow> jget (mk_obj (subjectIdentityClaims c)) k = jget c k"
  by (auto simp: subjectIdentityClaims_def jget_mk_obj carried_member_def split: option.split)

lemma exchange_claims_identity:
  assumes k: "k \<in> {''org'', ''org_id'', ''roles''}"
  shows "jget (exchange_claims i subject act granted) k = jget subject k"
proof -
  let ?pre = "carried_member subject ''sub''
       @ [(''client_id'', JStr (cl_client_id (xi_client i))), (''act'', act),
          (''scopes'', JArr (map JStr granted)), (''scope'', JStr (join_sp granted))]"
  let ?post = "custom_members (sanitizeCustomClaims (cl_custom_claims (xi_client i)))
       @ (let mcp = subjectMcpAuthorizationDetails subject
          in if mcp \<noteq> [] then [(''authorization_details'', JArr mcp)] else [])"
  have "jget (exchange_claims i subject act granted) k
      = jget (mk_obj (?pre @ (subjectIdentityClaims subject @ ?post))) k"
    by (simp add: exchange_claims_def)
  also have "\<dots> = jget (mk_obj (subjectIdentityClaims subject @ ?post)) k"
    by (rule jget_app_right) (use k carried_keys [of subject "''sub''"] in auto)
  also have "\<dots> = jget (mk_obj (subjectIdentityClaims subject)) k"
    by (rule jget_app_left)
       (use k sanitized_keys [of "cl_custom_claims (xi_client i)"] in \<open>auto simp: Let_def\<close>)
  finally show ?thesis using jget_identity [OF k] by simp
qed


lemma exchange_scopes_narrow:
  assumes "resolveExchangeScopes req subj allowed = Inr g"
  shows "set g \<subseteq> set subj \<and> (allowed \<noteq> [] \<longrightarrow> set g \<subseteq> set allowed) \<and> g \<noteq> []"
  using assms by (auto simp: resolveExchangeScopes_def Let_def filter_empty_conv split: if_splits)

lemma exchange_audience_bound:
  assumes "resolveExchangeAudience M c a = Inr aud"
  shows "aud \<in> set (cl_allowed_audiences c)
    \<or> (cl_allowed_audiences c = [] \<and> (aud = cl_client_id c \<or>
         (a = Some aud \<and> (isDynamicClientId (Some (cl_client_id c)) \<longrightarrow>
            isRegisteredResource (p_parse_url (md_prims M)) (md_registry M) aud))))"
  using assms
  by (cases a; cases "cl_allowed_audiences c")
     (auto simp: resolveExchangeAudience_def Let_def split: if_splits)

lemma client_credentials_scopes:
  assumes "resolveClientCredentialsScopes c req = Inr g"
  shows "set g \<subseteq> set (cl_allowed_scopes c) \<and> g \<noteq> []
    \<and> g = (if words_of (nullish req '''') = [] then cl_allowed_scopes c else words_of (nullish req ''''))"
proof -
  let ?r = "words_of (nullish req '''')" and ?p = "\<lambda>s. s \<in> set (cl_allowed_scopes c)"
  show ?thesis
  proof (cases "?r = []")
    case True
    then show ?thesis using assms
      by (auto simp: resolveClientCredentialsScopes_def Let_def split: if_splits)
  next
    case False
    with assms have g: "length (filter ?p ?r) = length ?r" "g = filter ?p ?r"
      by (simp_all add: resolveClientCredentialsScopes_def Let_def split: if_splits)
    then have "\<forall>s \<in> set ?r. ?p s" by (metis length_filter_less less_irrefl)
    with g(2) have "g = ?r" by simp
    then show ?thesis using False \<open>\<forall>s \<in> set ?r. ?p s\<close> by auto
  qed
qed

lemma credentials_claims_named:
  assumes "k \<in> {''sub'', ''client_id'', ''scopes'', ''scope''}"
  shows "jget (client_credentials_claims i sub granted) k =
    map_of [(''sub'', JStr sub), (''client_id'', JStr (cl_client_id (cc_client i))),
            (''scopes'', JArr (map JStr granted)), (''scope'', JStr (join_sp granted))] k"
proof -
  have "jget (client_credentials_claims i sub granted) k =
    jget (mk_obj [(''sub'', JStr sub), (''client_id'', JStr (cl_client_id (cc_client i))),
            (''scopes'', JArr (map JStr granted)), (''scope'', JStr (join_sp granted))]) k"
    unfolding client_credentials_claims_def
    by (rule jget_app_left)
       (use assms sanitized_keys [of "cl_custom_claims (cc_client i)"] cnf_keys [of "cc_jkt i" "cc_cert i"]
        in auto)
  then show ?thesis using assms by (auto simp: jget_mk_obj)
qed

lemma credentials_claims_cnf:
  "jget (client_credentials_claims i sub granted) ''cnf'' =
     map_of (cnf_members (cc_jkt i) (cc_cert i)) ''cnf''"
proof -
  have "jget (client_credentials_claims i sub granted) ''cnf''
      = jget (mk_obj (cnf_members (cc_jkt i) (cc_cert i))) ''cnf''"
    unfolding client_credentials_claims_def append_assoc [symmetric]
    by (rule jget_app_right) (use sanitized_keys [of "cl_custom_claims (cc_client i)"] in auto)
  then show ?thesis by (simp add: jget_mk_obj cnf_members_def Let_def)
qed

text \<open>The key a token is verified with: the published key it names, or the module's own secret (\<open>None\<close>).\<close>

definition verify_key :: "m2m_deps \<Rightarrow> string \<Rightarrow> string option" where
  "verify_key M t = (if isRs256Enabled (md_config M) then verificationKeyForToken (md_config M) (md_kid M t) else None)"

lemma verified_by: "verifyExchangeToken M t = Inr claims \<longleftrightarrow> md_verify M (verify_key M t) t = Some claims"
  by (simp add: verifyExchangeToken_def verify_key_def Let_def split: option.split)

text \<open>C13. Token exchange only narrows.  A token is issued only for a subject token the service's own
  keys verify; the scopes it is signed with and answered with, never none, are scopes of the subject token and of the client's allow-list
  if it has one; the subject, organization and roles it names are exactly the subject token's, whatever
  the client's custom claims say; it names the exchanging client, and as actor that client, or, when an actor token
  was sent, the subject of that token, which the service's keys verified too, acting through that client; and its audience is in the client's allow-list, or, for a client
  without one, the client itself or what was asked for, a registered resource for a self-registered
  client.\<close>

theorem exchange_narrows:
  assumes "exchangeToken M i = Inr r"
  shows "\<exists>subject granted act aud.
     verifyExchangeToken M (xi_subject i) = Inr subject
   \<and> xr_access_token r = p_sign (md_prims M) (exchange_claims i subject act granted) (m2m_sign_options M aud)
   \<and> xr_scope r = join_sp granted \<and> granted \<noteq> [] \<and> set granted \<subseteq> set (claimScopes subject)
   \<and> (cl_allowed_scopes (xi_client i) \<noteq> [] \<longrightarrow> set granted \<subseteq> set (cl_allowed_scopes (xi_client i)))
   \<and> (\<forall>k \<in> {''sub'', ''org'', ''org_id'', ''roles''}.
        jget (exchange_claims i subject act granted) k = jget subject k)
   \<and> jget (exchange_claims i subject act granted) ''client_id'' = Some (JStr (cl_client_id (xi_client i)))
   \<and> jget (exchange_claims i subject act granted) ''act'' = Some act
   \<and> jget (exchange_claims i subject act granted) ''scope'' = Some (JStr (join_sp granted))
   \<and> jget (exchange_claims i subject act granted) ''scopes'' = Some (JArr (map JStr granted))
   \<and> md_verify M (verify_key M (xi_subject i)) (xi_subject i) = Some subject
   \<and> (if truthy (xi_actor i)
      then \<exists>t actor. xi_actor i = Some t \<and> md_verify M (verify_key M t) t = Some actor
        \<and> jget act ''sub'' = jget actor ''sub'' \<and> jget act ''client_id'' = Some (JStr (cl_client_id (xi_client i)))
      else jget act ''sub'' = Some (JStr (cl_client_id (xi_client i))) \<and> jget act ''client_id'' = None)
   \<and> (aud \<in> set (cl_allowed_audiences (xi_client i))
      \<or> (cl_allowed_audiences (xi_client i) = []
         \<and> (aud = cl_client_id (xi_client i)
            \<or> (aud \<in> set_option (xi_resource i) \<union> set_option (xi_audience i)
               \<and> (isDynamicClientId (Some (cl_client_id (xi_client i))) \<longrightarrow>
                    isRegisteredResource (p_parse_url (md_prims M)) (md_registry M) aud)))))"
proof -
  let ?a = "if xi_resource i \<noteq> None then xi_resource i else xi_audience i"
  from assms obtain subject granted act aud where
    s: "verifyExchangeToken M (xi_subject i) = Inr subject"
    and g: "resolveExchangeScopes (xi_scope i) (claimScopes subject)
              (cl_allowed_scopes (xi_client i)) = Inr granted"
    and a: "resolveExchangeAudience M (xi_client i) ?a = Inr aud"
    and act: "exchange_act M i = Inr act"
    and r: "xr_access_token r = p_sign (md_prims M) (exchange_claims i subject act granted)
              (m2m_sign_options M aud)" "xr_scope r = join_sp granted"
    by (auto simp: exchangeToken_def split: if_splits sum.splits)
  have actor: "if truthy (xi_actor i)
      then \<exists>t actor. xi_actor i = Some t \<and> md_verify M (verify_key M t) t = Some actor
        \<and> jget act ''sub'' = jget actor ''sub'' \<and> jget act ''client_id'' = Some (JStr (cl_client_id (xi_client i)))
      else jget act ''sub'' = Some (JStr (cl_client_id (xi_client i))) \<and> jget act ''client_id'' = None"
    using act by (auto simp: exchange_act_def verified_by carried_member_def jget_mk_obj
        split: if_splits sum.splits option.splits elim!: truthyE)
  have "?a = Some aud \<Longrightarrow> aud \<in> set_option (xi_resource i) \<union> set_option (xi_audience i)"
    by (auto split: if_splits)
  then have aud: "aud \<in> set (cl_allowed_audiences (xi_client i))
      \<or> (cl_allowed_audiences (xi_client i) = []
         \<and> (aud = cl_client_id (xi_client i)
            \<or> (aud \<in> set_option (xi_resource i) \<union> set_option (xi_audience i)
               \<and> (isDynamicClientId (Some (cl_client_id (xi_client i))) \<longrightarrow>
                    isRegisteredResource (p_parse_url (md_prims M)) (md_registry M) aud))))"
    using exchange_audience_bound [OF a] by blast
  have claims: "\<forall>k \<in> {''sub'', ''org'', ''org_id'', ''roles''}.
        jget (exchange_claims i subject act granted) k = jget subject k"
    by (simp add: exchange_claims_sub exchange_claims_identity)
  have named: "jget (exchange_claims i subject act granted) ''client_id'' = Some (JStr (cl_client_id (xi_client i)))"
    "jget (exchange_claims i subject act granted) ''act'' = Some act"
    "jget (exchange_claims i subject act granted) ''scope'' = Some (JStr (join_sp granted))"
    "jget (exchange_claims i subject act granted) ''scopes'' = Some (JArr (map JStr granted))"
    by (simp_all add: exchange_claims_named)
  from exchange_scopes_narrow [OF g] have sc: "granted \<noteq> []" "set granted \<subseteq> set (claimScopes subject)"
    "cl_allowed_scopes (xi_client i) \<noteq> [] \<longrightarrow> set granted \<subseteq> set (cl_allowed_scopes (xi_client i))" by blast+
  show ?thesis
    by (intro exI [of _ subject] exI [of _ granted] exI [of _ act] exI [of _ aud] conjI)
       (fact s s [unfolded verified_by] r sc claims named actor aud)+
qed


definition demo_m2m :: m2m_deps where
  "demo_m2m = \<lparr>md_prims = P0, md_config = demo_config, md_registry = None,
     md_verify = (\<lambda>key t. if t = ''ann-token''
        then Some (JObj [(''sub'', JStr ''did:web:ann''), (''scope'', JStr ''openid brain:read''),
                         (''org'', JStr ''acme'')]) else None),
     md_kid = (\<lambda>_. None)\<rparr>"

definition demo_m2m_exchange :: exchange_token_input where
  "demo_m2m_exchange = \<lparr>xi_client = shop\<lparr>cl_allowed_scopes := [''brain:read'', ''brain:write'']\<rparr>,
     xi_subject = ''ann-token'', xi_subject_type = TOKEN_TYPE_ACCESS, xi_actor = None,
     xi_scope = Some ''brain:read'', xi_resource = None, xi_audience = None\<rparr>"

theorem exchange_narrows_witness:
  "\<exists>(r :: exchange_answer) subject granted. exchangeToken demo_m2m demo_m2m_exchange = Inr r
     \<and> verifyExchangeToken demo_m2m ''ann-token'' = Inr subject
     \<and> xr_scope r = join_sp granted \<and> set granted \<subseteq> set (claimScopes subject)"
proof -
  have "map_option xr_scope (ok (exchangeToken demo_m2m demo_m2m_exchange)) = Some ''brain:read''"
    by code_simp
  then obtain r :: exchange_answer where r: "exchangeToken demo_m2m demo_m2m_exchange = Inr r"
    by (auto simp: ok_Some_iff)
  have "xi_subject demo_m2m_exchange = ''ann-token''" by (simp add: demo_m2m_exchange_def)
  with exchange_narrows [OF r] r show ?thesis by auto
qed

text \<open>The client_credentials grant gives a client only what it was provisioned with: the scopes
  are its own allowed scopes, all of them for an empty request and exactly the requested ones
  otherwise; the subject is never a person but the agent's DID, the client's tenant or the client; the
  audience is bounded as in an exchange; the confirmation claim carries exactly the proof key and the
  certificate presented; and the token is announced as sender-constrained exactly when a proof was.\<close>

theorem client_credentials_bounded:
  assumes "issueClientCredentialsToken M i = Inr r"
  shows "\<exists>sub granted aud.
     mr_access_token r = p_sign (md_prims M) (client_credentials_claims i sub granted) (m2m_sign_options M aud)
   \<and> mr_scope r = join_sp granted \<and> granted \<noteq> [] \<and> set granted \<subseteq> set (cl_allowed_scopes (cc_client i))
   \<and> (words_of (nullish (cc_scope i) '''') \<noteq> [] \<longrightarrow> granted = words_of (nullish (cc_scope i) ''''))
   \<and> (words_of (nullish (cc_scope i) '''') = [] \<longrightarrow> granted = cl_allowed_scopes (cc_client i))
   \<and> jget (client_credentials_claims i sub granted) ''sub'' = Some (JStr sub)
   \<and> (isSelfAgent (cc_client i) \<longrightarrow>
        agentDid (md_prims M) (jwt_issuer (md_config M)) (cl_client_id (cc_client i)) = Some sub)
   \<and> (\<not> isSelfAgent (cc_client i) \<longrightarrow> sub = nullish (cl_company (cc_client i)) (cl_client_id (cc_client i)))
   \<and> (aud \<in> set (cl_allowed_audiences (cc_client i))
      \<or> (cl_allowed_audiences (cc_client i) = []
         \<and> (aud = cl_client_id (cc_client i) \<or> cc_audience i = Some aud)))
   \<and> mr_audience r = aud
   \<and> (jget (client_credentials_claims i sub granted) ''cnf'' = None
        \<longleftrightarrow> \<not> truthy (cc_jkt i) \<and> \<not> truthy (cc_cert i))
   \<and> (mr_token_type r = ''DPoP'' \<longleftrightarrow> truthy (cc_jkt i))"
proof -
  from assms obtain granted aud sub where
    g: "resolveClientCredentialsScopes (cc_client i) (cc_scope i) = Inr granted"
    and a: "resolveExchangeAudience M (cc_client i) (cc_audience i) = Inr aud"
    and s: "m2m_subject M (cc_client i) = Inr sub"
    and r: "mr_access_token r = p_sign (md_prims M) (client_credentials_claims i sub granted)
              (m2m_sign_options M aud)" "mr_scope r = join_sp granted" "mr_audience r = aud"
      "mr_token_type r = (if truthy (cc_jkt i) then ''DPoP'' else ''Bearer'')"
    by (auto simp: issueClientCredentialsToken_def split: sum.splits)
  have sub: "isSelfAgent (cc_client i) \<longrightarrow>
        agentDid (md_prims M) (jwt_issuer (md_config M)) (cl_client_id (cc_client i)) = Some sub"
    "\<not> isSelfAgent (cc_client i) \<longrightarrow> sub = nullish (cl_company (cc_client i)) (cl_client_id (cc_client i))"
    using s by (auto simp: m2m_subject_def split: if_splits option.splits)
  have cnf: "jget (client_credentials_claims i sub granted) ''cnf'' = None
      \<longleftrightarrow> \<not> truthy (cc_jkt i) \<and> \<not> truthy (cc_cert i)"
    by (auto simp: credentials_claims_cnf cnf_members_def opt_member_def)
  have aud: "aud \<in> set (cl_allowed_audiences (cc_client i))
      \<or> (cl_allowed_audiences (cc_client i) = [] \<and> (aud = cl_client_id (cc_client i) \<or> cc_audience i = Some aud))"
    using exchange_audience_bound [OF a] by blast
  have named: "jget (client_credentials_claims i sub granted) ''sub'' = Some (JStr sub)"
    by (simp add: credentials_claims_named)
  from client_credentials_scopes [OF g]
  have scopes: "granted \<noteq> []" "set granted \<subseteq> set (cl_allowed_scopes (cc_client i))"
    "words_of (nullish (cc_scope i) '''') \<noteq> [] \<longrightarrow> granted = words_of (nullish (cc_scope i) '''')"
    "words_of (nullish (cc_scope i) '''') = [] \<longrightarrow> granted = cl_allowed_scopes (cc_client i)"
    by argo+
  have dpop: "mr_token_type r = ''DPoP'' \<longleftrightarrow> truthy (cc_jkt i)"
    unfolding r(4) by simp
  show ?thesis
    by (intro exI [of _ sub] exI [of _ granted] exI [of _ aud] conjI)
       (fact r sub cnf scopes aud named dpop)+
qed

theorem client_credentials_bounded_witness:
  "\<exists>(r :: m2m_answer) granted. issueClientCredentialsToken demo_m2m
       \<lparr>cc_client = shop, cc_scope = None, cc_audience = None, cc_jkt = None, cc_cert = None\<rparr> = Inr r
     \<and> mr_scope r = join_sp granted \<and> granted = [''offline_access'']"
proof -
  let ?i = "\<lparr>cc_client = shop, cc_scope = None, cc_audience = None, cc_jkt = None, cc_cert = None\<rparr>"
  have "map_option mr_scope (ok (issueClientCredentialsToken demo_m2m ?i)) = Some ''offline_access''"
    by code_simp
  then obtain r :: m2m_answer where r: "issueClientCredentialsToken demo_m2m ?i = Inr r"
    by (auto simp: ok_Some_iff)
  with client_credentials_bounded [OF r] show ?thesis by (auto simp: shop_def)
qed

end
