(* ===== verification/Demo_Grant.thy ===== *)
theory Demo_Grant
  imports M2M Consent
begin

text \<open>
  \<open>src/oauth/demo-grant.ts\<close>, \<open>demo-grant.service.ts\<close> and the personas of
  \<open>src/organizations/demo-tenant.ts\<close>: a read-only token of a demo persona for a product's backend.
  What the person holds in the credential tables (passkeys, federated identities, wallets), which the
  model does not keep, is an argument.
\<close>

section \<open>Personas and scopes\<close>

record demo_persona =
  pn_key :: string
  pn_email :: string
  pn_name :: string
  pn_org_role :: string

definition DEMO_PERSONAS :: "demo_persona list" where
  "DEMO_PERSONAS =
     [\<lparr>pn_key = ''owner'', pn_email = ''ana@demo.invalid'', pn_name = ''Ana Demo'', pn_org_role = ''owner''\<rparr>,
      \<lparr>pn_key = ''manager'', pn_email = ''bruno@demo.invalid'', pn_name = ''Bruno Demo'', pn_org_role = ''admin''\<rparr>,
      \<lparr>pn_key = ''staff'', pn_email = ''carla@demo.invalid'', pn_name = ''Carla Demo'', pn_org_role = ''member''\<rparr>]"

definition isDemoPersonaEmail :: "string option \<Rightarrow> bool" where
  "isDemoPersonaEmail email \<longleftrightarrow>
     truthy email \<and> list_ex (\<lambda>p. pn_email p = lower (nullish email '''')) DEMO_PERSONAS"

definition TOKEN_EXCHANGE_GRANT :: string where
  "TOKEN_EXCHANGE_GRANT = ''urn:ietf:params:oauth:grant-type:token-exchange''"

definition DEMO_SUBJECT_TOKEN_TYPE :: string where
  "DEMO_SUBJECT_TOKEN_TYPE = ''urn:inite:params:oauth:token-type:demo-persona''"

definition DEMO_ISSUED_TOKEN_TYPE :: string where
  "DEMO_ISSUED_TOKEN_TYPE = ''urn:ietf:params:oauth:token-type:access_token''"

definition DEMO_TOKEN_TTL_SECONDS :: int where "DEMO_TOKEN_TTL_SECONDS = 2 * 60 * 60"

definition isDemoGrantRequest :: "string option \<Rightarrow> string option \<Rightarrow> bool" where
  "isDemoGrantRequest grantType subjectTokenType \<longleftrightarrow>
     grantType = Some TOKEN_EXCHANGE_GRANT \<and> subjectTokenType = Some DEMO_SUBJECT_TOKEN_TYPE"

definition demoPersonaFor :: "string option \<Rightarrow> demo_persona option" where
  "demoPersonaFor subjectToken =
     (case subjectToken of
        None \<Rightarrow> None
      | Some t \<Rightarrow> if prefix ''demo:'' t then List.find (\<lambda>p. pn_key p = drop 5 t) DEMO_PERSONAS else None)"

definition scope_start :: "char \<Rightarrow> bool" where
  "scope_start c = (let n = of_char c :: nat in 97 \<le> n \<and> n \<le> 122)"

definition scope_rest :: "char \<Rightarrow> bool" where
  "scope_rest c \<longleftrightarrow> scope_start c \<or> is_digit c \<or> c = CHR ''_''"

definition product_of :: "string \<Rightarrow> string" where
  "product_of clientId =
     map (\<lambda>c. if c = CHR ''-'' then CHR ''_'' else c)
       (if prefix ''inite-'' clientId then drop 6 clientId else clientId)"

definition demoScopes :: "string \<Rightarrow> string list option" where
  "demoScopes clientId =
     (case product_of clientId of
        [] \<Rightarrow> None
      | c # cs \<Rightarrow> if scope_start c \<and> list_all scope_rest cs
                 then Some [''openid'', ''profile'', (c # cs) @ '':read''] else None)"

section \<open>The grant\<close>

definition demoInvalidGrant :: error where
  "demoInvalidGrant = Bad_Request (OAuth ''invalid_grant'' None)"

definition demoUnauthorizedClient :: error where
  "demoUnauthorizedClient = Bad_Request (OAuth ''unauthorized_client'' None)"

record credentials =
  cd_passkeys :: nat
  cd_identities :: nat
  cd_wallets :: nat

definition isDemoMarked :: "json option \<Rightarrow> bool" where
  "isDemoMarked metadata \<longleftrightarrow> jget (nullish metadata JNull) ''isDemo'' = Some (JBool True)"

definition isCredentiallessPersona :: "user_row \<Rightarrow> credentials \<Rightarrow> demo_persona \<Rightarrow> bool" where
  "isCredentiallessPersona user cd persona \<longleftrightarrow>
     \<not> truthy (us_password_hash user) \<and> cd_passkeys cd + cd_identities cd + cd_wallets cd = 0
     \<and> isDemoMarked (us_metadata user)
     \<and> jget (nullish (us_metadata user) JNull) ''persona'' = Some (JStr (pn_key persona))"

definition assertAllowed ::
  "config \<Rightarrow> client_row \<Rightarrow> demo_persona option \<Rightarrow> error + demo_persona \<times> string list"
where
  "assertAllowed cf c persona =
     (if \<not> setting_flag cf ''DEMO_GRANT_ENABLED'' then Inl demoInvalidGrant
      else if \<not> isFirstParty c \<or> cl_is_public c \<or> cl_auth_method c = ''none'' then Inl demoUnauthorizedClient
      else (case demoScopes (cl_client_id c) of
              None \<Rightarrow> Inl demoUnauthorizedClient
            | Some scopes \<Rightarrow>
                (case persona of None \<Rightarrow> Inl demoInvalidGrant | Some p \<Rightarrow> Inr (p, scopes))))"

definition demo_membership :: "user_row \<Rightarrow> db \<Rightarrow> membership_row option" where
  "demo_membership u d =
     List.find (\<lambda>m. mb_user m = us_id u \<and> mb_org m = DEMO_ORG_ID \<and> mb_status m = ''active'') (memberships d)"

definition demoUser ::
  "(string \<Rightarrow> credentials) \<Rightarrow> demo_persona \<Rightarrow> db \<Rightarrow> error + user_row \<times> org_row \<times> string"
where
  "demoUser creds persona d =
     (case List.find (\<lambda>u. us_email u = Some (pn_email persona)) (users d) of
        None \<Rightarrow> Inl demoInvalidGrant
      | Some u \<Rightarrow>
          (case demo_membership u d of
             None \<Rightarrow> Inl demoInvalidGrant
           | Some m \<Rightarrow>
               (case find_org d (mb_org m) of
                  None \<Rightarrow> Inl Db_Missing
                | Some org \<Rightarrow>
                    if isCredentiallessPersona u (creds (us_id u)) persona \<and> og_id org = DEMO_ORG_ID
                       \<and> isDemoMarked (og_metadata org)
                    then Inr (u, org, mb_role m) else Inl demoInvalidGrant)))"

definition demo_claims :: "user_row \<Rightarrow> org_row \<Rightarrow> string \<Rightarrow> client_row \<Rightarrow> string list \<Rightarrow> json" where
  "demo_claims user org role c scopes =
     mk_obj ([(''sub'', JStr (us_did user)), (''client_id'', JStr (cl_client_id c)), (''userId'', JStr (us_id user))]
       @ identity_members user
       @ [(''roles'', JArr (map JStr (uniq (metadata_roles user @ [role]))))]
       @ orgClaims (base_context [] None\<lparr>oc_org := Some (og_company org), oc_org_id := Some (og_id org),
           oc_org_role := Some role, oc_org_slug := Some (og_slug org), oc_demo := True\<rparr>)
       @ custom_members (sanitizeCustomClaims (cl_custom_claims c))
       @ [(''scope'', JStr (join_sp scopes))])"

definition demo_sign ::
  "prims \<Rightarrow> config \<Rightarrow> user_row \<Rightarrow> org_row \<Rightarrow> string \<Rightarrow> client_row \<Rightarrow> string list \<Rightarrow> exchange_answer"
where
  "demo_sign P cf user org role c scopes =
     \<lparr>xr_access_token = p_sign P (demo_claims user org role c scopes)
        \<lparr>so_expires_in = DEMO_TOKEN_TTL_SECONDS, so_audience = cl_client_id c, so_issuer = jwt_issuer cf\<rparr>,
      xr_expires_in = DEMO_TOKEN_TTL_SECONDS, xr_scope = join_sp scopes,
      xr_issued_token_type = DEMO_ISSUED_TOKEN_TYPE\<rparr>"

definition demo_issue ::
  "prims \<Rightarrow> config \<Rightarrow> (string \<Rightarrow> credentials) \<Rightarrow> string option \<Rightarrow> client_row \<Rightarrow> db \<Rightarrow> error + exchange_answer"
where
  "demo_issue P cf creds subjectToken c d =
     (case assertAllowed cf c (demoPersonaFor subjectToken) of
        Inl e \<Rightarrow> Inl e
      | Inr (persona, scopes) \<Rightarrow>
          (case demoUser creds persona d of
             Inl e \<Rightarrow> Inl e
           | Inr (user, org, role) \<Rightarrow> Inr (demo_sign P cf user org role c scopes)))"

section \<open>What a demo token can be\<close>

lemma find_sat: "List.find P xs = Some y \<Longrightarrow> y \<in> set xs \<and> P y"
  by (auto simp: find_Some_iff)

lemma demo_persona_name:
  assumes "demoPersonaFor t = Some p"
  shows "p \<in> set DEMO_PERSONAS \<and> t = Some (''demo:'' @ pn_key p)"
proof -
  from assms obtain x where x: "t = Some x" "prefix ''demo:'' x" "List.find (\<lambda>p. pn_key p = drop 5 x) DEMO_PERSONAS = Some p"
    by (auto simp: demoPersonaFor_def split: option.splits if_splits)
  from x(2) obtain y where y: "x = ''demo:'' @ y" by (auto simp: prefix_def)
  show ?thesis using x(1,3) y by (auto simp: find_Some_iff)
qed

lemma demo_scopes_shape: "demoScopes i = Some ss \<Longrightarrow> ss = [''openid'', ''profile'', product_of i @ '':read'']"
  by (auto simp: demoScopes_def split: list.splits if_splits)

lemma demo_user_ok:
  assumes "demoUser creds persona d = Inr (u, org, role)"
  shows "u \<in> set (users d) \<and> us_email u = Some (pn_email persona)
    \<and> isCredentiallessPersona u (creds (us_id u)) persona
    \<and> og_id org = DEMO_ORG_ID \<and> isDemoMarked (og_metadata org) \<and> org \<in> set (orgs d)
    \<and> (\<exists>m \<in> set (memberships d). mb_user m = us_id u \<and> mb_org m = DEMO_ORG_ID \<and> mb_status m = ''active''
         \<and> mb_role m = role)"
proof -
  from assms obtain m where f: "List.find (\<lambda>u. us_email u = Some (pn_email persona)) (users d) = Some u"
    "demo_membership u d = Some m" "find_org d (mb_org m) = Some org" "role = mb_role m"
    "isCredentiallessPersona u (creds (us_id u)) persona" "og_id org = DEMO_ORG_ID" "isDemoMarked (og_metadata org)"
    by (auto simp: demoUser_def split: option.splits if_splits)
  show ?thesis
    using find_sat [OF f(1)] find_sat [OF f(2) [unfolded demo_membership_def]] find_sat [OF f(3) [unfolded find_org_def]] f(4-7)
    by auto
qed

lemma custom_silent:
  "k \<notin> {''policy'', ''packs''} \<Longrightarrow> jget (mk_obj (custom_members (sanitizeCustomClaims raw))) k = None"
  using sanitized_keys [of raw] by (blast intro: jget_unnamed)

lemma demo_claims_named:
  "jget (demo_claims u org role c ss) ''sub'' = Some (JStr (us_did u))"
  "jget (demo_claims u org role c ss) ''client_id'' = Some (JStr (cl_client_id c))"
  "jget (demo_claims u org role c ss) ''platform_role'' = None"
  "jget (demo_claims u org role c ss) ''scope'' = Some (JStr (join_sp ss))"
  "og_company org \<noteq> [] \<Longrightarrow> jget (demo_claims u org role c ss) ''demo'' = Some (JBool True)
     \<and> jget (demo_claims u org role c ss) ''org_id'' = Some (JStr (og_id org))"
  by (simp_all add: demo_claims_def jget_append jget_Cons custom_silent jget_org identity_members_def)
    (simp add: orgClaims_def opt_member_def jget_append jget_Cons jopt_def)

text \<open>A demo token goes only where the demo is: the grant is switched on, the client is a first-party
  confidential one that did not register itself, the subject is one of the three personas, marked as
  it and holding no credential of any kind, and an active member of the one demo organization.  The
  token reads the product and nothing else, lasts two hours, is for this client, is stamped as demo
  and never carries platform staff power.\<close>

theorem demo_grant_contained:
  assumes "demo_issue P cf creds t c d = Inr a"
  shows "setting_flag cf ''DEMO_GRANT_ENABLED'' \<and> isFirstParty c \<and> \<not> prefix ''dcr_'' (cl_client_id c)
    \<and> \<not> cl_is_public c \<and> cl_auth_method c \<noteq> ''none''
    \<and> (\<exists>p \<in> set DEMO_PERSONAS. \<exists>u \<in> set (users d). \<exists>org \<in> set (orgs d). \<exists>m \<in> set (memberships d). \<exists>claims.
        t = Some (''demo:'' @ pn_key p) \<and> us_email u = Some (pn_email p)
      \<and> \<not> truthy (us_password_hash u) \<and> cd_passkeys (creds (us_id u)) = 0
      \<and> cd_identities (creds (us_id u)) = 0 \<and> cd_wallets (creds (us_id u)) = 0
      \<and> mb_user m = us_id u \<and> mb_org m = og_id org \<and> mb_status m = ''active'' \<and> og_id org = DEMO_ORG_ID
      \<and> xr_access_token a = p_sign P claims \<lparr>so_expires_in = 7200, so_audience = cl_client_id c,
           so_issuer = jwt_issuer cf\<rparr>
      \<and> xr_expires_in a = 7200 \<and> xr_scope a = ''openid profile '' @ product_of (cl_client_id c) @ '':read''
      \<and> jget claims ''sub'' = Some (JStr (us_did u)) \<and> jget claims ''scope'' = Some (JStr (xr_scope a))
      \<and> jget claims ''platform_role'' = None
      \<and> (og_company org \<noteq> [] \<longrightarrow> jget claims ''demo'' = Some (JBool True)
           \<and> jget claims ''org_id'' = Some (JStr DEMO_ORG_ID)))"
proof -
  from assms obtain p ss u org role where
    al: "assertAllowed cf c (demoPersonaFor t) = Inr (p, ss)"
    and us: "demoUser creds p d = Inr (u, org, role)" and a: "a = demo_sign P cf u org role c ss"
    by (auto simp: demo_issue_def split: sum.splits prod.splits)
  from al have al': "setting_flag cf ''DEMO_GRANT_ENABLED''" "isFirstParty c" "\<not> cl_is_public c"
    "cl_auth_method c \<noteq> ''none''" "demoScopes (cl_client_id c) = Some ss" "demoPersonaFor t = Some p"
    by (auto simp: assertAllowed_def split: if_splits option.splits)
  have ss: "ss = [''openid'', ''profile'', product_of (cl_client_id c) @ '':read'']"
    by (rule demo_scopes_shape [OF al'(5)])
  from demo_user_ok [OF us] obtain m where m: "m \<in> set (memberships d)" "mb_user m = us_id u"
    "mb_org m = DEMO_ORG_ID" "mb_status m = ''active''" by blast
  have dcr: "\<not> prefix ''dcr_'' (cl_client_id c)" using al'(2) by (auto simp: isFirstParty_def)
  let ?claims = "demo_claims u org role c ss"
  show ?thesis
    using demo_user_ok [OF us] demo_persona_name [OF al'(6)] al'(1-4) dcr m demo_claims_named(1-4) [of u org role c ss] demo_claims_named(5) [of org u role c ss]
    by (intro conjI; (intro bexI [of _ p] bexI [of _ u] bexI [of _ org] bexI [of _ m] exI [of _ ?claims])?)
      (simp_all add: a demo_sign_def DEMO_TOKEN_TTL_SECONDS_def isCredentiallessPersona_def ss)
qed

definition demo_grant_config :: config where
  "demo_grant_config = \<lparr>cf_store = (\<lambda>k. if k = ''DEMO_GRANT_ENABLED'' then Some ''true'' else None), cf_env = (\<lambda>_. None)\<rparr>"

definition ana :: user_row where
  "ana = ann\<lparr>us_id := ''ana'', us_did := ''did:web:ana'', us_email := Some ''ana@demo.invalid'', us_password_hash := None,
     us_metadata := Some (JObj [(''isDemo'', JBool True), (''persona'', JStr ''owner'')])\<rparr>"

definition demo_grant_db :: db where
  "demo_grant_db = demo_db\<lparr>users := [ann, ana],
     orgs := [acme, acme\<lparr>og_id := DEMO_ORG_ID, og_metadata := Some (JObj [(''isDemo'', JBool True)])\<rparr>],
     memberships := [ann_acme, \<lparr>mb_user = ''ana'', mb_org = DEMO_ORG_ID, mb_role = ''owner'', mb_status = ''active'', mb_external = None\<rparr>]\<rparr>"

definition no_credentials :: credentials where
  "no_credentials = \<lparr>cd_passkeys = 0, cd_identities = 0, cd_wallets = 0\<rparr>"

theorem demo_grant_contained_witness:
  "\<exists>(a :: exchange_answer). demo_issue P0 demo_grant_config (\<lambda>_. no_credentials) (Some ''demo:owner'') shop demo_grant_db = Inr a
     \<and> xr_scope a = ''openid profile shop:read'' \<and> xr_expires_in a = 7200"
proof -
  let ?r = "demo_issue P0 demo_grant_config (\<lambda>_. no_credentials) (Some ''demo:owner'') shop demo_grant_db"
  have "ok ?r \<noteq> None" by code_simp
  then obtain a :: exchange_answer where r: "?r = Inr a" by (auto simp: ok_Some_iff)
  have "product_of (cl_client_id shop) = ''shop''" by code_simp
  with demo_grant_contained [OF r] r show ?thesis by auto
qed

end
