(* ===== verification/Safe_Fetch.thy ===== *)
theory Safe_Fetch
  imports Environment IP_Address
begin

text \<open>
  \<open>src/common/safe-fetch-address.ts\<close> and the redirect loop of \<open>src/common/safe-fetch.ts\<close>: which
  addresses and names are not on the public internet, the checks a URL passes before a socket
  opens, the lookup the socket uses, and the hops of one fetch.  The resolver and the sockets are parameters.
\<close>

section \<open>Addresses\<close>

definition V4_BLOCKED :: "(string \<times> nat) list" where
  "V4_BLOCKED =
     [(''0.0.0.0'', 8), (''10.0.0.0'', 8), (''100.64.0.0'', 10), (''127.0.0.0'', 8),
      (''169.254.0.0'', 16), (''172.16.0.0'', 12), (''192.0.0.0'', 24), (''192.0.2.0'', 24),
      (''192.88.99.0'', 24), (''192.168.0.0'', 16), (''198.18.0.0'', 15), (''198.51.100.0'', 24),
      (''203.0.113.0'', 24), (''224.0.0.0'', 4), (''240.0.0.0'', 4)]"

definition V6_BLOCKED :: "(string \<times> nat) list" where
  "V6_BLOCKED =
     [(''::'', 128), (''::1'', 128), (''100::'', 64), (''2001::'', 32), (''2001:db8::'', 32),
      (''fc00::'', 7), (''fe80::'', 10), (''fec0::'', 10), (''ff00::'', 8)]"

definition BLOCK :: "subnet list" where
  "BLOCK = concat (map subnet_of V4_BLOCKED) @ concat (map subnet_of V6_BLOCKED)"

text \<open>\<open>hexPairToV4\<close>: 32-bit arithmetic, printed in dotted decimal.\<close>

definition hexPairToV4 :: "string \<Rightarrow> string \<Rightarrow> string" where
  "hexPairToV4 hi lo =
     (let n = or (push_bit 16 (word_of_int (nullish (hex_value hi 0) 0) :: 32 word))
                 (word_of_int (nullish (hex_value lo 0) 0));
          byte = (\<lambda>k. nat_str (nat (uint (and (drop_bit k n) 255))))
      in join_with ''.'' [byte 24, byte 16, byte 8, byte 0])"

definition strip_prefix :: "string \<Rightarrow> string \<Rightarrow> string option" where
  "strip_prefix p s = (if prefix p s then Some (drop (length p) s) else None)"

text \<open>\<open>\d+\.\d+\.\d+\.\d+\<close>.\<close>

definition dotted :: "string \<Rightarrow> bool" where
  "dotted s = (let ps = split_char CHR ''.'' s
     in length ps = 4 \<and> list_all (\<lambda>p. p \<noteq> [] \<and> list_all is_digit p) ps)"

definition is_hex4 :: "string \<Rightarrow> bool" where
  "is_hex4 s \<longleftrightarrow> hex_group s \<noteq> None"

definition first_some :: "'a option list \<Rightarrow> 'a option" where
  "first_some xs = (case filter (\<lambda>x. x \<noteq> None) xs of x # _ \<Rightarrow> x | [] \<Rightarrow> None)"

definition embedded_dotted :: "string \<Rightarrow> string option" where
  "embedded_dotted a =
     first_some (map (\<lambda>p. case strip_prefix p a of
                            Some r \<Rightarrow> if dotted r then Some r else None | None \<Rightarrow> None)
       [''::ffff:'', ''64:ff9b::'', ''::''])"

definition embedded_hex :: "string \<Rightarrow> string option" where
  "embedded_hex a =
     first_some (map (\<lambda>p. case strip_prefix p a of
                            Some r \<Rightarrow> (case split_char CHR '':'' r of
                                         [hi, lo] \<Rightarrow> if is_hex4 hi \<and> is_hex4 lo then Some (hexPairToV4 hi lo)
                                                    else None
                                       | _ \<Rightarrow> None)
                          | None \<Rightarrow> None)
       [''::ffff:'', ''64:ff9b::''])"

definition embedded_6to4 :: "string \<Rightarrow> string option" where
  "embedded_6to4 a =
     (case split_char CHR '':'' a of
        p # hi # lo # _ # _ \<Rightarrow>
          if p = ''2002'' \<and> is_hex4 hi \<and> is_hex4 lo then Some (hexPairToV4 hi lo) else None
      | _ \<Rightarrow> None)"

definition embeddedV4 :: "string \<Rightarrow> string option" where
  "embeddedV4 v6 =
     (let a = lower v6 in first_some [embedded_dotted a, embedded_hex a, embedded_6to4 a])"

definition block_check :: "string \<Rightarrow> bool" where
  "block_check s = (case parse_ip s of None \<Rightarrow> False | Some a \<Rightarrow> bl_check BLOCK a)"

definition isBlockedAddress :: "string \<Rightarrow> bool" where
  "isBlockedAddress ip =
     (case parse_ip ip of
        None \<Rightarrow> True
      | Some (Ip4 _) \<Rightarrow> block_check ip
      | Some (Ip6 _) \<Rightarrow>
          (case embeddedV4 ip of
             Some v4 \<Rightarrow> block_check v4
           | None \<Rightarrow>
               if prefix ''::ffff:'' (lower ip) \<or> prefix ''64:ff9b::'' (lower ip) then True
               else block_check ip))"

section \<open>The checks on a URL\<close>

definition INTERNAL_NAME :: "string \<Rightarrow> bool" where
  "INTERNAL_NAME h = (let n = lower h
     in n = ''localhost'' \<or> suffix ''.localhost'' n \<or> suffix ''.local'' n \<or> suffix ''.internal'' n)"

text \<open>\<open>Invalid_Url\<close> is the \<open>TypeError\<close> of \<open>new URL\<close> on a redirect target, \<open>Failed\<close> an error of the resolver or the socket.\<close>

datatype blocked = Blocked string string | Invalid_Url | Failed string

record url_policy =
  up_ports :: "int list option"
  up_allow_private :: "string list option"
  up_require_https :: "bool option"

definition checkScheme :: "url \<Rightarrow> bool \<Rightarrow> blocked + unit" where
  "checkScheme u requireHttps =
     (if url_protocol u \<noteq> ''http:'' \<and> url_protocol u \<noteq> ''https:''
      then Inl (Blocked ''protocol'' (url_protocol u @ '' is not fetched''))
      else if requireHttps \<and> url_protocol u \<noteq> ''https:''
      then Inl (Blocked ''protocol'' ''only https is fetched'')
      else Inr ())"

definition checkHost :: "string \<Rightarrow> string list \<Rightarrow> blocked + unit" where
  "checkHost host allowed =
     (if host \<in> set allowed then Inr ()
      else if is_ip host \<noteq> 0 \<and> isBlockedAddress host
      then Inl (Blocked ''address'' (host @ '' is not a public address''))
      else if INTERNAL_NAME host then Inl (Blocked ''address'' (host @ '' is an internal name''))
      else Inr ())"

text \<open>\<open>hostname.replace(/^\[|\]$/g, '')\<close>.\<close>

definition strip_brackets :: "string \<Rightarrow> string" where
  "strip_brackets h =
     (let a = (case h of c # cs \<Rightarrow> if c = CHR ''['' then cs else h | [] \<Rightarrow> [])
      in if a \<noteq> [] \<and> last a = CHR '']'' then butlast a else a)"

definition url_port_number :: "url \<Rightarrow> int" where
  "url_port_number u =
     (if url_port u \<noteq> [] then digits_value (url_port u) 0
      else if url_protocol u = ''https:'' then 443 else 80)"

text \<open>\<open>production\<close> is \<open>NODE_ENV === 'production'\<close>; the argument is a parsed URL or the failure to parse.\<close>

definition checkUrl :: "bool \<Rightarrow> url option \<Rightarrow> url_policy \<Rightarrow> blocked + url" where
  "checkUrl production raw pol =
     (case raw of
        None \<Rightarrow> Inl (Blocked ''url'' ''not a URL'')
      | Some u \<Rightarrow>
          (case checkScheme u (nullish (up_require_https pol) production) of
             Inl b \<Rightarrow> Inl b
           | Inr _ \<Rightarrow>
               if url_username u \<noteq> [] \<or> url_password u \<noteq> []
               then Inl (Blocked ''credentials'' ''credentials in the URL'')
               else if url_port_number u \<notin> set (nullish (up_ports pol) [80, 443])
               then Inl (Blocked ''port'' (''port '' @ nat_str (nat (url_port_number u)) @ '' is not fetched''))
               else (case checkHost (strip_brackets (url_hostname u)) (nullish (up_allow_private pol) []) of
                       Inl b \<Rightarrow> Inl b
                     | Inr _ \<Rightarrow> Inr u)))"

section \<open>The socket's lookup\<close>



section \<open>One fetch\<close>

record raw_response =
  rr_status :: int
  rr_location :: "string option"
  rr_content_type :: "string option"
  rr_body :: string

record fetch_request =
  fr_url :: url
  fr_method :: string
  fr_body :: "string option"







definition next_request :: "raw_response \<Rightarrow> fetch_request \<Rightarrow> url \<Rightarrow> fetch_request" where
  "next_request r q u =
     (if rr_status r \<noteq> 307 \<and> rr_status r \<noteq> 308
      then \<lparr>fr_url = u, fr_method = ''GET'', fr_body = None\<rparr> else q\<lparr>fr_url := u\<rparr>)"







section \<open>The addresses that are not public\<close>

text \<open>
  The ranges by their numbers: the octets of an IPv4 address, the groups of an IPv6 address.
\<close>

lemma is_ip_iff: "is_ip s \<noteq> 0 \<longleftrightarrow> parse_ip s \<noteq> None"
  by (auto simp: is_ip_def split: option.split ip_addr.split)
































section \<open>What a fetch may reach\<close>



lemma next_request_url [simp]: "fr_url (next_request r q u) = u"
  by (simp add: next_request_def)






text \<open>The witness: the first answer redirects to a name that resolves to the metadata address, and the fetch stops there.\<close>

definition host_url :: "string \<Rightarrow> url" where
  "host_url h = \<lparr>url_protocol = ''https:'', url_hostname = h, url_port = [], url_pathname = ''/'',
     url_hash = [], url_username = [], url_password = [], url_origin = ''https://'' @ h\<rparr>"


definition open_policy :: url_policy where
  "open_policy = \<lparr>up_ports = None, up_allow_private = None, up_require_https = None\<rparr>"


text \<open>The verdict on an IPv6 literal depends on how it is spelled: \<open>::7f00:1\<close>, the form every URL
  parser gives to the IPv4-compatible address of 127.0.0.1, is not blocked and a URL on it passes
  every check, although \<open>::127.0.0.1\<close>, the same address, is blocked.\<close>

theorem compatible_spelling_not_blocked:
  "parse_ip ''::7f00:1'' = parse_ip ''::127.0.0.1''
   \<and> isBlockedAddress ''::127.0.0.1'' \<and> \<not> isBlockedAddress ''::7f00:1''
   \<and> checkUrl True (Some (host_url ''[::7f00:1]'')) open_policy = Inr (host_url ''[::7f00:1]'')"
proof (intro conjI)
  show "parse_ip ''::7f00:1'' = parse_ip ''::127.0.0.1''" by code_simp
  show "isBlockedAddress ''::127.0.0.1''" by code_simp
  show "\<not> isBlockedAddress ''::7f00:1''" by code_simp
  show "checkUrl True (Some (host_url ''[::7f00:1]'')) open_policy = Inr (host_url ''[::7f00:1]'')"
    by code_simp
qed

end
