(* ===== verification/Client_Registry.thy ===== *)
theory Client_Registry
  imports Agents Safe_Fetch
begin

text \<open>
  \<open>src/oauth/oauth-client-registry.service.ts\<close> with \<open>src/oauth/dcr-jwks.util.ts\<close>: finding a client and
  checking its secret, the redirect-URI rule, and open dynamic registration (RFC 7591).  \<open>bcrypt\<close> is
  a parameter, as are the random bytes a registration draws.
\<close>

section \<open>Dependencies and input\<close>

record registry_deps =
  rd_prims :: prims
  rd_compare :: "string \<Rightarrow> string \<Rightarrow> bool"
  rd_hash :: "string \<Rightarrow> string"

record register_meta =
  rm_redirect_uris :: "string list option"
  rm_client_name :: "string option"
  rm_grant_types :: "string list option"
  rm_auth_method :: "string option"
  rm_jwks :: "json option"
  rm_jwks_uri :: "string option"
  rm_scope :: "string option"
  rm_logo_uri :: "string option"
  rm_policy_uri :: "string option"
  rm_tos_uri :: "string option"

record register_entropy =
  re_client_hex :: string
  re_secret :: string

definition DCR_ALLOWED_GRANTS :: "string list" where
  "DCR_ALLOWED_GRANTS = [''authorization_code'', ''refresh_token'', ''client_credentials'']"

definition DCR_WITHHELD_GRANTS :: "(string \<times> string) list" where
  "DCR_WITHHELD_GRANTS =
     [(''urn:ietf:params:oauth:grant-type:device_code'',
       ''the device grant is provisioned by an operator, not through open registration''),
      (''urn:ietf:params:oauth:grant-type:token-exchange'',
       ''token exchange is provisioned by an operator, not through open registration'')]"

definition DCR_DEFAULT_GRANTS :: "string list" where
  "DCR_DEFAULT_GRANTS = [''authorization_code'', ''refresh_token'']"

definition DCR_DEFAULT_SCOPES :: "string list" where
  "DCR_DEFAULT_SCOPES = [''openid'', ''profile'', ''email'']"

definition DCR_MAX_REDIRECT_URIS :: nat where "DCR_MAX_REDIRECT_URIS = 10"

definition isLoopbackHost :: "string \<Rightarrow> bool" where
  "isLoopbackHost h \<longleftrightarrow> h = ''127.0.0.1'' \<or> h = ''[::1]'' \<or> h = ''::1'' \<or> h = ''localhost''"

section \<open>Client validation\<close>

definition find_active_client :: "db \<Rightarrow> string \<Rightarrow> client_row option" where
  "find_active_client d cid = List.find (\<lambda>c. cl_client_id c = cid \<and> cl_active c) (clients d)"

definition matches_previous :: "registry_deps \<Rightarrow> request \<Rightarrow> client_row \<Rightarrow> string \<Rightarrow> bool" where
  "matches_previous R rq c secret =
     (case (cl_prev_secret_hash c, cl_prev_secret_expires c) of
        (Some h, Some t) \<Rightarrow> h \<noteq> [] \<and> rq_now rq < t \<and> rd_compare R secret h
      | _ \<Rightarrow> False)"

definition validateClient ::
  "registry_deps \<Rightarrow> request \<Rightarrow> string \<Rightarrow> string option \<Rightarrow> db \<Rightarrow> error + client_row"
where
  "validateClient R rq clientId secret d =
     (case find_active_client d clientId of
        None \<Rightarrow> Inl (Unauthorized (Msg ''Invalid client''))
      | Some c \<Rightarrow>
          if truthy secret \<and> \<not> rd_compare R (nullish secret '''') (cl_secret_hash c)
             \<and> \<not> matches_previous R rq c (nullish secret '''')
          then Inl (Unauthorized (Msg ''Invalid client credentials''))
          else Inr c)"

definition validateClientWithSecret ::
  "registry_deps \<Rightarrow> request \<Rightarrow> string \<Rightarrow> string \<Rightarrow> db \<Rightarrow> error + client_row"
where
  "validateClientWithSecret R rq clientId secret d =
     (if secret = []
      then (case validateClient R rq clientId None d of
              Inl e \<Rightarrow> Inl e
            | Inr c \<Rightarrow> if cl_is_public c then Inr c
                       else Inl (Unauthorized (Msg ''client_secret is required'')))
      else validateClient R rq clientId (Some secret) d)"

definition validateGrantType :: "client_row \<Rightarrow> string \<Rightarrow> error + unit" where
  "validateGrantType c grantType =
     (if grantType \<in> set (cl_allowed_grants c) then Inr ()
      else Inl (Bad_Request (Msg (''Grant type \"'' @ grantType @ ''\" is not allowed for this client''))))"

record client_info =
  in_client_id :: string
  in_name :: string
  in_logo :: "string option"
  in_privacy :: "string option"
  in_terms :: "string option"

definition getClientInfo :: "registry_deps \<Rightarrow> request \<Rightarrow> string \<Rightarrow> db \<Rightarrow> error + client_info" where
  "getClientInfo R rq clientId d =
     (case validateClient R rq clientId None d of
        Inl e \<Rightarrow> Inl e
      | Inr c \<Rightarrow> Inr \<lparr>in_client_id = cl_client_id c, in_name = cl_name c, in_logo = cl_logo_url c,
                      in_privacy = cl_privacy_url c, in_terms = cl_terms_url c\<rparr>)"

definition validateRedirectUri :: "(string \<Rightarrow> url option) \<Rightarrow> client_row \<Rightarrow> string \<Rightarrow> bool" where
  "validateRedirectUri pu c redirectUri =
     (if redirectUri \<in> set (cl_redirect_uris c) then True
      else case pu redirectUri of
             None \<Rightarrow> False
           | Some q \<Rightarrow>
               if \<not> isLoopbackHost (url_hostname q) then False
               else list_ex (\<lambda>reg. case pu reg of
                        None \<Rightarrow> False
                      | Some r \<Rightarrow> isLoopbackHost (url_hostname r) \<and> url_hostname r = url_hostname q
                               \<and> url_protocol r = url_protocol q \<and> url_pathname r = url_pathname q)
                    (cl_redirect_uris c))"

section \<open>Registered keys\<close>

definition private_jwk :: "json \<Rightarrow> bool" where
  "private_jwk k \<longleftrightarrow> jget k ''d'' \<noteq> None \<or> jget k ''kty'' = Some (JStr ''oct'')"

definition assertPublicJwks :: "json \<Rightarrow> error + unit" where
  "assertPublicJwks jwks =
     (case jarr (jget jwks ''keys'') of
        None \<Rightarrow> Inl (Bad_Request (Msg ''jwks must be a JWK Set with a non-empty keys array''))
      | Some [] \<Rightarrow> Inl (Bad_Request (Msg ''jwks must be a JWK Set with a non-empty keys array''))
      | Some keys \<Rightarrow>
          if list_ex private_jwk keys
          then Inl (Bad_Request (Msg ''jwks must contain only public keys (found private key material)''))
          else Inr ())"

definition https_policy :: url_policy where
  "https_policy = \<lparr>up_ports = None, up_allow_private = None, up_require_https = Some True\<rparr>"

definition assertFetchableJwksUri :: "url \<Rightarrow> error + unit" where
  "assertFetchableJwksUri u =
     (case checkUrl True (Some u) https_policy of
        Inr _ \<Rightarrow> Inr ()
      | Inl (Blocked _ m) \<Rightarrow> Inl (Bad_Request (Msg (''jwks_uri is not fetchable: '' @ m)))
      | Inl Invalid_Url \<Rightarrow> Inl (Server_Error ''Invalid URL''))"

definition validateDcrClientKeys ::
  "(string \<Rightarrow> url option) \<Rightarrow> string option \<Rightarrow> json option \<Rightarrow> string option \<Rightarrow> error + unit"
where
  "validateDcrClientKeys pu meth jwks jwksUri =
     (if jwks \<noteq> None \<and> truthy jwksUri
      then Inl (Bad_Request (Msg ''jwks and jwks_uri are mutually exclusive''))
      else if meth = Some ''private_key_jwt'' \<and> jwks = None \<and> \<not> truthy jwksUri
      then Inl (Bad_Request (Msg ''private_key_jwt requires jwks or jwks_uri''))
      else let uri_check =
             (if truthy jwksUri
              then (case pu (nullish jwksUri '''') of
                      None \<Rightarrow> Inl (Bad_Request (Msg ''jwks_uri must be a valid URL''))
                    | Some u \<Rightarrow> if url_protocol u \<noteq> ''https:''
                               then Inl (Bad_Request (Msg ''jwks_uri must use https''))
                               else assertFetchableJwksUri u)
              else Inr ())
           in case uri_check of
                Inl e \<Rightarrow> Inl e
              | Inr _ \<Rightarrow> (case jwks of None \<Rightarrow> Inr () | Some j \<Rightarrow> assertPublicJwks j))"


section \<open>Registration\<close>

definition dcr_error :: "string \<Rightarrow> string \<Rightarrow> error" where
  "dcr_error code description = Bad_Request (OAuth code (Some description))"

text \<open>
  \<open>g in DCR_WITHHELD_GRANTS\<close> also holds of the members every object inherits; what the message then
  prints is the text of the inherited member.
\<close>

definition OBJECT_MEMBERS :: "string list" where
  "OBJECT_MEMBERS =
     [''constructor'', ''__defineGetter__'', ''__defineSetter__'', ''hasOwnProperty'',
      ''__lookupGetter__'', ''__lookupSetter__'', ''isPrototypeOf'', ''propertyIsEnumerable'',
      ''toString'', ''valueOf'', ''__proto__'', ''toLocaleString'']"

definition withheld :: "string \<Rightarrow> bool" where
  "withheld g \<longleftrightarrow> g \<in> fst ` set DCR_WITHHELD_GRANTS \<or> g \<in> set OBJECT_MEMBERS"

definition withheld_reason :: "string \<Rightarrow> string" where
  "withheld_reason g =
     (case map_of DCR_WITHHELD_GRANTS g of
        Some r \<Rightarrow> r
      | None \<Rightarrow> if g = ''__proto__'' then ''[object Object]''
                else ''function '' @ (if g = ''constructor'' then ''Object'' else g) @ ''() { [native code] }'')"

definition sanitizeGrants :: "string list option \<Rightarrow> bool \<Rightarrow> error + string list" where
  "sanitizeGrants requested isPublic =
     (case filter withheld (nullish requested []) of
        g # _ \<Rightarrow> Inl (dcr_error ''invalid_client_metadata''
                   (''grant_type \"'' @ g @ ''\" is not available through dynamic registration: ''
                    @ withheld_reason g))
      | [] \<Rightarrow>
          (let valid = filter (\<lambda>g. g \<in> set DCR_ALLOWED_GRANTS) (nullish requested []);
               grants = (if valid \<noteq> [] then uniq valid else DCR_DEFAULT_GRANTS)
           in if ''client_credentials'' \<in> set grants \<and> isPublic
              then Inl (dcr_error ''invalid_client_metadata''
                     ''confidential client required for client_credentials'')
              else Inr grants))"

definition sanitizeScopes :: "string option \<Rightarrow> string list" where
  "sanitizeScopes scope =
     (let valid = uniq (filter (\<lambda>s. s \<in> set dcrSupportedScopes) (words_of (nullish scope '''')))
      in if valid \<noteq> [] then valid else DCR_DEFAULT_SCOPES)"

definition sanitizeRedirectUris :: "string list option \<Rightarrow> string list \<Rightarrow> error + string list" where
  "sanitizeRedirectUris uris grants =
     (let l = nullish uris []
      in if ''authorization_code'' \<in> set grants \<and> l = []
         then Inl (dcr_error ''invalid_redirect_uri'' ''redirect_uris is required for the authorization_code grant'')
         else if DCR_MAX_REDIRECT_URIS < length l
         then Inl (dcr_error ''invalid_redirect_uri''
                (''redirect_uris cannot exceed '' @ nat_str DCR_MAX_REDIRECT_URIS @ '' entries''))
         else Inr l)"

text \<open>\<open>buildSecret\<close>: the secret shown once, and the hash stored.\<close>

definition buildSecret :: "registry_deps \<Rightarrow> string \<Rightarrow> bool \<Rightarrow> string option \<times> string" where
  "buildSecret R raw keyless = ((if keyless then None else Some raw), rd_hash R raw)"

text \<open>\<open>oAuthClient.create\<close>: the client id is unique; absent columns take the defaults of the schema.\<close>

definition insert_client :: "client_row \<Rightarrow> client_row list \<Rightarrow> error + client_row list" where
  "insert_client c t =
     (if list_ex (\<lambda>x. cl_client_id x = cl_client_id c) t then Inl Db_Conflict else Inr (t @ [c]))"

definition fresh_client :: "string \<Rightarrow> string \<Rightarrow> string \<Rightarrow> client_row" where
  "fresh_client clientId secretHash nm =
     \<lparr>cl_client_id = clientId, cl_name = nm, cl_secret_hash = secretHash, cl_prev_secret_hash = None,
      cl_prev_secret_expires = None, cl_redirect_uris = [], cl_allowed_scopes = [],
      cl_allowed_grants = [''authorization_code'', ''refresh_token''], cl_company = None,
      cl_allowed_audiences = [], cl_custom_claims = None, cl_is_public = False,
      cl_auth_method = ''client_secret_post'', cl_jwks = None, cl_active = True, cl_first_party = False,
      cl_customer_lane = False, cl_jwks_uri = None, cl_tls_subject_dn = None, cl_logo_url = None,
      cl_privacy_url = None, cl_terms_url = None, cl_backchannel_uri = None\<rparr>"

definition registerClient ::
  "registry_deps \<Rightarrow> string \<Rightarrow> string \<Rightarrow> string \<Rightarrow> string list \<Rightarrow> string list option \<Rightarrow> db \<Rightarrow>
   (error + client_row) \<times> db"
where
  "registerClient R clientId secret nm redirectUris scopes d =
     (let c = (fresh_client clientId (rd_hash R secret) nm)
                \<lparr>cl_redirect_uris := redirectUris,
                 cl_allowed_scopes := nullish scopes [''openid'', ''profile'', ''email'']\<rparr>
      in case insert_client c (clients d) of
           Inl e \<Rightarrow> (Inl e, d) | Inr t \<Rightarrow> (Inr c, d\<lparr>clients := t\<rparr>))"

definition dcr_client ::
  "register_meta \<Rightarrow> string \<Rightarrow> string \<Rightarrow> string list \<Rightarrow> string list \<Rightarrow> string list \<Rightarrow> client_row"
where
  "dcr_client meta clientId secretHash uris scopes grants =
     (let meth = nullish (rm_auth_method meta) ''client_secret_post''
      in (fresh_client clientId secretHash
            (if truthy (rm_client_name meta) then nullish (rm_client_name meta) ''''
             else ''Dynamically Registered Client''))
           \<lparr>cl_redirect_uris := uris, cl_allowed_scopes := scopes, cl_allowed_grants := grants,
            cl_is_public := (meth = ''none''), cl_auth_method := meth, cl_jwks := rm_jwks meta,
            cl_jwks_uri := rm_jwks_uri meta, cl_logo_url := rm_logo_uri meta,
            cl_privacy_url := rm_policy_uri meta, cl_terms_url := rm_tos_uri meta\<rparr>)"

definition registerDynamicClient ::
  "registry_deps \<Rightarrow> register_entropy \<Rightarrow> register_meta \<Rightarrow> db \<Rightarrow> (error + client_row \<times> string option) \<times> db"
where
  "registerDynamicClient R en meta d =
     (let meth = nullish (rm_auth_method meta) ''client_secret_post''; isPublic = (meth = ''none'')
      in case validateDcrClientKeys (p_parse_url (rd_prims R)) (Some meth) (rm_jwks meta) (rm_jwks_uri meta) of
           Inl e \<Rightarrow> (Inl e, d)
         | Inr _ \<Rightarrow>
             (case sanitizeGrants (rm_grant_types meta) isPublic of
                Inl e \<Rightarrow> (Inl e, d)
              | Inr grants \<Rightarrow>
                  (case sanitizeRedirectUris (rm_redirect_uris meta) grants of
                     Inl e \<Rightarrow> (Inl e, d)
                   | Inr uris \<Rightarrow>
                       let keyless = (isPublic \<or> meth = ''private_key_jwt'');
                           (secret, secretHash) = buildSecret R (re_secret en) keyless;
                           c = dcr_client meta (''dcr_'' @ re_client_hex en) secretHash uris
                                 (sanitizeScopes (rm_scope meta)) grants
                       in (case insert_client c (clients d) of
                             Inl e \<Rightarrow> (Inl e, d)
                           | Inr t \<Rightarrow> (Inr (c, secret), d\<lparr>clients := t\<rparr>)))))"

section \<open>Lemmas\<close>

lemma find_active_clientD:
  "find_active_client d cid = Some c \<Longrightarrow> c \<in> set (clients d) \<and> cl_client_id c = cid \<and> cl_active c"
  unfolding find_active_client_def by (drule find_SomeD) simp

lemma sanitize_grants_ok:
  assumes "sanitizeGrants req pub = Inr g"
  shows "set g \<subseteq> set DCR_ALLOWED_GRANTS \<and> g \<noteq> [] \<and> (pub \<longrightarrow> ''client_credentials'' \<notin> set g)"
proof -
  have "set DCR_DEFAULT_GRANTS \<subseteq> set DCR_ALLOWED_GRANTS" "DCR_DEFAULT_GRANTS \<noteq> []"
    by (simp_all add: DCR_DEFAULT_GRANTS_def DCR_ALLOWED_GRANTS_def)
  with assms show ?thesis
    by (auto simp: sanitizeGrants_def Let_def filter_empty_conv split: list.splits if_splits)
qed

lemma sanitize_scopes_ok: "set (sanitizeScopes s) \<subseteq> set dcrSupportedScopes \<and> sanitizeScopes s \<noteq> []"
proof -
  have "set DCR_DEFAULT_SCOPES \<subseteq> set dcrSupportedScopes" "DCR_DEFAULT_SCOPES \<noteq> []"
    by (simp_all add: DCR_DEFAULT_SCOPES_def dcrSupportedScopes_def STANDARD_SCOPES_def)
  then show ?thesis by (auto simp: sanitizeScopes_def Let_def filter_empty_conv)
qed

lemma keys_public:
  assumes "validateDcrClientKeys pu m (Some j) u = Inr ()"
  shows "\<exists>ks. jarr (jget j ''keys'') = Some ks \<and> ks \<noteq> [] \<and> (\<forall>k \<in> set ks. \<not> private_jwk k)"
  using assms
  by (auto simp: validateDcrClientKeys_def assertPublicJwks_def Let_def list_ex_iff
      split: if_splits sum.splits option.splits list.splits)

text \<open>C15. Open registration gives nothing privileged away: the client created is new, is marked as
  dynamic and never counts as first-party, belongs to no tenant and names no audience; its grants are
  from the open list, without client_credentials for a public client; its scopes are within what open
  registration supports; the keys it registered hold no private material and it has some when it
  authenticates by key; a secret is handed out exactly when it authenticates by secret; no other
  client changes.\<close>

theorem dcr_registration_safe:
  assumes "registerDynamicClient R en meta d = (Inr (c, secret), d')"
  shows "clients d' = clients d @ [c] \<and> find_client d (cl_client_id c) = None
    \<and> isDynamicClientId (Some (cl_client_id c)) \<and> \<not> isFirstParty c \<and> cl_company c = None
    \<and> cl_allowed_audiences c = [] \<and> needsRegisteredResource (resource_client_of c)
    \<and> set (cl_allowed_grants c) \<subseteq> {''authorization_code'', ''refresh_token'', ''client_credentials''}
    \<and> (cl_is_public c \<longrightarrow> ''client_credentials'' \<notin> set (cl_allowed_grants c))
    \<and> set (cl_allowed_scopes c) \<subseteq> set dcrSupportedScopes
    \<and> (''authorization_code'' \<in> set (cl_allowed_grants c) \<longrightarrow> cl_redirect_uris c \<noteq> [])
    \<and> length (cl_redirect_uris c) \<le> 10
    \<and> (\<forall>j. cl_jwks c = Some j \<longrightarrow>
         (\<exists>ks. jarr (jget j ''keys'') = Some ks \<and> ks \<noteq> [] \<and> (\<forall>k \<in> set ks. \<not> private_jwk k)))
    \<and> (cl_auth_method c = ''private_key_jwt'' \<longrightarrow> cl_jwks c \<noteq> None \<or> truthy (cl_jwks_uri c))
    \<and> (secret \<noteq> None \<longleftrightarrow> \<not> cl_is_public c \<and> cl_auth_method c \<noteq> ''private_key_jwt'')
    \<and> (\<forall>s. secret = Some s \<longrightarrow> cl_secret_hash c = rd_hash R s)"
proof -
  let ?m = "nullish (rm_auth_method meta) ''client_secret_post''"
  from assms obtain grants uris where
    keys: "validateDcrClientKeys (p_parse_url (rd_prims R)) (Some ?m) (rm_jwks meta) (rm_jwks_uri meta) = Inr ()"
    and g: "sanitizeGrants (rm_grant_types meta) (?m = ''none'') = Inr grants"
    and u: "sanitizeRedirectUris (rm_redirect_uris meta) grants = Inr uris"
    and c: "c = dcr_client meta (''dcr_'' @ re_client_hex en) (rd_hash R (re_secret en)) uris
              (sanitizeScopes (rm_scope meta)) grants"
    and s: "secret = (if ?m = ''none'' \<or> ?m = ''private_key_jwt'' then None else Some (re_secret en))"
    and t: "insert_client c (clients d) = Inr (clients d')"
    by (auto simp: registerDynamicClient_def buildSecret_def Let_def split: sum.splits if_splits)
  have row: "clients d' = clients d @ [c]" "\<forall>x \<in> set (clients d). cl_client_id x \<noteq> cl_client_id c"
    using t by (auto simp: insert_client_def list_ex_iff split: if_splits)
  then have new: "find_client d (cl_client_id c) = None"
    by (auto simp: find_client_def find_None_iff)
  have uris: "''authorization_code'' \<in> set grants \<longrightarrow> uris \<noteq> []" "length uris \<le> 10"
    using u by (auto simp: sanitizeRedirectUris_def DCR_MAX_REDIRECT_URIS_def Let_def split: if_splits)
  have j: "\<forall>j. rm_jwks meta = Some j \<longrightarrow>
      (\<exists>ks. jarr (jget j ''keys'') = Some ks \<and> ks \<noteq> [] \<and> (\<forall>k \<in> set ks. \<not> private_jwk k))"
    using keys keys_public by fastforce
  have pk: "?m = ''private_key_jwt'' \<longrightarrow> rm_jwks meta \<noteq> None \<or> truthy (rm_jwks_uri meta)"
    using keys by (auto simp: validateDcrClientKeys_def split: if_splits)
  show ?thesis
    using row new uris j pk s sanitize_grants_ok [OF g] sanitize_scopes_ok [of "rm_scope meta"]
    by (auto simp: c dcr_client_def fresh_client_def isDynamicClientId_def isFirstParty_def
        needsRegisteredResource_def resource_client_of_def DCR_ALLOWED_GRANTS_def)
qed


definition demo_registry :: registry_deps where
  "demo_registry = \<lparr>rd_prims = P0, rd_compare = (\<lambda>s h. h = ''s:'' @ s), rd_hash = (\<lambda>s. ''s:'' @ s)\<rparr>"

definition demo_meta :: register_meta where
  "demo_meta = \<lparr>rm_redirect_uris = Some [''https://app.example/cb''], rm_client_name = None,
     rm_grant_types = Some [''refresh_token'', ''authorization_code'', ''implicit''], rm_auth_method = Some ''none'',
     rm_jwks = None, rm_jwks_uri = None, rm_scope = Some ''openid brain:admin'', rm_logo_uri = None,
     rm_policy_uri = None, rm_tos_uri = None\<rparr>"

definition demo_register_entropy :: register_entropy where
  "demo_register_entropy = \<lparr>re_client_hex = ''00ff'', re_secret = ''secret''\<rparr>"

theorem dcr_registration_safe_witness:
  "\<exists>(c :: client_row) secret d'. registerDynamicClient demo_registry demo_register_entropy demo_meta demo_db
       = (Inr (c, secret), d')
     \<and> cl_is_public c \<and> secret = None \<and> set (cl_allowed_scopes c) \<subseteq> set dcrSupportedScopes"
proof -
  let ?r = "registerDynamicClient demo_registry demo_register_entropy demo_meta demo_db"
  have "map_option (\<lambda>x. cl_is_public (fst x)) (ok (fst ?r)) = Some True" by code_simp
  then obtain c :: client_row and secret d' where r: "?r = (Inr (c, secret), d')" and p: "cl_is_public c"
    by (cases ?r) (auto simp: ok_Some_iff)
  show ?thesis using dcr_registration_safe [OF r] r p by auto
qed

section \<open>Who is the client, and where may it be sent back to\<close>

lemma validateClient_ok:
  assumes "validateClient R rq cid secret d = Inr c"
  shows "c \<in> set (clients d) \<and> cl_client_id c = cid \<and> cl_active c
    \<and> (truthy secret \<longrightarrow> rd_compare R (nullish secret '''') (cl_secret_hash c)
         \<or> matches_previous R rq c (nullish secret ''''))"
  using assms
  by (auto simp: validateClient_def dest: find_active_clientD split: option.splits if_splits)

lemma client_secret_ok:
  assumes "validateClientWithSecret R rq cid secret d = Inr c"
  shows "c \<in> set (clients d) \<and> cl_client_id c = cid \<and> cl_active c \<and> (secret = [] \<longrightarrow> cl_is_public c)
    \<and> (secret \<noteq> [] \<longrightarrow> rd_compare R secret (cl_secret_hash c) \<or> matches_previous R rq c secret)"
proof (cases "secret = []")
  case True
  then show ?thesis using assms validateClient_ok [of R rq cid None d c]
    by (auto simp: validateClientWithSecret_def split: sum.splits if_splits)
next
  case False
  then have "validateClient R rq cid (Some secret) d = Inr c"
    using assms by (simp add: validateClientWithSecret_def)
  from validateClient_ok [OF this] False show ?thesis by simp
qed

text \<open>A client is known by its secret or is public: the client the token endpoint accepts is an
  active registered one; without a secret it is a public one; with a secret, public or not, the
  secret matches the current hash or, before the rotation window ends, the previous one.\<close>

theorem client_secret_checked:
  assumes "validateClientWithSecret R rq cid secret d = Inr c"
  shows "c \<in> set (clients d) \<and> cl_client_id c = cid \<and> cl_active c
    \<and> (secret = [] \<longrightarrow> cl_is_public c)
    \<and> (secret \<noteq> [] \<longrightarrow> rd_compare R secret (cl_secret_hash c)
        \<or> (\<exists>h t. cl_prev_secret_hash c = Some h \<and> cl_prev_secret_expires c = Some t \<and> rq_now rq < t
             \<and> rd_compare R secret h))"
  using client_secret_ok [OF assms] by (auto simp: matches_previous_def split: option.splits)

theorem client_secret_checked_witness:
  "\<exists>(c :: client_row). validateClientWithSecret demo_registry demo_rq ''shop'' ''secret'' demo_db = Inr c
     \<and> cl_active c \<and> cl_client_id c = ''shop''"
proof -
  have "ok (validateClientWithSecret demo_registry demo_rq ''shop'' ''secret'' demo_db) \<noteq> None" by code_simp
  then obtain c :: client_row
    where c: "validateClientWithSecret demo_registry demo_rq ''shop'' ''secret'' demo_db = Inr c"
    by (auto simp: ok_Some_iff)
  with client_secret_checked [OF c] show ?thesis by blast
qed

text \<open>A redirect URI is accepted exactly when it is registered or differs from a registered loopback
  URI at most in the parts the rule does not read: port, query, fragment and credentials.\<close>

lemma redirect_uri_rule:
  "validateRedirectUri pu c uri \<longleftrightarrow> uri \<in> set (cl_redirect_uris c)
     \<or> (\<exists>q reg r. pu uri = Some q \<and> reg \<in> set (cl_redirect_uris c) \<and> pu reg = Some r
          \<and> isLoopbackHost (url_hostname q) \<and> url_hostname r = url_hostname q
          \<and> url_protocol r = url_protocol q \<and> url_pathname r = url_pathname q)"
proof (cases "pu uri")
  case (Some q)
  then show ?thesis
    by (auto simp: validateRedirectUri_def list_ex_iff split: option.splits)
qed (auto simp: validateRedirectUri_def)

end
