(* ===== verification/Redis.thy ===== *)
theory Redis
  imports Prelude
begin

text \<open>
  The keys with a time to live that \<open>src/common/redis.service.ts\<close> keeps: a list of entries, refined
  by the map of the keys that are live at a given instant.
\<close>

record redis_entry =
  ry_key :: string
  ry_value :: string
  ry_expires :: time

type_synonym redis = "redis_entry list"

definition redis_get :: "time \<Rightarrow> string \<Rightarrow> redis \<Rightarrow> string option" where
  "redis_get now k s = map_option ry_value (List.find (\<lambda>e. ry_key e = k \<and> now < ry_expires e) s)"

text \<open>\<open>SET key value EX ttl\<close>: the time to live is in seconds.\<close>

definition redis_set :: "time \<Rightarrow> string \<Rightarrow> string \<Rightarrow> int \<Rightarrow> redis \<Rightarrow> redis" where
  "redis_set now k v ttl s =
     \<lparr>ry_key = k, ry_value = v, ry_expires = now + 1000 * ttl\<rparr> # delete_many (\<lambda>e. ry_key e = k) s"

definition redis_get_del :: "time \<Rightarrow> string \<Rightarrow> redis \<Rightarrow> string option \<times> redis" where
  "redis_get_del now k s = (redis_get now k s, delete_many (\<lambda>e. ry_key e = k) s)"

definition redis_set_if_absent :: "time \<Rightarrow> string \<Rightarrow> string \<Rightarrow> int \<Rightarrow> redis \<Rightarrow> bool \<times> redis" where
  "redis_set_if_absent now k v ttl s =
     (if redis_get now k s \<noteq> None then (False, s) else (True, redis_set now k v ttl s))"

section \<open>The refinement: the map of live keys\<close>

definition live :: "time \<Rightarrow> redis \<Rightarrow> string \<Rightarrow> string option" where
  "live now s = (\<lambda>k. redis_get now k s)"

lemma redis_get_live: "redis_get now k s = live now s k"
  by (simp add: live_def)

lemma redis_get_other:
  "k' \<noteq> k \<Longrightarrow> redis_get now k' (delete_many (\<lambda>e. ry_key e = k) s) = redis_get now k' s"
  by (induction s) (auto simp: redis_get_def)

lemma redis_get_deleted [simp]: "redis_get now k (delete_many (\<lambda>e. ry_key e = k) s) = None"
  by (auto simp: redis_get_def find_None_iff)

lemma live_set: "0 < ttl \<Longrightarrow> live now (redis_set now k v ttl s) = (live now s)(k \<mapsto> v)"
  by (rule ext) (auto simp: live_def redis_set_def redis_get_other redis_get_def [of now k]
      redis_get_def [of now _ "_ # _"], simp add: redis_get_def redis_get_other [unfolded redis_get_def])

lemma live_get_del: "live now (snd (redis_get_del now k s)) = (live now s)(k := None)"
  by (rule ext) (auto simp: live_def redis_get_del_def redis_get_other)

lemma redis_get_set:
  "redis_get t k (redis_set now k' v ttl s) =
     (if k = k' then (if t < now + 1000 * ttl then Some v else None) else redis_get t k s)"
proof (cases "k = k'")
  case True
  then show ?thesis using redis_get_deleted [of t k' s] by (simp add: redis_set_def redis_get_def)
next
  case False
  then show ?thesis using redis_get_other [of k k' t s] by (simp add: redis_set_def redis_get_def)
qed

end
