(* ===== verification/Par.thy ===== *)
theory Par
  imports Client_Registry Customer_Lane Redis
begin

text \<open>
  Where the parameters of an authorization request come from: \<open>src/oauth/par.service.ts\<close> (pushed
  requests, RFC 9126), \<open>src/oauth/request-object.service.ts\<close> (signed request objects, RFC 9101),
  \<open>src/oauth/client-jwks.service.ts\<close> (the keys they are verified with),
  \<open>src/oauth/authorize-params.ts\<close> and \<open>src/oauth/login-hint.ts\<close>.  A query is the map of its
  single-valued parameters; a parameter object is a JSON object whose absent members are JavaScript's
  \<open>undefined\<close> ones.
\<close>

section \<open>Verifying a signed object\<close>

text \<open>
  \<open>jose\<close>: decoding a token's header and claims without verifying (\<open>None\<close> where it throws), the test
  of \<open>createLocalJWKSet\<close>, and \<open>jwtVerify\<close> at an instant.
\<close>

datatype key_set = Local_Keys json | Remote_Keys url

record verify_options =
  vo_algorithms :: "string list"
  vo_issuer :: "string option"
  vo_subject :: "string option"
  vo_audience :: "string list option"
  vo_tolerance :: int

record jose =
  jo_header :: "string \<Rightarrow> json option"
  jo_claims :: "string \<Rightarrow> json option"
  jo_local_set :: "json \<Rightarrow> bool"
  jo_verify :: "time \<Rightarrow> string \<Rightarrow> key_set \<Rightarrow> verify_options \<Rightarrow> json option"

definition is_object :: "json \<Rightarrow> bool" where
  "is_object j = (case j of JObj _ \<Rightarrow> True | JArr _ \<Rightarrow> True | _ \<Rightarrow> False)"

definition remoteSet :: "(string \<Rightarrow> url option) \<Rightarrow> string \<Rightarrow> error + key_set" where
  "remoteSet pu jwksUri =
     (case checkUrl True (pu jwksUri) https_policy of
        Inl (Blocked _ m) \<Rightarrow> Inl (Unauthorized (Msg (''client jwks_uri refused ('' @ m @ '')'')))
      | Inl Invalid_Url \<Rightarrow> Inl (Unauthorized (Msg ''client jwks_uri refused (invalid URL)''))
      | Inr u \<Rightarrow> Inr (Remote_Keys u))"

definition resolveKeySet :: "jose \<Rightarrow> (string \<Rightarrow> url option) \<Rightarrow> client_row \<Rightarrow> error + key_set" where
  "resolveKeySet J pu c =
     (case cl_jwks c of
        Some j \<Rightarrow>
          if is_object j
          then (if jo_local_set J j then Inr (Local_Keys j) else Inl (Server_Error ''JSON Web Key Set malformed''))
          else if truthy (cl_jwks_uri c) then remoteSet pu (nullish (cl_jwks_uri c) '''')
          else Inl (Unauthorized (Msg ''client has no registered keys''))
      | None \<Rightarrow>
          if truthy (cl_jwks_uri c) then remoteSet pu (nullish (cl_jwks_uri c) '''')
          else Inl (Unauthorized (Msg ''client has no registered keys'')))"

definition ASYMMETRIC_ALGS :: "string list" where
  "ASYMMETRIC_ALGS = [''RS256'', ''RS384'', ''RS512'', ''PS256'', ''PS384'', ''PS512'',
     ''ES256'', ''ES384'', ''ES512'', ''EdDSA'']"

section \<open>Hints\<close>

definition LOGIN_HINT_MAX_LENGTH :: nat where "LOGIN_HINT_MAX_LENGTH = 254"

definition hint_char :: "char \<Rightarrow> bool" where
  "hint_char c \<longleftrightarrow> \<not> is_ws c \<and> c \<noteq> CHR ''@'' \<and> c \<noteq> CHR ''<'' \<and> c \<noteq> CHR ''>'' \<and> c \<noteq> CHR 0x22"

text \<open>\<open>^[^\s@<>"]+@[^\s@<>"]+\.[^\s@<>"]+$\<close>: one at-sign, and a dot inside the domain.\<close>

definition email_ish :: "string \<Rightarrow> bool" where
  "email_ish s =
     (case split_char CHR ''@'' s of
        [u, dn] \<Rightarrow> u \<noteq> [] \<and> list_all hint_char u \<and> list_all hint_char dn
          \<and> list_ex (\<lambda>i. 0 < i \<and> i < length dn - 1 \<and> dn ! i = CHR ''.'') [0..<length dn]
      | _ \<Rightarrow> False)"

definition normalizeLoginHint :: "string option \<Rightarrow> string option" where
  "normalizeLoginHint raw =
     (case raw of None \<Rightarrow> None
      | Some s \<Rightarrow> let hint = trim s
                 in if hint = [] \<or> LOGIN_HINT_MAX_LENGTH < length hint then None
                    else if email_ish hint then Some hint else None)"

section \<open>Parameters\<close>

type_synonym query = "string \<Rightarrow> string option"

definition omember :: "string \<Rightarrow> string option \<Rightarrow> (string \<times> json) list" where
  "omember k v = (case v of None \<Rightarrow> [] | Some s \<Rightarrow> [(k, JStr s)])"

definition queryToParams :: "query \<Rightarrow> json" where
  "queryToParams q = mk_obj
     (omember ''responseType'' (q ''response_type'')
      @ [(''clientId'', JStr (nullish (q ''client_id'') '''')),
         (''redirectUri'', JStr (nullish (q ''redirect_uri'') ''''))]
      @ omember ''scope'' (q ''scope'') @ omember ''state'' (q ''state'')
      @ omember ''codeChallenge'' (q ''code_challenge'')
      @ omember ''codeChallengeMethod'' (q ''code_challenge_method'')
      @ omember ''nonce'' (q ''nonce'') @ omember ''acrValues'' (q ''acr_values'')
      @ omember ''prompt'' (q ''prompt'') @ omember ''resource'' (q ''resource'')
      @ omember ''authorizationDetails'' (q ''authorization_details'')
      @ omember ''uiLocales'' (q ''ui_locales'')
      @ omember ''loginHint'' (normalizeLoginHint (q ''login_hint''))
      @ omember ''organization'' (normalizeOrganizationHint (q ''organization''))
      @ omember ''customer'' (normalizeCustomerMarker (q ''customer'')))"

fun members :: "json \<Rightarrow> (string \<times> json) list" where
  "members (JObj kvs) = kvs"
| "members _ = []"

text \<open>\<open>{ ...base, ...defined, redirectUri: pushed.redirectUri }\<close>; a payload without the member leaves
  it \<open>undefined\<close>, that is absent.\<close>

definition mergePushed :: "json \<Rightarrow> json \<Rightarrow> json" where
  "mergePushed base pushed =
     mk_obj (filter (\<lambda>(k, v). k \<noteq> ''redirectUri'') (members base @ members pushed)
             @ (case jget pushed ''redirectUri'' of None \<Rightarrow> [] | Some v \<Rightarrow> [(''redirectUri'', v)]))"

section \<open>Signed request objects\<close>

definition JAR_PARAMS :: "string list" where
  "JAR_PARAMS = [''response_type'', ''client_id'', ''redirect_uri'', ''scope'', ''state'',
     ''code_challenge'', ''code_challenge_method'', ''prompt'', ''nonce'', ''acr_values'', ''resource'']"

definition pickAuthorizeParams :: "prims \<Rightarrow> json \<Rightarrow> query" where
  "pickAuthorizeParams P p = (\<lambda>k.
     if k \<in> set JAR_PARAMS then jstr (jget p k)
     else if k = ''authorization_details''
     then (case jget p k of
             Some (JStr s) \<Rightarrow> Some s
           | Some (JArr xs) \<Rightarrow> Some (p_stringify P (JArr xs))
           | _ \<Rightarrow> None)
     else None)"

text \<open>\<open>payload.client_id && payload.client_id !== clientId\<close>: \<open>js_truthy\<close> of a JSON value.\<close>

definition js_truthy :: "json option \<Rightarrow> bool" where
  "js_truthy v = (case v of None \<Rightarrow> False | Some JNull \<Rightarrow> False | Some (JBool b) \<Rightarrow> b
     | Some (JNum n) \<Rightarrow> n \<noteq> 0 | Some (JStr s) \<Rightarrow> s \<noteq> [] | Some _ \<Rightarrow> True)"

definition resolve_request_object ::
  "jose \<Rightarrow> registry_deps \<Rightarrow> request \<Rightarrow> string \<Rightarrow> string option \<Rightarrow> db \<Rightarrow> error + query"
where
  "resolve_request_object J R rq req clientIdHint d =
     (case jo_header J req of
        None \<Rightarrow> Inl (Bad_Request (Msg ''malformed request object''))
      | Some header \<Rightarrow>
          let alg = jstr (jget header ''alg'') in
          if \<not> truthy alg \<or> nullish alg '''' \<notin> set ASYMMETRIC_ALGS
          then Inl (Bad_Request (Msg (''request object alg '' @ nullish alg ''none'' @ '' not allowed'')))
          else (case jo_claims J req of
                  None \<Rightarrow> Inl (Bad_Request (Msg ''malformed request object''))
                | Some unverified \<Rightarrow>
                    let cid = (if clientIdHint \<noteq> None then clientIdHint else jstr (jget unverified ''client_id'')) in
                    if \<not> truthy cid then Inl (Bad_Request (Msg ''client_id is required with a request object''))
                    else (case validateClient R rq (nullish cid '''') None d of
                            Inl e \<Rightarrow> Inl e
                          | Inr client \<Rightarrow>
                              (case resolveKeySet J (p_parse_url (rd_prims R)) client of
                                 Inl e \<Rightarrow> Inl e
                               | Inr keys \<Rightarrow>
                                   (case jo_verify J (rq_now rq) req keys
                                      \<lparr>vo_algorithms = ASYMMETRIC_ALGS, vo_issuer = None, vo_subject = None,
                                       vo_audience = None, vo_tolerance = 0\<rparr> of
                                      None \<Rightarrow> Inl (Unauthorized (Msg ''request object signature invalid''))
                                    | Some payload \<Rightarrow>
                                        if js_truthy (jget payload ''client_id'')
                                           \<and> jget payload ''client_id'' \<noteq> Some (JStr (nullish cid ''''))
                                        then Inl (Bad_Request (Msg ''request object client_id mismatch''))
                                        else Inr (pickAuthorizeParams (rd_prims R) payload))))))"

section \<open>Pushed requests\<close>

definition REQUEST_URI_PREFIX :: string where
  "REQUEST_URI_PREFIX = ''urn:ietf:params:oauth:request_uri:''"

definition PAR_TTL_SECONDS :: int where "PAR_TTL_SECONDS = 60"

definition par_key :: "string \<Rightarrow> string" where "par_key requestUri = ''par:'' @ requestUri"

text \<open>\<open>push\<close>: \<open>ref\<close> is 36 random bytes in base64url.  \<open>truthy\<close> of the two members the service checks.\<close>

definition par_push :: "prims \<Rightarrow> request \<Rightarrow> string \<Rightarrow> json \<Rightarrow> redis \<Rightarrow> (error + string) \<times> redis" where
  "par_push P rq ref payload s =
     (if \<not> truthy (jstr (jget payload ''clientId'')) then (Inl (Bad_Request (Msg ''client_id is required'')), s)
      else if \<not> truthy (jstr (jget payload ''redirectUri''))
      then (Inl (Bad_Request (Msg ''redirect_uri is required'')), s)
      else let uri = REQUEST_URI_PREFIX @ ref
           in (Inr uri, redis_set (rq_now rq) (par_key uri) (p_stringify P payload) PAR_TTL_SECONDS s))"

definition par_consume :: "prims \<Rightarrow> request \<Rightarrow> string \<Rightarrow> string \<Rightarrow> redis \<Rightarrow> json option \<times> redis" where
  "par_consume P rq requestUri clientId s =
     (if \<not> prefix REQUEST_URI_PREFIX requestUri then (None, s)
      else (case redis_get_del (rq_now rq) (par_key requestUri) s of
              (raw, s') \<Rightarrow>
                ((if \<not> truthy raw then None
                  else case p_json_parse P (nullish raw '''') of
                         None \<Rightarrow> None
                       | Some parsed \<Rightarrow>
                           if jget parsed ''clientId'' \<noteq> Some (JStr clientId) then None else Some parsed), s')))"

section \<open>The parameters of a request\<close>

definition overlay :: "query \<Rightarrow> query \<Rightarrow> query" where
  "overlay q m = (\<lambda>k. if m k \<noteq> None then m k else q k)"

definition resolveAuthorizeParams ::
  "jose \<Rightarrow> registry_deps \<Rightarrow> request \<Rightarrow> query \<Rightarrow> db \<Rightarrow> redis \<Rightarrow> (error + json) \<times> redis"
where
  "resolveAuthorizeParams J R rq q d s =
     (let merged = (if truthy (q ''request'')
                    then if truthy (q ''request_uri'')
                         then Inl (Bad_Request (Msg ''request and request_uri are mutually exclusive''))
                         else map_sum id (overlay q)
                                (resolve_request_object J R rq (nullish (q ''request'') '''') (q ''client_id'') d)
                    else Inr q)
      in case merged of
           Inl e \<Rightarrow> (Inl e, s)
         | Inr eff \<Rightarrow>
             (let base = queryToParams eff; uri = nullish (eff ''request_uri'') '''';
                  cid = nullish (eff ''client_id'') ''''
              in if uri = [] then (Inr base, s)
                 else if cid = [] then (Inl (Bad_Request (Msg ''client_id is required with request_uri'')), s)
                 else (case par_consume (rd_prims R) rq uri cid s of
                         (None, s') \<Rightarrow> (Inl (Bad_Request (Msg ''Invalid or expired request_uri'')), s')
                       | (Some pushed, s') \<Rightarrow> (Inr (mergePushed base pushed), s'))))"


section \<open>Lemmas\<close>

text \<open>A request URI is a single-use credential.\<close>

record par_request =
  pq_request :: request
  pq_uri :: string
  pq_client :: string

definition par_claim :: "prims \<Rightarrow> par_request \<Rightarrow> redis \<Rightarrow> json option \<times> redis" where
  "par_claim P q s = par_consume P (pq_request q) (pq_uri q) (pq_client q) s"

definition uri_gone :: "string \<Rightarrow> redis \<Rightarrow> bool" where
  "uri_gone uri s \<longleftrightarrow> (\<forall>e \<in> set s. ry_key e \<noteq> par_key uri)"

lemma gone_get: "uri_gone uri s \<Longrightarrow> redis_get now (par_key uri) s = None"
  by (auto simp: uri_gone_def redis_get_def find_None_iff)

lemma uri_gone_get_del:
  "uri_gone uri s \<Longrightarrow> uri_gone uri (snd (redis_get_del now k s))"
  by (auto simp: uri_gone_def redis_get_del_def)

lemma consume_success:
  assumes "par_consume P rq uri cid s = (Some parsed, s')"
  shows "\<exists>raw. redis_get (rq_now rq) (par_key uri) s = Some raw \<and> p_json_parse P raw = Some parsed
    \<and> jget parsed ''clientId'' = Some (JStr cid) \<and> uri_gone uri s'"
  using assms
  by (auto simp: par_consume_def redis_get_del_def uri_gone_def
      split: if_splits option.splits elim!: truthyE)

interpretation par: single_use "par_claim P" pq_uri uri_gone "\<lambda>_. True"
proof
  fix q :: par_request and s r s'
  assume "par_claim P q s = (Some r, s')"
  then show "uri_gone (pq_uri q) s'" by (auto simp: par_claim_def dest: consume_success)
next
  fix q :: par_request and s
  assume "uri_gone (pq_uri q) s"
  then show "fst (par_claim P q s) = None"
    by (auto simp: par_claim_def par_consume_def redis_get_del_def gone_get)
next
  fix k s and q :: par_request
  assume "uri_gone k s"
  then show "uri_gone k (snd (par_claim P q s))"
    by (auto simp: par_claim_def par_consume_def redis_get_del_def uri_gone_def)
qed simp

text \<open>A pushed authorization request is used once: of any sequence of uses of a request URI, by
  whichever clients and at whatever times, at most one gets the pushed parameters.\<close>

theorem par_used_once:
  "wins pq_uri uri qs (fst (run_requests (par_claim P) qs s)) \<le> 1"
  by (rule par.at_most_one_win) (rule TrueI)

text \<open>A pushed request comes back as it was pushed: consumed by the client that pushed it within
  sixty seconds it gives the pushed parameters; by another client, or later, nothing.\<close>

theorem par_round_trip:
  assumes "par_push P rq ref payload s = (Inr uri, s1)"
    and "p_json_parse P (p_stringify P payload) = Some payload" and "p_stringify P payload \<noteq> []"
  shows "fst (par_consume P rq' uri cid s1) =
     (if rq_now rq' < rq_now rq + 60000 \<and> jget payload ''clientId'' = Some (JStr cid)
      then Some payload else None)"
proof -
  have uri: "uri = REQUEST_URI_PREFIX @ ref" "prefix REQUEST_URI_PREFIX uri"
    and s1: "s1 = redis_set (rq_now rq) (par_key uri) (p_stringify P payload) 60 s"
    using assms(1) by (auto simp: par_push_def PAR_TTL_SECONDS_def Let_def split: if_splits)
  have "redis_get (rq_now rq') (par_key uri) s1
      = (if rq_now rq' < rq_now rq + 60000 then Some (p_stringify P payload) else None)"
    by (simp add: s1 redis_get_set)
  then show ?thesis
    using uri(2) assms(2,3) by (auto simp: par_consume_def redis_get_del_def)
qed

lemma obj_put_keys: "fst ` set (obj_put k v xs) = insert k (fst ` set xs)"
  by (induction k v xs rule: obj_put.induct) auto

lemma obj_put_distinct: "distinct (map fst xs) \<Longrightarrow> distinct (map fst (obj_put k v xs))"
  by (induction k v xs rule: obj_put.induct) (auto simp: obj_put_keys)

lemma members_distinct: "distinct (map fst (members (mk_obj kvs)))"
proof -
  have "distinct (map fst acc) \<Longrightarrow> distinct (map fst (fold (\<lambda>(k, v). obj_put k v) kvs acc))" for acc
    by (induction kvs arbitrary: acc) (auto intro!: obj_put_distinct)
  then show ?thesis by (simp add: mk_obj_def)
qed

lemma map_of_rev_distinct: "distinct (map fst xs) \<Longrightarrow> map_of (rev xs) = map_of xs"
  by (simp add: map_of_inject_set rev_map [symmetric])

lemma map_of_without: "map_of (filter (\<lambda>(k, v). k \<noteq> r) xs) k = (if k = r then None else map_of xs k)"
  by (induction xs) auto

lemma distinct_filter_keys: "distinct (map fst xs) \<Longrightarrow> distinct (map fst (filter p xs))"
  by (induction xs) auto

lemma mergePushed_other:
  assumes "k \<noteq> ''redirectUri''" and "distinct (map fst (members base))" "distinct (map fst (members pushed))"
  shows "jget (mergePushed base pushed) k =
     (case map_of (members pushed) k of Some v \<Rightarrow> Some v | None \<Rightarrow> map_of (members base) k)"
proof -
  let ?f = "filter (\<lambda>(k, v). k \<noteq> ''redirectUri'')"
  have "jget (mergePushed base pushed) k
      = map_of (rev (?f (members base) @ ?f (members pushed))) k"
    using assms(1) by (simp add: mergePushed_def jget_mk_obj map_add_def split: option.split)
  also have "\<dots> = (map_of (?f (members base)) ++ map_of (?f (members pushed))) k"
    using assms(2,3) by (simp add: map_of_rev_distinct distinct_filter_keys)
  also have "\<dots> = (map_of (members base) ++ map_of (members pushed)) k"
    using assms(1) by (simp add: map_add_def map_of_without split: option.split)
  finally show ?thesis by (simp add: map_add_def)
qed

lemma mergePushed_redirect:
  "jget (mergePushed base pushed) ''redirectUri'' = jget pushed ''redirectUri''"
  by (simp add: mergePushed_def jget_mk_obj map_add_def rev_filter map_of_without split: option.split)

text \<open>With a request URI the pushed values win, and only they decide where the person is sent: the
  parameters are used for the client that pushed them, each pushed one as it was pushed; a parameter
  that was not pushed is taken from the query; the redirect URI never is.\<close>

theorem pushed_parameters_win:
  assumes "resolveAuthorizeParams J R rq q d s = (Inr p, s')"
    and "truthy (q ''request_uri'')" and "\<not> truthy (q ''request'')"
    and "\<forall>raw j. p_json_parse (rd_prims R) raw = Some j \<longrightarrow> distinct (map fst (members j))"
  shows "\<exists>pushed. jget pushed ''clientId'' = Some (JStr (nullish (q ''client_id'') ''''))
    \<and> (\<exists>raw. redis_get (rq_now rq) (par_key (nullish (q ''request_uri'') '''')) s = Some raw
         \<and> p_json_parse (rd_prims R) raw = Some pushed)
    \<and> jget p ''redirectUri'' = jget pushed ''redirectUri''
    \<and> (\<forall>k. k \<noteq> ''redirectUri'' \<longrightarrow>
         jget p k = (case jget pushed k of Some v \<Rightarrow> Some v | None \<Rightarrow> jget (queryToParams q) k))"
proof -
  from assms(1-3) obtain pushed where
    c: "par_consume (rd_prims R) rq (nullish (q ''request_uri'') '''') (nullish (q ''client_id'') '''') s
          = (Some pushed, s')" and p: "p = mergePushed (queryToParams q) pushed"
    by (auto simp: resolveAuthorizeParams_def Let_def split: prod.splits option.splits if_splits elim!: truthyE)
  from consume_success [OF c] obtain raw where
    raw: "redis_get (rq_now rq) (par_key (nullish (q ''request_uri'') '''')) s = Some raw"
      "p_json_parse (rd_prims R) raw = Some pushed"
      "jget pushed ''clientId'' = Some (JStr (nullish (q ''client_id'') ''''))" by blast
  obtain kvs where kvs: "pushed = JObj kvs" using raw(3) by (cases pushed) auto
  have get: "map_of (members pushed) k = jget pushed k" for k by (simp add: kvs)
  have base: "map_of (members (queryToParams q)) k = jget (queryToParams q) k" for k
    by (simp add: queryToParams_def mk_obj_def)
  have dist: "distinct (map fst (members (queryToParams q)))"
    unfolding queryToParams_def by (rule members_distinct)
  show ?thesis
    using raw mergePushed_redirect mergePushed_other [OF _ dist, of _ pushed] assms(4)
    by (intro exI [of _ pushed]) (auto simp: p get base split: option.split)
qed

text \<open>The witnesses: a request is pushed and used.\<close>

definition demo_payload :: json where
  "demo_payload = JObj [(''clientId'', JStr ''shop''), (''redirectUri'', JStr ''https://app.example/cb''),
     (''state'', JStr ''s1'')]"

definition par_prims :: prims where
  "par_prims = demo_prims (\<lambda>s. if s = ''pair'' then Some demo_payload else None)"

definition demo_query :: query where
  "demo_query = (\<lambda>k. map_of [(''client_id'', ''shop''), (''scope'', ''openid''), (''state'', ''forged''),
     (''request_uri'', REQUEST_URI_PREFIX @ ''r1'')] k)"

definition pushed_store :: redis where
  "pushed_store = snd (par_push par_prims demo_rq ''r1'' demo_payload [])"

theorem par_round_trip_witness:
  "fst (par_consume par_prims demo_rq (REQUEST_URI_PREFIX @ ''r1'') ''shop'' pushed_store) = Some demo_payload"
proof -
  have p: "par_push par_prims demo_rq ''r1'' demo_payload [] = (Inr (REQUEST_URI_PREFIX @ ''r1''), pushed_store)"
    by code_simp
  have "p_json_parse par_prims (p_stringify par_prims demo_payload) = Some demo_payload"
    "p_stringify par_prims demo_payload \<noteq> []" "jget demo_payload ''clientId'' = Some (JStr ''shop'')"
    by code_simp+
  with par_round_trip [OF p] show ?thesis by simp
qed

definition jose_none :: jose where
  "jose_none = \<lparr>jo_header = (\<lambda>_. None), jo_claims = (\<lambda>_. None), jo_local_set = (\<lambda>_. False),
     jo_verify = (\<lambda>_ _ _ _. None)\<rparr>"

theorem pushed_parameters_win_witness:
  "\<exists>p. fst (resolveAuthorizeParams jose_none (demo_registry\<lparr>rd_prims := par_prims\<rparr>) demo_rq demo_query demo_db
         pushed_store) = Inr p
     \<and> jget p ''state'' = Some (JStr ''s1'') \<and> jget p ''scope'' = Some (JStr ''openid'')"
proof -
  let ?R = "demo_registry\<lparr>rd_prims := par_prims\<rparr>"
  let ?f = "resolveAuthorizeParams jose_none ?R demo_rq demo_query demo_db pushed_store"
  have "ok (fst ?f) \<noteq> None" by code_simp
  then obtain p s' where f: "?f = (Inr p, s')" by (cases ?f) (auto simp: ok_Some_iff)
  have q: "truthy (demo_query ''request_uri'')" "\<not> truthy (demo_query ''request'')" by code_simp+
  have j: "\<forall>raw j. p_json_parse (rd_prims ?R) raw = Some j \<longrightarrow> distinct (map fst (members j))"
    by (auto simp: par_prims_def demo_payload_def split: if_splits)
  from pushed_parameters_win [OF f q j] obtain pushed raw where
    *: "p_json_parse (rd_prims ?R) raw = Some pushed"
      "\<forall>k. k \<noteq> ''redirectUri'' \<longrightarrow>
         jget p k = (case jget pushed k of Some v \<Rightarrow> Some v | None \<Rightarrow> jget (queryToParams demo_query) k)"
    by blast
  from *(1) have "pushed = demo_payload" by (auto simp: par_prims_def split: if_splits)
  moreover have "jget (queryToParams demo_query) ''scope'' = Some (JStr ''openid'')" by code_simp
  ultimately show ?thesis using f *(2) by (simp add: demo_payload_def)
qed

end
