(* ===== verification/Client_Auth.thy ===== *)
theory Client_Auth
  imports Par "HOL-Library.List_Lexorder" "HOL-Library.Char_ord" "HOL-Library.Multiset"
begin

text \<open>
  How a client proves who it is at the token and PAR endpoints: \<open>src/oauth/client-auth.service.ts\<close>
  dispatching to the signed assertion (\<open>src/oauth/client-assertion.service.ts\<close>, RFC 7523, with its
  replay table \<open>client-assertion-jti.store.ts\<close> and reaper), to the client certificate
  (\<open>src/oauth/mtls.service.ts\<close> and \<open>certificate.util.ts\<close>, RFC 8705) or to the shared secret.
  \<open>X509Certificate\<close>, key thumbprints and \<open>decodeURIComponent\<close> are parameters.
\<close>

section \<open>Certificates\<close>

record certificate =
  ct_raw :: string
  ct_subject :: string
  ct_serial :: string
  ct_key_thumb :: string

record x509_deps =
  xd_parse :: "string \<Rightarrow> certificate option"
  xd_issued :: "certificate \<Rightarrow> certificate \<Rightarrow> bool"
  xd_decode_uri :: "string \<Rightarrow> string option"
  xd_thumbprint :: "json \<Rightarrow> string option"

definition parseForwardedCertificate :: "x509_deps \<Rightarrow> string option \<Rightarrow> certificate option" where
  "parseForwardedCertificate X raw =
     (if \<not> truthy raw then None
      else (let t0 = trim (nullish raw ''''); text = trim (nullish (xd_decode_uri X t0) t0); nl = [CHR 0x0A]
            in if text = [] then None
               else xd_parse X (if \<exists>s \<in> set (suffixes text). prefix ''BEGIN CERTIFICATE'' s then text
                      else ''-----BEGIN CERTIFICATE-----'' @ nl @ filter (\<lambda>c. \<not> is_ws c) text
                           @ nl @ ''-----END CERTIFICATE-----'')))"

definition certificateThumbprint :: "prims \<Rightarrow> certificate \<Rightarrow> string" where
  "certificateThumbprint P c = p_sha256 P (ct_raw c)"

definition rdn_parts :: "string \<Rightarrow> string list" where
  "rdn_parts dn = filter (\<lambda>p. p \<noteq> [])
     (map (\<lambda>p. lower (trim p)) (split_by (\<lambda>c. c = CHR 0x0A \<or> c = CHR '','') dn))"

definition canonicalizeSubjectDn :: "string \<Rightarrow> string" where
  "canonicalizeSubjectDn dn = join_with '','' (sort (rdn_parts dn))"

definition strip_serial :: "string \<Rightarrow> string" where
  "strip_serial s = (if prefix ''serial:'' s \<or> prefix ''serial='' s then drop 7 s else s)"

definition no_zeros :: "string \<Rightarrow> string" where
  "no_zeros s = dropWhile (\<lambda>c. c = CHR ''0'') s"

definition isCertificateRevoked :: "prims \<Rightarrow> certificate \<Rightarrow> string list \<Rightarrow> bool" where
  "isCertificateRevoked P c entries =
     (let thumb = certificateThumbprint P c; fp = p_sha256_hex P (ct_raw c);
          serial = no_zeros (lower (ct_serial c))
      in list_ex (\<lambda>entry. let value = trim entry;
              hex = filter (\<lambda>x. x \<noteq> CHR '':'') (strip_serial (lower value))
            in value \<noteq> [] \<and> (value = thumb \<or> hex = fp \<or> (no_zeros hex = serial \<and> serial \<noteq> []))) entries)"

section \<open>Mutual TLS\<close>

definition TLS_CLIENT_AUTH :: string where "TLS_CLIENT_AUTH = ''tls_client_auth''"
definition SELF_SIGNED_TLS_CLIENT_AUTH :: string where
  "SELF_SIGNED_TLS_CLIENT_AUTH = ''self_signed_tls_client_auth''"

record auth_deps =
  ad_registry :: registry_deps
  ad_jose :: jose
  ad_x509 :: x509_deps
  ad_config :: config

text \<open>The request headers, by lower-case name; a repeated header is its values.\<close>

type_synonym headers = "string \<Rightarrow> string list option"

definition mtls_enabled :: "auth_deps \<Rightarrow> bool" where
  "mtls_enabled A = setting_flag (ad_config A) ''MTLS_ENABLED''"

definition usesMtls :: "client_row \<Rightarrow> bool" where
  "usesMtls c \<longleftrightarrow> cl_auth_method c = TLS_CLIENT_AUTH \<or> cl_auth_method c = SELF_SIGNED_TLS_CLIENT_AUTH"

definition presentedCertificate :: "auth_deps \<Rightarrow> headers \<Rightarrow> certificate option" where
  "presentedCertificate A hs =
     (let header = lower (setting_value (ad_config A) ''MTLS_CLIENT_CERT_HEADER'' ''x-forwarded-tls-client-cert'')
      in parseForwardedCertificate (ad_x509 A)
           (case hs header of Some (v # _) \<Rightarrow> Some v | _ \<Rightarrow> None))"

definition resolveCertThumbprint :: "auth_deps \<Rightarrow> headers \<Rightarrow> client_row \<Rightarrow> string option" where
  "resolveCertThumbprint A hs c =
     (if \<not> mtls_enabled A \<or> \<not> usesMtls c then None
      else map_option (certificateThumbprint (rd_prims (ad_registry A))) (presentedCertificate A hs))"

definition revokedEntries :: "auth_deps \<Rightarrow> string list" where
  "revokedEntries A =
     filter (\<lambda>e. e \<noteq> []) (split_by (\<lambda>c. is_ws c \<or> c = CHR '','')
       (setting_value (ad_config A) ''MTLS_REVOKED_CERTS'' ''''))"

definition assertPkiCertificate :: "auth_deps \<Rightarrow> client_row \<Rightarrow> certificate \<Rightarrow> error + unit" where
  "assertPkiCertificate A c cert =
     (let pem = setting_raw (ad_config A) ''MTLS_TRUSTED_CA_CERT'' in
      if \<not> truthy pem then Inl (Unauthorized (Msg ''mTLS PKI validation is not configured''))
      else case xd_parse (ad_x509 A) (nullish pem '''') of
             None \<Rightarrow> Inl (Unauthorized (Msg ''MTLS_TRUSTED_CA_CERT is not a valid certificate''))
           | Some ca \<Rightarrow>
               if \<not> xd_issued (ad_x509 A) cert ca
               then Inl (Unauthorized (Msg ''client certificate is not issued by the trusted CA''))
               else if \<not> truthy (cl_tls_subject_dn c)
               then Inl (Unauthorized (Msg ''client has no registered certificate subject''))
               else if canonicalizeSubjectDn (ct_subject cert)
                       \<noteq> canonicalizeSubjectDn (nullish (cl_tls_subject_dn c) '''')
               then Inl (Unauthorized (Msg ''client certificate subject does not match''))
               else Inr ())"

definition registered_keys :: "client_row \<Rightarrow> json list" where
  "registered_keys c =
     (case cl_jwks c of None \<Rightarrow> [] | Some j \<Rightarrow> nullish (jarr (jget j ''keys'')) [])"

definition assertSelfSignedCertificate :: "auth_deps \<Rightarrow> client_row \<Rightarrow> certificate \<Rightarrow> error + unit" where
  "assertSelfSignedCertificate A c cert =
     (if registered_keys c = []
      then Inl (Unauthorized (Msg ''client has no registered keys for self-signed mTLS''))
      else if list_ex (\<lambda>k. xd_thumbprint (ad_x509 A) k = Some (ct_key_thumb cert)) (registered_keys c)
      then Inr ()
      else Inl (Unauthorized (Msg ''client certificate key does not match a registered key'')))"

definition authenticate_mtls ::
  "auth_deps \<Rightarrow> request \<Rightarrow> string \<Rightarrow> certificate \<Rightarrow> db \<Rightarrow> error + client_row"
where
  "authenticate_mtls A rq clientId cert d =
     (case validateClient (ad_registry A) rq clientId None d of
        Inl e \<Rightarrow> Inl e
      | Inr c \<Rightarrow>
          if isCertificateRevoked (rd_prims (ad_registry A)) cert (revokedEntries A)
          then Inl (Unauthorized (Msg ''client certificate has been revoked''))
          else if cl_auth_method c = TLS_CLIENT_AUTH
          then map_sum id (\<lambda>_. c) (assertPkiCertificate A c cert)
          else if cl_auth_method c = SELF_SIGNED_TLS_CLIENT_AUTH
          then map_sum id (\<lambda>_. c) (assertSelfSignedCertificate A c cert)
          else Inl (Unauthorized (Msg ''client is not configured for mTLS authentication'')))"

section \<open>Signed assertions\<close>

definition CLIENT_ASSERTION_TYPE :: string where
  "CLIENT_ASSERTION_TYPE = ''urn:ietf:params:oauth:client-assertion-type:jwt-bearer''"

definition MAX_ASSERTION_LIFETIME_S :: int where "MAX_ASSERTION_LIFETIME_S = 300"

definition assertion_alg :: "json \<Rightarrow> error + unit" where
  "assertion_alg header =
     (let alg = jstr (jget header ''alg'')
      in if \<not> truthy alg \<or> nullish alg '''' \<notin> set ASYMMETRIC_ALGS
         then Inl (Unauthorized (Msg (''client_assertion alg '' @ nullish alg ''none'' @ '' not allowed'')))
         else Inr ())"

definition resolveClientId :: "string option \<Rightarrow> json \<Rightarrow> error + string" where
  "resolveClientId hint payload =
     (let cid = (if hint \<noteq> None then hint else jstr (jget payload ''sub''))
      in if \<not> truthy cid \<or> jget payload ''iss'' \<noteq> jget payload ''sub''
            \<or> jget payload ''sub'' \<noteq> Some (JStr (nullish cid ''''))
         then Inl (Unauthorized (Msg ''client_assertion iss/sub must equal client_id''))
         else Inr (nullish cid ''''))"

definition loadPrivateKeyJwtClient :: "string \<Rightarrow> db \<Rightarrow> error + client_row" where
  "loadPrivateKeyJwtClient clientId d =
     (case find_active_client d clientId of
        None \<Rightarrow> Inl (Unauthorized (Msg ''unknown client''))
      | Some c \<Rightarrow> if cl_auth_method c \<noteq> ''private_key_jwt''
                 then Inl (Unauthorized (Msg ''client is not registered for private_key_jwt''))
                 else Inr c)"

definition assertion_options :: "string \<Rightarrow> string list \<Rightarrow> verify_options" where
  "assertion_options clientId audiences =
     \<lparr>vo_algorithms = ASYMMETRIC_ALGS, vo_issuer = Some clientId, vo_subject = Some clientId,
      vo_audience = Some audiences, vo_tolerance = 60\<rparr>"

definition verify_assertion ::
  "auth_deps \<Rightarrow> request \<Rightarrow> string \<Rightarrow> string list \<Rightarrow> client_row \<Rightarrow> string \<Rightarrow> error + json"
where
  "verify_assertion A rq assertion audiences c clientId =
     (case resolveKeySet (ad_jose A) (p_parse_url (rd_prims (ad_registry A))) c of
        Inl e \<Rightarrow> Inl e
      | Inr keys \<Rightarrow>
          (case jo_verify (ad_jose A) (rq_now rq) assertion keys (assertion_options clientId audiences) of
             None \<Rightarrow> Inl (Unauthorized (Msg ''client_assertion signature/claims invalid''))
           | Some payload \<Rightarrow> Inr payload))"

text \<open>\<open>ClientAssertionJtiStore.consume\<close>: the pair of client and identifier is unique in the table.\<close>

definition insert_jti :: "jti_row \<Rightarrow> jti_row list \<Rightarrow> error + jti_row list" where
  "insert_jti r t =
     (if list_ex (\<lambda>x. jt_client x = jt_client r \<and> jt_jti x = jt_jti r) t then Inl Db_Conflict
      else Inr (t @ [r]))"

definition consume_jti :: "string \<Rightarrow> string \<Rightarrow> time \<Rightarrow> db \<Rightarrow> (error + unit) \<times> db" where
  "consume_jti clientId jti expires d =
     (case insert_jti \<lparr>jt_client = clientId, jt_jti = jti, jt_expires = expires\<rparr> (assertion_jtis d) of
        Inl _ \<Rightarrow> (Inl (Unauthorized (Msg ''client_assertion replayed (jti reuse)'')), d)
      | Inr t \<Rightarrow> (Inr (), d\<lparr>assertion_jtis := t\<rparr>))"

text \<open>\<open>String(jti)\<close>.\<close>

definition jti_string :: "json option \<Rightarrow> string" where
  "jti_string v = (case v of None \<Rightarrow> ''undefined'' | Some j \<Rightarrow> js_string j)"

definition enforceReplay :: "request \<Rightarrow> string \<Rightarrow> json \<Rightarrow> db \<Rightarrow> (error + unit) \<times> db" where
  "enforceReplay rq clientId payload d =
     (if \<not> js_truthy (jget payload ''exp'') then (Inl (Unauthorized (Msg ''client_assertion missing exp'')), d)
      else if \<not> js_truthy (jget payload ''jti'') then (Inl (Unauthorized (Msg ''client_assertion missing jti'')), d)
      else let ex = nullish (jnum (jget payload ''exp'')) 0
           in if ex - rq_now rq div 1000 > MAX_ASSERTION_LIFETIME_S
              then (Inl (Bad_Request (Msg ''client_assertion lifetime too long (max 300s)'')), d)
              else consume_jti clientId (jti_string (jget payload ''jti'')) (ex * 1000) d)"

definition authenticate_assertion ::
  "auth_deps \<Rightarrow> request \<Rightarrow> string \<Rightarrow> string option \<Rightarrow> string list \<Rightarrow> db \<Rightarrow> (error + client_row) \<times> db"
where
  "authenticate_assertion A rq assertion hint audiences d =
     (case (jo_header (ad_jose A) assertion, jo_claims (ad_jose A) assertion) of
        (Some header, Some unverified) \<Rightarrow>
          (case assertion_alg header of
             Inl e \<Rightarrow> (Inl e, d)
           | Inr _ \<Rightarrow>
               (case resolveClientId hint unverified of
                  Inl e \<Rightarrow> (Inl e, d)
                | Inr cid \<Rightarrow>
                    (case loadPrivateKeyJwtClient cid d of
                       Inl e \<Rightarrow> (Inl e, d)
                     | Inr c \<Rightarrow>
                         (case verify_assertion A rq assertion audiences c cid of
                            Inl e \<Rightarrow> (Inl e, d)
                          | Inr payload \<Rightarrow>
                              (case enforceReplay rq cid payload d of
                                 (Inl e, d1) \<Rightarrow> (Inl e, d1)
                               | (Inr _, d1) \<Rightarrow> (Inr c, d1))))))
      | _ \<Rightarrow> (Inl (Unauthorized (Msg ''malformed client_assertion'')), d))"

text \<open>\<open>ClientAssertionJtiReaperService.reapExpired\<close>.\<close>

definition reapExpired :: "request \<Rightarrow> db \<Rightarrow> db" where
  "reapExpired rq d = d\<lparr>assertion_jtis := delete_many (\<lambda>r. jt_expires r < rq_now rq) (assertion_jtis d)\<rparr>"

section \<open>The dispatch\<close>

record auth_body =
  ab_client_id :: "string option"
  ab_client_secret :: "string option"
  ab_assertion :: "string option"
  ab_assertion_type :: "string option"

definition audiencesFor :: "config \<Rightarrow> string \<Rightarrow> string list" where
  "audiencesFor cf path = [jwt_issuer cf, jwt_issuer cf @ path]"

definition tryMtlsAuthenticate ::
  "auth_deps \<Rightarrow> request \<Rightarrow> headers option \<Rightarrow> string option \<Rightarrow> string option \<Rightarrow> db \<Rightarrow> error + client_row option"
where
  "tryMtlsAuthenticate A rq hs clientId secret d =
     (case hs of
        None \<Rightarrow> Inr None
      | Some h \<Rightarrow>
          if \<not> mtls_enabled A then Inr None
          else (case presentedCertificate A h of
                  None \<Rightarrow> Inr None
                | Some cert \<Rightarrow>
                    if truthy secret
                    then Inl (Bad_Request (Msg ''present either client_secret or a client certificate, not both''))
                    else map_sum id Some (authenticate_mtls A rq (nullish clientId '''') cert d)))"

definition authenticate ::
  "auth_deps \<Rightarrow> request \<Rightarrow> headers option \<Rightarrow> auth_body \<Rightarrow> string list \<Rightarrow> db \<Rightarrow> (error + client_row) \<times> db"
where
  "authenticate A rq hs b audiences d =
     (if truthy (ab_assertion b)
      then (if truthy (ab_client_secret b)
            then (Inl (Bad_Request (Msg ''present either client_secret or client_assertion, not both'')), d)
            else if ab_assertion_type b \<noteq> Some CLIENT_ASSERTION_TYPE
            then (Inl (Bad_Request (Msg ''unsupported client_assertion_type'')), d)
            else authenticate_assertion A rq (nullish (ab_assertion b) '''') (ab_client_id b) audiences d)
      else (case tryMtlsAuthenticate A rq hs (ab_client_id b) (ab_client_secret b) d of
              Inl e \<Rightarrow> (Inl e, d)
            | Inr (Some c) \<Rightarrow> (Inr c, d)
            | Inr None \<Rightarrow>
                (case validateClientWithSecret (ad_registry A) rq (nullish (ab_client_id b) '''')
                        (nullish (ab_client_secret b) '''') d of
                   Inl e \<Rightarrow> (Inl e, d)
                 | Inr c \<Rightarrow>
                     if cl_auth_method c = ''private_key_jwt''
                     then (Inl (Unauthorized (Msg ''client must authenticate with private_key_jwt'')), d)
                     else if usesMtls c
                     then (Inl (Unauthorized (Msg ''client must authenticate with mTLS'')), d)
                     else (Inr c, d))))"


section \<open>No downgrade\<close>

text \<open>How a client of each method proved itself.\<close>

definition proved_by_key :: "auth_deps \<Rightarrow> request \<Rightarrow> string option \<Rightarrow> string list \<Rightarrow> client_row \<Rightarrow> bool" where
  "proved_by_key A rq assertion audiences c \<longleftrightarrow>
     (\<exists>a keys payload. assertion = Some a
        \<and> resolveKeySet (ad_jose A) (p_parse_url (rd_prims (ad_registry A))) c = Inr keys
        \<and> jo_verify (ad_jose A) (rq_now rq) a keys (assertion_options (cl_client_id c) audiences) = Some payload)"

definition proved_by_certificate :: "auth_deps \<Rightarrow> headers option \<Rightarrow> client_row \<Rightarrow> bool" where
  "proved_by_certificate A hs c \<longleftrightarrow>
     (\<exists>h cert. hs = Some h \<and> mtls_enabled A \<and> presentedCertificate A h = Some cert
        \<and> \<not> isCertificateRevoked (rd_prims (ad_registry A)) cert (revokedEntries A)
        \<and> (if cl_auth_method c = TLS_CLIENT_AUTH then assertPkiCertificate A c cert = Inr ()
           else assertSelfSignedCertificate A c cert = Inr ()))"

definition proved_by_secret :: "auth_deps \<Rightarrow> request \<Rightarrow> string option \<Rightarrow> client_row \<Rightarrow> bool" where
  "proved_by_secret A rq secret c \<longleftrightarrow>
     (if truthy secret
      then rd_compare (ad_registry A) (nullish secret '''') (cl_secret_hash c)
           \<or> matches_previous (ad_registry A) rq c (nullish secret '''')
      else cl_is_public c)"

lemma map_sum_const_Inr: "map_sum id (\<lambda>_. y) r = Inr z \<longleftrightarrow> (\<exists>u. r = Inr u) \<and> z = y"
  by (cases r) auto

lemma consume_jti_frame:
  assumes "consume_jti c j e d = (r, d')"
  shows "d' = d\<lparr>assertion_jtis := assertion_jtis d'\<rparr>"
  using assms by (auto simp: consume_jti_def split: sum.splits)

lemma enforceReplay_frame:
  assumes "enforceReplay rq c p d = (r, d')"
  shows "d' = d\<lparr>assertion_jtis := assertion_jtis d'\<rparr>"
  using assms by (auto simp: enforceReplay_def Let_def split: if_splits dest: consume_jti_frame)

lemma authenticate_assertion_ok:
  assumes "authenticate_assertion A rq a hint auds d = (Inr c, d')"
  shows "c \<in> set (clients d) \<and> cl_active c \<and> cl_auth_method c = ''private_key_jwt''
    \<and> proved_by_key A rq (Some a) auds c
    \<and> (\<exists>unverified. jo_claims (ad_jose A) a = Some unverified \<and> resolveClientId hint unverified = Inr (cl_client_id c))
    \<and> (\<exists>payload. verify_assertion A rq a auds c (cl_client_id c) = Inr payload
         \<and> enforceReplay rq (cl_client_id c) payload d = (Inr (), d'))"
proof -
  from assms obtain header unverified payload cid where
    u: "jo_claims (ad_jose A) a = Some unverified" "resolveClientId hint unverified = Inr cid"
    and l: "loadPrivateKeyJwtClient cid d = Inr c"
    and v: "verify_assertion A rq a auds c cid = Inr payload"
    and e: "enforceReplay rq cid payload d = (Inr (), d')"
    by (auto simp: authenticate_assertion_def split: option.splits sum.splits prod.splits)
  from l have c: "c \<in> set (clients d)" "cl_client_id c = cid" "cl_active c"
    "cl_auth_method c = ''private_key_jwt''"
    by (auto simp: loadPrivateKeyJwtClient_def dest: find_active_clientD split: option.splits if_splits)
  have "proved_by_key A rq (Some a) auds c"
    using v c(2) by (auto simp: verify_assertion_def proved_by_key_def split: sum.splits option.splits)
  with c u e v show ?thesis by blast
qed

lemma authenticate_mtls_ok:
  assumes "authenticate_mtls A rq cid cert d = Inr c"
  shows "c \<in> set (clients d) \<and> cl_client_id c = cid \<and> cl_active c \<and> usesMtls c
    \<and> \<not> isCertificateRevoked (rd_prims (ad_registry A)) cert (revokedEntries A)
    \<and> (if cl_auth_method c = TLS_CLIENT_AUTH then assertPkiCertificate A c cert = Inr ()
       else assertSelfSignedCertificate A c cert = Inr ())"
  using assms
  by (auto simp: authenticate_mtls_def usesMtls_def map_sum_const_Inr
      dest: validateClient_ok split: sum.splits if_splits)

lemma private_key_not_mtls: "cl_auth_method c = ''private_key_jwt'' \<Longrightarrow> \<not> usesMtls c"
  by (simp add: usesMtls_def TLS_CLIENT_AUTH_def SELF_SIGNED_TLS_CLIENT_AUTH_def)

lemma authenticated_ok:
  assumes "authenticate A rq hs b auds d = (Inr c, d')"
  shows "c \<in> set (clients d) \<and> cl_active c
    \<and> (cl_auth_method c = ''private_key_jwt'' \<longrightarrow> proved_by_key A rq (ab_assertion b) auds c)
    \<and> (usesMtls c \<longrightarrow> proved_by_certificate A hs c)
    \<and> (cl_auth_method c \<noteq> ''private_key_jwt'' \<and> \<not> usesMtls c \<longrightarrow> proved_by_secret A rq (ab_client_secret b) c)
    \<and> d' = d\<lparr>assertion_jtis := assertion_jtis d'\<rparr>"
proof (cases "truthy (ab_assertion b)")
  case True
  then have a: "authenticate_assertion A rq (nullish (ab_assertion b) '''') (ab_client_id b) auds d = (Inr c, d')"
    using assms by (simp add: authenticate_def split: if_splits)
  obtain x where x: "ab_assertion b = Some x" using True by (cases "ab_assertion b") auto
  from authenticate_assertion_ok [OF a] x private_key_not_mtls [of c] show ?thesis
    by (auto dest: enforceReplay_frame)
next
  case False
  consider (mtls) "tryMtlsAuthenticate A rq hs (ab_client_id b) (ab_client_secret b) d = Inr (Some c)" "d' = d"
    | (secret) "validateClientWithSecret (ad_registry A) rq (nullish (ab_client_id b) '''')
          (nullish (ab_client_secret b) '''') d = Inr c"
        "cl_auth_method c \<noteq> ''private_key_jwt''" "\<not> usesMtls c" "d' = d"
    using assms False by (auto simp: authenticate_def split: sum.splits option.splits if_splits)
  then show ?thesis
  proof cases
    case mtls
    then obtain h cert where "hs = Some h" "mtls_enabled A" "presentedCertificate A h = Some cert"
      and m: "authenticate_mtls A rq (nullish (ab_client_id b) '''') cert d = Inr c"
      by (auto simp: tryMtlsAuthenticate_def map_sum_def split: option.splits if_splits sum.splits)
    with authenticate_mtls_ok [OF m] private_key_not_mtls [of c] mtls(2) show ?thesis
      by (auto simp: proved_by_certificate_def)
  next
    case secret
    have "proved_by_secret A rq (ab_client_secret b) c"
      using client_secret_ok [OF secret(1)]
      by (cases "ab_client_secret b") (auto simp: proved_by_secret_def)
    with secret client_secret_ok [OF secret(1)] show ?thesis by auto
  qed
qed

text \<open>C14. No downgrade: the client accepted at the token or PAR endpoint is an active registered one
  that proved itself by the method it is registered for: one registered for signed assertions by an
  assertion that its own keys verify for this audience, one registered for certificates by a
  certificate that is not revoked and passes its check, any other by its secret or by being public;
  and nothing but the replay table changes.\<close>

theorem no_downgrade:
  assumes "authenticate A rq hs b auds d = (Inr c, d')"
  shows "c \<in> set (clients d) \<and> cl_active c
    \<and> (cl_auth_method c = ''private_key_jwt'' \<longrightarrow> proved_by_key A rq (ab_assertion b) auds c)
    \<and> (usesMtls c \<longrightarrow> proved_by_certificate A hs c)
    \<and> (cl_auth_method c \<noteq> ''private_key_jwt'' \<and> \<not> usesMtls c \<longrightarrow> proved_by_secret A rq (ab_client_secret b) c)
    \<and> d' = d\<lparr>assertion_jtis := assertion_jtis d'\<rparr>"
  by (rule authenticated_ok [OF assms])

lemma authenticated_named:
  assumes "authenticate A rq hs b auds d = (Inr c, d')"
  shows "(\<forall>cid. ab_client_id b = Some cid \<longrightarrow> cl_client_id c = cid)
    \<and> (ab_client_id b = None \<and> cl_client_id c \<noteq> [] \<longrightarrow> cl_auth_method c = ''private_key_jwt'')"
proof (cases "truthy (ab_assertion b)")
  case True
  then have a: "authenticate_assertion A rq (nullish (ab_assertion b) '''') (ab_client_id b) auds d = (Inr c, d')"
    using assms by (simp add: authenticate_def split: if_splits)
  from authenticate_assertion_ok [OF a] show ?thesis
    by (auto simp: resolveClientId_def Let_def split: if_splits)
next
  case False
  then consider "tryMtlsAuthenticate A rq hs (ab_client_id b) (ab_client_secret b) d = Inr (Some c)"
    | "validateClientWithSecret (ad_registry A) rq (nullish (ab_client_id b) '''')
          (nullish (ab_client_secret b) '''') d = Inr c"
    using assms by (auto simp: authenticate_def split: sum.splits option.splits if_splits)
  then have "cl_client_id c = nullish (ab_client_id b) ''''"
  proof cases
    case 1
    then obtain cert where "authenticate_mtls A rq (nullish (ab_client_id b) '''') cert d = Inr c"
      by (auto simp: tryMtlsAuthenticate_def map_sum_def split: option.splits if_splits sum.splits)
    from authenticate_mtls_ok [OF this] show ?thesis by simp
  next
    case 2
    from client_secret_ok [OF this] show ?thesis by simp
  qed
  then show ?thesis by auto
qed

section \<open>An assertion is used once\<close>

record replay_request =
  pr_request :: request
  pr_client :: string
  pr_payload :: json

definition replay_claim :: "replay_request \<Rightarrow> db \<Rightarrow> unit option \<times> db" where
  "replay_claim q d =
     (ok (fst (enforceReplay (pr_request q) (pr_client q) (pr_payload q) d)),
      snd (enforceReplay (pr_request q) (pr_client q) (pr_payload q) d))"

definition replay_key :: "replay_request \<Rightarrow> string \<times> string" where
  "replay_key q = (pr_client q, jti_string (jget (pr_payload q) ''jti''))"

definition jti_spent :: "string \<times> string \<Rightarrow> db \<Rightarrow> bool" where
  "jti_spent k d \<longleftrightarrow> (\<exists>r \<in> set (assertion_jtis d). (jt_client r, jt_jti r) = k)"

lemma enforceReplay_cases:
  obtains e where "enforceReplay rq c p d = (Inl e, d)"
  | ex where "enforceReplay rq c p d
      = (Inr (), d\<lparr>assertion_jtis := assertion_jtis d @ [\<lparr>jt_client = c, jt_jti = jti_string (jget p ''jti''),
           jt_expires = ex\<rparr>]\<rparr>)" "\<not> jti_spent (c, jti_string (jget p ''jti'')) d"
proof -
  let ?r = "enforceReplay rq c p d"
  show thesis
  proof (cases "fst ?r")
    case (Inl e)
    then have "?r = (Inl e, d)"
      by (auto simp: enforceReplay_def consume_jti_def Let_def split: if_splits sum.splits)
    then show ?thesis by (rule that(1))
  next
    case (Inr u)
    let ?ex = "nullish (jnum (jget p ''exp'')) 0 * 1000"
    have "?r = (Inr (), d\<lparr>assertion_jtis := assertion_jtis d @ [\<lparr>jt_client = c,
        jt_jti = jti_string (jget p ''jti''), jt_expires = ?ex\<rparr>]\<rparr>)
      \<and> \<not> jti_spent (c, jti_string (jget p ''jti'')) d"
      using Inr by (auto simp: enforceReplay_def consume_jti_def insert_jti_def jti_spent_def list_ex_iff Let_def
          split: if_splits sum.splits)
    then show ?thesis using that(2) by blast
  qed
qed

interpretation assertion: single_use replay_claim replay_key jti_spent "\<lambda>_. True"
proof
  fix q :: replay_request and d u d'
  assume "replay_claim q d = (Some u, d')"
  then show "jti_spent (replay_key q) d'"
    by (cases rule: enforceReplay_cases [of "pr_request q" "pr_client q" "pr_payload q" d])
      (auto simp: replay_claim_def replay_key_def jti_spent_def)
next
  fix q :: replay_request and d
  assume "jti_spent (replay_key q) d"
  then show "fst (replay_claim q d) = None"
    by (cases rule: enforceReplay_cases [of "pr_request q" "pr_client q" "pr_payload q" d])
      (auto simp: replay_claim_def replay_key_def)
next
  fix k d and q :: replay_request
  assume "jti_spent k d"
  then show "jti_spent k (snd (replay_claim q d))"
    by (cases rule: enforceReplay_cases [of "pr_request q" "pr_client q" "pr_payload q" d])
      (auto simp: replay_claim_def jti_spent_def)
qed simp

text \<open>A signed assertion is used once while its identifier is remembered: of any sequence of verified
  assertions, at most one with a given client and identifier is accepted.\<close>

theorem assertion_used_once:
  "wins replay_key k qs (fst (run_requests replay_claim qs d)) \<le> 1"
  by (rule assertion.at_most_one_win) (rule TrueI)


lemma resolve_named: "resolveClientId hint p = Inr cid \<Longrightarrow> cid \<noteq> []"
  by (auto simp: resolveClientId_def Let_def split: if_splits elim!: truthyE)

lemma accepted_then_reaped:
  assumes "enforceReplay rq c p d = (Inr (), d1)" and "jnum (jget p ''exp'') = Some ex"
    and "ex * 1000 < rq_now rq2" and "ex - rq_now rq3 div 1000 \<le> 300"
  shows "fst (enforceReplay rq3 c p (reapExpired rq2 d1)) = Inr ()"
proof -
  have truth: "js_truthy (jget p ''exp'')" "js_truthy (jget p ''jti'')"
    and row: "assertion_jtis d1 = assertion_jtis d @ [\<lparr>jt_client = c, jt_jti = jti_string (jget p ''jti''),
        jt_expires = ex * 1000\<rparr>]"
    and fresh: "\<not> jti_spent (c, jti_string (jget p ''jti'')) d"
    using assms(1,2)
    by (auto simp: enforceReplay_def consume_jti_def insert_jti_def jti_spent_def list_ex_iff Let_def
        split: if_splits sum.splits)
  have "\<not> jti_spent (c, jti_string (jget p ''jti'')) (reapExpired rq2 d1)"
  proof
    assume "jti_spent (c, jti_string (jget p ''jti'')) (reapExpired rq2 d1)"
    then obtain r where r: "r \<in> set (assertion_jtis d1)" "\<not> jt_expires r < rq_now rq2"
      "(jt_client r, jt_jti r) = (c, jti_string (jget p ''jti''))"
      by (auto simp: jti_spent_def reapExpired_def)
    then have "r \<notin> set (assertion_jtis d)" using fresh by (auto simp: jti_spent_def)
    then have "jt_expires r = ex * 1000" using r(1) by (simp add: row)
    then show False using r(2) assms(3) by simp
  qed
  then show ?thesis
    using truth assms(2,4)
    by (auto simp: enforceReplay_def consume_jti_def insert_jti_def jti_spent_def list_ex_iff Let_def
        MAX_ASSERTION_LIFETIME_S_def split: sum.split)
qed

text \<open>The replay table forgets an assertion before the verifier stops accepting it: verification
  tolerates sixty seconds after \<open>exp\<close>, the reaper deletes a row as soon as \<open>exp\<close> has passed; so an
  assertion that was accepted is accepted again when the reaper runs in between, as long as it still
  verifies.\<close>

theorem assertion_replayed_after_reaping:
  assumes "authenticate_assertion A rq1 a hint auds d = (Inr c, d1)"
    and "\<forall>t keys opts p. jo_verify (ad_jose A) t a keys opts = Some p \<longrightarrow> jo_claims (ad_jose A) a = Some p"
    and "jo_claims (ad_jose A) a = Some p" and "jnum (jget p ''exp'') = Some ex"
    and "ex * 1000 < rq_now rq2" and "ex - rq_now rq3 div 1000 \<le> 300"
    and "proved_by_key A rq3 (Some a) auds c"
    and "distinct (map cl_client_id (clients d))"
  shows "fst (authenticate_assertion A rq3 a hint auds (reapExpired rq2 d1)) = Inr c"
proof -
  from assms(1) obtain header cid where
    h: "jo_header (ad_jose A) a = Some header" "assertion_alg header = Inr ()"
      "resolveClientId hint p = Inr cid" "loadPrivateKeyJwtClient cid d = Inr c"
    and v: "verify_assertion A rq1 a auds c cid = Inr p"
    and e: "enforceReplay rq1 cid p d = (Inr (), d1)"
    using assms(2,3)
    by (auto simp: authenticate_assertion_def verify_assertion_def split: option.splits sum.splits prod.splits)
  have "cl_client_id c = cid"
    using h(4) by (auto simp: loadPrivateKeyJwtClient_def dest!: find_active_clientD split: option.splits if_splits)
  moreover have "clients d1 = clients d"
    by (rule enforceReplay_cases [of rq1 cid p d]) (use e in auto)
  ultimately have cid: "cl_client_id c = cid" "clients (reapExpired rq2 d1) = clients d"
    by (simp_all add: reapExpired_def)
  have l: "loadPrivateKeyJwtClient cid (reapExpired rq2 d1) = Inr c"
    using h(4) cid(2) by (simp add: loadPrivateKeyJwtClient_def find_active_client_def)
  have v3: "verify_assertion A rq3 a auds c cid = Inr p"
    using assms(2,3,7) cid(1) by (auto simp: proved_by_key_def verify_assertion_def)
  have "fst (enforceReplay rq3 cid p (reapExpired rq2 d1)) = Inr ()"
    by (rule accepted_then_reaped [OF e assms(4-6)])
  then show ?thesis
    using h(1-3) l v3 assms(3)
    by (auto simp: authenticate_assertion_def split: prod.split)
qed

section \<open>Subject names\<close>

lemma lower_not_comma:
  assumes "lower_char c = CHR '',''"
  shows "c = CHR '',''"
proof (rule ccontr)
  assume "c \<noteq> CHR '',''"
  with assms have r: "65 \<le> (of_char c :: nat) \<and> of_char c \<le> (90 :: nat)
        \<or> 192 \<le> (of_char c :: nat) \<and> of_char c \<le> (222 :: nat)"
    and "char_of (of_char c + 32 :: nat) = CHR '',''"
    by (auto simp: lower_char_def Let_def split: if_splits)
  then have "of_char (char_of (of_char c + 32 :: nat) :: char) = (of_char CHR '','' :: nat)" by metis
  then have "(of_char c + 32 :: nat) mod 256 = 44" by (simp add: of_char_of)
  with r show False by auto
qed

lemma trim_subset: "set (trim s) \<subseteq> set s"
proof
  fix x assume "x \<in> set (trim s)"
  then have "x \<in> set (rev (dropWhile is_ws s))" by (auto simp: trim_def dest: set_dropWhileD)
  then show "x \<in> set s" by (auto dest: set_dropWhileD)
qed

lemma rdn_part_shape: "p \<in> set (rdn_parts dn) \<Longrightarrow> p \<noteq> [] \<and> CHR '','' \<notin> set p"
  using trim_subset lower_not_comma
  by (fastforce simp: rdn_parts_def lower_def dest: split_by_sound)

lemma join_comma_inj:
  assumes "\<forall>p \<in> set ps. p \<noteq> [] \<and> CHR '','' \<notin> set p" and "\<forall>q \<in> set qs. q \<noteq> [] \<and> CHR '','' \<notin> set q"
    and "join_with '','' ps = join_with '','' qs"
  shows "ps = qs"
proof -
  have ne: "join_with '','' xs \<noteq> []" if "xs \<noteq> []" "\<forall>p \<in> set xs. p \<noteq> []" for xs :: "string list"
    using that by (cases xs; cases "tl xs") auto
  have split: "split_by (\<lambda>c. c = CHR '','') (join_with '','' xs) = xs"
    if "xs \<noteq> []" "\<forall>p \<in> set xs. CHR '','' \<notin> set p" for xs
    by (rule split_by_join) (use that in auto)
  show ?thesis
  proof (cases "ps = [] \<or> qs = []")
    case True
    have "ps \<noteq> [] \<Longrightarrow> join_with '','' ps \<noteq> []" "qs \<noteq> [] \<Longrightarrow> join_with '','' qs \<noteq> []"
      using assms(1,2) ne by blast+
    with True assms(3) show ?thesis by (cases "ps = []"; cases "qs = []") simp_all
  next
    case False
    then show ?thesis using assms split [of ps] split [of qs] by metis
  qed
qed

text \<open>A certificate's subject matches the registered name exactly when both have the same parts,
  whatever their order, white space and letter case, and each as often.\<close>

theorem subject_match_is_multiset:
  "canonicalizeSubjectDn a = canonicalizeSubjectDn b \<longleftrightarrow> mset (rdn_parts a) = mset (rdn_parts b)"
proof
  assume "canonicalizeSubjectDn a = canonicalizeSubjectDn b"
  then have "sort (rdn_parts a) = sort (rdn_parts b)"
    unfolding canonicalizeSubjectDn_def by (rule join_comma_inj [rotated 2]) (auto dest: rdn_part_shape)
  then show "mset (rdn_parts a) = mset (rdn_parts b)" by (metis mset_sort)
next
  assume "mset (rdn_parts a) = mset (rdn_parts b)"
  then have "sort (rdn_parts a) = sort (rdn_parts b)"
    by (intro properties_for_sort) simp_all
  then show "canonicalizeSubjectDn a = canonicalizeSubjectDn b" by (simp add: canonicalizeSubjectDn_def)
qed

section \<open>Witnesses\<close>

text \<open>A partner registered for signed assertions; the sample verifier accepts its one assertion until
  \<open>exp\<close> and the tolerance have passed.\<close>

definition partner :: client_row where
  "partner = shop\<lparr>cl_client_id := ''partner'', cl_auth_method := ''private_key_jwt'', cl_jwks := Some (JObj [])\<rparr>"

definition demo_claims :: json where
  "demo_claims = JObj [(''iss'', JStr ''partner''), (''sub'', JStr ''partner''), (''exp'', JNum 10), (''jti'', JStr ''j1'')]"

definition demo_jose :: jose where
  "demo_jose = \<lparr>jo_header = (\<lambda>_. Some (JObj [(''alg'', JStr ''ES256'')])), jo_claims = (\<lambda>_. Some demo_claims),
     jo_local_set = (\<lambda>_. True),
     jo_verify = (\<lambda>now _ _ o1. if now < (10 + vo_tolerance o1) * 1000 then Some demo_claims else None)\<rparr>"

definition demo_auth :: auth_deps where
  "demo_auth = \<lparr>ad_registry = demo_registry, ad_jose = demo_jose,
     ad_x509 = \<lparr>xd_parse = (\<lambda>_. None), xd_issued = (\<lambda>_ _. False), xd_decode_uri = (\<lambda>_. None),
       xd_thumbprint = (\<lambda>_. None)\<rparr>, ad_config = demo_config\<rparr>"

definition partner_db :: db where
  "partner_db = demo_db\<lparr>clients := [shop, partner]\<rparr>"

definition assertion_body :: auth_body where
  "assertion_body = \<lparr>ab_client_id = None, ab_client_secret = None, ab_assertion = Some ''jwt'',
     ab_assertion_type = Some CLIENT_ASSERTION_TYPE\<rparr>"

theorem no_downgrade_witness:
  "\<exists>c d'. authenticate demo_auth demo_rq None assertion_body [''aud''] partner_db = (Inr c, d')
     \<and> proved_by_key demo_auth demo_rq (Some ''jwt'') [''aud''] c"
proof -
  let ?r = "authenticate demo_auth demo_rq None assertion_body [''aud''] partner_db"
  have "map_option cl_auth_method (ok (fst ?r)) = Some ''private_key_jwt''" by code_simp
  then obtain c d' where r: "?r = (Inr c, d')" and m: "cl_auth_method c = ''private_key_jwt''"
    by (cases ?r) (auto simp: ok_Some_iff)
  have a: "ab_assertion assertion_body = Some ''jwt''" by (simp add: assertion_body_def)
  from no_downgrade [OF r] m have "proved_by_key demo_auth demo_rq (ab_assertion assertion_body) [''aud''] c" by blast
  with r show ?thesis unfolding a by blast
qed

theorem assertion_replayed_after_reaping_witness:
  "\<exists>d1. authenticate_assertion demo_auth demo_rq ''jwt'' None [''aud''] partner_db = (Inr partner, d1)
     \<and> fst (authenticate_assertion demo_auth (demo_rq\<lparr>rq_now := 12000\<rparr>) ''jwt'' None [''aud'']
              (reapExpired (demo_rq\<lparr>rq_now := 11000\<rparr>) d1)) = Inr partner"
proof -
  let ?r = "authenticate_assertion demo_auth demo_rq ''jwt'' None [''aud''] partner_db"
  have "ok (fst ?r) = Some partner" by code_simp
  then obtain d1 where r: "?r = (Inr partner, d1)"
    by (cases ?r) (auto simp: ok_Some_iff)
  have j: "\<forall>t keys opts p. jo_verify (ad_jose demo_auth) t ''jwt'' keys opts = Some p
      \<longrightarrow> jo_claims (ad_jose demo_auth) ''jwt'' = Some p"
    "jo_claims (ad_jose demo_auth) ''jwt'' = Some demo_claims"
    by (simp_all add: demo_auth_def demo_jose_def)
  have e: "jnum (jget demo_claims ''exp'') = Some 10" by code_simp
  have k: "proved_by_key demo_auth (demo_rq\<lparr>rq_now := 12000\<rparr>) (Some ''jwt'') [''aud''] partner"
    unfolding proved_by_key_def
    by (simp add: demo_auth_def demo_jose_def resolveKeySet_def partner_def is_object_def assertion_options_def)
  have u: "distinct (map cl_client_id (clients partner_db))" by code_simp
  have "fst (authenticate_assertion demo_auth (demo_rq\<lparr>rq_now := 12000\<rparr>) ''jwt'' None [''aud'']
              (reapExpired (demo_rq\<lparr>rq_now := 11000\<rparr>) d1)) = Inr partner"
    by (rule assertion_replayed_after_reaping [OF r j e _ _ k u]) simp_all
  with r show ?thesis by blast
qed

end
