(* ===== verification/Dpop.thy ===== *)
theory Dpop
  imports Par
begin

text \<open>
  \<open>src/oauth/dpop.service.ts\<close>: proofs of possession (RFC 9449).  The JOSE library, key thumbprints and
  the URL parser are parameters; the identifiers already seen are Redis keys that expire.
\<close>

section \<open>The proof\<close>

record dpop_deps =
  dj_header :: "string \<Rightarrow> json option"
  dj_claims :: "string \<Rightarrow> json option"
  dj_import :: "json \<Rightarrow> string \<Rightarrow> bool"
  dj_verify :: "time \<Rightarrow> string \<Rightarrow> json \<Rightarrow> string \<Rightarrow> bool"
  dj_thumbprint :: "json \<Rightarrow> string option"
  dj_url :: "string \<Rightarrow> url option"

definition ALLOWED_ALGS :: "string list" where "ALLOWED_ALGS = [''ES256'', ''ES384'', ''ES512'', ''EdDSA'']"

definition IAT_TOLERANCE_S :: int where "IAT_TOLERANCE_S = 60"

definition JTI_TTL_S :: int where "JTI_TTL_S = 90"

abbreviation (input) bad_proof :: "string \<Rightarrow> error" where
  "bad_proof m \<equiv> Bad_Request (Msg m)"

definition validateProofHeader :: "json \<Rightarrow> error + string \<times> json" where
  "validateProofHeader header =
     (if jget header ''typ'' \<noteq> Some (JStr ''dpop+jwt'') then Inl (bad_proof ''DPoP proof: typ must be dpop+jwt'')
      else let alg = (case jget header ''alg'' of None \<Rightarrow> [] | Some JNull \<Rightarrow> [] | Some v \<Rightarrow> js_string v)
           in if alg \<notin> set ALLOWED_ALGS then Inl (bad_proof (''DPoP proof: alg '' @ alg @ '' not allowed''))
              else (case jget header ''jwk'' of
                      None \<Rightarrow> Inl (bad_proof ''DPoP proof: jwk header missing'')
                    | Some jwk \<Rightarrow>
                        if \<not> is_object jwk then Inl (bad_proof ''DPoP proof: jwk header missing'')
                        else if jget jwk ''d'' \<noteq> None
                        then Inl (bad_proof ''DPoP proof: jwk must not contain private parameters'')
                        else Inr (alg, jwk)))"

text \<open>\<open>importJWK\<close> runs outside the \<open>try\<close>: a key it refuses is an error of the server.\<close>

definition verifyProofSignature :: "dpop_deps \<Rightarrow> request \<Rightarrow> string \<Rightarrow> json \<Rightarrow> string \<Rightarrow> error + unit" where
  "verifyProofSignature J rq proof jwk alg =
     (if \<not> dj_import J jwk alg then Inl (Server_Error ''importJWK'')
      else if dj_verify J (rq_now rq) proof jwk alg then Inr ()
      else Inl (Unauthorized (Msg ''DPoP proof signature invalid'')))"

definition defaultPort :: "string \<Rightarrow> string" where
  "defaultPort protocol =
     (if protocol = ''https:'' then ''443'' else if protocol = ''http:'' then ''80'' else '''')"

definition effective_port :: "url \<Rightarrow> string" where
  "effective_port u = (if url_port u \<noteq> [] then url_port u else defaultPort (url_protocol u))"

definition urlsEqual :: "(string \<Rightarrow> url option) \<Rightarrow> string \<Rightarrow> string \<Rightarrow> bool" where
  "urlsEqual pu a b =
     (case (pu a, pu b) of
        (Some ua, Some ub) \<Rightarrow>
          url_protocol ua = url_protocol ub \<and> lower (url_hostname ua) = lower (url_hostname ub)
          \<and> effective_port ua = effective_port ub \<and> url_pathname ua = url_pathname ub
      | _ \<Rightarrow> False)"

text \<open>\<open>Number(payload.iat ?? 0)\<close>; the verifier refuses an \<open>iat\<close> that is not a number before this runs.\<close>

definition proof_iat :: "json \<Rightarrow> int option" where
  "proof_iat payload = (case jget payload ''iat'' of None \<Rightarrow> Some 0 | v \<Rightarrow> jnum v)"

definition assertBindings ::
  "dpop_deps \<Rightarrow> request \<Rightarrow> json \<Rightarrow> string \<Rightarrow> string \<Rightarrow> error + unit"
where
  "assertBindings J rq payload method u =
     (case jstr (jget payload ''htm'') of
        None \<Rightarrow> Inl (bad_proof ''DPoP proof: htm mismatch'')
      | Some htm \<Rightarrow>
          if upper htm \<noteq> upper method then Inl (bad_proof ''DPoP proof: htm mismatch'')
          else (case jstr (jget payload ''htu'') of
                  None \<Rightarrow> Inl (bad_proof ''DPoP proof: htu mismatch'')
                | Some htu \<Rightarrow>
                    if \<not> urlsEqual (dj_url J) htu u then Inl (bad_proof ''DPoP proof: htu mismatch'')
                    else (case proof_iat payload of
                            None \<Rightarrow> Inl (bad_proof ''DPoP proof: iat outside freshness window'')
                          | Some iat \<Rightarrow>
                              if IAT_TOLERANCE_S < \<bar>rq_now rq div 1000 - iat\<bar>
                              then Inl (bad_proof ''DPoP proof: iat outside freshness window'')
                              else Inr ())))"

definition jti_key :: "string \<Rightarrow> string \<Rightarrow> string" where
  "jti_key jkt jti = ''dpop:jti:'' @ jkt @ '':'' @ jti"

definition assertNotReplayed ::
  "dpop_deps \<Rightarrow> request \<Rightarrow> json \<Rightarrow> json \<Rightarrow> redis \<Rightarrow> (error + string) \<times> redis"
where
  "assertNotReplayed J rq payload jwk s =
     (let jti = jstr (jget payload ''jti'')
      in if \<not> truthy jti then (Inl (bad_proof ''DPoP proof: jti required''), s)
         else (case dj_thumbprint J jwk of
                 None \<Rightarrow> (Inl (Server_Error ''calculateJwkThumbprint''), s)
               | Some jkt \<Rightarrow>
                   let k = jti_key jkt (nullish jti '''')
                   in if truthy (redis_get (rq_now rq) k s)
                      then (Inl (Unauthorized (Msg ''DPoP proof replayed'')), s)
                      else (Inr jkt, redis_set (rq_now rq) k ''1'' JTI_TTL_S s)))"

definition dpop_validate ::
  "dpop_deps \<Rightarrow> request \<Rightarrow> string \<Rightarrow> string \<Rightarrow> string \<Rightarrow> redis \<Rightarrow> (error + string \<times> string) \<times> redis"
where
  "dpop_validate J rq proof method u s =
     (case (dj_header J proof, dj_claims J proof) of
        (Some header, Some payload) \<Rightarrow>
          (case validateProofHeader header of
             Inl e \<Rightarrow> (Inl e, s)
           | Inr (alg, jwk) \<Rightarrow>
               (case verifyProofSignature J rq proof jwk alg of
                  Inl e \<Rightarrow> (Inl e, s)
                | Inr _ \<Rightarrow>
                    (case assertBindings J rq payload method u of
                       Inl e \<Rightarrow> (Inl e, s)
                     | Inr _ \<Rightarrow>
                         (case assertNotReplayed J rq payload jwk s of
                            (Inl e, s') \<Rightarrow> (Inl e, s')
                          | (Inr jkt, s') \<Rightarrow> (Inr (jkt, alg), s')))))
      | _ \<Rightarrow> (Inl (bad_proof ''Malformed DPoP proof''), s))"

section \<open>What an accepted proof shows\<close>

lemma dpop_cases:
  assumes "dpop_validate J rq proof method u s = (Inr (jkt, alg), s')"
  obtains header payload jwk htm htu iat jti where
    "dj_header J proof = Some header" "dj_claims J proof = Some payload"
    "jget header ''typ'' = Some (JStr ''dpop+jwt'')" "alg \<in> set ALLOWED_ALGS"
    "jget header ''jwk'' = Some jwk" "is_object jwk" "jget jwk ''d'' = None"
    "dj_verify J (rq_now rq) proof jwk alg" "dj_thumbprint J jwk = Some jkt"
    "jstr (jget payload ''htm'') = Some htm" "upper htm = upper method"
    "jstr (jget payload ''htu'') = Some htu" "urlsEqual (dj_url J) htu u"
    "proof_iat payload = Some iat" "\<bar>rq_now rq div 1000 - iat\<bar> \<le> 60"
    "jstr (jget payload ''jti'') = Some jti" "jti \<noteq> []"
    "\<not> truthy (redis_get (rq_now rq) (jti_key jkt jti) s)"
    "s' = redis_set (rq_now rq) (jti_key jkt jti) ''1'' 90 s"
    "validateProofHeader header = Inr (alg, jwk)" "dj_import J jwk alg"
proof -
  from assms obtain header payload jwk where
    h: "dj_header J proof = Some header" "dj_claims J proof = Some payload"
    and v: "validateProofHeader header = Inr (alg, jwk)"
    and g: "verifyProofSignature J rq proof jwk alg = Inr ()"
    and b: "assertBindings J rq payload method u = Inr ()"
    and r: "assertNotReplayed J rq payload jwk s = (Inr jkt, s')"
    by (auto simp: dpop_validate_def split: option.splits sum.splits prod.splits)
  from v have v': "jget header ''typ'' = Some (JStr ''dpop+jwt'')" "alg \<in> set ALLOWED_ALGS"
    "jget header ''jwk'' = Some jwk" "is_object jwk" "jget jwk ''d'' = None"
    by (auto simp: validateProofHeader_def Let_def split: if_splits option.splits)
  from g have g': "dj_verify J (rq_now rq) proof jwk alg" "dj_import J jwk alg"
    by (auto simp: verifyProofSignature_def split: if_splits)
  from b obtain htm htu iat where b': "jstr (jget payload ''htm'') = Some htm" "upper htm = upper method"
    "jstr (jget payload ''htu'') = Some htu" "urlsEqual (dj_url J) htu u"
    "proof_iat payload = Some iat" "\<bar>rq_now rq div 1000 - iat\<bar> \<le> 60"
    by (auto simp: assertBindings_def IAT_TOLERANCE_S_def not_less split: if_splits option.splits)
  from r obtain jti where r': "jstr (jget payload ''jti'') = Some jti" "jti \<noteq> []" "dj_thumbprint J jwk = Some jkt"
    "\<not> truthy (redis_get (rq_now rq) (jti_key jkt jti) s)"
    "s' = redis_set (rq_now rq) (jti_key jkt jti) ''1'' 90 s"
    by (auto simp: assertNotReplayed_def Let_def JTI_TTL_S_def split: if_splits option.splits elim!: truthyE)
  show thesis by (rule that) (use h v v' g' b' r' in blast)+
qed


text \<open>An accepted proof is fresh, bound to this request and new: the embedded public key verifies it
  with an allowed algorithm, its method and URL (query aside) are the request's, it was issued within
  sixty seconds, its identifier was not on record for its key, and now is, for ninety seconds.  The
  thumbprint returned is that key's.\<close>

theorem dpop_proof_binds:
  assumes "dpop_validate J rq proof method u s = (Inr (jkt, alg), s')"
  shows "\<exists>header payload jwk htm htu iat jti.
      dj_header J proof = Some header \<and> dj_claims J proof = Some payload
      \<and> jget header ''jwk'' = Some jwk \<and> jget jwk ''d'' = None \<and> dj_thumbprint J jwk = Some jkt
      \<and> alg \<in> {''ES256'', ''ES384'', ''ES512'', ''EdDSA''} \<and> dj_verify J (rq_now rq) proof jwk alg
      \<and> jget payload ''htm'' = Some (JStr htm) \<and> upper htm = upper method
      \<and> jget payload ''htu'' = Some (JStr htu) \<and> urlsEqual (dj_url J) htu u
      \<and> proof_iat payload = Some iat \<and> \<bar>rq_now rq div 1000 - iat\<bar> \<le> 60
      \<and> jget payload ''jti'' = Some (JStr jti) \<and> \<not> truthy (redis_get (rq_now rq) (jti_key jkt jti) s)
      \<and> (\<forall>t. redis_get t (jti_key jkt jti) s' = (if t < rq_now rq + 90000 then Some ''1'' else None))"
proof (rule dpop_cases [OF assms])
  fix header payload jwk htm htu iat jti
  assume a: "dj_header J proof = Some header" "dj_claims J proof = Some payload"
    "jget header ''typ'' = Some (JStr ''dpop+jwt'')" "alg \<in> set ALLOWED_ALGS"
    "jget header ''jwk'' = Some jwk" "is_object jwk" "jget jwk ''d'' = None"
    "dj_verify J (rq_now rq) proof jwk alg" "dj_thumbprint J jwk = Some jkt"
    "jstr (jget payload ''htm'') = Some htm" "upper htm = upper method"
    "jstr (jget payload ''htu'') = Some htu" "urlsEqual (dj_url J) htu u"
    "proof_iat payload = Some iat" "\<bar>rq_now rq div 1000 - iat\<bar> \<le> 60"
    "jstr (jget payload ''jti'') = Some jti" "jti \<noteq> []"
    "\<not> truthy (redis_get (rq_now rq) (jti_key jkt jti) s)"
    "s' = redis_set (rq_now rq) (jti_key jkt jti) ''1'' 90 s"
  have j: "jstr v = Some x \<Longrightarrow> v = Some (JStr x)" for v x by (cases v rule: jstr.cases) auto
  have "\<forall>t. redis_get t (jti_key jkt jti) s' = (if t < rq_now rq + 90000 then Some ''1'' else None)"
    by (simp add: a(19) redis_get_set)
  then show ?thesis using a(1,2,4,5,7-9,11,13-15,18) a(10,12,16) [THEN j]
    by (intro exI [of _ header] exI [of _ payload] exI [of _ jwk] exI [of _ htm] exI [of _ htu] exI [of _ iat]
        exI [of _ jti]) (simp add: ALLOWED_ALGS_def)
qed

section \<open>Once in any ninety seconds\<close>

record dpop_request =
  dq_request :: request
  dq_proof :: string
  dq_method :: string
  dq_url :: string

text \<open>A request made between \<open>t0\<close> and ninety seconds later; the key of its proof is the thumbprint and
  the identifier.\<close>

definition dpop_claim :: "dpop_deps \<Rightarrow> time \<Rightarrow> dpop_request \<Rightarrow> redis \<Rightarrow> (string \<times> string) option \<times> redis" where
  "dpop_claim J t0 q s =
     (if t0 \<le> rq_now (dq_request q) \<and> rq_now (dq_request q) < t0 + 90000
      then (case dpop_validate J (dq_request q) (dq_proof q) (dq_method q) (dq_url q) s of
              (r, s') \<Rightarrow> (ok r, s'))
      else (None, s))"

definition proof_key :: "dpop_deps \<Rightarrow> dpop_request \<Rightarrow> string option" where
  "proof_key J q =
     (case (dj_header J (dq_proof q), dj_claims J (dq_proof q)) of
        (Some h, Some p) \<Rightarrow>
          (case (map_option (dj_thumbprint J) (jget h ''jwk''), jstr (jget p ''jti'')) of
             (Some (Some jkt), Some jti) \<Rightarrow> Some (jti_key jkt jti) | _ \<Rightarrow> None)
      | _ \<Rightarrow> None)"

definition jti_seen :: "time \<Rightarrow> string option \<Rightarrow> redis \<Rightarrow> bool" where
  "jti_seen t0 k s \<longleftrightarrow> (\<exists>key. k = Some key \<and> (\<forall>t < t0 + 90000. redis_get t key s \<noteq> None))"

definition no_blank :: "redis \<Rightarrow> bool" where
  "no_blank s \<longleftrightarrow> (\<forall>e \<in> set s. ry_value e \<noteq> [])"

lemma no_blank_set: "no_blank s \<Longrightarrow> v \<noteq> [] \<Longrightarrow> no_blank (redis_set now k v ttl s)"
  by (auto simp: no_blank_def redis_set_def delete_many_def)

lemma no_blank_truthy: "no_blank s \<Longrightarrow> redis_get now k s \<noteq> None \<Longrightarrow> truthy (redis_get now k s)"
  by (induction s) (auto simp: no_blank_def redis_get_def)

lemma dpop_claim_cases:
  obtains "dpop_claim J t0 q s = (None, s)"
  | r key where "dpop_claim J t0 q s = (Some r, redis_set (rq_now (dq_request q)) key ''1'' 90 s)"
      "proof_key J q = Some key" "t0 \<le> rq_now (dq_request q)" "rq_now (dq_request q) < t0 + 90000"
      "\<not> truthy (redis_get (rq_now (dq_request q)) key s)"
proof -
  let ?v = "dpop_validate J (dq_request q) (dq_proof q) (dq_method q) (dq_url q) s"
  show thesis
  proof (cases "fst ?v")
    case (Inl e)
    then have "snd ?v = s"
      by (auto simp: dpop_validate_def assertNotReplayed_def Let_def split: option.splits sum.splits prod.splits if_splits)
    with Inl have "dpop_claim J t0 q s = (None, s)" by (cases ?v) (simp add: dpop_claim_def)
    then show ?thesis by (rule that(1))
  next
    case (Inr x)
    obtain jkt alg where x: "x = (jkt, alg)" by (cases x)
    then have v: "?v = (Inr (jkt, alg), snd ?v)" using Inr by (cases ?v) simp
    show ?thesis
    proof (cases "t0 \<le> rq_now (dq_request q) \<and> rq_now (dq_request q) < t0 + 90000")
      case True
      show ?thesis
      proof (rule dpop_cases [OF v], rule that(2))
        fix header payload jwk jti
        assume a: "dj_header J (dq_proof q) = Some header" "dj_claims J (dq_proof q) = Some payload"
          "jget header ''jwk'' = Some jwk" "dj_thumbprint J jwk = Some jkt" "jstr (jget payload ''jti'') = Some jti"
          "\<not> truthy (redis_get (rq_now (dq_request q)) (jti_key jkt jti) s)"
          "snd ?v = redis_set (rq_now (dq_request q)) (jti_key jkt jti) ''1'' 90 s"
        show "dpop_claim J t0 q s = (Some (jkt, alg), redis_set (rq_now (dq_request q)) (jti_key jkt jti) ''1'' 90 s)"
          using True v a(7) by (simp add: dpop_claim_def split: prod.split)
        show "proof_key J q = Some (jti_key jkt jti)" using a by (simp add: proof_key_def)
        show "t0 \<le> rq_now (dq_request q)" "rq_now (dq_request q) < t0 + 90000" using True by simp_all
        show "\<not> truthy (redis_get (rq_now (dq_request q)) (jti_key jkt jti) s)" by (fact a(6))
      qed
    next
      case False
      then have "dpop_claim J t0 q s = (None, s)" by (auto simp: dpop_claim_def)
      then show ?thesis by (rule that(1))
    qed
  qed
qed

interpretation dpop: single_use "dpop_claim J t0" "proof_key J" "jti_seen t0" no_blank for J t0
proof
  fix q :: dpop_request and s
  assume "no_blank s"
  then show "no_blank (snd (dpop_claim J t0 q s))"
    by (cases rule: dpop_claim_cases [of J t0 q s]) (auto intro: no_blank_set)
next
  fix q :: dpop_request and s r s'
  assume "dpop_claim J t0 q s = (Some r, s')"
  then show "jti_seen t0 (proof_key J q) s'"
    by (cases rule: dpop_claim_cases [of J t0 q s]) (auto simp: jti_seen_def redis_get_set)
next
  fix q :: dpop_request and s
  assume i: "no_blank s" and k: "jti_seen t0 (proof_key J q) s"
  show "fst (dpop_claim J t0 q s) = None"
  proof (cases rule: dpop_claim_cases [of J t0 q s])
    case (2 r key)
    then have "redis_get (rq_now (dq_request q)) key s \<noteq> None" using k by (auto simp: jti_seen_def)
    with no_blank_truthy [OF i] 2(5) show ?thesis by blast
  qed simp
next
  fix k and q :: dpop_request and s
  assume "jti_seen t0 k s"
  then show "jti_seen t0 k (snd (dpop_claim J t0 q s))"
    by (cases rule: dpop_claim_cases [of J t0 q s]) (auto simp: jti_seen_def redis_get_set)
qed

text \<open>C37. A proof is accepted at most once in any ninety seconds: of any sequence of requests made within
  ninety seconds, at most one with a given key and identifier is accepted.\<close>

theorem dpop_once_in_window:
  assumes "\<forall>e \<in> set s. ry_value e \<noteq> []"
  shows "wins (proof_key J) k qs (fst (run_requests (dpop_claim J t0) qs s)) \<le> 1"
  by (rule dpop.at_most_one_win) (simp add: no_blank_def assms)

text \<open>The identifier is forgotten before the proof expires: a proof dated ahead of the clock, which
  the sixty seconds of tolerance allow, is accepted again ninety seconds later, as long as its
  signature verifies and its date is still within the tolerance.\<close>

theorem dpop_replayed_after_ttl:
  assumes "dpop_validate J rq proof method u s = (Inr (jkt, alg), s')"
    and "dj_claims J proof = Some payload" and "proof_iat payload = Some iat"
    and "rq_now rq + 90000 \<le> rq_now rq2" and "rq_now rq2 div 1000 \<le> iat + 60"
    and "\<forall>jwk. dj_verify J (rq_now rq) proof jwk alg \<longrightarrow> dj_verify J (rq_now rq2) proof jwk alg"
  shows "fst (dpop_validate J rq2 proof method u s') = Inr (jkt, alg)"
proof (rule dpop_cases [OF assms(1)])
  fix header pl jwk htm htu i jti
  assume a: "dj_header J proof = Some header" "dj_claims J proof = Some pl"
    "dj_verify J (rq_now rq) proof jwk alg" "dj_thumbprint J jwk = Some jkt"
    "jstr (jget pl ''htm'') = Some htm" "upper htm = upper method"
    "jstr (jget pl ''htu'') = Some htu" "urlsEqual (dj_url J) htu u"
    "proof_iat pl = Some i" "\<bar>rq_now rq div 1000 - i\<bar> \<le> 60"
    "jstr (jget pl ''jti'') = Some jti" "jti \<noteq> []"
    "s' = redis_set (rq_now rq) (jti_key jkt jti) ''1'' 90 s"
    "validateProofHeader header = Inr (alg, jwk)" "dj_import J jwk alg"
  have i: "i = iat" using a(2,9) assms(2,3) by simp
  have "rq_now rq div 1000 \<le> rq_now rq2 div 1000" using assms(4) by (intro zdiv_mono1) simp_all
  then have f: "\<bar>rq_now rq2 div 1000 - iat\<bar> \<le> 60" using a(10) assms(5) by (simp add: i)
  have g: "redis_get (rq_now rq2) (jti_key jkt jti) s' = None"
    using assms(4) by (simp add: a(13) redis_get_set)
  have "assertBindings J rq2 pl method u = Inr ()"
    using a(5-9) f by (simp add: assertBindings_def IAT_TOLERANCE_S_def i)
  moreover have "verifyProofSignature J rq2 proof jwk alg = Inr ()"
    using a(3,15) assms(6) by (simp add: verifyProofSignature_def)
  moreover obtain s2 where "assertNotReplayed J rq2 pl jwk s' = (Inr jkt, s2)"
    using a(4,11,12) g by (simp add: assertNotReplayed_def Let_def)
  ultimately show ?thesis using a(1,2,14) by (simp add: dpop_validate_def)
qed

section \<open>Witnesses\<close>

definition token_url :: url where
  "token_url = \<lparr>url_protocol = ''https:'', url_hostname = ''auth.example'', url_port = [],
     url_pathname = ''/v1/oauth/token'', url_hash = [], url_username = [], url_password = [],
     url_origin = ''https://auth.example''\<rparr>"

definition demo_proof_claims :: json where
  "demo_proof_claims = JObj [(''htm'', JStr ''post''), (''htu'', JStr ''u''), (''iat'', JNum 65), (''jti'', JStr ''j1'')]"

definition demo_dpop :: dpop_deps where
  "demo_dpop =
     \<lparr>dj_header = (\<lambda>_. Some (JObj [(''typ'', JStr ''dpop+jwt''), (''alg'', JStr ''ES256''), (''jwk'', JObj [])])),
      dj_claims = (\<lambda>_. Some demo_proof_claims), dj_import = (\<lambda>_ _. True), dj_verify = (\<lambda>_ _ _ _. True),
      dj_thumbprint = (\<lambda>_. Some ''thumb''), dj_url = (\<lambda>_. Some token_url)\<rparr>"

lemma demo_proof_accepted:
  "dpop_validate demo_dpop demo_rq ''proof'' ''POST'' ''u'' []
     = (Inr (''thumb'', ''ES256''), redis_set 5000 (jti_key ''thumb'' ''j1'') ''1'' 90 [])"
  by code_simp

theorem dpop_proof_binds_witness:
  "\<exists>jwk. jget (nullish (dj_header demo_dpop ''proof'') JNull) ''jwk'' = Some jwk \<and> dj_thumbprint demo_dpop jwk = Some ''thumb''"
  using dpop_proof_binds [OF demo_proof_accepted] by auto

theorem dpop_once_in_window_witness:
  "wins (proof_key demo_dpop) (Some (jti_key ''thumb'' ''j1''))
     (replicate 2 \<lparr>dq_request = demo_rq, dq_proof = ''proof'', dq_method = ''POST'', dq_url = ''u''\<rparr>)
     (fst (run_requests (dpop_claim demo_dpop 0)
       (replicate 2 \<lparr>dq_request = demo_rq, dq_proof = ''proof'', dq_method = ''POST'', dq_url = ''u''\<rparr>) [])) \<le> 1"
  by (rule dpop_once_in_window) simp

theorem dpop_replayed_after_ttl_witness:
  "fst (dpop_validate demo_dpop (demo_rq\<lparr>rq_now := 95000\<rparr>) ''proof'' ''POST'' ''u''
     (redis_set 5000 (jti_key ''thumb'' ''j1'') ''1'' 90 [])) = Inr (''thumb'', ''ES256'')"
proof -
  have "dj_claims demo_dpop ''proof'' = Some demo_proof_claims" "proof_iat demo_proof_claims = Some 65"
    by code_simp+
  then show ?thesis
    by (rule dpop_replayed_after_ttl [OF demo_proof_accepted]) (simp_all add: demo_dpop_def demo_rq_def)
qed

end
