(* ===== verification/Idempotency.thy ===== *)
theory Idempotency
  imports Redis Environment "HOL-Library.List_Lexorder" "HOL-Library.Char_ord"
begin

text \<open>
  \<open>src/common/idempotency.interceptor.ts\<close>: the \<open>Idempotency-Key\<close> of a POST, in front of the token
  endpoint.  The hash of a body is modelled down to the bytes (\<open>JSON.stringify\<close> with a list of
  members, UTF-8, base64url), since what it distinguishes is what the layer promises.
\<close>

section \<open>JSON text\<close>

definition hex_char :: "nat \<Rightarrow> char" where
  "hex_char n = ''0123456789abcdef'' ! n"

definition json_char :: "char \<Rightarrow> string" where
  "json_char c = (let n = of_char c :: nat in
     if n = 34 then [CHR 0x5C, CHR 0x22]
     else if n = 92 then [CHR 0x5C, CHR 0x5C]
     else if n = 8 then CHR 0x5C # ''b''
     else if n = 9 then CHR 0x5C # ''t''
     else if n = 10 then CHR 0x5C # ''n''
     else if n = 12 then CHR 0x5C # ''f''
     else if n = 13 then CHR 0x5C # ''r''
     else if n < 32 then CHR 0x5C # ''u00'' @ [hex_char (n div 16), hex_char (n mod 16)]
     else [c])"

definition json_quote :: "string \<Rightarrow> string" where
  "json_quote s = CHR 0x22 # concat (map json_char s) @ [CHR 0x22]"

text \<open>\<open>JSON.stringify(j, keys)\<close>: every object is written with the members named in \<open>keys\<close>, in that order.\<close>

definition chosen :: "string list \<Rightarrow> (string \<times> string) list \<Rightarrow> string list" where
  "chosen keys ts = concat (map (\<lambda>k. case map_of ts k of None \<Rightarrow> []
     | Some t \<Rightarrow> [json_quote k @ '':'' @ t]) keys)"

fun stringify_with :: "string list \<Rightarrow> json \<Rightarrow> string" where
  "stringify_with keys JNull = ''null''"
| "stringify_with keys (JBool b) = (if b then ''true'' else ''false'')"
| "stringify_with keys (JNum n) = int_str n"
| "stringify_with keys (JStr s) = json_quote s"
| "stringify_with keys (JArr xs) = ''['' @ join_with '','' (map (stringify_with keys) xs) @ '']''"
| "stringify_with keys (JObj kvs) =
     ''{'' @ join_with '','' (chosen keys (map (\<lambda>kv. (fst kv, stringify_with keys (snd kv))) kvs)) @ ''}''"

fun object_keys :: "json \<Rightarrow> string list" where
  "object_keys (JObj kvs) = remdups (map fst kvs)"
| "object_keys (JArr xs) = map nat_str [0..<length xs]"
| "object_keys (JStr s) = map nat_str [0..<length s]"
| "object_keys _ = []"

section \<open>Bytes\<close>

definition utf8_char :: "char \<Rightarrow> nat list" where
  "utf8_char c = (let n = of_char c :: nat in if n < 128 then [n] else [192 + n div 64, 128 + n mod 64])"

definition utf8 :: "string \<Rightarrow> nat list" where
  "utf8 s = concat (map utf8_char s)"

definition B64_ALPHABET :: string where
  "B64_ALPHABET = ''ABCDEFGHIJKLMNOPQRSTUVWXYZabcdefghijklmnopqrstuvwxyz0123456789-_''"

definition b64_digit :: "nat \<Rightarrow> char" where
  "b64_digit n = B64_ALPHABET ! n"

fun base64url :: "nat list \<Rightarrow> string" where
  "base64url [] = []"
| "base64url [a] = [b64_digit (a div 4), b64_digit (a mod 4 * 16)]"
| "base64url [a, b] = [b64_digit (a div 4), b64_digit (a mod 4 * 16 + b div 16), b64_digit (b mod 16 * 4)]"
| "base64url (a # b # c # r) =
     b64_digit (a div 4) # b64_digit (a mod 4 * 16 + b div 16) # b64_digit (b mod 16 * 4 + c div 64)
     # b64_digit (c mod 64) # base64url r"

section \<open>The interceptor\<close>

definition IDEM_TTL_SECONDS :: int where "IDEM_TTL_SECONDS = 24 * 60 * 60"

definition body_text :: "json option \<Rightarrow> string" where
  "body_text body =
     (let obj = (case body of None \<Rightarrow> JObj [] | Some JNull \<Rightarrow> JObj [] | Some j \<Rightarrow> j)
      in stringify_with (sort (object_keys obj)) obj)"

definition hashBody :: "json option \<Rightarrow> string" where
  "hashBody body = take 64 (base64url (utf8 (body_text body)))"

definition idem_actor ::
  "string option \<Rightarrow> string option \<Rightarrow> json option \<Rightarrow> string option \<Rightarrow> string"
where
  "idem_actor userId sub body ip =
     nullish userId (nullish sub
       (case body of
          Some j \<Rightarrow> (case jget j ''client_id'' of
                      Some v \<Rightarrow> if v = JNull then nullish ip ''anonymous'' else js_string v
                    | None \<Rightarrow> nullish ip ''anonymous'')
        | None \<Rightarrow> nullish ip ''anonymous''))"

definition idem_key :: "string \<Rightarrow> string \<Rightarrow> string" where
  "idem_key actor key = ''idem:'' @ actor @ '':'' @ key"

text \<open>A response: its status and its body.  The kept copy is \<open>CachedResponse\<close>.\<close>

type_synonym response = "int \<times> json option"

definition cached_response :: "response \<Rightarrow> string \<Rightarrow> json" where
  "cached_response r h =
     JObj ((''statusCode'', JNum (fst r))
       # (case snd r of None \<Rightarrow> [] | Some b \<Rightarrow> [(''body'', b)]) @ [(''bodyHash'', JStr h)])"

definition intercept ::
  "prims \<Rightarrow> request \<Rightarrow> string \<Rightarrow> string option \<Rightarrow> json option \<Rightarrow>
   (redis \<times> 's \<Rightarrow> (error + response) \<times> redis \<times> 's) \<Rightarrow> redis \<times> 's \<Rightarrow> (error + response) \<times> redis \<times> 's"
where
  "intercept P rq actor key body handler st =
     (let run = handler st
      in if \<not> truthy key then run
         else (let k = nullish key ''''; rk = idem_key actor k; h = hashBody body in
           if length k < 16 \<or> 128 < length k
           then (Inl (Bad_Request (Msg ''Idempotency-Key must be 16-128 characters'')), st)
           else (let cached = redis_get (rq_now rq) rk (fst st) in
             if truthy cached
             then (case p_json_parse P (nullish cached '''') of
                     None \<Rightarrow> run
                   | Some parsed \<Rightarrow>
                       if parsed = JNull then (Inl (Server_Error ''cannot read the kept response''), st)
                       else if jget parsed ''bodyHash'' \<noteq> Some (JStr h)
                       then (Inl (Bad_Request (Msg ''Idempotency-Key reused with a different request body'')), st)
                       else (Inr (nullish (jnum (jget parsed ''statusCode'')) 0, jget parsed ''body''), st))
             else (case run of
                     (Inl e, st1) \<Rightarrow> (Inl e, st1)
                   | (Inr r, s1, x1) \<Rightarrow>
                       (Inr r, redis_set (rq_now rq) rk (p_stringify P (cached_response r h))
                                 IDEM_TTL_SECONDS s1, x1)))))"

section \<open>What the hash tells apart\<close>

lemma b64_digit_inj: "m < 64 \<Longrightarrow> n < 64 \<Longrightarrow> b64_digit m = b64_digit n \<longleftrightarrow> m = n"
proof -
  have "distinct B64_ALPHABET" "length B64_ALPHABET = 64" by code_simp+
  then show "m < 64 \<Longrightarrow> n < 64 \<Longrightarrow> b64_digit m = b64_digit n \<longleftrightarrow> m = n"
    by (simp add: b64_digit_def nth_eq_iff_index_eq)
qed

lemma digits_inj:
  fixes k :: nat
  assumes "m * k + p = m' * k + p'" and "p < k" and "p' < k"
  shows "m = m' \<and> p = p'"
proof -
  have "(m * k + p) div k = m" "(m' * k + p') div k = m'" using assms(2,3) by simp_all
  then show ?thesis using assms(1) by simp
qed

lemma div_mod_inj: "(m :: nat) div k = n div k \<Longrightarrow> m mod k = n mod k \<Longrightarrow> m = n"
  by (metis div_mult_mod_eq)

lemma sextet_bounds:
  fixes a b c :: nat
  assumes "a < 256" "b < 256" "c < 256"
  shows "a div 4 < 64" "a mod 4 * 16 + b div 16 < 64" "a mod 4 * 16 < 64" "b mod 16 * 4 + c div 64 < 64"
    "b mod 16 * 4 < 64" "c mod 64 < 64" "b div 16 < 16" "c div 64 < 4"
proof -
  show "a div 4 < 64" "b div 16 < 16" "c div 64 < 4" "c mod 64 < 64" using assms by simp_all
  have "a mod 4 < 4" "b mod 16 < 16" "b div 16 < 16" "c div 64 < 4" using assms by simp_all
  then show "a mod 4 * 16 + b div 16 < 64" "a mod 4 * 16 < 64" "b mod 16 * 4 + c div 64 < 64"
    "b mod 16 * 4 < 64" by simp_all
qed

lemma first_byte:
  fixes a b a' b' :: nat
  assumes "a < 256" "b < 256" "a' < 256" "b' < 256" "b64_digit (a div 4) = b64_digit (a' div 4)"
    and "b64_digit (a mod 4 * 16 + b div 16) = b64_digit (a' mod 4 * 16 + b' div 16)"
  shows "a = a' \<and> b div 16 = b' div 16"
proof -
  note s = sextet_bounds [OF assms(1,2), of 0] sextet_bounds [OF assms(3,4), of 0]
  have "a div 4 = a' div 4" "a mod 4 * 16 + b div 16 = a' mod 4 * 16 + b' div 16"
    using assms(5,6) s by (simp_all add: b64_digit_inj)
  moreover have "a mod 4 = a' mod 4 \<and> b div 16 = b' div 16"
    by (rule digits_inj [OF calculation(2)]) (use s in simp_all)
  ultimately show ?thesis using div_mod_inj by blast
qed

lemma second_byte:
  fixes b c b' c' :: nat
  assumes "b < 256" "c < 256" "b' < 256" "c' < 256" "b div 16 = b' div 16"
    and "b64_digit (b mod 16 * 4 + c div 64) = b64_digit (b' mod 16 * 4 + c' div 64)"
  shows "b = b' \<and> c div 64 = c' div 64"
proof -
  note s = sextet_bounds [OF assms(1,1,2)] sextet_bounds [OF assms(3,3,4)]
  have "b mod 16 * 4 + c div 64 = b' mod 16 * 4 + c' div 64" using assms(6) s by (simp add: b64_digit_inj)
  then have "b mod 16 = b' mod 16 \<and> c div 64 = c' div 64" by (rule digits_inj) (use s in simp_all)
  then show ?thesis using assms(5) div_mod_inj by blast
qed

lemma base64url_inj:
  "\<forall>x \<in> set xs. x < 256 \<Longrightarrow> \<forall>y \<in> set ys. y < 256 \<Longrightarrow> base64url xs = base64url ys \<Longrightarrow> xs = ys"
proof (induction xs arbitrary: ys rule: base64url.induct)
  case 1
  then show ?case by (cases ys rule: base64url.cases) simp_all
next
  case (2 a)
  show ?case
  proof (cases ys rule: base64url.cases)
    case (2 a')
    note d = "2.prems" [unfolded 2]
    have "a = a' \<and> (0 :: nat) div 16 = 0 div 16" using d by (intro first_byte) simp_all
    with 2 show ?thesis by simp
  qed (use "2.prems" in simp_all)
next
  case (3 a b)
  show ?case
  proof (cases ys rule: base64url.cases)
    case (3 a' b')
    note d = "3.prems" [unfolded 3]
    have ab: "a = a' \<and> b div 16 = b' div 16" using d by (intro first_byte) simp_all
    have "b = b' \<and> (0 :: nat) div 64 = 0 div 64" using d ab by (intro second_byte) simp_all
    with ab 3 show ?thesis by simp
  qed (use "3.prems" in simp_all)
next
  case (4 a b c r)
  show ?case
  proof (cases ys rule: base64url.cases)
    case (4 a' b' c' r')
    note d = "4.prems" [unfolded 4]
    have ab: "a = a' \<and> b div 16 = b' div 16" using d by (intro first_byte) simp_all
    have bc: "b = b' \<and> c div 64 = c' div 64" using d ab by (intro second_byte) simp_all
    have "c mod 64 = c' mod 64" using d by (simp add: b64_digit_inj)
    with bc have "c = c'" using div_mod_inj by blast
    moreover have "r = r'" using "4.IH" [of r'] d by simp
    ultimately show ?thesis using 4 ab bc by simp
  qed (use "4.prems" in simp_all)
qed

lemma take_base64url: "take (4 * n) (base64url xs) = base64url (take (3 * n) xs)"
proof (induction xs arbitrary: n rule: base64url.induct)
  case (2 a)
  then show ?case by (cases n) (auto simp: take_Cons')
next
  case (3 a b)
  then show ?case by (cases n) (auto simp: take_Cons')
next
  case (4 a b c r)
  show ?case
  proof (cases n)
    case (Suc m)
    have n: "4 * n = Suc (Suc (Suc (Suc (4 * m))))" "3 * n = Suc (Suc (Suc (3 * m)))" by (simp_all add: Suc)
    show ?thesis unfolding n by (simp add: "4.IH")
  qed simp
qed simp

lemma of_char_lt_256: "(of_char c :: nat) < 256"
  by (rule nat_of_char_less_256)

lemma utf8_bytes: "x \<in> set (utf8 s) \<Longrightarrow> x < 256"
proof -
  have "x < 256" if "x \<in> set (utf8_char c)" for c
  proof -
    have "(of_char c :: nat) div 64 < 4" using of_char_lt_256 [of c] by (simp add: less_mult_imp_div_less)
    then show ?thesis using that by (auto simp: utf8_char_def Let_def split: if_splits)
  qed
  then show "x \<in> set (utf8 s) \<Longrightarrow> x < 256" by (auto simp: utf8_def)
qed

lemma hash_eq_iff:
  "hashBody x = hashBody y \<longleftrightarrow> take 48 (utf8 (body_text x)) = take 48 (utf8 (body_text y))"
proof -
  have h: "hashBody z = base64url (take 48 (utf8 (body_text z)))" for z
    using take_base64url [of 16 "utf8 (body_text z)"] by (simp add: hashBody_def)
  have b: "\<forall>v \<in> set (take 48 (utf8 (body_text z))). v < 256" for z
    using utf8_bytes in_set_takeD by fast
  show ?thesis using base64url_inj [OF b b] by (auto simp: h)
qed

text \<open>Two bodies have the same hash exactly when the first 48 bytes of their sorted JSON agree.\<close>

theorem hash_sees_48_bytes:
  "hashBody x = hashBody y \<longleftrightarrow> take 48 (utf8 (body_text x)) = take 48 (utf8 (body_text y))"
  by (rule hash_eq_iff)

section \<open>Retries\<close>

lemma first_call:
  assumes "intercept P rq actor (Some k) body handler (s, x) = (Inr r, s1, x1)"
    and "16 \<le> length k \<and> length k \<le> 128" and "redis_get (rq_now rq) (idem_key actor k) s = None"
  shows "\<exists>s0. handler (s, x) = (Inr r, s0, x1) \<and> s1 = redis_set (rq_now rq) (idem_key actor k)
    (p_stringify P (cached_response r (hashBody body))) IDEM_TTL_SECONDS s0"
proof -
  have k: "truthy (Some k)" "\<not> length k < 16" "\<not> 128 < length k" using assms(2) by auto
  show ?thesis using assms(1,3) k
    by (auto simp: intercept_def Let_def split: prod.splits sum.splits)
qed

lemma cached_members [simp]:
  "jget (cached_response r h) ''bodyHash'' = Some (JStr h)"
  "jget (cached_response r h) ''statusCode'' = Some (JNum (fst r))"
  "jget (cached_response r h) ''body'' = snd r"
  "cached_response r h \<noteq> JNull"
  by (auto simp: cached_response_def split: option.split)

lemma kept_answers:
  assumes "redis_get (rq_now rq) (idem_key actor k) s = Some v" and "v \<noteq> []"
    and "p_json_parse P v = Some (cached_response r h)" and "16 \<le> length k \<and> length k \<le> 128"
  shows "intercept P rq actor (Some k) body handler (s, x) =
    (if hashBody body = h then (Inr r, s, x)
     else (Inl (Bad_Request (Msg ''Idempotency-Key reused with a different request body'')), s, x))"
proof -
  have "truthy (Some k)" "\<not> length k < 16" "\<not> 128 < length k" using assms(4) by auto
  then show ?thesis using assms(1-3) by (simp add: intercept_def Let_def)
qed

lemma first_kept:
  assumes "intercept P rq actor (Some k) body handler (s, x) = (Inr r, s1, x1)"
    and "16 \<le> length k \<and> length k \<le> 128" and "redis_get (rq_now rq) (idem_key actor k) s = None"
    and "rq_now rq2 < rq_now rq + 1000 * (24 * 60 * 60)"
  shows "redis_get (rq_now rq2) (idem_key actor k) s1 = Some (p_stringify P (cached_response r (hashBody body)))"
  using first_call [OF assms(1-3)] assms(4) by (auto simp: redis_get_set IDEM_TTL_SECONDS_def)

text \<open>A retry does not run the handler again: after a first success, a request with the same key and
  actor within a day gets the very response of the first when its body has the same hash, and is
  refused otherwise; the handler's state is not touched either way.\<close>

theorem retry_same_response:
  assumes "intercept P rq actor (Some k) body handler (s, x) = (Inr r, s1, x1)"
    and "16 \<le> length k \<and> length k \<le> 128" and "redis_get (rq_now rq) (idem_key actor k) s = None"
    and "p_json_parse P (p_stringify P (cached_response r (hashBody body)))
      = Some (cached_response r (hashBody body))"
    and "p_stringify P (cached_response r (hashBody body)) \<noteq> []"
    and "rq_now rq2 < rq_now rq + 1000 * (24 * 60 * 60)"
  shows "intercept P rq2 actor (Some k) body2 handler2 (s1, x2) =
    (if hashBody body2 = hashBody body then (Inr r, s1, x2)
     else (Inl (Bad_Request (Msg ''Idempotency-Key reused with a different request body'')), s1, x2))"
  by (rule kept_answers [OF first_kept [OF assms(1-3,6)] assms(5,4,2)])

section \<open>What the hash misses\<close>

text \<open>The body of a refresh by a public client.\<close>

definition refresh_body :: "string \<Rightarrow> string \<Rightarrow> json" where
  "refresh_body cid t = JObj [(''grant_type'', JStr ''refresh_token''), (''client_id'', JStr cid),
     (''refresh_token'', JStr t)]"

lemma refresh_text:
  "body_text (Some (refresh_body cid t)) =
     (''{'' @ json_quote ''client_id'' @ '':'' @ json_quote cid
       @ '','' @ json_quote ''grant_type'' @ '':'' @ json_quote ''refresh_token''
       @ '','' @ json_quote ''refresh_token'' @ '':'') @ json_quote t @ ''}''"
proof -
  have s: "sort (object_keys (refresh_body cid t)) = [''client_id'', ''grant_type'', ''refresh_token'']"
    unfolding refresh_body_def by code_simp
  show ?thesis
    by (simp add: body_text_def s Let_def refresh_body_def chosen_def)
qed

lemma utf8_append: "utf8 (s @ t) = utf8 s @ utf8 t"
  by (simp add: utf8_def)

lemma utf8_len: "length s \<le> length (utf8 s)"
proof (induction s)
  case (Cons c s)
  have "1 \<le> length (utf8_char c)" by (simp add: utf8_char_def Let_def)
  then show ?case using Cons by (simp add: utf8_def)
qed (simp add: utf8_def)

lemma json_quote_len: "length s + 2 \<le> length (json_quote s)"
proof -
  have "length s \<le> length (concat (map json_char s))"
  proof (induction s)
    case (Cons c s)
    have "1 \<le> length (json_char c)" by (simp add: json_char_def Let_def)
    then show ?case using Cons by simp
  qed simp
  then show ?thesis by (simp add: json_quote_def)
qed

lemma refresh_hash:
  assumes "5 \<le> length cid"
  shows "hashBody (Some (refresh_body cid t)) = hashBody (Some (refresh_body cid t'))"
proof -
  let ?p = "''{'' @ json_quote ''client_id'' @ '':'' @ json_quote cid
       @ '','' @ json_quote ''grant_type'' @ '':'' @ json_quote ''refresh_token''
       @ '','' @ json_quote ''refresh_token'' @ '':''"
  have "length (json_quote ''client_id'') = 11" "length (json_quote ''grant_type'') = 12"
    "length (json_quote ''refresh_token'') = 15" by code_simp+
  then have "48 \<le> length ?p" using assms json_quote_len [of cid] by simp
  then have n: "48 \<le> length (utf8 ?p)" using utf8_len [of ?p] by (rule order_trans)
  show ?thesis
    unfolding hash_eq_iff refresh_text utf8_append [of ?p] using n by simp
qed

text \<open>The key is not bound to the token: the hash of a refresh body stops before the refresh token
  when the client's identifier has five characters or more.  So after a first success, a request with
  the same key and another refresh token is not refused, as a different body should be, but gets the
  first one's tokens, and the handler, which would authenticate it, does not run.\<close>

theorem other_token_same_answer:
  assumes "intercept P rq actor (Some k) (Some (refresh_body cid t)) handler (s, x) = (Inr r, s1, x1)"
    and "16 \<le> length k \<and> length k \<le> 128" and "redis_get (rq_now rq) (idem_key actor k) s = None"
    and "p_json_parse P (p_stringify P (cached_response r (hashBody (Some (refresh_body cid t)))))
      = Some (cached_response r (hashBody (Some (refresh_body cid t))))"
    and "p_stringify P (cached_response r (hashBody (Some (refresh_body cid t)))) \<noteq> []"
    and "rq_now rq2 < rq_now rq + 1000 * (24 * 60 * 60)" and "5 \<le> length cid"
  shows "intercept P rq2 actor (Some k) (Some (refresh_body cid t')) handler2 (s1, x2) = (Inr r, s1, x2)"
  using kept_answers [OF first_kept [OF assms(1-3,6)] assms(5,4,2), of "Some (refresh_body cid t')" handler2 x2]
    refresh_hash [OF assms(7), of t' t] by simp

section \<open>Witnesses\<close>

definition idem_prims :: "json \<Rightarrow> prims" where
  "idem_prims body = \<lparr>p_hmac = (\<lambda>k m. m), p_sha256 = (\<lambda>m. m), p_sha256_hex = (\<lambda>m. m),
     p_seal = (\<lambda>k iv m. ('''', m)), p_open = (\<lambda>k iv tag ct. None), p_stringify = (\<lambda>_. ''kept''),
     p_json_parse = (\<lambda>_. Some body), p_sign = (\<lambda>_ _. ''''), p_parse_url = (\<lambda>_. None)\<rparr>"

definition idem_rq :: "time \<Rightarrow> request" where
  "idem_rq now = \<lparr>rq_now = now, rq_id = '''', rq_ip = None, rq_user_agent = None\<rparr>"

definition idem_handler :: "redis \<times> string list \<Rightarrow> (error + response) \<times> redis \<times> string list" where
  "idem_handler st = (Inr (200, Some (JStr ''tokens'')), fst st, snd st @ [''run''])"

abbreviation "idem_kept \<equiv> cached_response (200, Some (JStr ''tokens'')) (hashBody (Some (refresh_body ''inite-cli'' ''a'')))"

lemma idem_first:
  "intercept (idem_prims idem_kept) (idem_rq 0) ''inite-cli'' (Some ''0123456789abcdef'')
     (Some (refresh_body ''inite-cli'' ''a'')) idem_handler ([], [])
   = (Inr (200, Some (JStr ''tokens'')), redis_set 0 (idem_key ''inite-cli'' ''0123456789abcdef'') ''kept''
        IDEM_TTL_SECONDS [], [''run''])"
  by (simp add: intercept_def Let_def redis_get_def idem_handler_def idem_prims_def idem_rq_def)

theorem retry_same_response_witness:
  "intercept (idem_prims idem_kept) (idem_rq 1000) ''inite-cli'' (Some ''0123456789abcdef'') None idem_handler
     (redis_set 0 (idem_key ''inite-cli'' ''0123456789abcdef'') ''kept'' IDEM_TTL_SECONDS [], [''run''])
   = (Inl (Bad_Request (Msg ''Idempotency-Key reused with a different request body'')),
      redis_set 0 (idem_key ''inite-cli'' ''0123456789abcdef'') ''kept'' IDEM_TTL_SECONDS [], [''run''])"
proof -
  have "hashBody None \<noteq> hashBody (Some (refresh_body ''inite-cli'' ''a''))" by code_simp
  then show ?thesis
    using retry_same_response [OF idem_first, of "idem_rq 1000" None idem_handler "[''run'']"]
    by (simp add: redis_get_def idem_prims_def idem_rq_def)
qed

theorem other_token_same_answer_witness:
  "intercept (idem_prims idem_kept) (idem_rq 1000) ''inite-cli'' (Some ''0123456789abcdef'')
     (Some (refresh_body ''inite-cli'' ''stolen'')) idem_handler
     (redis_set 0 (idem_key ''inite-cli'' ''0123456789abcdef'') ''kept'' IDEM_TTL_SECONDS [], [''run''])
   = (Inr (200, Some (JStr ''tokens'')),
      redis_set 0 (idem_key ''inite-cli'' ''0123456789abcdef'') ''kept'' IDEM_TTL_SECONDS [], [''run''])"
  using other_token_same_answer [OF idem_first, of "idem_rq 1000" "''stolen''" idem_handler "[''run'']"]
  by (simp add: redis_get_def idem_prims_def idem_rq_def)

end
