(* ===== verification/OAuth_Errors.thy ===== *)
theory OAuth_Errors
  imports Prelude
begin

text \<open>
  \<open>src/oauth/oauth-errors.ts\<close> and \<open>oauth-error.interceptor.ts\<close>: the error codes with which the token,
  authorize and registration endpoints answer.  The regular expressions are written out; \<open>.\<close> does not
  match a line break.
\<close>

section \<open>Reading an exception\<close>

text \<open>An \<open>HttpException\<close> has a status; anything else a handler throws is not one.\<close>

fun http_status :: "error \<Rightarrow> int option" where
  "http_status (Bad_Request _) = Some 400"
| "http_status (Unauthorized _) = Some 401"
| "http_status (Forbidden _) = Some 403"
| "http_status (Not_Found _) = Some 404"
| "http_status _ = None"

fun exception_body :: "error \<Rightarrow> error_body" where
  "exception_body (Bad_Request b) = b"
| "exception_body (Unauthorized b) = b"
| "exception_body (Forbidden b) = b"
| "exception_body (Not_Found b) = b"
| "exception_body _ = Msg ''''"

definition lower_letter :: "char \<Rightarrow> bool" where
  "lower_letter c = (let n = of_char c :: nat in 97 \<le> n \<and> n \<le> 122)"

definition OAUTH_CODE :: "string \<Rightarrow> bool" where
  "OAUTH_CODE s \<longleftrightarrow> (case s of [] \<Rightarrow> False | c # cs \<Rightarrow>
     lower_letter c \<and> list_all (\<lambda>x. lower_letter x \<or> x = CHR ''_'') cs)"

fun isOAuthErrorBody :: "error_body \<Rightarrow> bool" where
  "isOAuthErrorBody (Msg _) = False"
| "isOAuthErrorBody (OAuth code _) = OAUTH_CODE code"

fun describeException :: "error_body \<Rightarrow> string" where
  "describeException (Msg m) = m"
| "describeException (OAuth code d) = nullish d ''''"

section \<open>The rules\<close>

definition same_line :: "string \<Rightarrow> bool" where
  "same_line s \<longleftrightarrow> CHR 0x0A \<notin> set s \<and> CHR 0x0D \<notin> set s"

text \<open>\<open>a + '.*' + b\<close> somewhere after \<open>a\<close>, on one line.\<close>

definition then_later :: "string \<Rightarrow> string \<Rightarrow> string \<Rightarrow> bool" where
  "then_later a b s \<longleftrightarrow> prefix a s \<and>
     (let r = drop (length a) s
      in list_ex (\<lambda>t. prefix b t \<and> same_line (take (length r - length t) r)) (suffixes r))"

definition rule_dpop :: "string \<Rightarrow> bool" where
  "rule_dpop m \<longleftrightarrow> prefix ''DPoP proof'' m \<or> prefix ''Malformed DPoP proof'' m"

definition GRANT_TYPE_QUOTE :: string where "GRANT_TYPE_QUOTE = ''Grant type '' @ [CHR 0x22]"
definition NOT_ALLOWED_TAIL :: string where
  "NOT_ALLOWED_TAIL = CHR 0x22 # '' is not allowed for this client''"

definition rule_grant_not_allowed :: "string \<Rightarrow> bool" where
  "rule_grant_not_allowed m \<longleftrightarrow> prefix GRANT_TYPE_QUOTE m \<and>
     (let r = drop (length GRANT_TYPE_QUOTE) m
      in suffix NOT_ALLOWED_TAIL r \<and> same_line (take (length r - length NOT_ALLOWED_TAIL) r))"

definition rule_scope :: "string \<Rightarrow> bool" where
  "rule_scope m \<longleftrightarrow> prefix ''Scope(s) not allowed'' m \<or> prefix ''No scopes available'' m
     \<or> prefix ''Requested scope exceeds'' m"

definition rule_target :: "string \<Rightarrow> bool" where
  "rule_target m \<longleftrightarrow> (\<exists>a \<in> {''Resource '', ''Audience ''}. \<exists>b \<in> {'' is not allowed'', '' is not a registered''}.
     then_later (a @ [CHR 0x22]) (CHR 0x22 # b) m)"

definition rule_grant :: "string \<Rightarrow> bool" where
  "rule_grant m \<longleftrightarrow> is_infix ''authorization code'' (lower m) \<or> is_infix ''code verifier'' (lower m)
     \<or> is_infix ''is invalid or expired'' (lower m)"

type_synonym mapper = "int \<Rightarrow> string \<Rightarrow> (int \<times> string) option"

definition tokenErrorMapper :: mapper where
  "tokenErrorMapper status d =
     (if rule_dpop d then Some (400, ''invalid_dpop_proof'')
      else if status = 401 then Some (401, ''invalid_client'')
      else if status \<noteq> 400 then None
      else if d = ''Unsupported grant_type'' then Some (status, ''unsupported_grant_type'')
      else if rule_grant_not_allowed d then Some (status, ''unauthorized_client'')
      else if rule_scope d then Some (status, ''invalid_scope'')
      else if rule_target d then Some (status, ''invalid_target'')
      else if rule_grant d then Some (status, ''invalid_grant'')
      else Some (status, ''invalid_request''))"

definition authorizeErrorMapper :: mapper where
  "authorizeErrorMapper status d =
     (if status = 401 then Some (status, ''invalid_client'')
      else if status \<noteq> 400 then None
      else if is_infix ''response_type'' d then Some (status, ''unsupported_response_type'')
      else if rule_grant_not_allowed d then Some (status, ''unauthorized_client'')
      else if rule_target d then Some (status, ''invalid_target'')
      else if d = ''Invalid or expired request_uri'' then Some (status, ''invalid_request_uri'')
      else if is_infix ''request object'' d then Some (status, ''invalid_request_object'')
      else Some (status, ''invalid_request''))"

definition registerErrorMapper :: mapper where
  "registerErrorMapper status d =
     (if status \<noteq> 400 then None
      else if is_infix ''redirect_uri'' d then Some (status, ''invalid_redirect_uri'')
      else Some (status, ''invalid_client_metadata''))"

text \<open>What leaves the endpoint: a coded answer (status, \<open>error\<close>, \<open>error_description\<close>), or the exception as it was.\<close>

datatype answered = Coded int string "string option" | Uncoded error

definition toOAuthException :: "mapper \<Rightarrow> error \<Rightarrow> answered" where
  "toOAuthException mapper e =
     (case http_status e of
        None \<Rightarrow> Uncoded e
      | Some st \<Rightarrow>
          (case exception_body e of
             OAuth code d \<Rightarrow>
               if OAUTH_CODE code then Coded st code d
               else (case mapper st (nullish d '''') of
                       None \<Rightarrow> Uncoded e | Some (st', c) \<Rightarrow> Coded st' c (Some (nullish d '''')))
           | Msg m \<Rightarrow>
               (case mapper st m of None \<Rightarrow> Uncoded e | Some (st', c) \<Rightarrow> Coded st' c (Some m))))"

end
