(* ===== verification/Token_Endpoint.thy ===== *)
theory Token_Endpoint
  imports Demo_Grant Device_Flow Auth_Code Refresh_Props Client_Auth Dpop Idempotency OAuth_Errors
begin

text \<open>
  The token endpoint: \<open>src/oauth/token.controller.ts\<close> dispatching to \<open>src/oauth/token-grant.service.ts\<close>,
  with the error codes of \<open>src/oauth/oauth-errors.ts\<close> and the idempotency layer around it.  Metrics,
  logs and audit rows are left out; the demo grant's service is taken as present.
\<close>

section \<open>The request\<close>

record token_body =
  tb_grant_type :: "string option"
  tb_code :: "string option"
  tb_redirect_uri :: "string option"
  tb_client_id :: "string option"
  tb_client_secret :: "string option"
  tb_assertion :: "string option"
  tb_assertion_type :: "string option"
  tb_verifier :: "string option"
  tb_refresh_token :: "string option"
  tb_scope :: "string option"
  tb_audience :: "json option"
  tb_subject_token :: "string option"
  tb_subject_token_type :: "string option"
  tb_actor_token :: "string option"
  tb_resource :: "json option"
  tb_device_code :: "string option"

record http_request =
  hr_headers :: headers
  hr_protocol :: "string option"
  hr_path :: string

record token_deps =
  td_auth :: auth_deps
  td_issuer :: issuer_deps
  td_crypto :: "field_crypto option"
  td_resources :: "string option"
  td_m2m :: m2m_deps
  td_dpop :: dpop_deps
  td_credentials :: "string \<Rightarrow> credentials"

definition auth_body_of :: "token_body \<Rightarrow> auth_body" where
  "auth_body_of b = \<lparr>ab_client_id = tb_client_id b, ab_client_secret = tb_client_secret b,
     ab_assertion = tb_assertion b, ab_assertion_type = tb_assertion_type b\<rparr>"

section \<open>The grants\<close>

definition toTokenResponse :: "issued_tokens \<Rightarrow> json" where
  "toTokenResponse it = JObj
     [(''access_token'', JStr (it_access_token it)), (''token_type'', JStr ''Bearer''),
      (''expires_in'', JNum (it_expires_in it)), (''refresh_token'', JStr (it_refresh_token it)),
      (''id_token'', JStr (it_id_token it)), (''scope'', JStr (it_scope it))]"

text \<open>
  \<open>clientId: undefined\<close>: Prisma drops an undefined filter, so the claim matches whatever client the
  code was issued to; then the resource check or the issuer asks for the client by an undefined key,
  which Prisma refuses.
\<close>

definition claimable_unbound :: "string \<Rightarrow> string \<Rightarrow> time \<Rightarrow> code_row \<Rightarrow> bool" where
  "claimable_unbound code uri now c \<longleftrightarrow>
     ac_code c = code \<and> ac_redirect_uri c = uri \<and> \<not> ac_used c \<and> ac_expires c > now"

definition exchange_unbound ::
  "issuer_deps \<Rightarrow> request \<Rightarrow> string \<Rightarrow> string \<Rightarrow> string option \<Rightarrow> db \<Rightarrow> error \<times> db"
where
  "exchange_unbound I rq code uri verifier d =
     (let mine = claimable_unbound code uri (rq_now rq);
          d1 = d\<lparr>auth_codes := update_many mine (\<lambda>c. c\<lparr>ac_used := True\<rparr>) (auth_codes d)\<rparr>
      in if count_where mine (auth_codes d) \<noteq> 1 then handleCodeClaimFailure rq code d1
         else (case find_code d1 code of
                 None \<Rightarrow> (Bad_Request (Msg ''Authorization code not found after claim''), d1)
               | Some c \<Rightarrow>
                   (case find_user d1 (ac_user c) of
                      None \<Rightarrow> (Db_Missing, d1)
                    | Some _ \<Rightarrow>
                        (case pkce_check (is_prims I) c verifier of
                           Inl e \<Rightarrow> (e, d1)
                         | Inr _ \<Rightarrow> (Server_Error ''findUnique: clientId is undefined'', d1)))))"

definition grantAuthorizationCode ::
  "token_deps \<Rightarrow> request \<Rightarrow> entropy \<Rightarrow> token_body \<Rightarrow> db \<Rightarrow> (error + json) \<times> db"
where
  "grantAuthorizationCode T rq en b d =
     (if \<not> truthy (tb_code b) then (Inl (Bad_Request (Msg ''code is required'')), d)
      else if \<not> truthy (tb_redirect_uri b) then (Inl (Bad_Request (Msg ''redirect_uri is required'')), d)
      else if \<not> truthy (tb_verifier b) then (Inl (Bad_Request (Msg ''code_verifier is required (PKCE)'')), d)
      else (case tb_client_id b of
              None \<Rightarrow> (case exchange_unbound (td_issuer T) rq (nullish (tb_code b) '''')
                             (nullish (tb_redirect_uri b) '''') (tb_verifier b) d of (e, d1) \<Rightarrow> (Inl e, d1))
            | Some cid \<Rightarrow>
                (case exchangeAuthorizationCode (td_issuer T) (td_resources T) rq en
                        \<lparr>ei_code = nullish (tb_code b) '''', ei_client = cid,
                         ei_redirect_uri = nullish (tb_redirect_uri b) '''', ei_verifier = tb_verifier b\<rparr> d of
                   (r, d1) \<Rightarrow> (map_sum id toTokenResponse r, d1))))"

text \<open>With no \<open>client_id\<close> every stored row is another client's.\<close>

definition grantRefreshToken ::
  "token_deps \<Rightarrow> request \<Rightarrow> entropy \<Rightarrow> token_body \<Rightarrow> client_row \<Rightarrow> db \<Rightarrow> (error + json) \<times> db"
where
  "grantRefreshToken T rq en b c d =
     (if \<not> truthy (tb_refresh_token b) then (Inl (Bad_Request (Msg ''refresh_token is required'')), d)
      else (case tb_client_id b of
              None \<Rightarrow> (Inl (invalid_grant ''Invalid refresh token''), d)
            | Some cid \<Rightarrow>
                (case refreshAccessToken (td_issuer T) (td_resources T) (td_crypto T) rq en
                        (nullish (tb_refresh_token b) '''') cid (Some c) d of
                   (r, d1) \<Rightarrow> (map_sum id toTokenResponse r, d1))))"

definition device_gen_input :: "device_row \<Rightarrow> user_row \<Rightarrow> string \<Rightarrow> client_row \<Rightarrow> gen_input" where
  "device_gen_input row user cid c =
     \<lparr>gi_user = user, gi_client = cid, gi_scope = join_sp (permittedScopes (scope_client_of c) (dv_scope row)),
      gi_rotated_from = None, gi_nonce = None, gi_amr = [], gi_acr = None,
      gi_audience = (if truthy (dv_resource row) then dv_resource row else None),
      gi_details = None, gi_tenant = None\<rparr>"

definition grantDeviceCode ::
  "token_deps \<Rightarrow> request \<Rightarrow> entropy \<Rightarrow> token_body \<Rightarrow> client_row \<Rightarrow> db \<Rightarrow> (error + json) \<times> db"
where
  "grantDeviceCode T rq en b c d =
     (if \<not> truthy (tb_device_code b) then (Inl (Bad_Request (Msg ''device_code is required'')), d)
      else (case tb_client_id b of
              None \<Rightarrow> (Inl (oauth_error ''invalid_grant''), d)
            | Some cid \<Rightarrow>
                (case pollForApproval (is_prims (td_issuer T)) rq (nullish (tb_device_code b) '''') cid d of
                   (Inl e, d1) \<Rightarrow> (Inl e, d1)
                 | (Inr row, d1) \<Rightarrow>
                     (case find_user d1 (nullish (dv_user row) '''') of
                        None \<Rightarrow> (Inl (Bad_Request (OAuth ''invalid_grant'' None)), d1)
                      | Some user \<Rightarrow>
                          (case generateTokens (td_issuer T) rq en (device_gen_input row user cid c) None d1 of
                             (r, d2) \<Rightarrow> (map_sum id toTokenResponse r, d2))))))"

definition header_text :: "headers \<Rightarrow> string \<Rightarrow> string option" where
  "header_text hs k = map_option (join_with '','') (hs k)"

definition buildRequestUrl :: "http_request \<Rightarrow> string" where
  "buildRequestUrl hr =
     (let proto = nullish (header_text (hr_headers hr) ''x-forwarded-proto'') (nullish (hr_protocol hr) ''https'');
          host = nullish (header_text (hr_headers hr) ''host'') ''''
      in proto @ ''://'' @ host @ hr_path hr)"

definition resolveDpopJkt ::
  "token_deps \<Rightarrow> request \<Rightarrow> http_request \<Rightarrow> redis \<Rightarrow> (error + string option) \<times> redis"
where
  "resolveDpopJkt T rq hr s =
     (let proof = header_text (hr_headers hr) ''dpop''
      in if \<not> truthy proof then (Inr None, s)
         else (case dpop_validate (td_dpop T) rq (nullish proof '''') ''POST'' (buildRequestUrl hr) s of
                 (Inl e, s1) \<Rightarrow> (Inl e, s1)
               | (Inr (jkt, _), s1) \<Rightarrow> (Inr (Some jkt), s1)))"

definition m2m_response :: "m2m_answer \<Rightarrow> json" where
  "m2m_response a = JObj
     [(''access_token'', JStr (mr_access_token a)), (''token_type'', JStr (mr_token_type a)),
      (''expires_in'', JNum (mr_expires_in a)), (''scope'', JStr (mr_scope a))]"

definition grantClientCredentials ::
  "token_deps \<Rightarrow> request \<Rightarrow> http_request \<Rightarrow> token_body \<Rightarrow> client_row \<Rightarrow> redis \<Rightarrow> (error + json) \<times> redis"
where
  "grantClientCredentials T rq hr b c s =
     (case resolveDpopJkt T rq hr s of
        (Inl e, s1) \<Rightarrow> (Inl e, s1)
      | (Inr jkt, s1) \<Rightarrow>
          (map_sum id m2m_response
             (issueClientCredentialsToken (td_m2m T)
                \<lparr>cc_client = c, cc_scope = tb_scope b,
                 cc_audience = requestedAudience (tb_audience b) (tb_resource b) (cl_allowed_audiences c),
                 cc_jkt = jkt, cc_cert = resolveCertThumbprint (td_auth T) (hr_headers hr) c\<rparr>), s1))"

definition exchange_response :: "exchange_answer \<Rightarrow> json" where
  "exchange_response a = JObj
     [(''access_token'', JStr (xr_access_token a)), (''issued_token_type'', JStr (xr_issued_token_type a)),
      (''token_type'', JStr ''Bearer''), (''expires_in'', JNum (xr_expires_in a)),
      (''scope'', JStr (xr_scope a))]"

text \<open>A repeated \<open>resource\<close> or \<open>audience\<close> of an exchange is outside the model; only text is passed on.\<close>

definition grantTokenExchange :: "token_deps \<Rightarrow> token_body \<Rightarrow> client_row \<Rightarrow> error + json" where
  "grantTokenExchange T b c =
     (if \<not> truthy (tb_subject_token b) \<or> \<not> truthy (tb_subject_token_type b)
      then Inl (Bad_Request (Msg ''subject_token and subject_token_type are required''))
      else map_sum id exchange_response
             (exchangeToken (td_m2m T)
                \<lparr>xi_client = c, xi_subject = nullish (tb_subject_token b) '''',
                 xi_subject_type = nullish (tb_subject_token_type b) '''', xi_actor = tb_actor_token b,
                 xi_scope = tb_scope b, xi_resource = jstr (tb_resource b), xi_audience = jstr (tb_audience b)\<rparr>))"

section \<open>The dispatch\<close>

definition DEVICE_GRANT :: string where
  "DEVICE_GRANT = ''urn:ietf:params:oauth:grant-type:device_code''"

definition on_db :: "((error + json) \<times> db) \<Rightarrow> redis \<Rightarrow> (error + json) \<times> db \<times> redis" where
  "on_db r s = (fst r, snd r, s)"

definition run_grant ::
  "token_deps \<Rightarrow> request \<Rightarrow> entropy \<Rightarrow> http_request \<Rightarrow> token_body \<Rightarrow> client_row \<Rightarrow> db \<times> redis \<Rightarrow>
   (error + json) \<times> db \<times> redis"
where
  "run_grant T rq en hr b c st =
     (let g = nullish (tb_grant_type b) ''''; d = fst st; s = snd st
      in if g = ''authorization_code'' then on_db (grantAuthorizationCode T rq en b d) s
         else if g = ''refresh_token'' then on_db (grantRefreshToken T rq en b c d) s
         else if g = DEVICE_GRANT then on_db (grantDeviceCode T rq en b c d) s
         else if g = ''client_credentials''
         then (case grantClientCredentials T rq hr b c s of (r, s1) \<Rightarrow> (r, d, s1))
         else if g = TOKEN_EXCHANGE_GRANT then (grantTokenExchange T b c, d, s)
         else (Inl (Bad_Request (Msg ''Unsupported grant_type'')), d, s))"

definition token ::
  "token_deps \<Rightarrow> request \<Rightarrow> entropy \<Rightarrow> http_request \<Rightarrow> token_body \<Rightarrow> db \<times> redis \<Rightarrow>
   (error + json) \<times> db \<times> redis"
where
  "token T rq en hr b st =
     (if \<not> truthy (tb_grant_type b) then (Inl (Bad_Request (Msg ''grant_type is required'')), st)
      else (case authenticate (td_auth T) rq (Some (hr_headers hr)) (auth_body_of b)
                   (audiencesFor (ad_config (td_auth T)) ''/v1/oauth/token'') (fst st) of
              (Inl e, d1) \<Rightarrow> (Inl e, d1, snd st)
            | (Inr c, d1) \<Rightarrow>
                if isDemoGrantRequest (tb_grant_type b) (tb_subject_token_type b)
                then (map_sum id exchange_response
                        (demo_issue (is_prims (td_issuer T)) (is_config (td_issuer T)) (td_credentials T)
                           (tb_subject_token b) c d1), d1, snd st)
                else (case validateGrantType c (nullish (tb_grant_type b) '''') of
                        Inl e \<Rightarrow> (Inl e, d1, snd st)
                      | Inr _ \<Rightarrow> run_grant T rq en hr b c (d1, snd st))))"


section \<open>Who gets tokens\<close>

text \<open>What a grant redeems, by its type.\<close>

definition redeems_own :: "token_deps \<Rightarrow> request \<Rightarrow> token_body \<Rightarrow> client_row \<Rightarrow> db \<Rightarrow> bool" where
  "redeems_own T rq b c d \<longleftrightarrow>
     (tb_grant_type b = Some ''authorization_code'' \<longrightarrow>
        (\<exists>x \<in> set (auth_codes d). tb_code b = Some (ac_code x) \<and> ac_client x = cl_client_id c
           \<and> tb_redirect_uri b = Some (ac_redirect_uri x) \<and> \<not> ac_used x \<and> rq_now rq < ac_expires x
           \<and> (truthy (ac_challenge x) \<longrightarrow> (\<exists>v. tb_verifier b = Some v \<and>
                (ac_challenge x = Some (p_sha256 (is_prims (td_issuer T)) v)
                 \<or> ac_challenge x = Some v \<and> ac_challenge_method x = Some ''plain'')))))
   \<and> (tb_grant_type b = Some ''refresh_token'' \<longrightarrow>
        (\<exists>v x. tb_refresh_token b = Some v \<and> presented (td_issuer T) v d = Some x
           \<and> rt_client x = cl_client_id c))
   \<and> (tb_grant_type b = Some DEVICE_GRANT \<longrightarrow>
        (\<exists>v. tb_device_code b = Some v \<and> (\<exists>x \<in> set (devices d).
           dv_code_hash x = p_sha256 (is_prims (td_issuer T)) v \<and> dv_client x = cl_client_id c
           \<and> dv_status x = ''approved'' \<and> rq_now rq \<le> dv_expires x)))"

lemma poll_redeems:
  assumes "pollForApproval P rq code cid d = (Inr row, d')"
  shows "\<exists>x \<in> set (devices d). dv_code_hash x = p_sha256 P code \<and> dv_client x = cid
    \<and> dv_status x = ''approved'' \<and> rq_now rq \<le> dv_expires x"
  by (rule poll_table [of P rq code cid d]) (use assms in auto)

lemma pkce_check_used [simp]: "pkce_check P (c\<lparr>ac_used := u\<rparr>) v = pkce_check P c v"
  by (simp add: pkce_check_def cong: if_cong)

lemma code_redeems:
  assumes "distinct (map ac_code (auth_codes d))" and "exchangeAuthorizationCode I reg rq en i d = (Inr it, d')"
  obtains c where "c \<in> set (auth_codes d)" "claimable i (rq_now rq) c" "pkce_check (is_prims I) c (ei_verifier i) = Inr ()"
proof (rule exchange_success [OF assms(2)])
  fix c user audience d2
  assume a: "count_where (claimable i (rq_now rq)) (auth_codes d) = 1"
    "find_code (d\<lparr>auth_codes := mark_used i (rq_now rq) (auth_codes d)\<rparr>) (ei_code i) = Some c"
    "pkce_check (is_prims I) c (ei_verifier i) = Inr ()"
  from claim_unique [OF assms(1) a(1)] obtain c0 where c0: "c0 \<in> set (auth_codes d)" "claimable i (rq_now rq) c0"
    "List.find (\<lambda>x. ac_code x = ei_code i) (mark_used i (rq_now rq) (auth_codes d)) = Some (c0\<lparr>ac_used := True\<rparr>)" .
  have "c = c0\<lparr>ac_used := True\<rparr>" using a(2) c0(3) by (simp add: find_code_def)
  then have "pkce_check (is_prims I) c0 (ei_verifier i) = Inr ()" using a(3) by simp
  then show thesis by (rule that [OF c0(1,2)])
qed

lemma grant_redeems:
  assumes "run_grant T rq en hr b c (d, s) = (Inr j, d', s')" and "distinct (map ac_code (auth_codes d))"
    and "truthy (tb_grant_type b)" and "\<forall>cid. tb_client_id b = Some cid \<longrightarrow> cid = cl_client_id c"
  shows "redeems_own T rq b c d"
proof -
  obtain g where g: "tb_grant_type b = Some g" using assms(3) by (cases "tb_grant_type b") auto
  show ?thesis
    unfolding redeems_own_def g
  proof (intro conjI impI)
    assume "Some g = Some ''authorization_code''"
    then have r: "grantAuthorizationCode T rq en b d = (Inr j, d')"
      using assms(1) g by (cases "grantAuthorizationCode T rq en b d") (simp add: run_grant_def on_db_def)
    obtain code uri cid it v where e: "tb_code b = Some code" "tb_redirect_uri b = Some uri" "tb_client_id b = Some cid"
      "tb_verifier b = Some v"
      "exchangeAuthorizationCode (td_issuer T) (td_resources T) rq en
         \<lparr>ei_code = code, ei_client = cid, ei_redirect_uri = uri, ei_verifier = Some v\<rparr> d = (Inr it, d')"
      using r by (auto simp: grantAuthorizationCode_def split: if_splits option.splits prod.splits
          elim!: truthyE map_sum_InrE)
    show "\<exists>x \<in> set (auth_codes d). tb_code b = Some (ac_code x) \<and> ac_client x = cl_client_id c
           \<and> tb_redirect_uri b = Some (ac_redirect_uri x) \<and> \<not> ac_used x \<and> rq_now rq < ac_expires x
           \<and> (truthy (ac_challenge x) \<longrightarrow> (\<exists>v. tb_verifier b = Some v \<and>
                (ac_challenge x = Some (p_sha256 (is_prims (td_issuer T)) v)
                 \<or> ac_challenge x = Some v \<and> ac_challenge_method x = Some ''plain'')))"
    proof (rule code_redeems [OF assms(2) e(5)])
      fix x assume x: "x \<in> set (auth_codes d)"
        "claimable \<lparr>ei_code = code, ei_client = cid, ei_redirect_uri = uri, ei_verifier = Some v\<rparr> (rq_now rq) x"
        "pkce_check (is_prims (td_issuer T)) x
           (ei_verifier \<lparr>ei_code = code, ei_client = cid, ei_redirect_uri = uri, ei_verifier = Some v\<rparr>) = Inr ()"
      from x(3) show ?thesis
        using x(1,2) e(1-4) assms(4)
        by (intro bexI [OF _ x(1)])
           (auto simp: claimable_def dest!: pkce_checkD elim!: truthyE)
    qed
  next
    assume "Some g = Some ''refresh_token''"
    then have r: "grantRefreshToken T rq en b c d = (Inr j, d')"
      using assms(1) g by (cases "grantRefreshToken T rq en b c d") (simp add: run_grant_def on_db_def)
    obtain v cid it where e: "tb_refresh_token b = Some v" "tb_client_id b = Some cid"
      "refreshAccessToken (td_issuer T) (td_resources T) (td_crypto T) rq en v cid (Some c) d = (Inr it, d')"
      using r by (auto simp: grantRefreshToken_def split: if_splits option.splits prod.splits
          elim!: truthyE map_sum_InrE)
    have "cid = cl_client_id c" using assms(4) e(2) by simp
    then show "\<exists>v x. tb_refresh_token b = Some v \<and> presented (td_issuer T) v d = Some x
           \<and> rt_client x = cl_client_id c"
      using e(1) by (cases rule: refresh_run [OF e(3)]) blast+
  next
    assume "Some g = Some DEVICE_GRANT"
    then have r: "grantDeviceCode T rq en b c d = (Inr j, d')"
      using assms(1) g by (cases "grantDeviceCode T rq en b c d") (simp add: run_grant_def on_db_def DEVICE_GRANT_def)
    obtain v cid row d1 where e: "tb_device_code b = Some v" "tb_client_id b = Some cid"
      "pollForApproval (is_prims (td_issuer T)) rq v cid d = (Inr row, d1)"
      using r by (auto simp: grantDeviceCode_def split: if_splits option.splits prod.splits sum.splits elim!: truthyE)
    show "\<exists>v. tb_device_code b = Some v \<and> (\<exists>x \<in> set (devices d).
           dv_code_hash x = p_sha256 (is_prims (td_issuer T)) v \<and> dv_client x = cl_client_id c
           \<and> dv_status x = ''approved'' \<and> rq_now rq \<le> dv_expires x)"
      using poll_redeems [OF e(3)] e(1,2) assms(4) by auto
  qed
qed

text \<open>C10. The token endpoint answers only its own client: whenever it returns tokens, the caller is an
  active registered client that proved itself by the method it is registered for and named itself in
  the request if it named anyone, the grant is one it may use (or the demo grant, which has its own
  rule), and what is redeemed is its own: an unused, unexpired code issued to it for this redirect URI
  whose PKCE challenge the verifier fits, a refresh token of its own, or an approved device code of its
  own.  The authentication it passed changed nothing of the database beside the table of assertion identifiers.\<close>

theorem token_own_credential:
  assumes "token T rq en hr b (d, s) = (Inr j, d', s')" and "distinct (map ac_code (auth_codes d))"
  shows "\<exists>c \<in> set (clients d). cl_active c
    \<and> (\<forall>cid. tb_client_id b = Some cid \<longrightarrow> cid = cl_client_id c)
    \<and> (cl_auth_method c = ''private_key_jwt'' \<longrightarrow> proved_by_key (td_auth T) rq (tb_assertion b)
         (audiencesFor (ad_config (td_auth T)) ''/v1/oauth/token'') c)
    \<and> (usesMtls c \<longrightarrow> proved_by_certificate (td_auth T) (Some (hr_headers hr)) c)
    \<and> (cl_auth_method c \<noteq> ''private_key_jwt'' \<and> \<not> usesMtls c \<longrightarrow>
         proved_by_secret (td_auth T) rq (tb_client_secret b) c)
    \<and> (isDemoGrantRequest (tb_grant_type b) (tb_subject_token_type b)
       \<or> nullish (tb_grant_type b) '''' \<in> set (cl_allowed_grants c)
         \<and> nullish (tb_grant_type b) '''' \<in> {''authorization_code'', ''refresh_token'', DEVICE_GRANT,
             ''client_credentials'', TOKEN_EXCHANGE_GRANT}
         \<and> redeems_own T rq b c d)
    \<and> (\<exists>jt. authenticate (td_auth T) rq (Some (hr_headers hr)) (auth_body_of b)
         (audiencesFor (ad_config (td_auth T)) ''/v1/oauth/token'') d = (Inr c, d\<lparr>assertion_jtis := jt\<rparr>))"
proof -
  let ?auds = "audiencesFor (ad_config (td_auth T)) ''/v1/oauth/token''"
  from assms(1) obtain c d1 where t: "truthy (tb_grant_type b)"
    and a: "authenticate (td_auth T) rq (Some (hr_headers hr)) (auth_body_of b) ?auds d = (Inr c, d1)"
    and r: "isDemoGrantRequest (tb_grant_type b) (tb_subject_token_type b)
      \<or> validateGrantType c (nullish (tb_grant_type b) '''') = Inr () \<and> run_grant T rq en hr b c (d1, s) = (Inr j, d', s')"
    by (auto simp: token_def split: if_splits sum.splits prod.splits)
  note ok = authenticated_ok [OF a]
  have named: "\<forall>cid. tb_client_id b = Some cid \<longrightarrow> cid = cl_client_id c"
    using authenticated_named [OF a] by (auto simp: auth_body_of_def)
  obtain jt where d1: "d1 = d\<lparr>assertion_jtis := jt\<rparr>" using ok by blast
  have frame: "redeems_own T rq b c d1 = redeems_own T rq b c d"
    by (simp add: redeems_own_def presented_def d1)
  have "isDemoGrantRequest (tb_grant_type b) (tb_subject_token_type b)
       \<or> nullish (tb_grant_type b) '''' \<in> set (cl_allowed_grants c)
         \<and> nullish (tb_grant_type b) '''' \<in> {''authorization_code'', ''refresh_token'', DEVICE_GRANT,
             ''client_credentials'', TOKEN_EXCHANGE_GRANT}
         \<and> redeems_own T rq b c d"
    using r
  proof
    assume g: "validateGrantType c (nullish (tb_grant_type b) '''') = Inr ()
      \<and> run_grant T rq en hr b c (d1, s) = (Inr j, d', s')"
    then have "redeems_own T rq b c d1"
      using grant_redeems [of T rq en hr b c d1 s j d' s'] assms(2) t named by (simp add: d1)
    moreover have "nullish (tb_grant_type b) '''' \<in> set (cl_allowed_grants c)"
      using g by (auto simp: validateGrantType_def split: if_splits)
    moreover have "nullish (tb_grant_type b) '''' \<in> {''authorization_code'', ''refresh_token'', DEVICE_GRANT,
             ''client_credentials'', TOKEN_EXCHANGE_GRANT}"
      using g by (auto simp: run_grant_def Let_def split: if_splits)
    ultimately show ?thesis by (simp add: frame)
  qed simp
  then show ?thesis
    using ok named a d1 by (intro bexI [of _ c]) (simp_all add: auth_body_of_def, blast)
qed

section \<open>A request that does not name its client\<close>

lemma unbound_marks:
  assumes "x \<in> set (auth_codes d)" and "claimable_unbound (ac_code x) uri (rq_now rq) x"
    and "distinct (map ac_code (auth_codes d))"
  shows "code_spent (ac_code x) (snd (exchange_unbound I rq (ac_code x) uri v d))"
proof -
  let ?mine = "claimable_unbound (ac_code x) uri (rq_now rq)"
  let ?d1 = "d\<lparr>auth_codes := update_many ?mine (\<lambda>c. c\<lparr>ac_used := True\<rparr>) (auth_codes d)\<rparr>"
  have only: "y = x" if "y \<in> set (auth_codes d)" "ac_code y = ac_code x" for y
    using that assms(1,3) by (meson distinct_map inj_onD)
  have "code_spent (ac_code x) ?d1"
    unfolding code_spent_def
  proof (intro ballI impI)
    fix z assume z: "z \<in> set (auth_codes ?d1)" "ac_code z = ac_code x"
    then have "z \<in> set (update_many ?mine (\<lambda>c. c\<lparr>ac_used := True\<rparr>) (auth_codes d))" by simp
    then obtain y where y: "y \<in> set (auth_codes d)" "z = (if ?mine y then y\<lparr>ac_used := True\<rparr> else y)"
      by (rule update_manyE)
    then have "ac_code y = ac_code x" using z(2) by (auto split: if_splits)
    then show "ac_used z" using only [OF y(1)] y(2) assms(2) by simp
  qed
  moreover have "auth_codes (snd (exchange_unbound I rq (ac_code x) uri v d)) = auth_codes ?d1"
    by (auto simp: exchange_unbound_def Let_def handleCodeClaimFailure_def split: option.splits sum.splits)
  ultimately show ?thesis by (simp add: code_spent_def)
qed

text \<open>A request without \<open>client_id\<close> gets no tokens and burns codes: RFC 7523 lets a client that signs
  an assertion leave \<open>client_id\<close> out, and authentication accepts it; but the code grant then claims the
  code without asking whose it is, and always ends in an error.  So any such client that knows a
  code and its redirect URI uses it up, whoever it was issued to; and its own refresh and device
  grants are refused.\<close>

theorem unnamed_client_burns_codes:
  assumes "authenticate (td_auth T) rq (Some (hr_headers hr)) (auth_body_of b)
      (audiencesFor (ad_config (td_auth T)) ''/v1/oauth/token'') d = (Inr c, d1)"
    and "tb_client_id b = None" and "nullish (tb_grant_type b) '''' \<in> set (cl_allowed_grants c)"
    and "x \<in> set (auth_codes d)" and "\<not> ac_used x" and "rq_now rq < ac_expires x"
    and "tb_code b = Some (ac_code x)" and "ac_code x \<noteq> []" and "tb_redirect_uri b = Some (ac_redirect_uri x)"
    and "ac_redirect_uri x \<noteq> []" and "truthy (tb_verifier b)" and "distinct (map ac_code (auth_codes d))"
    and "tb_grant_type b = Some ''authorization_code''"
  shows "\<exists>e d'. token T rq en hr b (d, s) = (Inl e, d', s) \<and> code_spent (ac_code x) d'"
proof -
  from authenticated_ok [OF assms(1)] obtain jt where "d1 = d\<lparr>assertion_jtis := jt\<rparr>" by blast
  then have d1: "auth_codes d1 = auth_codes d" by simp
  have "claimable_unbound (ac_code x) (ac_redirect_uri x) (rq_now rq) x"
    using assms(5,6) by (simp add: claimable_unbound_def)
  then have sp: "code_spent (ac_code x) (snd (exchange_unbound (td_issuer T) rq (ac_code x) (ac_redirect_uri x) (tb_verifier b) d1))"
    using unbound_marks [of x d1] assms(4,12) d1 by simp
  obtain e d' where u: "exchange_unbound (td_issuer T) rq (ac_code x) (ac_redirect_uri x) (tb_verifier b) d1 = (e, d')"
    by (cases "exchange_unbound (td_issuer T) rq (ac_code x) (ac_redirect_uri x) (tb_verifier b) d1")
  have demo: "\<not> isDemoGrantRequest (tb_grant_type b) (tb_subject_token_type b)"
    using assms(13) by (simp add: isDemoGrantRequest_def TOKEN_EXCHANGE_GRANT_def)
  have t: "truthy (tb_code b)" "truthy (tb_redirect_uri b)" "truthy (tb_grant_type b)"
    using assms(7-10,13) by simp_all
  have "grantAuthorizationCode T rq en b d1 = (Inl e, d')"
    using t assms(2,7,9,11) u by (simp add: grantAuthorizationCode_def)
  then have "token T rq en hr b (d, s) = (Inl e, d', s)"
    using assms(1,3,13) demo t by (simp add: token_def validateGrantType_def run_grant_def on_db_def)
  then show ?thesis using sp u by simp
qed

section \<open>What a refused caller is told\<close>














text \<open>The code an answer of the route carries.\<close>

fun answer_code :: "answered + response \<Rightarrow> (int \<times> string) option" where
  "answer_code (Inl (Coded st code m)) = Some (st, code)"
| "answer_code _ = None"

lemma answer_code_coded: "(\<exists>m. r = Inl (Coded st code m)) \<Longrightarrow> answer_code r = Some (st, code)"
  by auto
























section \<open>Witnesses\<close>

definition demo_token :: token_deps where
  "demo_token = \<lparr>td_auth = demo_auth, td_issuer = demo_issuer, td_crypto = demo_crypto, td_resources = None,
     td_m2m = demo_m2m, td_dpop = demo_dpop, td_credentials = (\<lambda>_. no_credentials)\<rparr>"

definition demo_http :: http_request where
  "demo_http = \<lparr>hr_headers = (\<lambda>_. None), hr_protocol = Some ''https'', hr_path = ''/v1/oauth/token''\<rparr>"

definition demo_body :: token_body where
  "demo_body = \<lparr>tb_grant_type = Some ''authorization_code'', tb_code = Some ''code1'',
     tb_redirect_uri = Some ''https://app.example/cb'', tb_client_id = Some ''shop'',
     tb_client_secret = Some ''secret'', tb_assertion = None, tb_assertion_type = None,
     tb_verifier = Some ''verifier'', tb_refresh_token = None, tb_scope = None, tb_audience = None,
     tb_subject_token = None, tb_subject_token_type = None, tb_actor_token = None, tb_resource = None,
     tb_device_code = None\<rparr>"

theorem token_own_credential_witness:
  "\<exists>j d' s'. token demo_token demo_rq demo_en demo_http demo_body (code_db, []) = (Inr j, d', s')
     \<and> (\<exists>c \<in> set (clients code_db). cl_client_id c = ''shop'' \<and> proved_by_secret demo_auth demo_rq (Some ''secret'') c)"
proof -
  let ?r = "token demo_token demo_rq demo_en demo_http demo_body (code_db, [])"
  have "ok (fst ?r) \<noteq> None" by code_simp
  then obtain j d' s' where r: "?r = (Inr j, d', s')" by (cases ?r) (auto simp: ok_Some_iff)
  have b: "tb_client_id demo_body = Some ''shop''" "tb_client_secret demo_body = Some ''secret''" "td_auth demo_token = demo_auth"
    by (simp_all add: demo_body_def demo_token_def)
  have m: "list_all (\<lambda>c. cl_auth_method c \<noteq> ''private_key_jwt'' \<and> \<not> usesMtls c) (clients code_db)" by code_simp
  from token_own_credential [OF r code_db_distinct] r m b show ?thesis by (fastforce simp: list_all_iff)
qed

definition partner_body :: token_body where
  "partner_body = demo_body\<lparr>tb_client_id := None, tb_client_secret := None, tb_assertion := Some ''jwt'',
     tb_assertion_type := Some CLIENT_ASSERTION_TYPE\<rparr>"

definition partner_code_db :: db where
  "partner_code_db = code_db\<lparr>clients := [shop, partner]\<rparr>"

theorem unnamed_client_burns_codes_witness:
  "\<exists>e d'. token demo_token demo_rq demo_en demo_http partner_body (partner_code_db, []) = (Inl e, d', [])
     \<and> code_spent ''code1'' d'"
proof -
  let ?a = "authenticate (td_auth demo_token) demo_rq (Some (hr_headers demo_http)) (auth_body_of partner_body)
      (audiencesFor (ad_config (td_auth demo_token)) ''/v1/oauth/token'') partner_code_db"
  have "ok (fst ?a) = Some partner" by code_simp
  then obtain d1 where a: "?a = (Inr partner, d1)" by (cases ?a) (auto simp: ok_Some_iff)
  have f: "tb_client_id partner_body = None" "nullish (tb_grant_type partner_body) '''' \<in> set (cl_allowed_grants partner)"
    "tb_code partner_body = Some (ac_code demo_code)" "tb_redirect_uri partner_body = Some (ac_redirect_uri demo_code)"
    "truthy (tb_verifier partner_body)" "tb_grant_type partner_body = Some ''authorization_code''"
    by code_simp+
  have x: "demo_code \<in> set (auth_codes partner_code_db)" "\<not> ac_used demo_code" "rq_now demo_rq < ac_expires demo_code"
    "ac_code demo_code = ''code1''" "ac_redirect_uri demo_code \<noteq> []" "distinct (map ac_code (auth_codes partner_code_db))"
    by (simp_all add: partner_code_db_def code_db_def demo_code_def demo_rq_def)
  show ?thesis
    using unnamed_client_burns_codes [OF a f(1,2) x(1-3) f(3) _ f(4) x(5) f(5) x(6) f(6)] x(4) by simp
qed


end
