(* ===== verification/Login.thy ===== *)
theory Login
  imports Claims Redis
begin

text \<open>
  Signing in with a password: \<open>loginWithPassword\<close>, \<open>generateTokenForUser\<close> and
  \<open>notifyNewDeviceIfNeeded\<close> of \<open>src/auth/auth.service.ts\<close> and the brute-force defence around them,
  \<open>src/auth/login-security.service.ts\<close>.  The handler is split where it reads the row, so that
  attempts that run side by side can be composed as they interleave.
\<close>

section \<open>Users\<close>

definition find_user_email :: "db \<Rightarrow> string \<Rightarrow> user_row option" where
  "find_user_email d email = List.find (\<lambda>u. us_email u = Some email) (users d)"

definition update_user :: "string \<Rightarrow> (user_row \<Rightarrow> user_row) \<Rightarrow> db \<Rightarrow> db" where
  "update_user i f d = d\<lparr>users := update_many (\<lambda>u. us_id u = i) f (users d)\<rparr>"

text \<open>A token of \<open>JwtService.sign(payload, { expiresIn })\<close>: its claims and its life in seconds.\<close>

record signed_token =
  sg_claims :: json
  sg_expires_in :: int

definition generateTokenForUser :: "user_row \<Rightarrow> signed_token" where
  "generateTokenForUser u =
     \<lparr>sg_claims = JObj [(''sub'', JStr (us_did u)), (''userId'', JStr (us_id u)), (''email'', jopt (us_email u)),
        (''email_verified'', JBool (us_email_verified u)), (''name'', jopt (us_name u))], sg_expires_in = 3600\<rparr>"

section \<open>Login security\<close>

record login_deps =
  ln_compare :: "string \<Rightarrow> string \<Rightarrow> bool"
  ln_iso :: "time \<Rightarrow> string"
  ln_sha256_hex :: "string \<Rightarrow> string"

definition recordAttempt :: "string \<Rightarrow> db \<Rightarrow> db" where
  "recordAttempt result d = emit (Metric ''auth_password_attempts_total'' [(''result'', result)]) d"

definition login_audit :: "string \<Rightarrow> string \<Rightarrow> bool \<Rightarrow> string option \<Rightarrow> audit_event" where
  "login_audit event sub success err =
     \<lparr>ae_event = event, ae_client = None, ae_company = None, ae_sub = Some sub, ae_scopes = [], ae_audience = None,
      ae_ip = None, ae_user_agent = None, ae_success = success, ae_error = err, ae_metadata = []\<rparr>"

definition auditLoginFailed :: "string \<Rightarrow> db \<Rightarrow> db" where
  "auditLoginFailed sub d = emit (Audit (login_audit ''auth.login.failed'' sub False (Some ''invalid_credentials''))) d"

definition auditLoginSuccess :: "string \<Rightarrow> db \<Rightarrow> db" where
  "auditLoginSuccess sub d = emit (Audit (login_audit ''auth.login.password'' sub True None)) d"

definition lockoutSchedule :: "(int \<times> int) list" where
  "lockoutSchedule =
     [(5, 60 * 1000), (6, 5 * 60 * 1000), (7, 15 * 60 * 1000), (8, 60 * 60 * 1000), (9, 24 * 60 * 60 * 1000)]"

definition lock_until :: "time \<Rightarrow> int \<Rightarrow> time option" where
  "lock_until now n = map_option (\<lambda>(_, lockMs). now + lockMs) (List.find (\<lambda>(at, _). at \<le> n) (rev lockoutSchedule))"

text \<open>\<open>Math.ceil(ms / 1000)\<close>.\<close>

definition ceil_seconds :: "int \<Rightarrow> int" where
  "ceil_seconds ms = - ((- ms) div 1000)"

definition mail_user :: "string \<Rightarrow> string \<Rightarrow> string list \<Rightarrow> db \<Rightarrow> db" where
  "mail_user template userId args d =
     (case Option.bind (find_user d userId) us_email of
        None \<Rightarrow> d | Some e \<Rightarrow> if e = [] then d else emit (Email template e args) d)"

definition notifyAccountLocked :: "login_deps \<Rightarrow> request \<Rightarrow> string \<Rightarrow> time \<Rightarrow> db \<times> redis \<Rightarrow> db \<times> redis" where
  "notifyAccountLocked L rq userId lockedUntil st =
     (case redis_set_if_absent (rq_now rq) (''notify:locked:'' @ userId) (ln_iso L lockedUntil)
             (max 60 (ceil_seconds (lockedUntil - rq_now rq))) (snd st) of
        (False, s1) \<Rightarrow> (fst st, s1)
      | (True, s1) \<Rightarrow> (mail_user ''account-locked'' userId [ln_iso L lockedUntil] (fst st), s1))"

definition notifyFailedLoginThreshold :: "request \<Rightarrow> string \<Rightarrow> int \<Rightarrow> db \<times> redis \<Rightarrow> db \<times> redis" where
  "notifyFailedLoginThreshold rq userId attempts st =
     (case redis_set_if_absent (rq_now rq) (''notify:failed-threshold:'' @ userId) (int_str attempts) 3600 (snd st) of
        (False, s1) \<Rightarrow> (fst st, s1)
      | (True, s1) \<Rightarrow> (mail_user ''failed-login-threshold'' userId [int_str attempts] (fst st), s1))"

definition recordFailedLogin :: "login_deps \<Rightarrow> request \<Rightarrow> string \<Rightarrow> int \<Rightarrow> db \<times> redis \<Rightarrow> db \<times> redis" where
  "recordFailedLogin L rq userId currentCount st =
     (let n = currentCount + 1; until = lock_until (rq_now rq) n;
          st1 = (update_user userId (\<lambda>u. u\<lparr>us_failed_logins := n, us_lockout_until := until\<rparr>) (fst st), snd st);
          st2 = (case until of
                   None \<Rightarrow> st1
                 | Some t \<Rightarrow> notifyAccountLocked L rq userId t (emit (Metric ''auth_account_lockouts_total'' []) (fst st1), snd st1))
      in if n = 3 then notifyFailedLoginThreshold rq userId n st2 else st2)"

section \<open>The login\<close>

definition invalid_credentials :: error where
  "invalid_credentials = Unauthorized (Msg ''Invalid credentials'')"

definition locked_out :: "request \<Rightarrow> time \<Rightarrow> error" where
  "locked_out rq until = Unauthorized (Msg
     (''Account temporarily locked. Try again in '' @ int_str (ceil_seconds (until - rq_now rq)) @ ''s.''))"

text \<open>What the row read at the start says of an attempt.\<close>

datatype login_check = Unknown | Locked time | Wrong user_row | Right user_row

definition locked_at :: "time \<Rightarrow> time option \<Rightarrow> bool" where
  "locked_at now l \<longleftrightarrow> (case l of None \<Rightarrow> False | Some t \<Rightarrow> now < t)"

definition check_login :: "login_deps \<Rightarrow> request \<Rightarrow> string \<Rightarrow> string \<Rightarrow> db \<Rightarrow> login_check" where
  "check_login L rq email password d =
     (case find_user_email d email of
        None \<Rightarrow> Unknown
      | Some u \<Rightarrow>
          if \<not> truthy (us_password_hash u) then Unknown
          else if locked_at (rq_now rq) (us_lockout_until u)
          then Locked (nullish (us_lockout_until u) 0)
          else if ln_compare L password (nullish (us_password_hash u) '''') then Right u else Wrong u)"

definition finish_login ::
  "login_deps \<Rightarrow> request \<Rightarrow> login_check \<Rightarrow> db \<times> redis \<Rightarrow> (error + user_row \<times> signed_token) \<times> db \<times> redis"
where
  "finish_login L rq c st =
     (case c of
        Unknown \<Rightarrow> (Inl invalid_credentials, st)
      | Locked t \<Rightarrow> (Inl (locked_out rq t), recordAttempt ''locked'' (fst st), snd st)
      | Wrong u \<Rightarrow>
          (Inl invalid_credentials,
           recordFailedLogin L rq (us_id u) (us_failed_logins u)
             (auditLoginFailed (us_did u) (recordAttempt ''invalid'' (fst st)), snd st))
      | Right u \<Rightarrow>
          (Inr (u, generateTokenForUser u),
           auditLoginSuccess (us_did u) (recordAttempt ''success''
             (if us_failed_logins u > 0 \<or> us_lockout_until u \<noteq> None
              then update_user (us_id u) (\<lambda>x. x\<lparr>us_failed_logins := 0, us_lockout_until := None\<rparr>) (fst st)
              else fst st)), snd st))"

definition loginWithPassword ::
  "login_deps \<Rightarrow> request \<Rightarrow> string \<Rightarrow> string \<Rightarrow> db \<times> redis \<Rightarrow> (error + user_row \<times> signed_token) \<times> db \<times> redis"
where
  "loginWithPassword L rq email password st = finish_login L rq (check_login L rq email password (fst st)) st"

section \<open>A new device\<close>

text \<open>\<open>replace(/\s+/g, ' ')\<close>; the flag says whether the character before was a space.\<close>

fun collapse_spaces :: "bool \<Rightarrow> string \<Rightarrow> string" where
  "collapse_spaces after [] = []"
| "collapse_spaces after (c # cs) =
     (if is_ws c then (if after then collapse_spaces True cs else CHR '' '' # collapse_spaces True cs)
      else c # collapse_spaces False cs)"

definition notifyNewDeviceIfNeeded :: "login_deps \<Rightarrow> request \<Rightarrow> string \<Rightarrow> db \<Rightarrow> db" where
  "notifyNewDeviceIfNeeded L rq userId d =
     (let raw = nullish (rq_user_agent rq) '''' @ ''|'' @ nullish (rq_ip rq) '''';
          fingerprint = ln_sha256_hex L raw
      in if trim raw = [] then d
         else if (userId, fingerprint) \<in> set (known_devices d) then d
         else (case Option.bind (find_user d userId) us_email of
                 None \<Rightarrow> d
               | Some e \<Rightarrow>
                   if e = [] then d
                   else emit (Email ''new-device'' e
                          (if truthy (rq_user_agent rq) then [take 120 (collapse_spaces False (nullish (rq_user_agent rq) ''''))] else []))
                        (d\<lparr>known_devices := known_devices d @ [(userId, fingerprint)]\<rparr>)))"

section \<open>The abstract machine\<close>

text \<open>An account as the defence sees it: consecutive misses and the end of the lock.\<close>

type_synonym lock_state = "int \<times> time option"

datatype outcome = Accepted | Rejected | Locked_Out

definition lock_step :: "time \<times> bool \<Rightarrow> lock_state \<Rightarrow> outcome \<times> lock_state" where
  "lock_step a ls =
     (case ls of (n, l) \<Rightarrow>
        if locked_at (fst a) l then (Locked_Out, ls)
        else if snd a then (Accepted, (0, None)) else (Rejected, (n + 1, lock_until (fst a) (n + 1))))"

fun lock_run :: "(time \<times> bool) list \<Rightarrow> lock_state \<Rightarrow> outcome list \<times> lock_state" where
  "lock_run [] ls = ([], ls)"
| "lock_run (a # as) ls =
     (case lock_step a ls of (r, ls1) \<Rightarrow> (case lock_run as ls1 of (rs, ls2) \<Rightarrow> (r # rs, ls2)))"

fun outcome_of :: "error + 'a \<Rightarrow> outcome" where
  "outcome_of (Inr _) = Accepted"
| "outcome_of (Inl e) = (if e = invalid_credentials then Rejected else Locked_Out)"

fun run_logins ::
  "login_deps \<Rightarrow> string \<Rightarrow> (request \<times> string) list \<Rightarrow> db \<times> redis \<Rightarrow> outcome list \<times> db \<times> redis"
where
  "run_logins L email [] st = ([], st)"
| "run_logins L email ((rq, password) # as) st =
     (case loginWithPassword L rq email password st of
        (r, st1) \<Rightarrow> (case run_logins L email as st1 of (rs, st2) \<Rightarrow> (outcome_of r # rs, st2)))"

definition lock_of :: "user_row \<Rightarrow> lock_state" where
  "lock_of u = (us_failed_logins u, us_lockout_until u)"

text \<open>A row is the account it was, the lock aside.\<close>

definition same_account :: "user_row \<Rightarrow> user_row \<Rightarrow> bool" where
  "same_account u v \<longleftrightarrow> u\<lparr>us_failed_logins := 0, us_lockout_until := None\<rparr> = v\<lparr>us_failed_logins := 0, us_lockout_until := None\<rparr>"

lemma same_account_refl [simp]: "same_account u u"
  by (simp add: same_account_def)

lemma same_account_trans: "same_account u v \<Longrightarrow> same_account v w \<Longrightarrow> same_account u w"
  by (simp add: same_account_def)

lemma same_account_lock [simp]: "same_account u (u\<lparr>us_failed_logins := n, us_lockout_until := l\<rparr>)"
  by (simp add: same_account_def)

lemma same_accountD:
  assumes "same_account u v"
  shows "us_id v = us_id u" "us_email v = us_email u" "us_password_hash v = us_password_hash u"
  using arg_cong [OF assms [unfolded same_account_def], of us_id] arg_cong [OF assms [unfolded same_account_def], of us_email]
    arg_cong [OF assms [unfolded same_account_def], of us_password_hash] by simp_all

section \<open>What an attempt leaves\<close>

lemma users_emit_mail [simp]: "users (mail_user t u args d) = users d"
  by (simp add: mail_user_def split: option.split)

lemma users_notify [simp]:
  "users (fst (notifyAccountLocked L rq u t st)) = users (fst st)"
  "users (fst (notifyFailedLoginThreshold rq u n st)) = users (fst st)"
  by (simp_all add: notifyAccountLocked_def notifyFailedLoginThreshold_def split: prod.split bool.split)

lemma users_record [simp]:
  "users (recordAttempt r d) = users d" "users (auditLoginFailed u d) = users d" "users (auditLoginSuccess u d) = users d"
  by (simp_all add: recordAttempt_def auditLoginFailed_def auditLoginSuccess_def)

lemma users_recordFailed:
  "users (fst (recordFailedLogin L rq u n st)) =
     update_many (\<lambda>x. us_id x = u) (\<lambda>x. x\<lparr>us_failed_logins := n + 1, us_lockout_until := lock_until (rq_now rq) (n + 1)\<rparr>)
       (users (fst st))"
  by (simp add: recordFailedLogin_def update_user_def Let_def split: option.split)

lemma users_after_wrong:
  "users (fst (snd (finish_login L rq (Wrong u) st))) =
     update_many (\<lambda>x. us_id x = us_id u)
       (\<lambda>x. x\<lparr>us_failed_logins := us_failed_logins u + 1, us_lockout_until := lock_until (rq_now rq) (us_failed_logins u + 1)\<rparr>)
       (users (fst st))"
  by (simp add: finish_login_def users_recordFailed)

lemma users_after_right:
  "users (fst (snd (finish_login L rq (Right u) st))) =
     (if us_failed_logins u > 0 \<or> us_lockout_until u \<noteq> None
      then update_many (\<lambda>x. us_id x = us_id u) (\<lambda>x. x\<lparr>us_failed_logins := 0, us_lockout_until := None\<rparr>) (users (fst st))
      else users (fst st))"
  by (simp add: finish_login_def update_user_def)

lemma email_after_update:
  assumes "List.find (\<lambda>u. us_email u = Some e) t = Some x" and "\<And>y. us_email (f y) = us_email y"
  shows "List.find (\<lambda>u. us_email u = Some e) (update_many (\<lambda>y. us_id y = us_id x) f t) = Some (f x)"
  using update_id_find [of us_email f, OF assms(2,1), of "\<lambda>y. us_id y = us_id x"] by simp

lemma login_step:
  assumes "find_user_email (fst st) e = Some u" and "truthy (us_password_hash u)"
    and "0 \<le> us_failed_logins u"
    and "loginWithPassword L rq e pw st = (r, st')"
  shows "\<exists>v. find_user_email (fst st') e = Some v \<and> same_account u v \<and> 0 \<le> us_failed_logins v
    \<and> lock_step (rq_now rq, ln_compare L pw (nullish (us_password_hash u) '''')) (lock_of u) = (outcome_of r, lock_of v)"
proof -
  have find: "List.find (\<lambda>u. us_email u = Some e) (users (fst st)) = Some u"
    using assms(1) by (simp add: find_user_email_def)
  consider (locked) "locked_at (rq_now rq) (us_lockout_until u)"
    | (right) "\<not> locked_at (rq_now rq) (us_lockout_until u)" "ln_compare L pw (nullish (us_password_hash u) '''')"
    | (wrong) "\<not> locked_at (rq_now rq) (us_lockout_until u)" "\<not> ln_compare L pw (nullish (us_password_hash u) '''')"
    by blast
  then show ?thesis
  proof cases
    case locked
    with assms have "r = Inl (locked_out rq (nullish (us_lockout_until u) 0))" "users (fst st') = users (fst st)"
      by (auto simp: loginWithPassword_def check_login_def finish_login_def)
    with locked assms(1,3) show ?thesis
      by (intro exI [of _ u]) (simp add: find_user_email_def lock_step_def lock_of_def locked_out_def invalid_credentials_def)
  next
    case right
    with assms have c: "check_login L rq e pw (fst st) = Right u" by (simp add: check_login_def)
    with assms(4) have r: "outcome_of r = Accepted" and
      st': "users (fst st') = users (fst (snd (finish_login L rq (Right u) st)))"
      by (auto simp: loginWithPassword_def finish_login_def)
    let ?v = "u\<lparr>us_failed_logins := 0, us_lockout_until := None\<rparr>"
    have "find_user_email (fst st') e = Some ?v"
    proof (cases "us_failed_logins u > 0 \<or> us_lockout_until u \<noteq> None")
      case True
      then show ?thesis using email_after_update [OF find]
        by (simp add: find_user_email_def st' users_after_right)
    next
      case False
      then have "u = ?v" using assms(3) by (cases u) simp
      with False show ?thesis using find by (simp add: find_user_email_def st' users_after_right)
    qed
    with right r show ?thesis
      by (intro exI [of _ ?v]) (simp add: lock_step_def lock_of_def)
  next
    case wrong
    with assms have c: "check_login L rq e pw (fst st) = Wrong u" by (simp add: check_login_def)
    with assms(4) have r: "outcome_of r = Rejected" and
      st': "users (fst st') = users (fst (snd (finish_login L rq (Wrong u) st)))"
      by (auto simp: loginWithPassword_def finish_login_def)
    let ?v = "u\<lparr>us_failed_logins := us_failed_logins u + 1, us_lockout_until := lock_until (rq_now rq) (us_failed_logins u + 1)\<rparr>"
    have "find_user_email (fst st') e = Some ?v"
      using email_after_update [OF find] by (simp add: find_user_email_def st' users_after_wrong)
    with wrong r assms(3) show ?thesis
      by (intro exI [of _ ?v]) (simp add: lock_step_def lock_of_def)
  qed
qed

section \<open>The defence is the machine\<close>

definition attempts_on :: "login_deps \<Rightarrow> user_row \<Rightarrow> (request \<times> string) list \<Rightarrow> (time \<times> bool) list" where
  "attempts_on L u as = map (\<lambda>(rq, pw). (rq_now rq, ln_compare L pw (nullish (us_password_hash u) ''''))) as"

lemma check_login_cases:
  assumes "find_user_email d e = Some u"
  shows "check_login L rq e pw d \<in> {Unknown, Wrong u, Right u} \<or> (\<exists>t. check_login L rq e pw d = Locked t)"
  using assms by (simp add: check_login_def)

lemma login_others:
  assumes "find_user_email (fst st) e = Some u" and "loginWithPassword L rq e pw st = (r, st')" and "us_id x \<noteq> us_id u"
  shows "x \<in> set (users (fst st')) \<longleftrightarrow> x \<in> set (users (fst st))"
proof -
  have o: "x \<in> set (update_many (\<lambda>y. us_id y = us_id u) f t) \<longleftrightarrow> x \<in> set t" if "\<And>y. us_id (f y) = us_id y" for f t
    by (rule update_many_outside [where Q = "\<lambda>y. us_id y \<noteq> us_id u"]) (use assms(3) that in simp_all)
  have st': "st' = snd (finish_login L rq (check_login L rq e pw (fst st)) st)"
    using assms(2) by (simp add: loginWithPassword_def)
  consider "check_login L rq e pw (fst st) = Unknown" | t where "check_login L rq e pw (fst st) = Locked t"
    | "check_login L rq e pw (fst st) = Wrong u" | "check_login L rq e pw (fst st) = Right u"
    using check_login_cases [OF assms(1), of L rq pw] by blast
  then show ?thesis
    by cases (simp_all add: st' users_after_wrong users_after_right o, simp_all add: finish_login_def)
qed

lemma logins_run:
  assumes "find_user_email (fst st) e = Some u" and "truthy (us_password_hash u)" and "0 \<le> us_failed_logins u"
    and "run_logins L e as st = (rs, st')"
  shows "\<exists>v. find_user_email (fst st') e = Some v \<and> same_account u v
    \<and> lock_run (attempts_on L u as) (lock_of u) = (rs, lock_of v)
    \<and> (\<forall>x. us_id x \<noteq> us_id u \<longrightarrow> (x \<in> set (users (fst st')) \<longleftrightarrow> x \<in> set (users (fst st))))"
  using assms
proof (induction as arbitrary: st u rs)
  case Nil
  then show ?case by (auto simp: attempts_on_def)
next
  case (Cons a as)
  obtain rq pw where a: "a = (rq, pw)" by force
  obtain r st1 where l: "loginWithPassword L rq e pw st = (r, st1)" by (rule prod.exhaust)
  obtain rs' where rest: "run_logins L e as st1 = (rs', st')" and rs: "rs = outcome_of r # rs'"
    using Cons.prems(4) by (auto simp: a l split: prod.splits)
  from login_step [OF Cons.prems(1-3) l] obtain v where v: "find_user_email (fst st1) e = Some v" "same_account u v"
    "0 \<le> us_failed_logins v"
    "lock_step (rq_now rq, ln_compare L pw (nullish (us_password_hash u) '''')) (lock_of u) = (outcome_of r, lock_of v)" by blast
  note same = same_accountD [OF v(2)]
  from Cons.IH [OF v(1) _ v(3) rest] Cons.prems(2) obtain w where w: "find_user_email (fst st') e = Some w" "same_account v w"
    "lock_run (attempts_on L v as) (lock_of v) = (rs', lock_of w)"
    "\<forall>x. us_id x \<noteq> us_id v \<longrightarrow> (x \<in> set (users (fst st')) \<longleftrightarrow> x \<in> set (users (fst st1)))"
    by (auto simp: same)
  show ?case
    by (rule exI [of _ w]) (use w v(4) same same_account_trans [OF v(2) w(2)] login_others [OF Cons.prems(1) l] rs in
        \<open>auto simp: attempts_on_def a\<close>)
qed

text \<open>C16. The brute-force defence is a counter with a lock: any sequence of logins on an account answers like
  the machine \<open>lock_step\<close> run on the times and on whether each password is right, leaves its count and
  its lock in the row and nothing else changed there, and touches no other row.  The password is not
  even looked at while the account is locked.\<close>

theorem login_refines_lockout:
  assumes "find_user_email d e = Some u" and "truthy (us_password_hash u)" and "0 \<le> us_failed_logins u"
    and "run_logins L e as (d, s) = (rs, d', s')"
  shows "\<exists>v. find_user_email d' e = Some v \<and> same_account u v
    \<and> lock_run (attempts_on L u as) (lock_of u) = (rs, lock_of v)
    \<and> (\<forall>x. us_id x \<noteq> us_id u \<longrightarrow> (x \<in> set (users d') \<longleftrightarrow> x \<in> set (users d)))"
  using logins_run [of "(d, s)" e u L as rs "(d', s')"] assms by simp

section \<open>How many guesses\<close>

definition DAY_MS :: int where "DAY_MS = 24 * 60 * 60 * 1000"

lemma lock_until_late: "9 \<le> n \<Longrightarrow> lock_until now n = Some (now + DAY_MS)"
  by (simp add: lock_until_def lockoutSchedule_def DAY_MS_def)

text \<open>The times at which a password was compared, in vain.\<close>

definition misses :: "(time \<times> 'a) list \<Rightarrow> outcome list \<Rightarrow> time list" where
  "misses as rs = map (fst \<circ> fst) (filter (\<lambda>(a, r). r = Rejected) (zip as rs))"

lemma misses_Cons [simp]:
  "misses (a # as) (r # rs) = (if r = Rejected then fst a # misses as rs else misses as rs)"
  "misses [] rs = []"
  by (simp_all add: misses_def)

lemma lock_run_Cons:
  assumes "lock_run (a # as) (n, l) = (rs, fin)" and "Accepted \<notin> set rs"
  obtains (held) rs' where "rs = Locked_Out # rs'" "locked_at (fst a) l" "lock_run as (n, l) = (rs', fin)" "Accepted \<notin> set rs'"
    | (missed) rs' where "rs = Rejected # rs'" "\<not> locked_at (fst a) l"
        "lock_run as (n + 1, lock_until (fst a) (n + 1)) = (rs', fin)" "Accepted \<notin> set rs'"
  using assms by (auto simp: lock_step_def split: prod.splits if_splits)

lemma misses_spaced_late:
  assumes "lock_run as (n, Some t) = (rs, fin)" and "Accepted \<notin> set rs" and "9 \<le> n" and "i < length (misses as rs)"
  shows "t + int i * DAY_MS \<le> misses as rs ! i"
  using assms
proof (induction as arbitrary: n t rs i)
  case (Cons a as)
  from Cons.prems(1,2) show ?case
  proof (cases rule: lock_run_Cons)
    case (held rs')
    with Cons.IH [of n t rs' i] Cons.prems(3,4) show ?thesis by simp
  next
    case (missed rs')
    then have now: "t \<le> fst a" by (simp add: locked_at_def)
    have run: "lock_run as (n + 1, Some (fst a + DAY_MS)) = (rs', fin)"
      using missed(3) Cons.prems(3) by (simp add: lock_until_late)
    show ?thesis
    proof (cases i)
      case 0
      then show ?thesis using missed(1) now by simp
    next
      case (Suc j)
      have "fst a + DAY_MS + int j * DAY_MS \<le> misses as rs' ! j"
        using Cons.IH [OF run missed(4)] Cons.prems(3,4) Suc missed(1) by simp
      then show ?thesis using missed(1) now Suc by (simp add: algebra_simps)
    qed
  qed
qed simp

lemma misses_spaced:
  assumes "lock_run as (n, l) = (rs, fin)" and "Accepted \<notin> set rs" and "8 \<le> n + int i" and "i \<le> j"
    and "j < length (misses as rs)" and "0 \<le> n"
  shows "misses as rs ! i + int (j - i) * DAY_MS \<le> misses as rs ! j"
  using assms
proof (induction as arbitrary: n l rs i j)
  case (Cons a as)
  from Cons.prems(1,2) show ?case
  proof (cases rule: lock_run_Cons)
    case (held rs')
    with Cons.IH [of n l rs' i j] Cons.prems show ?thesis by simp
  next
    case (missed rs')
    show ?thesis
    proof (cases i)
      case i0: 0
      show ?thesis
      proof (cases j)
        case 0
        then show ?thesis using i0 by simp
      next
        case (Suc k)
        have "lock_run as (n + 1, Some (fst a + DAY_MS)) = (rs', fin)"
          using missed(3) Cons.prems(3) i0 by (simp add: lock_until_late)
        from misses_spaced_late [OF this missed(4), of k] show ?thesis
          using Cons.prems(3,5) i0 Suc missed(1) by (simp add: algebra_simps)
      qed
    next
      case (Suc i')
      then obtain j' where j: "j = Suc j'" using Cons.prems(4) by (cases j) auto
      from Cons.IH [OF missed(3,4), of i' j'] show ?thesis
        using Cons.prems Suc j missed(1) by simp
    qed
  qed
qed simp

text \<open>C17. Guessing is bounded: as long as no guess is right, from the ninth wrong guess on a password is
  looked at no more than once a day, whatever the attempts and their times.\<close>

theorem guesses_bounded:
  assumes "find_user_email d e = Some u" and "truthy (us_password_hash u)" and "0 \<le> us_failed_logins u"
    and "run_logins L e as (d, s) = (rs, d', s')" and "Accepted \<notin> set rs"
    and "8 \<le> i" and "i \<le> j" and "j < length (misses (attempts_on L u as) rs)"
  shows "misses (attempts_on L u as) rs ! j - misses (attempts_on L u as) rs ! i \<ge> int (j - i) * (24 * 60 * 60 * 1000)"
proof -
  from logins_run [of "(d, s)" e u L as rs "(d', s')"] assms(1-4) obtain v where
    "lock_run (attempts_on L u as) (us_failed_logins u, us_lockout_until u) = (rs, lock_of v)"
    by (auto simp: lock_of_def)
  from misses_spaced [OF this assms(5) _ assms(7,8,3)] assms(3,6) show ?thesis by (simp add: DAY_MS_def)
qed

section \<open>Side by side\<close>

text \<open>Attempts that have all read the row before the first of them writes it.\<close>

fun finish_all :: "login_deps \<Rightarrow> (request \<times> login_check) list \<Rightarrow> db \<times> redis \<Rightarrow> db \<times> redis" where
  "finish_all L [] st = st"
| "finish_all L ((rq, c) # cs) st = finish_all L cs (snd (finish_login L rq c st))"

definition together :: "login_deps \<Rightarrow> string \<Rightarrow> (request \<times> string) list \<Rightarrow> db \<times> redis \<Rightarrow> db \<times> redis" where
  "together L e as st = finish_all L (map (\<lambda>(rq, pw). (rq, check_login L rq e pw (fst st))) as) st"

lemma finish_all_wrong:
  assumes "find_user_email (fst st) e = Some v" and "us_id v = us_id u" and "rqs \<noteq> []"
  shows "find_user_email (fst (finish_all L (map (\<lambda>rq. (rq, Wrong u)) rqs) st)) e
    = Some (v\<lparr>us_failed_logins := us_failed_logins u + 1, us_lockout_until := lock_until (rq_now (last rqs)) (us_failed_logins u + 1)\<rparr>)"
  using assms
proof (induction rqs arbitrary: st v)
  case (Cons rq rqs)
  let ?v = "v\<lparr>us_failed_logins := us_failed_logins u + 1, us_lockout_until := lock_until (rq_now rq) (us_failed_logins u + 1)\<rparr>"
  have find: "List.find (\<lambda>u. us_email u = Some e) (users (fst st)) = Some v"
    using Cons.prems(1) by (simp add: find_user_email_def)
  have step: "find_user_email (fst (snd (finish_login L rq (Wrong u) st))) e = Some ?v"
    using email_after_update [OF find] Cons.prems(2) by (simp add: find_user_email_def users_after_wrong)
  show ?case
  proof (cases "rqs = []")
    case True
    then show ?thesis using step by simp
  next
    case False
    have "us_id ?v = us_id u" using Cons.prems(2) by simp
    from Cons.IH [OF step this False] False show ?thesis by simp
  qed
qed simp

text \<open>Guesses made together count as one: however many wrong passwords are tried at the same time, before
  any of them is written down, the account ends with one miss more than before.\<close>

theorem parallel_guesses_counted_once:
  assumes "find_user_email d e = Some u" and "truthy (us_password_hash u)" and "as \<noteq> []"
    and "\<forall>(rq, pw) \<in> set as. \<not> locked_at (rq_now rq) (us_lockout_until u)
      \<and> \<not> ln_compare L pw (nullish (us_password_hash u) '''')"
  shows "\<exists>v. find_user_email (fst (together L e as (d, s))) e = Some v \<and> us_failed_logins v = us_failed_logins u + 1
    \<and> (us_failed_logins u < 4 \<longrightarrow> us_lockout_until v = None)"
proof -
  have eq: "map (\<lambda>(rq, pw). (rq, check_login L rq e pw d)) as = map (\<lambda>rq. (rq, Wrong u)) (map fst as)"
    using assms by (auto simp: check_login_def)
  have free: "us_failed_logins u < 4 \<Longrightarrow> lock_until t (us_failed_logins u + 1) = None" for t
    by (simp add: lock_until_def lockoutSchedule_def)
  have "find_user_email (fst (together L e as (d, s))) e
      = Some (u\<lparr>us_failed_logins := us_failed_logins u + 1,
          us_lockout_until := lock_until (rq_now (last (map fst as))) (us_failed_logins u + 1)\<rparr>)"
    unfolding together_def fst_conv eq by (rule finish_all_wrong) (use assms(1,3) in simp_all)
  then show ?thesis using free by simp
qed

text \<open>The witnesses: Ann's account, ten wrong passwords two days apart, and three at once.\<close>

definition demo_login :: login_deps where
  "demo_login = \<lparr>ln_compare = (\<lambda>pw h. h = ''b:'' @ pw), ln_iso = int_str, ln_sha256_hex = (\<lambda>m. m)\<rparr>"

definition at_time :: "time \<Rightarrow> request" where
  "at_time t = \<lparr>rq_now = t, rq_id = ''rq'', rq_ip = None, rq_user_agent = None\<rparr>"

definition ten_guesses :: "(request \<times> string) list" where
  "ten_guesses = map (\<lambda>n. (at_time (172800000 * int n), ''guess'')) [0..<10]"

lemma ann_account: "find_user_email demo_db ''ann@x.io'' = Some ann" "truthy (us_password_hash ann)" "us_failed_logins ann = 0"
    "us_lockout_until ann = None" "us_password_hash ann = Some ''b:hunter2''"
  by (simp_all add: find_user_email_def demo_db_def ann_def)

theorem login_refines_lockout_witness:
  "\<exists>rs d' s'. run_logins demo_login ''ann@x.io'' [(at_time 0, ''guess''), (at_time 1, ''hunter2'')] (demo_db, []) = (rs, d', s')
     \<and> fst (lock_run [(0, False), (1, True)] (0, None)) = rs"
proof -
  let ?as = "[(at_time 0, ''guess''), (at_time 1, ''hunter2'')]"
  obtain rs d' s' where r: "run_logins demo_login ''ann@x.io'' ?as (demo_db, []) = (rs, d', s')" by (metis surj_pair)
  have "attempts_on demo_login ann ?as = [(0, False), (1, True)]"
    by (simp add: attempts_on_def at_time_def demo_login_def ann_def)
  with login_refines_lockout [OF ann_account(1,2) _ r] r show ?thesis by (auto simp: ann_account lock_of_def)
qed

theorem guesses_bounded_witness:
  "\<exists>rs d' s'. run_logins demo_login ''ann@x.io'' ten_guesses (demo_db, []) = (rs, d', s')
     \<and> misses (attempts_on demo_login ann ten_guesses) rs ! 9 - misses (attempts_on demo_login ann ten_guesses) rs ! 8
         \<ge> 1 * (24 * 60 * 60 * 1000)"
proof -
  let ?r = "run_logins demo_login ''ann@x.io'' ten_guesses (demo_db, [])"
  obtain rs d' s' where r: "?r = (rs, d', s')" by (metis surj_pair)
  have a: "attempts_on demo_login ann ten_guesses = map (\<lambda>n. (172800000 * int n, False)) [0..<10]"
    by (simp add: attempts_on_def ten_guesses_def at_time_def demo_login_def ann_account)
  have "fst (lock_run (map (\<lambda>n. (172800000 * int n, False)) [0..<10]) (0, None)) = replicate 10 Rejected" by code_simp
  moreover have "fst (lock_run (attempts_on demo_login ann ten_guesses) (lock_of ann)) = rs"
    using logins_run [of "(demo_db, [])", OF _ ann_account(2) _ r] by (auto simp: ann_account)
  ultimately have rs: "rs = replicate 10 Rejected" by (simp add: a lock_of_def ann_account)
  have "length (misses (attempts_on demo_login ann ten_guesses) (replicate 10 Rejected)) = 10" by code_simp
  with guesses_bounded [OF ann_account(1,2) _ r, of 8 9] r rs show ?thesis by (simp add: ann_account)
qed

theorem parallel_guesses_counted_once_witness:
  "\<exists>v. find_user_email (fst (together demo_login ''ann@x.io'' (map (\<lambda>n. (at_time n, ''guess'')) [0, 0, 0, 0, 0, 0]) (demo_db, []))) ''ann@x.io''
     = Some v \<and> us_failed_logins v = 1 \<and> us_lockout_until v = None"
proof -
  let ?as = "map (\<lambda>n. (at_time n, ''guess'')) [0, 0, 0, 0, 0, 0]"
  have a: "\<forall>(rq, pw) \<in> set ?as. \<not> locked_at (rq_now rq) (us_lockout_until ann)
      \<and> \<not> ln_compare demo_login pw (nullish (us_password_hash ann) '''')"
    by (simp add: locked_at_def demo_login_def ann_account)
  from parallel_guesses_counted_once [OF ann_account(1,2) _ a, of "[]"] show ?thesis by (simp add: ann_account)
qed

end
