(* ===== verification/Accounts.thy ===== *)
theory Accounts
  imports Login
begin

text \<open>
  Accounts: \<open>createIdentity\<close> of \<open>src/identity/identity.service.ts\<close>, the breach check
  \<open>src/auth/hibp.service.ts\<close>, registration and password reset of \<open>src/auth/auth.service.ts\<close>, and
  the sign-in links of \<open>src/auth/magic-link.service.ts\<close>.  What is drawn at random, the decentralised
  identifier included, is an argument.
\<close>

section \<open>Identities\<close>

record identity_entropy =
  ie_id :: string
  ie_did :: string
  ie_public_key :: string

definition new_identity :: "identity_entropy \<Rightarrow> string option \<Rightarrow> string option \<Rightarrow> user_row" where
  "new_identity ie email name =
     \<lparr>us_id = ie_id ie, us_did = ie_did ie, us_email = email, us_email_verified = False, us_name = name,
      us_avatar = None, us_metadata = Some (JObj [(''didPublicKey'', JStr (ie_public_key ie))]),
      us_failed_logins = 0, us_lockout_until = None, us_password_hash = None, us_reset_token = None,
      us_reset_expires = None, us_reset_params = None, us_totp_secret = None, us_totp_enabled = False,
      us_verify_token = None, us_verify_expires = None, us_bio = None, us_location = None, us_profession = None\<rparr>"

text \<open>\<open>create\<close> on the user table: the key, the identifier and the address are unique.\<close>

definition insert_user :: "user_row \<Rightarrow> db \<Rightarrow> error + db" where
  "insert_user u d =
     (if list_ex (\<lambda>x. us_id x = us_id u \<or> us_did x = us_did u \<or> us_email u \<noteq> None \<and> us_email x = us_email u) (users d)
      then Inl Db_Conflict else Inr (d\<lparr>users := users d @ [u]\<rparr>))"

definition createIdentity :: "identity_entropy \<Rightarrow> string option \<Rightarrow> string option \<Rightarrow> db \<Rightarrow> error + user_row \<times> db" where
  "createIdentity ie email name d =
     (let u = new_identity ie email name in case insert_user u d of Inl e \<Rightarrow> Inl e | Inr d1 \<Rightarrow> Inr (u, d1))"

section \<open>Breached passwords\<close>

text \<open>\<open>parseInt(s, 10)\<close>; \<open>None\<close> is \<open>NaN\<close>.\<close>

definition parse_int :: "string \<Rightarrow> int option" where
  "parse_int s =
     (let t = dropWhile is_ws s; neg = prefix ''-'' t; r = (if neg \<or> prefix ''+'' t then drop 1 t else t);
          ds = takeWhile is_digit r
      in if ds = [] then None else Some ((if neg then -1 else 1) * digits_value ds 0))"

text \<open>\<open>hb_range\<close> is the body the breach service answers for a prefix, none where the request fails.\<close>

record hibp =
  hb_sha1 :: "string \<Rightarrow> string"
  hb_range :: "string \<Rightarrow> string option"

definition hibp_enabled :: "config \<Rightarrow> bool" where
  "hibp_enabled cf \<longleftrightarrow> lower (nullish (cf_env cf ''HIBP_ENABLED'') ''false'') = ''true''"

definition hibp_min :: "config \<Rightarrow> int option" where
  "hibp_min cf = parse_int (nullish (cf_env cf ''HIBP_MIN_BREACH_COUNT'') ''1'')"

fun findSuffixCount :: "string list \<Rightarrow> string \<Rightarrow> int" where
  "findSuffixCount [] tail = 0"
| "findSuffixCount (line # ls) tail =
     (case split_char CHR '':'' (trim line) of
        [] \<Rightarrow> findSuffixCount ls tail
      | h # rest \<Rightarrow>
          if h = tail then nullish (parse_int (case rest of [] \<Rightarrow> ''0'' | c # _ \<Rightarrow> c)) 0
          else findSuffixCount ls tail)"

definition breachCount :: "hibp \<Rightarrow> config \<Rightarrow> string \<Rightarrow> int" where
  "breachCount H cf password =
     (if \<not> hibp_enabled cf \<or> password = [] then 0
      else (let sha1 = upper (hb_sha1 H password)
            in case hb_range H (take 5 sha1) of
                 None \<Rightarrow> 0
               | Some body \<Rightarrow> findSuffixCount (split_char CHR 0x0A body) (drop 5 sha1)))"

definition enforceHibp :: "hibp \<Rightarrow> config \<Rightarrow> string \<Rightarrow> error + unit" where
  "enforceHibp H cf password =
     (if \<not> hibp_enabled cf then Inr ()
      else (let count = breachCount H cf password
            in if (case hibp_min cf of None \<Rightarrow> False | Some m \<Rightarrow> m \<le> count)
               then Inl (Bad_Request (OAuth ''password_breached'' (Some (''Password appears in known breach corpora (''
                      @ int_str count @ '' sightings). Please choose a different password.''))))
               else Inr ()))"

section \<open>Registration\<close>

record account_deps =
  ac_config :: config
  ac_hibp :: hibp
  ac_hash :: "string \<Rightarrow> string"
  ac_sha256_hex :: "string \<Rightarrow> string"

definition send_welcome :: "user_row \<Rightarrow> db \<Rightarrow> db" where
  "send_welcome u d = emit (Email ''welcome'' (nullish (us_email u) '''') []) d"

definition registerWithPassword ::
  "account_deps \<Rightarrow> identity_entropy \<Rightarrow> string \<Rightarrow> string \<Rightarrow> string option \<Rightarrow> db \<Rightarrow> (error + user_row \<times> signed_token) \<times> db"
where
  "registerWithPassword A ie email password name d =
     (if find_user_email d email \<noteq> None
      then (Inl (Bad_Request (Msg ''User with this email already exists'')), d)
      else (case enforceHibp (ac_hibp A) (ac_config A) password of
              Inl e \<Rightarrow> (Inl e, d)
            | Inr _ \<Rightarrow>
                (case createIdentity ie (Some email) name d of
                   Inl e \<Rightarrow> (Inl e, d)
                 | Inr (u, d1) \<Rightarrow>
                     (let f = (\<lambda>x. x\<lparr>us_password_hash := Some (ac_hash A password)\<rparr>)
                      in (Inr (f u, generateTokenForUser (f u)), send_welcome (f u) (update_user (us_id u) f d1))))))"

section \<open>Sign-in links\<close>

definition MAGIC_TTL_MS :: int where "MAGIC_TTL_MS = 15 * 60 * 1000"

definition insert_magic :: "magic_row \<Rightarrow> db \<Rightarrow> error + db" where
  "insert_magic m d =
     (if list_ex (\<lambda>x. ml_id x = ml_id m \<or> ml_token x = ml_token m) (magic_links d)
      then Inl Db_Conflict else Inr (d\<lparr>magic_links := magic_links d @ [m]\<rparr>))"

text \<open>A continuation is kept when it names a client.\<close>

definition continuation :: "json option \<Rightarrow> json option" where
  "continuation p = (case p of None \<Rightarrow> None | Some j \<Rightarrow> if truthy (jstr (jget j ''clientId'')) then Some j else None)"

definition generateMagicLink ::
  "request \<Rightarrow> entropy \<Rightarrow> string \<Rightarrow> string \<Rightarrow> json option \<Rightarrow> db \<Rightarrow> error + string \<times> db"
where
  "generateMagicLink rq en email purpose params d =
     (case insert_magic \<lparr>ml_id = en_row_id en, ml_token = en_token en, ml_email = email,
             ml_user = map_option us_id (find_user_email d email), ml_purpose = purpose,
             ml_expires = rq_now rq + MAGIC_TTL_MS, ml_used = False, ml_used_at = None,
             ml_params = continuation params\<rparr> d of
        Inl e \<Rightarrow> Inl e | Inr d1 \<Rightarrow> Inr (en_token en, d1))"

definition frontend_of :: "config \<Rightarrow> string" where
  "frontend_of cf = nullish (cf_env cf ''FRONTEND_URL'') ''http://localhost:3000''"

definition sendMagicLink :: "account_deps \<Rightarrow> request \<Rightarrow> entropy \<Rightarrow> string \<Rightarrow> json option \<Rightarrow> db \<Rightarrow> error + db" where
  "sendMagicLink A rq en email params d =
     (let existing = find_user_email d email; purpose = (if existing \<noteq> None then ''login'' else ''register'')
      in case generateMagicLink rq en email purpose params d of
           Inl e \<Rightarrow> Inl e
         | Inr (token, d1) \<Rightarrow>
             Inr (emit (Email ''magic-link'' email
               ((frontend_of (ac_config A) @ ''/verify?token='' @ token) # (case Option.bind existing us_name of None \<Rightarrow> [] | Some n \<Rightarrow> [n]))) d1))"

text \<open>\<open>verifyMagicLink\<close>, split where it has read the row.\<close>

definition check_magic :: "request \<Rightarrow> string \<Rightarrow> db \<Rightarrow> error + magic_row" where
  "check_magic rq token d =
     (case List.find (\<lambda>m. ml_token m = token \<and> \<not> ml_used m) (magic_links d) of
        None \<Rightarrow> Inl (Bad_Request (Msg ''Invalid or expired magic link''))
      | Some m \<Rightarrow> if ml_expires m < rq_now rq then Inl (Bad_Request (Msg ''Magic link expired'')) else Inr m)"

definition spend_magic :: "request \<Rightarrow> magic_row \<Rightarrow> db \<Rightarrow> db" where
  "spend_magic rq m d =
     d\<lparr>magic_links := update_many (\<lambda>x. ml_id x = ml_id m) (\<lambda>x. x\<lparr>ml_used := True, ml_used_at := Some (rq_now rq)\<rparr>) (magic_links d)\<rparr>"

definition verify_email :: "user_row \<Rightarrow> db \<Rightarrow> user_row \<times> db" where
  "verify_email u d =
     (if us_email_verified u then (u, d)
      else (u\<lparr>us_email_verified := True\<rparr>, update_user (us_id u) (\<lambda>x. x\<lparr>us_email_verified := True\<rparr>) d))"

record magic_answer =
  ma_user :: user_row
  ma_new :: bool
  ma_params :: "json option"

definition finish_magic :: "request \<Rightarrow> identity_entropy \<Rightarrow> magic_row \<Rightarrow> db \<Rightarrow> (error + magic_answer) \<times> db" where
  "finish_magic rq ie m d =
     (let d1 = spend_magic rq m d
      in case (if truthy (ml_user m)
               then (case find_user d1 (nullish (ml_user m) '''') of
                       None \<Rightarrow> Inl (Bad_Request (Msg ''User not found'')) | Some u \<Rightarrow> Inr (u, False, d1))
               else (case createIdentity ie (Some (ml_email m)) None d1 of
                       Inl e \<Rightarrow> Inl e | Inr (u, d2) \<Rightarrow> Inr (u, True, d2))) of
           Inl e \<Rightarrow> (Inl e, d1)
         | Inr (u, isNew, d2) \<Rightarrow>
             (case verify_email u d2 of
                (u1, d3) \<Rightarrow> (Inr \<lparr>ma_user = u1, ma_new = isNew, ma_params = ml_params m\<rparr>, d3)))"

definition verifyMagicLink ::
  "request \<Rightarrow> identity_entropy \<Rightarrow> string \<Rightarrow> db \<Rightarrow> (error + magic_answer \<times> signed_token) \<times> db"
where
  "verifyMagicLink rq ie token d =
     (case check_magic rq token d of
        Inl e \<Rightarrow> (Inl e, d)
      | Inr m \<Rightarrow>
          (case finish_magic rq ie m d of
             (Inl e, d1) \<Rightarrow> (Inl e, d1)
           | (Inr a, d1) \<Rightarrow>
               (Inr (a, generateTokenForUser (ma_user a)), if ma_new a then send_welcome (ma_user a) d1 else d1)))"

definition cleanup_magic :: "request \<Rightarrow> db \<Rightarrow> db" where
  "cleanup_magic rq d = d\<lparr>magic_links := delete_many (\<lambda>m. ml_expires m < rq_now rq) (magic_links d)\<rparr>"

section \<open>Password reset\<close>

definition RESET_TTL_MS :: int where "RESET_TTL_MS = 60 * 60 * 1000"

definition requestPasswordReset :: "account_deps \<Rightarrow> request \<Rightarrow> entropy \<Rightarrow> string \<Rightarrow> json option \<Rightarrow> db \<Rightarrow> db" where
  "requestPasswordReset A rq en email params d =
     (case find_user_email d email of
        None \<Rightarrow> d
      | Some u \<Rightarrow>
          emit (Email ''password-reset'' (nullish (us_email u) '''')
                 [frontend_of (ac_config A) @ ''/reset-password?token='' @ en_token en])
            (update_user (us_id u)
               (\<lambda>x. x\<lparr>us_reset_token := Some (ac_sha256_hex A (en_token en)),
                      us_reset_expires := Some (rq_now rq + RESET_TTL_MS), us_reset_params := continuation params\<rparr>) d))"

definition resetPassword ::
  "account_deps \<Rightarrow> request \<Rightarrow> string \<Rightarrow> string \<Rightarrow> db \<Rightarrow> (error + user_row \<times> signed_token \<times> json option) \<times> db"
where
  "resetPassword A rq token newPassword d =
     (case List.find (\<lambda>u. us_reset_token u = Some (ac_sha256_hex A token)) (users d) of
        None \<Rightarrow> (Inl (Bad_Request (Msg ''Invalid reset token'')), d)
      | Some u \<Rightarrow>
          if (case us_reset_expires u of None \<Rightarrow> True | Some t \<Rightarrow> t < rq_now rq)
          then (Inl (Bad_Request (Msg ''Reset token expired'')), d)
          else (case enforceHibp (ac_hibp A) (ac_config A) newPassword of
                  Inl e \<Rightarrow> (Inl e, d)
                | Inr _ \<Rightarrow>
                    (let f = (\<lambda>x. x\<lparr>us_password_hash := Some (ac_hash A newPassword), us_reset_token := None,
                                    us_reset_expires := None, us_reset_params := None\<rparr>)
                     in (Inr (f u, generateTokenForUser (f u), us_reset_params u), update_user (us_id u) f d))))"

section \<open>A link signs in once\<close>

definition magic_claim ::
  "request \<times> identity_entropy \<times> string \<Rightarrow> db \<Rightarrow> (magic_answer \<times> signed_token) option \<times> db"
where
  "magic_claim q d = (case q of (rq, ie, token) \<Rightarrow> (case verifyMagicLink rq ie token d of (r, d1) \<Rightarrow> (ok r, d1)))"

definition magic_key :: "request \<times> identity_entropy \<times> string \<Rightarrow> string" where
  "magic_key q = snd (snd q)"

definition magic_spent :: "string \<Rightarrow> db \<Rightarrow> bool" where
  "magic_spent k d \<longleftrightarrow> (\<forall>m \<in> set (magic_links d). ml_token m = k \<longrightarrow> ml_used m)"

definition magic_ok :: "db \<Rightarrow> bool" where
  "magic_ok d \<longleftrightarrow> distinct (map ml_token (magic_links d))"

lemma emit_links [simp]: "magic_links (emit e d) = magic_links d"
  by (simp add: emit_def)

lemma links_frame [simp]:
  "magic_links (update_user i f d) = magic_links d" "magic_links (send_welcome u d) = magic_links d"
  "magic_links (snd (verify_email u d)) = magic_links d"
  by (simp_all add: update_user_def send_welcome_def verify_email_def)

lemma createIdentity_links: "createIdentity ie e n d = Inr (u, d1) \<Longrightarrow> magic_links d1 = magic_links d"
  by (auto simp: createIdentity_def insert_user_def Let_def split: if_splits)

lemma finish_links: "magic_links (snd (finish_magic rq ie m d)) = magic_links (spend_magic rq m d)"
proof (cases "truthy (ml_user m)")
  case True
  then show ?thesis
    by (cases "find_user (spend_magic rq m d) (nullish (ml_user m) '''')")
       (simp_all add: finish_magic_def Let_def case_prod_unfold)
next
  case False
  then show ?thesis
    by (cases "createIdentity ie (Some (ml_email m)) None (spend_magic rq m d)")
       (auto simp: finish_magic_def Let_def case_prod_unfold createIdentity_links)
qed

lemma verify_links:
  "magic_links (snd (verifyMagicLink rq ie token d)) =
     (case check_magic rq token d of Inl _ \<Rightarrow> magic_links d | Inr m \<Rightarrow> magic_links (spend_magic rq m d))"
  using finish_links [of rq ie] by (auto simp: verifyMagicLink_def split: sum.split prod.split) (metis snd_conv)+

lemma check_magicD:
  assumes "check_magic rq token d = Inr m"
  shows "m \<in> set (magic_links d) \<and> ml_token m = token \<and> \<not> ml_used m \<and> rq_now rq \<le> ml_expires m"
  using assms by (auto simp: check_magic_def dest: find_SomeD split: option.splits if_splits)

lemma spent_check: "magic_spent token d \<Longrightarrow> \<exists>e. check_magic rq token d = Inl e"
  by (auto simp: magic_spent_def check_magic_def dest!: find_SomeD split: option.split)

lemma spend_spends:
  assumes "magic_ok d" and "m \<in> set (magic_links d)"
  shows "magic_spent (ml_token m) (spend_magic rq m d)"
  unfolding magic_spent_def
proof (intro ballI impI)
  fix x assume x: "x \<in> set (magic_links (spend_magic rq m d))" "ml_token x = ml_token m"
  from x(1) obtain y where y: "y \<in> set (magic_links d)"
    "x = (if ml_id y = ml_id m then y\<lparr>ml_used := True, ml_used_at := Some (rq_now rq)\<rparr> else y)"
    unfolding spend_magic_def by (auto elim: update_manyE)
  then have "y = m" using assms x(2) by (auto simp: magic_ok_def distinct_map dest: inj_onD split: if_splits)
  then show "ml_used x" using y(2) by simp
qed

lemma spend_keeps: "magic_spent k d \<Longrightarrow> magic_spent k (spend_magic rq m d)"
  by (auto simp: magic_spent_def spend_magic_def set_update_many)

lemma magic_claim_links:
  "magic_links (snd (magic_claim q d)) = magic_links (snd (verifyMagicLink (fst q) (fst (snd q)) (magic_key q) d))"
  by (simp add: magic_claim_def magic_key_def split: prod.split)

lemma spent_links: "magic_links d' = magic_links d \<Longrightarrow> magic_spent k d' = magic_spent k d"
  by (simp add: magic_spent_def)

interpretation link: single_use magic_claim magic_key magic_spent magic_ok
proof unfold_locales
  fix q :: "request \<times> identity_entropy \<times> string" and d :: db and k
  note l = magic_claim_links [of q d, unfolded verify_links]
  show "magic_ok (snd (magic_claim q d))" if "magic_ok d"
    using that by (simp add: magic_ok_def l spend_magic_def map_update_many split: sum.split)
  show "fst (magic_claim q d) = None" if "magic_spent (magic_key q) d"
    using spent_check [OF that, of "fst q"]
    by (auto simp: magic_claim_def magic_key_def verifyMagicLink_def split: prod.split)
  show "magic_spent k (snd (magic_claim q d))" if "magic_spent k d"
    using that spend_keeps [OF that] by (simp add: magic_spent_def l split: sum.split)
  show "magic_spent (magic_key q) d'" if inv: "magic_ok d" and win: "magic_claim q d = (Some r, d')" for r d'
  proof -
    from win obtain m where m: "check_magic (fst q) (magic_key q) d = Inr m"
      by (auto simp: magic_claim_def magic_key_def verifyMagicLink_def ok_Some_iff split: prod.splits sum.splits)
    then have "magic_links d' = magic_links (spend_magic (fst q) m d)" using l win by simp
    then show ?thesis using spend_spends [OF inv, of m "fst q"] check_magicD [OF m] spent_links by metis
  qed
qed

text \<open>A sign-in link signs in at most once, over any sequence of visits.\<close>

theorem magic_link_used_once:
  assumes "magic_ok d"
  shows "wins magic_key token qs (fst (run_requests magic_claim qs d)) \<le> 1"
  using assms by (rule link.at_most_one_win)

text \<open>Two visits that both read the link before either marks it are both signed in, as the same person.\<close>

theorem magic_link_race:
  assumes "check_magic rq token d = Inr m" and "check_magic rq' token d = Inr m'"
    and "ml_user m = Some i" and "i \<noteq> []" and "find_user d i = Some u"
    and "finish_magic rq ie m d = (r, d1)" and "finish_magic rq' ie' m' d1 = (r', d2)"
  shows "\<exists>a a'. r = Inr a \<and> r' = Inr a' \<and> us_id (ma_user a) = i \<and> us_id (ma_user a') = i"
proof -
  have m': "m' = m" using assms(1,2) by (auto simp: check_magic_def split: option.splits if_splits)
  have one: "\<exists>a v. r = Inr a \<and> ma_user a = v \<and> us_id v = i \<and> find_user d1 i = Some v"
    if "finish_magic rq ie m d = (r, d1)" "find_user d i = Some u" for rq ie d r d1 u
  proof -
    have f: "find_user (spend_magic rq m d) i = Some u" using that(2) by (simp add: find_user_def spend_magic_def)
    have g: "List.find (\<lambda>u. us_id u = i) (update_many (\<lambda>x. us_id x = us_id u) (\<lambda>x. x\<lparr>us_email_verified := True\<rparr>) (users d))
        = Some (u\<lparr>us_email_verified := True\<rparr>)"
      using update_id_find [of us_id "\<lambda>x. x\<lparr>us_email_verified := True\<rparr>" i "users d" u "\<lambda>x. us_id x = us_id u"] that(2)
      by (simp add: find_user_def)
    from that(1) assms(3,4) f g find_userD [OF that(2)] show ?thesis
      by (auto simp: finish_magic_def Let_def verify_email_def find_user_def update_user_def spend_magic_def split: if_splits)
  qed
  from one [OF assms(6,5)] obtain a v where a: "r = Inr a" "us_id (ma_user a) = i" "find_user d1 i = Some v" by blast
  from one [OF assms(7) [unfolded m'] a(3)] a show ?thesis by blast
qed

section \<open>An account registered beforehand\<close>

lemma find_append:
  "List.find p (xs @ ys) = (case List.find p xs of None \<Rightarrow> List.find p ys | Some x \<Rightarrow> Some x)"
  by (induction xs) auto

lemma registered:
  assumes "registerWithPassword A ie e pw name d = (Inr (u, t), d1)"
  shows "us_id u = ie_id ie \<and> us_password_hash u = Some (ac_hash A pw) \<and> us_lockout_until u = None \<and> us_email u = Some e
    \<and> \<not> us_email_verified u \<and> us_failed_logins u = 0 \<and> users d1 = users d @ [u] \<and> magic_links d1 = magic_links d
    \<and> find_user_email d1 e = Some u \<and> find_user d1 (us_id u) = Some u"
proof -
  let ?n = "new_identity ie (Some e) name"
  let ?f = "\<lambda>x. x\<lparr>us_password_hash := Some (ac_hash A pw)\<rparr>"
  from assms have none: "find_user_email d e = None"
    and fresh: "\<forall>x \<in> set (users d). us_id x \<noteq> us_id ?n"
    and u: "u = ?f ?n" and d1: "d1 = send_welcome u (update_user (us_id ?n) ?f (d\<lparr>users := users d @ [?n]\<rparr>))"
    by (auto simp: registerWithPassword_def createIdentity_def insert_user_def Let_def list_ex_iff
        split: if_splits sum.splits)
  have "update_many (\<lambda>y. us_id y = us_id ?n) ?f (users d) = users d"
    unfolding update_many_def by (rule map_idI) (use fresh in auto)
  then have us: "users d1 = users d @ [u]" by (simp add: d1 send_welcome_def update_user_def u)
  have "List.find (\<lambda>x. us_email x = Some e) (users d) = None" using none by (simp add: find_user_email_def)
  moreover have "List.find (\<lambda>x. us_id x = us_id u) (users d) = None" using fresh by (auto simp: u find_None_iff)
  ultimately have "List.find (\<lambda>x. us_email x = Some e) (users d1) = Some u" "List.find (\<lambda>x. us_id x = us_id u) (users d1) = Some u"
    unfolding us by (auto simp: find_append u new_identity_def)
  then show ?thesis using us by (simp add: find_user_email_def find_user_def u new_identity_def d1)
qed

lemma sent_link:
  assumes "sendMagicLink A rq en e params d = Inr d1" and "find_user_email d e = Some u"
  shows "users d1 = users d \<and> check_magic rq' (en_token en) d1 =
    (let m = \<lparr>ml_id = en_row_id en, ml_token = en_token en, ml_email = e, ml_user = Some (us_id u), ml_purpose = ''login'',
        ml_expires = rq_now rq + MAGIC_TTL_MS, ml_used = False, ml_used_at = None, ml_params = continuation params\<rparr>
     in if rq_now rq + MAGIC_TTL_MS < rq_now rq' then Inl (Bad_Request (Msg ''Magic link expired'')) else Inr m)"
proof -
  let ?m = "\<lparr>ml_id = en_row_id en, ml_token = en_token en, ml_email = e, ml_user = Some (us_id u), ml_purpose = ''login'',
        ml_expires = rq_now rq + MAGIC_TTL_MS, ml_used = False, ml_used_at = None, ml_params = continuation params\<rparr>"
  from assms have fresh: "\<forall>x \<in> set (magic_links d). ml_token x \<noteq> en_token en"
    and d1: "users d1 = users d" "magic_links d1 = magic_links d @ [?m]"
    by (auto simp: sendMagicLink_def generateMagicLink_def insert_magic_def Let_def list_ex_iff emit_def split: if_splits)
  have "List.find (\<lambda>m. ml_token m = en_token en \<and> \<not> ml_used m) (magic_links d) = None"
    using fresh by (auto simp: find_None_iff)
  then have "List.find (\<lambda>m. ml_token m = en_token en \<and> \<not> ml_used m) (magic_links d1) = Some ?m"
    by (simp add: d1 find_append)
  then show ?thesis by (simp add: d1(1) check_magic_def Let_def)
qed

text \<open>An address can be taken before its owner comes: whoever registers it first with a password, without
  access to its mail, still signs in with that password after the owner has followed a sign-in link;
  the link opened the very account, and marked its address as verified.\<close>

theorem registered_before_owner:
  assumes "registerWithPassword A ie e pw name d = (Inr (u, t), d1)" and "ie_id ie \<noteq> []"
    and "ac_hash A pw \<noteq> []" and "ln_compare L pw (ac_hash A pw)"
    and "sendMagicLink A rq en e params d1 = Inr d2" and "rq_now rq' \<le> rq_now rq + 15 * 60 * 1000"
  shows "\<exists>a t' d3 v t'' st. verifyMagicLink rq' ie' (en_token en) d2 = (Inr (a, t'), d3)
    \<and> us_id (ma_user a) = us_id u \<and> us_email_verified (ma_user a) \<and> \<not> ma_new a
    \<and> loginWithPassword L rq'' e pw (d3, s) = (Inr (v, t''), st) \<and> us_id v = us_id u \<and> us_email_verified v"
proof -
  note r = registered [OF assms(1)]
  have fe: "find_user_email d1 e = Some u" using r by blast
  note l = sent_link [OF assms(5) fe, of rq']
  let ?v = "u\<lparr>us_email_verified := True\<rparr>"
  let ?m = "\<lparr>ml_id = en_row_id en, ml_token = en_token en, ml_email = e, ml_user = Some (us_id u), ml_purpose = ''login'',
        ml_expires = rq_now rq + MAGIC_TTL_MS, ml_used = False, ml_used_at = None, ml_params = continuation params\<rparr>"
  have c: "check_magic rq' (en_token en) d2 = Inr ?m" using l assms(6) by (simp add: Let_def MAGIC_TTL_MS_def)
  have fi: "find_user (spend_magic rq' ?m d2) (us_id u) = Some u"
  proof -
    have "find_user d1 (us_id u) = Some u" "users d2 = users d1" using r l by blast+
    then show ?thesis by (simp add: spend_magic_def find_user_def)
  qed
  have id0: "us_id u \<noteq> []" using r assms(2) by simp
  let ?d3 = "update_user (us_id u) (\<lambda>x. x\<lparr>us_email_verified := True\<rparr>) (spend_magic rq' ?m d2)"
  have v: "verifyMagicLink rq' ie' (en_token en) d2 =
      (Inr (\<lparr>ma_user = ?v, ma_new = False, ma_params = continuation params\<rparr>, generateTokenForUser ?v), ?d3)"
    using r fi id0 by (simp add: verifyMagicLink_def c finish_magic_def Let_def verify_email_def)
  have "List.find (\<lambda>x. us_email x = Some e) (users d1) = Some u" using fe by (simp add: find_user_email_def)
  from email_after_update [OF this, of "\<lambda>x. x\<lparr>us_email_verified := True\<rparr>"] have "find_user_email ?d3 e = Some ?v"
    using l by (simp add: find_user_email_def update_user_def spend_magic_def)
  then have "check_login L rq'' e pw ?d3 = Right ?v"
    using r assms(3,4) by (simp add: check_login_def locked_at_def)
  then show ?thesis using v by (simp add: loginWithPassword_def finish_login_def)
qed

section \<open>What a reset changes\<close>

text \<open>A password reset sets the password and nothing else: it happens for the holder of the unexpired
  token, which is spent; the new password then signs in, unless the account is locked, and a lock
  stays; every refresh token lives on.\<close>

theorem reset_sets_password:
  assumes "resetPassword A rq token pw d = (Inr (v, t, ps), d')"
    and "distinct (map us_id (users d))" and "distinct (map us_email (users d))"
    and "\<forall>x \<in> set (users d). \<forall>y \<in> set (users d). us_reset_token x = Some (ac_sha256_hex A token)
      \<longrightarrow> us_reset_token y = Some (ac_sha256_hex A token) \<longrightarrow> x = y"
    and "us_email v = Some e" and "ac_hash A pw \<noteq> []" and "ln_compare L pw (ac_hash A pw)"
  shows "(\<exists>u \<in> set (users d). us_id u = us_id v \<and> us_reset_token u = Some (ac_sha256_hex A token)
       \<and> (\<exists>x. us_reset_expires u = Some x \<and> rq_now rq \<le> x) \<and> us_lockout_until v = us_lockout_until u)
    \<and> (\<exists>er. fst (resetPassword A rq' token pw' d') = Inl er)
    \<and> refresh_tokens d' = refresh_tokens d
    \<and> (if locked_at (rq_now rq') (us_lockout_until v)
       then \<exists>m. fst (loginWithPassword L rq' e pw (d', s)) = Inl (Unauthorized m)
       else \<exists>t'. fst (loginWithPassword L rq' e pw (d', s)) = Inr (v, t'))"
proof -
  let ?h = "Some (ac_sha256_hex A token)"
  let ?f = "\<lambda>x. x\<lparr>us_password_hash := Some (ac_hash A pw), us_reset_token := None, us_reset_expires := None, us_reset_params := None\<rparr>"
  from assms(1) obtain u where f: "List.find (\<lambda>u. us_reset_token u = ?h) (users d) = Some u"
    and live: "\<exists>x. us_reset_expires u = Some x \<and> rq_now rq \<le> x"
    and v: "v = ?f u" and d': "d' = update_user (us_id u) ?f d"
    by (auto simp: resetPassword_def Let_def split: option.splits if_splits sum.splits)
  have u: "u \<in> set (users d)" "us_reset_token u = ?h" using find_SomeD [OF f] by simp_all
  have dead: "List.find (\<lambda>u. us_reset_token u = ?h) (users d') = None"
    unfolding find_None_iff
  proof
    assume "\<exists>x. x \<in> set (users d') \<and> us_reset_token x = ?h"
    then obtain x where x: "x \<in> set (users d')" "us_reset_token x = ?h" by blast
    from x(1) obtain y where y: "y \<in> set (users d)" "x = (if us_id y = us_id u then ?f y else y)"
      unfolding d' update_user_def by (auto elim: update_manyE)
    then have "us_id y \<noteq> us_id u" "us_reset_token y = ?h" using x(2) by (auto split: if_splits)
    then show False using assms(4) u y(1) by blast
  qed
  have "List.find (\<lambda>x. us_email x = Some e) (users d) = Some u"
    using find_key [OF assms(3) u(1)] assms(5) by (simp add: v)
  from email_after_update [OF this, of ?f] have fe: "find_user_email d' e = Some v"
    by (simp add: find_user_email_def d' update_user_def v)
  have login: "check_login L rq' e pw d' = (if locked_at (rq_now rq') (us_lockout_until v) then Locked (nullish (us_lockout_until v) 0) else Right v)"
    using fe assms(6,7) by (simp add: check_login_def v)
  have "refresh_tokens d' = refresh_tokens d" by (simp add: d' update_user_def)
  moreover have "\<exists>er. fst (resetPassword A rq' token pw' d') = Inl er" by (simp add: resetPassword_def dead)
  moreover have "\<exists>u \<in> set (users d). us_id u = us_id v \<and> us_reset_token u = ?h
       \<and> (\<exists>x. us_reset_expires u = Some x \<and> rq_now rq \<le> x) \<and> us_lockout_until v = us_lockout_until u"
    using u live v by auto
  ultimately show ?thesis by (simp add: loginWithPassword_def login finish_login_def locked_out_def)
qed

section \<open>Witnesses\<close>

definition demo_accounts :: account_deps where
  "demo_accounts = \<lparr>ac_config = demo_config, ac_hibp = \<lparr>hb_sha1 = (\<lambda>m. m), hb_range = (\<lambda>_. None)\<rparr>,
     ac_hash = (\<lambda>pw. ''b:'' @ pw), ac_sha256_hex = (\<lambda>m. ''x:'' @ m)\<rparr>"

definition demo_identity :: identity_entropy where
  "demo_identity = \<lparr>ie_id = ''u7'', ie_did = ''did:key:z7'', ie_public_key = ''7''\<rparr>"

definition link_for :: "string \<Rightarrow> magic_row" where
  "link_for i = \<lparr>ml_id = ''m1'', ml_token = ''link'', ml_email = ''ann@x.io'', ml_user = Some i, ml_purpose = ''login'',
     ml_expires = 900000, ml_used = False, ml_used_at = None, ml_params = None\<rparr>"

definition linked_db :: db where
  "linked_db = demo_db\<lparr>magic_links := [link_for ''u1'']\<rparr>"

lemma linked: "check_magic (at_time t) ''link'' linked_db = (if 900000 < t then Inl (Bad_Request (Msg ''Magic link expired''))
    else Inr (link_for ''u1''))"
  by (simp add: check_magic_def linked_db_def link_for_def at_time_def)

theorem magic_link_used_once_witness:
  "wins magic_key ''link'' [(at_time 1, demo_identity, ''link''), (at_time 2, demo_identity, ''link'')]
     (fst (run_requests magic_claim [(at_time 1, demo_identity, ''link''), (at_time 2, demo_identity, ''link'')] linked_db)) \<le> 1"
  by (rule magic_link_used_once) (simp add: magic_ok_def linked_db_def)

theorem magic_link_race_witness:
  "\<exists>r r' d1 d2 a a'. finish_magic (at_time 1) demo_identity (link_for ''u1'') linked_db = (r, d1)
     \<and> finish_magic (at_time 2) demo_identity (link_for ''u1'') d1 = (r', d2) \<and> r = Inr a \<and> r' = Inr a'
     \<and> us_id (ma_user a) = ''u1'' \<and> us_id (ma_user a') = ''u1''"
proof -
  obtain r d1 where f1: "finish_magic (at_time 1) demo_identity (link_for ''u1'') linked_db = (r, d1)" by (metis surj_pair)
  obtain r' d2 where f2: "finish_magic (at_time 2) demo_identity (link_for ''u1'') d1 = (r', d2)" by (metis surj_pair)
  have "find_user linked_db ''u1'' = Some ann" "ml_user (link_for ''u1'') = Some ''u1''"
    by (simp_all add: find_user_def linked_db_def demo_db_def ann_def link_for_def)
  from magic_link_race [of "at_time 1" "''link''" linked_db _ "at_time 2", OF _ _ this(2) _ this(1) f1 f2] f1 f2
  show ?thesis by (auto simp: linked)
qed

theorem registered_before_owner_witness:
  "\<exists>u t d1 d2 v t'' st. registerWithPassword demo_accounts demo_identity ''bob@x.io'' ''evil'' None demo_db = (Inr (u, t), d1)
     \<and> sendMagicLink demo_accounts (at_time 0) demo_en ''bob@x.io'' None d1 = Inr d2
     \<and> loginWithPassword demo_login (at_time 9) ''bob@x.io'' ''evil''
         (snd (verifyMagicLink (at_time 5) demo_identity ''second'' d2), []) = (Inr (v, t''), st)
     \<and> us_email_verified v"
proof -
  let ?r = "registerWithPassword demo_accounts demo_identity ''bob@x.io'' ''evil'' None demo_db"
  have "ok (fst ?r) \<noteq> None" by code_simp
  then obtain u t d1 where r: "?r = (Inr (u, t), d1)" by (cases ?r) (auto simp: ok_Some_iff)
  have "ok (sendMagicLink demo_accounts (at_time 0) demo_en ''bob@x.io'' None (snd ?r)) \<noteq> None" by code_simp
  then obtain d2 where l: "sendMagicLink demo_accounts (at_time 0) demo_en ''bob@x.io'' None d1 = Inr d2"
    by (auto simp: ok_Some_iff r)
  have "ie_id demo_identity \<noteq> []" "ac_hash demo_accounts ''evil'' \<noteq> []"
    "ln_compare demo_login ''evil'' (ac_hash demo_accounts ''evil'')" "rq_now (at_time 5) \<le> rq_now (at_time 0) + 15 * 60 * 1000"
    by (simp_all add: demo_identity_def demo_accounts_def demo_login_def at_time_def)
  from registered_before_owner [OF r this(1-3) l this(4), of demo_identity "at_time 9" "[]"] r l
  show ?thesis by (auto simp: demo_en_def)
qed

definition resetting_db :: db where
  "resetting_db = demo_db\<lparr>users := [ann\<lparr>us_reset_token := Some ''x:reset'', us_reset_expires := Some 3600000,
     us_failed_logins := 9, us_lockout_until := Some 86400000\<rparr>]\<rparr>"

theorem reset_sets_password_witness:
  "\<exists>v t ps d'. resetPassword demo_accounts (at_time 10) ''reset'' ''better'' resetting_db = (Inr (v, t, ps), d')
     \<and> refresh_tokens d' = refresh_tokens demo_db
     \<and> (\<exists>m. fst (loginWithPassword demo_login (at_time 20) ''ann@x.io'' ''better'' (d', [])) = Inl (Unauthorized m))"
proof -
  let ?r = "resetPassword demo_accounts (at_time 10) ''reset'' ''better'' resetting_db"
  have "map_option (\<lambda>(v, _). (us_email v, us_lockout_until v)) (ok (fst ?r)) = Some (Some ''ann@x.io'', Some 86400000)" by code_simp
  then obtain v t ps d' where r: "?r = (Inr (v, t, ps), d')" and v: "us_email v = Some ''ann@x.io''" "us_lockout_until v = Some 86400000"
    by (cases ?r) (auto simp: ok_Some_iff)
  have "distinct (map us_id (users resetting_db))" "distinct (map us_email (users resetting_db))"
    "\<forall>x \<in> set (users resetting_db). \<forall>y \<in> set (users resetting_db). us_reset_token x = Some (ac_sha256_hex demo_accounts ''reset'')
      \<longrightarrow> us_reset_token y = Some (ac_sha256_hex demo_accounts ''reset'') \<longrightarrow> x = y"
    "ac_hash demo_accounts ''better'' \<noteq> []" "ln_compare demo_login ''better'' (ac_hash demo_accounts ''better'')"
    by (simp_all add: resetting_db_def demo_accounts_def demo_login_def)
  from reset_sets_password [OF r this(1-3) v(1) this(4,5), of "at_time 20" "[]" "[]"] r v(2)
  show ?thesis by (auto simp: locked_at_def at_time_def resetting_db_def)
qed

end
