(* ===== verification/Otp.thy ===== *)
theory Otp
  imports Accounts
begin

text \<open>
  One-time codes: \<open>src/auth/otp/otp.service.ts\<close>.  A code is kept in Redis as the JSON text of its hash,
  its wrong tries and its end; the code drawn is an argument, and what is sent is an output.
\<close>

section \<open>Settings and keys\<close>

definition CODE_TTL_SECONDS :: int where "CODE_TTL_SECONDS = 600"
definition MAX_ATTEMPTS :: int where "MAX_ATTEMPTS = 5"
definition COOLDOWN_SECONDS :: int where "COOLDOWN_SECONDS = 30"
definition MAX_SENDS_PER_HOUR :: int where "MAX_SENDS_PER_HOUR = 6"

definition codeKey :: "string \<Rightarrow> string" where "codeKey subject = ''otp:code:'' @ subject"
definition cooldownKey :: "string \<Rightarrow> string" where "cooldownKey subject = ''otp:cooldown:'' @ subject"
definition countKey :: "string \<Rightarrow> string" where "countKey subject = ''otp:count:'' @ subject"

record otp_deps =
  oi_prims :: prims
  oi_hash :: "string \<Rightarrow> string"
  oi_sms :: bool

datatype otp_refusal = Refused_With error | Too_Many_Requests string

datatype otp_channel = By_Email | By_Sms

datatype otp_message = Otp_Email string string "string option" | Otp_Sms string string

definition redis_del :: "string \<Rightarrow> redis \<Rightarrow> redis" where
  "redis_del k s = delete_many (\<lambda>e. ry_key e = k) s"

definition otp_json :: "string \<Rightarrow> int \<Rightarrow> time \<Rightarrow> json" where
  "otp_json h attempts expiresAt = JObj [(''codeHash'', JStr h), (''attempts'', JNum attempts), (''expiresAt'', JNum expiresAt)]"

definition count_json :: "int \<Rightarrow> time \<Rightarrow> json" where
  "count_json count resetAt = JObj [(''count'', JNum count), (''resetAt'', JNum resetAt)]"

section \<open>Sending\<close>

definition malformed :: error where "malformed = Server_Error ''SyntaxError''"

definition enforceRateLimits :: "otp_deps \<Rightarrow> request \<Rightarrow> string \<Rightarrow> redis \<Rightarrow> (otp_refusal + unit) \<times> redis" where
  "enforceRateLimits D rq subject s =
     (case redis_set_if_absent (rq_now rq) (cooldownKey subject) ''1'' COOLDOWN_SECONDS s of
        (False, s1) \<Rightarrow> (Inl (Too_Many_Requests ''Please wait before requesting another code''), s1)
      | (True, s1) \<Rightarrow>
          (let now = rq_now rq; raw = redis_get now (countKey subject) s1; fresh = (1, now + 3600 * 1000);
               parsed = (if truthy raw then p_json_parse (oi_prims D) (nullish raw '''') else None)
           in if truthy raw \<and> parsed = None then (Inl (Refused_With malformed), s1)
              else (let (count, resetAt) =
                      (case (jnum (Option.bind parsed (\<lambda>j. jget j ''count'')), jnum (Option.bind parsed (\<lambda>j. jget j ''resetAt''))) of
                         (Some c, Some r) \<Rightarrow> if r > now then (c + 1, r) else fresh
                       | _ \<Rightarrow> fresh)
                    in if count > MAX_SENDS_PER_HOUR
                       then (Inl (Too_Many_Requests ''Too many codes requested. Try again later.''), s1)
                       else (Inr (), redis_set now (countKey subject) (p_stringify (oi_prims D) (count_json count resetAt))
                               (max 1 (ceil_seconds (resetAt - now))) s1))))"

definition otp_sms_text :: "string \<Rightarrow> string" where
  "otp_sms_text code = ''Your INITE verification code is '' @ code @ ''. It expires in '' @ int_str (CODE_TTL_SECONDS div 60) @ '' minutes.''"

definition generateAndSend ::
  "otp_deps \<Rightarrow> request \<Rightarrow> string \<Rightarrow> string \<Rightarrow> otp_channel \<Rightarrow> string \<Rightarrow> string option \<Rightarrow> redis \<Rightarrow>
   (otp_refusal + otp_message) \<times> redis"
where
  "generateAndSend D rq code subject channel sendTo name s =
     (if channel = By_Sms \<and> \<not> oi_sms D
      then (Inl (Refused_With (Bad_Request (Msg ''SMS channel is not configured''))), s)
      else (case enforceRateLimits D rq subject s of
              (Inl e, s1) \<Rightarrow> (Inl e, s1)
            | (Inr _, s1) \<Rightarrow>
                (Inr (case channel of By_Email \<Rightarrow> Otp_Email sendTo code name | By_Sms \<Rightarrow> Otp_Sms sendTo (otp_sms_text code)),
                 redis_set (rq_now rq) (codeKey subject)
                   (p_stringify (oi_prims D) (otp_json (oi_hash D code) 0 (rq_now rq + CODE_TTL_SECONDS * 1000)))
                   CODE_TTL_SECONDS s1)))"

definition login_subject :: "string \<Rightarrow> string" where
  "login_subject email = ''login:email:'' @ lower email"

definition mfa_subject :: "string \<Rightarrow> string" where
  "mfa_subject userId = ''mfa:'' @ userId"

definition requestEmailLoginCode ::
  "otp_deps \<Rightarrow> request \<Rightarrow> string \<Rightarrow> string \<Rightarrow> db \<Rightarrow> redis \<Rightarrow> (otp_refusal + otp_message) \<times> redis"
where
  "requestEmailLoginCode D rq code email d s =
     generateAndSend D rq code (login_subject email) By_Email email (Option.bind (find_user_email d email) us_name) s"

definition requestMfaCode ::
  "otp_deps \<Rightarrow> request \<Rightarrow> string \<Rightarrow> string \<Rightarrow> otp_channel \<Rightarrow> string option \<Rightarrow> db \<Rightarrow> redis \<Rightarrow>
   (otp_refusal + otp_message) \<times> redis"
where
  "requestMfaCode D rq code userId channel phone d s =
     (case find_user d userId of
        None \<Rightarrow> (Inl (Refused_With (Unauthorized (Msg ''User not found''))), s)
      | Some u \<Rightarrow>
          if channel = By_Email
          then if \<not> truthy (us_email u) then (Inl (Refused_With (Bad_Request (Msg ''User has no email on file''))), s)
               else generateAndSend D rq code (mfa_subject userId) By_Email (nullish (us_email u) '''') (us_name u) s
          else if \<not> truthy phone then (Inl (Refused_With (Bad_Request (Msg ''Phone number required for SMS''))), s)
          else generateAndSend D rq code (mfa_subject userId) By_Sms (nullish phone '''') None s)"

section \<open>Verifying\<close>

definition bad_code :: error where
  "bad_code = Unauthorized (Msg ''Invalid or expired code'')"

definition too_many_tries :: error where
  "too_many_tries = Unauthorized (Msg ''Too many incorrect attempts. Request a new code.'')"

text \<open>A text that is not such a record makes the handler throw; \<open>malformed\<close> stands for that.\<close>

definition verify_code :: "otp_deps \<Rightarrow> request \<Rightarrow> string \<Rightarrow> string \<Rightarrow> redis \<Rightarrow> (error + unit) \<times> redis" where
  "verify_code D rq subject code s =
     (let k = codeKey subject; raw = redis_get (rq_now rq) k s
      in if \<not> truthy raw then (Inl bad_code, s)
         else (case p_json_parse (oi_prims D) (nullish raw '''') of
                 None \<Rightarrow> (Inl malformed, s)
               | Some j \<Rightarrow>
                   (case (jstr (jget j ''codeHash''), jnum (jget j ''attempts''), jnum (jget j ''expiresAt'')) of
                      (Some h, Some n, Some e) \<Rightarrow>
                        if e \<le> rq_now rq then (Inl bad_code, redis_del k s)
                        else if h = oi_hash D code then (Inr (), redis_del k s)
                        else if MAX_ATTEMPTS \<le> n + 1 then (Inl too_many_tries, redis_del k s)
                        else (Inl bad_code,
                              redis_set (rq_now rq) k (p_stringify (oi_prims D) (otp_json h (n + 1) e))
                                (max 1 (ceil_seconds (e - rq_now rq))) s)
                    | _ \<Rightarrow> (Inl malformed, s))))"

definition resolveOrCreateUser :: "identity_entropy \<Rightarrow> string \<Rightarrow> db \<Rightarrow> error + (user_row \<times> bool) \<times> db" where
  "resolveOrCreateUser ie email d =
     (case find_user_email d email of
        Some u \<Rightarrow> (case verify_email u d of (u1, d1) \<Rightarrow> Inr ((u1, False), d1))
      | None \<Rightarrow>
          (case createIdentity ie (Some email) None d of
             Inl e \<Rightarrow> Inl e
           | Inr (u, d1) \<Rightarrow>
               Inr ((u\<lparr>us_email_verified := True\<rparr>, True), update_user (us_id u) (\<lambda>x. x\<lparr>us_email_verified := True\<rparr>) d1)))"

definition verifyEmailLoginCode ::
  "otp_deps \<Rightarrow> request \<Rightarrow> identity_entropy \<Rightarrow> string \<Rightarrow> string \<Rightarrow> db \<times> redis \<Rightarrow> (error + user_row \<times> bool) \<times> db \<times> redis"
where
  "verifyEmailLoginCode D rq ie email code st =
     (case verify_code D rq (login_subject email) code (snd st) of
        (Inl e, s1) \<Rightarrow> (Inl e, fst st, s1)
      | (Inr _, s1) \<Rightarrow>
          (case resolveOrCreateUser ie email (fst st) of
             Inl e \<Rightarrow> (Inl e, fst st, s1)
           | Inr (r, d1) \<Rightarrow> (Inr r, d1, s1)))"

definition verifyMfaCode :: "otp_deps \<Rightarrow> request \<Rightarrow> string \<Rightarrow> string \<Rightarrow> redis \<Rightarrow> (error + unit) \<times> redis" where
  "verifyMfaCode D rq userId code s = verify_code D rq (mfa_subject userId) code s"

section \<open>The abstract machine\<close>

text \<open>A code that ends at \<open>e\<close>: the wrong tries so far, or burned.\<close>

definition otp_step :: "time \<Rightarrow> time \<times> bool \<Rightarrow> int option \<Rightarrow> bool \<times> int option" where
  "otp_step e a st =
     (case st of
        None \<Rightarrow> (False, None)
      | Some n \<Rightarrow>
          if e \<le> fst a then (False, None) else if snd a then (True, None)
          else if MAX_ATTEMPTS \<le> n + 1 then (False, None) else (False, Some (n + 1)))"

fun otp_run :: "time \<Rightarrow> (time \<times> bool) list \<Rightarrow> int option \<Rightarrow> bool list" where
  "otp_run e [] st = []"
| "otp_run e (a # as) st = (case otp_step e a st of (r, st1) \<Rightarrow> r # otp_run e as st1)"

fun run_verify :: "otp_deps \<Rightarrow> string \<Rightarrow> (request \<times> string) list \<Rightarrow> redis \<Rightarrow> bool list" where
  "run_verify D subject [] s = []"
| "run_verify D subject ((rq, code) # as) s =
     (case verify_code D rq subject code s of (r, s1) \<Rightarrow> (ok r \<noteq> None) # run_verify D subject as s1)"

text \<open>What the store holds for the machine's state, from a given time on.\<close>

definition otp_held :: "otp_deps \<Rightarrow> string \<Rightarrow> string \<Rightarrow> time \<Rightarrow> time \<Rightarrow> int option \<Rightarrow> redis \<Rightarrow> bool" where
  "otp_held D k h e now st s \<longleftrightarrow>
     (case st of
        None \<Rightarrow> \<forall>t \<ge> now. redis_get t k s = None
      | Some n \<Rightarrow> \<exists>x \<ge> e. \<forall>t \<ge> now. redis_get t k s = (if t < x then Some (p_stringify (oi_prims D) (otp_json h n e)) else None))"

text \<open>The JSON texts of one code read back: \<open>JSON.parse(JSON.stringify(r))\<close> on its records.\<close>

definition otp_json_ok :: "otp_deps \<Rightarrow> string \<Rightarrow> time \<Rightarrow> bool" where
  "otp_json_ok D h e \<longleftrightarrow>
     (\<forall>n \<in> {0..4}. p_stringify (oi_prims D) (otp_json h n e) \<noteq> []
        \<and> p_json_parse (oi_prims D) (p_stringify (oi_prims D) (otp_json h n e)) = Some (otp_json h n e))"

lemma redis_get_del_other [simp]: "redis_get t k (redis_del k s) = None"
  by (simp add: redis_del_def)

lemma otp_held_later: "otp_held D k h e now st s \<Longrightarrow> now \<le> now' \<Longrightarrow> otp_held D k h e now' st s"
  by (fastforce simp: otp_held_def split: option.splits)

lemma ceil_seconds_ge: "ms \<le> 1000 * ceil_seconds ms"
  unfolding ceil_seconds_def by linarith

lemma verify_step:
  assumes "otp_held D (codeKey subject) h e (rq_now rq) st s" and "otp_json_ok D h e" and "st = None \<or> (\<exists>n \<in> {0..4}. st = Some n)"
    and "verify_code D rq subject code s = (r, s')"
  shows "\<exists>st'. otp_step e (rq_now rq, h = oi_hash D code) st = (ok r \<noteq> None, st')
    \<and> otp_held D (codeKey subject) h e (rq_now rq) st' s' \<and> (st' = None \<or> (\<exists>n \<in> {0..4}. st' = Some n))"
proof (cases st)
  case None
  then have "redis_get (rq_now rq) (codeKey subject) s = None" using assms(1) by (simp add: otp_held_def)
  with assms None show ?thesis by (auto simp: verify_code_def Let_def otp_step_def)
next
  case (Some n)
  let ?text = "p_stringify (oi_prims D) (otp_json h n e)"
  from assms(1) Some obtain x where x: "e \<le> x"
    "\<forall>t \<ge> rq_now rq. redis_get t (codeKey subject) s = (if t < x then Some ?text else None)"
    by (auto simp: otp_held_def)
  have n: "n \<in> {0..4}" using assms(3) Some by auto
  have js: "?text \<noteq> []" "p_json_parse (oi_prims D) ?text = Some (otp_json h n e)" using assms(2) n by (auto simp: otp_json_ok_def)
  show ?thesis
  proof (cases "rq_now rq < x")
    case False
    then have "\<forall>t \<ge> rq_now rq. redis_get t (codeKey subject) s = None" using x(2) by auto
    moreover have "r = Inl bad_code" "s' = s" using assms(4) calculation by (auto simp: verify_code_def Let_def)
    ultimately show ?thesis using False x(1) Some by (auto simp: otp_step_def otp_held_def)
  next
    case True
    then have raw: "redis_get (rq_now rq) (codeKey subject) s = Some ?text" using x(2) by simp
    have v: "verify_code D rq subject code s =
        (if e \<le> rq_now rq then (Inl bad_code, redis_del (codeKey subject) s)
         else if h = oi_hash D code then (Inr (), redis_del (codeKey subject) s)
         else if MAX_ATTEMPTS \<le> n + 1 then (Inl too_many_tries, redis_del (codeKey subject) s)
         else (Inl bad_code, redis_set (rq_now rq) (codeKey subject) (p_stringify (oi_prims D) (otp_json h (n + 1) e))
                 (max 1 (ceil_seconds (e - rq_now rq))) s))"
      using js by (simp add: verify_code_def Let_def raw otp_json_def)
    show ?thesis
    proof (cases "e \<le> rq_now rq \<or> h = oi_hash D code \<or> MAX_ATTEMPTS \<le> n + 1")
      case True
      with v assms(4) Some show ?thesis by (auto simp: otp_step_def otp_held_def split: if_splits)
    next
      case False
      let ?x = "rq_now rq + 1000 * max 1 (ceil_seconds (e - rq_now rq))"
      have "e \<le> ?x" using ceil_seconds_ge [of "e - rq_now rq"] by linarith
      moreover have s': "s' = redis_set (rq_now rq) (codeKey subject) (p_stringify (oi_prims D) (otp_json h (n + 1) e))
                 (max 1 (ceil_seconds (e - rq_now rq))) s" and "r = Inl bad_code"
        using False v assms(4) by auto
      ultimately have "otp_held D (codeKey subject) h e (rq_now rq) (Some (n + 1)) s'"
        by (auto simp: otp_held_def redis_get_set)
      with False Some n \<open>r = Inl bad_code\<close> show ?thesis
        by (intro exI [of _ "Some (n + 1)"]) (auto simp: otp_step_def MAX_ATTEMPTS_def)
    qed
  qed
qed

lemma verify_run:
  assumes "otp_held D (codeKey subject) h e now st s" and "otp_json_ok D h e" and "st = None \<or> (\<exists>n \<in> {0..4}. st = Some n)"
    and "sorted (map (rq_now \<circ> fst) as)" and "\<forall>(rq, c) \<in> set as. now \<le> rq_now rq"
  shows "run_verify D subject as s = otp_run e (map (\<lambda>(rq, c). (rq_now rq, h = oi_hash D c)) as) st"
  using assms
proof (induction as arbitrary: now st s)
  case (Cons a as)
  obtain rq c where a: "a = (rq, c)" by force
  obtain r s1 where v: "verify_code D rq subject c s = (r, s1)" by (rule prod.exhaust)
  have "otp_held D (codeKey subject) h e (rq_now rq) st s"
    using otp_held_later [OF Cons.prems(1)] Cons.prems(5) by (simp add: a)
  from verify_step [OF this Cons.prems(2,3) v] obtain st1 where
    st1: "otp_step e (rq_now rq, h = oi_hash D c) st = (ok r \<noteq> None, st1)" "otp_held D (codeKey subject) h e (rq_now rq) st1 s1"
      "st1 = None \<or> (\<exists>n \<in> {0..4}. st1 = Some n)" by blast
  have "run_verify D subject as s1 = otp_run e (map (\<lambda>(rq, c). (rq_now rq, h = oi_hash D c)) as) st1"
    by (rule Cons.IH [OF st1(2) Cons.prems(2) st1(3)]) (use Cons.prems(4) in \<open>auto simp: a\<close>)
  then show ?case using st1(1) by (simp add: a v)
qed simp

lemma sent_held:
  assumes "generateAndSend D rq code subject ch to nm s = (Inr m, s')"
  shows "otp_held D (codeKey subject) (oi_hash D code) (rq_now rq + 600 * 1000) (rq_now rq) (Some 0) s'"
  using assms
  by (auto simp: generateAndSend_def otp_held_def redis_get_set CODE_TTL_SECONDS_def split: if_splits prod.splits sum.splits
      intro!: exI [of _ "rq_now rq + 600000"])

text \<open>Checking a code is a counter of wrong tries: after a code was sent, any sequence of tries on its
  subject, in the order of time, answers like the machine \<open>otp_step\<close>, which knows only when each try
  comes and whether it is right.\<close>

theorem otp_refines_counter:
  assumes "generateAndSend D rq code subject ch to nm s = (Inr m, s')"
    and "otp_json_ok D (oi_hash D code) (rq_now rq + 600 * 1000)"
    and "sorted (map (rq_now \<circ> fst) as)" and "\<forall>(rq', c) \<in> set as. rq_now rq \<le> rq_now rq'"
  shows "run_verify D subject as s' =
    otp_run (rq_now rq + 600 * 1000) (map (\<lambda>(rq', c). (rq_now rq', oi_hash D code = oi_hash D c)) as) (Some 0)"
  using verify_run [OF sent_held [OF assms(1)] assms(2) _ assms(3,4)] by simp

section \<open>Five tries\<close>

lemma otp_run_none: "otp_run e as None ! i \<Longrightarrow> i < length as \<Longrightarrow> False"
  by (induction as arbitrary: i) (auto simp: otp_step_def nth_Cons split: nat.splits)

lemma otp_run_iff:
  assumes "sorted (map fst as)" and "i < length as" and "0 \<le> n" and "n < 5"
  shows "otp_run e as (Some n) ! i \<longleftrightarrow> n + int i < 5 \<and> fst (as ! i) < e \<and> snd (as ! i) \<and> (\<forall>j < i. \<not> snd (as ! j))"
  using assms
proof (induction as arbitrary: i n)
  case (Cons a as)
  obtain t right where a: "a = (t, right)" by force
  show ?case
  proof (cases i)
    case 0
    then show ?thesis using Cons.prems(4) by (auto simp: a otp_step_def)
  next
    case (Suc k)
    have k: "k < length as" using Cons.prems(2) Suc by simp
    have later: "t \<le> fst (as ! k)" using Cons.prems(1) k by (auto simp: a)
    have none: "\<not> otp_run e as None ! k" using otp_run_none k by blast
    have prior: "(\<forall>j < Suc k. \<not> snd ((a # as) ! j)) \<longleftrightarrow> \<not> right \<and> (\<forall>j < k. \<not> snd (as ! j))"
      by (auto simp: a less_Suc_eq_0_disj)
    consider (over) "e \<le> t" | (right) "t < e" right | (burned) "t < e" "\<not> right" "n = 4" | (wrong) "t < e" "\<not> right" "n < 4"
      using Cons.prems(4) by linarith
    then show ?thesis
    proof cases
      case over
      then show ?thesis using none later by (simp add: a Suc otp_step_def)
    next
      case right
      then show ?thesis using none prior by (auto simp: a Suc otp_step_def)
    next
      case burned
      then show ?thesis using none by (simp add: a Suc otp_step_def MAX_ATTEMPTS_def)
    next
      case wrong
      then have "otp_run e as (Some (n + 1)) ! k \<longleftrightarrow> n + 1 + int k < 5 \<and> fst (as ! k) < e \<and> snd (as ! k) \<and> (\<forall>j < k. \<not> snd (as ! j))"
        using Cons.IH [of k "n + 1"] Cons.prems(1,3) k by simp
      then show ?thesis using wrong prior by (simp add: a Suc otp_step_def MAX_ATTEMPTS_def algebra_simps)
    qed
  qed
qed simp

lemma length_run_verify: "length (run_verify D subject as s) = length as"
  by (induction as arbitrary: s) (auto split: prod.splits)

text \<open>C19. A code gives five tries: a try succeeds exactly when it presents the code, before ten minutes are
  over, among the first five tries, and no try before it was right; so at most one try succeeds.\<close>

theorem otp_five_tries:
  assumes "generateAndSend D rq code subject ch to nm s = (Inr m, s')"
    and "otp_json_ok D (oi_hash D code) (rq_now rq + 600 * 1000)"
    and "sorted (map (rq_now \<circ> fst) as)" and "\<forall>(rq', c) \<in> set as. rq_now rq \<le> rq_now rq'" and "i < length as"
  shows "run_verify D subject as s' ! i \<longleftrightarrow>
    i < 5 \<and> rq_now (fst (as ! i)) < rq_now rq + 600 * 1000 \<and> oi_hash D code = oi_hash D (snd (as ! i))
    \<and> (\<forall>j < i. oi_hash D code \<noteq> oi_hash D (snd (as ! j)))"
proof -
  let ?f = "\<lambda>(rq', c). (rq_now rq', oi_hash D code = oi_hash D c)"
  have run: "run_verify D subject as s' = otp_run (rq_now rq + 600 * 1000) (map ?f as) (Some 0)"
    using verify_run [OF sent_held [OF assms(1)] assms(2) _ assms(3,4)] by simp
  have so: "sorted (map fst (map ?f as))" using assms(3) by (simp add: comp_def case_prod_unfold)
  have nth: "map ?f as ! k = (rq_now (fst (as ! k)), oi_hash D code = oi_hash D (snd (as ! k)))" if "k < length as" for k
    using that by (simp add: case_prod_unfold)
  show ?thesis using otp_run_iff [OF so, of i 0 "rq_now rq + 600 * 1000"] nth assms(5) unfolding run by auto
qed

text \<open>The witnesses: a code sent to Ann, mistyped once.  The sample texts count the tries.\<close>

definition otp_prims :: prims where
  "otp_prims = P0\<lparr>p_stringify := (\<lambda>j. replicate (nat (nullish (jnum (jget j ''attempts'')) 0 + 1)) CHR ''x''),
     p_json_parse := (\<lambda>s. Some (otp_json ''123456'' (int (length s) - 1) 600000))\<rparr>"

definition demo_otp :: otp_deps where
  "demo_otp = \<lparr>oi_prims = otp_prims, oi_hash = (\<lambda>c. c), oi_sms = False\<rparr>"

lemma demo_otp_json: "otp_json_ok demo_otp (oi_hash demo_otp ''123456'') (rq_now (at_time 0) + 600 * 1000)"
  by (simp add: otp_json_ok_def demo_otp_def otp_prims_def otp_json_def at_time_def)

lemma demo_otp_sent:
  "\<exists>m s. generateAndSend demo_otp (at_time 0) ''123456'' (mfa_subject ''u1'') By_Email ''ann@x.io'' None [] = (Inr m, s)"
proof -
  let ?g = "generateAndSend demo_otp (at_time 0) ''123456'' (mfa_subject ''u1'') By_Email ''ann@x.io'' None []"
  have "fst ?g = Inr (Otp_Email ''ann@x.io'' ''123456'' None)" by code_simp
  then show ?thesis by (metis prod.collapse)
qed

definition demo_tries :: "(request \<times> string) list" where
  "demo_tries = [(at_time 1000, ''111111''), (at_time 2000, ''123456''), (at_time 3000, ''123456'')]"

lemma demo_tries_ok: "sorted (map (rq_now \<circ> fst) demo_tries)" "\<forall>(rq', c) \<in> set demo_tries. rq_now (at_time 0) \<le> rq_now rq'"
  by (simp_all add: demo_tries_def at_time_def)

theorem otp_refines_counter_witness:
  "\<exists>m s. generateAndSend demo_otp (at_time 0) ''123456'' (mfa_subject ''u1'') By_Email ''ann@x.io'' None [] = (Inr m, s)
     \<and> run_verify demo_otp (mfa_subject ''u1'') demo_tries s = [False, True, False]"
proof -
  obtain m s where g: "generateAndSend demo_otp (at_time 0) ''123456'' (mfa_subject ''u1'') By_Email ''ann@x.io'' None [] = (Inr m, s)"
    using demo_otp_sent by blast
  have "otp_run (rq_now (at_time 0) + 600 * 1000)
      (map (\<lambda>(rq', c). (rq_now rq', oi_hash demo_otp ''123456'' = oi_hash demo_otp c)) demo_tries) (Some 0) = [False, True, False]"
    by code_simp
  with otp_refines_counter [OF g demo_otp_json demo_tries_ok] g show ?thesis by auto
qed

theorem otp_five_tries_witness:
  "\<exists>m s. generateAndSend demo_otp (at_time 0) ''123456'' (mfa_subject ''u1'') By_Email ''ann@x.io'' None [] = (Inr m, s)
     \<and> run_verify demo_otp (mfa_subject ''u1'') demo_tries s ! 1"
proof -
  obtain m s where g: "generateAndSend demo_otp (at_time 0) ''123456'' (mfa_subject ''u1'') By_Email ''ann@x.io'' None [] = (Inr m, s)"
    using demo_otp_sent by blast
  from otp_five_tries [OF g demo_otp_json demo_tries_ok, of 1] g show ?thesis
    by (simp add: demo_tries_def at_time_def demo_otp_def)
qed

end
