(* ===== verification/Authorize.thy ===== *)
theory Authorize
  imports Par Auth_Code OAuth_Errors
begin

text \<open>
  The authorization endpoint: \<open>src/oauth/oauth.controller.ts\<close>, with \<open>account-choice.ts\<close> (which account
  answers), \<open>authorize-redirect.ts\<close> (what is carried to the login and the consent screen) and the
  customer-lane questions of \<open>oauth.service.ts\<close>.  The browser session is what the cookie store holds;
  a redirect is the place it goes to and the query parameters set on it, in order.
\<close>

section \<open>Sessions and redirects\<close>

record browser_session =
  bs_id :: "string option"
  bs_user :: "string option"
  bs_amr :: "string list option"
  bs_oauth_params :: "json option"

definition session_user :: "browser_session option \<Rightarrow> string option" where
  "session_user bs = (case bs of None \<Rightarrow> None | Some b \<Rightarrow> bs_user b)"

definition session_amr :: "browser_session option \<Rightarrow> string list" where
  "session_amr bs = (case bs of None \<Rightarrow> [] | Some b \<Rightarrow> nullish (bs_amr b) [])"

text \<open>\<open>new URL(uri)\<close>, or \<open>new URL(path, base)\<close>, and the calls of \<open>searchParams.set\<close>.\<close>

datatype place = Callback string | Screen string string

record redirect =
  go_to :: place
  go_params :: "(string \<times> string) list"

fun place_ok :: "(string \<Rightarrow> url option) \<Rightarrow> place \<Rightarrow> bool" where
  "place_ok pu (Callback uri) \<longleftrightarrow> pu uri \<noteq> None"
| "place_ok pu (Screen path base) \<longleftrightarrow> pu base \<noteq> None"

definition redirect_to :: "(string \<Rightarrow> url option) \<Rightarrow> place \<Rightarrow> (string \<times> string) list \<Rightarrow> error + redirect" where
  "redirect_to pu pl ps = (if place_ok pu pl then Inr \<lparr>go_to = pl, go_params = ps\<rparr> else Inl (Server_Error ''Invalid URL''))"

section \<open>Parameters\<close>

text \<open>A member of the resolved parameters is a text or absent.  \<open>assign\<close> is \<open>p.k = v\<close>.\<close>

definition pget :: "json \<Rightarrow> string \<Rightarrow> string option" where
  "pget p k = jstr (jget p k)"

definition assign :: "string \<Rightarrow> string option \<Rightarrow> json \<Rightarrow> json" where
  "assign k v p = JObj (case v of None \<Rightarrow> filter (\<lambda>(k', _). k' \<noteq> k) (members p)
                                | Some s \<Rightarrow> obj_put k (JStr s) (members p))"

definition set_when :: "string \<Rightarrow> string option \<Rightarrow> (string \<times> string) list" where
  "set_when k v = (if truthy v then [(k, nullish v '''')] else [])"

section \<open>Which account\<close>

datatype account_choice = Login | Select

fun choice_text :: "account_choice \<Rightarrow> string" where
  "choice_text Login = ''login''"
| "choice_text Select = ''select''"

definition promptValues :: "string option \<Rightarrow> string list" where
  "promptValues prompt = words_of (nullish prompt '''')"

definition sameAddress :: "string \<Rightarrow> string \<Rightarrow> bool" where
  "sameAddress a b \<longleftrightarrow> lower (trim a) = lower (trim b)"

definition accountChoiceFor :: "string option \<Rightarrow> string option \<Rightarrow> string option \<Rightarrow> account_choice option" where
  "accountChoiceFor prompt loginHint sessionEmail =
     (if ''login'' \<in> set (promptValues prompt) then Some Login
      else if ''select_account'' \<in> set (promptValues prompt) then Some Select
      else if truthy loginHint
              \<and> \<not> (truthy sessionEmail \<and> sameAddress (nullish loginHint '''') (nullish sessionEmail ''''))
      then Some Select else None)"

definition accountChoice :: "json \<Rightarrow> string option \<Rightarrow> string \<Rightarrow> db \<Rightarrow> account_choice option" where
  "accountChoice p prompt userId d =
     (let sessionEmail = (if truthy (pget p ''loginHint'')
                          then (case find_user d userId of None \<Rightarrow> None | Some u \<Rightarrow> us_email u) else None)
      in accountChoiceFor prompt (pget p ''loginHint'') sessionEmail)"

section \<open>The screens\<close>

definition CARRIED_AUTHORIZE_PARAMS :: "(string \<times> string) list" where
  "CARRIED_AUTHORIZE_PARAMS =
     [(''client_id'', ''clientId''), (''redirect_uri'', ''redirectUri''), (''scope'', ''scope''),
      (''state'', ''state''), (''code_challenge'', ''codeChallenge''),
      (''code_challenge_method'', ''codeChallengeMethod''), (''nonce'', ''nonce''),
      (''acr_values'', ''acrValues''), (''resource'', ''resource''),
      (''authorization_details'', ''authorizationDetails''), (''ui_locales'', ''uiLocales''),
      (''login_hint'', ''loginHint''), (''organization'', ''organization''), (''customer'', ''customer'')]"

record authorize_deps =
  zd_registry :: registry_deps
  zd_jose :: jose
  zd_config :: config
  zd_resources :: "string option"
  zd_host :: "string option"

abbreviation zd_prims :: "authorize_deps \<Rightarrow> prims" where "zd_prims Z \<equiv> rd_prims (zd_registry Z)"

abbreviation zd_url :: "authorize_deps \<Rightarrow> string \<Rightarrow> url option" where "zd_url Z \<equiv> p_parse_url (zd_prims Z)"

definition screen_base :: "authorize_deps \<Rightarrow> string" where
  "screen_base Z = (let f = cf_env (zd_config Z) ''FRONTEND_URL''
     in if truthy f then nullish f '''' else ''https://'' @ nullish (zd_host Z) ''undefined'')"

definition carried :: "json \<Rightarrow> (string \<times> string) list" where
  "carried p = concat (map (\<lambda>(q, k). set_when q (pget p k)) CARRIED_AUTHORIZE_PARAMS)"

definition buildClientRedirect ::
  "authorize_deps \<Rightarrow> string \<Rightarrow> json \<Rightarrow> bool \<Rightarrow> account_choice option \<Rightarrow> error + redirect"
where
  "buildClientRedirect Z path p stepUp choice =
     redirect_to (zd_url Z) (Screen path (screen_base Z))
       (carried p @ (if stepUp then [(''step_up'', ''1'')] else [])
        @ (case choice of None \<Rightarrow> [] | Some c \<Rightarrow> [(''account'', choice_text c)]))"

definition session_params :: "json \<Rightarrow> json" where
  "session_params p = mk_obj
     (omember ''clientId'' (pget p ''clientId'') @ omember ''redirectUri'' (pget p ''redirectUri'')
      @ omember ''scope'' (pget p ''scope'') @ omember ''state'' (pget p ''state'')
      @ [(''codeChallenge'', JStr (nullish (pget p ''codeChallenge'') '''')),
         (''codeChallengeMethod'', JStr (nullish (pget p ''codeChallengeMethod'') ''''))]
      @ omember ''nonce'' (pget p ''nonce'') @ omember ''resource'' (pget p ''resource'')
      @ omember ''authorizationDetails'' (pget p ''authorizationDetails''))"

definition redirectToLogin ::
  "authorize_deps \<Rightarrow> json \<Rightarrow> bool \<Rightarrow> account_choice option \<Rightarrow> browser_session option \<Rightarrow>
   (error + redirect) \<times> browser_session option"
where
  "redirectToLogin Z p stepUp choice bs =
     (let b = (case bs of None \<Rightarrow> \<lparr>bs_id = None, bs_user = None, bs_amr = None, bs_oauth_params = None\<rparr> | Some b \<Rightarrow> b)
      in (buildClientRedirect Z ''/login'' p stepUp choice, Some (b\<lparr>bs_oauth_params := Some (session_params p)\<rparr>)))"

text \<open>An error goes back to the client, with its state.\<close>

definition redirectWithError :: "authorize_deps \<Rightarrow> json \<Rightarrow> string \<Rightarrow> string \<Rightarrow> error + redirect" where
  "redirectWithError Z p err description =
     redirect_to (zd_url Z) (Callback (nullish (pget p ''redirectUri'') ''''))
       ([(''error'', err), (''error_description'', description)] @ set_when ''state'' (pget p ''state''))"

section \<open>Validation\<close>

definition assertAuthorizeBasics :: "json \<Rightarrow> error + unit" where
  "assertAuthorizeBasics p =
     (if pget p ''responseType'' \<noteq> Some ''code''
      then Inl (Bad_Request (Msg ''Invalid response_type. Only \"code\" is supported.''))
      else if \<not> truthy (pget p ''clientId'') then Inl (Bad_Request (Msg ''client_id is required''))
      else if \<not> truthy (pget p ''redirectUri'') then Inl (Bad_Request (Msg ''redirect_uri is required''))
      else Inr ())"

definition assertPkce :: "json \<Rightarrow> error + unit" where
  "assertPkce p =
     (if \<not> truthy (pget p ''codeChallenge'') then Inl (Bad_Request (Msg ''code_challenge is required (PKCE)''))
      else if truthy (pget p ''codeChallengeMethod'') \<and> pget p ''codeChallengeMethod'' \<noteq> Some ''S256''
      then Inl (Bad_Request (Msg ''Only the S256 code_challenge_method is supported''))
      else Inr ())"

definition customerLaneOrg :: "config \<Rightarrow> client_row \<Rightarrow> json \<Rightarrow> db \<Rightarrow> error + lane_org option" where
  "customerLaneOrg cf c p d = orgFor cf (lane_client_of c) (pget p ''organization'') (pget p ''customer'') d"

text \<open>\<open>wallet:pay\<close> becomes the wallet grant, and a request for the wallet asks for a passkey.\<close>

definition with_wallet :: "prims \<Rightarrow> string \<Rightarrow> json \<Rightarrow> json" where
  "with_wallet P scope p =
     (let p1 = assign ''authorizationDetails'' (withWalletScopeGrant P scope (pget p ''authorizationDetails'')) p
      in if rawHasWalletGrant P (pget p1 ''authorizationDetails'')
         then assign ''acrValues'' (Some (withWalletAcr (pget p1 ''acrValues''))) p1 else p1)"

record valid_request =
  vr_params :: json
  vr_scope :: string
  vr_lane :: "lane_org option"

definition checkAuthorize :: "authorize_deps \<Rightarrow> request \<Rightarrow> json \<Rightarrow> db \<Rightarrow> error + valid_request" where
  "checkAuthorize Z rq p d =
     (case assertAuthorizeBasics p of Inl e \<Rightarrow> Inl e
      | Inr _ \<Rightarrow>
     (case validateClient (zd_registry Z) rq (nullish (pget p ''clientId'') '''') None d of Inl e \<Rightarrow> Inl e
      | Inr c \<Rightarrow>
          if \<not> validateRedirectUri (zd_url Z) c (nullish (pget p ''redirectUri'') '''')
          then Inl (Bad_Request (Msg ''Invalid redirect_uri''))
          else
     (case validateGrantType c ''authorization_code'' of Inl e \<Rightarrow> Inl e
      | Inr _ \<Rightarrow>
     (case assertResourceAllowed (zd_url Z) (zd_resources Z) (resource_client_of c) (pget p ''resource'') of
        Inl e \<Rightarrow> Inl e
      | Inr _ \<Rightarrow>
     (case customerLaneOrg (zd_config Z) c p d of Inl e \<Rightarrow> Inl e
      | Inr lane \<Rightarrow>
          (let scope = grantableScope (scope_client_of c) (Some (nullish (pget p ''scope'') ''''))
           in case assertPkce p of Inl e \<Rightarrow> Inl e
              | Inr _ \<Rightarrow> Inr \<lparr>vr_params = with_wallet (zd_prims Z) scope p, vr_scope = scope, vr_lane = lane\<rparr>))))))"

definition validateAuthorize ::
  "authorize_deps \<Rightarrow> request \<Rightarrow> query \<Rightarrow> db \<Rightarrow> redis \<Rightarrow> (error + valid_request) \<times> redis"
where
  "validateAuthorize Z rq q d s =
     (case resolveAuthorizeParams (zd_jose Z) (zd_registry Z) rq q d s of
        (Inl e, s1) \<Rightarrow> (Inl e, s1)
      | (Inr p, s1) \<Rightarrow> (checkAuthorize Z rq p d, s1))"

section \<open>The endpoint\<close>

definition customerLaneNeedsPasswordless :: "lane_org option \<Rightarrow> string \<Rightarrow> string list \<Rightarrow> db \<Rightarrow> bool" where
  "customerLaneNeedsPasswordless lane userId amr d =
     (case lane of None \<Rightarrow> False | Some org \<Rightarrow> laneVerdict (membershipOf d userId (lo_id org)) amr = Passwordless)"

definition needsPasswordlessCustomer :: "browser_session option \<Rightarrow> lane_org option \<Rightarrow> db \<Rightarrow> bool" where
  "needsPasswordlessCustomer bs lane d =
     (if \<not> truthy (session_user bs) then False
      else customerLaneNeedsPasswordless lane (nullish (session_user bs) '''') (session_amr bs) d)"

definition loginInterruption ::
  "json \<Rightarrow> browser_session option \<Rightarrow> string \<Rightarrow> db \<Rightarrow> (account_choice option \<times> bool) option"
where
  "loginInterruption p bs userId d =
     (case accountChoice p (pget p ''prompt'') userId d of
        Some c \<Rightarrow> Some (Some c, False)
      | None \<Rightarrow> if \<not> isSatisfied (session_amr bs) (pget p ''acrValues'') then Some (None, True) else None)"

definition authorize_code_input :: "valid_request \<Rightarrow> string \<Rightarrow> string list \<Rightarrow> code_input" where
  "authorize_code_input v userId amr =
     (let p = vr_params v; achieved = achievedAcr amr
      in \<lparr>ci_user = userId, ci_client = nullish (pget p ''clientId'') '''',
          ci_redirect_uri = nullish (pget p ''redirectUri'') '''', ci_scope = vr_scope v,
          ci_challenge = pget p ''codeChallenge'',
          ci_challenge_method = Some (if truthy (pget p ''codeChallengeMethod'')
                                      then nullish (pget p ''codeChallengeMethod'') '''' else ''S256''),
          ci_nonce = pget p ''nonce'',
          ci_acr_values = (if achieved \<noteq> None then achieved else pget p ''acrValues''),
          ci_amr = Some amr, ci_resource = pget p ''resource'', ci_details = pget p ''authorizationDetails'',
          ci_organization = pget p ''organization'', ci_customer = pget p ''customer''\<rparr>)"

definition issueCode ::
  "authorize_deps \<Rightarrow> request \<Rightarrow> entropy \<Rightarrow> valid_request \<Rightarrow> string \<Rightarrow> string list \<Rightarrow> db \<Rightarrow> (error + redirect) \<times> db"
where
  "issueCode Z rq en v userId amr d =
     (case createAuthorizationCode (zd_prims Z) (zd_config Z) rq en (authorize_code_input v userId amr) d of
        (Inl e, d1) \<Rightarrow> (Inl e, d1)
      | (Inr code, d1) \<Rightarrow>
          (redirect_to (zd_url Z) (Callback (nullish (pget (vr_params v) ''redirectUri'') ''''))
             ((''code'', code) # set_when ''state'' (pget (vr_params v) ''state'')), d1))"

definition must_ask :: "valid_request \<Rightarrow> string \<Rightarrow> db \<Rightarrow> bool" where
  "must_ask v userId d =
     isRequired userId (nullish (pget (vr_params v) ''clientId'') '''') (vr_scope v)
       (truthy (pget (vr_params v) ''authorizationDetails'')) d"

definition handleSilentSso ::
  "authorize_deps \<Rightarrow> request \<Rightarrow> entropy \<Rightarrow> valid_request \<Rightarrow> browser_session option \<Rightarrow> db \<Rightarrow> (error + redirect) \<times> db"
where
  "handleSilentSso Z rq en v bs d =
     (let p = vr_params v; userId = nullish (session_user bs) ''''
      in if \<not> truthy (session_user bs)
         then (redirectWithError Z p ''login_required'' ''User is not authenticated'', d)
         else if accountChoice p None userId d \<noteq> None
         then (redirectWithError Z p ''account_selection_required''
                 ''The signed-in account is not the one requested'', d)
         else if \<not> isSatisfied (session_amr bs) (pget p ''acrValues'')
         then (redirectWithError Z p ''interaction_required''
                 ''Requested acr_values cannot be satisfied without interaction'', d)
         else if must_ask v userId d
         then (redirectWithError Z p ''consent_required'' ''The user has not consented to this client'', d)
         else issueCode Z rq en v userId (session_amr bs) d)"

definition answer_authorize ::
  "authorize_deps \<Rightarrow> request \<Rightarrow> entropy \<Rightarrow> valid_request \<Rightarrow> browser_session option \<Rightarrow> db \<Rightarrow>
   (error + redirect) \<times> browser_session option \<times> db"
where
  "answer_authorize Z rq en v bs d =
     (let p = vr_params v; userId = nullish (session_user bs) '''';
          silent = (pget p ''prompt'' = Some ''none'')
      in if needsPasswordlessCustomer bs (vr_lane v) d
         then if silent
              then (redirectWithError Z p ''login_required'' ''Customers sign in passwordless'', bs, d)
              else (case redirectToLogin Z p True None bs of (r, bs1) \<Rightarrow> (r, bs1, d))
         else if silent then (case handleSilentSso Z rq en v bs d of (r, d1) \<Rightarrow> (r, bs, d1))
         else if \<not> truthy (session_user bs)
         then (case redirectToLogin Z p False None bs of (r, bs1) \<Rightarrow> (r, bs1, d))
         else (case loginInterruption p bs userId d of
                 Some (choice, stepUp) \<Rightarrow>
                   (case redirectToLogin Z p stepUp choice bs of (r, bs1) \<Rightarrow> (r, bs1, d))
               | None \<Rightarrow>
                   if \<not> must_ask v userId d
                   then (case issueCode Z rq en v userId (session_amr bs) d of (r, d1) \<Rightarrow> (r, bs, d1))
                   else (buildClientRedirect Z ''/consent'' p False None, bs, d)))"

definition authorize ::
  "authorize_deps \<Rightarrow> request \<Rightarrow> entropy \<Rightarrow> query \<Rightarrow> browser_session option \<Rightarrow> db \<times> redis \<Rightarrow>
   (answered + redirect) \<times> browser_session option \<times> db \<times> redis"
where
  "authorize Z rq en q bs st =
     (case validateAuthorize Z rq q (fst st) (snd st) of
        (Inl e, s1) \<Rightarrow> (Inl (toOAuthException authorizeErrorMapper e), bs, fst st, s1)
      | (Inr v, s1) \<Rightarrow>
          (case answer_authorize Z rq en v bs (fst st) of
             (r, bs1, d1) \<Rightarrow> (map_sum (toOAuthException authorizeErrorMapper) id r, bs1, d1, s1)))"

section \<open>Lemmas\<close>

lemma jget_assign [simp]: "jget (assign k v p) k' = (if k' = k then map_option JStr v else map_of (members p) k')"
  by (auto simp: assign_def map_of_obj_put map_of_without split: option.split)

lemma jget_members [simp]: "map_of (members p) k = jget p k"
  by (cases p) simp_all

lemma pget_assign [simp]: "pget (assign k v p) k' = (if k' = k then v else pget p k')"
  by (cases v) (simp_all add: pget_def)

lemma with_wallet_keeps:
  "k \<notin> {''authorizationDetails'', ''acrValues''} \<Longrightarrow> pget (with_wallet P scope p) k = pget p k"
  by (simp add: with_wallet_def Let_def)

text \<open>What a request that passed the checks is.\<close>

definition request_of :: "authorize_deps \<Rightarrow> db \<Rightarrow> valid_request \<Rightarrow> client_row \<Rightarrow> string \<Rightarrow> bool" where
  "request_of Z d v c uri \<longleftrightarrow>
     c \<in> set (clients d) \<and> cl_active c \<and> pget (vr_params v) ''clientId'' = Some (cl_client_id c)
     \<and> ''authorization_code'' \<in> set (cl_allowed_grants c)
     \<and> pget (vr_params v) ''redirectUri'' = Some uri \<and> validateRedirectUri (zd_url Z) c uri
     \<and> truthy (pget (vr_params v) ''codeChallenge'')
     \<and> (truthy (pget (vr_params v) ''codeChallengeMethod'') \<longrightarrow> pget (vr_params v) ''codeChallengeMethod'' = Some ''S256'')
     \<and> vr_scope v = grantableScope (scope_client_of c) (Some (nullish (pget (vr_params v) ''scope'') ''''))
     \<and> isResourceAllowed (zd_url Z) (zd_resources Z) (resource_client_of c) (pget (vr_params v) ''resource'')"

lemma checked_request:
  assumes "checkAuthorize Z rq p d = Inr v"
  shows "\<exists>c uri. request_of Z d v c uri"
proof -
  from assms obtain c where c: "validateClient (zd_registry Z) rq (nullish (pget p ''clientId'') '''') None d = Inr c"
    and rest: "validateRedirectUri (zd_url Z) c (nullish (pget p ''redirectUri'') '''')"
      "validateGrantType c ''authorization_code'' = Inr ()"
      "isResourceAllowed (zd_url Z) (zd_resources Z) (resource_client_of c) (pget p ''resource'')"
      "assertAuthorizeBasics p = Inr ()" "assertPkce p = Inr ()"
      "vr_scope v = grantableScope (scope_client_of c) (Some (nullish (pget p ''scope'') ''''))"
      "vr_params v = with_wallet (zd_prims Z) (vr_scope v) p"
    by (auto simp: checkAuthorize_def Let_def assertResourceAllowed_def split: sum.splits if_splits)
  from rest(4) have t: "truthy (pget p ''clientId'')" "truthy (pget p ''redirectUri'')"
    by (auto simp: assertAuthorizeBasics_def split: if_splits)
  with validateClient_ok [OF c] rest show ?thesis
    by (intro exI [of _ c] exI [of _ "nullish (pget p ''redirectUri'') ''''"])
       (auto simp: request_of_def with_wallet_keeps assertPkce_def validateGrantType_def elim!: truthyE split: if_splits)
qed

lemma valid_request_of:
  assumes "validateAuthorize Z rq q d s = (Inr v, s')"
  shows "\<exists>c uri. request_of Z d v c uri"
  using assms by (auto simp: validateAuthorize_def intro: checked_request split: prod.splits sum.splits)

text \<open>The keys of a screen.\<close>

lemma carried_entry:
  "(q, x) \<in> set (carried p) \<longleftrightarrow> (\<exists>k. (q, k) \<in> set CARRIED_AUTHORIZE_PARAMS \<and> pget p k = Some x \<and> x \<noteq> [])"
  by (force simp: carried_def set_when_def elim!: truthyE split: if_splits)

lemma screen_no_code:
  assumes "buildClientRedirect Z path p stepUp choice = Inr r"
  shows "''code'' \<notin> fst ` set (go_params r) \<and> go_to r = Screen path (screen_base Z)"
proof -
  have "''code'' \<notin> fst ` set (carried p)"
    by (auto simp: carried_entry CARRIED_AUTHORIZE_PARAMS_def)
  with assms show ?thesis
    by (auto simp: buildClientRedirect_def redirect_to_def split: if_splits option.splits)
qed

lemma error_redirect:
  assumes "redirectWithError Z p e m = Inr r"
  shows "''code'' \<notin> fst ` set (go_params r) \<and> go_to r = Callback (nullish (pget p ''redirectUri'') '''')"
  using assms by (auto simp: redirectWithError_def redirect_to_def set_when_def split: if_splits)

lemma created_code:
  assumes "createAuthorizationCode P cf rq en input d = (Inr code, d')"
  shows "\<exists>details company. code = en_token en \<and> parse_details P cf (ci_details input) = Inr details
     \<and> auth_codes d' = auth_codes d @ [code_row_for rq en input details company]
     \<and> refresh_tokens d' = refresh_tokens d \<and> code \<notin> ac_code ` set (auth_codes d)"
proof -
  from assms obtain details company d1 where a:
    "codeTenant cf input (find_client d (ci_client input)) d = (Inr company, d1)"
    "insert_code (code_row_for rq en input details company) d1 = Inr d'" "code = en_token en"
    "parse_details P cf (ci_details input) = Inr details"
    by (auto simp: createAuthorizationCode_def Let_def split: sum.splits if_splits prod.splits)
  then show ?thesis using codeTenant_frame [OF a(1)]
    by (auto simp: insert_code_def list_ex_iff code_row_for_def image_iff split: if_splits)
qed

text \<open>An answer with a code comes from \<open>issueCode\<close>, past every question.\<close>

definition asks_nothing :: "valid_request \<Rightarrow> browser_session option \<Rightarrow> string \<Rightarrow> db \<Rightarrow> bool" where
  "asks_nothing v bs u d \<longleftrightarrow>
     session_user bs = Some u \<and> u \<noteq> [] \<and> \<not> needsPasswordlessCustomer bs (vr_lane v) d
     \<and> accountChoice (vr_params v)
          (if pget (vr_params v) ''prompt'' = Some ''none'' then None else pget (vr_params v) ''prompt'') u d = None
     \<and> isSatisfied (session_amr bs) (pget (vr_params v) ''acrValues'') \<and> \<not> must_ask v u d"

lemma issued_no_code: "issueCode Z rq en v u amr d = (Inr r, d') \<Longrightarrow> ''code'' \<in> fst ` set (go_params r)"
  by (auto simp: issueCode_def redirect_to_def split: prod.splits sum.splits if_splits)

lemma answer_cases:
  assumes "answer_authorize Z rq en v bs d = (r, bs', d')"
  shows "(\<exists>u. asks_nothing v bs u d \<and> issueCode Z rq en v u (session_amr bs) d = (r, d') \<and> bs' = bs)
    \<or> d' = d \<and> bs' = bs \<and> (\<exists>e m. r = redirectWithError Z (vr_params v) e m)
    \<or> d' = d \<and> pget (vr_params v) ''prompt'' \<noteq> Some ''none'' \<and> bs' = bs \<and> r = buildClientRedirect Z ''/consent'' (vr_params v) False None
    \<or> d' = d \<and> pget (vr_params v) ''prompt'' \<noteq> Some ''none'' \<and> session_user bs' = session_user bs \<and> session_amr bs' = session_amr bs
        \<and> (\<exists>stepUp choice. r = buildClientRedirect Z ''/login'' (vr_params v) stepUp choice)"
  using assms
  by (auto simp: answer_authorize_def handleSilentSso_def redirectToLogin_def Let_def loginInterruption_def
      asks_nothing_def session_user_def session_amr_def elim!: truthyE
      split: if_splits option.splits prod.splits)

lemma not_asked:
  assumes "\<not> isRequired u cid scope details d"
  shows "\<not> details \<and> (\<exists>c. find_client d cid = Some c
    \<and> (isFirstParty c \<or> (\<exists>cs \<in> set (consents d). cs_user cs = u \<and> cs_client cs = cid
         \<and> set (words_of scope) \<subseteq> set (cs_scopes cs))))"
  using assms
  by (auto simp: isRequired_def scopesOf_def list_ex_iff dest!: find_consentD split: option.splits if_splits)

lemma no_prompt:
  "accountChoice p prompt u d = None \<Longrightarrow> {''login'', ''select_account''} \<inter> set (promptValues prompt) = {}"
  "{''login'', ''select_account''} \<inter> set (promptValues (Some ''none'')) = {}"
proof -
  have "promptValues (Some ''none'') = [''none'']" by code_simp
  then show "{''login'', ''select_account''} \<inter> set (promptValues (Some ''none'')) = {}" by simp
qed (auto simp: accountChoice_def accountChoiceFor_def Let_def split: if_splits)

lemma hint_matches:
  assumes "accountChoice p prompt u d = None" and "truthy (pget p ''loginHint'')"
  shows "\<exists>x e. find_user d u = Some x \<and> us_email x = Some e \<and> sameAddress (nullish (pget p ''loginHint'') '''') e"
  using assms
  by (auto simp: accountChoice_def accountChoiceFor_def Let_def elim!: truthyE split: if_splits option.splits)

lemma issue_ok:
  assumes "issueCode Z rq en v u amr d = (Inr r, d')"
  shows "\<exists>row. go_to r = Callback (nullish (pget (vr_params v) ''redirectUri'') '''')
     \<and> go_params r = (''code'', ac_code row) # set_when ''state'' (pget (vr_params v) ''state'')
     \<and> auth_codes d' = auth_codes d @ [row] \<and> ac_code row \<notin> ac_code ` set (auth_codes d)
     \<and> ac_user row = u \<and> ac_client row = nullish (pget (vr_params v) ''clientId'') ''''
     \<and> ac_redirect_uri row = nullish (pget (vr_params v) ''redirectUri'') ''''
     \<and> ac_scope row = Some (vr_scope v) \<and> ac_amr row = amr \<and> \<not> ac_used row
     \<and> ac_challenge row = pget (vr_params v) ''codeChallenge'' \<and> ac_resource row = pget (vr_params v) ''resource''
     \<and> ac_challenge_method row = Some (if truthy (pget (vr_params v) ''codeChallengeMethod'')
          then nullish (pget (vr_params v) ''codeChallengeMethod'') '''' else ''S256'')
     \<and> ac_nonce row = pget (vr_params v) ''nonce'' \<and> ac_expires row = rq_now rq + 600000
     \<and> ac_acr_values row = (if achievedAcr amr \<noteq> None then achievedAcr amr else pget (vr_params v) ''acrValues'')
     \<and> (\<not> truthy (pget (vr_params v) ''authorizationDetails'') \<longrightarrow> ac_details row = None)"
proof -
  let ?i = "authorize_code_input v u amr"
  from assms obtain code where c: "createAuthorizationCode (zd_prims Z) (zd_config Z) rq en ?i d = (Inr code, d')"
    and r: "go_to r = Callback (nullish (pget (vr_params v) ''redirectUri'') '''')"
      "go_params r = (''code'', code) # set_when ''state'' (pget (vr_params v) ''state'')"
    by (auto simp: issueCode_def redirect_to_def split: prod.splits sum.splits if_splits)
  from created_code [OF c] obtain details company where k: "code = en_token en"
    "auth_codes d' = auth_codes d @ [code_row_for rq en ?i details company]" "code \<notin> ac_code ` set (auth_codes d)"
    "parse_details (zd_prims Z) (zd_config Z) (ci_details ?i) = Inr details"
    by blast
  have "\<not> truthy (pget (vr_params v) ''authorizationDetails'') \<longrightarrow> details = None"
    using k(4) by (auto simp: parse_details_def authorize_code_input_def Let_def)
  then show ?thesis
    by (intro exI [of _ "code_row_for rq en ?i details company"])
       (use k r in \<open>simp add: code_row_for_def authorize_code_input_def Let_def CODE_TTL_MS_def\<close>)
qed

lemma authorize_valid:
  assumes "authorize Z rq en q bs (d, s) = (Inr r, bs', d', s')"
  obtains v where "validateAuthorize Z rq q d s = (Inr v, s')" and "answer_authorize Z rq en v bs d = (Inr r, bs', d')"
  using assms by (auto simp: authorize_def split: prod.splits sum.splits elim!: map_sum_InrE)

text \<open>C8. A code is handed straight back only when nothing is left to ask: neither a login nor a choice
  of account; to the signed-in person of a session strong enough for the request, whose account is the one the
  request hints at; for an active client that may use the grant, at a redirect URI registered for it;
  with a S256 challenge and the client's grantable scope; with no detailed grant, for INITE's own
  client or scopes the person has already approved.  The code is stored for exactly that, for ten
  minutes: for this person, client, redirect URI and scope, the request's own challenge, resource and nonce,
  the session's factors and level, and no detailed grant.\<close>

theorem code_answer_is_due:
  assumes "authorize Z rq en q bs (d, s) = (Inr r, bs', d', s')" and "''code'' \<in> fst ` set (go_params r)"
    and "distinct (map cl_client_id (clients d))"
  shows "\<exists>v c uri u row. validateAuthorize Z rq q d s = (Inr v, s') \<and> request_of Z d v c uri
     \<and> session_user bs = Some u \<and> u \<noteq> [] \<and> bs' = bs
     \<and> {''login'', ''select_account''} \<inter> set (promptValues (pget (vr_params v) ''prompt'')) = {}
     \<and> isSatisfied (session_amr bs) (pget (vr_params v) ''acrValues'')
     \<and> (truthy (pget (vr_params v) ''loginHint'') \<longrightarrow> (\<exists>x e. find_user d u = Some x \<and> us_email x = Some e
          \<and> sameAddress (nullish (pget (vr_params v) ''loginHint'') '''') e))
     \<and> \<not> truthy (pget (vr_params v) ''authorizationDetails'')
     \<and> (isFirstParty c \<or> (\<exists>cs \<in> set (consents d). cs_user cs = u \<and> cs_client cs = cl_client_id c
          \<and> set (words_of (vr_scope v)) \<subseteq> set (cs_scopes cs)))
     \<and> go_to r = Callback uri
     \<and> go_params r = (''code'', ac_code row) # set_when ''state'' (pget (vr_params v) ''state'')
     \<and> auth_codes d' = auth_codes d @ [row] \<and> ac_code row \<notin> ac_code ` set (auth_codes d) \<and> \<not> ac_used row
     \<and> ac_user row = u \<and> ac_client row = cl_client_id c \<and> ac_redirect_uri row = uri
     \<and> ac_scope row = Some (vr_scope v) \<and> ac_amr row = session_amr bs
     \<and> truthy (ac_challenge row) \<and> ac_challenge row = pget (vr_params v) ''codeChallenge''
     \<and> ac_challenge_method row = Some ''S256'' \<and> ac_resource row = pget (vr_params v) ''resource''
     \<and> ac_nonce row = pget (vr_params v) ''nonce'' \<and> ac_details row = None \<and> ac_expires row = rq_now rq + 600000
     \<and> ac_acr_values row = (if achievedAcr (session_amr bs) \<noteq> None then achievedAcr (session_amr bs)
                             else pget (vr_params v) ''acrValues'')"
proof -
  obtain v where v: "validateAuthorize Z rq q d s = (Inr v, s')" and a: "answer_authorize Z rq en v bs d = (Inr r, bs', d')"
    using assms(1) by (rule authorize_valid)
  from valid_request_of [OF v] obtain c uri where c: "request_of Z d v c uri" by blast
  from answer_cases [OF a] assms(2) obtain u where u: "asks_nothing v bs u d"
    and i: "issueCode Z rq en v u (session_amr bs) d = (Inr r, d')" "bs' = bs"
    by (auto dest!: screen_no_code error_redirect dest: sym)
  have cid: "pget (vr_params v) ''clientId'' = Some (cl_client_id c)" using c by (simp add: request_of_def)
  have "find_client d (cl_client_id c) = Some c"
    using c assms(3) by (auto simp: request_of_def find_client_def find_key)
  with u cid not_asked [of u "cl_client_id c" "vr_scope v" _ d]
  have n: "\<not> truthy (pget (vr_params v) ''authorizationDetails'')"
    "isFirstParty c \<or> (\<exists>cs \<in> set (consents d). cs_user cs = u \<and> cs_client cs = cl_client_id c
          \<and> set (words_of (vr_scope v)) \<subseteq> set (cs_scopes cs))"
    by (auto simp: asks_nothing_def must_ask_def)
  have h: "truthy (pget (vr_params v) ''loginHint'') \<longrightarrow> (\<exists>x e. find_user d u = Some x \<and> us_email x = Some e
          \<and> sameAddress (nullish (pget (vr_params v) ''loginHint'') '''') e)"
    using u hint_matches by (auto simp: asks_nothing_def)
  obtain row where row: "go_to r = Callback (nullish (pget (vr_params v) ''redirectUri'') '''')"
     "go_params r = (''code'', ac_code row) # set_when ''state'' (pget (vr_params v) ''state'')"
     "auth_codes d' = auth_codes d @ [row]" "ac_code row \<notin> ac_code ` set (auth_codes d)"
     "ac_user row = u" "ac_client row = cl_client_id c" "ac_redirect_uri row = uri"
     "ac_scope row = Some (vr_scope v)" "ac_amr row = session_amr bs" "\<not> ac_used row"
     "truthy (ac_challenge row)" "ac_challenge row = pget (vr_params v) ''codeChallenge''"
     "ac_challenge_method row = Some ''S256''" "ac_resource row = pget (vr_params v) ''resource''"
     "ac_nonce row = pget (vr_params v) ''nonce''" "ac_details row = None" "ac_expires row = rq_now rq + 600000"
     "ac_acr_values row = (if achievedAcr (session_amr bs) \<noteq> None then achievedAcr (session_amr bs)
        else pget (vr_params v) ''acrValues'')"
    using issue_ok [OF i(1)] c n(1) by (auto simp: request_of_def elim!: truthyE split: if_splits)
  have at: "go_to r = Callback uri" using row(1) c by (simp add: request_of_def)
  have pr: "{''login'', ''select_account''} \<inter> set (promptValues (pget (vr_params v) ''prompt'')) = {}"
    using u no_prompt by (auto simp: asks_nothing_def split: if_splits)
  have us: "session_user bs = Some u" "u \<noteq> []" "isSatisfied (session_amr bs) (pget (vr_params v) ''acrValues'')"
    using u by (simp_all add: asks_nothing_def)
  show ?thesis
    by (intro exI [of _ v] exI [of _ c] exI [of _ uri] exI [of _ u] exI [of _ row] conjI)
       (fact v c us i(2) pr h n at row)+
qed

text \<open>The browser is sent nowhere else: an answer goes to a redirect URI registered for an active
  client, or to the login or consent screen of this service, and the latter never for
  \<open>prompt=none\<close>.  Only an answer with a code writes to the database, and none of them changes who is
  signed in.\<close>

theorem authorize_redirects_registered:
  assumes "authorize Z rq en q bs (d, s) = (Inr r, bs', d', s')"
  shows "\<exists>v c uri. validateAuthorize Z rq q d s = (Inr v, s') \<and> request_of Z d v c uri
     \<and> (go_to r = Callback uri
        \<or> go_to r \<in> {Screen ''/login'' (screen_base Z), Screen ''/consent'' (screen_base Z)}
          \<and> pget (vr_params v) ''prompt'' \<noteq> Some ''none'')
     \<and> (''code'' \<notin> fst ` set (go_params r) \<longrightarrow> d' = d)
     \<and> session_user bs' = session_user bs \<and> session_amr bs' = session_amr bs"
proof -
  obtain v where v: "validateAuthorize Z rq q d s = (Inr v, s')" and a: "answer_authorize Z rq en v bs d = (Inr r, bs', d')"
    using assms by (rule authorize_valid)
  from valid_request_of [OF v] obtain c uri where c: "request_of Z d v c uri" by blast
  then have uri: "nullish (pget (vr_params v) ''redirectUri'') '''' = uri" by (simp add: request_of_def)
  from answer_cases [OF a] uri
  have "(go_to r = Callback uri
        \<or> go_to r \<in> {Screen ''/login'' (screen_base Z), Screen ''/consent'' (screen_base Z)}
          \<and> pget (vr_params v) ''prompt'' \<noteq> Some ''none'')
     \<and> (''code'' \<notin> fst ` set (go_params r) \<longrightarrow> d' = d)
     \<and> session_user bs' = session_user bs \<and> session_amr bs' = session_amr bs"
    by (elim disjE exE conjE) (auto dest!: screen_no_code error_redirect issue_ok dest: sym)
  with v c show ?thesis by blast
qed

text \<open>Nothing is lost on the way through a screen.\<close>

lemma map_of_carried:
  assumes "distinct (map fst ps)" and "(k, k') \<in> set ps"
  shows "map_of (concat (map (\<lambda>(q, k). set_when q (pget p k)) ps)) k
    = (if truthy (pget p k') then pget p k' else None)"
  using assms
proof (induction ps)
  case (Cons a ps)
  have other: "map_of (set_when (fst a) (pget p (snd a))) k = None" if "fst a \<noteq> k" 
    using that by (simp add: set_when_def)
  show ?case
  proof (cases "a = (k, k')")
    case True
    then have "k \<notin> fst ` set ps" using Cons.prems(1) by auto
    then have none: "map_of (concat (map (\<lambda>(q, k). set_when q (pget p k)) ps)) k = None"
      by (force simp: map_of_eq_None_iff set_when_def split: if_splits)
    show ?thesis using True none by (auto simp: set_when_def map_add_def elim!: truthyE)
  next
    case False
    then have m: "(k, k') \<in> set ps" using Cons.prems(2) by auto
    then have "k \<in> fst ` set ps" by force
    then have "fst a \<noteq> k" using Cons.prems(1) by auto
    with m show ?thesis using Cons other by (auto simp: map_add_def split: option.split prod.split)
  qed
qed simp

lemma map_of_omember [simp]: "map_of (rev (omember k v)) k' = (if k' = k then map_option JStr v else None)"
  by (simp add: omember_def split: option.split)

lemma jstr_text [simp]: "jstr (map_option JStr v) = v"
  by (cases v) simp_all

lemmas query_param = pget_def queryToParams_def jget_mk_obj map_add_def

lemma plain_params:
  "pget (queryToParams m) ''scope'' = m ''scope''"
  "pget (queryToParams m) ''state'' = m ''state''"
  "pget (queryToParams m) ''codeChallenge'' = m ''code_challenge''"
  "pget (queryToParams m) ''codeChallengeMethod'' = m ''code_challenge_method''"
  "pget (queryToParams m) ''nonce'' = m ''nonce''"
  "pget (queryToParams m) ''acrValues'' = m ''acr_values''"
  "pget (queryToParams m) ''resource'' = m ''resource''"
  "pget (queryToParams m) ''authorizationDetails'' = m ''authorization_details''"
  "pget (queryToParams m) ''uiLocales'' = m ''ui_locales''"
  by (simp_all add: query_param split: option.split)

lemma named_params:
  "pget (queryToParams m) ''clientId'' = Some (nullish (m ''client_id'') '''')"
  "pget (queryToParams m) ''redirectUri'' = Some (nullish (m ''redirect_uri'') '''')"
  "pget (queryToParams m) ''loginHint'' = normalizeLoginHint (m ''login_hint'')"
  "pget (queryToParams m) ''organization'' = normalizeOrganizationHint (m ''organization'')"
  "pget (queryToParams m) ''customer'' = normalizeCustomerMarker (m ''customer'')"
  by (simp_all add: query_param split: option.split)

lemma hint_again: "normalizeLoginHint (normalizeLoginHint h) = normalizeLoginHint h"
  by (auto simp: normalizeLoginHint_def Let_def split: option.split)

lemma organization_again: "normalizeOrganizationHint (normalizeOrganizationHint h) = normalizeOrganizationHint h"
  by (auto simp: normalizeOrganizationHint_def Let_def trim_lower lower_again split: option.split)

lemma marker_again: "normalizeCustomerMarker (normalizeCustomerMarker h) = normalizeCustomerMarker h"
  by (auto simp: normalizeCustomerMarker_def)

definition resumed :: "redirect \<Rightarrow> query" where
  "resumed r = (\<lambda>k. map_of (go_params r) k)"

lemma resumed_param:
  assumes "map_of (go_params r) = map_of (carried p @ rest)" and "(k, k') \<in> set CARRIED_AUTHORIZE_PARAMS"
    and "k \<notin> fst ` set rest"
  shows "resumed r k = (if truthy (pget p k') then pget p k' else None)"
proof -
  have "map_of (carried p) k = (if truthy (pget p k') then pget p k' else None)"
    unfolding carried_def by (rule map_of_carried [OF _ assms(2)]) (simp add: CARRIED_AUTHORIZE_PARAMS_def)
  moreover have "map_of rest k = None" using assms(3) by (simp add: map_of_eq_None_iff)
  ultimately show ?thesis by (auto simp: resumed_def assms(1) map_add_def elim!: truthyE)
qed

lemma screen_param:
  assumes "buildClientRedirect Z path p stepUp choice = Inr r" and "(k, k') \<in> set CARRIED_AUTHORIZE_PARAMS"
  shows "resumed r k = (if truthy (pget p k') then pget p k' else None)"
proof -
  let ?rest = "(if stepUp then [(''step_up'', ''1'')] else [])
        @ (case choice of None \<Rightarrow> [] | Some c \<Rightarrow> [(''account'', choice_text c)])"
  have p: "go_params r = carried p @ ?rest"
    using assms(1) by (auto simp: buildClientRedirect_def redirect_to_def split: if_splits)
  have k: "k \<notin> fst ` set ?rest"
    using assms(2) by (auto simp: CARRIED_AUTHORIZE_PARAMS_def split: option.splits)
  show ?thesis by (rule resumed_param [OF _ assms(2) k]) (simp only: p)
qed

lemma screen_answer:
  assumes "answer_authorize Z rq en v bs d = (Inr r, bs', d')" and "go_to r = Screen path base"
  obtains path stepUp choice where "buildClientRedirect Z path (vr_params v) stepUp choice = Inr r"
proof -
  have "\<nexists>e m. redirectWithError Z (vr_params v) e m = Inr r" "\<nexists>u amr d'. issueCode Z rq en v u amr d = (Inr r, d')"
    using assms(2) by (auto dest!: error_redirect issue_ok)
  with answer_cases [OF assms(1)] that show ?thesis by metis
qed

lemma request_object_no_uri:
  "resolve_request_object J R rq req hint d = Inr m \<Longrightarrow> m ''request_uri'' = None"
  by (auto simp: resolve_request_object_def Let_def pickAuthorizeParams_def JAR_PARAMS_def
      split: option.splits if_splits sum.splits)

lemma resolved_query:
  assumes "resolveAuthorizeParams J R rq q d s = (Inr p, s')" and "\<not> truthy (q ''request_uri'')"
  shows "\<exists>eff. p = queryToParams eff"
proof -
  have none: "nullish (q ''request_uri'') '''' = ''''" using assms(2) by (cases "q ''request_uri''") auto
  show ?thesis
  proof (cases "truthy (q ''request'')")
    case True
    with assms none show ?thesis
      by (auto simp: resolveAuthorizeParams_def Let_def overlay_def
          dest!: request_object_no_uri elim!: map_sum_InrE split: sum.splits)
  qed (use assms none in \<open>auto simp: resolveAuthorizeParams_def Let_def\<close>)
qed

lemma checked_params: "checkAuthorize Z rq p d = Inr v \<Longrightarrow> vr_params v = with_wallet (zd_prims Z) (vr_scope v) p"
  by (auto simp: checkAuthorize_def Let_def split: sum.splits if_splits)

lemma normal_hints:
  assumes "validateAuthorize Z rq q d s = (Inr v, s')" and "\<not> truthy (q ''request_uri'')"
  shows "normalizeLoginHint (pget (vr_params v) ''loginHint'') = pget (vr_params v) ''loginHint''"
    and "normalizeOrganizationHint (pget (vr_params v) ''organization'') = pget (vr_params v) ''organization''"
    and "normalizeCustomerMarker (pget (vr_params v) ''customer'') = pget (vr_params v) ''customer''"
proof -
  from assms obtain eff where "vr_params v = with_wallet (zd_prims Z) (vr_scope v) (queryToParams eff)"
    by (auto simp: validateAuthorize_def dest!: resolved_query checked_params split: sum.splits prod.splits)
  then show "normalizeLoginHint (pget (vr_params v) ''loginHint'') = pget (vr_params v) ''loginHint''"
    and "normalizeOrganizationHint (pget (vr_params v) ''organization'') = pget (vr_params v) ''organization''"
    and "normalizeCustomerMarker (pget (vr_params v) ''customer'') = pget (vr_params v) ''customer''"
    by (simp_all add: with_wallet_keeps named_params hint_again organization_again marker_again)
qed

lemma empty_hints:
  "normalizeLoginHint None = None" "normalizeLoginHint (Some []) = None"
  "normalizeOrganizationHint None = None" "normalizeOrganizationHint (Some []) = None"
  "normalizeCustomerMarker None = None" "normalizeCustomerMarker (Some []) = None"
  by (simp_all add: normalizeLoginHint_def normalizeOrganizationHint_def normalizeCustomerMarker_def trim_def lower_def)

text \<open>A detour through the login or the consent screen loses nothing: the request resumed from the
  parameters of the screen has, for each carried parameter, the value the interrupted one had.\<close>

theorem screen_round_trip:
  assumes "authorize Z rq en q bs (d, s) = (Inr r, bs', d', s')" and "go_to r = Screen path base"
    and "\<not> truthy (q ''request_uri'')"
  shows "\<exists>v. validateAuthorize Z rq q d s = (Inr v, s') \<and>
    list_all (\<lambda>(k, k'). nullish (pget (queryToParams (resumed r)) k') '''' = nullish (pget (vr_params v) k') '''')
      CARRIED_AUTHORIZE_PARAMS"
proof -
  obtain v where v: "validateAuthorize Z rq q d s = (Inr v, s')" and a: "answer_authorize Z rq en v bs d = (Inr r, bs', d')"
    using assms(1) by (rule authorize_valid)
  obtain path' stepUp choice where b: "buildClientRedirect Z path' (vr_params v) stepUp choice = Inr r"
    using a assms(2) by (rule screen_answer)
  note carried_value = screen_param [OF b]
  note again = normal_hints [OF v assms(3)]
  have empty: "nullish (if truthy x then x else None) '''' = nullish x ''''" for x by (cases x) auto
  have blank: "normalizeLoginHint (if truthy x then x else None) = normalizeLoginHint x"
      "normalizeOrganizationHint (if truthy x then x else None) = normalizeOrganizationHint x"
      "normalizeCustomerMarker (if truthy x then x else None) = normalizeCustomerMarker x" for x
    by (cases x; auto simp: empty_hints)+
  have "list_all (\<lambda>(k, k'). resumed r k = (if truthy (pget (vr_params v) k') then pget (vr_params v) k' else None))
      CARRIED_AUTHORIZE_PARAMS"
    by (auto simp: list_all_iff carried_value)
  then have "list_all (\<lambda>(k, k'). nullish (pget (queryToParams (resumed r)) k') '''' = nullish (pget (vr_params v) k') '''')
      CARRIED_AUTHORIZE_PARAMS"
    unfolding CARRIED_AUTHORIZE_PARAMS_def list.pred_inject prod.case
    by (simp only: plain_params named_params empty blank again nullish_simps) simp
  with v show ?thesis by blast
qed




text \<open>The witnesses: Ann, signed in with a password, visits the shop's authorize link; and nobody does.\<close>

definition demo_authorize :: authorize_deps where
  "demo_authorize = \<lparr>zd_registry = demo_registry, zd_jose = jose_none, zd_config = demo_config,
     zd_resources = None, zd_host = Some ''app.example/cb''\<rparr>"

definition authorize_query :: query where
  "authorize_query = (\<lambda>k. map_of [(''client_id'', ''shop''), (''response_type'', ''code''), (''scope'', ''openid''),
     (''redirect_uri'', ''https://app.example/cb''), (''state'', ''s1''), (''code_challenge'', ''s:verifier''),
     (''login_hint'', ''Ann@x.io'')] k)"

definition ann_session :: "browser_session option" where
  "ann_session = Some \<lparr>bs_id = Some ''sid'', bs_user = Some ''u1'', bs_amr = Some [''pwd''], bs_oauth_params = None\<rparr>"

lemma demo_clients_distinct: "distinct (map cl_client_id (clients demo_db))"
  by (simp add: demo_db_def)

theorem code_answer_is_due_witness:
  "\<exists>r bs' d' s' row. authorize demo_authorize demo_rq demo_en authorize_query ann_session (demo_db, []) = (Inr r, bs', d', s')
     \<and> go_to r = Callback ''https://app.example/cb'' \<and> auth_codes d' = [row] \<and> ac_user row = ''u1''
     \<and> ac_challenge_method row = Some ''S256''"
proof -
  let ?a = "authorize demo_authorize demo_rq demo_en authorize_query ann_session (demo_db, [])"
  have "list_ex (\<lambda>r. list_ex (\<lambda>k. k = ''code'') (map fst (go_params r))) (case ok (fst ?a) of None \<Rightarrow> [] | Some r \<Rightarrow> [r])"
    by code_simp
  then obtain r bs' d' s' where a: "?a = (Inr r, bs', d', s')" and c: "''code'' \<in> fst ` set (go_params r)"
    by (cases ?a) (auto simp: list_ex_iff ok_def image_iff split: sum.splits option.splits)
  from code_answer_is_due [OF a c demo_clients_distinct]
  obtain v cl uri u row where k: "go_to r = Callback uri" "session_user ann_session = Some u" "request_of demo_authorize demo_db v cl uri"
    "auth_codes d' = auth_codes demo_db @ [row]" "ac_user row = u" "ac_challenge_method row = Some ''S256''" by metis
  have "pget (vr_params v) ''redirectUri'' = Some uri" "cl = shop" using k(3) by (auto simp: request_of_def demo_db_def)
  moreover have "validateRedirectUri demo_parse shop uri" using k(3) calculation(2)
    by (simp add: request_of_def demo_authorize_def demo_registry_def demo_prims_def)
  ultimately have "uri = ''https://app.example/cb''"
    by (auto simp: redirect_uri_rule shop_def isLoopbackHost_def demo_parse_def split: if_splits)
  moreover have "auth_codes demo_db = []" "u = ''u1''" using k(2) by (simp_all add: demo_db_def ann_session_def session_user_def)
  ultimately show ?thesis using a k by (intro exI [of _ r] exI [of _ bs'] exI [of _ d'] exI [of _ s'] exI [of _ row]) simp
qed

theorem authorize_redirects_registered_witness:
  "\<exists>r bs' d' s'. authorize demo_authorize demo_rq demo_en authorize_query None (demo_db, []) = (Inr r, bs', d', s')
     \<and> session_user bs' = None"
proof -
  let ?a = "authorize demo_authorize demo_rq demo_en authorize_query None (demo_db, [])"
  have "ok (fst ?a) \<noteq> None" by code_simp
  then obtain r bs' d' s' where a: "?a = (Inr r, bs', d', s')" by (cases ?a) (auto simp: ok_Some_iff)
  from authorize_redirects_registered [OF a] a show ?thesis by (auto simp: session_user_def)
qed

theorem screen_round_trip_witness:
  "\<exists>r. fst (authorize demo_authorize demo_rq demo_en authorize_query None (demo_db, [])) = Inr r
     \<and> nullish (pget (queryToParams (resumed r)) ''loginHint'') '''' = ''Ann@x.io''"
proof -
  let ?a = "authorize demo_authorize demo_rq demo_en authorize_query None (demo_db, [])"
  have "map_option go_to (ok (fst ?a)) = Some (Screen ''/login'' ''https://app.example/cb'')" by code_simp
  then obtain r bs' d' s' where a: "?a = (Inr r, bs', d', s')" and g: "go_to r = Screen ''/login'' ''https://app.example/cb''"
    by (cases ?a) (auto simp: ok_Some_iff)
  have q: "\<not> truthy (authorize_query ''request_uri'')" by code_simp
  have val: "map_option (\<lambda>v. pget (vr_params v) ''loginHint'')
      (ok (fst (validateAuthorize demo_authorize demo_rq authorize_query demo_db []))) = Some (Some ''Ann@x.io'')"
    by code_simp
  from screen_round_trip [OF a g q] val a show ?thesis by (auto simp: CARRIED_AUTHORIZE_PARAMS_def)
qed


end
