(* ===== verification/Logout.thy ===== *)
theory Logout
  imports Client_Registry Session
begin

text \<open>
  Leaving: \<open>src/oauth/oauth-origins.service.ts\<close> (the origins this service trusts),
  \<open>src/oauth/logout-redirect.ts\<close> (where a sign-out may send the browser),
  \<open>src/oauth/backchannel-logout.service.ts\<close> (telling the applications and ending their sessions) and
  the part of \<open>src/clients/manifest.ts\<close> that names an application's logout address.
\<close>

section \<open>Trusted origins\<close>

record origins_cache =
  oc_origins :: "string list"
  oc_time :: time

definition empty_cache :: origins_cache where
  "empty_cache = \<lparr>oc_origins = [], oc_time = 0\<rparr>"

definition ORIGINS_TTL_MS :: int where "ORIGINS_TTL_MS = 60000"

text \<open>\<open>new URL(uri).origin\<close>, or none where the constructor throws.\<close>

definition originOf :: "(string \<Rightarrow> url option) \<Rightarrow> string \<Rightarrow> string option" where
  "originOf pu uri = map_option url_origin (pu uri)"

definition operator_origins :: "config \<Rightarrow> string list" where
  "operator_origins cf =
     (let frontend = nullish (cf_env cf ''FRONTEND_URL'') ''''; extra = nullish (cf_env cf ''CORS_ORIGINS'') ''''
      in (if frontend \<noteq> [] then [strip_slash frontend] else [])
         @ map strip_slash (filter (\<lambda>o1. o1 \<noteq> []) (split_char CHR '','' extra)))"

definition first_party_clients :: "db \<Rightarrow> client_row list" where
  "first_party_clients d =
     filter (\<lambda>c. cl_active c \<and> cl_first_party c \<and> \<not> isDynamicClientId (Some (cl_client_id c))) (clients d)"

definition client_origins :: "(string \<Rightarrow> url option) \<Rightarrow> client_row \<Rightarrow> string list" where
  "client_origins pu c =
     concat (map (\<lambda>uri. case originOf pu uri of None \<Rightarrow> [] | Some o1 \<Rightarrow> [o1]) (cl_redirect_uris c))"

definition fresh_origins :: "(string \<Rightarrow> url option) \<Rightarrow> config \<Rightarrow> db \<Rightarrow> string list" where
  "fresh_origins pu cf d =
     uniq (operator_origins cf @ concat (map (client_origins pu) (first_party_clients d)))"

definition getAllowedOrigins ::
  "(string \<Rightarrow> url option) \<Rightarrow> config \<Rightarrow> request \<Rightarrow> db \<Rightarrow> origins_cache \<Rightarrow> string list \<times> origins_cache"
where
  "getAllowedOrigins pu cf rq d cache =
     (if rq_now rq - oc_time cache < ORIGINS_TTL_MS \<and> oc_origins cache \<noteq> [] then (oc_origins cache, cache)
      else let os = fresh_origins pu cf d in (os, \<lparr>oc_origins = os, oc_time = rq_now rq\<rparr>))"

definition isAllowedOrigin ::
  "(string \<Rightarrow> url option) \<Rightarrow> config \<Rightarrow> request \<Rightarrow> db \<Rightarrow> string \<Rightarrow> origins_cache \<Rightarrow> bool \<times> origins_cache"
where
  "isAllowedOrigin pu cf rq d o1 cache =
     (case getAllowedOrigins pu cf rq d cache of (os, cache1) \<Rightarrow> (o1 \<in> set os, cache1))"

section \<open>Where a sign-out may lead\<close>

record logout_input =
  lg_uri :: "string option"
  lg_state :: "string option"
  lg_client :: "string option"
  lg_hint :: "string option"

text \<open>
  \<open>idTokenHintClientId\<close> of \<open>auth.service.ts\<close>: \<open>verified\<close> gives the claims of a token this service
  signed, expired or not.  The three answers of \<open>identifyClient\<close> are a client, nobody, and refusal.
\<close>

definition idTokenHintClientId :: "(string \<Rightarrow> json option) \<Rightarrow> string \<Rightarrow> string option" where
  "idTokenHintClientId verified token =
     (case verified token of
        None \<Rightarrow> None
      | Some payload \<Rightarrow>
          (case jget payload ''aud'' of
             Some (JStr a) \<Rightarrow> Some a
           | Some (JArr [JStr a]) \<Rightarrow> Some a
           | _ \<Rightarrow> jstr (jget payload ''azp'')))"

datatype asking = Refused | Nobody | Asks string

definition identifyClient :: "(string \<Rightarrow> json option) \<Rightarrow> logout_input \<Rightarrow> asking" where
  "identifyClient verified i =
     (let fromHint = (if truthy (lg_hint i) then idTokenHintClientId verified (nullish (lg_hint i) '''') else None)
      in if truthy (lg_hint i) \<and> \<not> truthy fromHint then Refused
         else if truthy (lg_client i) \<and> truthy fromHint \<and> lg_client i \<noteq> fromHint then Refused
         else if truthy (lg_client i) then Asks (nullish (lg_client i) '''')
         else if truthy fromHint then Asks (nullish fromHint '''')
         else Nobody)"

record logout_deps =
  ld_registry :: registry_deps
  ld_config :: config
  ld_verified :: "string \<Rightarrow> json option"

abbreviation ld_url :: "logout_deps \<Rightarrow> string \<Rightarrow> url option" where
  "ld_url L \<equiv> p_parse_url (rd_prims (ld_registry L))"

definition isAllowedTarget ::
  "logout_deps \<Rightarrow> request \<Rightarrow> db \<Rightarrow> url \<Rightarrow> string option \<Rightarrow> origins_cache \<Rightarrow> bool \<times> origins_cache"
where
  "isAllowedTarget L rq d u clientId cache =
     (if \<not> truthy clientId
      then if url_protocol u \<noteq> ''https:'' then (False, cache)
           else if onFamilyHost u then (True, cache)
           else isAllowedOrigin (ld_url L) (ld_config L) rq d (url_origin u) cache
      else if isDynamicClientId clientId then (False, cache)
      else (case validateClient (ld_registry L) rq (nullish clientId '''') None d of
              Inl _ \<Rightarrow> (False, cache)
            | Inr c \<Rightarrow> (list_ex (\<lambda>r. originOf (ld_url L) r = Some (url_origin u)) (cl_redirect_uris c), cache)))"

text \<open>The answer is the URI and the query parameters set on it.\<close>

definition resolvePostLogoutRedirect ::
  "logout_deps \<Rightarrow> request \<Rightarrow> db \<Rightarrow> logout_input \<Rightarrow> origins_cache \<Rightarrow>
   (string \<times> (string \<times> string) list) option \<times> origins_cache"
where
  "resolvePostLogoutRedirect L rq d i cache =
     (if \<not> truthy (lg_uri i) then (None, cache)
      else (case ld_url L (nullish (lg_uri i) '''') of
              None \<Rightarrow> (None, cache)
            | Some u \<Rightarrow>
                if url_protocol u \<noteq> ''https:'' \<and> url_protocol u \<noteq> ''http:'' then (None, cache)
                else (case identifyClient (ld_verified L) i of
                        Refused \<Rightarrow> (None, cache)
                      | a \<Rightarrow>
                          (case isAllowedTarget L rq d u (case a of Asks c \<Rightarrow> Some c | _ \<Rightarrow> None) cache of
                             (False, cache1) \<Rightarrow> (None, cache1)
                           | (True, cache1) \<Rightarrow>
                               (Some (nullish (lg_uri i) '''',
                                  if truthy (lg_state i) then [(''state'', nullish (lg_state i) '''')] else []), cache1)))))"

section \<open>Telling the applications\<close>

definition BACKCHANNEL_LOGOUT_PATH :: string where
  "BACKCHANNEL_LOGOUT_PATH = ''/api/auth/backchannel-logout''"

definition LOGOUT_TOKEN_TTL_S :: int where "LOGOUT_TOKEN_TTL_S = 120"

fun first_https :: "(string \<Rightarrow> url option) \<Rightarrow> string list \<Rightarrow> string option" where
  "first_https pu [] = None"
| "first_https pu (uri # uris) =
     (case pu uri of
        Some u \<Rightarrow> if url_protocol u = ''https:'' then Some (url_origin u @ BACKCHANNEL_LOGOUT_PATH)
                  else first_https pu uris
      | None \<Rightarrow> first_https pu uris)"

definition backchannelUriFor :: "(string \<Rightarrow> url option) \<Rightarrow> client_row \<Rightarrow> string option" where
  "backchannelUriFor pu c =
     (if truthy (cl_backchannel_uri c) then cl_backchannel_uri c
      else if \<not> cl_first_party c \<or> cl_is_public c \<or> prefix ''dcr_'' (cl_client_id c) then None
      else first_https pu (cl_redirect_uris c))"

definition has_did :: "db \<Rightarrow> string \<Rightarrow> string \<Rightarrow> bool" where
  "has_did d did u \<longleftrightarrow> list_ex (\<lambda>x. us_id x = u \<and> us_did x = did) (users d)"

definition logout_recipients :: "db \<Rightarrow> string \<Rightarrow> client_row list" where
  "logout_recipients d did =
     filter (\<lambda>c. cl_active c \<and> (cl_backchannel_uri c \<noteq> None \<or> cl_first_party c \<and> \<not> cl_is_public c)
         \<and> list_ex (\<lambda>r. rt_client r = cl_client_id c \<and> \<not> rt_revoked r \<and> has_did d did (rt_user r))
              (refresh_tokens d)) (clients d)"

definition logout_targets :: "(string \<Rightarrow> url option) \<Rightarrow> db \<Rightarrow> string \<Rightarrow> (string \<times> string) list" where
  "logout_targets pu d did =
     concat (map (\<lambda>c. case backchannelUriFor pu c of None \<Rightarrow> [] | Some uri \<Rightarrow> [(cl_client_id c, uri)])
       (logout_recipients d did))"

text \<open>\<open>jti\<close> is a fresh random identifier per client.\<close>

definition buildLogoutToken ::
  "prims \<Rightarrow> config \<Rightarrow> (string \<Rightarrow> string) \<Rightarrow> string \<Rightarrow> string \<Rightarrow> string option \<Rightarrow> json \<times> string"
where
  "buildLogoutToken P cf jti client sub sid =
     (let claims = JObj
        ([(''sub'', JStr sub),
          (''events'', JObj [(''http://schemas.openid.net/event/backchannel-logout'', JObj [])]),
          (''jti'', JStr (jti client))]
         @ (if truthy sid then [(''sid'', JStr (nullish sid ''''))] else []))
      in (claims, p_sign P claims \<lparr>so_expires_in = LOGOUT_TOKEN_TTL_S, so_audience = client, so_issuer = jwt_issuer cf\<rparr>))"

text \<open>What is posted: the client, the address and the signed token.  A failed delivery is swallowed.\<close>

definition fanOut ::
  "prims \<Rightarrow> config \<Rightarrow> (string \<Rightarrow> string) \<Rightarrow> db \<Rightarrow> string \<Rightarrow> string option \<Rightarrow> (string \<times> string \<times> string) list"
where
  "fanOut P cf jti d did sid =
     map (\<lambda>(client, uri). (client, uri, snd (buildLogoutToken P cf jti client did sid)))
       (logout_targets (p_parse_url P) d did)"

definition end_rp_table :: "db \<Rightarrow> string \<Rightarrow> time \<Rightarrow> refresh_row list \<Rightarrow> refresh_row list" where
  "end_rp_table d did now t = revoke_where (\<lambda>r. has_did d did (rt_user r)) now t"

definition endRelyingPartySessions ::
  "prims \<Rightarrow> config \<Rightarrow> request \<Rightarrow> (string \<Rightarrow> string) \<Rightarrow> string \<Rightarrow> string option \<Rightarrow> db \<Rightarrow>
   ((string \<times> string \<times> string) list \<times> nat) \<times> db"
where
  "endRelyingPartySessions P cf rq jti did sid d =
     ((fanOut P cf jti d did sid,
       count_where (\<lambda>r. has_did d did (rt_user r) \<and> \<not> rt_revoked r) (refresh_tokens d)),
      d\<lparr>refresh_tokens := end_rp_table d did (rq_now rq) (refresh_tokens d)\<rparr>)"

interpretation end_rp: revoke_op "end_rp_table d did now" "\<lambda>u c. has_did d did u"
  using closes_revoke_where [of "\<lambda>u c. has_did d did u"]
  by unfold_locales (simp_all add: end_rp_table_def narrows_revoke_where)

section \<open>Where the browser may be sent\<close>

lemma isAllowedTarget_named:
  assumes "fst (isAllowedTarget L rq d u (Some c) cache)" and "c \<noteq> []"
  shows "\<exists>cl \<in> set (clients d). cl_active cl \<and> cl_client_id cl = c \<and> \<not> prefix ''dcr_'' c
    \<and> list_ex (\<lambda>r. originOf (ld_url L) r = Some (url_origin u)) (cl_redirect_uris cl)"
  using assms
  by (auto simp: isAllowedTarget_def isDynamicClientId_def dest!: validateClient_ok split: if_splits sum.splits)

lemma isAllowedTarget_unnamed:
  assumes "fst (isAllowedTarget L rq d u None cache)"
  shows "url_protocol u = ''https:''
    \<and> (onFamilyHost u \<or> url_origin u \<in> set (fst (getAllowedOrigins (ld_url L) (ld_config L) rq d cache)))"
  using assms by (auto simp: isAllowedTarget_def isAllowedOrigin_def split: if_splits prod.splits)

lemma redirect_cases:
  assumes "fst (resolvePostLogoutRedirect L rq d i cache) = Some (uri, ps)"
  shows "lg_uri i = Some uri \<and> (\<exists>u. ld_url L uri = Some u \<and> url_protocol u \<in> {''https:'', ''http:''}
    \<and> identifyClient (ld_verified L) i \<noteq> Refused
    \<and> fst (isAllowedTarget L rq d u (case identifyClient (ld_verified L) i of Asks c \<Rightarrow> Some c | _ \<Rightarrow> None) cache))
    \<and> fst ` set ps \<subseteq> {''state''}"
  using assms
  by (auto simp: resolvePostLogoutRedirect_def elim!: truthyE
      split: if_splits option.splits asking.splits prod.splits bool.splits)

text \<open>A sign-out is no open redirect: the browser goes to an http or https address that either has the
  origin of a redirect URI of the active, not self-registered client that asks, where a client
  identifier and a token hint, when both are given, name the same client; or, when no client is
  named, is https on a family domain or on a trusted origin.\<close>

theorem logout_redirect_bound:
  assumes "fst (resolvePostLogoutRedirect L rq d i cache) = Some (uri, ps)"
  shows "lg_uri i = Some uri \<and> fst ` set ps \<subseteq> {''state''}
    \<and> (\<exists>u. ld_url L uri = Some u \<and> url_protocol u \<in> {''https:'', ''http:''}
      \<and> ((\<exists>c \<in> set (clients d). cl_active c \<and> \<not> prefix ''dcr_'' (cl_client_id c)
            \<and> list_ex (\<lambda>r. originOf (ld_url L) r = Some (url_origin u)) (cl_redirect_uris c)
            \<and> (truthy (lg_client i) \<longrightarrow> lg_client i = Some (cl_client_id c))
            \<and> (truthy (lg_hint i) \<longrightarrow>
                 idTokenHintClientId (ld_verified L) (nullish (lg_hint i) '''') = Some (cl_client_id c)))
         \<or> \<not> truthy (lg_client i) \<and> \<not> truthy (lg_hint i) \<and> url_protocol u = ''https:''
            \<and> (onFamilyHost u
               \<or> url_origin u \<in> set (fst (getAllowedOrigins (ld_url L) (ld_config L) rq d cache)))))"
proof -
  from redirect_cases [OF assms] obtain u where u: "lg_uri i = Some uri" "ld_url L uri = Some u"
    "url_protocol u \<in> {''https:'', ''http:''}" "fst ` set ps \<subseteq> {''state''}"
    and n: "identifyClient (ld_verified L) i \<noteq> Refused"
    and a: "fst (isAllowedTarget L rq d u (case identifyClient (ld_verified L) i of Asks c \<Rightarrow> Some c | _ \<Rightarrow> None) cache)"
    by blast
  show ?thesis
  proof (cases "identifyClient (ld_verified L) i")
    case (Asks c)
    then have c: "c \<noteq> []" "truthy (lg_client i) \<longrightarrow> lg_client i = Some c"
      "truthy (lg_hint i) \<longrightarrow> idTokenHintClientId (ld_verified L) (nullish (lg_hint i) '''') = Some c"
      by (auto simp: identifyClient_def Let_def elim!: truthyE split: if_splits)
    from isAllowedTarget_named [of L rq d u c cache] a Asks c(1) u c(2,3) show ?thesis by fastforce
  next
    case Nobody
    then have "\<not> truthy (lg_client i)" "\<not> truthy (lg_hint i)"
      by (auto simp: identifyClient_def Let_def split: if_splits)
    with isAllowedTarget_unnamed [of L rq d u cache] a Nobody u show ?thesis by auto
  qed (use n in simp)
qed

section \<open>Which origins are trusted\<close>

lemma fresh_origin:
  "o1 \<in> set (fresh_origins pu cf d) \<longleftrightarrow> o1 \<in> set (operator_origins cf)
    \<or> (\<exists>c \<in> set (clients d). cl_active c \<and> cl_first_party c \<and> \<not> prefix ''dcr_'' (cl_client_id c)
        \<and> (\<exists>uri \<in> set (cl_redirect_uris c). originOf pu uri = Some o1))"
  by (force simp: fresh_origins_def first_party_clients_def client_origins_def isDynamicClientId_def
      split: option.splits)

text \<open>Reads of the cache, at their times and against the clients of the moment.\<close>

fun run_origins ::
  "(string \<Rightarrow> url option) \<Rightarrow> config \<Rightarrow> (request \<times> db) list \<Rightarrow> origins_cache \<Rightarrow> string list list"
where
  "run_origins pu cf [] cache = []"
| "run_origins pu cf ((rq, d) # reads) cache =
     (case getAllowedOrigins pu cf rq d cache of (os, cache1) \<Rightarrow> os # run_origins pu cf reads cache1)"

definition cached_from :: "(string \<Rightarrow> url option) \<Rightarrow> config \<Rightarrow> (request \<times> db) set \<Rightarrow> origins_cache \<Rightarrow> bool" where
  "cached_from pu cf past cache \<longleftrightarrow> oc_origins cache = []
     \<or> (\<exists>(rq, d) \<in> past. oc_time cache = rq_now rq \<and> oc_origins cache = fresh_origins pu cf d)"

lemma origins_step:
  assumes "getAllowedOrigins pu cf rq d cache = (os, cache')" and "cached_from pu cf past cache"
  shows "cached_from pu cf (insert (rq, d) past) cache'
    \<and> (\<exists>(rq', d') \<in> insert (rq, d) past. os = fresh_origins pu cf d' \<and> rq_now rq - rq_now rq' < ORIGINS_TTL_MS)"
  using assms
  by (fastforce simp: getAllowedOrigins_def cached_from_def Let_def ORIGINS_TTL_MS_def split: if_splits)

lemma origins_run:
  assumes "cached_from pu cf past cache" and "n < length reads"
  shows "\<exists>(rq', d') \<in> past \<union> set (take (Suc n) reads).
    run_origins pu cf reads cache ! n = fresh_origins pu cf d'
    \<and> rq_now (fst (reads ! n)) - rq_now rq' < ORIGINS_TTL_MS"
  using assms
proof (induction reads arbitrary: past cache n)
  case (Cons r reads)
  obtain rq d where r: "r = (rq, d)" by force
  obtain os cache1 where g: "getAllowedOrigins pu cf rq d cache = (os, cache1)" by force
  note step = origins_step [OF g Cons.prems(1)]
  show ?case
  proof (cases n)
    case 0
    with step show ?thesis by (auto simp: r g)
  next
    case (Suc m)
    have "m < length reads" using Cons.prems(2) Suc by simp
    from Cons.IH [OF conjunct1 [OF step] this] show ?thesis by (auto simp: r g Suc)
  qed
qed simp

text \<open>Trust in an origin is never more than a minute old: whatever the cache answers, at any read of
  any sequence, is the operator's origins and those of the redirect URIs of the first-party clients
  that were active, and not self-registered, at some read less than sixty seconds before.\<close>

theorem trusted_origins_fresh:
  assumes "n < length reads"
  shows "\<exists>(rq', d') \<in> set (take (Suc n) reads). rq_now (fst (reads ! n)) - rq_now rq' < 60000
    \<and> (\<forall>o1. o1 \<in> set (run_origins pu cf reads empty_cache ! n) \<longleftrightarrow> o1 \<in> set (operator_origins cf)
        \<or> (\<exists>c \<in> set (clients d'). cl_active c \<and> cl_first_party c \<and> \<not> prefix ''dcr_'' (cl_client_id c)
            \<and> (\<exists>uri \<in> set (cl_redirect_uris c). originOf pu uri = Some o1)))"
proof -
  have "cached_from pu cf {} empty_cache" by (simp add: cached_from_def empty_cache_def)
  from origins_run [OF this assms] obtain rq' d' where
    "(rq', d') \<in> set (take (Suc n) reads)"
    and o1: "run_origins pu cf reads empty_cache ! n = fresh_origins pu cf d'"
    and "rq_now (fst (reads ! n)) - rq_now rq' < ORIGINS_TTL_MS" by blast
  then show ?thesis
    unfolding o1 fresh_origin ORIGINS_TTL_MS_def by (intro bexI [of _ "(rq', d')"]) simp_all
qed

text \<open>A custom scheme trusts the opaque origin: once a first-party client has a redirect URI whose
  origin is opaque, which \<open>URL.origin\<close> writes \<open>null\<close>, the next read of the registry trusts the origin
  \<open>null\<close>, the one every sandboxed frame of any site sends.\<close>

theorem custom_scheme_trusts_null:
  assumes "c \<in> set (clients d)" and "cl_active c" and "cl_first_party c" and "\<not> prefix ''dcr_'' (cl_client_id c)"
    and "uri \<in> set (cl_redirect_uris c)" and "pu uri = Some u" and "url_origin u = ''null''"
  shows "fst (isAllowedOrigin pu cf rq d ''null'' empty_cache)"
proof -
  have "''null'' \<in> set (fresh_origins pu cf d)"
    using assms by (auto simp: fresh_origin originOf_def)
  then show ?thesis by (simp add: isAllowedOrigin_def getAllowedOrigins_def empty_cache_def Let_def)
qed

section \<open>What a sign-out ends\<close>

lemma revoke_where_others:
  assumes "\<not> p r" and "\<And>x now. p (mark_revoked now x) = p x" and "\<And>x. p (erased_replay x) = p x"
  shows "r \<in> set (revoke_where p now t) \<longleftrightarrow> r \<in> set t"
proof -
  have "r \<in> set (revoke_where p now t) \<longleftrightarrow> r \<in> set (update_many (\<lambda>r. p r \<and> \<not> rt_revoked r) (mark_revoked now) t)"
    unfolding revoke_where_def
    by (rule update_many_outside [where Q = "\<lambda>r. \<not> p r"]) (simp_all add: assms keptPairsIn_def)
  also have "\<dots> \<longleftrightarrow> r \<in> set t"
    by (rule update_many_outside [where Q = "\<lambda>r. \<not> p r"]) (simp_all add: assms)
  finally show ?thesis .
qed

lemma first_https_some:
  "uri \<in> set uris \<Longrightarrow> pu uri = Some u \<Longrightarrow> url_protocol u = ''https:'' \<Longrightarrow> first_https pu uris \<noteq> None"
  by (induction uris) (auto split: option.splits)

lemma told_client:
  assumes "c \<in> set (logout_recipients d did)" and "backchannelUriFor (p_parse_url P) c = Some uri"
  shows "(cl_client_id c, uri, snd (buildLogoutToken P cf jti (cl_client_id c) did sid)) \<in> set (fanOut P cf jti d did sid)"
  using assms by (force simp: fanOut_def logout_targets_def split: option.splits)

lemma told_cases:
  assumes "(client, uri, tok) \<in> set (fanOut P cf jti d did sid)"
  shows "\<exists>c \<in> set (logout_recipients d did). cl_client_id c = client
    \<and> backchannelUriFor (p_parse_url P) c = Some uri \<and> tok = snd (buildLogoutToken P cf jti client did sid)"
  using assms by (force simp: fanOut_def logout_targets_def split: option.splits)

text \<open>A sign-out ends the person's sessions at the applications: every refresh token of the person is
  revoked and no pair is kept for a retry, nobody else's row changes, exactly the clients where the
  person had a live token are told, with a logout token for that client and that person, and every
  confidential first-party application with a live token and an https redirect URI is told.\<close>

theorem logout_ends_everything:
  assumes "endRelyingPartySessions P cf rq jti did sid d = ((told, n), d')"
  shows "(\<forall>r \<in> set (refresh_tokens d'). has_did d did (rt_user r) \<longrightarrow> rt_revoked r \<and> rt_grace_replay r = None)
    \<and> (\<forall>r. has_did d did (rt_user r) \<or> (r \<in> set (refresh_tokens d')) = (r \<in> set (refresh_tokens d)))
    \<and> (\<forall>(client, uri, tok) \<in> set told. tok = snd (buildLogoutToken P cf jti client did sid)
         \<and> (\<exists>r \<in> set (refresh_tokens d). rt_client r = client \<and> \<not> rt_revoked r \<and> has_did d did (rt_user r)))
    \<and> (\<forall>c \<in> set (clients d). \<forall>r \<in> set (refresh_tokens d). cl_active c \<and> cl_first_party c \<and> \<not> cl_is_public c
         \<and> \<not> prefix ''dcr_'' (cl_client_id c) \<and> rt_client r = cl_client_id c \<and> \<not> rt_revoked r
         \<and> has_did d did (rt_user r)
         \<and> (\<exists>a \<in> set (cl_redirect_uris c). \<exists>u. p_parse_url P a = Some u \<and> url_protocol u = ''https:'')
         \<longrightarrow> cl_client_id c \<in> fst ` set told)"
proof -
  have told: "told = fanOut P cf jti d did sid"
    and d': "refresh_tokens d' = end_rp_table d did (rq_now rq) (refresh_tokens d)"
    using assms by (auto simp: endRelyingPartySessions_def)
  have ended: "\<forall>r \<in> set (refresh_tokens d'). has_did d did (rt_user r) \<longrightarrow> rt_revoked r \<and> rt_grace_replay r = None"
    using end_rp.closes [of d did "rq_now rq" "refresh_tokens d"] by (simp add: d' scope_closed_def)
  have others: "\<forall>r. has_did d did (rt_user r) \<or> (r \<in> set (refresh_tokens d')) = (r \<in> set (refresh_tokens d))"
    unfolding d' end_rp_table_def using revoke_where_others [of "\<lambda>r. has_did d did (rt_user r)"] by auto
  have only: "\<forall>(client, uri, tok) \<in> set told. tok = snd (buildLogoutToken P cf jti client did sid)
       \<and> (\<exists>r \<in> set (refresh_tokens d). rt_client r = client \<and> \<not> rt_revoked r \<and> has_did d did (rt_user r))"
    unfolding told by (fastforce simp: logout_recipients_def list_ex_iff dest: told_cases)
  have all: "cl_client_id c \<in> fst ` set told"
    if "c \<in> set (clients d)" "r \<in> set (refresh_tokens d)" "cl_active c" "cl_first_party c" "\<not> cl_is_public c"
      "\<not> prefix ''dcr_'' (cl_client_id c)" "rt_client r = cl_client_id c" "\<not> rt_revoked r" "has_did d did (rt_user r)"
      "a \<in> set (cl_redirect_uris c)" "p_parse_url P a = Some u" "url_protocol u = ''https:''" for c r a u
  proof -
    have "c \<in> set (logout_recipients d did)" using that by (auto simp: logout_recipients_def list_ex_iff)
    moreover from first_https_some [where pu = "p_parse_url P", OF that(10-12)]
    have "backchannelUriFor (p_parse_url P) c \<noteq> None"
      using that by (auto simp: backchannelUriFor_def elim!: truthyE)
    ultimately show ?thesis using told_client told by force
  qed
  show ?thesis using ended others only all by blast
qed


section \<open>Witnesses\<close>

definition demo_logout :: logout_deps where
  "demo_logout = \<lparr>ld_registry = demo_registry, ld_config = demo_config, ld_verified = (\<lambda>_. None)\<rparr>"

theorem logout_redirect_bound_witness:
  "fst (resolvePostLogoutRedirect demo_logout demo_rq demo_db
      \<lparr>lg_uri = Some ''https://app.example/cb'', lg_state = Some ''s'', lg_client = Some ''shop'', lg_hint = None\<rparr> empty_cache)
     = Some (''https://app.example/cb'', [(''state'', ''s'')])
   \<and> (\<exists>u. ld_url demo_logout ''https://app.example/cb'' = Some u \<and> url_protocol u \<in> {''https:'', ''http:''})"
proof -
  let ?i = "\<lparr>lg_uri = Some ''https://app.example/cb'', lg_state = Some ''s'', lg_client = Some ''shop'', lg_hint = None\<rparr>"
  have r: "fst (resolvePostLogoutRedirect demo_logout demo_rq demo_db ?i empty_cache)
      = Some (''https://app.example/cb'', [(''state'', ''s'')])" by code_simp
  from logout_redirect_bound [OF r] r show ?thesis by blast
qed

theorem trusted_origins_fresh_witness:
  "\<exists>(rq', d') \<in> {(demo_rq, demo_db)}. rq_now demo_rq - rq_now rq' < 60000
    \<and> (''https://app.example'' \<in> set (run_origins (p_parse_url P0) demo_config [(demo_rq, demo_db)] empty_cache ! 0)
        \<longleftrightarrow> ''https://app.example'' \<in> set (operator_origins demo_config)
          \<or> (\<exists>c \<in> set (clients d'). cl_active c \<and> cl_first_party c \<and> \<not> prefix ''dcr_'' (cl_client_id c)
            \<and> (\<exists>uri \<in> set (cl_redirect_uris c). originOf (p_parse_url P0) uri = Some ''https://app.example'')))"
  using trusted_origins_fresh [of 0 "[(demo_rq, demo_db)]" "p_parse_url P0" demo_config] by auto

definition native_app :: client_row where
  "native_app = shop\<lparr>cl_redirect_uris := [''com.app:/cb'']\<rparr>"

definition opaque_url :: url where
  "opaque_url = \<lparr>url_protocol = ''com.app:'', url_hostname = [], url_port = [], url_pathname = ''/cb'',
     url_hash = [], url_username = [], url_password = [], url_origin = ''null''\<rparr>"

theorem custom_scheme_trusts_null_witness:
  "fst (isAllowedOrigin (\<lambda>_. Some opaque_url) demo_config demo_rq (demo_db\<lparr>clients := [native_app]\<rparr>) ''null'' empty_cache)"
  by (rule custom_scheme_trusts_null [of native_app _ "''com.app:/cb''" _ opaque_url])
     (simp_all add: native_app_def shop_def opaque_url_def)

theorem logout_ends_everything_witness:
  "\<exists>told n d'. endRelyingPartySessions P0 demo_config demo_rq (\<lambda>c. c) ''did:web:ann'' (Some ''s1'') demo_db = ((told, n), d')
     \<and> ''shop'' \<in> fst ` set told \<and> n = 1"
proof -
  let ?r = "endRelyingPartySessions P0 demo_config demo_rq (\<lambda>c. c) ''did:web:ann'' (Some ''s1'') demo_db"
  obtain told n d' where r: "?r = ((told, n), d')" by (metis surj_pair)
  have "snd (fst ?r) = 1" by code_simp
  with r have n: "n = 1" by simp
  have "map_option url_protocol (p_parse_url P0 ''https://app.example/cb'') = Some ''https:''" by code_simp
  then have "\<exists>u. p_parse_url P0 ''https://app.example/cb'' = Some u \<and> url_protocol u = ''https:''" by auto
  with logout_ends_everything [OF r] have "''shop'' \<in> fst ` set told"
    by (auto simp: demo_db_def shop_def row0_def has_did_def ann_def)
  with r n show ?thesis by blast
qed

end
