(* ===== verification/Api_Keys.thy ===== *)
theory Api_Keys
  imports Claims
begin

text \<open>
  \<open>src/oauth/api-keys.service.ts\<close>: long-lived opaque keys of a tenant.  A key is shown once, stored as
  its SHA-256, and read back by resource servers through introspection.
\<close>

section \<open>Issuing\<close>

definition KEY_PREFIX :: string where "KEY_PREFIX = ''ik_''"
definition DISPLAY_PREFIX_LENGTH :: nat where "DISPLAY_PREFIX_LENGTH = 9"
definition MAX_POLICY_NAMES :: nat where "MAX_POLICY_NAMES = 8"

record api_key_input =
  ki_name :: string
  ki_company :: string
  ki_audience :: string
  ki_scopes :: "string list"
  ki_policies :: "string list option"
  ki_user :: "string option"
  ki_expires :: "time option"

text \<open>\<open>^[a-z][a-z0-9_-]{1,63}$\<close>.\<close>

definition policy_start :: "char \<Rightarrow> bool" where
  "policy_start c = (let n = of_char c :: nat in 97 \<le> n \<and> n \<le> 122)"

definition VALID_POLICY_NAME :: "string \<Rightarrow> bool" where
  "VALID_POLICY_NAME s =
     (case s of [] \<Rightarrow> False
      | c # cs \<Rightarrow> policy_start c \<and> 1 \<le> length cs \<and> length cs \<le> 63
          \<and> list_all (\<lambda>x. policy_start x \<or> is_digit x \<or> x = CHR ''_'' \<or> x = CHR ''-'') cs)"

definition hashKey :: "prims \<Rightarrow> string \<Rightarrow> string" where
  "hashKey P raw = p_sha256_hex P raw"

definition assertIssueInput :: "api_key_input \<Rightarrow> error + unit" where
  "assertIssueInput i =
     (if trim (ki_name i) = [] then Inl (Bad_Request (Msg ''name is required''))
      else if trim (ki_audience i) = [] then Inl (Bad_Request (Msg ''audience is required''))
      else if ki_scopes i = [] then Inl (Bad_Request (Msg ''scopes are required''))
      else let unknown = filter (\<lambda>s. s \<notin> set supportedScopes) (ki_scopes i)
           in if unknown \<noteq> [] then Inl (Bad_Request (Msg (''Unknown scope(s): '' @ join_with '', '' unknown)))
      else let names = nullish (ki_policies i) []
           in if MAX_POLICY_NAMES < length names
              then Inl (Bad_Request (Msg ''At most 8 policy sets per key''))
      else let bad = filter (\<lambda>n. \<not> VALID_POLICY_NAME n) names
           in if bad \<noteq> [] then Inl (Bad_Request (Msg (''Invalid policy set name(s): '' @ join_with '', '' bad)))
      else Inr ())"

text \<open>\<open>apiKey.create\<close>: the identifier and the hash are unique.\<close>

definition insert_key :: "api_key_row \<Rightarrow> db \<Rightarrow> error + db" where
  "insert_key k d =
     (if list_ex (\<lambda>x. ak_id x = ak_id k \<or> ak_hash x = ak_hash k) (api_keys d) then Inl Db_Conflict
      else Inr (d\<lparr>api_keys := api_keys d @ [k]\<rparr>))"

definition find_company :: "db \<Rightarrow> string \<Rightarrow> org_row option" where
  "find_company d company = List.find (\<lambda>o1. og_company o1 = company) (orgs d)"

definition key_row_for :: "prims \<Rightarrow> request \<Rightarrow> entropy \<Rightarrow> api_key_input \<Rightarrow> org_row \<Rightarrow> api_key_row" where
  "key_row_for P rq en i org =
     (let raw = KEY_PREFIX @ en_token en
      in \<lparr>ak_id = en_row_id en, ak_hash = hashKey P raw, ak_prefix = take DISPLAY_PREFIX_LENGTH raw,
          ak_name = ki_name i, ak_user = ki_user i, ak_org = og_id org, ak_audience = ki_audience i,
          ak_scopes = ki_scopes i, ak_policies = nullish (ki_policies i) [], ak_expires = ki_expires i,
          ak_revoked = False, ak_revoked_at = None, ak_last_used = None, ak_created = rq_now rq\<rparr>)"

text \<open>An empty \<open>userId\<close> passes the check of the owner and is refused by the column's type.\<close>

definition issue_key ::
  "prims \<Rightarrow> request \<Rightarrow> entropy \<Rightarrow> api_key_input \<Rightarrow> db \<Rightarrow> (error + api_key_row \<times> string) \<times> db"
where
  "issue_key P rq en i d =
     (case assertIssueInput i of
        Inl e \<Rightarrow> (Inl e, d)
      | Inr _ \<Rightarrow>
          (case find_company d (ki_company i) of
             None \<Rightarrow> (Inl (Bad_Request (Msg (''Unknown companyId \"'' @ ki_company i @ ''\"''))), d)
           | Some org \<Rightarrow>
               if truthy (ki_user i) \<and> find_user d (nullish (ki_user i) '''') = None
               then (Inl (Bad_Request (Msg (''Unknown userId \"'' @ nullish (ki_user i) '''' @ ''\"''))), d)
               else if ki_user i = Some [] then (Inl (Server_Error ''invalid uuid''), d)
               else (case insert_key (key_row_for P rq en i org) d of
                       Inl e \<Rightarrow> (Inl e, d)
                     | Inr d1 \<Rightarrow> (Inr (key_row_for P rq en i org, KEY_PREFIX @ en_token en), d1))))"

section \<open>Listing and revoking\<close>

definition company_of :: "db \<Rightarrow> string \<Rightarrow> string option" where
  "company_of d orgId = map_option og_company (List.find (\<lambda>o1. og_id o1 = orgId) (orgs d))"

text \<open>\<open>company ? { organization: { companyId } } : {}\<close>: the tenant a scoped operator is bound to.\<close>

definition in_company :: "db \<Rightarrow> string option \<Rightarrow> api_key_row \<Rightarrow> bool" where
  "in_company d company k \<longleftrightarrow> \<not> truthy company \<or> company_of d (ak_org k) = company"

definition list_keys :: "string option \<Rightarrow> db \<Rightarrow> api_key_row list" where
  "list_keys company d = rev (sort_key ak_created (rev (filter (in_company d company) (api_keys d))))"

definition revoke_key :: "request \<Rightarrow> string \<Rightarrow> string option \<Rightarrow> db \<Rightarrow> (error + api_key_row) \<times> db" where
  "revoke_key rq i company d =
     (let mine = (\<lambda>k. ak_id k = i \<and> \<not> ak_revoked k \<and> in_company d company k);
          d1 = d\<lparr>api_keys := update_many mine (\<lambda>k. k\<lparr>ak_revoked := True, ak_revoked_at := Some (rq_now rq)\<rparr>) (api_keys d)\<rparr>
      in if count_where mine (api_keys d) = 0
         then (Inl (Not_Found (Msg ''API key not found or already revoked'')), d1)
         else (case List.find (\<lambda>k. ak_id k = i) (api_keys d1) of
                 None \<Rightarrow> (Inl Db_Missing, d1) | Some k \<Rightarrow> (Inr k, d1)))"

section \<open>Introspection\<close>

definition touchLastUsed :: "request \<Rightarrow> string \<Rightarrow> db \<Rightarrow> db" where
  "touchLastUsed rq i d =
     d\<lparr>api_keys := update_many (\<lambda>k. ak_id k = i) (\<lambda>k. k\<lparr>ak_last_used := Some (rq_now rq)\<rparr>) (api_keys d)\<rparr>"

definition key_claims :: "db \<Rightarrow> api_key_row \<Rightarrow> org_row \<Rightarrow> json" where
  "key_claims d k org = JObj
     ([(''sub'', JStr (nullish (map_option us_did (Option.bind (ak_user k) (find_user d))) (og_company org))),
       (''org'', JStr (og_company org)), (''org_id'', JStr (ak_org k)), (''aud'', JStr (ak_audience k)),
       (''client_id'', JStr (ak_audience k)), (''scope'', JStr (join_sp (ak_scopes k)))]
      @ (if ak_policies k \<noteq> [] then [(''policy'', JArr (map JStr (ak_policies k)))] else [])
      @ [(''token_type'', JStr ''api_key''), (''iat'', JNum (ak_created k div 1000))]
      @ (case ak_expires k of None \<Rightarrow> [] | Some e \<Rightarrow> [(''exp'', JNum (e div 1000))]))"

text \<open>The organization is a required relation: a key without its row is an error of the database.\<close>

definition introspectionClaims ::
  "prims \<Rightarrow> request \<Rightarrow> string \<Rightarrow> db \<Rightarrow> (error + json option) \<times> db"
where
  "introspectionClaims P rq raw d =
     (if \<not> prefix KEY_PREFIX raw then (Inr None, d)
      else (case List.find (\<lambda>k. ak_hash k = hashKey P raw) (api_keys d) of
              None \<Rightarrow> (Inr None, d)
            | Some k \<Rightarrow>
                (case List.find (\<lambda>o1. og_id o1 = ak_org k) (orgs d) of
                   None \<Rightarrow> (Inl Db_Missing, d)
                 | Some org \<Rightarrow>
                     if ak_revoked k then (Inr None, d)
                     else if (case ak_expires k of None \<Rightarrow> False | Some e \<Rightarrow> e < rq_now rq) then (Inr None, d)
                     else (Inr (Some (key_claims d k org)), touchLastUsed rq (ak_id k) d))))"

section \<open>Lemmas\<close>

lemma find_user_keys [simp]: "find_user (d\<lparr>api_keys := t\<rparr>) = find_user d"
  by (simp add: find_user_def fun_eq_iff)

lemma issue_okE:
  assumes "issue_key P rq en i d = (Inr (k, raw), d1)"
  obtains org where "assertIssueInput i = Inr ()" "find_company d (ki_company i) = Some org"
    "k = key_row_for P rq en i org" "raw = KEY_PREFIX @ en_token en"
    "d1 = d\<lparr>api_keys := api_keys d @ [k]\<rparr>" "\<forall>x \<in> set (api_keys d). ak_id x \<noteq> ak_id k \<and> ak_hash x \<noteq> ak_hash k"
    "ki_user i \<noteq> Some []" "truthy (ki_user i) \<longrightarrow> find_user d (nullish (ki_user i) '''') \<noteq> None"
  using assms
  by (auto simp: issue_key_def insert_key_def list_ex_iff split: sum.splits option.splits if_splits)

lemma issue_input_ok:
  assumes "assertIssueInput i = Inr ()"
  shows "set (ki_scopes i) \<subseteq> set supportedScopes \<and> ki_scopes i \<noteq> []
    \<and> length (nullish (ki_policies i) []) \<le> 8 \<and> list_all VALID_POLICY_NAME (nullish (ki_policies i) [])"
  using assms
  by (auto simp: assertIssueInput_def Let_def MAX_POLICY_NAMES_def filter_empty_conv list_all_iff split: if_splits)

lemma hashes_after_issue:
  assumes "\<forall>x \<in> set t. ak_hash x \<noteq> ak_hash k"
  shows "List.find (\<lambda>x. ak_hash x = ak_hash k) (t @ [k]) = Some k"
  using assms by (induction t) auto

text \<open>A key reads back as it was issued: introspecting the raw key shown at issuance answers, until
  the key expires, the tenant, audience, scopes and policy sets it was issued with, in the owner's
  name or the tenant's; afterwards nothing.  Its scopes are registered ones.\<close>

theorem api_key_round_trip:
  assumes "issue_key P rq en i d = (Inr (k, raw), d1)" and "distinct (map og_id (orgs d))"
  shows "set (ki_scopes i) \<subseteq> set supportedScopes
    \<and> (if (case ki_expires i of None \<Rightarrow> False | Some e \<Rightarrow> e < rq_now rq')
       then fst (introspectionClaims P rq' raw d1) = Inr None
       else \<exists>c. fst (introspectionClaims P rq' raw d1) = Inr (Some c)
         \<and> jget c ''org'' = Some (JStr (ki_company i)) \<and> jget c ''aud'' = Some (JStr (ki_audience i))
         \<and> jget c ''scope'' = Some (JStr (join_sp (ki_scopes i)))
         \<and> jget c ''policy'' = (if nullish (ki_policies i) [] = [] then None
              else Some (JArr (map JStr (nullish (ki_policies i) []))))
         \<and> jget c ''exp'' = map_option (\<lambda>e. JNum (e div 1000)) (ki_expires i)
         \<and> (ki_user i = None \<longrightarrow> jget c ''sub'' = Some (JStr (ki_company i)))
         \<and> (\<forall>u. ki_user i = Some u \<longrightarrow> (\<exists>x \<in> set (users d). us_id x = u \<and> jget c ''sub'' = Some (JStr (us_did x)))))"
  using assms(1)
proof (rule issue_okE)
  fix org assume a: "assertIssueInput i = Inr ()" "find_company d (ki_company i) = Some org"
    and k: "k = key_row_for P rq en i org" and raw: "raw = KEY_PREFIX @ en_token en"
    and d1: "d1 = d\<lparr>api_keys := api_keys d @ [k]\<rparr>"
    and fresh: "\<forall>x \<in> set (api_keys d). ak_id x \<noteq> ak_id k \<and> ak_hash x \<noteq> ak_hash k"
    and owner: "ki_user i \<noteq> Some []" "truthy (ki_user i) \<longrightarrow> find_user d (nullish (ki_user i) '''') \<noteq> None"
  have org: "org \<in> set (orgs d)" "og_company org = ki_company i"
    using a(2) by (auto simp: find_company_def dest: find_SomeD)
  have "List.find (\<lambda>o1. og_id o1 = og_id org) (orgs d) = Some org"
    using find_key [OF assms(2) org(1)] .
  moreover have "ak_hash k = hashKey P raw" by (simp add: k raw key_row_for_def Let_def)
  ultimately have f: "List.find (\<lambda>x. ak_hash x = hashKey P raw) (api_keys d1) = Some k"
    "List.find (\<lambda>o1. og_id o1 = ak_org k) (orgs d1) = Some org" "prefix KEY_PREFIX raw"
    using hashes_after_issue [of "api_keys d" k] fresh by (auto simp: d1 raw k key_row_for_def Let_def)
  have i1: "introspectionClaims P rq' raw d1 =
      (if (case ki_expires i of None \<Rightarrow> False | Some e \<Rightarrow> e < rq_now rq') then (Inr None, d1)
       else (Inr (Some (key_claims d1 k org)), touchLastUsed rq' (ak_id k) d1))"
    unfolding introspectionClaims_def using f by (simp add: k key_row_for_def Let_def)
  have row: "ak_org k = og_id org" "ak_audience k = ki_audience i" "ak_scopes k = ki_scopes i"
    "ak_policies k = nullish (ki_policies i) []" "ak_expires k = ki_expires i" "ak_user k = ki_user i"
    by (simp_all add: k key_row_for_def Let_def)
  let ?c = "key_claims d1 k org"
  have fu: "find_user d1 u = find_user d u" for u by (simp add: find_user_def d1)
  have c: "jget ?c ''org'' = Some (JStr (ki_company i)) \<and> jget ?c ''aud'' = Some (JStr (ki_audience i))
         \<and> jget ?c ''scope'' = Some (JStr (join_sp (ki_scopes i)))
         \<and> jget ?c ''policy'' = (if nullish (ki_policies i) [] = [] then None
              else Some (JArr (map JStr (nullish (ki_policies i) []))))
         \<and> jget ?c ''exp'' = map_option (\<lambda>e. JNum (e div 1000)) (ki_expires i)
         \<and> (ki_user i = None \<longrightarrow> jget ?c ''sub'' = Some (JStr (ki_company i)))"
    using org(2) by (auto simp: key_claims_def row map_add_def split: option.splits)
  have sub: "\<exists>x \<in> set (users d). us_id x = u \<and> jget ?c ''sub'' = Some (JStr (us_did x))"
    if u: "ki_user i = Some u" for u
  proof -
    obtain x where x: "find_user d u = Some x" using owner u by fastforce
    then show ?thesis
      by (intro bexI [of _ x]) (use find_userD [OF x] in \<open>auto simp: key_claims_def row u fu map_add_def\<close>)
  qed
  show ?thesis using i1 c sub issue_input_ok [OF a(1)] by auto
qed

text \<open>A revoked key is dead, and only the operator's own tenant's keys can be revoked: after a
  revocation that answers, the key introspects to nothing at any time, it belonged to the tenant the
  operator is bound to, and every other key reads as before.\<close>

theorem revoked_key_is_dead:
  assumes "revoke_key rq i company d = (Inr k, d')"
    and "distinct (map ak_id (api_keys d))" and "distinct (map ak_hash (api_keys d))"
  shows "ak_id k = i \<and> (truthy company \<longrightarrow> company_of d (ak_org k) = company)
    \<and> (\<forall>P rq' raw. hashKey P raw = ak_hash k \<longrightarrow>
         ok (fst (introspectionClaims P rq' raw d')) \<in> {None, Some None})
    \<and> (\<forall>P rq' raw. hashKey P raw \<noteq> ak_hash k \<longrightarrow>
         fst (introspectionClaims P rq' raw d') = fst (introspectionClaims P rq' raw d))"
proof -
  let ?mine = "\<lambda>k. ak_id k = i \<and> \<not> ak_revoked k \<and> in_company d company k"
  let ?f = "\<lambda>k. k\<lparr>ak_revoked := True, ak_revoked_at := Some (rq_now rq)\<rparr>"
  have d': "d' = d\<lparr>api_keys := update_many ?mine ?f (api_keys d)\<rparr>"
    and n: "count_where ?mine (api_keys d) \<noteq> 0"
    and fk: "List.find (\<lambda>k. ak_id k = i) (update_many ?mine ?f (api_keys d)) = Some k"
    using assms(1) by (auto simp: revoke_key_def Let_def split: if_splits option.splits)
  from n obtain x where x: "x \<in> set (api_keys d)" "?mine x" by (auto simp: count_where_0)
  have fx: "List.find (\<lambda>k. ak_id k = i) (api_keys d) = Some x"
    using find_key [OF assms(2) x(1)] x(2) by simp
  have k: "k = ?f x" using update_id_find [of ak_id ?f, OF _ fx, of ?mine] fk x(2) by auto
  have hx: "List.find (\<lambda>k. ak_hash k = ak_hash x) (api_keys d) = Some x"
    using find_key [OF assms(3) x(1)] .
  have hx': "List.find (\<lambda>k. ak_hash k = ak_hash x) (api_keys d') = Some k"
    using update_id_find [of ak_hash ?f, OF _ hx, of ?mine] x(2) by (simp add: d' k)
  have dead: "ok (fst (introspectionClaims P rq' raw d')) \<in> {None, Some None}" if "hashKey P raw = ak_hash k" for P rq' raw
    using that hx' by (auto simp: introspectionClaims_def k split: option.splits)
  have others: "fst (introspectionClaims P rq' raw d') = fst (introspectionClaims P rq' raw d)"
    if h: "hashKey P raw \<noteq> ak_hash k" for P rq' raw
  proof (cases "List.find (\<lambda>k. ak_hash k = hashKey P raw) (api_keys d)")
    case None
    then have "List.find (\<lambda>k. ak_hash k = hashKey P raw) (api_keys d') = None"
      using update_id_none [of ak_hash ?f "hashKey P raw" ?mine "api_keys d"] by (simp add: d')
    with None show ?thesis by (simp add: introspectionClaims_def)
  next
    case (Some y)
    then have y: "y \<in> set (api_keys d)" "ak_hash y = hashKey P raw" by (auto dest: find_SomeD)
    have "y \<noteq> x" using h k y(2) by auto
    then have "ak_id y \<noteq> ak_id x" using assms(2) x(1) y(1) by (metis distinct_map inj_on_contraD)
    then have "ak_id y \<noteq> i" using x(2) by simp
    then have "List.find (\<lambda>k. ak_hash k = hashKey P raw) (api_keys d') = Some y"
      using update_id_find [of ak_hash ?f, OF _ Some, of ?mine] by (simp add: d')
    with Some show ?thesis
      by (simp add: introspectionClaims_def d' key_claims_def split: option.split)
  qed
  show ?thesis using k x(2) dead others by (auto simp: in_company_def)
qed

definition demo_key_input :: api_key_input where
  "demo_key_input = \<lparr>ki_name = ''ci'', ki_company = ''acme'', ki_audience = ''brain'', ki_scopes = [''openid''],
     ki_policies = Some [''reader''], ki_user = Some ''u1'', ki_expires = Some 9000\<rparr>"

theorem api_key_round_trip_witness:
  "\<exists>k d1. issue_key P0 demo_rq demo_en demo_key_input demo_db = (Inr (k, ''ik_second''), d1)
     \<and> (\<exists>c. fst (introspectionClaims P0 demo_rq ''ik_second'' d1) = Inr (Some c)
         \<and> jget c ''sub'' = Some (JStr ''did:web:ann''))"
proof -
  let ?r = "issue_key P0 demo_rq demo_en demo_key_input demo_db"
  have "map_option snd (ok (fst ?r)) = Some ''ik_second''" by code_simp
  then obtain k d1 where r: "?r = (Inr (k, ''ik_second''), d1)" by (cases ?r) (auto simp: ok_Some_iff)
  have "distinct (map og_id (orgs demo_db))" by (simp add: demo_db_def)
  from api_key_round_trip [OF r this, of demo_rq] r show ?thesis
    by (auto simp: demo_key_input_def demo_rq_def demo_db_def ann_def)
qed

theorem revoked_key_is_dead_witness:
  "\<exists>k d1 k' d2. issue_key P0 demo_rq demo_en demo_key_input demo_db = (Inr (k, ''ik_second''), d1)
     \<and> revoke_key demo_rq ''t2'' (Some ''acme'') d1 = (Inr k', d2)
     \<and> ok (fst (introspectionClaims P0 demo_rq ''ik_second'' d2)) \<in> {None, Some None}"
proof -
  let ?r = "issue_key P0 demo_rq demo_en demo_key_input demo_db"
  have "map_option snd (ok (fst ?r)) = Some ''ik_second''" by code_simp
  then obtain k d1 where r: "?r = (Inr (k, ''ik_second''), d1)" by (cases ?r) (auto simp: ok_Some_iff)
  have d1: "d1 = snd ?r" by (simp add: r)
  have "map_option ak_hash (ok (fst (revoke_key demo_rq ''t2'' (Some ''acme'') (snd ?r)))) = Some (hashKey P0 ''ik_second'')"
    by code_simp
  then obtain k' d2 where v: "revoke_key demo_rq ''t2'' (Some ''acme'') d1 = (Inr k', d2)"
    and h: "hashKey P0 ''ik_second'' = ak_hash k'"
    by (cases "revoke_key demo_rq ''t2'' (Some ''acme'') (snd ?r)") (auto simp: ok_Some_iff d1)
  have "distinct (map ak_id (api_keys (snd ?r)))" "distinct (map ak_hash (api_keys (snd ?r)))" by code_simp+
  from revoked_key_is_dead [OF v this [folded d1]] h r v show ?thesis by blast
qed

end
