(* ===== verification/Session_Endpoints.thy ===== *)
theory Session_Endpoints
  imports Authorize Logout Api_Keys
begin

text \<open>
  The session endpoints: \<open>src/oauth/oauth-session.controller.ts\<close> with what stands in front of them,
  \<open>src/auth/strategies/jwt.strategy.ts\<close> (who a bearer token speaks for),
  \<open>src/auth/guards/jwt-or-session.guard.ts\<close> and \<open>src/auth/decorators/current-user.decorator.ts\<close>.
  A handler that reads \<open>req.user.userId\<close> of a machine principal gets \<open>undefined\<close>, here \<open>None\<close>; in a
  \<open>where\<close> of the database client an undefined member is no condition at all.
\<close>

section \<open>Who asks\<close>

record machine_principal =
  mp_sub :: "string option"
  mp_client :: "string option"
  mp_company :: "string option"

datatype principal_kind = Machine machine_principal | Person user_row

record principal =
  pr_kind :: principal_kind
  pr_scope :: "string list"

text \<open>\<open>normalizeScope\<close> of the strategy: a \<open>Set\<close>, here without repetitions in insertion order.\<close>

definition token_scope :: "json option \<Rightarrow> string list" where
  "token_scope v =
     (case v of Some (JArr xs) \<Rightarrow> uniq (strings_of xs)
      | Some (JStr s) \<Rightarrow> uniq (words_of s)
      | _ \<Rightarrow> [])"

definition first_audience :: "json option \<Rightarrow> string option" where
  "first_audience v = (case v of Some (JArr (x # xs)) \<Rightarrow> jstr (Some x) | Some (JArr []) \<Rightarrow> None | _ \<Rightarrow> jstr v)"

definition nn :: "json option \<Rightarrow> json option" where
  "nn v = (if v = Some JNull then None else v)"

definition validate_payload :: "json \<Rightarrow> db \<Rightarrow> error + principal" where
  "validate_payload payload d =
     (let scope = token_scope (case nn (jget payload ''scope'') of None \<Rightarrow> jget payload ''scopes'' | v \<Rightarrow> v);
          aud = first_audience (jget payload ''aud'')
      in case jstr (jget payload ''userId'') of
           Some u \<Rightarrow>
             if u \<noteq> []
             then (case find_user d u of
                     None \<Rightarrow> Inl (Not_Found (Msg ''Identity not found''))
                   | Some x \<Rightarrow> Inr \<lparr>pr_kind = Person x, pr_scope = scope\<rparr>)
             else Inr \<lparr>pr_kind = Machine \<lparr>mp_sub = jstr (jget payload ''sub''),
                         mp_client = (if aud \<noteq> None then aud else jstr (jget payload ''client_id'')),
                         mp_company = jstr (jget payload ''companyId'')\<rparr>, pr_scope = scope\<rparr>
         | None \<Rightarrow> Inr \<lparr>pr_kind = Machine \<lparr>mp_sub = jstr (jget payload ''sub''),
                         mp_client = (if aud \<noteq> None then aud else jstr (jget payload ''client_id'')),
                         mp_company = jstr (jget payload ''companyId'')\<rparr>, pr_scope = scope\<rparr>)"

text \<open>
  \<open>verify\<close> gives the claims of an unexpired token signed with a published key (the strategy's
  passport-jwt, and \<open>verifyToken\<close> of \<open>auth.service.ts\<close>).
\<close>

definition bearer_principal :: "(string \<Rightarrow> json option) \<Rightarrow> string option \<Rightarrow> db \<Rightarrow> error + principal" where
  "bearer_principal verify bearer d =
     (case Option.bind bearer verify of
        None \<Rightarrow> Inl (Unauthorized (Msg ''Unauthorized''))
      | Some payload \<Rightarrow> validate_payload payload d)"

fun principal_user :: "principal_kind \<Rightarrow> string option" where
  "principal_user (Machine m) = None"
| "principal_user (Person x) = Some (us_id x)"

text \<open>\<open>CurrentUserId\<close> behind \<open>JwtAuthGuard\<close>.\<close>

definition current_user_id :: "(string \<Rightarrow> json option) \<Rightarrow> string option \<Rightarrow> db \<Rightarrow> error + string" where
  "current_user_id verify bearer d =
     (case bearer_principal verify bearer d of
        Inl e \<Rightarrow> Inl e
      | Inr p \<Rightarrow> (case principal_user (pr_kind p) of
                    None \<Rightarrow> Inl (Unauthorized (Msg ''user access token required''))
                  | Some u \<Rightarrow> Inr u))"

text \<open>\<open>JwtOrSessionGuard\<close>, and \<open>(req.user as { userId: string }).userId\<close> of the handlers behind it.\<close>

definition jwt_or_session ::
  "(string \<Rightarrow> json option) \<Rightarrow> browser_session option \<Rightarrow> string option \<Rightarrow> db \<Rightarrow> error + string option"
where
  "jwt_or_session verify bs bearer d =
     (if truthy (session_user bs) then Inr (session_user bs)
      else (case bearer_principal verify bearer d of
              Inl _ \<Rightarrow> Inl (Unauthorized (Msg ''Authentication required''))
            | Inr p \<Rightarrow> Inr (principal_user (pr_kind p))))"

section \<open>Userinfo, revocation, introspection\<close>

record endpoint_deps =
  ed_authorize :: authorize_deps
  ed_issuer :: issuer_deps
  ed_verify :: "string \<Rightarrow> json option"
  ed_verified :: "string \<Rightarrow> json option"
  ed_wallets :: "string \<Rightarrow> (string \<times> string) list"

abbreviation ed_registry :: "endpoint_deps \<Rightarrow> registry_deps" where
  "ed_registry E \<equiv> zd_registry (ed_authorize E)"

abbreviation ed_config :: "endpoint_deps \<Rightarrow> config" where "ed_config E \<equiv> zd_config (ed_authorize E)"

abbreviation ed_prims :: "endpoint_deps \<Rightarrow> prims" where "ed_prims E \<equiv> zd_prims (ed_authorize E)"

definition userinfo :: "endpoint_deps \<Rightarrow> string option \<Rightarrow> db \<Rightarrow> error + json" where
  "userinfo E bearer d =
     (case current_user_id (ed_verify E) bearer d of
        Inl e \<Rightarrow> Inl e | Inr u \<Rightarrow> getUserInfo u (ed_wallets E u) d)"

record token_query =
  tq_token :: "string option"
  tq_client :: string
  tq_secret :: string

definition revoke_endpoint :: "endpoint_deps \<Rightarrow> request \<Rightarrow> token_query \<Rightarrow> db \<Rightarrow> (error + unit) \<times> db" where
  "revoke_endpoint E rq q d =
     (if \<not> truthy (tq_token q) then (Inl (Bad_Request (Msg ''token is required'')), d)
      else (case validateClientWithSecret (ed_registry E) rq (tq_client q) (tq_secret q) d of
              Inl e \<Rightarrow> (Inl e, d)
            | Inr _ \<Rightarrow> (Inr (), revokeToken (ed_issuer E) rq (nullish (tq_token q) '''') (tq_client q) d)))"

definition jmember :: "string \<Rightarrow> json option \<Rightarrow> (string \<times> json) list" where
  "jmember k v = (case v of None \<Rightarrow> [] | Some x \<Rightarrow> [(k, x)])"

definition active_claims :: "json \<Rightarrow> json" where
  "active_claims payload = mk_obj
     ([(''active'', JBool True)] @ jmember ''sub'' (jget payload ''sub'')
      @ jmember ''client_id'' (jget payload ''aud'')
      @ [(''scope'', if js_truthy (jget payload ''scope'') then nullish (jget payload ''scope'') JNull else JStr [])]
      @ jmember ''exp'' (jget payload ''exp'') @ jmember ''iat'' (jget payload ''iat'')
      @ jmember ''iss'' (jget payload ''iss'')
      @ (if js_truthy (jget payload ''org'')
         then jmember ''org'' (jget payload ''org'') @ jmember ''org_id'' (jget payload ''org_id'') else [])
      @ (if js_truthy (jget payload ''roles'') then jmember ''roles'' (jget payload ''roles'') else [])
      @ (if js_truthy (jget payload ''cnf'')
         then jmember ''cnf'' (jget payload ''cnf'') @ [(''token_type'', JStr ''DPoP'')]
         else [(''token_type'', JStr ''Bearer'')]))"

definition inactive :: json where "inactive = JObj [(''active'', JBool False)]"

definition introspect :: "endpoint_deps \<Rightarrow> request \<Rightarrow> token_query \<Rightarrow> db \<Rightarrow> (error + json) \<times> db" where
  "introspect E rq q d =
     (if \<not> truthy (tq_token q) then (Inl (Bad_Request (Msg ''token is required'')), d)
      else (case validateClientWithSecret (ed_registry E) rq (tq_client q) (tq_secret q) d of
              Inl e \<Rightarrow> (Inl e, d)
            | Inr _ \<Rightarrow>
                (case ed_verify E (nullish (tq_token q) '''') of
                   Some payload \<Rightarrow> (Inr (active_claims payload), d)
                 | None \<Rightarrow>
                     (case introspectionClaims (ed_prims E) rq (nullish (tq_token q) '''') d of
                        (Inl e, d1) \<Rightarrow> (Inl e, d1)
                      | (Inr None, d1) \<Rightarrow> (Inr inactive, d1)
                      | (Inr (Some c), d1) \<Rightarrow> (Inr (mk_obj ((''active'', JBool True) # members c)), d1)))))"

section \<open>Signing out\<close>

text \<open>
  The session is destroyed, the applications are told and their sessions ended, and the browser is
  sent away.  \<open>cache\<close> is the trusted-origin cache of \<open>Logout\<close>.
\<close>

record logged_out =
  lo_target :: string
  lo_params :: "(string \<times> string) list"
  lo_told :: "(string \<times> string \<times> string) list"

definition logout_input_of :: "query \<Rightarrow> logout_input" where
  "logout_input_of q = \<lparr>lg_uri = q ''post_logout_redirect_uri'', lg_state = q ''state'',
     lg_client = q ''client_id'', lg_hint = q ''id_token_hint''\<rparr>"

definition logout_deps_of :: "endpoint_deps \<Rightarrow> logout_deps" where
  "logout_deps_of E = \<lparr>ld_registry = ed_registry E, ld_config = ed_config E, ld_verified = ed_verified E\<rparr>"

definition frontend_url :: "endpoint_deps \<Rightarrow> string" where
  "frontend_url E = nullish (cf_env (ed_config E) ''FRONTEND_URL'') ''http://localhost:3000''"

definition end_sessions ::
  "endpoint_deps \<Rightarrow> request \<Rightarrow> (string \<Rightarrow> string) \<Rightarrow> browser_session option \<Rightarrow> db \<Rightarrow>
   (string \<times> string \<times> string) list \<times> db"
where
  "end_sessions E rq jti bs d =
     (case map_option us_did (if truthy (session_user bs) then find_user d (nullish (session_user bs) '''') else None) of
        None \<Rightarrow> ([], d)
      | Some did \<Rightarrow>
          if did = [] then ([], d)
          else (case endRelyingPartySessions (ed_prims E) (ed_config E) rq jti did (Option.bind bs bs_id) d of
                  ((told, _), d1) \<Rightarrow> (told, d1)))"

definition logout ::
  "endpoint_deps \<Rightarrow> request \<Rightarrow> (string \<Rightarrow> string) \<Rightarrow> query \<Rightarrow> browser_session option \<Rightarrow> db \<times> origins_cache \<Rightarrow>
   logged_out \<times> browser_session option \<times> db \<times> origins_cache"
where
  "logout E rq jti q bs st =
     (case end_sessions E rq jti bs (fst st) of
        (told, d1) \<Rightarrow>
          (case resolvePostLogoutRedirect (logout_deps_of E) rq d1 (logout_input_of q) (snd st) of
             (target, cache1) \<Rightarrow>
               (case target of
                  Some (uri, ps) \<Rightarrow> (\<lparr>lo_target = uri, lo_params = ps, lo_told = told\<rparr>, None, d1, cache1)
                | None \<Rightarrow> (\<lparr>lo_target = (if frontend_url E \<noteq> [] then frontend_url E else ''/''),
                            lo_params = [], lo_told = told\<rparr>, None, d1, cache1))))"

definition client_info_endpoint :: "endpoint_deps \<Rightarrow> request \<Rightarrow> string option \<Rightarrow> db \<Rightarrow> error + client_info" where
  "client_info_endpoint E rq clientId d =
     (if \<not> truthy clientId then Inl (Bad_Request (Msg ''client_id is required''))
      else getClientInfo (ed_registry E) rq (nullish clientId '''') d)"

section \<open>Codes from the consent screen\<close>

record create_code_input =
  cci_client :: string
  cci_redirect_uri :: string
  cci_scope :: "string option"
  cci_challenge :: "string option"
  cci_challenge_method :: "string option"
  cci_nonce :: "string option"
  cci_acr_values :: "string option"
  cci_resource :: "string option"
  cci_details :: "string option"
  cci_organization :: "string option"
  cci_customer :: "string option"

definition code_input_of :: "create_code_input \<Rightarrow> string \<Rightarrow> string \<Rightarrow> string list \<Rightarrow> code_input" where
  "code_input_of i userId scope amr =
     \<lparr>ci_user = userId, ci_client = cci_client i, ci_redirect_uri = cci_redirect_uri i, ci_scope = scope,
      ci_challenge = cci_challenge i,
      ci_challenge_method = Some (if truthy (cci_challenge_method i) then nullish (cci_challenge_method i) '''' else ''S256''),
      ci_nonce = cci_nonce i,
      ci_acr_values = (if achievedAcr amr \<noteq> None then achievedAcr amr else cci_acr_values i),
      ci_amr = Some amr, ci_resource = cci_resource i, ci_details = cci_details i,
      ci_organization = cci_organization i, ci_customer = cci_customer i\<rparr>"

definition STEP_UP_NEEDED :: error where
  "STEP_UP_NEEDED = Unauthorized (OAuth ''insufficient_user_authentication''
     (Some ''Requested acr_values exceeds the current session assurance level''))"

text \<open>
  \<open>createCode\<close>.  A machine principal has no user identifier, and the insert of a code without its
  required user fails; what the tenant lookup before it may have written is left out.
\<close>

definition createCode ::
  "endpoint_deps \<Rightarrow> request \<Rightarrow> entropy \<Rightarrow> browser_session option \<Rightarrow> string option \<Rightarrow> create_code_input \<Rightarrow> db \<Rightarrow>
   (error + string) \<times> db"
where
  "createCode E rq en bs bearer i d =
     (case jwt_or_session (ed_verify E) bs bearer d of
        Inl e \<Rightarrow> (Inl e, d)
      | Inr who \<Rightarrow>
     (case validateClient (ed_registry E) rq (cci_client i) None d of
        Inl e \<Rightarrow> (Inl e, d)
      | Inr c \<Rightarrow>
          if \<not> validateRedirectUri (p_parse_url (ed_prims E)) c (cci_redirect_uri i)
          then (Inl (Bad_Request (Msg ''Invalid redirect_uri'')), d)
          else if \<not> truthy (cci_challenge i)
          then (Inl (Bad_Request (Msg ''code_challenge is required (PKCE)'')), d)
          else
            (let scope = grantableScope (scope_client_of c) (Some (nullish (cci_scope i) '''')); amr = session_amr bs
             in if \<not> isSatisfied amr (cci_acr_values i) then (Inl STEP_UP_NEEDED, d)
                else (case who of
                        None \<Rightarrow> (Inl (Server_Error ''Argument user is missing''), d)
                      | Some u \<Rightarrow>
                          (case createAuthorizationCode (ed_prims E) (ed_config E) rq en (code_input_of i u scope amr) d of
                             (Inl e, d1) \<Rightarrow> (Inl e, d1)
                           | (Inr code, d1) \<Rightarrow> (Inr code, record_consent u (cci_client i) scope d1))))))"

section \<open>Connected applications\<close>

text \<open>An undefined member of a \<open>where\<close> is no condition.\<close>

fun where_user :: "string option \<Rightarrow> string \<Rightarrow> bool" where
  "where_user None x = True"
| "where_user (Some u) x = (x = u)"

definition consent_check ::
  "endpoint_deps \<Rightarrow> request \<Rightarrow> browser_session option \<Rightarrow> string option \<Rightarrow> string option \<Rightarrow> string option \<Rightarrow>
   string option \<Rightarrow> db \<Rightarrow> error + bool"
where
  "consent_check E rq bs bearer clientId scope details d =
     (case jwt_or_session (ed_verify E) bs bearer d of
        Inl e \<Rightarrow> Inl e
      | Inr who \<Rightarrow>
          if \<not> truthy clientId then Inl (Bad_Request (Msg ''client_id is required''))
          else (case validateClient (ed_registry E) rq (nullish clientId '''') None d of
                  Inl e \<Rightarrow> Inl e
                | Inr c \<Rightarrow>
                    (case who of
                       Some u \<Rightarrow> Inr (isRequired u (nullish clientId '''')
                         (grantableScope (scope_client_of c) (Some (nullish scope ''''))) (truthy details) d)
                     | None \<Rightarrow>
                         if truthy details then Inr True
                         else if isFirstParty c then Inr False
                         else Inl (Server_Error ''Argument userId is missing''))))"

record connected_app =
  ca_client :: string
  ca_name :: string
  ca_logo :: "string option"
  ca_scopes :: "string list"

text \<open>The applications with their scopes; the dates and the order by date are left out, as is the agent
  joined to each.\<close>

definition connected_of :: "db \<Rightarrow> consent_row \<Rightarrow> connected_app list" where
  "connected_of d x =
     (case find_client d (cs_client x) of
        None \<Rightarrow> []
      | Some c \<Rightarrow> [\<lparr>ca_client = cs_client x, ca_name = cl_name c, ca_logo = cl_logo_url c, ca_scopes = cs_scopes x\<rparr>])"

definition list_consents :: "string option \<Rightarrow> db \<Rightarrow> connected_app list" where
  "list_consents who d = concat (map (connected_of d) (filter (\<lambda>x. where_user who (cs_user x)) (consents d)))"

definition listConsents ::
  "endpoint_deps \<Rightarrow> browser_session option \<Rightarrow> string option \<Rightarrow> db \<Rightarrow> error + connected_app list"
where
  "listConsents E bs bearer d =
     (case jwt_or_session (ed_verify E) bs bearer d of Inl e \<Rightarrow> Inl e | Inr who \<Rightarrow> Inr (list_consents who d))"

definition disconnect_table :: "string option \<Rightarrow> string \<Rightarrow> time \<Rightarrow> refresh_row list \<Rightarrow> refresh_row list" where
  "disconnect_table who c now t = revoke_where (\<lambda>r. where_user who (rt_user r) \<and> rt_client r = c) now t"

definition disconnect :: "request \<Rightarrow> string option \<Rightarrow> string \<Rightarrow> db \<Rightarrow> nat \<times> db" where
  "disconnect rq who c d =
     (count_where (\<lambda>r. where_user who (rt_user r) \<and> rt_client r = c \<and> \<not> rt_revoked r) (refresh_tokens d),
      d\<lparr>consents := delete_many (\<lambda>x. where_user who (cs_user x) \<and> cs_client x = c) (consents d),
        refresh_tokens := disconnect_table who c (rq_now rq) (refresh_tokens d)\<rparr>)"

definition retire_agents :: "prims \<Rightarrow> config \<Rightarrow> request \<Rightarrow> string option \<Rightarrow> string \<Rightarrow> db \<Rightarrow> nat \<times> db" where
  "retire_agents P cf rq who clientId d =
     (let live = filter (\<lambda>a. where_user who (ag_user a) \<and> ag_client a = clientId \<and> ag_revoked_at a = None) (agents d);
          d1 = d\<lparr>agents := update_many (\<lambda>a. ag_id a \<in> ag_id ` set live)
                  (\<lambda>a. a\<lparr>ag_revoked_at := Some (rq_now rq)\<rparr>) (agents d)\<rparr>
      in if live = [] then (0, d)
         else (length live,
               d1\<lparr>effects := effects d1 @ concat (map (\<lambda>a. agent_revoked_event P cf clientId a d) live)\<rparr>))"

definition revokeConsent ::
  "endpoint_deps \<Rightarrow> request \<Rightarrow> browser_session option \<Rightarrow> string option \<Rightarrow> string \<Rightarrow> db \<Rightarrow> (error + nat) \<times> db"
where
  "revokeConsent E rq bs bearer clientId d =
     (case jwt_or_session (ed_verify E) bs bearer d of
        Inl e \<Rightarrow> (Inl e, d)
      | Inr who \<Rightarrow>
          (case disconnect rq who clientId d of
             (n, d1) \<Rightarrow> (Inr n, snd (retire_agents (ed_prims E) (ed_config E) rq who clientId d1))))"

section \<open>A session from a token\<close>

datatype session_answer = Go string | Established

definition setSession ::
  "endpoint_deps \<Rightarrow> request \<Rightarrow> string option \<Rightarrow> string option \<Rightarrow> browser_session option \<Rightarrow> db \<Rightarrow> origins_cache \<Rightarrow>
   (error + session_answer) \<times> browser_session option \<times> origins_cache"
where
  "setSession E rq token redirect bs d cache =
     (if \<not> truthy token then (Inl (Bad_Request (Msg ''token is required'')), bs, cache)
      else (case ed_verify E (nullish token '''') of
              None \<Rightarrow> (Inl (Unauthorized (Msg ''Invalid token'')), bs, cache)
            | Some payload \<Rightarrow>
                (let bs1 = map_option (\<lambda>b. b\<lparr>bs_user := jstr (jget payload ''userId'')\<rparr>) bs
                 in case (if truthy redirect then p_parse_url (ed_prims E) (nullish redirect '''') else None) of
                      None \<Rightarrow> (Inr Established, bs1, cache)
                    | Some u \<Rightarrow>
                        (case isAllowedOrigin (p_parse_url (ed_prims E)) (ed_config E) rq d (url_origin u) cache of
                           (True, cache1) \<Rightarrow> (Inr (Go (nullish redirect '''')), bs1, cache1)
                         | (False, cache1) \<Rightarrow> (Inr Established, bs1, cache1)))))"

section \<open>Disconnecting\<close>

interpretation disconnecting: revoke_op "disconnect_table who c now" "\<lambda>u c'. where_user who u \<and> c' = c"
  using closes_revoke_where [of "\<lambda>u c'. where_user who u \<and> c' = c"]
  by unfold_locales (simp_all add: disconnect_table_def narrows_revoke_where)

lemma where_some: "where_user (Some u) = (\<lambda>x. x = u)"
  by (simp add: fun_eq_iff)

text \<open>For a person the two operations are those of the services.\<close>

lemma disconnect_person: "disconnect rq (Some u) c d = revoke_consent rq u c d"
  by (simp add: disconnect_def revoke_consent_def disconnect_table_def revoke_family_def)

lemma retire_person: "retire_agents P cf rq (Some u) c d = revoke_agents P cf rq u c d"
  by (simp add: retire_agents_def revoke_agents_def)

lemma retire_frame [simp]:
  "consents (snd (retire_agents P cf rq who c d)) = consents d"
  "refresh_tokens (snd (retire_agents P cf rq who c d)) = refresh_tokens d"
  by (simp_all add: retire_agents_def Let_def)

definition live_for :: "string option \<Rightarrow> string \<Rightarrow> db \<Rightarrow> agent_row set" where
  "live_for who c d = {a \<in> set (agents d). where_user who (ag_user a) \<and> ag_client a = c \<and> ag_revoked_at a = None}"

lemma retire_agents_table:
  "agents (snd (retire_agents P cf rq who c d)) =
     update_many (\<lambda>a. ag_id a \<in> ag_id ` live_for who c d) (\<lambda>a. a\<lparr>ag_revoked_at := Some (rq_now rq)\<rparr>) (agents d)"
proof (cases "live_for who c d = {}")
  case True
  then have "filter (\<lambda>a. where_user who (ag_user a) \<and> ag_client a = c \<and> ag_revoked_at a = None) (agents d) = []"
    by (auto simp: live_for_def filter_empty_conv)
  then show ?thesis using True by (simp add: retire_agents_def Let_def update_many_def)
next
  case False
  then have "filter (\<lambda>a. where_user who (ag_user a) \<and> ag_client a = c \<and> ag_revoked_at a = None) (agents d) \<noteq> []"
    by (auto simp: live_for_def filter_empty_conv)
  then show ?thesis by (simp add: retire_agents_def Let_def live_for_def)
qed

lemma retiredE:
  assumes "a \<in> set (agents (snd (retire_agents P cf rq who c d)))"
  obtains b where "b \<in> set (agents d)" and "ag_user a = ag_user b" and "ag_client a = ag_client b"
    and "a = b \<and> ag_id b \<notin> ag_id ` live_for who c d
      \<or> ag_revoked_at a = Some (rq_now rq) \<and> ag_id b \<in> ag_id ` live_for who c d"
  using assms unfolding retire_agents_table by (rule update_manyE) (simp split: if_splits)

lemma retired:
  assumes "a \<in> set (agents (snd (retire_agents P cf rq who c d)))" and "where_user who (ag_user a)" and "ag_client a = c"
  shows "ag_revoked_at a \<noteq> None"
  using assms(1) by (rule retiredE) (use assms(2,3) in \<open>auto simp: live_for_def\<close>)

lemma retire_others:
  assumes "\<not> (where_user who (ag_user a) \<and> ag_client a = c)" and "distinct (map ag_id (agents d))"
  shows "a \<in> set (agents (snd (retire_agents P cf rq who c d))) \<longleftrightarrow> a \<in> set (agents d)"
proof
  have n: "ag_id b \<notin> ag_id ` live_for who c d"
    if "b \<in> set (agents d)" "\<not> (where_user who (ag_user b) \<and> ag_client b = c)" for b
    using that assms(2) by (auto simp: distinct_map live_for_def dest: inj_onD)
  show "a \<in> set (agents d)" if "a \<in> set (agents (snd (retire_agents P cf rq who c d)))"
    using that by (rule retiredE) (use n assms(1) in force)
  show "a \<in> set (agents (snd (retire_agents P cf rq who c d)))" if "a \<in> set (agents d)"
    using n [OF that assms(1)] that unfolding retire_agents_table set_update_many by force
qed

lemma disconnected:
  assumes "jwt_or_session (ed_verify E) bs bearer d = Inr who"
    and "revokeConsent E rq bs bearer c d = (r, d')"
  shows "r = Inr (count_where (\<lambda>r. where_user who (rt_user r) \<and> rt_client r = c \<and> \<not> rt_revoked r) (refresh_tokens d))
    \<and> consents d' = delete_many (\<lambda>x. where_user who (cs_user x) \<and> cs_client x = c) (consents d)
    \<and> refresh_tokens d' = disconnect_table who c (rq_now rq) (refresh_tokens d)
    \<and> agents d' = agents (snd (retire_agents (ed_prims E) (ed_config E) rq who c (snd (disconnect rq who c d))))"
  using assms by (auto simp: revokeConsent_def disconnect_def)

lemma approved_none: "\<forall>x \<in> set (consents d). cs_user x = u \<longrightarrow> cs_client x \<noteq> c \<Longrightarrow> approved d u c = {}"
  by (auto simp: approved_def dest!: find_consentD split: option.split)

text \<open>Disconnecting an application undoes exactly one person's approval of exactly one application:
  nothing stays approved, every refresh token of the pair is revoked and no kept pair can bring it
  back, its agent is retired, and every row of anybody else, or of another application, is untouched.\<close>

theorem disconnect_own_app:
  assumes "jwt_or_session (ed_verify E) bs bearer d = Inr (Some u)"
    and "revokeConsent E rq bs bearer c d = (r, d')" and "distinct (map ag_id (agents d))"
  shows "approved d' u c = {}
    \<and> (\<forall>r \<in> set (refresh_tokens d'). rt_user r = u \<and> rt_client r = c \<longrightarrow> rt_revoked r \<and> rt_grace_replay r = None)
    \<and> (\<forall>a \<in> set (agents d'). ag_user a = u \<and> ag_client a = c \<longrightarrow> ag_revoked_at a \<noteq> None)
    \<and> (\<forall>x. cs_user x = u \<and> cs_client x = c \<or> (x \<in> set (consents d')) = (x \<in> set (consents d)))
    \<and> (\<forall>r. rt_user r = u \<and> rt_client r = c \<or> (r \<in> set (refresh_tokens d')) = (r \<in> set (refresh_tokens d)))
    \<and> (\<forall>a. ag_user a = u \<and> ag_client a = c \<or> (a \<in> set (agents d')) = (a \<in> set (agents d)))"
proof -
  note o = disconnected [OF assms(1,2)]
  have cs: "consents d' = delete_many (\<lambda>x. cs_user x = u \<and> cs_client x = c) (consents d)"
    and rt: "refresh_tokens d' = disconnect_table (Some u) c (rq_now rq) (refresh_tokens d)"
    using o by simp_all
  have ag: "agents d' = agents (snd (retire_agents (ed_prims E) (ed_config E) rq (Some u) c (snd (disconnect rq (Some u) c d))))"
    using o by simp
  have da: "agents (snd (disconnect rq (Some u) c d)) = agents d" by (simp add: disconnect_def)
  have "approved d' u c = {}" by (rule approved_none) (auto simp: cs delete_many_def)
  moreover have "\<forall>r \<in> set (refresh_tokens d'). rt_user r = u \<and> rt_client r = c \<longrightarrow> rt_revoked r \<and> rt_grace_replay r = None"
    using disconnecting.closes [of "Some u" c "rq_now rq" "refresh_tokens d"] by (simp add: rt scope_closed_def)
  moreover have "\<forall>r. rt_user r = u \<and> rt_client r = c \<or> (r \<in> set (refresh_tokens d')) = (r \<in> set (refresh_tokens d))"
    unfolding rt disconnect_table_def
    using revoke_where_others [of "\<lambda>r. where_user (Some u) (rt_user r) \<and> rt_client r = c"] by auto
  moreover have "\<forall>a. ag_user a = u \<and> ag_client a = c \<or> (a \<in> set (agents d')) = (a \<in> set (agents d))"
    unfolding ag using retire_others [of "Some u" _ c "snd (disconnect rq (Some u) c d)"] assms(3) da by auto
  moreover have "\<forall>a \<in> set (agents d'). ag_user a = u \<and> ag_client a = c \<longrightarrow> ag_revoked_at a \<noteq> None"
    unfolding ag using retired [of _ _ _ _ "Some u"] by simp
  ultimately show ?thesis by (auto simp: cs delete_many_def)
qed

text \<open>A machine token disconnects everybody: with no session and a valid token that names no user, what a
  self-registered client gets by \<open>client_credentials\<close>, the request forgets every person's approval
  of the named application, revokes every refresh token it holds for anyone, retires all its agents,
  and the listing shows every approval there is.\<close>

theorem machine_token_disconnects_everyone:
  assumes "\<not> truthy (session_user bs)" and "ed_verify E tok = Some payload" and "jget payload ''userId'' = None"
    and "revokeConsent E rq bs (Some tok) c d = (r, d')"
  shows "(\<exists>n. r = Inr n) \<and> (\<forall>x \<in> set (consents d'). cs_client x \<noteq> c)
    \<and> (\<forall>r \<in> set (refresh_tokens d'). rt_client r = c \<longrightarrow> rt_revoked r \<and> rt_grace_replay r = None)
    \<and> (\<forall>a \<in> set (agents d'). ag_client a = c \<longrightarrow> ag_revoked_at a \<noteq> None)
    \<and> listConsents E bs (Some tok) d = Inr (concat (map (connected_of d) (consents d)))"
proof -
  have who: "jwt_or_session (ed_verify E) bs (Some tok) d = Inr None"
    using assms(1-3) by (simp add: jwt_or_session_def bearer_principal_def validate_payload_def Let_def)
  note o = disconnected [OF who assms(4)]
  have rt: "refresh_tokens d' = disconnect_table None c (rq_now rq) (refresh_tokens d)" using o by simp
  have "\<forall>r \<in> set (refresh_tokens d'). rt_client r = c \<longrightarrow> rt_revoked r \<and> rt_grace_replay r = None"
    using disconnecting.closes [of None c "rq_now rq" "refresh_tokens d"] by (simp add: rt scope_closed_def)
  moreover have "\<forall>a \<in> set (agents d'). ag_client a = c \<longrightarrow> ag_revoked_at a \<noteq> None"
    using o retired [of _ _ _ _ None] by simp
  ultimately show ?thesis using o who by (auto simp: delete_many_def listConsents_def list_consents_def)
qed

section \<open>Codes from the consent screen: what they are\<close>

lemma codeTenant_keeps:
  assumes "codeTenant cf input c d = (r, d')"
  shows "clients d' = clients d \<and> consents d' = consents d"
  using assms
  by (auto simp: codeTenant_def admit_def Let_def createCustomer_def insert_membership_def recordJoined_def
      split: option.splits sum.splits prod.splits lane_verdict.splits if_splits)

lemma created_keeps:
  assumes "createAuthorizationCode P cf rq en input d = (Inr code, d')"
  shows "clients d' = clients d \<and> consents d' = consents d"
proof -
  from assms obtain details company d1 where a: "codeTenant cf input (find_client d (ci_client input)) d = (Inr company, d1)"
    "insert_code (code_row_for rq en input details company) d1 = Inr d'"
    by (auto simp: createAuthorizationCode_def Let_def split: sum.splits if_splits prod.splits)
  then show ?thesis using codeTenant_keeps [OF a(1)] by (auto simp: insert_code_def split: if_splits)
qed

lemma record_frame [simp]:
  "auth_codes (record_consent u c scope d) = auth_codes d" "clients (record_consent u c scope d) = clients d"
  by (simp_all add: record_consent_def Let_def split: option.split)

lemma createCode_okE:
  assumes "createCode E rq en bs bearer i d = (Inr code, d')"
  obtains u c d1 where "jwt_or_session (ed_verify E) bs bearer d = Inr (Some u)"
    "validateClient (ed_registry E) rq (cci_client i) None d = Inr c"
    "validateRedirectUri (p_parse_url (ed_prims E)) c (cci_redirect_uri i)" "truthy (cci_challenge i)"
    "isSatisfied (session_amr bs) (cci_acr_values i)"
    "createAuthorizationCode (ed_prims E) (ed_config E) rq en
       (code_input_of i u (grantableScope (scope_client_of c) (Some (nullish (cci_scope i) ''''))) (session_amr bs)) d
       = (Inr code, d1)"
    "d' = record_consent u (cci_client i) (grantableScope (scope_client_of c) (Some (nullish (cci_scope i) ''''))) d1"
  using assms by (auto simp: createCode_def Let_def split: sum.splits option.splits prod.splits if_splits)

lemma achieved_none: "achievedAcr amr = None \<longleftrightarrow> amr = []"
  by (auto simp: achievedAcr_def sessionRank_def Let_def)

text \<open>A code made for the consent screen is one new code, for the person who asks and an active client, at
  a redirect URI of that client, with a challenge and the scope the client may have; the session is
  as strong as the request demands, and a session with any method says truthfully how strong it is.
  The scopes count as approved from then on, and nothing else is approved.\<close>

theorem created_code_is_bound:
  assumes "createCode E rq en bs bearer i d = (Inr code, d')"
  shows "\<exists>u c row. jwt_or_session (ed_verify E) bs bearer d = Inr (Some u)
    \<and> c \<in> set (clients d) \<and> cl_active c \<and> cl_client_id c = cci_client i
    \<and> validateRedirectUri (p_parse_url (ed_prims E)) c (cci_redirect_uri i)
    \<and> auth_codes d' = auth_codes d @ [row] \<and> ac_code row = code \<and> code \<notin> ac_code ` set (auth_codes d)
    \<and> ac_user row = u \<and> ac_client row = cci_client i \<and> ac_redirect_uri row = cci_redirect_uri i
    \<and> truthy (ac_challenge row) \<and> \<not> ac_used row \<and> ac_amr row = session_amr bs
    \<and> ac_scope row = Some (grantableScope (scope_client_of c) (Some (nullish (cci_scope i) '''')))
    \<and> isSatisfied (session_amr bs) (cci_acr_values i)
    \<and> (session_amr bs \<noteq> [] \<longrightarrow> ac_acr_values row = achievedAcr (session_amr bs))
    \<and> approved d' u (cci_client i) = approved d u (cci_client i) \<union> set (words_of (nullish (ac_scope row) ''''))
    \<and> (\<forall>u' c'. (u', c') \<noteq> (u, cci_client i) \<longrightarrow> approved d' u' c' = approved d u' c')"
  using assms
proof (rule createCode_okE)
  fix u c d1
  let ?s = "grantableScope (scope_client_of c) (Some (nullish (cci_scope i) ''''))"
  let ?in = "code_input_of i u ?s (session_amr bs)"
  assume who: "jwt_or_session (ed_verify E) bs bearer d = Inr (Some u)"
    and c: "validateClient (ed_registry E) rq (cci_client i) None d = Inr c"
    and checks: "validateRedirectUri (p_parse_url (ed_prims E)) c (cci_redirect_uri i)" "truthy (cci_challenge i)"
      "isSatisfied (session_amr bs) (cci_acr_values i)"
    and made: "createAuthorizationCode (ed_prims E) (ed_config E) rq en ?in d = (Inr code, d1)"
    and d': "d' = record_consent u (cci_client i) ?s d1"
  from created_code [OF made] obtain details company where row: "code = en_token en"
    "auth_codes d1 = auth_codes d @ [code_row_for rq en ?in details company]" "code \<notin> ac_code ` set (auth_codes d)" by blast
  have same: "approved d1 u' c' = approved d u' c'" for u' c'
    using created_keeps [OF made] by (simp add: approved_def find_consent_def)
  show ?thesis
    by (rule exI [of _ u], rule exI [of _ c], rule exI [of _ "code_row_for rq en ?in details company"])
       (use who c checks row validateClient_ok [OF c] in
        \<open>auto simp: d' code_row_for_def code_input_of_def approved_record same achieved_none\<close>)
qed

text \<open>C40. Whose token it is makes no difference: two tokens that name the same person, whatever client,
  audience and scope they were issued for, make the same codes and the same approvals, for any
  client, and open the same session.\<close>

theorem token_client_is_ignored:
  assumes "ed_verify E tok = Some p" and "ed_verify E tok' = Some p'"
    and "jstr (jget p ''userId'') = Some u" and "jstr (jget p' ''userId'') = Some u" and "u \<noteq> []"
  shows "createCode E rq en bs (Some tok) i d = createCode E rq en bs (Some tok') i d
    \<and> (tok \<noteq> [] \<and> tok' \<noteq> [] \<longrightarrow>
        setSession E rq (Some tok) redirect bs d cache = setSession E rq (Some tok') redirect bs d cache)"
proof
  have "jwt_or_session (ed_verify E) bs (Some tok) d = jwt_or_session (ed_verify E) bs (Some tok') d"
    using assms by (simp add: jwt_or_session_def bearer_principal_def validate_payload_def Let_def split: option.split)
  then show "createCode E rq en bs (Some tok) i d = createCode E rq en bs (Some tok') i d"
    by (simp add: createCode_def)
  show "tok \<noteq> [] \<and> tok' \<noteq> [] \<longrightarrow>
      setSession E rq (Some tok) redirect bs d cache = setSession E rq (Some tok') redirect bs d cache"
    using assms by (simp add: setSession_def)
qed

text \<open>With a bearer token and no session, a requested level that no rank knows is asserted back: the
  code says the person reached the very level the client asked for.\<close>

theorem unranked_acr_is_asserted:
  assumes "createCode E rq en bs bearer i d = (Inr code, d')" and "session_amr bs = []" and "cci_acr_values i = Some a"
  shows "\<exists>row. auth_codes d' = auth_codes d @ [row] \<and> ac_acr_values row = Some a \<and> ac_amr row = []"
  using assms(1)
proof (rule createCode_okE)
  fix u c d1
  let ?in = "code_input_of i u (grantableScope (scope_client_of c) (Some (nullish (cci_scope i) ''''))) (session_amr bs)"
  assume made: "createAuthorizationCode (ed_prims E) (ed_config E) rq en ?in d = (Inr code, d1)"
    and d': "d' = record_consent u (cci_client i) (grantableScope (scope_client_of c) (Some (nullish (cci_scope i) ''''))) d1"
  from created_code [OF made] show ?thesis using assms(2,3) achieved_none [of "[]"]
    by (auto simp: d' code_row_for_def code_input_of_def)
qed

text \<open>A session carried to another person keeps its strength: opening a session from a token replaces the
  person and nothing else, so whatever level the previous person's sign-in satisfied is satisfied
  for the new one; and the browser is sent on only to a trusted origin.\<close>

theorem session_swap_keeps_strength:
  assumes "setSession E rq (Some tok) redirect (Some b) d cache = (Inr a, bs', cache')"
  shows "\<exists>b' p. ed_verify E tok = Some p \<and> bs' = Some b' \<and> bs_user b' = jstr (jget p ''userId'') \<and> bs_id b' = bs_id b
    \<and> (\<forall>acr. isSatisfied (session_amr bs') acr = isSatisfied (session_amr (Some b)) acr)
    \<and> (\<forall>uri. a = Go uri \<longrightarrow> redirect = Some uri \<and> (\<exists>u. p_parse_url (ed_prims E) uri = Some u
         \<and> fst (isAllowedOrigin (p_parse_url (ed_prims E)) (ed_config E) rq d (url_origin u) cache)))"
  using assms
  by (auto simp: setSession_def Let_def session_amr_def elim!: truthyE split: option.splits if_splits prod.splits bool.splits)

section \<open>Signing out\<close>

lemma end_sessions_ended:
  assumes "end_sessions E rq jti bs d = (told, d')" and "session_user bs = Some u" and "u \<noteq> []"
    and "find_user d u = Some x" and "us_did x \<noteq> []" and "r \<in> set (refresh_tokens d')" and "has_did d (us_did x) (rt_user r)"
  shows "rt_revoked r \<and> rt_grace_replay r = None"
  using assms end_rp.closes [of d "us_did x" "rq_now rq" "refresh_tokens d"]
  by (auto simp: end_sessions_def endRelyingPartySessions_def scope_closed_def)

lemma end_sessions_clients: "end_sessions E rq jti bs d = (told, d') \<Longrightarrow> clients d' = clients d"
  by (auto simp: end_sessions_def endRelyingPartySessions_def split: option.splits if_splits)

lemma logout_parts:
  assumes "logout E rq jti q bs (d, cache) = (out, bs', d', cache')"
  shows "bs' = None \<and> end_sessions E rq jti bs d = (lo_told out, d')
    \<and> (lo_target out \<in> {frontend_url E, ''/''} \<and> lo_params out = []
       \<or> fst (resolvePostLogoutRedirect (logout_deps_of E) rq d' (logout_input_of q) cache)
           = Some (lo_target out, lo_params out))"
  using assms by (auto simp: logout_def split: prod.splits option.splits)

text \<open>C21. After a sign-out nobody is signed in: the browser has no session, every refresh token of the
  person is revoked with nothing kept for a retry, so no application renews its session; and the
  browser goes to the front end, or where the request asked, on http or https.\<close>

theorem logout_leaves_nothing:
  assumes "logout E rq jti q bs (d, cache) = (out, bs', d', cache')"
    and "session_user bs = Some u" and "u \<noteq> []" and "find_user d u = Some x" and "us_did x \<noteq> []"
  shows "session_user bs' = None
    \<and> (\<forall>r \<in> set (refresh_tokens d'). rt_user r = u \<longrightarrow> \<not> usable now r \<and> rt_grace_replay r = None)
    \<and> (lo_target out \<in> {frontend_url E, ''/''} \<and> lo_params out = []
       \<or> q ''post_logout_redirect_uri'' = Some (lo_target out)
         \<and> (\<exists>w. p_parse_url (ed_prims E) (lo_target out) = Some w \<and> url_protocol w \<in> {''https:'', ''http:''}))"
proof -
  note p = logout_parts [OF assms(1)]
  have "has_did d (us_did x) u" using find_userD [OF assms(4)] by (auto simp: has_did_def list_ex_iff)
  then have "\<forall>r \<in> set (refresh_tokens d'). rt_user r = u \<longrightarrow> rt_revoked r \<and> rt_grace_replay r = None"
    using end_sessions_ended [OF _ assms(2-5)] p by blast
  then show ?thesis using p
    by (auto simp: usable_def session_user_def logout_input_of_def logout_deps_of_def dest!: redirect_cases)
qed

section \<open>Introspection\<close>

lemma find_key_active:
  assumes "distinct (map cl_client_id (clients d))" and "c \<in> set (clients d)" and "cl_active c"
  shows "find_active_client d (cl_client_id c) = Some c"
proof -
  have "List.find (\<lambda>x. cl_client_id x = cl_client_id c \<and> cl_active x) cs = Some c"
    if "distinct (map cl_client_id cs)" "c \<in> set cs" for cs
    using that assms(3) by (induction cs) (auto simp: image_iff)
  then show ?thesis using assms by (simp add: find_active_client_def)
qed

lemma jmember_in: "x \<in> set (jmember k v) \<Longrightarrow> fst x = k"
  by (auto simp: jmember_def split: option.splits)

lemma active_claims_sub: "jget (active_claims payload) ''sub'' = jget payload ''sub''"
proof -
  have "\<exists>ys. active_claims payload = mk_obj (([(''active'', JBool True)] @ jmember ''sub'' (jget payload ''sub'')) @ ys)
      \<and> ''sub'' \<notin> fst ` set ys"
    unfolding active_claims_def append_assoc by (rule exI, rule conjI, rule refl) (auto dest: jmember_in split: if_splits)
  then show ?thesis
    by (auto simp: jget_mk_obj map_add_def map_of_eq_None_iff [THEN iffD2] jmember_def split: option.split)
qed

text \<open>Introspection needs no credential of a public client: whoever names an active public client and
  sends no secret learns the subject, audience and scope of any valid token.\<close>

theorem public_client_introspects:
  assumes "c \<in> set (clients d)" and "cl_active c" and "cl_is_public c" and "distinct (map cl_client_id (clients d))"
    and "ed_verify E tok = Some payload" and "tok \<noteq> []"
  shows "introspect E rq \<lparr>tq_token = Some tok, tq_client = cl_client_id c, tq_secret = []\<rparr> d = (Inr (active_claims payload), d)
    \<and> jget (active_claims payload) ''sub'' = jget payload ''sub''"
proof
  have "find_active_client d (cl_client_id c) = Some c"
    using find_key_active [OF assms(4,1,2)] .
  then show "introspect E rq \<lparr>tq_token = Some tok, tq_client = cl_client_id c, tq_secret = []\<rparr> d = (Inr (active_claims payload), d)"
    using assms by (simp add: introspect_def validateClientWithSecret_def validateClient_def)
  show "jget (active_claims payload) ''sub'' = jget payload ''sub''"
    by (rule active_claims_sub)
qed

section \<open>Witnesses\<close>

definition robot_payload :: json where
  "robot_payload = JObj [(''sub'', JStr ''dcr_robot''), (''aud'', JStr ''dcr_robot''), (''scope'', JStr ''openid'')]"

definition ann_payload :: "string \<Rightarrow> json" where
  "ann_payload client = JObj [(''sub'', JStr ''did:web:ann''), (''aud'', JStr client), (''userId'', JStr ''u1'')]"

definition demo_verify :: "string \<Rightarrow> json option" where
  "demo_verify t = (if t = ''robot'' then Some robot_payload else if t = ''shop-token'' then Some (ann_payload ''shop'')
     else if t = ''game-token'' then Some (ann_payload ''game'') else None)"

definition demo_endpoints :: endpoint_deps where
  "demo_endpoints = \<lparr>ed_authorize = demo_authorize, ed_issuer = \<lparr>is_prims = P0, is_config = demo_config, is_secret = ''k''\<rparr>,
     ed_verify = demo_verify, ed_verified = demo_verify, ed_wallets = (\<lambda>_. [])\<rparr>"

definition consent_code_input :: create_code_input where
  "consent_code_input = \<lparr>cci_client = ''shop'', cci_redirect_uri = ''https://app.example/cb'', cci_scope = Some ''openid'',
     cci_challenge = Some ''s:verifier'', cci_challenge_method = None, cci_nonce = None, cci_acr_values = Some ''strongest'',
     cci_resource = None, cci_details = None, cci_organization = None, cci_customer = None\<rparr>"

theorem disconnect_own_app_witness:
  "\<exists>d'. revokeConsent demo_endpoints demo_rq ann_session None ''shop'' demo_db = (Inr 1, d')
     \<and> (\<forall>r \<in> set (refresh_tokens d'). rt_user r = ''u1'' \<and> rt_client r = ''shop'' \<longrightarrow> rt_revoked r)"
proof -
  have who: "jwt_or_session (ed_verify demo_endpoints) ann_session None demo_db = Inr (Some ''u1'')" by code_simp
  let ?r = "revokeConsent demo_endpoints demo_rq ann_session None ''shop'' demo_db"
  have n: "fst ?r = Inr 1" by code_simp
  obtain d' where r: "?r = (Inr 1, d')" using n by (metis prod.collapse)
  have "distinct (map ag_id (agents demo_db))" by (simp add: demo_db_def)
  from disconnect_own_app [OF who r this] r show ?thesis by blast
qed

theorem machine_token_disconnects_everyone_witness:
  "\<exists>n d'. revokeConsent demo_endpoints demo_rq None (Some ''robot'') ''shop'' demo_db = (Inr n, d')
     \<and> (\<forall>r \<in> set (refresh_tokens d'). rt_client r = ''shop'' \<longrightarrow> rt_revoked r)"
proof -
  obtain r d' where r: "revokeConsent demo_endpoints demo_rq None (Some ''robot'') ''shop'' demo_db = (r, d')" by force
  have "ed_verify demo_endpoints ''robot'' = Some robot_payload" "jget robot_payload ''userId'' = None"
    by (simp_all add: demo_endpoints_def demo_verify_def robot_payload_def)
  from machine_token_disconnects_everyone [OF _ this r] r show ?thesis by (auto simp: session_user_def)
qed

lemma demo_verified:
  "ed_verify demo_endpoints ''shop-token'' = Some (ann_payload ''shop'')"
  "ed_verify demo_endpoints ''game-token'' = Some (ann_payload ''game'')"
  by (simp_all add: demo_endpoints_def demo_verify_def)

lemma consent_code:
  "\<exists>d'. createCode demo_endpoints demo_rq demo_en None (Some ''game-token'') consent_code_input demo_db = (Inr ''second'', d')"
proof -
  let ?r = "createCode demo_endpoints demo_rq demo_en None (Some ''game-token'') consent_code_input demo_db"
  have "fst ?r = Inr ''second''" by code_simp
  then show ?thesis by (metis prod.collapse)
qed

theorem created_code_is_bound_witness:
  "\<exists>d' row. createCode demo_endpoints demo_rq demo_en None (Some ''game-token'') consent_code_input demo_db = (Inr ''second'', d')
     \<and> auth_codes d' = auth_codes demo_db @ [row] \<and> ac_client row = ''shop''"
proof -
  obtain d' where c: "createCode demo_endpoints demo_rq demo_en None (Some ''game-token'') consent_code_input demo_db = (Inr ''second'', d')"
    using consent_code by blast
  from created_code_is_bound [OF c] c show ?thesis by (auto simp: consent_code_input_def)
qed

theorem token_client_is_ignored_witness:
  "createCode demo_endpoints demo_rq demo_en None (Some ''shop-token'') consent_code_input demo_db
     = createCode demo_endpoints demo_rq demo_en None (Some ''game-token'') consent_code_input demo_db"
  using token_client_is_ignored [OF demo_verified, of "''u1''" demo_rq demo_en None consent_code_input demo_db None empty_cache]
  by (simp add: ann_payload_def)

theorem unranked_acr_is_asserted_witness:
  "\<exists>d' row. createCode demo_endpoints demo_rq demo_en None (Some ''game-token'') consent_code_input demo_db = (Inr ''second'', d')
     \<and> auth_codes d' = auth_codes demo_db @ [row] \<and> ac_acr_values row = Some ''strongest''"
proof -
  obtain d' where c: "createCode demo_endpoints demo_rq demo_en None (Some ''game-token'') consent_code_input demo_db = (Inr ''second'', d')"
    using consent_code by blast
  have "session_amr None = []" "cci_acr_values consent_code_input = Some ''strongest''" by (simp_all add: session_amr_def consent_code_input_def)
  from unranked_acr_is_asserted [OF c this] c show ?thesis by auto
qed

theorem session_swap_keeps_strength_witness:
  "\<exists>a bs' cache'. setSession demo_endpoints demo_rq (Some ''game-token'') None
      (Some \<lparr>bs_id = Some ''sid'', bs_user = Some ''bob'', bs_amr = Some [''hwk''], bs_oauth_params = None\<rparr>) demo_db empty_cache
      = (Inr a, bs', cache') \<and> session_user bs' = Some ''u1'' \<and> isSatisfied (session_amr bs') (Some ''phr'')"
proof -
  let ?b = "\<lparr>bs_id = Some ''sid'', bs_user = Some ''bob'', bs_amr = Some [''hwk''], bs_oauth_params = None\<rparr>"
  let ?r = "setSession demo_endpoints demo_rq (Some ''game-token'') None (Some ?b) demo_db empty_cache"
  have "ok (fst ?r) = Some Established" by code_simp
  then obtain a bs' cache' where r: "?r = (Inr a, bs', cache')" by (cases ?r) (auto simp: ok_Some_iff)
  have "isSatisfied (session_amr (Some ?b)) (Some ''phr'')" by code_simp
  with session_swap_keeps_strength [OF r] r show ?thesis
    by (auto simp: demo_verified ann_payload_def session_user_def)
qed

theorem logout_leaves_nothing_witness:
  "\<exists>out d' cache'. logout demo_endpoints demo_rq (\<lambda>c. c) (\<lambda>_. None) ann_session (demo_db, empty_cache) = (out, None, d', cache')
     \<and> (\<forall>r \<in> set (refresh_tokens d'). rt_user r = ''u1'' \<longrightarrow> \<not> usable 0 r)"
proof -
  obtain out bs' d' cache' where l: "logout demo_endpoints demo_rq (\<lambda>c. c) (\<lambda>_. None) ann_session (demo_db, empty_cache) = (out, bs', d', cache')"
    using prod_cases4 by blast
  have "session_user ann_session = Some ''u1''" "find_user demo_db ''u1'' = Some ann" "us_did ann \<noteq> []"
    by (simp_all add: ann_session_def session_user_def find_user_def demo_db_def ann_def)
  from logout_leaves_nothing [OF l this(1) _ this(2,3), of 0] logout_parts [OF l] l show ?thesis by auto
qed

definition open_app :: client_row where
  "open_app = shop\<lparr>cl_client_id := ''dcr_open'', cl_is_public := True\<rparr>"

theorem public_client_introspects_witness:
  "introspect demo_endpoints demo_rq \<lparr>tq_token = Some ''shop-token'', tq_client = ''dcr_open'', tq_secret = []\<rparr>
     (demo_db\<lparr>clients := [open_app]\<rparr>) = (Inr (active_claims (ann_payload ''shop'')), demo_db\<lparr>clients := [open_app]\<rparr>)"
  using public_client_introspects [of open_app "demo_db\<lparr>clients := [open_app]\<rparr>" demo_endpoints "''shop-token''" "ann_payload ''shop''" demo_rq]
  by (simp add: open_app_def shop_def demo_verified)

end
