(* ===== verification/Browser_Sessions.thy ===== *)
theory Browser_Sessions
  imports Otp Session_Endpoints
begin

text \<open>
  How a sign-in binds a person to the browser: \<open>src/auth/auth.controller.ts\<close>,
  \<open>src/auth/otp/otp.controller.ts\<close> and \<open>src/auth/session/establish-session.ts\<close>, over the documented
  behaviour of express-session: \<open>regenerate\<close> destroys the stored session and puts a new, empty one with
  a new identifier at \<open>req.session\<close>; \<open>save\<close> of a session object stores it under its own identifier.
\<close>

section \<open>The session store\<close>

record cookie_session =
  ck_user :: "string option"
  ck_amr :: "string list option"
  ck_params :: "json option"

definition empty_session :: cookie_session where
  "empty_session = \<lparr>ck_user = None, ck_amr = None, ck_params = None\<rparr>"

text \<open>\<open>req.session\<close> with its identifier, the store, and the identifier in a cookie the handler set.\<close>

record web =
  wb_id :: string
  wb_session :: cookie_session
  wb_store :: "string \<Rightarrow> cookie_session option"
  wb_cookie :: "string option"

definition bind_user :: "string \<Rightarrow> string list \<Rightarrow> cookie_session \<Rightarrow> cookie_session" where
  "bind_user u amr c = c\<lparr>ck_user := Some u, ck_amr := Some amr\<rparr>"

definition regenerate :: "string \<Rightarrow> web \<Rightarrow> web" where
  "regenerate fresh w =
     w\<lparr>wb_store := (wb_store w)(wb_id w := None), wb_id := fresh, wb_session := empty_session\<rparr>"

definition save_as :: "string \<Rightarrow> cookie_session \<Rightarrow> web \<Rightarrow> web" where
  "save_as i c w = w\<lparr>wb_store := (wb_store w)(i := Some c)\<rparr>"

text \<open>The handlers that read \<open>req.session\<close> again after \<open>regenerate\<close>.\<close>

definition rotate_session :: "string \<Rightarrow> string \<Rightarrow> string list \<Rightarrow> web \<Rightarrow> web" where
  "rotate_session fresh u amr w =
     (let w1 = regenerate fresh w; c = bind_user u amr (wb_session w1)
      in (save_as (wb_id w1) c (w1\<lparr>wb_session := c\<rparr>))\<lparr>wb_cookie := Some (wb_id w1)\<rparr>)"

text \<open>\<open>establishSession\<close>: \<open>session\<close> is the object taken before \<open>regenerate\<close>, and keeps its identifier.\<close>

definition establishSession :: "string \<Rightarrow> string \<Rightarrow> string list \<Rightarrow> web \<Rightarrow> web" where
  "establishSession fresh u amr w =
     (let i = wb_id w; c = bind_user u amr (wb_session w); w1 = regenerate fresh w
      in (save_as i c w1)\<lparr>wb_cookie := Some i\<rparr>)"

text \<open>The handlers that write into the session they find.\<close>

definition keep_session :: "string \<Rightarrow> string list \<Rightarrow> web \<Rightarrow> web" where
  "keep_session u amr w = (let c = bind_user u amr (wb_session w) in save_as (wb_id w) c (w\<lparr>wb_session := c\<rparr>))"

section \<open>The endpoints\<close>

definition passwordRegister ::
  "account_deps \<Rightarrow> identity_entropy \<Rightarrow> string \<Rightarrow> string \<Rightarrow> string option \<Rightarrow> db \<times> web \<Rightarrow>
   (error + user_row \<times> signed_token) \<times> db \<times> web"
where
  "passwordRegister A ie email password name st =
     (case registerWithPassword A ie email password name (fst st) of
        (Inl e, d1) \<Rightarrow> (Inl e, d1, snd st)
      | (Inr (u, t), d1) \<Rightarrow> (Inr (u, t), d1, keep_session (us_id u) [''pwd''] (snd st)))"

definition passwordLogin ::
  "login_deps \<Rightarrow> request \<Rightarrow> string \<Rightarrow> string \<Rightarrow> string \<Rightarrow> db \<times> redis \<times> web \<Rightarrow>
   (error + user_row \<times> signed_token) \<times> db \<times> redis \<times> web"
where
  "passwordLogin L rq fresh email password st =
     (case loginWithPassword L rq email password (fst st, fst (snd st)) of
        (Inl e, d1, s1) \<Rightarrow> (Inl e, d1, s1, snd (snd st))
      | (Inr (u, t), d1, s1) \<Rightarrow>
          (Inr (u, t), notifyNewDeviceIfNeeded L rq (us_id u) d1, s1,
           rotate_session fresh (us_id u) [''pwd''] (snd (snd st))))"

definition emailVerify ::
  "login_deps \<Rightarrow> request \<Rightarrow> identity_entropy \<Rightarrow> string \<Rightarrow> string \<Rightarrow> db \<times> web \<Rightarrow>
   (error + magic_answer \<times> signed_token) \<times> db \<times> web"
where
  "emailVerify L rq ie fresh token st =
     (case verifyMagicLink rq ie token (fst st) of
        (Inl e, d1) \<Rightarrow> (Inl e, d1, snd st)
      | (Inr (a, t), d1) \<Rightarrow>
          (Inr (a, t), notifyNewDeviceIfNeeded L rq (us_id (ma_user a)) d1,
           rotate_session fresh (us_id (ma_user a)) [''magic-link''] (snd st)))"

definition passwordReset ::
  "account_deps \<Rightarrow> request \<Rightarrow> string \<Rightarrow> string \<Rightarrow> db \<times> web \<Rightarrow>
   (error + user_row \<times> signed_token \<times> json option) \<times> db \<times> web"
where
  "passwordReset A rq token password st =
     (case resetPassword A rq token password (fst st) of
        (Inl e, d1) \<Rightarrow> (Inl e, d1, snd st)
      | (Inr (u, t), d1) \<Rightarrow> (Inr (u, t), d1, keep_session (us_id u) [''pwd''] (snd st)))"

definition otpVerify ::
  "otp_deps \<Rightarrow> request \<Rightarrow> identity_entropy \<Rightarrow> string \<Rightarrow> string \<Rightarrow> string \<Rightarrow> db \<times> redis \<times> web \<Rightarrow>
   (error + user_row \<times> bool \<times> signed_token) \<times> db \<times> redis \<times> web"
where
  "otpVerify D rq ie fresh email code st =
     (case verifyEmailLoginCode D rq ie email code (fst st, fst (snd st)) of
        (Inl e, d1, s1) \<Rightarrow> (Inl e, d1, s1, snd (snd st))
      | (Inr (u, isNew), d1, s1) \<Rightarrow>
          (Inr (u, isNew, generateTokenForUser u), d1, s1, establishSession fresh (us_id u) [''otp''] (snd (snd st))))"

definition otpMfaRequest ::
  "otp_deps \<Rightarrow> (string \<Rightarrow> json option) \<Rightarrow> request \<Rightarrow> string option \<Rightarrow> string \<Rightarrow> otp_channel \<Rightarrow> string option \<Rightarrow> db \<Rightarrow> redis \<Rightarrow>
   (otp_refusal + otp_message) \<times> redis"
where
  "otpMfaRequest D verify rq bearer code channel phone d s =
     (case current_user_id verify bearer d of
        Inl e \<Rightarrow> (Inl (Refused_With e), s)
      | Inr u \<Rightarrow> requestMfaCode D rq code u channel phone d s)"

definition otpMfaVerify ::
  "otp_deps \<Rightarrow> (string \<Rightarrow> json option) \<Rightarrow> request \<Rightarrow> string option \<Rightarrow> string \<Rightarrow> db \<Rightarrow> redis \<times> web \<Rightarrow>
   (error + unit) \<times> redis \<times> web"
where
  "otpMfaVerify D verify rq bearer code d st =
     (case current_user_id verify bearer d of
        Inl e \<Rightarrow> (Inl e, st)
      | Inr u \<Rightarrow>
          (case verifyMfaCode D rq u code (fst st) of
             (Inl e, s1) \<Rightarrow> (Inl e, s1, snd st)
           | (Inr _, s1) \<Rightarrow>
               (let w = snd st; amr = nullish (ck_amr (wb_session w)) [];
                    c = (wb_session w)\<lparr>ck_amr := Some (if ''otp'' \<in> set amr then amr else amr @ [''otp''])\<rparr>
                in (Inr (), s1, save_as (wb_id w) c (w\<lparr>wb_session := c\<rparr>)))))"

text \<open>The session as the authorization endpoint reads it.\<close>

definition as_browser :: "web \<Rightarrow> browser_session option" where
  "as_browser w = Some \<lparr>bs_id = Some (wb_id w), bs_user = ck_user (wb_session w), bs_amr = ck_amr (wb_session w),
     bs_oauth_params = ck_params (wb_session w)\<rparr>"

section \<open>Who is signed in where\<close>

lemma rotated [simp]:
  "wb_id (rotate_session fresh u amr w) = fresh" "wb_cookie (rotate_session fresh u amr w) = Some fresh"
  "wb_store (rotate_session fresh u amr w) = (wb_store w)(wb_id w := None, fresh := Some (bind_user u amr empty_session))"
  "wb_session (rotate_session fresh u amr w) = bind_user u amr empty_session"
  by (simp_all add: rotate_session_def regenerate_def save_as_def Let_def)

lemma established [simp]:
  "wb_cookie (establishSession fresh u amr w) = Some (wb_id w)"
  "wb_store (establishSession fresh u amr w) = (wb_store w)(wb_id w := Some (bind_user u amr (wb_session w)))"
  by (simp_all add: establishSession_def regenerate_def save_as_def Let_def)

lemma kept [simp]:
  "wb_id (keep_session u amr w) = wb_id w"
  "wb_store (keep_session u amr w) = (wb_store w)(wb_id w := Some (bind_user u amr (wb_session w)))"
  by (simp_all add: keep_session_def save_as_def Let_def)

lemma login_right:
  assumes "loginWithPassword L rq e pw st = (Inr (u, t), st')"
  shows "find_user_email (fst st) e = Some u \<and> \<not> locked_at (rq_now rq) (us_lockout_until u)
    \<and> ln_compare L pw (nullish (us_password_hash u) '''') \<and> t = generateTokenForUser u"
  using assms
  by (auto simp: loginWithPassword_def check_login_def finish_login_def split: option.splits if_splits)

text \<open>C20. A password sign-in starts a new session: the browser gets a new identifier, its session holds exactly
  the person whose password it was, with the method that was used and nothing the old session carried;
  the identifier the browser came with names no session any more, and every other session is as it was.\<close>

theorem login_rotates_session:
  assumes "passwordLogin L rq fresh e pw (d, s, w) = (Inr (u, t), d', s', w')" and "fresh \<noteq> wb_id w"
  shows "find_user_email d e = Some u \<and> ln_compare L pw (nullish (us_password_hash u) '''')
    \<and> wb_cookie w' = Some fresh
    \<and> wb_store w' fresh = Some \<lparr>ck_user = Some (us_id u), ck_amr = Some [''pwd''], ck_params = None\<rparr>
    \<and> wb_store w' (wb_id w) = None \<and> (\<forall>i. i \<notin> {fresh, wb_id w} \<longrightarrow> wb_store w' i = wb_store w i)"
proof -
  from assms(1) obtain st1 where l: "loginWithPassword L rq e pw (d, s) = (Inr (u, t), st1)"
    and w': "w' = rotate_session fresh (us_id u) [''pwd''] w"
    by (auto simp: passwordLogin_def split: prod.splits sum.splits)
  from login_right [OF l] show ?thesis using assms(2) by (simp add: w' bind_user_def empty_session_def)
qed

text \<open>A code sign-in does not: the cookie names the identifier the browser came with, and under that very
  identifier the store now holds the person, together with whatever the session carried before.  Who
  planted the identifier is signed in as the person.\<close>

theorem otp_login_keeps_session_id:
  assumes "otpVerify D rq ie fresh email code (d, s, w) = (Inr (u, isNew, t), d', s', w')"
  shows "wb_cookie w' = Some (wb_id w)
    \<and> (\<exists>c. wb_store w' (wb_id w) = Some c \<and> ck_user c = Some (us_id u) \<and> ck_params c = ck_params (wb_session w))"
proof -
  from assms have "w' = establishSession fresh (us_id u) [''otp''] w"
    by (auto simp: otpVerify_def split: prod.splits sum.splits)
  then show ?thesis by (simp add: bind_user_def)
qed

text \<open>So do registration and password reset: they sign the person in under the identifier they find.\<close>

theorem reset_keeps_session_id:
  assumes "passwordReset A rq token pw (d, w) = (Inr (u, t), d', w')"
  shows "\<exists>c. wb_store w' (wb_id w) = Some c \<and> wb_id w' = wb_id w \<and> ck_user c = Some (us_id u) \<and> ck_amr c = Some [''pwd'']"
proof -
  from assms have "w' = keep_session (us_id u) [''pwd''] w"
    by (auto simp: passwordReset_def split: prod.splits sum.splits)
  then show ?thesis by (simp add: bind_user_def)
qed

section \<open>Second factors\<close>

lemma second_method:
  assumes "a \<in> set amr" and "lower a \<noteq> ''otp''" and "''otp'' \<in> set amr"
  shows "isSatisfied amr (Some ''aal2'')"
proof -
  have "''otp'' = lower ''otp''" by code_simp
  then have "''otp'' \<in> lower ` set amr" using assms(3) by (rule image_eqI)
  then have "{lower a, ''otp''} \<subseteq> set (uniq (map lower amr))" using assms(1) by simp
  then have "card {lower a, ''otp''} \<le> length (uniq (map lower amr))"
    by (meson List.finite_set card_length card_mono le_trans)
  then have "2 \<le> length (uniq (map lower amr))" using assms(2) by simp
  moreover have "requiredRank (Some ''aal2'') = Some 2" by code_simp
  ultimately show ?thesis using assms(1) by (auto simp: isSatisfied_def sessionRank_def)
qed

text \<open>A second factor counts for the session it is typed into, whosever it is: a code of the person of the
  bearer token, who may be anybody, raises the session of the browser, whose person stays; and any
  other method before it, the sign-in link of the same mailbox too, makes it two factors.\<close>

theorem mfa_raises_any_session:
  assumes "otpMfaVerify D verify rq bearer code d (s, w) = (Inr (), s', w')"
  shows "(\<exists>u. current_user_id verify bearer d = Inr u)
    \<and> session_user (as_browser w') = session_user (as_browser w)
    \<and> set (session_amr (as_browser w')) = insert ''otp'' (set (session_amr (as_browser w)))
    \<and> (\<forall>a \<in> set (session_amr (as_browser w)). lower a \<noteq> ''otp'' \<longrightarrow> isSatisfied (session_amr (as_browser w')) (Some ''aal2''))"
proof -
  let ?old = "nullish (ck_amr (wb_session w)) []"
  from assms obtain u where u: "current_user_id verify bearer d = Inr u"
    and w': "wb_session w' = (wb_session w)\<lparr>ck_amr := Some (if ''otp'' \<in> set ?old then ?old else ?old @ [''otp''])\<rparr>"
    by (auto simp: otpMfaVerify_def Let_def save_as_def split: sum.splits prod.splits)
  have "session_amr (as_browser w) = ?old"
    and new: "session_amr (as_browser w') = (if ''otp'' \<in> set ?old then ?old else ?old @ [''otp''])"
    by (simp_all add: session_amr_def as_browser_def w')
  moreover have "isSatisfied (session_amr (as_browser w')) (Some ''aal2'')" if "a \<in> set ?old" "lower a \<noteq> ''otp''" for a
    by (rule second_method [OF _ that(2)]) (use that(1) in \<open>simp_all add: new\<close>)
  moreover have "session_user (as_browser w') = session_user (as_browser w)"
    by (simp add: session_user_def as_browser_def w')
  ultimately show ?thesis using u by auto
qed

text \<open>The witnesses: a browser that came with a planted identifier.\<close>

definition demo_web :: web where
  "demo_web = \<lparr>wb_id = ''planted'', wb_session = empty_session, wb_store = (\<lambda>_. None), wb_cookie = None\<rparr>"

theorem login_rotates_session_witness:
  "\<exists>u t d' s' w'. passwordLogin demo_login (at_time 5) ''fresh'' ''ann@x.io'' ''hunter2'' (demo_db, [], demo_web) = (Inr (u, t), d', s', w')
     \<and> wb_store w' ''planted'' = None \<and> wb_cookie w' = Some ''fresh''"
proof -
  let ?r = "passwordLogin demo_login (at_time 5) ''fresh'' ''ann@x.io'' ''hunter2'' (demo_db, [], demo_web)"
  have "ok (fst ?r) \<noteq> None" by code_simp
  then obtain u t d' s' w' where r: "?r = (Inr (u, t), d', s', w')" by (cases ?r) (auto simp: ok_Some_iff)
  from login_rotates_session [OF r] r show ?thesis by (simp add: demo_web_def)
qed

theorem otp_login_keeps_session_id_witness:
  "\<exists>s u isNew t d' s' w'. snd (requestEmailLoginCode demo_otp (at_time 0) ''123456'' ''ann@x.io'' demo_db []) = s
     \<and> otpVerify demo_otp (at_time 5) demo_identity ''fresh'' ''ann@x.io'' ''123456'' (demo_db, s, demo_web) = (Inr (u, isNew, t), d', s', w')
     \<and> wb_cookie w' = Some ''planted''"
proof -
  let ?s = "snd (requestEmailLoginCode demo_otp (at_time 0) ''123456'' ''ann@x.io'' demo_db [])"
  let ?r = "otpVerify demo_otp (at_time 5) demo_identity ''fresh'' ''ann@x.io'' ''123456'' (demo_db, ?s, demo_web)"
  have "ok (fst ?r) \<noteq> None" by code_simp
  then obtain u isNew t d' s' w' where r: "?r = (Inr (u, isNew, t), d', s', w')" by (cases ?r) (auto simp: ok_Some_iff)
  from otp_login_keeps_session_id [OF r] r show ?thesis by (auto simp: demo_web_def)
qed

theorem reset_keeps_session_id_witness:
  "\<exists>u t d' w'. passwordReset demo_accounts (at_time 10) ''reset'' ''better'' (resetting_db, demo_web) = (Inr (u, t), d', w')
     \<and> wb_id w' = ''planted''"
proof -
  let ?r = "passwordReset demo_accounts (at_time 10) ''reset'' ''better'' (resetting_db, demo_web)"
  have "ok (fst ?r) \<noteq> None" by code_simp
  then obtain u t d' w' where r: "?r = (Inr (u, t), d', w')" by (cases ?r) (auto simp: ok_Some_iff)
  from reset_keeps_session_id [OF r] r show ?thesis by (auto simp: demo_web_def)
qed

definition bob_web :: web where
  "bob_web = demo_web\<lparr>wb_session := \<lparr>ck_user = Some ''bob'', ck_amr = Some [''magic-link''], ck_params = None\<rparr>\<rparr>"

theorem mfa_raises_any_session_witness:
  "\<exists>s s' w'. snd (otpMfaRequest demo_otp demo_verify (at_time 0) (Some ''shop-token'') ''123456'' By_Email None demo_db []) = s
     \<and> otpMfaVerify demo_otp demo_verify (at_time 5) (Some ''shop-token'') ''123456'' demo_db (s, bob_web) = (Inr (), s', w')
     \<and> session_user (as_browser w') = Some ''bob'' \<and> isSatisfied (session_amr (as_browser w')) (Some ''aal2'')"
proof -
  let ?s = "snd (otpMfaRequest demo_otp demo_verify (at_time 0) (Some ''shop-token'') ''123456'' By_Email None demo_db [])"
  let ?r = "otpMfaVerify demo_otp demo_verify (at_time 5) (Some ''shop-token'') ''123456'' demo_db (?s, bob_web)"
  have "ok (fst ?r) = Some ()" by code_simp
  then obtain s' w' where r: "?r = (Inr (), s', w')" by (cases ?r) (auto simp: ok_Some_iff)
  have b: "session_user (as_browser bob_web) = Some ''bob''" "session_amr (as_browser bob_web) = [''magic-link'']"
    by (simp_all add: as_browser_def bob_web_def session_user_def session_amr_def)
  have "lower ''magic-link'' \<noteq> ''otp''" by code_simp
  with mfa_raises_any_session [OF r] r b show ?thesis by auto
qed

end
