(* ===== verification/Own_Account.thy ===== *)
theory Own_Account
  imports Accounts Session "HOL-Library.AList"
begin

text \<open>
  What people do to their own account: \<open>src/identity/identity-account.service.ts\<close>,
  \<open>src/identity/identity-email.service.ts\<close>, \<open>src/identity/pending-email-change.ts\<close> and the endpoints
  \<open>me\<close> and \<open>profile\<close> of \<open>src/identity/identity.controller.ts\<close>.  A pending change of address is kept in
  the metadata column.  The hash of passwords is a parameter, and so are printing and reading a date;
  \<open>createdAt\<close> and \<open>updatedAt\<close> are left out.
\<close>

section \<open>Metadata\<close>

text \<open>\<open>{ ...metadata, k: v }\<close>: a member that is there keeps its place.\<close>

definition spread :: "json option \<Rightarrow> (string \<times> json) list" where
  "spread m = (case m of Some (JObj kvs) \<Rightarrow> kvs | _ \<Rightarrow> [])"

definition with_member :: "string \<Rightarrow> json \<Rightarrow> json option \<Rightarrow> json" where
  "with_member k v m = JObj (AList.update k v (spread m))"

definition omit :: "(string \<times> json) list \<Rightarrow> string list \<Rightarrow> (string \<times> json) list" where
  "omit kvs ks = filter (\<lambda>(k, _). k \<notin> set ks) kvs"

definition set_metadata :: "json \<Rightarrow> user_row \<Rightarrow> user_row" where
  "set_metadata m u = u\<lparr>us_metadata := Some m\<rparr>"

record own_deps =
  od_config :: config
  od_compare :: "string \<Rightarrow> string \<Rightarrow> bool"
  od_hash :: "string \<Rightarrow> string"
  od_iso :: "time \<Rightarrow> string"
  od_date :: "string \<Rightarrow> time option"

text \<open>What the code relies on of \<open>toISOString\<close> and \<open>new Date\<close>.\<close>

definition dates_ok :: "own_deps \<Rightarrow> bool" where
  "dates_ok O1 \<longleftrightarrow> (\<forall>t. od_date O1 (od_iso O1 t) = Some t)"

definition password_wrong :: "own_deps \<Rightarrow> user_row \<Rightarrow> string \<Rightarrow> bool" where
  "password_wrong O1 u password \<longleftrightarrow>
     truthy (us_password_hash u) \<and> \<not> od_compare O1 password (nullish (us_password_hash u) '''')"

section \<open>Profile\<close>

text \<open>A member is absent, or null, or a string.\<close>

record profile_update =
  pu_name :: "string option option"
  pu_avatar :: "string option option"
  pu_bio :: "string option option"
  pu_location :: "string option option"
  pu_profession :: "string option option"

definition apply_profile :: "profile_update \<Rightarrow> user_row \<Rightarrow> user_row" where
  "apply_profile p u = u\<lparr>us_name := nullish (pu_name p) (us_name u), us_avatar := nullish (pu_avatar p) (us_avatar u),
     us_bio := nullish (pu_bio p) (us_bio u), us_location := nullish (pu_location p) (us_location u),
     us_profession := nullish (pu_profession p) (us_profession u)\<rparr>"

definition getIdentityById :: "string \<Rightarrow> db \<Rightarrow> error + user_row" where
  "getIdentityById i d =
     (case find_user d i of None \<Rightarrow> Inl (Not_Found (Msg ''Identity not found'')) | Some u \<Rightarrow> Inr u)"

text \<open>The endpoint answers the row that was written.\<close>

definition updateProfile :: "string \<Rightarrow> profile_update \<Rightarrow> db \<Rightarrow> (error + user_row) \<times> db" where
  "updateProfile i p d =
     (case getIdentityById i d of
        Inl e \<Rightarrow> (Inl e, d)
      | Inr u \<Rightarrow> (Inr (apply_profile p u), update_user i (apply_profile p) d))"

definition readPendingEmailChange :: "own_deps \<Rightarrow> request \<Rightarrow> json option \<Rightarrow> json option" where
  "readPendingEmailChange O1 rq metadata =
     (case Option.bind metadata (\<lambda>m. jget m ''pendingEmailChange'') of
        None \<Rightarrow> None
      | Some p \<Rightarrow>
          (case (jstr (jget p ''newEmail''), jstr (jget p ''expires'')) of
             (Some e, Some x) \<Rightarrow>
               (case od_date O1 x of
                  None \<Rightarrow> None
                | Some t \<Rightarrow> if t < rq_now rq then None
                            else Some (JObj [(''newEmail'', JStr e), (''expiresAt'', JStr (od_iso O1 t))]))
           | _ \<Rightarrow> None))"

definition getMe :: "own_deps \<Rightarrow> request \<Rightarrow> string \<Rightarrow> db \<Rightarrow> error + json" where
  "getMe O1 rq i d =
     (case getIdentityById i d of
        Inl e \<Rightarrow> Inl e
      | Inr u \<Rightarrow> Inr (JObj [(''id'', JStr (us_id u)), (''did'', JStr (us_did u)), (''email'', jopt (us_email u)),
          (''emailVerified'', JBool (us_email_verified u)), (''name'', jopt (us_name u)),
          (''avatarUrl'', jopt (us_avatar u)), (''bio'', jopt (us_bio u)), (''location'', jopt (us_location u)),
          (''profession'', jopt (us_profession u)),
          (''pendingEmailChange'', nullish (readPendingEmailChange O1 rq (us_metadata u)) JNull),
          (''metadata'', nullish (us_metadata u) JNull)]))"

text \<open>No endpoint of the repository calls \<open>updateMetadata\<close>.\<close>

definition updateMetadata :: "string \<Rightarrow> (string \<times> json) list \<Rightarrow> db \<Rightarrow> (error + user_row) \<times> db" where
  "updateMetadata i given d =
     (case getIdentityById i d of
        Inl e \<Rightarrow> (Inl e, d)
      | Inr u \<Rightarrow>
          (let safe = omit given [''isAdmin'', ''roles''];
               m = JObj (fold (\<lambda>(k, v). AList.update k v) safe (spread (us_metadata u)))
           in (Inr (set_metadata m u), update_user i (set_metadata m) d)))"

section \<open>Password\<close>

definition is_upper_ascii :: "char \<Rightarrow> bool" where
  "is_upper_ascii c = (let n = of_char c :: nat in 65 \<le> n \<and> n \<le> 90)"

definition password_policy :: "string \<Rightarrow> error + unit" where
  "password_policy p =
     (if length p < 8 then Inl (Bad_Request (Msg ''Password must be at least 8 characters long''))
      else if \<not> list_ex is_upper_ascii p
      then Inl (Bad_Request (Msg ''Password must contain at least one uppercase letter''))
      else if \<not> list_ex is_digit p
      then Inl (Bad_Request (Msg ''Password must contain at least one number''))
      else Inr ())"

definition changePassword ::
  "own_deps \<Rightarrow> request \<Rightarrow> string \<Rightarrow> string \<Rightarrow> string \<Rightarrow> db \<Rightarrow> (error + unit) \<times> db"
where
  "changePassword O1 rq i current new_password d =
     (case find_user d i of
        None \<Rightarrow> (Inl (Not_Found (Msg ''User not found'')), d)
      | Some u \<Rightarrow>
          if password_wrong O1 u current
          then (Inl (Unauthorized (Msg ''Current password is incorrect'')), d)
          else (case password_policy new_password of
                  Inl e \<Rightarrow> (Inl e, d)
                | Inr _ \<Rightarrow>
                    (let d1 = update_user i (\<lambda>x. x\<lparr>us_password_hash := Some (od_hash O1 new_password)\<rparr>) d
                     in (Inr (), emit (Email ''password-changed'' (nullish (us_email u) '''') (case us_name u of None \<Rightarrow> [] | Some n \<Rightarrow> [n]))
                          (d1\<lparr>refresh_tokens := revoke_user i (rq_now rq) (refresh_tokens d1)\<rparr>)))))"

section \<open>Address\<close>

definition VERIFY_TTL_MS :: int where "VERIFY_TTL_MS = 24 * 60 * 60 * 1000"

definition rp_origin :: "config \<Rightarrow> string" where
  "rp_origin cf = (if truthy (cf_env cf ''RP_ORIGIN'') then nullish (cf_env cf ''RP_ORIGIN'') ''''
     else ''http://localhost:3000'')"

definition pending_change :: "string \<Rightarrow> string \<Rightarrow> string \<Rightarrow> json" where
  "pending_change newEmail token expires =
     JObj [(''newEmail'', JStr newEmail), (''token'', JStr token), (''expires'', JStr expires)]"

definition requestEmailChange ::
  "own_deps \<Rightarrow> request \<Rightarrow> string \<Rightarrow> string \<Rightarrow> string \<Rightarrow> string \<Rightarrow> db \<Rightarrow> (error + unit) \<times> db"
where
  "requestEmailChange O1 rq token i newEmail password d =
     (case find_user d i of
        None \<Rightarrow> (Inl (Not_Found (Msg ''User not found'')), d)
      | Some u \<Rightarrow>
          if password_wrong O1 u password then (Inl (Unauthorized (Msg ''Invalid password'')), d)
          else if find_user_email d newEmail \<noteq> None
          then (Inl (Bad_Request (Msg ''Email is already in use'')), d)
          else (let p = pending_change newEmail token (od_iso O1 (rq_now rq + VERIFY_TTL_MS))
                in (Inr (), emit (Email ''email-change'' newEmail
                      [nullish (us_email u) '''', rp_origin (od_config O1) @ ''/verify-email?token='' @ token @ ''&type=change''])
                     (update_user i (set_metadata (with_member ''pendingEmailChange'' p (us_metadata u))) d))))"

definition js_falsy :: "json \<Rightarrow> bool" where
  "js_falsy j \<longleftrightarrow> j \<in> {JNull, JBool False, JNum 0, JStr ''''}"

definition cancelEmailChange :: "string \<Rightarrow> db \<Rightarrow> (error + unit) \<times> db" where
  "cancelEmailChange i d =
     (case getIdentityById i d of
        Inl e \<Rightarrow> (Inl e, d)
      | Inr u \<Rightarrow>
          if js_falsy (nullish (Option.bind (us_metadata u) (\<lambda>m. jget m ''pendingEmailChange'')) JNull)
          then (Inl (Bad_Request (Msg ''No pending email change'')), d)
          else (Inr (), update_user i (set_metadata (with_member ''pendingEmailChange'' JNull (us_metadata u))) d))"

definition resendEmailVerification :: "own_deps \<Rightarrow> request \<Rightarrow> string \<Rightarrow> string \<Rightarrow> db \<Rightarrow> (error + unit) \<times> db" where
  "resendEmailVerification O1 rq token i d =
     (case getIdentityById i d of
        Inl e \<Rightarrow> (Inl e, d)
      | Inr u \<Rightarrow>
          if us_email_verified u then (Inl (Bad_Request (Msg ''Email is already verified'')), d)
          else (Inr (), emit (Email ''email-verification'' (nullish (us_email u) '''')
                   [rp_origin (od_config O1) @ ''/verify-email?token='' @ token])
                 (update_user i (\<lambda>x. x\<lparr>us_verify_token := Some token,
                    us_verify_expires := Some (rq_now rq + VERIFY_TTL_MS)\<rparr>) d)))"

definition pending_token :: "user_row \<Rightarrow> string option" where
  "pending_token u = jstr (Option.bind (Option.bind (us_metadata u) (\<lambda>m. jget m ''pendingEmailChange'')) (\<lambda>p. jget p ''token''))"

definition pending_of :: "user_row \<Rightarrow> json" where
  "pending_of u = nullish (Option.bind (us_metadata u) (\<lambda>m. jget m ''pendingEmailChange'')) JNull"

text \<open>\<open>update\<close> of the address column: it is unique, and \<open>undefined\<close> leaves it as it is.\<close>

definition change_email :: "user_row \<Rightarrow> json option \<Rightarrow> db \<Rightarrow> (error + unit) \<times> db" where
  "change_email u newEmail d =
     (let verified = (\<lambda>x. set_metadata (with_member ''pendingEmailChange'' JNull (us_metadata u)) (x\<lparr>us_email_verified := True\<rparr>))
      in case newEmail of
           None \<Rightarrow> (Inr (), update_user (us_id u) verified d)
         | Some (JStr e) \<Rightarrow>
             if list_ex (\<lambda>x. us_id x \<noteq> us_id u \<and> us_email x = Some e) (users d) then (Inl Db_Conflict, d)
             else (Inr (), update_user (us_id u) (\<lambda>x. (verified x)\<lparr>us_email := Some e\<rparr>) d)
         | Some JNull \<Rightarrow> (Inr (), update_user (us_id u) (\<lambda>x. (verified x)\<lparr>us_email := None\<rparr>) d)
         | Some _ \<Rightarrow> (Inl (Server_Error ''Invalid value for argument email''), d))"

definition verifyEmail :: "own_deps \<Rightarrow> request \<Rightarrow> string \<Rightarrow> db \<Rightarrow> (error + string) \<times> db" where
  "verifyEmail O1 rq token d =
     (case List.find (\<lambda>u. us_verify_token u = Some token) (users d) of
        Some u \<Rightarrow>
          if (case us_verify_expires u of None \<Rightarrow> False | Some t \<Rightarrow> t < rq_now rq)
          then (Inl (Bad_Request (Msg ''Verification link has expired'')), d)
          else (Inr ''Email verified successfully'',
                update_user (us_id u) (\<lambda>x. x\<lparr>us_email_verified := True, us_verify_token := None,
                  us_verify_expires := None\<rparr>) d)
      | None \<Rightarrow>
          (case List.find (\<lambda>u. pending_token u = Some token) (users d) of
             Some u \<Rightarrow>
               if (case Option.bind (jstr (jget (pending_of u) ''expires'')) (od_date O1) of
                     None \<Rightarrow> False | Some t \<Rightarrow> t < rq_now rq)
               then (Inl (Bad_Request (Msg ''Verification link has expired'')), d)
               else (case change_email u (jget (pending_of u) ''newEmail'') d of
                       (Inl e, d1) \<Rightarrow> (Inl e, d1)
                     | (Inr _, d1) \<Rightarrow> (Inr ''Email changed successfully'', d1))
           | None \<Rightarrow> (Inl (Bad_Request (Msg ''Invalid verification token'')), d)))"

section \<open>Leaving\<close>

definition ACCOUNT_PURGED :: string where
  "ACCOUNT_PURGED = ''https://schemas.openid.net/secevent/risc/event-type/account-purged''"

text \<open>\<open>user.delete\<close>: the relations of the schema that cascade.\<close>

definition delete_user :: "string \<Rightarrow> db \<Rightarrow> db" where
  "delete_user i d =
     d\<lparr>users := delete_many (\<lambda>u. us_id u = i) (users d),
       refresh_tokens := delete_many (\<lambda>r. rt_user r = i) (refresh_tokens d),
       auth_codes := delete_many (\<lambda>c. ac_user c = i) (auth_codes d),
       memberships := delete_many (\<lambda>m. mb_user m = i) (memberships d),
       consents := delete_many (\<lambda>c. cs_user c = i) (consents d),
       agents := delete_many (\<lambda>a. ag_user a = i) (agents d),
       api_keys := delete_many (\<lambda>k. ak_user k = Some i) (api_keys d),
       magic_links := delete_many (\<lambda>m. ml_user m = Some i) (magic_links d),
       known_devices := delete_many (\<lambda>x. fst x = i) (known_devices d),
       passkeys := delete_many (\<lambda>p. pk_user p = i) (passkeys d),
       linked_wallets := delete_many (\<lambda>w. wl_user w = i) (linked_wallets d),
       oauth_identities := delete_many (\<lambda>x. fi_user x = i) (oauth_identities d)\<rparr>"

definition deleteAccount :: "own_deps \<Rightarrow> string \<Rightarrow> string \<Rightarrow> db \<Rightarrow> (error + unit) \<times> db" where
  "deleteAccount O1 i password d =
     (case find_user d i of
        None \<Rightarrow> (Inl (Not_Found (Msg ''User not found'')), d)
      | Some u \<Rightarrow>
          if password_wrong O1 u password then (Inl (Unauthorized (Msg ''Invalid password'')), d)
          else (let d1 = delete_user i d
                in (Inr (), if us_did u = [] then d1
                            else emit (Ssf_Event ACCOUNT_PURGED (us_did u) None
                                   [(''reason'', JStr ''user_delete'')]) d1)))"

section \<open>Lemmas\<close>

lemma jget_with_member [simp]: "jget (with_member k v m) k' = (if k' = k then Some v else map_of (spread m) k')"
  by (simp add: with_member_def update_conv')

lemma pending_token_set [simp]: "pending_token (set_metadata (with_member ''pendingEmailChange'' p m) u) = jstr (jget p ''token'')"
  by (simp add: pending_token_def set_metadata_def)

lemma set_metadata_simps [simp]:
  "us_id (set_metadata m u) = us_id u" "us_did (set_metadata m u) = us_did u" "us_email (set_metadata m u) = us_email u"
  "us_metadata (set_metadata m u) = Some m" "us_verify_token (set_metadata m u) = us_verify_token u"
  "us_email_verified (set_metadata m u) = us_email_verified u" "us_failed_logins (set_metadata m u) = us_failed_logins u"
  "us_totp_enabled (set_metadata m u) = us_totp_enabled u" "us_totp_secret (set_metadata m u) = us_totp_secret u"
  "us_lockout_until (set_metadata m u) = us_lockout_until u" "us_password_hash (set_metadata m u) = us_password_hash u"
  by (simp_all add: set_metadata_def)

lemma users_update_user [simp]: "users (update_user i f d) = update_many (\<lambda>u. us_id u = i) f (users d)"
  by (simp add: update_user_def)

text \<open>A row found by its identifier, after an update of that row.\<close>

lemma find_user_update:
  assumes "find_user d i = Some u" and "\<And>x. us_id (f x) = us_id x"
  shows "find_user (update_user i f d) i = Some (f u)"
proof -
  have "List.find (\<lambda>u. us_id u = i) t = Some u \<Longrightarrow> List.find (\<lambda>u. us_id u = i) (update_many (\<lambda>u. us_id u = i) f t) = Some (f u)" for t
    by (induction t) (auto simp: assms(2) split: if_splits)
  then show ?thesis using assms(1) by (simp add: find_user_def)
qed

lemma find_user_id: "find_user d i = Some u \<Longrightarrow> us_id u = i"
  by (auto dest: find_userD)

text \<open>What is left of a table when a row is found under a key nobody else has.\<close>

lemma find_unique:
  assumes "u \<in> set t" and "p u" and "\<And>x. x \<in> set t \<Longrightarrow> p x \<Longrightarrow> x = u"
  shows "List.find p t = Some u"
proof (cases "List.find p t")
  case None
  then show ?thesis using find_NoneD [OF None assms(1)] assms(2) by simp
next
  case (Some x)
  then show ?thesis using find_SomeD [OF Some] assms(3) by simp
qed

lemma request_change_okE:
  assumes "requestEmailChange O1 rq token i e pw d = (Inr (), d1)"
  obtains u where "find_user d i = Some u" and "\<not> password_wrong O1 u pw" and "find_user_email d e = None"
    and "users d1 = update_many (\<lambda>x. us_id x = i) (set_metadata (with_member ''pendingEmailChange''
           (pending_change e token (od_iso O1 (rq_now rq + VERIFY_TTL_MS))) (us_metadata u))) (users d)"
    and "find_user d1 i = Some (set_metadata (with_member ''pendingEmailChange''
           (pending_change e token (od_iso O1 (rq_now rq + VERIFY_TTL_MS))) (us_metadata u)) u)"
proof -
  from assms obtain u where u: "find_user d i = Some u" "\<not> password_wrong O1 u pw" "find_user_email d e = None"
    and d1: "d1 = emit (Email ''email-change'' e
       [nullish (us_email u) '''', rp_origin (od_config O1) @ ''/verify-email?token='' @ token @ ''&type=change''])
       (update_user i (set_metadata (with_member ''pendingEmailChange''
         (pending_change e token (od_iso O1 (rq_now rq + VERIFY_TTL_MS))) (us_metadata u))) d)"
    by (auto simp: requestEmailChange_def Let_def split: option.splits if_splits)
  show ?thesis
    by (rule that [OF u]) (simp_all add: d1 find_user_update [OF u(1)])
qed

section \<open>A change of address\<close>

text \<open>A change of address needs no mailbox: the token that proves the new address is mailed to it, and is
  also in the metadata that \<open>GET me\<close> answers, so whoever asked for the change can confirm it from their own session,
  and holds an address marked as verified that nobody read mail at.\<close>

theorem email_change_needs_no_mailbox:
  assumes "requestEmailChange O1 rq token i e pw d = (Inr (), d1)" and "dates_ok O1"
    and "rq_now rq' \<le> rq_now rq + VERIFY_TTL_MS" and "distinct (map us_id (users d))"
    and "\<forall>x \<in> set (users d). us_verify_token x \<noteq> Some token \<and> pending_token x \<noteq> Some token"
  shows "\<exists>me t m d2 v. getMe O1 rq' i d1 = Inr me
    \<and> jget (nullish (jget (nullish (jget me ''metadata'') JNull) ''pendingEmailChange'') JNull) ''token'' = Some (JStr t)
    \<and> verifyEmail O1 rq' t d1 = (Inr m, d2)
    \<and> find_user d2 i = Some v \<and> us_email v = Some e \<and> us_email_verified v"
proof -
  from assms(1) obtain u where u: "find_user d i = Some u" and free: "find_user_email d e = None"
    and users: "users d1 = update_many (\<lambda>x. us_id x = i) (set_metadata (with_member ''pendingEmailChange''
           (pending_change e token (od_iso O1 (rq_now rq + VERIFY_TTL_MS))) (us_metadata u))) (users d)"
    and u1: "find_user d1 i = Some (set_metadata (with_member ''pendingEmailChange''
           (pending_change e token (od_iso O1 (rq_now rq + VERIFY_TTL_MS))) (us_metadata u)) u)"
    by (rule request_change_okE)
  let ?p = "pending_change e token (od_iso O1 (rq_now rq + VERIFY_TTL_MS))"
  let ?u = "set_metadata (with_member ''pendingEmailChange'' ?p (us_metadata u)) u"
  have me: "getMe O1 rq' i d1 = Inr me \<Longrightarrow> jget me ''metadata'' = us_metadata ?u" for me
    using u1 by (auto simp: getMe_def getIdentityById_def)
  obtain me where m: "getMe O1 rq' i d1 = Inr me" using u1 by (simp add: getMe_def getIdentityById_def)
  have noverify: "List.find (\<lambda>x. us_verify_token x = Some token) (users d1) = None"
    using assms(5) unfolding users by (auto simp: find_None_iff elim!: update_manyE split: if_splits)
  have mem: "?u \<in> set (users d1)" "us_id ?u = i" using find_userD [OF u1] by simp_all
  have ids: "distinct (map us_id (users d1))"
    using assms(4) unfolding users by (simp add: map_update_many)
  have "x = ?u" if "x \<in> set (users d1)" "pending_token x = Some token" for x
  proof -
    have "us_id x = i"
      using that assms(5) unfolding users by (auto elim!: update_manyE split: if_splits)
    then show ?thesis using mem that(1) ids by (metis (no_types, lifting) distinct_map inj_onD)
  qed
  then have find: "List.find (\<lambda>x. pending_token x = Some token) (users d1) = Some ?u"
    by (intro find_unique mem) (simp_all add: pending_change_def)
  have pend: "pending_of ?u = ?p" by (simp add: pending_of_def)
  have exp: "Option.bind (jstr (jget ?p ''expires'')) (od_date O1) = Some (rq_now rq + VERIFY_TTL_MS)"
    using assms(2) by (simp add: pending_change_def dates_ok_def)
  have unused: "\<not> list_ex (\<lambda>x. us_id x \<noteq> us_id ?u \<and> us_email x = Some e) (users d1)"
    using free unfolding users by (auto simp: list_ex_iff find_user_email_def find_None_iff elim!: update_manyE split: if_splits)
  let ?f = "\<lambda>x. (set_metadata (with_member ''pendingEmailChange'' JNull (us_metadata ?u)) (x\<lparr>us_email_verified := True\<rparr>))\<lparr>us_email := Some e\<rparr>"
  have new: "jget ?p ''newEmail'' = Some (JStr e)" by (simp add: pending_change_def)
  have chg: "change_email ?u (Some (JStr e)) d1 = (Inr (), update_user i ?f d1)"
    using unused mem(2) unfolding change_email_def Let_def by simp
  have v: "verifyEmail O1 rq' token d1 = (Inr ''Email changed successfully'', update_user i ?f d1)"
    unfolding verifyEmail_def noverify find option.case pend exp new chg using assms(3) by simp
  have "find_user (update_user i ?f d1) i = Some (?f ?u)" by (rule find_user_update [OF u1]) simp
  moreover have "us_email (?f ?u) = Some e" "us_email_verified (?f ?u)" by simp_all
  ultimately show ?thesis using m me v
    by (intro exI [of _ me] exI [of _ token] exI [of _ "''Email changed successfully''"] exI conjI)
       (auto simp: pending_change_def)
qed

text \<open>\<open>updateMetadata\<close> would let people raise themselves: it drops \<open>isAdmin\<close> and \<open>roles\<close>, while the operator's
  scope also reads \<open>isSuperadmin\<close> and \<open>companyId\<close>.\<close>

lemma updateMetadata_raises_scope:
  assumes "updateMetadata i [(''isSuperadmin'', JBool True)] d = (Inr u, d')"
  shows "resolveUserScope (us_metadata u) = Some Superadmin"
  using assms by (auto simp: updateMetadata_def omit_def resolveUserScope_def Let_def update_conv' split: sum.splits)

section \<open>A change of password\<close>

lemma change_password_okE:
  assumes "changePassword O1 rq i current new d = (Inr (), d')"
  obtains u where "find_user d i = Some u" and "\<not> password_wrong O1 u current" and "password_policy new = Inr ()"
    and "refresh_tokens d' = revoke_user i (rq_now rq) (refresh_tokens d)"
    and "users d' = update_many (\<lambda>x. us_id x = i) (\<lambda>x. x\<lparr>us_password_hash := Some (od_hash O1 new)\<rparr>) (users d)"
  using assms
  by (auto simp: changePassword_def Let_def update_user_def split: option.splits if_splits sum.splits)

lemma revoke_user_others: "rt_user r \<noteq> i \<Longrightarrow> r \<in> set (revoke_user i now t) \<longleftrightarrow> r \<in> set t"
proof -
  assume r: "rt_user r \<noteq> i"
  have o: "r \<in> set (update_many q f t') \<longleftrightarrow> r \<in> set t'"
    if "\<And>x. q x \<Longrightarrow> rt_user x = i" "\<And>x. rt_user (f x) = rt_user x" for q f and t'
    by (rule update_many_outside [where Q = "\<lambda>x. rt_user x \<noteq> i"]) (use r that in auto)
  have "r \<in> set (update_many (keptPairsIn (\<lambda>x. rt_user x = i)) erased_replay
      (update_many (\<lambda>x. rt_user x = i \<and> \<not> rt_revoked x) (mark_revoked now) t))
    \<longleftrightarrow> r \<in> set (update_many (\<lambda>x. rt_user x = i \<and> \<not> rt_revoked x) (mark_revoked now) t)"
    by (rule o) (simp_all add: keptPairsIn_def)
  moreover have "r \<in> set (update_many (\<lambda>x. rt_user x = i \<and> \<not> rt_revoked x) (mark_revoked now) t) \<longleftrightarrow> r \<in> set t"
    by (rule o) simp_all
  ultimately show ?thesis by (simp add: revoke_user_def revoke_where_def)
qed

text \<open>A change of password is made by who knows the old one, if there is one, to one that satisfies the policy, and
  shuts out whoever held a session of an application: every refresh token of the person is dead at any
  time and no pair is kept for a retry, while the tokens and the rows of everybody else are as they were.\<close>

theorem password_change_ends_sessions:
  assumes "changePassword O1 rq i current new d = (Inr (), d')"
  shows "\<exists>u. find_user d i = Some u \<and> (truthy (us_password_hash u) \<longrightarrow> od_compare O1 current (nullish (us_password_hash u) ''''))
    \<and> 8 \<le> length new \<and> (\<exists>c \<in> set new. is_upper_ascii c) \<and> (\<exists>c \<in> set new. is_digit c)
    \<and> find_user d' i = Some (u\<lparr>us_password_hash := Some (od_hash O1 new)\<rparr>)
    \<and> (\<forall>r \<in> set (refresh_tokens d'). \<forall>now. rt_user r = i \<longrightarrow> \<not> usable now r \<and> rt_grace_replay r = None)
    \<and> (\<forall>r. rt_user r \<noteq> i \<longrightarrow> (r \<in> set (refresh_tokens d') \<longleftrightarrow> r \<in> set (refresh_tokens d)))
    \<and> (\<forall>x. us_id x \<noteq> i \<longrightarrow> (x \<in> set (users d') \<longleftrightarrow> x \<in> set (users d)))"
  using assms
proof (rule change_password_okE)
  fix u
  assume u: "find_user d i = Some u" "\<not> password_wrong O1 u current" "password_policy new = Inr ()"
    and rt: "refresh_tokens d' = revoke_user i (rq_now rq) (refresh_tokens d)"
    and us: "users d' = update_many (\<lambda>x. us_id x = i) (\<lambda>x. x\<lparr>us_password_hash := Some (od_hash O1 new)\<rparr>) (users d)"
  have "find_user d' i = Some (u\<lparr>us_password_hash := Some (od_hash O1 new)\<rparr>)"
    using find_user_update [OF u(1), of "\<lambda>x. x\<lparr>us_password_hash := Some (od_hash O1 new)\<rparr>"] us
    by (simp add: find_user_def)
  moreover have "\<forall>x. us_id x \<noteq> i \<longrightarrow> (x \<in> set (users d') \<longleftrightarrow> x \<in> set (users d))"
    unfolding us by (intro allI impI update_many_outside [where Q = "\<lambda>y. us_id y \<noteq> i"]) simp_all
  moreover have "\<forall>r \<in> set (refresh_tokens d'). \<forall>now. rt_user r = i \<longrightarrow> \<not> usable now r \<and> rt_grace_replay r = None"
    unfolding rt using everywhere.nothing_usable everywhere.nothing_kept by (auto simp: user_scope_def)
  ultimately show ?thesis
    using u by (auto simp: rt revoke_user_others password_wrong_def password_policy_def list_ex_iff split: if_splits)
qed

text \<open>The witnesses: Ann's account.\<close>

definition unary :: "time \<Rightarrow> string" where
  "unary t = (if t < 0 then CHR ''-'' # replicate (nat (- t)) CHR ''x'' else replicate (nat t) CHR ''x'')"

definition of_unary :: "string \<Rightarrow> time" where
  "of_unary s = (if prefix ''-'' s then 1 - int (length s) else int (length s))"

definition demo_own :: own_deps where
  "demo_own = \<lparr>od_config = demo_config, od_compare = (\<lambda>pw h. h = ''b:'' @ pw), od_hash = (\<lambda>pw. ''b:'' @ pw),
     od_iso = unary, od_date = (\<lambda>s. Some (of_unary s))\<rparr>"

lemma demo_dates_ok: "dates_ok demo_own"
proof -
  have "\<not> prefix ''-'' (replicate n CHR ''x'')" for n by (cases n) simp_all
  then show ?thesis by (simp add: dates_ok_def demo_own_def unary_def of_unary_def)
qed

theorem password_change_ends_sessions_witness:
  "\<exists>d'. changePassword demo_own demo_rq ''u1'' ''hunter2'' ''Better42'' demo_db = (Inr (), d')
     \<and> (\<forall>r \<in> set (refresh_tokens d'). rt_user r = ''u1'' \<longrightarrow> \<not> usable 0 r)"
proof -
  let ?r = "changePassword demo_own demo_rq ''u1'' ''hunter2'' ''Better42'' demo_db"
  have "ok (fst ?r) = Some ()" by code_simp
  then obtain d' where r: "?r = (Inr (), d')" by (cases ?r) (auto simp: ok_Some_iff)
  from password_change_ends_sessions [OF r] r show ?thesis by blast
qed

theorem email_change_needs_no_mailbox_witness:
  "\<exists>d1 me m d2 v. requestEmailChange demo_own (at_time 0) ''mailed'' ''u1'' ''boss@y.io'' ''hunter2'' demo_db = (Inr (), d1)
     \<and> getMe demo_own (at_time 9) ''u1'' d1 = Inr me
     \<and> jget (nullish (jget (nullish (jget me ''metadata'') JNull) ''pendingEmailChange'') JNull) ''token'' = Some (JStr m)
     \<and> (\<exists>r. verifyEmail demo_own (at_time 9) m d1 = (Inr r, d2))
     \<and> find_user d2 ''u1'' = Some v \<and> us_email v = Some ''boss@y.io'' \<and> us_email_verified v"
proof -
  have "find_user demo_db ''u1'' = Some ann" "find_user_email demo_db ''boss@y.io'' = None"
    "us_password_hash ann = Some ''b:hunter2''" "users demo_db = [ann]" "us_metadata ann = None" "us_verify_token ann = None"
    by (simp_all add: find_user_def find_user_email_def demo_db_def ann_def)
  note f = this
  obtain d1 where r: "requestEmailChange demo_own (at_time 0) ''mailed'' ''u1'' ''boss@y.io'' ''hunter2'' demo_db = (Inr (), d1)"
    by (auto simp: requestEmailChange_def f password_wrong_def demo_own_def Let_def)
  have "rq_now (at_time 9) \<le> rq_now (at_time 0) + VERIFY_TTL_MS" "distinct (map us_id (users demo_db))"
    "\<forall>x \<in> set (users demo_db). us_verify_token x \<noteq> Some ''mailed'' \<and> pending_token x \<noteq> Some ''mailed''"
    by (simp_all add: at_time_def VERIFY_TTL_MS_def f pending_token_def)
  from email_change_needs_no_mailbox [OF r demo_dates_ok this] r show ?thesis by blast
qed

end
