(* ===== verification/Passkeys.thy ===== *)
theory Passkeys
  imports Browser_Sessions Own_Account
begin

text \<open>
  Signing in with a passkey: \<open>src/auth/passkey.service.ts\<close> and \<open>src/auth/passkey.controller.ts\<close>.  What
  the WebAuthn library checks of a response is a parameter, given exactly what the service gives it: the
  expected challenge, origin and relying party, and the stored key with its counter.
\<close>

section \<open>Keys that are read once\<close>

definition redis_spent :: "string \<Rightarrow> redis \<Rightarrow> bool" where
  "redis_spent k s \<longleftrightarrow> (\<forall>t. redis_get t k s = None)"

lemma redis_spent_get_del [simp]: "redis_spent k (snd (redis_get_del t k s))"
  by (simp add: redis_spent_def redis_get_del_def)

lemma redis_spent_kept: "redis_spent k s \<Longrightarrow> redis_spent k (snd (redis_get_del t k' s))"
  by (cases "k = k'") (simp_all add: redis_spent_def redis_get_del_def redis_get_other)

lemma redis_spent_fst: "redis_spent k s \<Longrightarrow> fst (redis_get_del t k s) = None"
  by (simp add: redis_spent_def redis_get_del_def)

section \<open>Keys that somebody gave out\<close>

text \<open>
  The history of a store, for one family \<open>P\<close> of keys: it began without any of them; an endpoint gives keys out
  (\<open>issue\<close>, whose arguments are listed in order); anything else may happen in between, to these keys as to
  others, as long as it gives none of them a value or a longer life.
\<close>

definition gives_none :: "(string \<Rightarrow> bool) \<Rightarrow> redis \<Rightarrow> redis \<Rightarrow> bool" where
  "gives_none P s s' \<longleftrightarrow> (\<forall>k t v. P k \<and> redis_get t k s' = Some v \<longrightarrow> redis_get t k s = Some v)"

inductive redis_history :: "(string \<Rightarrow> bool) \<Rightarrow> ('e \<Rightarrow> redis \<Rightarrow> redis) \<Rightarrow> 'e list \<Rightarrow> redis \<Rightarrow> bool" for P issue where
  began: "(\<And>k. P k \<Longrightarrow> redis_spent k s) \<Longrightarrow> redis_history P issue [] s"
| issued: "redis_history P issue es s \<Longrightarrow> redis_history P issue (es @ [e]) (issue e s)"
| otherwise: "redis_history P issue es s \<Longrightarrow> gives_none P s s' \<Longrightarrow> redis_history P issue es s'"

lemma gives_none_get_del [simp]: "gives_none P s (snd (redis_get_del t k s))"
proof -
  have "redis_get t' k' s = Some v" if "redis_get t' k' (delete_many (\<lambda>e. ry_key e = k) s) = Some v" for t' k' v
    using that by (cases "k' = k") (simp_all add: redis_get_other)
  then show ?thesis by (simp add: gives_none_def redis_get_del_def)
qed

lemma gives_none_pair: "redis_get_del t k s = (c, s1) \<Longrightarrow> gives_none P s s1"
  using gives_none_get_del [of P s t k] by simp

lemma gives_none_refl [simp]: "gives_none P s s"
  by (simp add: gives_none_def)

lemma gives_none_set: "\<not> P k \<Longrightarrow> gives_none P s (redis_set now k v ttl s)"
  by (auto simp: gives_none_def redis_get_set)

text \<open>What an endpoint that gives keys out promises of every key it leaves in the store, and what follows for a store
  whose history is known: a key that is found was given out.\<close>

locale key_giver =
  fixes P :: "string \<Rightarrow> bool" and issue :: "'e \<Rightarrow> redis \<Rightarrow> redis"
    and given_out :: "'e \<Rightarrow> time \<Rightarrow> string \<Rightarrow> string \<Rightarrow> bool"
  assumes gives: "P k \<Longrightarrow> redis_get t k (issue e s) = Some v \<Longrightarrow> redis_get t k s = Some v \<or> given_out e t k v"
begin

lemma was_given_out:
  assumes "redis_history P issue es s" and "P k" and "redis_get t k s = Some v"
  shows "\<exists>e \<in> set es. given_out e t k v"
  using assms
proof (induction arbitrary: v rule: redis_history.induct)
  case (began s)
  then show ?case by (simp add: redis_spent_def)
next
  case (issued es s e)
  then show ?case using gives [of k t e s v] by auto
next
  case (otherwise es s s')
  then show ?case by (auto simp: gives_none_def)
qed

end

section \<open>The service\<close>

definition CHALLENGE_TTL_SECONDS :: int where "CHALLENGE_TTL_SECONDS = 5 * 60"

definition REGISTRATION_KEY :: "string \<Rightarrow> string" where "REGISTRATION_KEY u = ''webauthn:reg:'' @ u"

definition AUTHENTICATION_KEY :: "string \<Rightarrow> string" where "AUTHENTICATION_KEY c = ''webauthn:auth:'' @ c"

definition TRANSPORTS :: "string list" where
  "TRANSPORTS = [''usb'', ''nfc'', ''ble'', ''internal'', ''hybrid'']"

definition transportsOf :: "json option \<Rightarrow> string list option" where
  "transportsOf stored =
     (let xs = filter (\<lambda>t. t \<in> set TRANSPORTS) (strings_of (nullish (jarr stored) []))
      in if xs = [] then None else Some xs)"

text \<open>A response of the browser: the id, the encoded client data, the transports, and the rest of it.\<close>

record webauthn_response =
  wa_id :: string
  wa_client_data :: string
  wa_transports :: "json option"
  wa_rest :: string

record expected =
  ex_challenge :: string
  ex_origin :: string
  ex_rp :: string

record new_credential =
  nc_id :: string
  nc_key :: string
  nc_counter :: int

record stored_credential =
  sc_id :: string
  sc_key :: string
  sc_counter :: int

record assertion_answer =
  aa_verified :: bool
  aa_counter :: int
  aa_user_verified :: bool

text \<open>
  \<open>pd_text\<close> decodes base64url.  The library's verifiers answer none where they throw; a registration answer
  has no credential when it is not verified.
\<close>

record passkey_deps =
  pd_prims :: prims
  pd_config :: config
  pd_login :: login_deps
  pd_text :: "string \<Rightarrow> string"
  pd_register :: "webauthn_response \<Rightarrow> expected \<Rightarrow> (bool \<times> new_credential option) option"
  pd_assert :: "webauthn_response \<Rightarrow> expected \<Rightarrow> stored_credential \<Rightarrow> assertion_answer option"

definition rp_id :: "config \<Rightarrow> string" where
  "rp_id cf = nullish (cf_env cf ''RP_ID'') ''localhost''"

definition rp_origin_of :: "config \<Rightarrow> string" where
  "rp_origin_of cf = nullish (cf_env cf ''RP_ORIGIN'') ''http://localhost:3000''"

definition attestation_type :: "config \<Rightarrow> string" where
  "attestation_type cf =
     (let configured = lower (nullish (cf_env cf ''WEBAUTHN_ATTESTATION_TYPE'') ''direct'');
          n = (if configured = ''indirect'' then ''direct'' else configured)
      in if n \<in> {''none'', ''direct'', ''enterprise''} then n else ''direct'')"

definition extractChallengeFromResponse :: "passkey_deps \<Rightarrow> webauthn_response \<Rightarrow> error + string" where
  "extractChallengeFromResponse W r =
     (case Option.bind (p_json_parse (pd_prims W) (pd_text W (wa_client_data r))) (\<lambda>j. jget j ''challenge'') of
        Some (JStr c) \<Rightarrow> if c = [] then Inl (Bad_Request (Msg ''Malformed WebAuthn response'')) else Inr c
      | _ \<Rightarrow> Inl (Bad_Request (Msg ''Malformed WebAuthn response'')))"

definition expect :: "passkey_deps \<Rightarrow> string \<Rightarrow> expected" where
  "expect W c = \<lparr>ex_challenge = c, ex_origin = rp_origin_of (pd_config W), ex_rp = rp_id (pd_config W)\<rparr>"

text \<open>What the options for a registration name, beside what is fixed: who, and what to leave out.\<close>

record creation_options =
  co_rp :: string
  co_user :: string
  co_user_name :: string
  co_display :: string
  co_attestation :: string
  co_exclude :: "(string \<times> string list option) list option"
  co_challenge :: string

definition passkeys_of :: "db \<Rightarrow> string \<Rightarrow> passkey_row list" where
  "passkeys_of d u = filter (\<lambda>p. pk_user p = u) (passkeys d)"

definition generateRegistrationOptions ::
  "passkey_deps \<Rightarrow> request \<Rightarrow> string \<Rightarrow> string \<Rightarrow> db \<times> redis \<Rightarrow> (error + creation_options) \<times> redis"
where
  "generateRegistrationOptions W rq challenge userId st =
     (case find_user (fst st) userId of
        None \<Rightarrow> (Inl (Bad_Request (Msg ''User not found'')), snd st)
      | Some u \<Rightarrow>
          (let ps = passkeys_of (fst st) userId;
               email = nullish (us_email u) ''''; name = nullish (us_name u) ''''
           in (Inr \<lparr>co_rp = rp_id (pd_config W), co_user = us_id u,
                 co_user_name = (if email = [] then us_did u else email),
                 co_display = (if name \<noteq> [] then name else if email \<noteq> [] then email else ''User''),
                 co_attestation = attestation_type (pd_config W),
                 co_exclude = (if ps = [] then None else Some (map (\<lambda>p. (pk_credential p, transportsOf (pk_transports p))) ps)),
                 co_challenge = challenge\<rparr>,
               redis_set (rq_now rq) (REGISTRATION_KEY userId) challenge CHALLENGE_TTL_SECONDS (snd st))))"

definition insert_passkey :: "passkey_row \<Rightarrow> db \<Rightarrow> error + db" where
  "insert_passkey p d =
     (if list_ex (\<lambda>x. pk_id x = pk_id p \<or> pk_credential x = pk_credential p) (passkeys d)
      then Inl Db_Conflict else Inr (d\<lparr>passkeys := passkeys d @ [p]\<rparr>))"

definition verifyRegistrationResponse ::
  "passkey_deps \<Rightarrow> request \<Rightarrow> string \<Rightarrow> string \<Rightarrow> webauthn_response \<Rightarrow> db \<times> redis \<Rightarrow> (error + string) \<times> db \<times> redis"
where
  "verifyRegistrationResponse W rq row userId r st =
     (case st of (d, s) \<Rightarrow>
     (case find_user d userId of
        None \<Rightarrow> (Inl (Bad_Request (Msg ''User not found'')), st)
      | Some u \<Rightarrow>
          (case redis_get_del (rq_now rq) (REGISTRATION_KEY userId) s of (c, s1) \<Rightarrow>
             if \<not> truthy c
             then (Inl (Unauthorized (Msg ''Registration challenge expired or not found'')), d, s1)
             else (case pd_register W r (expect W (nullish c '''')) of
                     None \<Rightarrow> (Inl (Server_Error ''verifyRegistrationResponse''), d, s1)
                   | Some (True, Some n) \<Rightarrow>
                       (case insert_passkey \<lparr>pk_id = row, pk_user = userId, pk_credential = nc_id n, pk_public_key = nc_key n,
                           pk_counter = nc_counter n,
                           pk_transports = (if js_truthy (wa_transports r) then wa_transports r else Some (JArr [])),
                           pk_last_used = rq_now rq\<rparr> d of
                          Inl e \<Rightarrow> (Inl e, d, s1) | Inr d1 \<Rightarrow> (Inr row, d1, s1))
                   | _ \<Rightarrow> (Inl (Bad_Request (Msg ''Passkey registration verification failed'')), d, s1)))))"

definition generateAuthenticationOptions ::
  "request \<Rightarrow> string \<Rightarrow> redis \<Rightarrow> string \<times> redis"
where
  "generateAuthenticationOptions rq challenge s =
     (challenge, redis_set (rq_now rq) (AUTHENTICATION_KEY challenge) ''1'' CHALLENGE_TTL_SECONDS s)"

definition find_passkey :: "db \<Rightarrow> string \<Rightarrow> passkey_row option" where
  "find_passkey d c = List.find (\<lambda>p. pk_credential p = c) (passkeys d)"

text \<open>The spelling passkeys had before the fix: base64 with padding.\<close>

definition to_base64 :: "string \<Rightarrow> string" where
  "to_base64 s = map (\<lambda>c. if c = CHR ''-'' then CHR ''+'' else if c = CHR ''_'' then CHR ''/'' else c) s
     @ replicate ((4 - length s mod 4) mod 4) (CHR ''='')"

definition lookup_passkey :: "db \<Rightarrow> string \<Rightarrow> passkey_row option" where
  "lookup_passkey d i = (case find_passkey d i of Some p \<Rightarrow> Some p | None \<Rightarrow> find_passkey d (to_base64 i))"

definition passkey_used :: "request \<Rightarrow> int \<Rightarrow> passkey_row \<Rightarrow> passkey_row" where
  "passkey_used rq n p = p\<lparr>pk_counter := n, pk_last_used := rq_now rq\<rparr>"

text \<open>From the stored challenge on.\<close>

definition check_assertion ::
  "passkey_deps \<Rightarrow> request \<Rightarrow> webauthn_response \<Rightarrow> string \<Rightarrow> db \<Rightarrow> (error + user_row \<times> bool) \<times> db"
where
  "check_assertion W rq r c d =
     (case lookup_passkey d (wa_id r) of
        None \<Rightarrow> (Inl (Bad_Request (Msg ''Passkey not found. You may need to register a new passkey for this account.'')), d)
      | Some p \<Rightarrow>
          (case pd_assert W r (expect W c) \<lparr>sc_id = pk_credential p, sc_key = pk_public_key p, sc_counter = pk_counter p\<rparr> of
             None \<Rightarrow> (Inl (Server_Error ''verifyAuthenticationResponse''), d)
           | Some a \<Rightarrow>
               if \<not> aa_verified a then (Inl (Bad_Request (Msg ''Passkey authentication verification failed'')), d)
               else if 0 < aa_counter a \<and> aa_counter a \<le> pk_counter p
               then (Inl (Bad_Request (Msg ''Authenticator counter did not increase'')), d)
               else (case find_user d (pk_user p) of
                       None \<Rightarrow> (Inl Db_Missing, d)
                     | Some u \<Rightarrow>
                         (Inr (u, aa_user_verified a),
                          d\<lparr>passkeys := update_many (\<lambda>x. pk_id x = pk_id p) (passkey_used rq (aa_counter a)) (passkeys d)\<rparr>))))"

definition verifyAuthenticationResponse ::
  "passkey_deps \<Rightarrow> request \<Rightarrow> webauthn_response \<Rightarrow> db \<times> redis \<Rightarrow> (error + user_row \<times> bool) \<times> db \<times> redis"
where
  "verifyAuthenticationResponse W rq r st =
     (case extractChallengeFromResponse W r of
        Inl e \<Rightarrow> (Inl e, st)
      | Inr c \<Rightarrow>
          (let got = redis_get_del (rq_now rq) (AUTHENTICATION_KEY c) (snd st)
           in if \<not> truthy (fst got)
              then (Inl (Unauthorized (Msg ''Authentication challenge expired, already used, or never issued'')), fst st, snd got)
              else let checked = check_assertion W rq r c (fst st) in (fst checked, snd checked, snd got)))"

definition deletePasskey :: "string \<Rightarrow> string \<Rightarrow> db \<Rightarrow> (error + unit) \<times> db" where
  "deletePasskey userId i d =
     (if List.find (\<lambda>p. pk_id p = i \<and> pk_user p = userId) (passkeys d) = None
      then (Inl (Bad_Request (Msg ''Passkey not found'')), d)
      else (Inr (), d\<lparr>passkeys := delete_many (\<lambda>p. pk_id p = i) (passkeys d)\<rparr>))"

section \<open>The endpoint\<close>

definition passkey_amr :: "bool \<Rightarrow> string list" where
  "passkey_amr userVerified = (if userVerified then [''fido'', ''mfa''] else [''fido''])"

definition verifyAuthentication ::
  "passkey_deps \<Rightarrow> request \<Rightarrow> string \<Rightarrow> webauthn_response \<Rightarrow> db \<times> redis \<times> web \<Rightarrow>
   (error + user_row \<times> signed_token) \<times> db \<times> redis \<times> web"
where
  "verifyAuthentication W rq fresh r st =
     (case verifyAuthenticationResponse W rq r (fst st, fst (snd st)) of
        (Inl e, d1, s1) \<Rightarrow> (Inl e, d1, s1, snd (snd st))
      | (Inr (u, uv), d1, s1) \<Rightarrow>
          (Inr (u, generateTokenForUser u), notifyNewDeviceIfNeeded (pd_login W) rq (us_id u) d1, s1,
           establishSession fresh (us_id u) (passkey_amr uv) (snd (snd st))))"

section \<open>Lemmas\<close>

lemma extracted_nonempty: "extractChallengeFromResponse W r = Inr c \<Longrightarrow> c \<noteq> []"
  by (auto simp: extractChallengeFromResponse_def split: option.splits json.splits if_splits)

lemma lookup_passkeyD: "lookup_passkey d i = Some p \<Longrightarrow> p \<in> set (passkeys d) \<and> (pk_credential p = i \<or> pk_credential p = to_base64 i)"
  by (auto simp: lookup_passkey_def find_passkey_def dest!: find_SomeD split: option.splits)

lemma check_assertion_okE:
  assumes "check_assertion W rq r c d = (Inr (u, uv), d')"
  shows "\<exists>p a. lookup_passkey d (wa_id r) = Some p
    \<and> pd_assert W r (expect W c) \<lparr>sc_id = pk_credential p, sc_key = pk_public_key p, sc_counter = pk_counter p\<rparr> = Some a
    \<and> aa_verified a \<and> aa_user_verified a = uv \<and> (0 < aa_counter a \<longrightarrow> pk_counter p < aa_counter a)
    \<and> find_user d (pk_user p) = Some u
    \<and> d' = d\<lparr>passkeys := update_many (\<lambda>x. pk_id x = pk_id p) (passkey_used rq (aa_counter a)) (passkeys d)\<rparr>"
proof (cases "lookup_passkey d (wa_id r)")
  case (Some p)
  with assms show ?thesis by (auto simp: check_assertion_def split: option.splits if_splits)
qed (use assms in \<open>simp add: check_assertion_def\<close>)

lemma verifyAuthentication_okE:
  assumes "verifyAuthenticationResponse W rq r st = (Inr (u, uv), st')"
  shows "\<exists>c. extractChallengeFromResponse W r = Inr c \<and> truthy (redis_get (rq_now rq) (AUTHENTICATION_KEY c) (snd st))
    \<and> snd st' = snd (redis_get_del (rq_now rq) (AUTHENTICATION_KEY c) (snd st))
    \<and> check_assertion W rq r c (fst st) = (Inr (u, uv), fst st')"
  using assms
  by (cases "check_assertion W rq r (projr (extractChallengeFromResponse W r)) (fst st)")
    (auto simp: verifyAuthenticationResponse_def Let_def redis_get_del_def split: sum.splits if_splits)

text \<open>The challenge is looked up once, whatever becomes of the response.\<close>

lemma verifyAuthentication_redis:
  "snd (snd (verifyAuthenticationResponse W rq r st)) =
     (case extractChallengeFromResponse W r of
        Inl _ \<Rightarrow> snd st | Inr c \<Rightarrow> snd (redis_get_del (rq_now rq) (AUTHENTICATION_KEY c) (snd st)))"
  by (simp add: verifyAuthenticationResponse_def Let_def split: sum.split)

definition response_challenge :: "passkey_deps \<Rightarrow> request \<times> webauthn_response \<Rightarrow> string option" where
  "response_challenge W q = ok (extractChallengeFromResponse W (snd q))"

definition passkey_claim ::
  "passkey_deps \<Rightarrow> request \<times> webauthn_response \<Rightarrow> db \<times> redis \<Rightarrow> (user_row \<times> bool) option \<times> db \<times> redis"
where
  "passkey_claim W q st =
     (case verifyAuthenticationResponse W (fst q) (snd q) st of (r, st1) \<Rightarrow> (ok r, st1))"

definition challenge_spent :: "string option \<Rightarrow> db \<times> redis \<Rightarrow> bool" where
  "challenge_spent k st \<longleftrightarrow> (case k of None \<Rightarrow> True | Some c \<Rightarrow> redis_spent (AUTHENTICATION_KEY c) (snd st))"

lemma passkey_claim_win:
  assumes "passkey_claim W q st = (Some r, st')"
  shows "\<exists>c. response_challenge W q = Some c \<and> truthy (redis_get (rq_now (fst q)) (AUTHENTICATION_KEY c) (snd st))
    \<and> redis_spent (AUTHENTICATION_KEY c) (snd st')"
proof -
  obtain u uv where "r = (u, uv)" by (cases r)
  with assms have "verifyAuthenticationResponse W (fst q) (snd q) st = (Inr (u, uv), st')"
    by (auto simp: passkey_claim_def ok_Some_iff split: prod.splits)
  from verifyAuthentication_okE [OF this] show ?thesis by (auto simp: response_challenge_def)
qed

interpretation passkey: single_use "passkey_claim W" "response_challenge W" challenge_spent "\<lambda>_. True"
proof
  show "challenge_spent (response_challenge W q) st'" if "passkey_claim W q st = (Some r, st')" for q st r st'
    using passkey_claim_win [OF that] by (auto simp: challenge_spent_def)
  show "fst (passkey_claim W q st) = None" if sp: "challenge_spent (response_challenge W q) st" for q st
  proof (rule ccontr)
    assume "fst (passkey_claim W q st) \<noteq> None"
    then obtain r st' where "passkey_claim W q st = (Some r, st')" by (cases "passkey_claim W q st") auto
    from passkey_claim_win [OF this] sp show False by (auto simp: challenge_spent_def redis_spent_def)
  qed
  show "challenge_spent k (snd (passkey_claim W q st))" if sp: "challenge_spent k st" for k q st
  proof -
    have "snd (snd (passkey_claim W q st)) = snd (snd (verifyAuthenticationResponse W (fst q) (snd q) st))"
      by (simp add: passkey_claim_def split: prod.split)
    with sp show ?thesis
      by (auto simp: challenge_spent_def verifyAuthentication_redis redis_spent_kept split: option.splits sum.splits)
  qed
qed simp_all

text \<open>A challenge signs in at most one of any number of responses that carry it, in any order and for any of the
  keys: a recorded response is worth nothing.\<close>

theorem passkey_response_once:
  "wins (response_challenge W) k qs (fst (run_requests (passkey_claim W) qs st)) \<le> 1"
  by (rule passkey.at_most_one_win) simp

section \<open>Where a challenge comes from\<close>

definition challenge_name :: "string \<Rightarrow> bool" where
  "challenge_name k \<longleftrightarrow> (\<exists>c. k = AUTHENTICATION_KEY c)"

definition challenge_issue :: "request \<times> string \<Rightarrow> redis \<Rightarrow> redis" where
  "challenge_issue e s = snd (generateAuthenticationOptions (fst e) (snd e) s)"

interpretation challenge: key_giver challenge_name challenge_issue
  "\<lambda>e t k _. k = AUTHENTICATION_KEY (snd e) \<and> t < rq_now (fst e) + 300 * 1000"
  by unfold_locales
    (auto simp: challenge_issue_def generateAuthenticationOptions_def redis_get_set CHALLENGE_TTL_SECONDS_def split: if_splits)

text \<open>No other operation of the service gives a challenge of this kind out.\<close>

lemma registration_gives_none: "gives_none challenge_name s (snd (generateRegistrationOptions W rq c userId (d, s)))"
  by (auto simp: generateRegistrationOptions_def Let_def challenge_name_def AUTHENTICATION_KEY_def REGISTRATION_KEY_def
      intro!: gives_none_set split: option.split)

lemma registered_gives_none: "gives_none P (snd st) (snd (snd (verifyRegistrationResponse W rq row userId r st)))"
  by (cases st) (auto simp: verifyRegistrationResponse_def dest: gives_none_pair split: prod.split option.split sum.split bool.split)

lemma verified_gives_none: "gives_none P (snd st) (snd (snd (verifyAuthenticationResponse W rq r st)))"
  by (simp add: verifyAuthentication_redis split: sum.split)

text \<open>C25. A passkey signs a browser in only as the owner of the key the response names, when the response was verified
  against a challenge that, in the history of the store, the endpoint for the options gave out less than five
  minutes ago and that nobody has used and nobody can use again, against the service's own origin and relying party, and against the stored key and counter; the counter the authenticator reports
  then replaces the stored one, which it exceeds unless it reports none; the session says mfa just when the
  authenticator verified who was holding it.\<close>

theorem passkey_signs_in_owner:
  assumes "redis_history challenge_name challenge_issue es s"
    and signed_in: "verifyAuthentication W rq fresh r (d, s, w) = (Inr (u, t), d', s', w')"
  shows "\<exists>c p a t0. extractChallengeFromResponse W r = Inr c
      \<and> (t0, c) \<in> set es \<and> rq_now rq < rq_now t0 + 300 * 1000
      \<and> truthy (redis_get (rq_now rq) (AUTHENTICATION_KEY c) s) \<and> redis_spent (AUTHENTICATION_KEY c) s'
      \<and> p \<in> set (passkeys d) \<and> (pk_credential p = wa_id r \<or> pk_credential p = to_base64 (wa_id r))
      \<and> pd_assert W r (expect W c) \<lparr>sc_id = pk_credential p, sc_key = pk_public_key p, sc_counter = pk_counter p\<rparr> = Some a
      \<and> aa_verified a \<and> us_id u = pk_user p \<and> u \<in> set (users d)
      \<and> (0 < aa_counter a \<longrightarrow> pk_counter p < aa_counter a)
      \<and> passkeys d' = update_many (\<lambda>x. pk_id x = pk_id p) (passkey_used rq (aa_counter a)) (passkeys d)
      \<and> (\<exists>amr. w' = establishSession fresh (us_id u) amr w \<and> (''mfa'' \<in> set amr \<longleftrightarrow> aa_user_verified a))"
proof -
  from signed_in obtain uv d1 where v: "verifyAuthenticationResponse W rq r (d, s) = (Inr (u, uv), d1, s')"
    and w: "w' = establishSession fresh (us_id u) (passkey_amr uv) w" "d' = notifyNewDeviceIfNeeded (pd_login W) rq (us_id u) d1"
    by (auto simp: verifyAuthentication_def split: sum.splits prod.splits)
  have same: "passkeys d' = passkeys d1"
    by (simp add: w(2) notifyNewDeviceIfNeeded_def emit_def Let_def split: option.split)
  from verifyAuthentication_okE [OF v] obtain c where c: "extractChallengeFromResponse W r = Inr c"
    "truthy (redis_get (rq_now rq) (AUTHENTICATION_KEY c) s)" "s' = snd (redis_get_del (rq_now rq) (AUTHENTICATION_KEY c) s)"
    "check_assertion W rq r c d = (Inr (u, uv), d1)" by auto
  from check_assertion_okE [OF c(4)] obtain p a where f: "lookup_passkey d (wa_id r) = Some p"
    "pd_assert W r (expect W c) \<lparr>sc_id = pk_credential p, sc_key = pk_public_key p, sc_counter = pk_counter p\<rparr> = Some a"
    "aa_verified a" "aa_user_verified a = uv" "0 < aa_counter a \<longrightarrow> pk_counter p < aa_counter a" "find_user d (pk_user p) = Some u"
    "d1 = d\<lparr>passkeys := update_many (\<lambda>x. pk_id x = pk_id p) (passkey_used rq (aa_counter a)) (passkeys d)\<rparr>" by blast
  from c(2) obtain v where g: "redis_get (rq_now rq) (AUTHENTICATION_KEY c) s = Some v" by (auto elim: truthyE)
  obtain t0 where t0: "(t0, c) \<in> set es" "rq_now rq < rq_now t0 + 300 * 1000"
    using challenge.was_given_out [OF assms(1) _ g] by (auto simp: challenge_name_def AUTHENTICATION_KEY_def)
  have "''mfa'' \<in> set (passkey_amr uv) \<longleftrightarrow> aa_user_verified a" using f(4) by (auto simp: passkey_amr_def)
  then show ?thesis using t0 c f lookup_passkeyD [OF f(1)] find_userD [OF f(6)] w(1) same
    by (intro exI [of _ c] exI [of _ p] exI [of _ a] exI [of _ t0]) auto
qed

section \<open>Witness\<close>

definition ann_key :: passkey_row where
  "ann_key = \<lparr>pk_id = ''p1'', pk_user = ''u1'', pk_credential = ''cred'', pk_public_key = ''pub'', pk_counter = 3,
     pk_transports = None, pk_last_used = 0\<rparr>"

definition demo_passkeys :: passkey_deps where
  "demo_passkeys = \<lparr>pd_prims = demo_prims (\<lambda>_. Some (JObj [(''challenge'', JStr ''c'')])), pd_config = demo_config,
     pd_login = demo_login, pd_text = (\<lambda>t. t), pd_register = (\<lambda>_ _. None),
     pd_assert = (\<lambda>_ e k. if ex_challenge e = ''c'' \<and> sc_key k = ''pub''
        then Some \<lparr>aa_verified = True, aa_counter = sc_counter k + 1, aa_user_verified = True\<rparr> else None)\<rparr>"

definition ann_response :: webauthn_response where
  "ann_response = \<lparr>wa_id = ''cred'', wa_client_data = ''data'', wa_transports = None, wa_rest = ''''\<rparr>"

theorem passkey_signs_in_owner_witness:
  "\<exists>u t d' s' w'.
     verifyAuthentication demo_passkeys (at_time 5) ''fresh'' ann_response
       (demo_db\<lparr>passkeys := [ann_key]\<rparr>, snd (generateAuthenticationOptions (at_time 0) ''c'' []), demo_web) = (Inr (u, t), d', s', w')
     \<and> us_id u = ''u1'' \<and> map pk_counter (passkeys d') = [4]"
proof -
  let ?d = "demo_db\<lparr>passkeys := [ann_key]\<rparr>" and ?s = "snd (generateAuthenticationOptions (at_time 0) ''c'' [])"
  have e: "extractChallengeFromResponse demo_passkeys ann_response = Inr ''c''"
    by (simp add: extractChallengeFromResponse_def demo_passkeys_def)
  have l: "lookup_passkey ?d ''cred'' = Some ann_key"
    by (simp add: lookup_passkey_def find_passkey_def ann_key_def)
  have k: "pk_user ann_key = ''u1''" "pk_public_key ann_key = ''pub''" "pk_counter ann_key = 3" "pk_id ann_key = ''p1''"
    by (simp_all add: ann_key_def)
  have u: "find_user ?d ''u1'' = Some ann" by (simp add: find_user_def demo_db_def ann_def)
  have "redis_get (rq_now (at_time 5)) (AUTHENTICATION_KEY ''c'') ?s = Some ''1''"
    by (simp add: generateAuthenticationOptions_def redis_get_set CHALLENGE_TTL_SECONDS_def at_time_def)
  moreover have "wa_id ann_response = ''cred''" by (simp add: ann_response_def)
  moreover have "pd_assert demo_passkeys ann_response (expect demo_passkeys ''c'')
      \<lparr>sc_id = pk_credential ann_key, sc_key = pk_public_key ann_key, sc_counter = pk_counter ann_key\<rparr>
      = Some \<lparr>aa_verified = True, aa_counter = 4, aa_user_verified = True\<rparr>"
    by (simp add: demo_passkeys_def expect_def k)
  ultimately obtain d' s' w' where r: "verifyAuthentication demo_passkeys (at_time 5) ''fresh'' ann_response (?d, ?s, demo_web)
      = (Inr (ann, generateTokenForUser ann), d', s', w')"
    by (simp add: verifyAuthentication_def verifyAuthenticationResponse_def check_assertion_def Let_def redis_get_del_def e l k u)
  have h: "redis_history challenge_name challenge_issue [(at_time 0, ''c'')] ?s"
    using redis_history.issued [OF redis_history.began, of challenge_name "[]" challenge_issue "(at_time 0, ''c'')"]
    by (simp add: redis_spent_def redis_get_def challenge_issue_def)
  from passkey_signs_in_owner [OF h r] obtain p a where f: "p \<in> set (passkeys ?d)"
    "pd_assert demo_passkeys ann_response (expect demo_passkeys ''c'')
      \<lparr>sc_id = pk_credential p, sc_key = pk_public_key p, sc_counter = pk_counter p\<rparr> = Some a"
    "us_id ann = pk_user p"
    "passkeys d' = update_many (\<lambda>x. pk_id x = pk_id p) (passkey_used (at_time 5) (aa_counter a)) (passkeys ?d)"
    by (auto simp: e)
  then have "p = ann_key" "aa_counter a = 4" by (auto simp: demo_passkeys_def expect_def k)
  then have "map pk_counter (passkeys d') = [4]" using f(4) by (simp add: passkey_used_def)
  with r f(3) \<open>p = ann_key\<close> show ?thesis by (auto simp: k)
qed

end
