(* ===== verification/Wallets.thy ===== *)
theory Wallets
  imports Passkeys
begin

text \<open>
  Wallets: signing in with Ethereum (\<open>src/auth/wallet/wallet-auth.service.ts\<close> and its controller), and linking a
  wallet to an account (\<open>linkWallet\<close>, \<open>persistWallet\<close> and \<open>unlinkWallet\<close> of \<open>src/identity/identity.service.ts\<close>).
  The address a signature recovers to is a parameter (none where ethers throws).
\<close>

section \<open>Messages\<close>

definition newline :: string where "newline = [CHR 0x0A]"

definition is_hex :: "char \<Rightarrow> bool" where
  "is_hex c = (let n = of_char c :: nat in 48 \<le> n \<and> n \<le> 57 \<or> 65 \<le> n \<and> n \<le> 70 \<or> 97 \<le> n \<and> n \<le> 102)"

text \<open>\<open>^0x[a-fA-F0-9]{40}$\<close>.\<close>

definition evm_address :: "string \<Rightarrow> bool" where
  "evm_address a \<longleftrightarrow> prefix ''0x'' a \<and> length a = 42 \<and> list_all is_hex (drop 2 a)"

record wallet_deps =
  wd_config :: config
  wd_iso :: "time \<Rightarrow> string"
  wd_recover :: "string \<Rightarrow> string \<Rightarrow> string option"

definition NONCE_TTL_SECONDS :: int where "NONCE_TTL_SECONDS = 300"

definition nonce_key :: "string \<Rightarrow> string" where "nonce_key n = ''siwe:login:'' @ n"

definition buildLoginMessage :: "wallet_deps \<Rightarrow> request \<Rightarrow> string \<Rightarrow> string \<Rightarrow> string" where
  "buildLoginMessage W rq address nonce =
     rp_id (wd_config W) @ '' wants you to sign in with your Ethereum account:'' @ newline
     @ address @ newline @ newline @ ''Sign in to your INITE identity.'' @ newline @ newline
     @ ''URI: '' @ rp_origin_of (wd_config W) @ newline @ ''Version: 1'' @ newline @ ''Chain ID: 1'' @ newline
     @ ''Nonce: '' @ nonce @ newline @ ''Issued At: '' @ wd_iso W (rq_now rq)"

definition generateSiweMessage :: "wallet_deps \<Rightarrow> request \<Rightarrow> string \<Rightarrow> string \<Rightarrow> string \<Rightarrow> string" where
  "generateSiweMessage W rq address did nonce =
     rp_id (wd_config W) @ '' wants you to sign in with your Ethereum account:'' @ newline
     @ address @ newline @ newline @ ''Link this wallet to your INITE identity.'' @ newline @ newline
     @ ''DID: '' @ did @ newline @ ''URI: '' @ rp_origin_of (wd_config W) @ newline
     @ ''Nonce: '' @ nonce @ newline @ ''Issued At: '' @ wd_iso W (rq_now rq)"

text \<open>\<open>message.match(/Nonce: (\S+)/)?.[1]\<close>.\<close>

fun match_nonce :: "string \<Rightarrow> string option" where
  "match_nonce [] = None"
| "match_nonce (c # s) =
     (if prefix ''Nonce: '' (c # s) \<and> takeWhile (\<lambda>x. \<not> is_ws x) (drop 6 s) \<noteq> []
      then Some (takeWhile (\<lambda>x. \<not> is_ws x) (drop 6 s)) else match_nonce s)"

section \<open>Signing in\<close>

definition createSiweChallenge ::
  "wallet_deps \<Rightarrow> request \<Rightarrow> string \<Rightarrow> string \<Rightarrow> redis \<Rightarrow> (error + string \<times> string) \<times> redis"
where
  "createSiweChallenge W rq nonce address s =
     (if \<not> evm_address address then (Inl (Bad_Request (Msg ''Invalid Ethereum address'')), s)
      else (Inr (buildLoginMessage W rq address nonce, nonce),
            redis_set (rq_now rq) (nonce_key nonce) (lower address) NONCE_TTL_SECONDS s))"

definition assertDomain :: "wallet_deps \<Rightarrow> string \<Rightarrow> error + unit" where
  "assertDomain W m =
     (if prefix (rp_id (wd_config W)) m then Inr () else Inl (Unauthorized (Msg ''Domain mismatch'')))"

definition find_wallet :: "db \<Rightarrow> string \<Rightarrow> wallet_row option" where
  "find_wallet d a = List.find (\<lambda>w. wl_address w = a) (linked_wallets d)"

definition insert_wallet :: "wallet_row \<Rightarrow> db \<Rightarrow> error + db" where
  "insert_wallet w d =
     (if list_ex (\<lambda>x. wl_id x = wl_id w \<or> wl_address x = wl_address w) (linked_wallets d)
      then Inl Db_Conflict else Inr (d\<lparr>linked_wallets := linked_wallets d @ [w]\<rparr>))"

record wallet_entropy =
  we_identity :: identity_entropy
  we_row :: string

definition resolveOrCreateWalletUser ::
  "wallet_entropy \<Rightarrow> string \<Rightarrow> string \<Rightarrow> string \<Rightarrow> db \<Rightarrow> (error + user_row \<times> bool) \<times> db"
where
  "resolveOrCreateWalletUser we recovered message signature d =
     (case find_wallet d (lower recovered) of
        Some w \<Rightarrow> (case find_user d (wl_user w) of None \<Rightarrow> (Inl Db_Missing, d) | Some u \<Rightarrow> (Inr (u, False), d))
      | None \<Rightarrow>
          (case createIdentity (we_identity we) None None d of
             Inl e \<Rightarrow> (Inl e, d)
           | Inr (u, d1) \<Rightarrow>
               (case insert_wallet \<lparr>wl_id = we_row we, wl_user = us_id u, wl_address = lower recovered,
                   wl_chain = ''eip155:1'', wl_signature = signature, wl_message = Some message\<rparr> d1 of
                  Inl e \<Rightarrow> (Inl e, d1) | Inr d2 \<Rightarrow> (Inr (u, True), d2))))"

text \<open>What the signature and the stored nonce settle, before the account is looked at: the recovered address.\<close>

definition check_siwe ::
  "wallet_deps \<Rightarrow> request \<Rightarrow> string \<Rightarrow> string \<Rightarrow> redis \<Rightarrow> (error + string) \<times> redis"
where
  "check_siwe W rq message signature s =
     (case wd_recover W message signature of
        None \<Rightarrow> (Inl (Unauthorized (Msg ''Invalid signature'')), s)
      | Some recovered \<Rightarrow>
          (case match_nonce message of
             None \<Rightarrow> (Inl (Bad_Request (Msg ''Missing nonce'')), s)
           | Some n \<Rightarrow>
               (let got = redis_get_del (rq_now rq) (nonce_key n) s
                in if \<not> truthy (fst got)
                   then (Inl (Unauthorized (Msg ''Challenge expired or already used'')), snd got)
                   else if fst got \<noteq> Some (lower recovered)
                   then (Inl (Unauthorized (Msg ''Address mismatch'')), snd got)
                   else (case assertDomain W message of
                           Inl e \<Rightarrow> (Inl e, snd got) | Inr _ \<Rightarrow> (Inr recovered, snd got)))))"

definition verifySiweLogin ::
  "wallet_deps \<Rightarrow> request \<Rightarrow> wallet_entropy \<Rightarrow> string \<Rightarrow> string \<Rightarrow> db \<times> redis \<Rightarrow> (error + user_row \<times> bool) \<times> db \<times> redis"
where
  "verifySiweLogin W rq we message signature st =
     (case check_siwe W rq message signature (snd st) of
        (Inl e, s1) \<Rightarrow> (Inl e, fst st, s1)
      | (Inr recovered, s1) \<Rightarrow>
          (let got = resolveOrCreateWalletUser we recovered message signature (fst st) in (fst got, snd got, s1)))"

definition siweVerify ::
  "wallet_deps \<Rightarrow> request \<Rightarrow> wallet_entropy \<Rightarrow> string \<Rightarrow> string \<Rightarrow> string \<Rightarrow> db \<times> redis \<times> web \<Rightarrow>
   (error + user_row \<times> bool \<times> signed_token) \<times> db \<times> redis \<times> web"
where
  "siweVerify W rq we fresh message signature st =
     (case verifySiweLogin W rq we message signature (fst st, fst (snd st)) of
        (Inl e, d1, s1) \<Rightarrow> (Inl e, d1, s1, snd (snd st))
      | (Inr (u, isNew), d1, s1) \<Rightarrow>
          (Inr (u, isNew, generateTokenForUser u), d1, s1, establishSession fresh (us_id u) [''siwe''] (snd (snd st))))"

section \<open>Linking\<close>

definition persistWallet ::
  "string \<Rightarrow> string \<Rightarrow> string \<Rightarrow> string \<Rightarrow> string \<Rightarrow> string \<Rightarrow> db \<Rightarrow> (error + wallet_row) \<times> db"
where
  "persistWallet row userId address chain message signature d =
     (case find_wallet d address of
        Some w \<Rightarrow> (if wl_user w = userId then Inr w
                   else Inl (Bad_Request (Msg ''Wallet is already linked to another identity'')), d)
      | None \<Rightarrow>
          (let w = \<lparr>wl_id = row, wl_user = userId, wl_address = address, wl_chain = chain, wl_signature = signature, wl_message = Some message\<rparr>
           in case insert_wallet w d of Inl e \<Rightarrow> (Inl e, d) | Inr d1 \<Rightarrow> (Inr w, d1)))"

definition verifySiweSignature :: "wallet_deps \<Rightarrow> string \<Rightarrow> string \<Rightarrow> string \<Rightarrow> bool" where
  "verifySiweSignature W message signature address =
     (case wd_recover W message signature of None \<Rightarrow> False | Some a \<Rightarrow> lower a = lower address)"

definition linkWallet ::
  "wallet_deps \<Rightarrow> string \<Rightarrow> string \<Rightarrow> string \<Rightarrow> string \<Rightarrow> string \<Rightarrow> string \<Rightarrow> db \<Rightarrow> (error + wallet_row) \<times> db"
where
  "linkWallet W row userId address chain message signature d =
     (case getIdentityById userId d of
        Inl e \<Rightarrow> (Inl e, d)
      | Inr _ \<Rightarrow>
          if chain = ''ton'' then (Inl (Bad_Request (Msg ''Link TON wallets via /wallet/ton/link'')), d)
          else if \<not> verifySiweSignature W message signature address
          then (Inl (Bad_Request (Msg ''Invalid wallet signature'')), d)
          else persistWallet row userId (lower address) chain message signature d)"

definition unlinkWallet :: "string \<Rightarrow> string \<Rightarrow> db \<Rightarrow> (error + unit) \<times> db" where
  "unlinkWallet userId i d =
     (if List.find (\<lambda>w. wl_id w = i \<and> wl_user w = userId) (linked_wallets d) = None
      then (Inl (Not_Found (Msg ''Wallet not found or not owned by user'')), d)
      else (Inr (), d\<lparr>linked_wallets := delete_many (\<lambda>w. wl_id w = i) (linked_wallets d)\<rparr>))"

definition getWallets :: "string \<Rightarrow> db \<Rightarrow> wallet_row list" where
  "getWallets userId d = filter (\<lambda>w. wl_user w = userId) (linked_wallets d)"

section \<open>One signature, one sign-in\<close>

lemma check_siwe_okE:
  assumes "check_siwe W rq m sig s = (Inr a, s')"
  shows "\<exists>n. wd_recover W m sig = Some a \<and> match_nonce m = Some n \<and> redis_get (rq_now rq) (nonce_key n) s = Some (lower a)
    \<and> s' = snd (redis_get_del (rq_now rq) (nonce_key n) s) \<and> prefix (rp_id (wd_config W)) m"
  using assms by (auto simp: check_siwe_def assertDomain_def Let_def redis_get_del_def split: option.splits if_splits)

lemma check_siwe_ok:
  assumes "wd_recover W m sig = Some a" "match_nonce m = Some n" "redis_get (rq_now rq) (nonce_key n) s = Some (lower a)"
    "lower a \<noteq> []" "prefix (rp_id (wd_config W)) m"
  shows "check_siwe W rq m sig s = (Inr a, snd (redis_get_del (rq_now rq) (nonce_key n) s))"
  using assms by (simp add: check_siwe_def assertDomain_def Let_def redis_get_del_def)

lemma check_siwe_redis:
  "snd (check_siwe W rq m sig s) = s \<or> (\<exists>n. snd (check_siwe W rq m sig s) = snd (redis_get_del (rq_now rq) (nonce_key n) s))"
  by (auto simp: check_siwe_def Let_def split: option.split sum.split)

definition siwe_claim :: "wallet_deps \<Rightarrow> request \<times> string \<times> string \<Rightarrow> redis \<Rightarrow> string option \<times> redis" where
  "siwe_claim W q s = map_prod ok id (check_siwe W (fst q) (fst (snd q)) (snd (snd q)) s)"

definition nonce_spent :: "string option \<Rightarrow> redis \<Rightarrow> bool" where
  "nonce_spent k s \<longleftrightarrow> (case k of None \<Rightarrow> True | Some n \<Rightarrow> redis_spent (nonce_key n) s)"

lemma siwe_claim_win:
  assumes "siwe_claim W q s = (Some a, s')"
  shows "\<exists>n. match_nonce (fst (snd q)) = Some n \<and> redis_get (rq_now (fst q)) (nonce_key n) s \<noteq> None \<and> redis_spent (nonce_key n) s'"
proof -
  from assms have "check_siwe W (fst q) (fst (snd q)) (snd (snd q)) s = (Inr a, s')"
    by (cases "check_siwe W (fst q) (fst (snd q)) (snd (snd q)) s") (auto simp: siwe_claim_def ok_Some_iff)
  from check_siwe_okE [OF this] show ?thesis by auto
qed

interpretation siwe: single_use "siwe_claim W" "\<lambda>q. match_nonce (fst (snd q))" nonce_spent "\<lambda>_. True"
proof
  show "nonce_spent (match_nonce (fst (snd q))) s'" if "siwe_claim W q s = (Some r, s')" for q s r s'
    using siwe_claim_win [OF that] by (auto simp: nonce_spent_def)
  show "fst (siwe_claim W q s) = None" if sp: "nonce_spent (match_nonce (fst (snd q))) s" for q s
  proof (rule ccontr)
    assume "fst (siwe_claim W q s) \<noteq> None"
    then obtain r s' where "siwe_claim W q s = (Some r, s')" by (cases "siwe_claim W q s") auto
    from siwe_claim_win [OF this] sp show False by (auto simp: nonce_spent_def redis_spent_def)
  qed
  show "nonce_spent k (snd (siwe_claim W q s))" if "nonce_spent k s" for k q s
    using that check_siwe_redis [of W "fst q" "fst (snd q)" "snd (snd q)" s] redis_spent_kept
    by (auto simp: siwe_claim_def nonce_spent_def split: option.splits)
qed simp_all

text \<open>A sign-in message of a wallet signs in at most once, however often and with whatever signatures it is sent.\<close>

theorem siwe_message_once:
  "wins (\<lambda>q. match_nonce (fst (snd q))) k qs (fst (run_requests (siwe_claim W) qs s)) \<le> 1"
  by (rule siwe.at_most_one_win) simp

section \<open>Who a signature signs in\<close>

lemma createIdentity_fresh:
  "createIdentity ie e n d = Inr (u, d1) \<Longrightarrow> u = new_identity ie e n \<and> us_id u \<notin> us_id ` set (users d) \<and> linked_wallets d1 = linked_wallets d"
  by (auto simp: createIdentity_def Let_def insert_user_def list_ex_iff split: sum.splits if_splits)

lemma find_wallet_inserted:
  "insert_wallet w d = Inr d' \<Longrightarrow> find_wallet d' (wl_address w) = Some w"
  by (auto simp: insert_wallet_def find_wallet_def list_ex_iff find_append_None find_None_iff split: if_splits)

text \<open>Where a nonce comes from: the endpoint of the challenge, and no other step of signing in.\<close>

definition nonce_name :: "string \<Rightarrow> bool" where
  "nonce_name k \<longleftrightarrow> (\<exists>n. k = nonce_key n)"

definition nonce_issue :: "wallet_deps \<Rightarrow> request \<times> string \<times> string \<Rightarrow> redis \<Rightarrow> redis" where
  "nonce_issue W e s = snd (createSiweChallenge W (fst e) (fst (snd e)) (snd (snd e)) s)"

interpretation nonce: key_giver nonce_name "nonce_issue W"
  "\<lambda>e t k v. k = nonce_key (fst (snd e)) \<and> v = lower (snd (snd e)) \<and> t < rq_now (fst e) + 300 * 1000"
  by unfold_locales (auto simp: nonce_issue_def createSiweChallenge_def redis_get_set NONCE_TTL_SECONDS_def split: if_splits)

lemma check_siwe_gives_none: "gives_none P s (snd (check_siwe W rq m sig s))"
  using check_siwe_redis [of W rq m sig s] by auto

text \<open>C26. A wallet signs in only with a signature over a message that carries a nonce which, in the history of the
  store, the endpoint of the challenge gave out for that very address (in any letter case) less than five
  minutes ago, and which is then spent: as the account the address is linked to, or as a new one without an
  address of mail, to which the wallet then belongs.  The browser's session is that account's.\<close>

theorem siwe_signs_in_owner:
  assumes "redis_history nonce_name (nonce_issue W) es s"
    and signed_in: "siweVerify W rq we fresh m sig (d, s, b) = (Inr (u, isNew, t), d', s', b')"
  shows "\<exists>a n t0 addr. wd_recover W m sig = Some a \<and> match_nonce m = Some n
      \<and> (t0, n, addr) \<in> set es \<and> lower addr = lower a \<and> rq_now rq < rq_now t0 + 300 * 1000
      \<and> redis_get (rq_now rq) (nonce_key n) s = Some (lower a) \<and> redis_spent (nonce_key n) s'
      \<and> t = generateTokenForUser u \<and> b' = establishSession fresh (us_id u) [''siwe''] b
      \<and> (\<not> isNew \<longrightarrow> d' = d \<and> (\<exists>w. find_wallet d (lower a) = Some w \<and> wl_user w = us_id u))
      \<and> (isNew \<longrightarrow> find_wallet d (lower a) = None \<and> us_id u \<notin> us_id ` set (users d) \<and> us_email u = None
          \<and> (\<exists>w. find_wallet d' (lower a) = Some w \<and> wl_user w = us_id u))"
proof -
  from signed_in have v: "verifySiweLogin W rq we m sig (d, s) = (Inr (u, isNew), d', s')"
    and w: "t = generateTokenForUser u" "b' = establishSession fresh (us_id u) [''siwe''] b"
    by (auto simp: siweVerify_def split: sum.splits prod.splits)
  from v obtain a where c: "check_siwe W rq m sig s = (Inr a, s')"
    and r: "resolveOrCreateWalletUser we a m sig d = (Inr (u, isNew), d')"
    by (auto simp: verifySiweLogin_def Let_def prod_eq_iff split: sum.splits prod.splits)
  from check_siwe_okE [OF c] obtain n where n: "wd_recover W m sig = Some a" "match_nonce m = Some n"
    "redis_get (rq_now rq) (nonce_key n) s = Some (lower a)" "redis_spent (nonce_key n) s'" by auto
  obtain t0 addr where e: "(t0, n, addr) \<in> set es" "lower addr = lower a" "rq_now rq < rq_now t0 + 300 * 1000"
    using nonce.was_given_out [OF assms(1) _ n(3)] by (fastforce simp: nonce_name_def nonce_key_def)
  have "(\<not> isNew \<longrightarrow> d' = d \<and> (\<exists>w. find_wallet d (lower a) = Some w \<and> wl_user w = us_id u))
      \<and> (isNew \<longrightarrow> find_wallet d (lower a) = None \<and> us_id u \<notin> us_id ` set (users d) \<and> us_email u = None
          \<and> (\<exists>w. find_wallet d' (lower a) = Some w \<and> wl_user w = us_id u))"
  proof (cases "find_wallet d (lower a)")
    case (Some w)
    with r have "\<not> isNew" "d' = d" "find_user d (wl_user w) = Some u"
      by (auto simp: resolveOrCreateWalletUser_def split: option.splits)
    with Some find_userD show ?thesis by metis
  next
    case None
    with r obtain d1 where i: "createIdentity (we_identity we) None None d = Inr (u, d1)" and new: "isNew"
      and ins: "insert_wallet \<lparr>wl_id = we_row we, wl_user = us_id u, wl_address = lower a,
                   wl_chain = ''eip155:1'', wl_signature = sig, wl_message = Some m\<rparr> d1 = Inr d'"
      by (auto simp: resolveOrCreateWalletUser_def split: sum.splits)
    have "us_email u = None" using createIdentity_fresh [OF i] by (simp add: new_identity_def)
    with new None createIdentity_fresh [OF i] find_wallet_inserted [OF ins] show ?thesis by auto
  qed
  with n e w show ?thesis by blast
qed

section \<open>The round trip of a challenge\<close>

lemma match_nonce_skip: "CHR ''N'' \<notin> set xs \<Longrightarrow> match_nonce (xs @ s) = match_nonce s"
  by (induction xs) auto

lemma evm_letters: "evm_address a \<Longrightarrow> CHR ''N'' \<notin> set a"
proof -
  assume a: "evm_address a"
  then obtain t where t: "a = ''0x'' @ t" "list_all is_hex t" by (auto simp: evm_address_def prefix_def)
  moreover have "\<not> is_hex (CHR ''N'')" by (simp add: is_hex_def)
  ultimately show ?thesis by (auto simp: list_all_iff)
qed

definition no_N :: "string \<Rightarrow> bool" where "no_N s \<longleftrightarrow> CHR ''N'' \<notin> set s"

lemma match_nonce_read:
  assumes "n \<noteq> []" "\<forall>c \<in> set n. \<not> is_ws c"
  shows "match_nonce (''Nonce: '' @ n @ newline @ rest) = Some n"
proof -
  have w: "is_ws (CHR 0x0A)" by (simp add: is_ws_def)
  have "takeWhile (\<lambda>x. \<not> is_ws x) (n @ newline @ rest) = n"
    using assms(2) by (simp add: newline_def w takeWhile_append2)
  then show ?thesis using assms(1) by simp
qed

lemma nonce_of_message:
  assumes "no_N (rp_id (wd_config W))" "no_N (rp_origin_of (wd_config W))" "evm_address a" "n \<noteq> []" "\<forall>c \<in> set n. \<not> is_ws c"
  shows "match_nonce (buildLoginMessage W rq a n) = Some n"
proof -
  have nl: "CHR ''N'' \<notin> set newline" by (simp add: newline_def)
  have skip: "match_nonce (xs @ s) = match_nonce s" if "no_N xs" for xs s
    using that by (simp add: match_nonce_skip no_N_def)
  have "no_N a" "no_N newline" using evm_letters [OF assms(3)] nl by (simp_all add: no_N_def)
  moreover have "match_nonce (''Sign in to your INITE identity.'' @ s) = match_nonce s" for s by simp
  moreover have "match_nonce ('' wants you to sign in with your Ethereum account:'' @ s) = match_nonce s"
    "match_nonce (''URI: '' @ s) = match_nonce s" "match_nonce (''Version: 1'' @ s) = match_nonce s"
    "match_nonce (''Chain ID: 1'' @ s) = match_nonce s" for s
    by (rule skip, simp add: no_N_def)+
  ultimately show ?thesis
    unfolding buildLoginMessage_def using assms(1,2) by (simp only: skip match_nonce_read [OF assms(4,5)])
qed

text \<open>A challenge that was given out for an address and is signed by its key within five minutes is accepted, and
  signs in the account the wallet is linked to; addresses match in any letter case.\<close>

theorem siwe_round_trip:
  assumes made: "createSiweChallenge W rq n addr s = (Inr (m, n'), s1)"
    and names: "no_N (rp_id (wd_config W))" "no_N (rp_origin_of (wd_config W))" "n \<noteq> []" "\<forall>c \<in> set n. \<not> is_ws c"
    and signed: "wd_recover W m sig = Some a" "lower a = lower addr"
    and soon: "rq_now rq' < rq_now rq + 300 * 1000"
    and linked: "find_wallet d (lower addr) = Some w" "find_user d (wl_user w) = Some u"
  shows "\<exists>s2. siweVerify W rq' we fresh m sig (d, s1, b)
      = (Inr (u, False, generateTokenForUser u), d, s2, establishSession fresh (us_id u) [''siwe''] b)
    \<and> redis_spent (nonce_key n) s2"
proof -
  from made have ev: "evm_address addr" and m: "m = buildLoginMessage W rq addr n"
    and s1: "s1 = redis_set (rq_now rq) (nonce_key n) (lower addr) NONCE_TTL_SECONDS s"
    by (auto simp: createSiweChallenge_def split: if_splits)
  have "length addr = 42" using ev by (simp add: evm_address_def)
  then have "lower a \<noteq> []" using signed(2) by (auto simp: lower_def)
  moreover have "match_nonce m = Some n" unfolding m by (rule nonce_of_message [OF names(1,2) ev names(3,4)])
  moreover have "redis_get (rq_now rq') (nonce_key n) s1 = Some (lower a)"
    using soon by (simp add: s1 redis_get_set NONCE_TTL_SECONDS_def signed(2))
  moreover have "prefix (rp_id (wd_config W)) m" by (simp add: m buildLoginMessage_def)
  ultimately have "check_siwe W rq' m sig s1 = (Inr a, snd (redis_get_del (rq_now rq') (nonce_key n) s1))"
    by (intro check_siwe_ok signed(1))
  then show ?thesis using linked signed(2)
    by (simp add: siweVerify_def verifySiweLogin_def resolveOrCreateWalletUser_def Let_def)
qed

section \<open>What is not checked\<close>

text \<open>The domain of a message is compared with ours as a prefix only.  A page of a domain whose name begins with ours
  may ask for a challenge in the name of its visitor, show it with its own name in the first line, and the
  signature opens the visitor's account here.\<close>

theorem siwe_accepts_longer_domain:
  assumes made: "createSiweChallenge W rq n addr s = (Inr (m, n'), s1)"
    and page: "rp_id (wd_config V) = rp_id (wd_config W) @ ext"
    and names: "no_N (rp_id (wd_config V))" "no_N (rp_origin_of (wd_config V))" "n \<noteq> []" "\<forall>c \<in> set n. \<not> is_ws c"
    and signed: "wd_recover W (buildLoginMessage V rqv addr n) sig = Some a" "lower a = lower addr"
    and soon: "rq_now rq' < rq_now rq + 300 * 1000"
  shows "\<exists>s2. check_siwe W rq' (buildLoginMessage V rqv addr n) sig s1 = (Inr a, s2)"
proof -
  from made have ev: "evm_address addr"
    and s1: "s1 = redis_set (rq_now rq) (nonce_key n) (lower addr) NONCE_TTL_SECONDS s"
    by (auto simp: createSiweChallenge_def split: if_splits)
  have "length addr = 42" using ev by (simp add: evm_address_def)
  then have "lower a \<noteq> []" using signed(2) by (auto simp: lower_def)
  moreover have "match_nonce (buildLoginMessage V rqv addr n) = Some n" by (rule nonce_of_message [OF names(1,2) ev names(3,4)])
  moreover have "redis_get (rq_now rq') (nonce_key n) s1 = Some (lower a)"
    using soon by (simp add: s1 redis_get_set NONCE_TTL_SECONDS_def signed(2))
  moreover have "prefix (rp_id (wd_config W)) (buildLoginMessage V rqv addr n)" by (simp add: buildLoginMessage_def page)
  ultimately show ?thesis using check_siwe_ok signed(1) by blast
qed

text \<open>Any signature of a wallet links it: the message needs no nonce of this service, no name of it and no date.
  Whoever holds one old signature of an address links the address to an account of their own, and from then
  on its owner, signing in with it, lands in that account.\<close>

theorem old_signature_links:
  assumes "wd_recover W m sig = Some a" and "lower a = lower addr" and "chain \<noteq> ''ton''"
    and "find_user d i = Some u" and "find_wallet d (lower addr) = None" and "\<forall>w \<in> set (linked_wallets d). wl_id w \<noteq> row"
  shows "\<exists>w d'. linkWallet W row i addr chain m sig d = (Inr w, d')
    \<and> (\<forall>rq we m2 sig2 s s'. check_siwe W rq m2 sig2 s = (Inr a, s') \<longrightarrow>
         verifySiweLogin W rq we m2 sig2 (d', s) = (Inr (u, False), d', s'))"
proof -
  let ?w = "\<lparr>wl_id = row, wl_user = i, wl_address = lower addr, wl_chain = chain, wl_signature = sig, wl_message = Some m\<rparr>"
  let ?d = "d\<lparr>linked_wallets := linked_wallets d @ [?w]\<rparr>"
  have i: "insert_wallet ?w d = Inr ?d"
    using assms(5,6) by (auto simp: insert_wallet_def list_ex_iff find_wallet_def find_None_iff)
  have "linkWallet W row i addr chain m sig d = (Inr ?w, ?d)"
    using assms i by (simp add: linkWallet_def getIdentityById_def verifySiweSignature_def persistWallet_def Let_def)
  moreover have "find_wallet ?d (lower a) = Some ?w" using find_wallet_inserted [OF i] assms(2) by simp
  moreover have "find_user ?d i = Some u" using assms(4) by (simp add: find_user_def)
  ultimately show ?thesis by (auto simp: verifySiweLogin_def resolveOrCreateWalletUser_def Let_def)
qed

section \<open>Witnesses\<close>

definition ann_address :: string where "ann_address = ''0x'' @ replicate 40 (CHR ''1'')"

definition demo_wallets :: wallet_deps where
  "demo_wallets = \<lparr>wd_config = demo_config, wd_iso = (\<lambda>_. ''now''), wd_recover = (\<lambda>_ _. Some ann_address)\<rparr>"

definition evil_config :: config where
  "evil_config = demo_config\<lparr>cf_env := (\<lambda>k. if k = ''RP_ID'' then Some ''localhost.evil'' else None)\<rparr>"

definition evil_page :: wallet_deps where
  "evil_page = demo_wallets\<lparr>wd_config := evil_config\<rparr>"

definition ann_wallet :: wallet_row where
  "ann_wallet = \<lparr>wl_id = ''w1'', wl_user = ''u1'', wl_address = ann_address, wl_chain = ''eip155:1'', wl_signature = ''sig'', wl_message = None\<rparr>"

definition wallet_db :: db where
  "wallet_db = demo_db\<lparr>linked_wallets := [ann_wallet]\<rparr>"

definition demo_wallet_entropy :: wallet_entropy where
  "demo_wallet_entropy = \<lparr>we_identity = demo_identity, we_row = ''w2''\<rparr>"

lemma ann_address_ok [simp]: "evm_address ann_address" "lower ann_address = ann_address"
  by (simp_all add: ann_address_def evm_address_def is_hex_def lower_def lower_char_def list_all_iff)

lemma demo_wallets_simps [simp]:
  "wd_recover demo_wallets m sig = Some ann_address" "wd_config demo_wallets = demo_config" "wd_config evil_page = evil_config"
  "rp_id demo_config = ''localhost''" "rp_origin_of demo_config = ''http://localhost:3000''"
  "rp_id evil_config = ''localhost'' @ ''.evil''" "rp_origin_of evil_config = ''http://localhost:3000''"
  by (simp_all add: demo_wallets_def evil_page_def rp_id_def rp_origin_of_def evil_config_def demo_config_def)

lemma demo_challenge:
  "createSiweChallenge demo_wallets (at_time 0) ''9f'' ann_address []
     = (Inr (buildLoginMessage demo_wallets (at_time 0) ann_address ''9f'', ''9f''),
        redis_set (rq_now (at_time 0)) (nonce_key ''9f'') ann_address NONCE_TTL_SECONDS [])"
  by (simp add: createSiweChallenge_def)

lemma wallet_db_rows: "find_wallet wallet_db ann_address = Some ann_wallet" "find_user wallet_db (wl_user ann_wallet) = Some ann"
  by (simp_all add: find_wallet_def find_user_def wallet_db_def demo_db_def ann_wallet_def ann_def)

theorem siwe_round_trip_witness:
  "\<exists>s1 s2. snd (createSiweChallenge demo_wallets (at_time 0) ''9f'' ann_address []) = s1
     \<and> siweVerify demo_wallets (at_time 5) demo_wallet_entropy ''fresh'' (buildLoginMessage demo_wallets (at_time 0) ann_address ''9f'') ''sig''
         (wallet_db, s1, demo_web)
       = (Inr (ann, False, generateTokenForUser ann), wallet_db, s2, establishSession ''fresh'' (us_id ann) [''siwe''] demo_web)"
proof -
  have n: "no_N (rp_id (wd_config demo_wallets))" "no_N (rp_origin_of (wd_config demo_wallets))" "''9f'' \<noteq> []"
    "\<forall>c \<in> set ''9f''. \<not> is_ws c" "rq_now (at_time 5) < rq_now (at_time 0) + 300 * 1000"
    by (simp_all add: no_N_def is_ws_def at_time_def)
  have w: "find_wallet wallet_db (lower ann_address) = Some ann_wallet" using wallet_db_rows by simp
  from siwe_round_trip [OF demo_challenge n(1-4) demo_wallets_simps(1) refl n(5) w wallet_db_rows(2)]
  show ?thesis by (simp add: demo_challenge) blast
qed

theorem siwe_accepts_longer_domain_witness:
  "\<exists>s2. check_siwe demo_wallets (at_time 5) (buildLoginMessage evil_page (at_time 1) ann_address ''9f'') ''sig''
      (snd (createSiweChallenge demo_wallets (at_time 0) ''9f'' ann_address [])) = (Inr ann_address, s2)"
proof -
  have n: "no_N (rp_id (wd_config evil_page))" "no_N (rp_origin_of (wd_config evil_page))" "''9f'' \<noteq> []"
    "\<forall>c \<in> set ''9f''. \<not> is_ws c" "rq_now (at_time 5) < rq_now (at_time 0) + 300 * 1000"
    and p: "rp_id (wd_config evil_page) = rp_id (wd_config demo_wallets) @ ''.evil''"
    by (simp_all add: no_N_def is_ws_def at_time_def)
  from siwe_accepts_longer_domain [OF demo_challenge p n(1-4) demo_wallets_simps(1) refl n(5)]
  show ?thesis by (simp add: demo_challenge)
qed

theorem siwe_signs_in_owner_witness:
  "\<exists>m s1 s' b. createSiweChallenge demo_wallets (at_time 0) ''9f'' ann_address [] = (Inr (m, ''9f''), s1)
     \<and> siweVerify demo_wallets (at_time 5) demo_wallet_entropy ''fresh'' m ''sig'' (wallet_db, s1, demo_web)
         = (Inr (ann, False, generateTokenForUser ann), wallet_db, s', b)
     \<and> redis_spent (nonce_key ''9f'') s' \<and> b = establishSession ''fresh'' (us_id ann) [''siwe''] demo_web"
proof -
  let ?m = "buildLoginMessage demo_wallets (at_time 0) ann_address ''9f''"
  let ?s = "snd (createSiweChallenge demo_wallets (at_time 0) ''9f'' ann_address [])"
  have m: "match_nonce ?m = Some ''9f''" by (rule nonce_of_message) (simp_all add: no_N_def is_ws_def)
  moreover have "redis_get (rq_now (at_time 5)) (nonce_key ''9f'') ?s = Some (lower ann_address)"
    unfolding demo_challenge by (simp add: redis_get_set NONCE_TTL_SECONDS_def at_time_def)
  moreover have "lower ann_address \<noteq> []" "prefix (rp_id (wd_config demo_wallets)) ?m"
    by (simp_all add: buildLoginMessage_def) (simp add: ann_address_def)
  ultimately have "check_siwe demo_wallets (at_time 5) ?m ''sig'' ?s = (Inr ann_address, snd (redis_get_del (rq_now (at_time 5)) (nonce_key ''9f'') ?s))"
    by (intro check_siwe_ok) simp_all
  then obtain s' b where v: "siweVerify demo_wallets (at_time 5) demo_wallet_entropy ''fresh'' ?m ''sig'' (wallet_db, ?s, demo_web)
      = (Inr (ann, False, generateTokenForUser ann), wallet_db, s', b)"
    by (simp add: siweVerify_def verifySiweLogin_def resolveOrCreateWalletUser_def wallet_db_rows Let_def)
  have h: "redis_history nonce_name (nonce_issue demo_wallets) [(at_time 0, ''9f'', ann_address)] ?s"
    using redis_history.issued [OF redis_history.began, of nonce_name "[]" "nonce_issue demo_wallets" "(at_time 0, ''9f'', ann_address)"]
    by (simp add: redis_spent_def redis_get_def nonce_issue_def)
  from siwe_signs_in_owner [OF h v] v demo_challenge m show ?thesis by auto
qed

theorem old_signature_links_witness:
  "\<exists>w d'. linkWallet demo_wallets ''w9'' ''u1'' ann_address ''eip155:1'' ''Gm'' ''sig'' demo_db = (Inr w, d')"
proof -
  have "find_user demo_db ''u1'' = Some ann" "find_wallet demo_db (lower ann_address) = None"
    "\<forall>w \<in> set (linked_wallets demo_db). wl_id w \<noteq> ''w9''"
    by (simp_all add: find_user_def find_wallet_def demo_db_def ann_def)
  from old_signature_links [OF demo_wallets_simps(1) refl _ this, of "''eip155:1''" "''Gm''" "''sig''"] show ?thesis by auto
qed

end
