(* ===== verification/Ton.thy ===== *)
theory Ton
  imports Wallets Idempotency
begin

text \<open>
  TON wallets: \<open>src/identity/ton-proof.ts\<close>, the proof down to its bytes, and \<open>src/identity/ton-wallet.service.ts\<close>.
  A byte is a number below 256.  SHA-256, Ed25519, base64 and the parsing of a bag of cells are parameters.
\<close>

type_synonym bytes = "nat list"

section \<open>The proof message\<close>

record raw_address =
  ra_workchain :: int
  ra_hash :: bytes

record ton_proof =
  tp_timestamp :: int
  tp_domain :: string
  tp_signature :: string
  tp_payload :: string

datatype ton_failure =
    Malformed_Address | Malformed_State_Init | Domain_Mismatch | Payload_Mismatch | Expired
  | Address_Key_Mismatch | Bad_Signature

datatype ton_result = Valid | Invalid ton_failure

definition hex_digit_value :: "char \<Rightarrow> nat" where
  "hex_digit_value c = (let n = of_char c in if n \<le> 57 then n - 48 else if n \<le> 70 then n - 55 else n - 87)"

fun hash_bytes :: "string \<Rightarrow> bytes" where
  "hash_bytes (a # b # s) = (16 * hex_digit_value a + hex_digit_value b) # hash_bytes s"
| "hash_bytes _ = []"

definition parseRawAddress :: "string \<Rightarrow> raw_address option" where
  "parseRawAddress address =
     (case split_char (CHR '':'') address of
        w # h # _ \<Rightarrow>
          (case parse_int w of
             None \<Rightarrow> None
           | Some n \<Rightarrow>
               if length h = 64 \<and> list_all is_hex h then Some \<lparr>ra_workchain = n, ra_hash = hash_bytes h\<rparr> else None)
      | _ \<Rightarrow> None)"

text \<open>The low \<open>n\<close> bytes of a number, least significant first.\<close>

definition le_bytes :: "nat \<Rightarrow> nat \<Rightarrow> bytes" where
  "le_bytes n x = map (\<lambda>k. x div 256 ^ k mod 256) [0..<n]"

text \<open>\<open>writeInt32BE\<close>, \<open>writeUInt32LE\<close> and \<open>writeBigUInt64LE\<close>: none where they throw for a number out of range.\<close>

definition int32_be :: "int \<Rightarrow> bytes option" where
  "int32_be w = (if w < - (2 ^ 31) \<or> 2 ^ 31 \<le> w then None else Some (rev (le_bytes 4 (unat (word_of_int w :: 32 word)))))"

definition uint32_le :: "nat \<Rightarrow> bytes option" where
  "uint32_le n = (if 2 ^ 32 \<le> n then None else Some (le_bytes 4 n))"

definition uint64_le :: "int \<Rightarrow> bytes option" where
  "uint64_le t = (if t < 0 \<or> 2 ^ 64 \<le> t then None else Some (le_bytes 8 (nat t)))"

definition PROOF_PREFIX :: string where "PROOF_PREFIX = ''ton-proof-item-v2/''"
definition CONNECT_PREFIX :: string where "CONNECT_PREFIX = ''ton-connect''"
definition ED25519_PUBLIC_KEY_BYTES :: nat where "ED25519_PUBLIC_KEY_BYTES = 32"
definition PUBLIC_KEY_BIT_OFFSETS :: "nat list" where "PUBLIC_KEY_BIT_OFFSETS = [64, 65]"

definition buildProofMessage :: "raw_address \<Rightarrow> ton_proof \<Rightarrow> bytes option" where
  "buildProofMessage a p =
     (let domain = utf8 (tp_domain p)
      in case (int32_be (ra_workchain a), uint32_le (length domain), uint64_le (tp_timestamp p)) of
           (Some w, Some l, Some t) \<Rightarrow>
             Some (utf8 PROOF_PREFIX @ w @ ra_hash a @ l @ domain @ t @ utf8 (tp_payload p))
         | _ \<Rightarrow> None)"

section \<open>Verification\<close>

record ton_cell =
  tc_hash :: bytes
  tc_data :: "bool list option"

record ton_deps =
  td_config :: config
  td_sha256 :: "bytes \<Rightarrow> bytes"
  td_base64 :: "string \<Rightarrow> bytes"
  td_cell :: "string \<Rightarrow> ton_cell option"
  td_ed25519 :: "bytes \<Rightarrow> bytes \<Rightarrow> bytes \<Rightarrow> bool"

definition buildSignedDigest :: "ton_deps \<Rightarrow> bytes \<Rightarrow> bytes" where
  "buildSignedDigest T m = td_sha256 T ([255, 255] @ utf8 CONNECT_PREFIX @ td_sha256 T m)"

definition bits_value :: "bool list \<Rightarrow> nat" where
  "bits_value bs = foldl (\<lambda>n b. 2 * n + (if b then 1 else 0)) 0 bs"

fun bit_bytes :: "nat \<Rightarrow> bool list \<Rightarrow> bytes" where
  "bit_bytes 0 bs = []"
| "bit_bytes (Suc n) bs = bits_value (take 8 bs) # bit_bytes n (drop 8 bs)"

definition publicKeyCandidates :: "ton_cell \<Rightarrow> bytes list" where
  "publicKeyCandidates c =
     (case tc_data c of
        None \<Rightarrow> []
      | Some bits \<Rightarrow>
          concat (map (\<lambda>offset. if length bits < offset + ED25519_PUBLIC_KEY_BYTES * 8 then []
                       else [bit_bytes ED25519_PUBLIC_KEY_BYTES (drop offset bits)]) PUBLIC_KEY_BIT_OFFSETS))"

definition bindKeyToAddress :: "ton_deps \<Rightarrow> string \<Rightarrow> string \<Rightarrow> bytes \<Rightarrow> ton_failure + bytes" where
  "bindKeyToAddress T walletStateInit publicKey addressHash =
     (case td_cell T walletStateInit of
        None \<Rightarrow> Inl Malformed_State_Init
      | Some c \<Rightarrow>
          (let key = td_base64 T publicKey
           in if length key \<noteq> ED25519_PUBLIC_KEY_BYTES then Inl Malformed_State_Init
              else if tc_hash c \<noteq> addressHash then Inl Address_Key_Mismatch
              else if key \<notin> set (publicKeyCandidates c) then Inl Address_Key_Mismatch
              else Inr key))"

record ton_input =
  ti_address :: string
  ti_key :: string
  ti_state_init :: string
  ti_proof :: ton_proof

definition verifyTonProof ::
  "ton_deps \<Rightarrow> request \<Rightarrow> ton_input \<Rightarrow> string \<Rightarrow> string \<Rightarrow> int \<Rightarrow> error + ton_result"
where
  "verifyTonProof T rq i expectedDomain expectedPayload maxAge =
     (let p = ti_proof i; age = rq_now rq div 1000 - tp_timestamp p
      in case parseRawAddress (ti_address i) of
           None \<Rightarrow> Inr (Invalid Malformed_Address)
         | Some a \<Rightarrow>
             if tp_domain p \<noteq> expectedDomain then Inr (Invalid Domain_Mismatch)
             else if tp_payload p \<noteq> expectedPayload then Inr (Invalid Payload_Mismatch)
             else if maxAge < age \<or> age < - maxAge then Inr (Invalid Expired)
             else (case bindKeyToAddress T (ti_state_init i) (ti_key i) (ra_hash a) of
                     Inl f \<Rightarrow> Inr (Invalid f)
                   | Inr key \<Rightarrow>
                       (let sig = td_base64 T (tp_signature p)
                        in if length sig \<noteq> 64 then Inr (Invalid Bad_Signature)
                           else (case buildProofMessage a p of
                                   None \<Rightarrow> Inl (Server_Error ''RangeError'')
                                 | Some m \<Rightarrow> Inr (if td_ed25519 T (buildSignedDigest T m) sig key then Valid else Invalid Bad_Signature)))))"

section \<open>The service\<close>

definition PAYLOAD_TTL_SECONDS :: int where "PAYLOAD_TTL_SECONDS = 300"
definition PROOF_MAX_AGE_SECONDS :: int where "PROOF_MAX_AGE_SECONDS = 300"

definition payload_key :: "string \<Rightarrow> string" where "payload_key u = ''ton:proof:payload:'' @ u"

definition assertTonEnabled :: "ton_deps \<Rightarrow> error + unit" where
  "assertTonEnabled T =
     (if setting_flag (td_config T) ''TON_WALLET_LINKING_ENABLED'' then Inr ()
      else Inl (Bad_Request (Msg ''TON wallet linking is not enabled'')))"

definition issuePayload :: "ton_deps \<Rightarrow> request \<Rightarrow> string \<Rightarrow> string \<Rightarrow> redis \<Rightarrow> (error + string \<times> int) \<times> redis" where
  "issuePayload T rq payload userId s =
     (case assertTonEnabled T of
        Inl e \<Rightarrow> (Inl e, s)
      | Inr _ \<Rightarrow> (Inr (payload, PAYLOAD_TTL_SECONDS), redis_set (rq_now rq) (payload_key userId) payload PAYLOAD_TTL_SECONDS s))"

definition linkWithProof ::
  "ton_deps \<Rightarrow> request \<Rightarrow> string \<Rightarrow> string \<Rightarrow> ton_input \<Rightarrow> db \<times> redis \<Rightarrow> (error + wallet_row) \<times> db \<times> redis"
where
  "linkWithProof T rq row userId i st =
     (case assertTonEnabled T of
        Inl e \<Rightarrow> (Inl e, st)
      | Inr _ \<Rightarrow>
          (case getIdentityById userId (fst st) of
             Inl e \<Rightarrow> (Inl e, st)
           | Inr _ \<Rightarrow>
               (let got = redis_get_del (rq_now rq) (payload_key userId) (snd st); payload = nullish (fst got) ''''
                in if \<not> truthy (fst got)
                   then (Inl (Bad_Request (Msg ''No pending TON proof request'')), fst st, snd got)
                   else (case verifyTonProof T rq i (setting_value (td_config T) ''RP_ID'' ''localhost'') payload PROOF_MAX_AGE_SECONDS of
                           Inl e \<Rightarrow> (Inl e, fst st, snd got)
                         | Inr (Invalid f) \<Rightarrow> (Inl (Bad_Request (Msg ''Invalid TON wallet proof'')), fst st, snd got)
                         | Inr Valid \<Rightarrow>
                             (let linked = persistWallet row userId (ti_address i) ''ton'' payload (tp_signature (ti_proof i)) (fst st)
                              in (fst linked, snd linked, snd got))))))"

section \<open>The message determines what was signed\<close>

lemma le_bytes_length [simp]: "length (le_bytes n x) = n"
  by (simp add: le_bytes_def)

lemma le_bytes_Suc: "le_bytes (Suc n) x = x mod 256 # le_bytes n (x div 256)"
  by (simp add: le_bytes_def upt_conv_Cons map_Suc_upt [symmetric] div_mult2_eq del: upt_Suc)

lemma le_bytes_inject: "x < 256 ^ n \<Longrightarrow> y < 256 ^ n \<Longrightarrow> le_bytes n x = le_bytes n y \<Longrightarrow> x = y"
proof (induction n arbitrary: x y)
  case (Suc n)
  then have "x mod 256 = y mod 256" "le_bytes n (x div 256) = le_bytes n (y div 256)" by (simp_all add: le_bytes_Suc)
  moreover have "x div 256 < 256 ^ n" "y div 256 < 256 ^ n"
    using Suc.prems by (simp_all add: less_mult_imp_div_less mult.commute)
  ultimately show ?case using Suc.IH by (metis div_mult_mod_eq)
qed simp

lemma int32_be_inject: "int32_be v = Some b \<Longrightarrow> int32_be w = Some b \<Longrightarrow> v = w"
proof -
  assume a: "int32_be v = Some b" "int32_be w = Some b"
  then have r: "- (2 ^ 31) \<le> v" "v < 2 ^ 31" "- (2 ^ 31) \<le> w" "w < 2 ^ 31"
    and e: "le_bytes 4 (unat (word_of_int v :: 32 word)) = le_bytes 4 (unat (word_of_int w :: 32 word))"
    by (auto simp: int32_be_def split: if_splits)
  have "unat (x :: 32 word) < 256 ^ 4" for x using unsigned_less [of x, where 'a = nat] by simp
  from le_bytes_inject [OF this this e] have "(word_of_int v :: 32 word) = word_of_int w" by (rule unsigned_word_eqI)
  then have "sint (word_of_int v :: 32 word) = sint (word_of_int w :: 32 word)" by simp
  then show "v = w" using r by (simp add: signed_take_bit_int_eq_self sint_sbintrunc')
qed

lemma int32_be_length: "int32_be v = Some b \<Longrightarrow> length b = 4"
  by (auto simp: int32_be_def split: if_splits)

lemma uint32_le_inject: "uint32_le m = Some b \<Longrightarrow> uint32_le n = Some b \<Longrightarrow> m = n"
  using le_bytes_inject [of m 4 n] by (auto simp: uint32_le_def split: if_splits)

lemma uint64_le_inject:
  assumes "uint64_le t = Some b" "uint64_le u = Some b"
  shows "t = u"
proof -
  from assms have r: "0 \<le> t" "t < 2 ^ 64" "0 \<le> u" "u < 2 ^ 64" and e: "le_bytes 8 (nat t) = le_bytes 8 (nat u)"
    by (auto simp: uint64_le_def split: if_splits)
  then have "nat t < 256 ^ 8" "nat u < 256 ^ 8" by simp_all
  from le_bytes_inject [OF this e] r show ?thesis by simp
qed

lemma same_parts: "m div 64 = n div 64 \<Longrightarrow> m mod 64 = n mod 64 \<Longrightarrow> (m :: nat) = n"
  by (metis div_mult_mod_eq)

lemma utf8_char_inject: "utf8_char c @ xs = utf8_char d @ ys \<Longrightarrow> c = d \<and> xs = ys"
proof -
  assume e: "utf8_char c @ xs = utf8_char d @ ys"
  have b: "(of_char c :: nat) < 256" "(of_char d :: nat) < 256" by simp_all
  have "(of_char c :: nat) = of_char d \<and> xs = ys"
    using e b by (auto simp: utf8_char_def Let_def simp del: of_char_eq_iff intro: same_parts split: if_splits)
  then show ?thesis by simp
qed

lemma utf8_inject: "utf8 s = utf8 t \<Longrightarrow> s = t"
proof (induction s arbitrary: t)
  case Nil
  have "utf8_char c \<noteq> []" for c by (simp add: utf8_char_def Let_def)
  with Nil show ?case by (cases t) (auto simp: utf8_def)
next
  case (Cons c s)
  have ne: "utf8_char c \<noteq> []" by (simp add: utf8_char_def Let_def)
  with Cons.prems obtain d u where t: "t = d # u" by (cases t) (auto simp: utf8_def)
  with Cons.prems utf8_char_inject [of c "utf8 s" d "utf8 u"] Cons.IH [of u] show ?case by (simp add: utf8_def)
qed

lemma hash_bytes_length: "length (hash_bytes s) = length s div 2"
  by (induction s rule: hash_bytes.induct) auto

lemma parseRawAddress_length: "parseRawAddress s = Some a \<Longrightarrow> length (ra_hash a) = 32"
  by (auto simp: parseRawAddress_def hash_bytes_length split: list.splits option.splits if_splits)

lemma buildProofMessage_someE:
  assumes "buildProofMessage a p = Some m"
  obtains w l t where "int32_be (ra_workchain a) = Some w" "uint32_le (length (utf8 (tp_domain p))) = Some l"
    "uint64_le (tp_timestamp p) = Some t"
    "m = utf8 PROOF_PREFIX @ w @ ra_hash a @ l @ utf8 (tp_domain p) @ t @ utf8 (tp_payload p)"
  using assms by (auto simp: buildProofMessage_def Let_def split: option.splits)

text \<open>The bytes a wallet signs determine the account, the domain, the time and the payload: two proofs of different
  contents never have the same message, although two of its parts have no fixed length.\<close>

theorem proof_message_injective:
  assumes "parseRawAddress s = Some a" and "parseRawAddress s' = Some a'"
    and m: "buildProofMessage a p = Some m" and m': "buildProofMessage a' p' = Some m"
  shows "a = a' \<and> tp_domain p = tp_domain p' \<and> tp_timestamp p = tp_timestamp p' \<and> tp_payload p = tp_payload p'"
proof -
  from m obtain w l t where e: "int32_be (ra_workchain a) = Some w" "uint32_le (length (utf8 (tp_domain p))) = Some l"
    "uint64_le (tp_timestamp p) = Some t"
    "m = utf8 PROOF_PREFIX @ w @ ra_hash a @ l @ utf8 (tp_domain p) @ t @ utf8 (tp_payload p)"
    by (rule buildProofMessage_someE)
  from m' obtain w' l' t' where e': "int32_be (ra_workchain a') = Some w'" "uint32_le (length (utf8 (tp_domain p'))) = Some l'"
    "uint64_le (tp_timestamp p') = Some t'"
    "m = utf8 PROOF_PREFIX @ w' @ ra_hash a' @ l' @ utf8 (tp_domain p') @ t' @ utf8 (tp_payload p')"
    by (rule buildProofMessage_someE)
  have len: "length (ra_hash a) = length (ra_hash a')" "length w = length w'" "length l = length l'" "length t = length t'"
    using assms(1,2) e e' by (auto simp: parseRawAddress_length int32_be_length uint32_le_def uint64_le_def split: if_splits)
  have "w = w'" "ra_hash a = ra_hash a'" "l = l'"
    and rest: "utf8 (tp_domain p) @ t @ utf8 (tp_payload p) = utf8 (tp_domain p') @ t' @ utf8 (tp_payload p')"
    using e(4) e'(4) len by auto
  then have wc: "ra_workchain a = ra_workchain a'" and "length (utf8 (tp_domain p)) = length (utf8 (tp_domain p'))"
    using e e' int32_be_inject uint32_le_inject by auto
  with rest len have "utf8 (tp_domain p) = utf8 (tp_domain p')" "t = t'" "utf8 (tp_payload p) = utf8 (tp_payload p')" by auto
  with wc \<open>ra_hash a = ra_hash a'\<close> e(3) e'(3) show ?thesis
    using utf8_inject uint64_le_inject by auto
qed

section \<open>Linking\<close>

lemma verifyTonProof_validE:
  assumes "verifyTonProof T rq i rp pay n = Inr Valid"
  shows "\<exists>a key m. parseRawAddress (ti_address i) = Some a \<and> tp_domain (ti_proof i) = rp \<and> tp_payload (ti_proof i) = pay
    \<and> \<bar>rq_now rq div 1000 - tp_timestamp (ti_proof i)\<bar> \<le> n
    \<and> bindKeyToAddress T (ti_state_init i) (ti_key i) (ra_hash a) = Inr key
    \<and> buildProofMessage a (ti_proof i) = Some m
    \<and> td_ed25519 T (buildSignedDigest T m) (td_base64 T (tp_signature (ti_proof i))) key"
  using assms by (auto simp: verifyTonProof_def Let_def split: option.splits sum.splits if_splits)

lemma bindKeyToAddress_okE:
  assumes "bindKeyToAddress T si pk h = Inr key"
  shows "\<exists>c. td_cell T si = Some c \<and> tc_hash c = h \<and> key = td_base64 T pk \<and> length key = 32 \<and> key \<in> set (publicKeyCandidates c)"
  using assms by (auto simp: bindKeyToAddress_def Let_def ED25519_PUBLIC_KEY_BYTES_def split: option.splits if_splits)

lemma persistWallet_okE:
  assumes "persistWallet row u a chain m sig d = (Inr w, d')"
  shows "wl_user w = u \<and> wl_address w = a \<and> find_wallet d' a = Some w
    \<and> (\<forall>b. b \<noteq> a \<longrightarrow> find_wallet d' b = find_wallet d b)"
proof (cases "find_wallet d a")
  case (Some v)
  with assms have "w = v" "d' = d" "wl_user v = u" by (auto simp: persistWallet_def split: if_splits)
  with Some show ?thesis by (auto simp: find_wallet_def dest: find_SomeD)
next
  case None
  with assms have i: "insert_wallet w d = Inr d'"
      and w: "w = \<lparr>wl_id = row, wl_user = u, wl_address = a, wl_chain = chain, wl_signature = sig, wl_message = Some m\<rparr>"
    by (auto simp: persistWallet_def Let_def split: sum.splits)
  have "find_wallet d' b = find_wallet d b" if "b \<noteq> a" for b
  proof -
    from i have d': "linked_wallets d' = linked_wallets d @ [w]" by (auto simp: insert_wallet_def split: if_splits)
    show ?thesis using that
      by (cases "find_wallet d b") (auto simp: find_wallet_def d' w find_append_None find_append_Some)
  qed
  with find_wallet_inserted [OF i] w show ?thesis by auto
qed

lemma persistWallet_free:
  assumes "find_wallet d a = None" "\<forall>x \<in> set (linked_wallets d). wl_id x \<noteq> row"
  shows "\<exists>w d'. persistWallet row u a chain m sig d = (Inr w, d')"
proof -
  have "\<not> list_ex (\<lambda>x. wl_id x = row \<or> wl_address x = a) (linked_wallets d)"
    using assms by (auto simp: list_ex_iff find_wallet_def find_None_iff)
  with assms(1) show ?thesis by (simp add: persistWallet_def insert_wallet_def Let_def)
qed

lemma linkWithProof_okE:
  assumes "linkWithProof T rq row u i st = (Inr w, st')"
  shows "\<exists>pay. pay \<noteq> [] \<and> redis_get (rq_now rq) (payload_key u) (snd st) = Some pay
    \<and> snd st' = snd (redis_get_del (rq_now rq) (payload_key u) (snd st))
    \<and> verifyTonProof T rq i (setting_value (td_config T) ''RP_ID'' ''localhost'') pay PROOF_MAX_AGE_SECONDS = Inr Valid
    \<and> persistWallet row u (ti_address i) ''ton'' pay (tp_signature (ti_proof i)) (fst st) = (Inr w, fst st')"
  using assms
  by (cases "redis_get (rq_now rq) (payload_key u) (snd st)")
    (auto simp: linkWithProof_def Let_def redis_get_del_def prod_eq_iff split: sum.splits if_splits ton_result.splits)

text \<open>Where a payload comes from.\<close>

definition payload_name :: "string \<Rightarrow> bool" where
  "payload_name k \<longleftrightarrow> (\<exists>u. k = payload_key u)"

definition payload_issue :: "ton_deps \<Rightarrow> request \<times> string \<times> string \<Rightarrow> redis \<Rightarrow> redis" where
  "payload_issue T e s = snd (issuePayload T (fst e) (fst (snd e)) (snd (snd e)) s)"

interpretation payload: key_giver payload_name "payload_issue T"
  "\<lambda>e t k v. k = payload_key (snd (snd e)) \<and> v = fst (snd e) \<and> t < rq_now (fst e) + 300 * 1000"
  by unfold_locales (auto simp: payload_issue_def issuePayload_def redis_get_set PAYLOAD_TTL_SECONDS_def split: if_splits sum.splits)

text \<open>C27. A TON address is linked to a person only with a proof made for a payload that, in the history of the
  store, the endpoint of the payload gave that very person less than five minutes ago, for this service's name, at most five minutes old or early; the state that hashes
  to the address holds the key that signed.  The payload is spent, and no other wallet changes hands.\<close>

theorem ton_link_proves_key:
  assumes "redis_history payload_name (payload_issue T) es s"
    and linked: "linkWithProof T rq row u i (d, s) = (Inr w, d', s')"
  shows "\<exists>a c key m pay t0. parseRawAddress (ti_address i) = Some a
      \<and> (t0, pay, u) \<in> set es \<and> rq_now rq < rq_now t0 + 300 * 1000
      \<and> redis_get (rq_now rq) (payload_key u) s = Some pay \<and> tp_payload (ti_proof i) = pay \<and> redis_spent (payload_key u) s'
      \<and> tp_domain (ti_proof i) = setting_value (td_config T) ''RP_ID'' ''localhost''
      \<and> \<bar>rq_now rq div 1000 - tp_timestamp (ti_proof i)\<bar> \<le> 300
      \<and> td_cell T (ti_state_init i) = Some c \<and> tc_hash c = ra_hash a \<and> key \<in> set (publicKeyCandidates c)
      \<and> buildProofMessage a (ti_proof i) = Some m
      \<and> td_ed25519 T (buildSignedDigest T m) (td_base64 T (tp_signature (ti_proof i))) key
      \<and> wl_user w = u \<and> find_wallet d' (ti_address i) = Some w
      \<and> (\<forall>b. b \<noteq> ti_address i \<longrightarrow> find_wallet d' b = find_wallet d b)"
proof -
  from linkWithProof_okE [OF linked] obtain pay where l: "redis_get (rq_now rq) (payload_key u) s = Some pay"
    "s' = snd (redis_get_del (rq_now rq) (payload_key u) s)"
    "verifyTonProof T rq i (setting_value (td_config T) ''RP_ID'' ''localhost'') pay PROOF_MAX_AGE_SECONDS = Inr Valid"
    "persistWallet row u (ti_address i) ''ton'' pay (tp_signature (ti_proof i)) d = (Inr w, d')" by auto
  from verifyTonProof_validE [OF l(3)] obtain a key m where v: "parseRawAddress (ti_address i) = Some a"
    "tp_domain (ti_proof i) = setting_value (td_config T) ''RP_ID'' ''localhost''" "tp_payload (ti_proof i) = pay"
    "\<bar>rq_now rq div 1000 - tp_timestamp (ti_proof i)\<bar> \<le> PROOF_MAX_AGE_SECONDS"
    "bindKeyToAddress T (ti_state_init i) (ti_key i) (ra_hash a) = Inr key"
    "buildProofMessage a (ti_proof i) = Some m"
    "td_ed25519 T (buildSignedDigest T m) (td_base64 T (tp_signature (ti_proof i))) key" by blast
  from bindKeyToAddress_okE [OF v(5)] obtain c where "td_cell T (ti_state_init i) = Some c" "tc_hash c = ra_hash a"
    "key \<in> set (publicKeyCandidates c)" by blast
  moreover obtain t0 where "(t0, pay, u) \<in> set es" "rq_now rq < rq_now t0 + 300 * 1000"
    using payload.was_given_out [OF assms(1) _ l(1)] by (fastforce simp: payload_name_def payload_key_def)
  ultimately show ?thesis using l v persistWallet_okE [OF l(4)]
    by (intro exI [of _ a] exI [of _ c] exI [of _ key] exI [of _ m] exI [of _ pay] exI [of _ t0]) (simp add: PROOF_MAX_AGE_SECONDS_def)
qed

text \<open>The rule of one address, one identity is kept for spellings of an address, not for addresses: the digits of
  the hash count in either case, so a wallet somebody has linked is linked to a second person under another
  spelling, whenever its key signs.\<close>

theorem ton_wallet_linked_twice:
  assumes same: "parseRawAddress a' = parseRawAddress (ti_address i)" "a' \<noteq> ti_address i"
    and taken: "find_wallet d (ti_address i) = Some w" "wl_user w \<noteq> u" and free: "find_wallet d a' = None"
    and row: "\<forall>x \<in> set (linked_wallets d). wl_id x \<noteq> row"
    and on: "assertTonEnabled T = Inr ()" and user: "find_user d u = Some v"
    and pay: "redis_get (rq_now rq) (payload_key u) s = Some pay" "pay \<noteq> []"
    and valid: "verifyTonProof T rq i (setting_value (td_config T) ''RP_ID'' ''localhost'') pay PROOF_MAX_AGE_SECONDS = Inr Valid"
  shows "fst (linkWithProof T rq row u i (d, s)) = Inl (Bad_Request (Msg ''Wallet is already linked to another identity''))
    \<and> (\<exists>w' d' s'. linkWithProof T rq row u (i\<lparr>ti_address := a'\<rparr>) (d, s) = (Inr w', d', s')
         \<and> wl_user w' = u \<and> find_wallet d' (ti_address i) = Some w)"
proof -
  have "verifyTonProof T rq (i\<lparr>ti_address := a'\<rparr>) rp p n = verifyTonProof T rq i rp p n" for rp p n
    using same(1) by (simp add: verifyTonProof_def Let_def cong: option.case_cong if_cong)
  note verify = this [of "setting_value (td_config T) ''RP_ID'' ''localhost''" pay PROOF_MAX_AGE_SECONDS] valid
  have "fst (linkWithProof T rq row u i (d, s)) = Inl (Bad_Request (Msg ''Wallet is already linked to another identity''))"
    using taken on user pay valid
    by (simp add: linkWithProof_def getIdentityById_def redis_get_del_def Let_def persistWallet_def)
  moreover obtain w' d' where p: "persistWallet row u a' ''ton'' pay (tp_signature (ti_proof i)) d = (Inr w', d')"
    using free persistWallet_free [OF free row] by metis
  moreover have "linkWithProof T rq row u (i\<lparr>ti_address := a'\<rparr>) (d, s)
      = (Inr w', d', snd (redis_get_del (rq_now rq) (payload_key u) s))"
    using on user pay verify p by (simp add: linkWithProof_def getIdentityById_def redis_get_del_def Let_def)
  ultimately show ?thesis using persistWallet_okE [OF p] taken(1) same(2) by auto
qed

section \<open>One payload, one attempt\<close>

definition ton_claim ::
  "ton_deps \<Rightarrow> request \<times> string \<times> string \<times> ton_input \<Rightarrow> db \<times> redis \<Rightarrow> wallet_row option \<times> db \<times> redis"
where
  "ton_claim T q st = (case q of (rq, row, u, i) \<Rightarrow> map_prod ok id (linkWithProof T rq row u i st))"

definition ton_person :: "request \<times> string \<times> string \<times> ton_input \<Rightarrow> string" where
  "ton_person q = fst (snd (snd q))"

lemma linkWithProof_redis:
  "snd (snd (linkWithProof T rq row u i st)) \<in> {snd st, snd (redis_get_del (rq_now rq) (payload_key u) (snd st))}"
  by (simp add: linkWithProof_def Let_def split: sum.split ton_result.split)

interpretation ton: single_use "ton_claim T" ton_person "\<lambda>u st. redis_spent (payload_key u) (snd st)" "\<lambda>_. True"
proof
  have win: "\<exists>pay. redis_get (rq_now (fst q)) (payload_key (ton_person q)) (snd st) = Some pay \<and> redis_spent (payload_key (ton_person q)) (snd st')"
    if "ton_claim T q st = (Some r, st')" for q st r st'
  proof -
    obtain rq row u i where q: "q = (rq, row, u, i)" by (cases q)
    with that have "linkWithProof T rq row u i st = (Inr r, st')"
      by (cases "linkWithProof T rq row u i st") (auto simp: ton_claim_def ok_Some_iff)
    from linkWithProof_okE [OF this] show ?thesis by (auto simp: q ton_person_def)
  qed
  show "redis_spent (payload_key (ton_person q)) (snd st')" if "ton_claim T q st = (Some r, st')" for q st r st'
    using win [OF that] by blast
  show "fst (ton_claim T q st) = None" if sp: "redis_spent (payload_key (ton_person q)) (snd st)" for q st
  proof (rule ccontr)
    assume "fst (ton_claim T q st) \<noteq> None"
    then obtain r st' where "ton_claim T q st = (Some r, st')" by (cases "ton_claim T q st") auto
    from win [OF this] sp show False by (auto simp: redis_spent_def)
  qed
  show "redis_spent (payload_key k) (snd (snd (ton_claim T q st)))" if "redis_spent (payload_key k) (snd st)" for k q st
    using that linkWithProof_redis [of T "fst q" "fst (snd q)" "ton_person q" "snd (snd (snd q))" st] redis_spent_kept
    by (cases q) (auto simp: ton_claim_def ton_person_def)
qed simp_all

lemma linkWithProof_gives_none: "gives_none P (snd st) (snd (snd (linkWithProof T rq row u i st)))"
  using linkWithProof_redis [of T rq row u i st] by auto

text \<open>A payload buys one attempt, which fails or succeeds.\<close>

lemma ton_payload_once:
  "wins ton_person u qs (fst (run_requests (ton_claim T) qs st)) \<le> 1"
  by (rule ton.at_most_one_win) simp

section \<open>Witnesses\<close>

definition ton_hash_text :: string where "ton_hash_text = replicate 64 (CHR ''a'')"

definition ton_text :: string where "ton_text = ''0:'' @ ton_hash_text"

definition demo_ton :: ton_deps where
  "demo_ton = \<lparr>td_config = demo_config\<lparr>cf_env := [''TON_WALLET_LINKING_ENABLED'' \<mapsto> ''true'']\<rparr>, td_sha256 = (\<lambda>m. m),
     td_base64 = (\<lambda>t. if t = ''key'' then replicate 32 0 else replicate 64 7),
     td_cell = (\<lambda>_. Some \<lparr>tc_hash = replicate 32 170, tc_data = Some (replicate 320 False)\<rparr>), td_ed25519 = (\<lambda>_ _ _. True)\<rparr>"

definition ann_proof :: ton_proof where
  "ann_proof = \<lparr>tp_timestamp = 0, tp_domain = ''localhost'', tp_signature = ''sig'', tp_payload = ''pay''\<rparr>"

definition ann_ton :: ton_input where
  "ann_ton = \<lparr>ti_address = ton_text, ti_key = ''key'', ti_state_init = ''boc'', ti_proof = ann_proof\<rparr>"

lemma hash_bytes_lower: "hash_bytes (replicate (2 * n) (CHR ''a'')) = replicate n 170"
  by (induction n) (simp_all add: hex_digit_value_def)

lemma hash_bytes_upper: "hash_bytes (replicate (2 * n) (CHR ''A'')) = replicate n 170"
  by (induction n) (simp_all add: hex_digit_value_def)

lemma split_by_none: "\<forall>c \<in> set xs. \<not> p c \<Longrightarrow> split_by p xs = [xs]"
  by (induction xs) auto

lemma ton_parsed:
  "parseRawAddress (''0:'' @ replicate 64 (CHR ''a'')) = Some \<lparr>ra_workchain = 0, ra_hash = replicate 32 170\<rparr>"
  "parseRawAddress (''0:'' @ replicate 64 (CHR ''A'')) = Some \<lparr>ra_workchain = 0, ra_hash = replicate 32 170\<rparr>"
proof -
  have "parseRawAddress (''0:'' @ h) = Some \<lparr>ra_workchain = 0, ra_hash = hash_bytes h\<rparr>"
    if "length h = 64" "list_all is_hex h" for h
  proof -
    have "\<not> is_hex (CHR '':'')" by (simp add: is_hex_def)
    with that(2) have "split_by (\<lambda>c. c = CHR '':'') h = [h]" by (intro split_by_none) (auto simp: list_all_iff)
    then have "split_char (CHR '':'') (''0:'' @ h) = [''0'', h]" by (simp add: split_char_def)
    moreover have "parse_int ''0'' = Some 0" by (simp add: parse_int_def is_ws_def is_digit_def)
    ultimately show ?thesis using that by (simp add: parseRawAddress_def)
  qed
  note parsed = this [of "replicate 64 c" for c]
  have "list_all is_hex (replicate 64 (CHR ''a''))" "list_all is_hex (replicate 64 (CHR ''A''))"
    by (simp_all add: list_all_iff is_hex_def)
  with parsed [of "CHR ''a''"] parsed [of "CHR ''A''"] hash_bytes_lower [of 32] hash_bytes_upper [of 32]
  show "parseRawAddress (''0:'' @ replicate 64 (CHR ''a'')) = Some \<lparr>ra_workchain = 0, ra_hash = replicate 32 170\<rparr>"
    "parseRawAddress (''0:'' @ replicate 64 (CHR ''A'')) = Some \<lparr>ra_workchain = 0, ra_hash = replicate 32 170\<rparr>"
    by simp_all
qed

lemma bit_bytes_zero: "bit_bytes n (replicate (8 * n) False) = replicate n 0"
proof (induction n)
  case (Suc n)
  have "8 * Suc n = 8 + 8 * n" by simp
  then have "replicate (8 * Suc n) False = replicate 8 False @ replicate (8 * n) False" by (simp only: replicate_add)
  with Suc show ?case by (simp add: bits_value_def numeral_eq_Suc)
qed simp

lemma ann_message: "\<exists>m. buildProofMessage \<lparr>ra_workchain = 0, ra_hash = replicate 32 170\<rparr> ann_proof = Some m"
  by (simp add: buildProofMessage_def ann_proof_def int32_be_def uint32_le_def uint64_le_def utf8_def utf8_char_def Let_def)

theorem proof_message_injective_witness:
  "\<exists>a a' m. parseRawAddress (''0:'' @ replicate 64 (CHR ''a'')) = Some a \<and> parseRawAddress (''0:'' @ replicate 64 (CHR ''A'')) = Some a'
     \<and> buildProofMessage a ann_proof = Some m \<and> buildProofMessage a' ann_proof = Some m \<and> a = a'"
proof -
  obtain m where m: "buildProofMessage \<lparr>ra_workchain = 0, ra_hash = replicate 32 170\<rparr> ann_proof = Some m" using ann_message ..
  from proof_message_injective [OF ton_parsed m m] ton_parsed m show ?thesis by metis
qed

lemma demo_ton_valid:
  "verifyTonProof demo_ton (at_time 5) ann_ton (setting_value (td_config demo_ton) ''RP_ID'' ''localhost'') ''pay'' PROOF_MAX_AGE_SECONDS = Inr Valid"
proof -
  obtain m where m: "buildProofMessage \<lparr>ra_workchain = 0, ra_hash = replicate 32 170\<rparr> ann_proof = Some m" using ann_message ..
  have p: "parseRawAddress (ti_address ann_ton) = Some \<lparr>ra_workchain = 0, ra_hash = replicate 32 170\<rparr>"
    unfolding ann_ton_def ton_text_def ton_hash_text_def using ton_parsed(1) by simp
  have "replicate 32 0 \<in> set (publicKeyCandidates \<lparr>tc_hash = h, tc_data = Some (replicate 320 False)\<rparr>)" for h
    using bit_bytes_zero [of 32] by (simp add: publicKeyCandidates_def PUBLIC_KEY_BIT_OFFSETS_def ED25519_PUBLIC_KEY_BYTES_def)
  then have "bindKeyToAddress demo_ton (ti_state_init ann_ton) (ti_key ann_ton) (replicate 32 170) = Inr (replicate 32 0)"
    by (simp add: bindKeyToAddress_def demo_ton_def ann_ton_def ED25519_PUBLIC_KEY_BYTES_def)
  moreover have "setting_value (td_config demo_ton) ''RP_ID'' ''localhost'' = ''localhost''"
    by (simp add: setting_value_def setting_raw_def demo_ton_def demo_config_def)
  moreover have "ti_proof ann_ton = ann_proof" "tp_domain ann_proof = ''localhost''" "tp_payload ann_proof = ''pay''" "tp_timestamp ann_proof = 0"
    "tp_signature ann_proof = ''sig''" by (simp_all add: ann_ton_def ann_proof_def)
  moreover have "length (td_base64 demo_ton ''sig'') = 64" "td_ed25519 demo_ton x y z" for x y z by (simp_all add: demo_ton_def)
  ultimately show ?thesis using p m by (simp add: verifyTonProof_def PROOF_MAX_AGE_SECONDS_def at_time_def Let_def)
qed

definition bob_wallet :: wallet_row where
  "bob_wallet = \<lparr>wl_id = ''w1'', wl_user = ''bob'', wl_address = ton_text, wl_chain = ''ton'', wl_signature = ''sig'', wl_message = None\<rparr>"

lemma demo_ton_facts:
  "assertTonEnabled demo_ton = Inr ()" "find_user demo_db ''u1'' = Some ann"
  "redis_get (rq_now (at_time 5)) (payload_key ''u1'') (snd (issuePayload demo_ton (at_time 0) ''pay'' ''u1'' [])) = Some ''pay''"
proof -
  show e: "assertTonEnabled demo_ton = Inr ()"
    by (simp add: assertTonEnabled_def setting_flag_def setting_raw_def demo_ton_def demo_config_def)
  show "find_user demo_db ''u1'' = Some ann" by (simp add: find_user_def demo_db_def ann_def)
  show "redis_get (rq_now (at_time 5)) (payload_key ''u1'') (snd (issuePayload demo_ton (at_time 0) ''pay'' ''u1'' [])) = Some ''pay''"
    by (simp add: issuePayload_def e redis_get_set PAYLOAD_TTL_SECONDS_def at_time_def)
qed

theorem ton_link_proves_key_witness:
  "\<exists>w d' s'. linkWithProof demo_ton (at_time 5) ''w2'' ''u1'' ann_ton (demo_db, snd (issuePayload demo_ton (at_time 0) ''pay'' ''u1'' [])) = (Inr w, d', s')
     \<and> wl_user w = ''u1'' \<and> redis_spent (payload_key ''u1'') s'"
proof -
  have f: "find_wallet demo_db (ti_address ann_ton) = None" "\<forall>x \<in> set (linked_wallets demo_db). wl_id x \<noteq> ''w2''"
    by (simp_all add: find_wallet_def demo_db_def)
  obtain w d' where p: "persistWallet ''w2'' ''u1'' (ti_address ann_ton) ''ton'' ''pay'' (tp_signature (ti_proof ann_ton)) demo_db = (Inr w, d')"
    using persistWallet_free [OF f] by blast
  obtain s' where r: "linkWithProof demo_ton (at_time 5) ''w2'' ''u1'' ann_ton (demo_db, snd (issuePayload demo_ton (at_time 0) ''pay'' ''u1'' [])) = (Inr w, d', s')"
    using demo_ton_facts demo_ton_valid p by (simp add: linkWithProof_def getIdentityById_def redis_get_del_def Let_def)
  have "redis_history payload_name (payload_issue demo_ton) [(at_time 0, ''pay'', ''u1'')] (snd (issuePayload demo_ton (at_time 0) ''pay'' ''u1'' []))"
    using redis_history.issued [OF redis_history.began, of payload_name "[]" "payload_issue demo_ton" "(at_time 0, ''pay'', ''u1'')"]
    by (simp add: redis_spent_def redis_get_def payload_issue_def)
  from ton_link_proves_key [OF this r] r show ?thesis by blast
qed

theorem ton_wallet_linked_twice_witness:
  "\<exists>w' d' s'. linkWithProof demo_ton (at_time 5) ''w2'' ''u1'' (ann_ton\<lparr>ti_address := ''0:'' @ replicate 64 (CHR ''A'')\<rparr>)
       (demo_db\<lparr>linked_wallets := [bob_wallet]\<rparr>, snd (issuePayload demo_ton (at_time 0) ''pay'' ''u1'' [])) = (Inr w', d', s')
     \<and> wl_user w' = ''u1'' \<and> find_wallet d' ton_text = Some bob_wallet"
proof -
  let ?d = "demo_db\<lparr>linked_wallets := [bob_wallet]\<rparr>"
  have t: "ti_address ann_ton = ton_text" by (simp add: ann_ton_def)
  have two: "''0:'' @ replicate 64 (CHR ''A'') \<noteq> ton_text" by (simp add: ton_text_def ton_hash_text_def numeral_eq_Suc)
  have "parseRawAddress (''0:'' @ replicate 64 (CHR ''A'')) = parseRawAddress (ti_address ann_ton)"
    unfolding t ton_text_def ton_hash_text_def ton_parsed ..
  moreover have "find_wallet ?d (ti_address ann_ton) = Some bob_wallet" "wl_user bob_wallet \<noteq> ''u1''"
    by (simp_all add: t find_wallet_def bob_wallet_def)
  moreover have "find_wallet ?d (''0:'' @ replicate 64 (CHR ''A'')) = None"
    using two by (simp add: find_wallet_def bob_wallet_def)
  moreover have "\<forall>x \<in> set (linked_wallets ?d). wl_id x \<noteq> ''w2''" by (simp add: bob_wallet_def)
  moreover have "find_user ?d ''u1'' = Some ann" using demo_ton_facts(2) by (simp add: find_user_def)
  ultimately show ?thesis
    using ton_wallet_linked_twice [of "''0:'' @ replicate 64 (CHR ''A'')" ann_ton ?d bob_wallet "''u1''" "''w2''" demo_ton ann "at_time 5"
        "snd (issuePayload demo_ton (at_time 0) ''pay'' ''u1'' [])" "''pay''"] two demo_ton_facts demo_ton_valid
    unfolding t by blast
qed

end
