(* ===== verification/Federation.thy ===== *)
theory Federation
  imports Browser_Sessions Own_Account Field_Crypto
begin

text \<open>
  Signing in through another identity provider: \<open>src/auth/federation/\<close> (\<open>federation.service.ts\<close>,
  \<open>federation-providers.service.ts\<close>, \<open>providers.ts\<close>, \<open>federation.controller.ts\<close> and its contracts).
  What the provider answers over HTTP and the text of a URL are parameters; a query parameter that is
  not a string counts as absent.
\<close>

section \<open>Profiles\<close>

record provider_profile =
  np_provider :: string
  np_subject :: string
  np_email :: "string option"
  np_email_verified :: bool
  np_name :: "string option"
  np_avatar :: "string option"

text \<open>\<open>String(v)\<close> of a member that may be missing.\<close>

definition string_of :: "json option \<Rightarrow> string" where
  "string_of v = (case v of None \<Rightarrow> ''undefined'' | Some j \<Rightarrow> js_string j)"

definition claims_verified :: "json \<Rightarrow> bool" where
  "claims_verified j \<longleftrightarrow> jget j ''email_verified'' \<in> {Some (JBool True), Some (JStr ''true'')}"

definition normalizeGoogleProfile :: "json \<Rightarrow> provider_profile" where
  "normalizeGoogleProfile j =
     \<lparr>np_provider = ''google'', np_subject = string_of (jget j ''sub''), np_email = jstr (jget j ''email''),
      np_email_verified = claims_verified j, np_name = jstr (jget j ''name''), np_avatar = jstr (jget j ''picture'')\<rparr>"

definition primary_email :: "json list \<Rightarrow> json option" where
  "primary_email es =
     (case List.find (\<lambda>e. js_truthy (jget e ''primary'') \<and> js_truthy (jget e ''verified'')) es of
        Some e \<Rightarrow> Some e | None \<Rightarrow> List.find (\<lambda>e. js_truthy (jget e ''verified'')) es)"

definition normalizeGithubProfile :: "json \<Rightarrow> json list \<Rightarrow> provider_profile" where
  "normalizeGithubProfile user emails =
     (let primary = primary_email emails; name = jstr (jget user ''name''); login = jstr (jget user ''login'')
      in \<lparr>np_provider = ''github'', np_subject = string_of (jget user ''id''),
          np_email = (case jstr (Option.bind primary (\<lambda>e. jget e ''email'')) of Some e \<Rightarrow> Some e | None \<Rightarrow> jstr (jget user ''email'')),
          np_email_verified = js_truthy (Option.bind primary (\<lambda>e. jget e ''verified'')),
          np_name = (if truthy name then name else if truthy login then login else None),
          np_avatar = jstr (jget user ''avatar_url'')\<rparr>)"

definition normalizeOidcProfile :: "json \<Rightarrow> provider_profile" where
  "normalizeOidcProfile j =
     \<lparr>np_provider = ''oidc'', np_subject = string_of (jget j ''sub''), np_email = jstr (jget j ''email''),
      np_email_verified = claims_verified j,
      np_name = (case jstr (jget j ''name'') of Some n \<Rightarrow> Some n | None \<Rightarrow> jstr (jget j ''preferred_username'')),
      np_avatar = jstr (jget j ''picture'')\<rparr>"

definition tokenResponseOk :: "json \<Rightarrow> bool" where
  "tokenResponseOk t \<longleftrightarrow> \<not> js_falsy t \<and> \<not> js_truthy (jget t ''error'') \<and> js_truthy (jget t ''access_token'')"

section \<open>Providers\<close>

record provider_endpoints =
  ep_authorization :: string
  ep_token :: string
  ep_userinfo :: "string option"

record provider_meta =
  pm_name :: string
  pm_scopes :: "string list"
  pm_pkce :: bool
  pm_endpoints :: provider_endpoints

record provider_config =
  pv_id :: string
  pv_name :: string
  pv_client :: string
  pv_secret :: string
  pv_scopes :: "string list"
  pv_pkce :: bool
  pv_endpoints :: "provider_endpoints option"
  pv_issuer :: "string option"

record fed_entry =
  fx_enabled :: bool
  fx_name :: string
  fx_client :: string
  fx_secret :: string
  fx_scopes :: "string list"
  fx_issuer :: "string option"

definition STATIC_PROVIDERS :: "(string \<times> provider_meta) list" where
  "STATIC_PROVIDERS =
     [(''google'', \<lparr>pm_name = ''Google'', pm_scopes = [''openid'', ''email'', ''profile''], pm_pkce = True,
         pm_endpoints = \<lparr>ep_authorization = ''https://accounts.google.com/o/oauth2/v2/auth'',
           ep_token = ''https://oauth2.googleapis.com/token'',
           ep_userinfo = Some ''https://openidconnect.googleapis.com/v1/userinfo''\<rparr>\<rparr>),
      (''github'', \<lparr>pm_name = ''GitHub'', pm_scopes = [''read:user'', ''user:email''], pm_pkce = False,
         pm_endpoints = \<lparr>ep_authorization = ''https://github.com/login/oauth/authorize'',
           ep_token = ''https://github.com/login/oauth/access_token'',
           ep_userinfo = Some ''https://api.github.com/user''\<rparr>\<rparr>)]"

definition oidc_scopes :: "string list" where
  "oidc_scopes = [''openid'', ''email'', ''profile'']"

definition fromDbEntry :: "string \<Rightarrow> fed_entry \<Rightarrow> provider_config option" where
  "fromDbEntry i e =
     (if fx_client e = [] \<or> fx_secret e = [] then None
      else (case map_of STATIC_PROVIDERS i of
              Some m \<Rightarrow> Some \<lparr>pv_id = i, pv_name = (if fx_name e = [] then pm_name m else fx_name e), pv_client = fx_client e,
                  pv_secret = fx_secret e, pv_scopes = (if fx_scopes e = [] then pm_scopes m else fx_scopes e),
                  pv_pkce = pm_pkce m, pv_endpoints = Some (pm_endpoints m), pv_issuer = None\<rparr>
            | None \<Rightarrow>
                if i = ''oidc''
                then (if \<not> truthy (fx_issuer e) then None
                      else Some \<lparr>pv_id = ''oidc'', pv_name = (if fx_name e = [] then ''Single Sign-On'' else fx_name e),
                        pv_client = fx_client e, pv_secret = fx_secret e,
                        pv_scopes = (if fx_scopes e = [] then oidc_scopes else fx_scopes e), pv_pkce = True,
                        pv_endpoints = None, pv_issuer = fx_issuer e\<rparr>)
                else None))"

text \<open>\<open>raw.split(/[\s,]+/).filter(Boolean)\<close>.\<close>

definition scopesFromEnv :: "config \<Rightarrow> string \<Rightarrow> string list \<Rightarrow> string list" where
  "scopesFromEnv cf key fallback =
     (if truthy (cf_env cf key)
      then filter (\<lambda>w. w \<noteq> []) (split_by (\<lambda>c. is_ws c \<or> c = CHR '','') (nullish (cf_env cf key) ''''))
      else fallback)"

definition fromEnv :: "config \<Rightarrow> string \<Rightarrow> provider_config option" where
  "fromEnv cf i =
     (case map_of STATIC_PROVIDERS i of
        Some m \<Rightarrow>
          (let prefix = upper i; c = cf_env cf (prefix @ ''_CLIENT_ID''); s = cf_env cf (prefix @ ''_CLIENT_SECRET'')
           in if \<not> truthy c \<or> \<not> truthy s then None
              else Some \<lparr>pv_id = i, pv_name = pm_name m, pv_client = nullish c '''', pv_secret = nullish s '''',
                     pv_scopes = scopesFromEnv cf (prefix @ ''_SCOPES'') (pm_scopes m), pv_pkce = pm_pkce m,
                     pv_endpoints = Some (pm_endpoints m), pv_issuer = None\<rparr>)
      | None \<Rightarrow>
          if i = ''oidc''
          then (let c = cf_env cf ''OIDC_FEDERATION_CLIENT_ID''; s = cf_env cf ''OIDC_FEDERATION_CLIENT_SECRET'';
                    u = cf_env cf ''OIDC_FEDERATION_ISSUER''
                in if \<not> truthy c \<or> \<not> truthy s \<or> \<not> truthy u then None
                   else Some \<lparr>pv_id = ''oidc'', pv_name = nullish (cf_env cf ''OIDC_FEDERATION_NAME'') ''Single Sign-On'',
                          pv_client = nullish c '''', pv_secret = nullish s '''',
                          pv_scopes = scopesFromEnv cf ''OIDC_FEDERATION_SCOPES'' oidc_scopes, pv_pkce = True,
                          pv_endpoints = None, pv_issuer = u\<rparr>)
          else None)"

text \<open>
  The world of a federated sign-in: the snapshot of the provider table, a request for JSON (none where it
  fails), a form post (the flag says whether the status was good), and the text of a URL.
\<close>

record fed_deps =
  fe_prims :: prims
  fe_config :: config
  fe_entry :: "string \<Rightarrow> fed_entry option"
  fe_get :: "string \<Rightarrow> string \<Rightarrow> json option"
  fe_post :: "string \<Rightarrow> (string \<times> string) list \<Rightarrow> (bool \<times> json) option"
  fe_url :: "string \<Rightarrow> (string \<times> string) list \<Rightarrow> string"

definition tryResolveConfig :: "fed_deps \<Rightarrow> string \<Rightarrow> provider_config option" where
  "tryResolveConfig W i =
     (case fe_entry W i of
        Some e \<Rightarrow> if fx_enabled e then fromDbEntry i e else None
      | None \<Rightarrow> fromEnv (fe_config W) i)"

definition resolveForTest :: "fed_deps \<Rightarrow> string \<Rightarrow> provider_config option" where
  "resolveForTest W i =
     (case fe_entry W i of Some e \<Rightarrow> fromDbEntry i (e\<lparr>fx_enabled := True\<rparr>) | None \<Rightarrow> fromEnv (fe_config W) i)"

definition resolveConfig :: "fed_deps \<Rightarrow> string \<Rightarrow> error + provider_config" where
  "resolveConfig W i =
     (case tryResolveConfig W i of
        None \<Rightarrow> Inl (Not_Found (Msg (''Unknown or not-configured federation provider: '' @ i)))
      | Some c \<Rightarrow> Inr c)"

definition getEnabledProviders :: "fed_deps \<Rightarrow> (string \<times> string) list" where
  "getEnabledProviders W =
     map (\<lambda>c. (pv_id c, pv_name c)) (List.map_filter (tryResolveConfig W) [''google'', ''github'', ''oidc''])"

text \<open>\<open>replace(/\\/$/, '')\<close>.\<close>

definition chop_slash :: "string \<Rightarrow> string" where
  "chop_slash s = (if s \<noteq> [] \<and> last s = CHR ''/'' then butlast s else s)"

definition redirectUri :: "fed_deps \<Rightarrow> string \<Rightarrow> string" where
  "redirectUri W i =
     chop_slash (case cf_env (fe_config W) ''FEDERATION_REDIRECT_BASE'' of
        Some b \<Rightarrow> b
      | None \<Rightarrow> nullish (cf_env (fe_config W) ''OIDC_ISSUER'') ''http://localhost:3002'')
     @ ''/v1/auth/oauth/'' @ i @ ''/callback''"

text \<open>The cache of discovery: the endpoints of an issuer and until when they are kept.\<close>

type_synonym discovery = "(string \<times> provider_endpoints \<times> time) list"

definition DISCOVERY_TTL_MS :: int where "DISCOVERY_TTL_MS = 60 * 60 * 1000"

definition request_failed :: error where
  "request_failed = Unauthorized (Msg ''Provider profile request failed'')"

definition discovered :: "json \<Rightarrow> provider_endpoints" where
  "discovered doc = \<lparr>ep_authorization = nullish (jstr (jget doc ''authorization_endpoint'')) '''',
     ep_token = nullish (jstr (jget doc ''token_endpoint'')) '''', ep_userinfo = jstr (jget doc ''userinfo_endpoint'')\<rparr>"

definition getEndpoints :: "fed_deps \<Rightarrow> request \<Rightarrow> provider_config \<Rightarrow> discovery \<Rightarrow> (error + provider_endpoints) \<times> discovery" where
  "getEndpoints W rq cfg cache =
     (case pv_endpoints cfg of
        Some e \<Rightarrow> (Inr e, cache)
      | None \<Rightarrow>
          if \<not> truthy (pv_issuer cfg)
          then (Inl (Bad_Request (Msg (''Provider '' @ pv_id cfg @ '' has no issuer configured''))), cache)
          else (let iss = nullish (pv_issuer cfg) '''';
                    fetched = (case fe_get W (chop_slash iss @ ''/.well-known/openid-configuration'') '''' of
                       None \<Rightarrow> (Inl request_failed, cache)
                     | Some doc \<Rightarrow>
                         if ep_authorization (discovered doc) = [] \<or> ep_token (discovered doc) = []
                         then (Inl (Bad_Request (Msg ''OIDC discovery document is incomplete'')), cache)
                         else (Inr (discovered doc), AList.update iss (discovered doc, rq_now rq + DISCOVERY_TTL_MS) cache))
                in case map_of cache iss of
                     Some (e, t) \<Rightarrow> if rq_now rq < t then (Inr e, cache) else fetched
                   | None \<Rightarrow> fetched))"

definition exchangeCode ::
  "fed_deps \<Rightarrow> provider_config \<Rightarrow> provider_endpoints \<Rightarrow> string \<Rightarrow> string option \<Rightarrow> error + json"
where
  "exchangeCode W cfg ep code verifier =
     (case fe_post W (ep_token ep)
             ([(''grant_type'', ''authorization_code''), (''code'', code), (''redirect_uri'', redirectUri W (pv_id cfg)),
               (''client_id'', pv_client cfg), (''client_secret'', pv_secret cfg)]
              @ (if truthy verifier then [(''code_verifier'', nullish verifier '''')] else [])) of
        None \<Rightarrow> Inl (Server_Error ''fetch failed'')
      | Some (good, t) \<Rightarrow>
          if \<not> good \<or> \<not> tokenResponseOk t then Inl (Unauthorized (Msg ''Token exchange with provider failed''))
          else Inr t)"

definition fetchProfile :: "fed_deps \<Rightarrow> provider_config \<Rightarrow> provider_endpoints \<Rightarrow> json \<Rightarrow> error + provider_profile" where
  "fetchProfile W cfg ep tokens =
     (let bearer = string_of (jget tokens ''access_token'')
      in case Option.bind (ep_userinfo ep) (\<lambda>u. fe_get W u bearer) of
           None \<Rightarrow> Inl request_failed
         | Some j \<Rightarrow>
             if pv_id cfg = ''github''
             then Inr (normalizeGithubProfile j (nullish (jarr (fe_get W ''https://api.github.com/user/emails'' bearer)) []))
             else Inr (if pv_id cfg = ''google'' then normalizeGoogleProfile j else normalizeOidcProfile j))"

section \<open>Linking\<close>

record fed_entropy =
  fn_identity :: identity_entropy
  fn_row :: string

definition insert_identity :: "identity_row \<Rightarrow> db \<Rightarrow> error + db" where
  "insert_identity x d =
     (if list_ex (\<lambda>y. fi_id y = fi_id x \<or> fi_provider y = fi_provider x \<and> fi_subject y = fi_subject x) (oauth_identities d)
      then Inl Db_Conflict else Inr (d\<lparr>oauth_identities := oauth_identities d @ [x]\<rparr>))"

definition snapshot :: "provider_profile \<Rightarrow> identity_row \<Rightarrow> identity_row" where
  "snapshot p x = x\<lparr>fi_email := np_email p, fi_email_verified := np_email_verified p, fi_name := np_name p, fi_avatar := np_avatar p\<rparr>"

definition linkIdentity :: "string \<Rightarrow> string \<Rightarrow> provider_profile \<Rightarrow> db \<Rightarrow> error + db" where
  "linkIdentity row userId p d =
     insert_identity \<lparr>fi_id = row, fi_user = userId, fi_provider = np_provider p, fi_subject = np_subject p,
       fi_email = np_email p, fi_email_verified = np_email_verified p, fi_name = np_name p, fi_avatar = np_avatar p\<rparr> d"

definition federated_identity :: "db \<Rightarrow> string \<Rightarrow> string \<Rightarrow> identity_row option" where
  "federated_identity d provider subject =
     List.find (\<lambda>x. fi_provider x = provider \<and> fi_subject x = subject) (oauth_identities d)"

definition email_conflict :: "string \<Rightarrow> error" where
  "email_conflict e = Server_Error (''An account already exists for '' @ e
     @ ''. Sign in and link this provider from account settings instead.'')"

text \<open>\<open>err instanceof FederationEmailConflictError\<close>.\<close>

definition is_email_conflict :: "error \<Rightarrow> bool" where
  "is_email_conflict e \<longleftrightarrow> (case e of Server_Error m \<Rightarrow> prefix ''An account already exists for '' m | _ \<Rightarrow> False)"

definition shape_new :: "provider_profile \<Rightarrow> user_row \<Rightarrow> user_row" where
  "shape_new p u = u\<lparr>us_email_verified := (np_email_verified p \<or> us_email_verified u),
     us_avatar := (if np_avatar p \<noteq> None then np_avatar p else us_avatar u)\<rparr>"

definition resolveUser :: "fed_entropy \<Rightarrow> provider_profile \<Rightarrow> db \<Rightarrow> (error + user_row \<times> bool) \<times> db" where
  "resolveUser fn p d =
     (case federated_identity d (np_provider p) (np_subject p) of
        Some x \<Rightarrow>
          (case find_user d (fi_user x) of
             None \<Rightarrow> (Inl Db_Missing, d)
           | Some u \<Rightarrow> (Inr (u, False),
               d\<lparr>oauth_identities := update_many (\<lambda>y. fi_id y = fi_id x) (snapshot p) (oauth_identities d)\<rparr>))
      | None \<Rightarrow>
          (case (if truthy (np_email p) then find_user_email d (nullish (np_email p) '''') else None) of
             Some u \<Rightarrow>
               if \<not> np_email_verified p then (Inl (email_conflict (nullish (np_email p) '''')), d)
               else (case linkIdentity (fn_row fn) (us_id u) p d of
                       Inl e \<Rightarrow> (Inl e, d) | Inr d1 \<Rightarrow> (Inr (u, False), d1))
           | None \<Rightarrow>
               (case createIdentity (fn_identity fn) (np_email p) (np_name p) d of
                  Inl e \<Rightarrow> (Inl e, d)
                | Inr (u, d1) \<Rightarrow>
                    (let changed = np_email_verified p \<or> truthy (np_avatar p);
                         u1 = (if changed then shape_new p u else u);
                         d2 = (if changed then update_user (us_id u) (shape_new p) d1 else d1)
                     in case linkIdentity (fn_row fn) (us_id u) p d2 of
                          Inl e \<Rightarrow> (Inl e, d2) | Inr d3 \<Rightarrow> (Inr (u1, True), d3)))))"

section \<open>The round trip\<close>

definition OAUTH_PASSTHROUGH :: "string list" where
  "OAUTH_PASSTHROUGH =
     [''client_id'', ''redirect_uri'', ''scope'', ''state'', ''code_challenge'', ''code_challenge_method'',
      ''response_type'', ''nonce'', ''prompt'', ''acr_values'', ''resource'', ''authorization_details'',
      ''ui_locales'', ''login_hint'']"

definition extractOAuthParams :: "query \<Rightarrow> (string \<times> string) list" where
  "extractOAuthParams q =
     concat (map (\<lambda>k. if truthy (q k) then [(k, nullish (q k) '''')] else []) OAUTH_PASSTHROUGH)"

record fed_draws =
  fr_state :: string
  fr_nonce :: string
  fr_verifier :: string

definition STATE_TTL_SECONDS :: int where "STATE_TTL_SECONDS = 600"

definition state_key :: "string \<Rightarrow> string" where
  "state_key s = ''federation:state:'' @ s"

definition federation_state :: "string \<Rightarrow> string option \<Rightarrow> string \<Rightarrow> string \<Rightarrow> (string \<times> string) list \<Rightarrow> json" where
  "federation_state provider verifier nonce returnTo ps =
     JObj ([(''provider'', JStr provider)]
       @ (case verifier of None \<Rightarrow> [] | Some v \<Rightarrow> [(''codeVerifier'', JStr v)])
       @ [(''nonce'', JStr nonce), (''returnTo'', JStr returnTo), (''oauthParams'', JObj (map (\<lambda>(k, v). (k, JStr v)) ps))])"

definition getAuthorizationUrl ::
  "fed_deps \<Rightarrow> request \<Rightarrow> fed_draws \<Rightarrow> string \<Rightarrow> string \<Rightarrow> (string \<times> string) list \<Rightarrow> redis \<times> discovery \<Rightarrow>
   (error + string \<times> (string \<times> string) list) \<times> redis \<times> discovery"
where
  "getAuthorizationUrl W rq dr i returnTo ps st =
     (case resolveConfig W i of
        Inl e \<Rightarrow> (Inl e, st)
      | Inr cfg \<Rightarrow>
          (case getEndpoints W rq cfg (snd st) of
             (Inl e, c1) \<Rightarrow> (Inl e, fst st, c1)
           | (Inr ep, c1) \<Rightarrow>
               (let verifier = (if pv_pkce cfg then Some (fr_verifier dr) else None)
                in (Inr (ep_authorization ep,
                     [(''client_id'', pv_client cfg), (''redirect_uri'', redirectUri W (pv_id cfg)), (''response_type'', ''code''),
                      (''scope'', join_sp (pv_scopes cfg)), (''state'', fr_state dr)]
                     @ (if pv_pkce cfg then [(''code_challenge'', p_sha256 (fe_prims W) (fr_verifier dr)), (''code_challenge_method'', ''S256'')] else [])
                     @ (if pv_id cfg \<noteq> ''github'' then [(''nonce'', fr_nonce dr)] else [])),
                    redis_set (rq_now rq) (state_key (fr_state dr))
                      (p_stringify (fe_prims W) (federation_state (pv_id cfg) verifier (fr_nonce dr) returnTo ps)) STATE_TTL_SECONDS (fst st),
                    c1))))"

record federation_result =
  fs_user :: user_row
  fs_new :: bool
  fs_return_to :: string

definition handleCallback ::
  "fed_deps \<Rightarrow> request \<Rightarrow> fed_entropy \<Rightarrow> string \<Rightarrow> query \<Rightarrow> db \<times> redis \<times> discovery \<Rightarrow>
   (error + federation_result) \<times> db \<times> redis \<times> discovery"
where
  "handleCallback W rq fn i q st =
     (case st of (d, s, cache) \<Rightarrow>
     (case resolveConfig W i of
        Inl e \<Rightarrow> (Inl e, st)
      | Inr cfg \<Rightarrow>
          if truthy (q ''error'')
          then (Inl (Unauthorized (Msg (''Provider returned error: '' @ nullish (q ''error'') ''''))), st)
          else if \<not> truthy (q ''code'') \<or> \<not> truthy (q ''state'')
          then (Inl (Bad_Request (Msg ''Missing code or state'')), st)
          else (case redis_get_del (rq_now rq) (state_key (nullish (q ''state'') '''')) s of (raw, s1) \<Rightarrow>
                 if \<not> truthy raw then (Inl (Unauthorized (Msg ''Invalid or expired state'')), d, s1, cache)
                 else (case p_json_parse (fe_prims W) (nullish raw '''') of
                         None \<Rightarrow> (Inl (Server_Error ''Unexpected token''), d, s1, cache)
                       | Some j \<Rightarrow>
                           if jget j ''provider'' \<noteq> Some (JStr (pv_id cfg))
                           then (Inl (Unauthorized (Msg ''State/provider mismatch'')), d, s1, cache)
                           else (case getEndpoints W rq cfg cache of
                                   (Inl e, c1) \<Rightarrow> (Inl e, d, s1, c1)
                                 | (Inr ep, c1) \<Rightarrow>
                                     (case exchangeCode W cfg ep (nullish (q ''code'') '''') (jstr (jget j ''codeVerifier'')) of
                                        Inl e \<Rightarrow> (Inl e, d, s1, c1)
                                      | Inr tokens \<Rightarrow>
                                          (case fetchProfile W cfg ep tokens of
                                             Inl e \<Rightarrow> (Inl e, d, s1, c1)
                                           | Inr p \<Rightarrow>
                                               (case resolveUser fn p d of
                                                  (Inl e, d1) \<Rightarrow> (Inl e, d1, s1, c1)
                                                | (Inr (u, isNew), d1) \<Rightarrow>
                                                    (Inr \<lparr>fs_user = u, fs_new = isNew, fs_return_to = string_of (jget j ''returnTo'')\<rparr>,
                                                     d1, s1, c1)))))))))"

text \<open>The endpoints: where the browser is sent.\<close>

definition login_url :: "fed_deps \<Rightarrow> (string \<times> string) list \<Rightarrow> string option \<Rightarrow> string" where
  "login_url W ps err =
     fe_url W (nullish (cf_env (fe_config W) ''FRONTEND_URL'') ''http://localhost:3000'')
       (ps @ (case err of None \<Rightarrow> [] | Some e \<Rightarrow> [(''federation_error'', e)]))"

definition federation_start ::
  "fed_deps \<Rightarrow> request \<Rightarrow> fed_draws \<Rightarrow> string \<Rightarrow> query \<Rightarrow> redis \<times> discovery \<Rightarrow>
   (error + string \<times> (string \<times> string) list) \<times> redis \<times> discovery"
where
  "federation_start W rq dr i q st =
     (let ps = extractOAuthParams q in getAuthorizationUrl W rq dr i (login_url W ps None) ps st)"

definition FEDERATED_AMR :: "string list" where
  "FEDERATED_AMR = [''federated'']"

definition federation_callback ::
  "fed_deps \<Rightarrow> request \<Rightarrow> fed_entropy \<Rightarrow> string \<Rightarrow> string \<Rightarrow> query \<Rightarrow> (db \<times> redis \<times> discovery) \<times> web \<Rightarrow>
   string \<times> (db \<times> redis \<times> discovery) \<times> web"
where
  "federation_callback W rq fn fresh i q st =
     (case handleCallback W rq fn i q (fst st) of
        (Inl e, st1) \<Rightarrow>
          (login_url W [] (Some (if is_email_conflict e then ''email_conflict'' else ''federation_failed'')), st1, snd st)
      | (Inr r, st1) \<Rightarrow> (fs_return_to r, st1, establishSession fresh (us_id (fs_user r)) FEDERATED_AMR (snd st)))"

section \<open>Who a profile opens\<close>

lemma find_update_keep:
  "(\<And>x. p (f x) = p x) \<Longrightarrow> List.find p (update_many q f t) = map_option (\<lambda>x. if q x then f x else x) (List.find p t)"
  by (induction t) auto

lemma snapshot_keeps [simp]:
  "fi_user (snapshot p x) = fi_user x" "fi_provider (snapshot p x) = fi_provider x" "fi_subject (snapshot p x) = fi_subject x"
  by (simp_all add: snapshot_def)

text \<open>Whose a provider's subject is.\<close>

definition identity_owner :: "db \<Rightarrow> string \<Rightarrow> string \<Rightarrow> string option" where
  "identity_owner d a b = map_option fi_user (federated_identity d a b)"

lemma identity_owner_snapshot [simp]:
  "identity_owner (d\<lparr>oauth_identities := update_many q (snapshot p) (oauth_identities d)\<rparr>) a b = identity_owner d a b"
proof -
  have same: "(\<lambda>x. fi_user (if q x then snapshot p x else x)) = fi_user" by auto
  show ?thesis by (simp add: identity_owner_def federated_identity_def find_update_keep option.map_comp comp_def same)
qed

lemma linkIdentity_okE:
  assumes "linkIdentity row u p d = Inr d1"
  shows "users d1 = users d \<and> (\<forall>a b. identity_owner d1 a b =
    (if identity_owner d a b \<noteq> None then identity_owner d a b
     else if a = np_provider p \<and> b = np_subject p then Some u else None))"
  using assms
  by (auto simp: linkIdentity_def insert_identity_def identity_owner_def federated_identity_def find_append_None
      find_append_Some split: if_splits option.split)

lemma createIdentity_okE:
  assumes "createIdentity ie e n d = Inr (u, d1)"
  shows "u = new_identity ie e n \<and> users d1 = users d @ [u] \<and> us_id u \<notin> us_id ` set (users d)
    \<and> oauth_identities d1 = oauth_identities d"
  using assms
  by (auto simp: createIdentity_def Let_def insert_user_def list_ex_iff split: sum.splits if_splits)

lemma identity_owner_cong: "oauth_identities d1 = oauth_identities d \<Longrightarrow> identity_owner d1 = identity_owner d"
  by (simp add: identity_owner_def federated_identity_def fun_eq_iff)

text \<open>C23. A provider's word opens an account only three ways: as the identity that was linked before; as the account
  of an address the provider has verified; or as a new account, whose address counts as verified only if
  the provider says so.  Afterwards that identity belongs to the account that was opened, and nobody's
  identity has changed hands.\<close>

theorem federation_links_verified_only:
  assumes "resolveUser fn p d = (Inr (u, isNew), d')"
  shows "(\<not> isNew \<longrightarrow> identity_owner d (np_provider p) (np_subject p) = Some (us_id u)
        \<or> np_email_verified p \<and> truthy (np_email p) \<and> us_email u = np_email p \<and> u \<in> set (users d))
    \<and> (isNew \<longrightarrow> identity_owner d (np_provider p) (np_subject p) = None \<and> us_id u \<notin> us_id ` set (users d)
        \<and> us_email u = np_email p \<and> us_email_verified u = np_email_verified p)
    \<and> identity_owner d' (np_provider p) (np_subject p) = Some (us_id u)
    \<and> (\<forall>a b. identity_owner d a b \<noteq> None \<or> a \<noteq> np_provider p \<or> b \<noteq> np_subject p
         \<longrightarrow> identity_owner d' a b = identity_owner d a b)"
proof (cases "federated_identity d (np_provider p) (np_subject p)")
  case (Some x)
  then show ?thesis using assms
    by (auto simp: resolveUser_def identity_owner_def [of d "np_provider p"] dest: find_userD split: option.splits)
next
  case None
  then have none: "identity_owner d (np_provider p) (np_subject p) = None" by (simp add: identity_owner_def)
  show ?thesis
  proof (cases "if truthy (np_email p) then find_user_email d (nullish (np_email p) '''') else None")
    case (Some v)
    with assms None have "linkIdentity (fn_row fn) (us_id u) p d = Inr d'" "v = u" "\<not> isNew" "np_email_verified p"
      by (auto simp: resolveUser_def split: if_splits sum.splits)
    moreover have "truthy (np_email p)" "us_email v = np_email p" "v \<in> set (users d)"
      using Some by (auto simp: find_user_email_def split: if_splits elim!: truthyE dest!: find_SomeD)
    ultimately show ?thesis using linkIdentity_okE none by auto
  next
    case none': None
    from assms None none' obtain v d1 d2 where c: "createIdentity (fn_identity fn) (np_email p) (np_name p) d = Inr (v, d1)"
      and l: "linkIdentity (fn_row fn) (us_id v) p d2 = Inr d'" and d2: "oauth_identities d2 = oauth_identities d1"
      and u: "u = (if np_email_verified p \<or> truthy (np_avatar p) then shape_new p v else v)" and n: "isNew"
      by (auto simp: resolveUser_def Let_def update_user_def split: option.splits sum.splits if_splits)
    from createIdentity_okE [OF c] u have "us_id u = us_id v" "us_id u \<notin> us_id ` set (users d)"
      "us_email u = np_email p" "us_email_verified u = np_email_verified p"
      by (auto simp: shape_new_def new_identity_def)
    moreover have "identity_owner d2 = identity_owner d"
      using createIdentity_okE [OF c] d2 by (intro identity_owner_cong) simp
    ultimately show ?thesis using linkIdentity_okE [OF l] none n by auto
  qed
qed

section \<open>The round trip\<close>

text \<open>The customer lane's parameters do not make the trip.\<close>

lemma lane_is_dropped:
  "{''customer'', ''organization''} \<subseteq> fst ` set CARRIED_AUTHORIZE_PARAMS"
  "{''customer'', ''organization''} \<inter> fst ` set (extractOAuthParams q) = {}"
  by (auto simp: CARRIED_AUTHORIZE_PARAMS_def extractOAuthParams_def OAUTH_PASSTHROUGH_def)

lemma jget_federation_state [simp]:
  "jget (federation_state i v n r ps) ''provider'' = Some (JStr i)"
  "jget (federation_state i v n r ps) ''codeVerifier'' = map_option JStr v"
  "jget (federation_state i v n r ps) ''returnTo'' = Some (JStr r)"
  by (cases v; simp add: federation_state_def)+

lemma getAuthorizationUrl_okE:
  assumes "getAuthorizationUrl W rq dr i r ps (s, cache) = (Inr (a, qs), s1, cache1)"
  obtains cfg ep where "resolveConfig W i = Inr cfg" "getEndpoints W rq cfg cache = (Inr ep, cache1)" "a = ep_authorization ep"
    "(''state'', fr_state dr) \<in> set qs" "(''client_id'', pv_client cfg) \<in> set qs"
    "pv_pkce cfg \<longrightarrow> (''code_challenge'', p_sha256 (fe_prims W) (fr_verifier dr)) \<in> set qs"
    "s1 = redis_set (rq_now rq) (state_key (fr_state dr))
       (p_stringify (fe_prims W) (federation_state (pv_id cfg) (if pv_pkce cfg then Some (fr_verifier dr) else None) (fr_nonce dr) r ps))
       STATE_TTL_SECONDS s"
  using assms by (auto simp: getAuthorizationUrl_def Let_def split: sum.splits prod.splits)

text \<open>The text the state is kept as reads back as the state.\<close>

definition state_json_ok :: "fed_deps \<Rightarrow> json \<Rightarrow> bool" where
  "state_json_ok W j \<longleftrightarrow> p_stringify (fe_prims W) j \<noteq> [] \<and> p_json_parse (fe_prims W) (p_stringify (fe_prims W) j) = Some j"

lemma map_of_passthrough:
  "map_of (concat (map (\<lambda>k. if truthy (q k) then [(k, nullish (q k) '''')] else []) ks)) n
     = (if n \<in> set ks \<and> truthy (q n) then q n else None)"
  by (induction ks) (auto elim!: truthyE)

text \<open>The session a federated sign-in leaves behind the cookie it sets.\<close>

lemma signed_in_under:
  "wb_cookie (establishSession fresh u amr w) = Some (wb_id w)
   \<and> wb_store (establishSession fresh u amr w) (wb_id w) = Some (bind_user u amr (wb_session w))"
  by (simp add: establishSession_def save_as_def regenerate_def Let_def)

text \<open>C24. A federated sign-in comes back to where it set out.  If the provider sends a browser back within ten
  minutes with a code and the state it was given, the kept state being untouched meanwhile, and the provider redeems the code
  against the verifier whose challenge it was shown, the browser lands on the log-in page with these fourteen parameters of the request the
  journey began with, each with its value and no others (\<open>customer\<close> and \<open>organization\<close> are not among them); the session behind its cookie
  is that of the account the profile opens, by federation; and the state is spent.\<close>

theorem federation_round_trip:
  assumes start: "federation_start W rq dr i q0 (s, cache) = (Inr (a, qs), s1, cache1)"
    and cfg: "resolveConfig W i = Inr cfg"
    and json: "state_json_ok W (federation_state (pv_id cfg) (if pv_pkce cfg then Some (fr_verifier dr) else None) (fr_nonce dr)
        (login_url W (extractOAuthParams q0) None) (extractOAuthParams q0))"
    and kept: "redis_get (rq_now rq') (state_key (fr_state dr)) s' = redis_get (rq_now rq') (state_key (fr_state dr)) s1"
    and soon: "rq_now rq' < rq_now rq + 600 * 1000"
    and reply: "\<not> truthy (q ''error'')" "q ''state'' = Some (fr_state dr)" "fr_state dr \<noteq> []" "q ''code'' = Some code" "code \<noteq> []"
    and ep: "getEndpoints W rq' cfg cache' = (Inr ep, cache2)"
    and tokens: "exchangeCode W cfg ep code (if pv_pkce cfg then Some (fr_verifier dr) else None) = Inr tokens"
    and profile: "fetchProfile W cfg ep tokens = Inr p"
    and user: "resolveUser fn p d = (Inr (u, isNew), d')"
  shows "(\<exists>ps s2 w' k c. federation_callback W rq' fn fresh i q ((d, s', cache'), w)
        = (fe_url W (nullish (cf_env (fe_config W) ''FRONTEND_URL'') ''http://localhost:3000'') ps, (d', s2, cache2), w')
        \<and> (\<forall>n. map_of ps n = (if n \<in> {''client_id'', ''redirect_uri'', ''scope'', ''state'', ''code_challenge'',
               ''code_challenge_method'', ''response_type'', ''nonce'', ''prompt'', ''acr_values'', ''resource'',
               ''authorization_details'', ''ui_locales'', ''login_hint''} \<and> truthy (q0 n) then q0 n else None))
        \<and> wb_cookie w' = Some k \<and> wb_store w' k = Some c \<and> ck_user c = Some (us_id u) \<and> ck_amr c = Some [''federated'']
        \<and> (\<forall>t. redis_get t (state_key (fr_state dr)) s2 = None))
    \<and> (''state'', fr_state dr) \<in> set qs
    \<and> (pv_pkce cfg \<longrightarrow> (''code_challenge'', p_sha256 (fe_prims W) (fr_verifier dr)) \<in> set qs)"
proof -
  let ?j = "federation_state (pv_id cfg) (if pv_pkce cfg then Some (fr_verifier dr) else None) (fr_nonce dr)
        (login_url W (extractOAuthParams q0) None) (extractOAuthParams q0)"
  let ?k = "state_key (fr_state dr)"
  from start have "getAuthorizationUrl W rq dr i (login_url W (extractOAuthParams q0) None) (extractOAuthParams q0) (s, cache)
      = (Inr (a, qs), s1, cache1)" by (simp add: federation_start_def Let_def)
  then have qs: "(''state'', fr_state dr) \<in> set qs"
      "pv_pkce cfg \<longrightarrow> (''code_challenge'', p_sha256 (fe_prims W) (fr_verifier dr)) \<in> set qs"
    and s1: "s1 = redis_set (rq_now rq) ?k (p_stringify (fe_prims W) ?j) STATE_TTL_SECONDS s"
    using cfg by (auto elim!: getAuthorizationUrl_okE)
  have got: "redis_get (rq_now rq') ?k s' = Some (p_stringify (fe_prims W) ?j)"
    using kept soon by (simp add: s1 redis_get_set STATE_TTL_SECONDS_def)
  have v: "jstr (map_option JStr x) = x" for x by (cases x) simp_all
  have "handleCallback W rq' fn i q (d, s', cache') =
      (Inr \<lparr>fs_user = u, fs_new = isNew, fs_return_to = login_url W (extractOAuthParams q0) None\<rparr>, d',
       delete_many (\<lambda>e. ry_key e = ?k) s', cache2)"
    using cfg reply ep tokens profile user json got
    by (simp add: handleCallback_def redis_get_del_def state_json_ok_def v string_of_def nullish_def)
  then have "federation_callback W rq' fn fresh i q ((d, s', cache'), w)
      = (fe_url W (nullish (cf_env (fe_config W) ''FRONTEND_URL'') ''http://localhost:3000'') (extractOAuthParams q0),
         (d', delete_many (\<lambda>e. ry_key e = ?k) s', cache2), establishSession fresh (us_id u) [''federated''] w)"
    by (simp add: federation_callback_def FEDERATED_AMR_def login_url_def)
  moreover have "map_of (extractOAuthParams q0) n = (if n \<in> {''client_id'', ''redirect_uri'', ''scope'', ''state'', ''code_challenge'',
               ''code_challenge_method'', ''response_type'', ''nonce'', ''prompt'', ''acr_values'', ''resource'',
               ''authorization_details'', ''ui_locales'', ''login_hint''} \<and> truthy (q0 n) then q0 n else None)" for n
    unfolding extractOAuthParams_def map_of_passthrough OAUTH_PASSTHROUGH_def by (simp only: list.set)
  moreover have "ck_user (bind_user (us_id u) [''federated''] (wb_session w)) = Some (us_id u)"
    "ck_amr (bind_user (us_id u) [''federated''] (wb_session w)) = Some [''federated'']" by (simp_all add: bind_user_def)
  ultimately show ?thesis using qs signed_in_under [of fresh "us_id u" "[''federated'']" w] redis_get_deleted by blast
qed

section \<open>Witnesses\<close>

definition ann_profile :: json where
  "ann_profile = JObj [(''sub'', JStr ''g1''), (''email'', JStr ''ann@x.io''), (''email_verified'', JBool True)]"

definition google_entry :: fed_entry where
  "google_entry = \<lparr>fx_enabled = True, fx_name = [], fx_client = ''gc'', fx_secret = ''gs'', fx_scopes = [], fx_issuer = None\<rparr>"

definition google :: provider_config where
  "google = \<lparr>pv_id = ''google'', pv_name = ''Google'', pv_client = ''gc'', pv_secret = ''gs'',
     pv_scopes = [''openid'', ''email'', ''profile''], pv_pkce = True,
     pv_endpoints = Some (pm_endpoints (the (map_of STATIC_PROVIDERS ''google''))), pv_issuer = None\<rparr>"

definition google_state :: json where
  "google_state = federation_state ''google'' (Some ''verifier'') ''nonce'' ''http://localhost:3000'' [(''client_id'', ''shop'')]"

definition demo_fed :: fed_deps where
  "demo_fed = \<lparr>fe_prims = demo_prims (\<lambda>_. Some google_state), fe_config = demo_config,
     fe_entry = (\<lambda>i. if i = ''google'' then Some google_entry else None), fe_get = (\<lambda>_ _. Some ann_profile),
     fe_post = (\<lambda>_ _. Some (True, JObj [(''access_token'', JStr ''at'')])), fe_url = (\<lambda>b _. b)\<rparr>"

definition demo_draws :: fed_draws where
  "demo_draws = \<lparr>fr_state = ''st'', fr_nonce = ''nonce'', fr_verifier = ''verifier''\<rparr>"

definition demo_fed_entropy :: fed_entropy where
  "demo_fed_entropy = \<lparr>fn_identity = demo_identity, fn_row = ''fi1''\<rparr>"

definition google_profile :: provider_profile where
  "google_profile = normalizeGoogleProfile ann_profile"

definition ask_query :: query where
  "ask_query = [''client_id'' \<mapsto> ''shop'']"

definition answer_query :: query where
  "answer_query = [''code'' \<mapsto> ''c'', ''state'' \<mapsto> ''st'']"

lemma google_configured: "resolveConfig demo_fed ''google'' = Inr google"
  by (simp add: resolveConfig_def tryResolveConfig_def demo_fed_def google_entry_def fromDbEntry_def STATIC_PROVIDERS_def google_def)

lemma google_profile_fields [simp]:
  "np_provider google_profile = ''google''" "np_subject google_profile = ''g1''"
  "np_email google_profile = Some ''ann@x.io''" "np_email_verified google_profile"
  by (simp_all add: google_profile_def normalizeGoogleProfile_def ann_profile_def string_of_def claims_verified_def)

lemma google_opens_ann:
  "\<exists>d'. resolveUser demo_fed_entropy google_profile demo_db = (Inr (ann, False), d')"
proof -
  have "federated_identity demo_db ''google'' ''g1'' = None" "find_user_email demo_db ''ann@x.io'' = Some ann"
    "oauth_identities demo_db = []"
    by (simp_all add: federated_identity_def find_user_email_def demo_db_def ann_def)
  then show ?thesis by (simp add: resolveUser_def nullish_def linkIdentity_def insert_identity_def)
qed

theorem federation_links_verified_only_witness:
  "\<exists>d'. resolveUser demo_fed_entropy google_profile demo_db = (Inr (ann, False), d')
     \<and> identity_owner d' ''google'' ''g1'' = Some (us_id ann)"
proof -
  from google_opens_ann obtain d' where r: "resolveUser demo_fed_entropy google_profile demo_db = (Inr (ann, False), d')" ..
  from federation_links_verified_only [OF r] r show ?thesis by simp
qed

theorem federation_round_trip_witness:
  "\<exists>a qs s1 c1 st2 w' c ps.
     federation_start demo_fed (at_time 0) demo_draws ''google'' ask_query ([], []) = (Inr (a, qs), s1, c1)
     \<and> federation_callback demo_fed (at_time 5) demo_fed_entropy ''fresh'' ''google'' answer_query ((demo_db, s1, []), demo_web)
       = (fe_url demo_fed (nullish (cf_env (fe_config demo_fed) ''FRONTEND_URL'') ''http://localhost:3000'') ps, st2, w')
     \<and> map_of ps ''client_id'' = Some ''shop'' \<and> (\<exists>k. wb_cookie w' = Some k \<and> wb_store w' k = Some c) \<and> ck_user c = Some (us_id ann)"
proof -
  obtain a qs s1 c1 where start: "federation_start demo_fed (at_time 0) demo_draws ''google'' ask_query ([], []) = (Inr (a, qs), s1, c1)"
    by (auto simp: federation_start_def getAuthorizationUrl_def google_configured google_def getEndpoints_def Let_def)
  have ps: "extractOAuthParams ask_query = [(''client_id'', ''shop'')]"
    by (simp add: extractOAuthParams_def OAUTH_PASSTHROUGH_def ask_query_def nullish_def)
  have url: "login_url demo_fed xs None = ''http://localhost:3000''" for xs
    by (simp add: login_url_def demo_fed_def demo_config_def nullish_def)
  obtain d' where r: "resolveUser demo_fed_entropy google_profile demo_db = (Inr (ann, False), d')" using google_opens_ann ..
  have f: "pv_pkce google" "pv_id google = ''google''" "pv_endpoints google \<noteq> None" "fr_state demo_draws = ''st''"
    "fr_nonce demo_draws = ''nonce''" "fr_verifier demo_draws = ''verifier''"
    by (simp_all add: google_def demo_draws_def STATIC_PROVIDERS_def)
  have json: "state_json_ok demo_fed (federation_state (pv_id google) (if pv_pkce google then Some (fr_verifier demo_draws) else None)
      (fr_nonce demo_draws) (login_url demo_fed (extractOAuthParams ask_query) None) (extractOAuthParams ask_query))"
    by (simp only: ps url f if_True) (simp add: state_json_ok_def f demo_fed_def demo_prims_def demo_stringify_def google_state_def federation_state_def)
  let ?ep = "pm_endpoints (the (map_of STATIC_PROVIDERS ''google''))"
  let ?t = "JObj [(''access_token'', JStr ''at'')]"
  have ep: "getEndpoints demo_fed (at_time 5) google [] = (Inr ?ep, [])" by (simp add: getEndpoints_def google_def)
  have tok: "exchangeCode demo_fed google ?ep ''c'' (if pv_pkce google then Some (fr_verifier demo_draws) else None) = Inr ?t"
    by (simp add: exchangeCode_def demo_fed_def tokenResponseOk_def js_truthy_def js_falsy_def)
  have prof: "fetchProfile demo_fed google ?ep ?t = Inr google_profile"
    by (simp add: fetchProfile_def demo_fed_def google_def STATIC_PROVIDERS_def google_profile_def)
  have soon: "rq_now (at_time 5) < rq_now (at_time 0) + 600 * 1000" by (simp add: at_time_def)
  have home: "\<exists>ps s2 w' k c. federation_callback demo_fed (at_time 5) demo_fed_entropy ''fresh'' ''google'' answer_query ((demo_db, s1, []), demo_web)
        = (fe_url demo_fed (nullish (cf_env (fe_config demo_fed) ''FRONTEND_URL'') ''http://localhost:3000'') ps, (d', s2, []), w')
        \<and> map_of ps ''client_id'' = (if truthy (ask_query ''client_id'') then ask_query ''client_id'' else None)
        \<and> wb_cookie w' = Some k \<and> wb_store w' k = Some c \<and> ck_user c = Some (us_id ann)"
    using federation_round_trip [OF start google_configured json refl soon, of answer_query "''c''" "[]" ?ep "[]" ?t google_profile
      demo_fed_entropy demo_db ann False d' "''fresh''" demo_web] ep tok prof r
    by (fastforce simp: answer_query_def f)
  have "ask_query ''client_id'' = Some ''shop''" by (simp add: ask_query_def)
  then show ?thesis using start home by fastforce
qed

end
