(* ===== verification/Admin_Access.thy ===== *)
theory Admin_Access
  imports Session_Endpoints
begin

text \<open>
  Who may operate the service, and for which tenant: \<open>src/auth/guards/admin.guard.ts\<close>,
  \<open>src/auth/guards/superadmin.guard.ts\<close> and \<open>src/admin/admin-scope.ts\<close>.
\<close>

definition isUserAdmin :: "json option \<Rightarrow> bool" where
  "isUserAdmin metadata =
     (case nn metadata of
        None \<Rightarrow> False
      | Some m \<Rightarrow> jget m ''isAdmin'' = Some (JBool True) \<or> JStr ''admin'' \<in> set (meta_list m ''roles'')
          \<or> JStr ''superadmin'' \<in> set (meta_list m ''roles''))"

definition resolveMachineScope :: "machine_principal \<Rightarrow> string list \<Rightarrow> admin_scope option" where
  "resolveMachineScope m scope =
     (if ''admin'' \<notin> set scope then None
      else (case mp_company m of Some c \<Rightarrow> if c \<noteq> [] then Some (Scoped c) else Some Superadmin | None \<Rightarrow> Some Superadmin))"

definition resolveAdminScope :: "principal \<Rightarrow> admin_scope option" where
  "resolveAdminScope p =
     (case pr_kind p of
        Machine m \<Rightarrow> resolveMachineScope m (pr_scope p)
      | Person u \<Rightarrow> resolveUserScope (nn (us_metadata u)))"

definition admin_guard :: "(string \<Rightarrow> json option) \<Rightarrow> string option \<Rightarrow> db \<Rightarrow> error + principal" where
  "admin_guard verify bearer d =
     (case bearer_principal verify bearer d of
        Inl e \<Rightarrow> Inl e
      | Inr p \<Rightarrow>
          (case pr_kind p of
             Machine m \<Rightarrow> if ''admin'' \<in> set (pr_scope p) then Inr p else Inl (Forbidden (Msg ''Admin scope required''))
           | Person u \<Rightarrow> if isUserAdmin (us_metadata u) then Inr p else Inl (Forbidden (Msg ''Admin access required''))))"

definition superadmin_guard :: "(string \<Rightarrow> json option) \<Rightarrow> string option \<Rightarrow> db \<Rightarrow> error + principal" where
  "superadmin_guard verify bearer d =
     (case admin_guard verify bearer d of
        Inl e \<Rightarrow> Inl e
      | Inr p \<Rightarrow> if resolveAdminScope p = Some Superadmin then Inr p
                 else Inl (Forbidden (Msg ''superadmin access required'')))"

text \<open>\<open>scope(user)\<close> of the controllers behind the guard.\<close>

definition admin_scope_of :: "(string \<Rightarrow> json option) \<Rightarrow> string option \<Rightarrow> db \<Rightarrow> error + admin_scope" where
  "admin_scope_of verify bearer d =
     (case admin_guard verify bearer d of
        Inl e \<Rightarrow> Inl e
      | Inr p \<Rightarrow> (case resolveAdminScope p of
                    None \<Rightarrow> Inl (Forbidden (Msg ''admin access required'')) | Some sc \<Rightarrow> Inr sc))"

text \<open>\<open>applyScopeFilter\<close> as the rows it lets a query see.\<close>

fun in_scope :: "admin_scope \<Rightarrow> string option \<Rightarrow> bool" where
  "in_scope Superadmin c = True"
| "in_scope (Scoped t) c = (c = Some t)"

section \<open>Lemmas\<close>

text \<open>Whoever passes the guard has a scope.  The converse fails: a user marked \<open>isSuperadmin\<close> only is refused.\<close>

lemma isUserAdmin_scope: "isUserAdmin m \<Longrightarrow> resolveUserScope (nn m) \<noteq> None"
  by (auto simp: isUserAdmin_def resolveUserScope_def Let_def split: option.splits)

lemma admin_scope_of_iff:
  "admin_scope_of verify bearer d = Inr sc \<longleftrightarrow> (\<exists>p. admin_guard verify bearer d = Inr p \<and> resolveAdminScope p = Some sc)"
  by (auto simp: admin_scope_of_def split: sum.splits option.splits)

lemma admin_guard_has_scope:
  assumes "admin_guard verify bearer d = Inr p"
  shows "\<exists>sc. admin_scope_of verify bearer d = Inr sc"
proof -
  have "resolveAdminScope p \<noteq> None"
    using assms isUserAdmin_scope
    by (auto simp: admin_guard_def resolveAdminScope_def resolveMachineScope_def split: sum.splits principal_kind.splits if_splits option.splits)
  then show ?thesis using assms by (auto simp: admin_scope_of_iff)
qed

end
