(* ===== verification/Saml.thy ===== *)
theory Saml
  imports Federation Admin_Access
begin

text \<open>
  Enterprise single sign-on: \<open>src/auth/saml/\<close> (\<open>saml.service.ts\<close>, \<open>saml.controller.ts\<close>, \<open>saml-connection.store.ts\<close>,
  \<open>saml-admin.service.ts\<close>, \<open>saml-admin.controller.ts\<close> and the feature's guard).  What node-saml accepts under a
  configuration is a parameter, as is the resolution of a URL against a base.
\<close>

section \<open>Connections\<close>

record saml_row =
  sl_id :: string
  sl_company :: string
  sl_slug :: string
  sl_name :: string
  sl_enabled :: bool
  sl_entity :: string
  sl_sso :: string
  sl_cert_enc :: string

type_synonym saml_table = "saml_row list"

record saml_connection =
  sn_id :: string
  sn_company :: string
  sn_slug :: string
  sn_name :: string
  sn_entity :: string
  sn_sso :: string
  sn_cert :: string

text \<open>What of \<open>SamlConfig\<close> depends on the connection; signed assertions are always wanted.\<close>

record saml_config =
  sf_cert :: string
  sf_idp_issuer :: string
  sf_issuer :: string
  sf_callback :: string
  sf_entry :: string
  sf_audience :: string

text \<open>
  \<open>sd_validate\<close> answers none where node-saml throws, and otherwise the profile, if any; \<open>sd_authorize\<close> is the URL of
  a request; \<open>sd_resolve\<close> is \<open>new URL(candidate, base)\<close>, as its origin and its text.
\<close>

record saml_deps =
  sd_config :: config
  sd_prims :: prims
  sd_crypto :: field_crypto
  sd_validate :: "saml_config \<Rightarrow> string \<Rightarrow> json option option"
  sd_authorize :: "saml_config \<Rightarrow> string \<Rightarrow> string option"
  sd_metadata :: "saml_config \<Rightarrow> string"
  sd_resolve :: "string \<Rightarrow> string \<Rightarrow> (string \<times> string) option"

definition saml_enabled :: "saml_deps \<Rightarrow> error + unit" where
  "saml_enabled S =
     (if setting_flag (sd_config S) ''SAML_ENABLED'' then Inr () else Inl (Not_Found (Msg ''SAML is not enabled'')))"

definition findEnabledBySlug :: "saml_deps \<Rightarrow> string \<Rightarrow> saml_table \<Rightarrow> error + saml_connection" where
  "findEnabledBySlug S slug t =
     (case List.find (\<lambda>r. sl_slug r = slug) t of
        None \<Rightarrow> Inl (Not_Found (Msg ''no enabled SAML connection''))
      | Some r \<Rightarrow>
          if \<not> sl_enabled r then Inl (Not_Found (Msg ''no enabled SAML connection''))
          else (case decrypt (sd_prims S) (sd_crypto S) (sl_cert_enc r) of
                  Inl e \<Rightarrow> Inl e
                | Inr cert \<Rightarrow> Inr \<lparr>sn_id = sl_id r, sn_company = sl_company r, sn_slug = sl_slug r, sn_name = sl_name r,
                    sn_entity = sl_entity r, sn_sso = sl_sso r, sn_cert = cert\<rparr>))"

definition base_url :: "config \<Rightarrow> string" where
  "base_url cf = (case cf_env cf ''OIDC_ISSUER'' of Some b \<Rightarrow> b | None \<Rightarrow> nullish (cf_env cf ''JWT_ISSUER'') ''http://localhost:3002'')"

definition spEntityId :: "config \<Rightarrow> string \<Rightarrow> string" where
  "spEntityId cf slug = base_url cf @ ''/v1/auth/saml/'' @ slug @ ''/metadata''"

definition acsUrl :: "config \<Rightarrow> string \<Rightarrow> string" where
  "acsUrl cf slug = base_url cf @ ''/v1/auth/saml/'' @ slug @ ''/acs''"

definition buildConfig :: "saml_deps \<Rightarrow> saml_connection \<Rightarrow> saml_config" where
  "buildConfig S c =
     \<lparr>sf_cert = sn_cert c, sf_idp_issuer = sn_entity c, sf_issuer = spEntityId (sd_config S) (sn_slug c),
      sf_callback = acsUrl (sd_config S) (sn_slug c), sf_entry = sn_sso c, sf_audience = spEntityId (sd_config S) (sn_slug c)\<rparr>"

section \<open>Profiles\<close>

definition DISPLAY_NAME_ATTRS :: "string list" where
  "DISPLAY_NAME_ATTRS = [''displayName'', ''urn:oid:2.16.840.1.113730.3.1.241'',
     ''http://schemas.microsoft.com/identity/claims/displayname'', ''urn:oid:2.5.4.3'']"

definition with_at :: "json option \<Rightarrow> string option" where
  "with_at v = (case jstr v of Some s \<Rightarrow> if CHR ''@'' \<in> set s then Some s else None | None \<Rightarrow> None)"

definition pickEmail :: "json \<Rightarrow> string option" where
  "pickEmail p =
     (case with_at (case nn (jget p ''email'') of Some v \<Rightarrow> Some v | None \<Rightarrow> jget p ''mail'') of
        Some e \<Rightarrow> Some e
      | None \<Rightarrow> with_at (jget p ''nameID''))"

definition pickDisplayName :: "json \<Rightarrow> string option" where
  "pickDisplayName p =
     (case List.find (\<lambda>k. case jstr (jget p k) of Some s \<Rightarrow> trim s \<noteq> [] | None \<Rightarrow> False) DISPLAY_NAME_ATTRS of
        None \<Rightarrow> None | Some k \<Rightarrow> map_option trim (jstr (jget p k)))"

text \<open>A profile without a \<open>nameID\<close> fails when Prisma looks it up: none.\<close>

definition toNormalizedProfile :: "saml_connection \<Rightarrow> json \<Rightarrow> provider_profile option" where
  "toNormalizedProfile c p =
     map_option (\<lambda>s. \<lparr>np_provider = ''saml:'' @ sn_slug c, np_subject = s, np_email = pickEmail p, np_email_verified = True,
        np_name = pickDisplayName p, np_avatar = None\<rparr>) (jstr (jget p ''nameID''))"

definition saml_validate :: "saml_deps \<Rightarrow> saml_connection \<Rightarrow> string \<Rightarrow> error + json" where
  "saml_validate S c response =
     (case sd_validate S (buildConfig S c) response of
        None \<Rightarrow> Inl (Server_Error ''SAML'')
      | Some None \<Rightarrow> Inl (Unauthorized (Msg ''SAML response carried no assertion''))
      | Some (Some p) \<Rightarrow> Inr p)"

section \<open>The endpoints\<close>

definition frontend_base :: "saml_deps \<Rightarrow> string" where
  "frontend_base S = nullish (cf_env (sd_config S) ''FRONTEND_URL'') ''http://localhost:3000''"

definition resolved_text :: "saml_deps \<Rightarrow> string \<Rightarrow> string \<Rightarrow> string" where
  "resolved_text S candidate base = (case sd_resolve S candidate base of Some (_, t) \<Rightarrow> t | None \<Rightarrow> '''')"

definition url_origin_of :: "saml_deps \<Rightarrow> string option" where
  "url_origin_of S = map_option fst (sd_resolve S '''' (frontend_base S))"

definition safeReturnTo :: "saml_deps \<Rightarrow> string option \<Rightarrow> string" where
  "safeReturnTo S candidate =
     (let root = resolved_text S ''/'' (frontend_base S)
      in if \<not> truthy candidate then root
         else (case sd_resolve S (nullish candidate '''') (frontend_base S) of
                 None \<Rightarrow> root
               | Some (origin, t) \<Rightarrow> if Some origin = url_origin_of S then t else root))"

definition saml_login_url :: "saml_deps \<Rightarrow> string" where
  "saml_login_url S = resolved_text S ''/login'' (frontend_base S) @ ''?federation_error=saml_failed''"

definition saml_start :: "saml_deps \<Rightarrow> string \<Rightarrow> string option \<Rightarrow> saml_table \<Rightarrow> error + string" where
  "saml_start S slug returnTo t =
     (case saml_enabled S of
        Inl e \<Rightarrow> Inl e
      | Inr _ \<Rightarrow>
          (case findEnabledBySlug S slug t of
             Inl e \<Rightarrow> Inl e
           | Inr c \<Rightarrow> (case sd_authorize S (buildConfig S c) (safeReturnTo S returnTo) of
                         None \<Rightarrow> Inl (Server_Error ''SAML'') | Some u \<Rightarrow> Inr u)))"

text \<open>What is inside the \<open>try\<close> of the consumer.\<close>

definition saml_user :: "saml_deps \<Rightarrow> fed_entropy \<Rightarrow> saml_connection \<Rightarrow> string \<Rightarrow> db \<Rightarrow> (error + user_row) \<times> db" where
  "saml_user S fn c response d =
     (case saml_validate S c response of
        Inl e \<Rightarrow> (Inl e, d)
      | Inr profile \<Rightarrow>
          (case toNormalizedProfile c profile of
             None \<Rightarrow> (Inl (Server_Error ''prisma''), d)
           | Some p \<Rightarrow> map_prod (map_sum id fst) id (resolveUser fn p d)))"

definition SAML_AMR :: "string list" where "SAML_AMR = [''federated'', ''saml'']"

definition acs ::
  "saml_deps \<Rightarrow> fed_entropy \<Rightarrow> string \<Rightarrow> string \<Rightarrow> string option \<Rightarrow> string option \<Rightarrow> saml_table \<Rightarrow> db \<times> web \<Rightarrow>
   (error + string) \<times> db \<times> web"
where
  "acs S fn fresh slug response relay t st =
     (case saml_enabled S of
        Inl e \<Rightarrow> (Inl e, st)
      | Inr _ \<Rightarrow>
          (case findEnabledBySlug S slug t of
             Inl e \<Rightarrow> (Inl e, st)
           | Inr c \<Rightarrow>
               if \<not> truthy response then (Inl (Bad_Request (Msg ''SAMLResponse is required'')), st)
               else (case saml_user S fn c (nullish response '''') (fst st) of
                       (Inl e, d1) \<Rightarrow> (Inr (saml_login_url S), d1, snd st)
                     | (Inr u, d1) \<Rightarrow>
                         (Inr (safeReturnTo S relay), d1, establishSession fresh (us_id u) SAML_AMR (snd st)))))"

section \<open>Administration\<close>

record saml_input =
  si_company :: string
  si_slug :: string
  si_name :: string
  si_entity :: string
  si_sso :: string
  si_cert :: string
  si_enabled :: "bool option"

record saml_view =
  sv_id :: string
  sv_company :: string
  sv_slug :: string
  sv_name :: string
  sv_enabled :: bool
  sv_entity :: string
  sv_sso :: string

definition toView :: "saml_row \<Rightarrow> saml_view" where
  "toView r = \<lparr>sv_id = sl_id r, sv_company = sl_company r, sv_slug = sl_slug r, sv_name = sl_name r, sv_enabled = sl_enabled r,
     sv_entity = sl_entity r, sv_sso = sl_sso r\<rparr>"

definition saml_create ::
  "saml_deps \<Rightarrow> admin_scope \<Rightarrow> string \<Rightarrow> string \<Rightarrow> saml_input \<Rightarrow> saml_table \<Rightarrow> (error + saml_view) \<times> saml_table"
where
  "saml_create S scope row iv i t =
     (if scope \<noteq> Superadmin \<and> scope \<noteq> Scoped (si_company i)
      then (Inl (Bad_Request (Msg ''cannot create a connection outside your tenant'')), t)
      else if list_ex (\<lambda>r. sl_slug r = si_slug i) t then (Inl Db_Conflict, t)
      else (case encrypt (sd_prims S) (sd_crypto S) iv (si_cert i) of
              Inl e \<Rightarrow> (Inl e, t)
            | Inr enc \<Rightarrow>
                (let r = \<lparr>sl_id = row, sl_company = si_company i, sl_slug = si_slug i, sl_name = si_name i,
                       sl_enabled = nullish (si_enabled i) True, sl_entity = si_entity i, sl_sso = si_sso i, sl_cert_enc = enc\<rparr>
                 in (Inr (toView r), t @ [r]))))"

definition saml_list :: "admin_scope \<Rightarrow> saml_table \<Rightarrow> saml_view list" where
  "saml_list scope t = map toView (rev (filter (\<lambda>r. in_scope scope (Some (sl_company r))) t))"

definition saml_remove :: "admin_scope \<Rightarrow> string \<Rightarrow> saml_table \<Rightarrow> (error + unit) \<times> saml_table" where
  "saml_remove scope i t =
     (case List.find (\<lambda>r. sl_id r = i \<and> in_scope scope (Some (sl_company r))) t of
        None \<Rightarrow> (Inl (Not_Found (Msg ''SAML connection not found'')), t)
      | Some r \<Rightarrow> (Inr (), delete_many (\<lambda>x. sl_id x = sl_id r) t))"

text \<open>The controller: the scope of the caller first.\<close>

definition create_connection ::
  "saml_deps \<Rightarrow> (string \<Rightarrow> json option) \<Rightarrow> string option \<Rightarrow> db \<Rightarrow> string \<Rightarrow> string \<Rightarrow> saml_input \<Rightarrow> saml_table \<Rightarrow>
   (error + saml_view) \<times> saml_table"
where
  "create_connection S verify bearer d row iv i t =
     (case admin_scope_of verify bearer d of Inl e \<Rightarrow> (Inl e, t) | Inr sc \<Rightarrow> saml_create S sc row iv i t)"

section \<open>What a connection can do\<close>

text \<open>A tenant sees, adds and removes only its own connections, and what it sees carries no certificate.\<close>

theorem saml_admin_keeps_tenant:
  assumes "distinct (map sl_id t)"
  shows "(\<forall>v \<in> set (saml_list (Scoped c) t). sv_company v = c)
    \<and> filter (\<lambda>r. sl_company r \<noteq> c) (snd (saml_create S (Scoped c) row iv i t)) = filter (\<lambda>r. sl_company r \<noteq> c) t
    \<and> filter (\<lambda>r. sl_company r \<noteq> c) (snd (saml_remove (Scoped c) j t)) = filter (\<lambda>r. sl_company r \<noteq> c) t"
proof (intro conjI)
  show "\<forall>v \<in> set (saml_list (Scoped c) t). sv_company v = c"
    by (auto simp: saml_list_def toView_def)
  show "filter (\<lambda>r. sl_company r \<noteq> c) (snd (saml_create S (Scoped c) row iv i t)) = filter (\<lambda>r. sl_company r \<noteq> c) t"
    by (auto simp: saml_create_def Let_def split: sum.split)
  show "filter (\<lambda>r. sl_company r \<noteq> c) (snd (saml_remove (Scoped c) j t)) = filter (\<lambda>r. sl_company r \<noteq> c) t"
  proof (cases "List.find (\<lambda>r. sl_id r = j \<and> in_scope (Scoped c) (Some (sl_company r))) t")
    case (Some r)
    then have r: "r \<in> set t" "sl_company r = c" by (auto dest: find_SomeD)
    have "sl_company x \<noteq> c \<longrightarrow> sl_id x \<noteq> sl_id r" if "x \<in> set t" for x
      using that r assms by (auto simp: distinct_map dest: inj_onD)
    then have "filter (\<lambda>x. sl_company x \<noteq> c) (delete_many (\<lambda>x. sl_id x = sl_id r) t) = filter (\<lambda>x. sl_company x \<noteq> c) t"
      by (auto simp: delete_many_def intro: filter_cong)
    with Some show ?thesis by (simp add: saml_remove_def)
  qed (simp add: saml_remove_def)
qed

text \<open>Wherever the consumer sends the browser, it is our log-in page, the front end's root, or an address of the
  front end's own origin: what comes back as the relay state cannot send it elsewhere.\<close>

theorem saml_return_stays_home:
  assumes "acs S fn fresh slug response relay t st = (Inr target, st')"
  shows "target = saml_login_url S \<or> target = resolved_text S ''/'' (frontend_base S)
    \<or> (\<exists>candidate origin. sd_resolve S candidate (frontend_base S) = Some (origin, target) \<and> Some origin = url_origin_of S)"
  using assms
  by (auto simp: acs_def safeReturnTo_def Let_def split: sum.splits prod.splits if_splits option.splits)

lemma saml_created:
  assumes "saml_create S scope row iv i t = (Inr v, t')" and "cipher_ok (sd_prims S) k" and "fc_key (sd_crypto S) = Some k" and "no_dot iv"
    and "nullish (si_enabled i) True"
  shows "findEnabledBySlug S (si_slug i) t' = Inr \<lparr>sn_id = row, sn_company = si_company i, sn_slug = si_slug i, sn_name = si_name i,
    sn_entity = si_entity i, sn_sso = si_sso i, sn_cert = si_cert i\<rparr>"
proof -
  from assms(1) obtain enc where e: "encrypt (sd_prims S) (sd_crypto S) iv (si_cert i) = Inr enc"
    and t': "t' = t @ [\<lparr>sl_id = row, sl_company = si_company i, sl_slug = si_slug i, sl_name = si_name i,
                       sl_enabled = nullish (si_enabled i) True, sl_entity = si_entity i, sl_sso = si_sso i, sl_cert_enc = enc\<rparr>]"
    and new: "\<not> list_ex (\<lambda>r. sl_slug r = si_slug i) t"
    by (auto simp: saml_create_def Let_def split: sum.splits if_splits)
  from new have "List.find (\<lambda>r. sl_slug r = si_slug i) t = None" by (auto simp: find_None_iff list_ex_iff)
  moreover have "decrypt (sd_prims S) (sd_crypto S) enc = Inr (si_cert i)"
    using decrypt_encrypt e assms(2,3,4) by blast
  ultimately show ?thesis using assms(5) by (simp add: findEnabledBySlug_def t' find_append_None)
qed

text \<open>C39. The word of a tenant's own identity provider opens any account of any tenant.  An operator of one tenant
  registers a connection with a certificate of their own, has it vouch for an address, and the browser that
  brings the assertion is signed in as whoever has that address, a superadmin included: nothing compares the
  tenant of the connection with the account.\<close>

theorem saml_takes_any_account:
  assumes made: "saml_create S (Scoped c) row iv i t = (Inr v, t')" "nullish (si_enabled i) True"
    and crypto: "cipher_ok (sd_prims S) k" "fc_key (sd_crypto S) = Some k" "no_dot iv"
    and on: "saml_enabled S = Inr ()"
    and idp: "sd_validate S (buildConfig S \<lparr>sn_id = row, sn_company = si_company i, sn_slug = si_slug i, sn_name = si_name i,
        sn_entity = si_entity i, sn_sso = si_sso i, sn_cert = si_cert i\<rparr>) response = Some (Some profile)"
      "jstr (jget profile ''nameID'') = Some subject" "pickEmail profile = Some e"
    and victim: "find_user_email d e = Some u" "response \<noteq> []" "e \<noteq> []"
    and first: "federated_identity d (''saml:'' @ si_slug i) subject = None" "\<forall>x \<in> set (oauth_identities d). fi_id x \<noteq> fn_row fn"
  shows "\<exists>d'. acs S fn fresh (si_slug i) (Some response) relay t' (d, w)
    = (Inr (safeReturnTo S relay), d', establishSession fresh (us_id u) [''federated'', ''saml''] w)"
proof -
  let ?c = "\<lparr>sn_id = row, sn_company = si_company i, sn_slug = si_slug i, sn_name = si_name i,
    sn_entity = si_entity i, sn_sso = si_sso i, sn_cert = si_cert i\<rparr>"
  let ?p = "\<lparr>np_provider = ''saml:'' @ si_slug i, np_subject = subject, np_email = Some e, np_email_verified = True,
        np_name = pickDisplayName profile, np_avatar = None\<rparr>"
  have c: "findEnabledBySlug S (si_slug i) t' = Inr ?c" by (rule saml_created [OF made(1) crypto made(2)])
  have "\<not> list_ex (\<lambda>y. fi_id y = fn_row fn \<or> fi_provider y = ''saml:'' @ si_slug i \<and> fi_subject y = subject) (oauth_identities d)"
    using first by (auto simp: list_ex_iff federated_identity_def find_None_iff)
  then obtain d1 where "linkIdentity (fn_row fn) (us_id u) ?p d = Inr d1"
    by (auto simp: linkIdentity_def insert_identity_def)
  then have "resolveUser fn ?p d = (Inr (u, False), d1)"
    using first(1) victim by (simp add: resolveUser_def)
  then have "saml_user S fn ?c response d = (Inr u, d1)"
    using idp by (simp add: saml_user_def saml_validate_def toNormalizedProfile_def)
  then show ?thesis using c on victim(2) by (simp add: acs_def SAML_AMR_def)
qed

section \<open>Witnesses\<close>

definition evil_profile :: json where
  "evil_profile = JObj [(''nameID'', JStr ''mallory''), (''email'', JStr ''ann@x.io'')]"

definition demo_saml :: saml_deps where
  "demo_saml = \<lparr>sd_config = demo_config\<lparr>cf_env := [''SAML_ENABLED'' \<mapsto> ''true'']\<rparr>, sd_prims = P0, sd_crypto = \<lparr>fc_key = Some ''key''\<rparr>,
     sd_validate = (\<lambda>_ _. Some (Some evil_profile)), sd_authorize = (\<lambda>_ _. None), sd_metadata = (\<lambda>_. ''''),
     sd_resolve = (\<lambda>c b. Some (b, b @ c))\<rparr>"

definition evil_input :: saml_input where
  "evil_input = \<lparr>si_company = ''globex'', si_slug = ''globex'', si_name = ''Globex'', si_entity = ''idp'', si_sso = ''https://idp.globex/sso'',
     si_cert = ''pem'', si_enabled = None\<rparr>"

definition acme_row :: saml_row where
  "acme_row = \<lparr>sl_id = ''s1'', sl_company = ''acme'', sl_slug = ''acme'', sl_name = ''Acme'', sl_enabled = True,
     sl_entity = ''idp'', sl_sso = ''sso'', sl_cert_enc = ''pem''\<rparr>"

lemma demo_saml_simps [simp]:
  "sd_prims demo_saml = P0" "sd_crypto demo_saml = \<lparr>fc_key = Some ''key''\<rparr>" "sd_validate demo_saml x y = Some (Some evil_profile)"
  by (simp_all add: demo_saml_def)

lemma demo_saml_on: "saml_enabled demo_saml = Inr ()"
  by (simp add: saml_enabled_def setting_flag_def setting_raw_def demo_saml_def demo_config_def)

lemma demo_saml_created:
  "\<exists>v t'. saml_create demo_saml (Scoped ''globex'') ''s9'' ''iv'' evil_input [] = (Inr v, t')"
  by (simp add: saml_create_def evil_input_def encrypt_def Let_def split: prod.split)

theorem saml_admin_keeps_tenant_witness:
  "filter (\<lambda>r. sl_company r \<noteq> ''globex'') (snd (saml_remove (Scoped ''globex'') ''s1'' [acme_row])) = [acme_row]"
proof -
  have "distinct (map sl_id [acme_row])" "filter (\<lambda>r. sl_company r \<noteq> ''globex'') [acme_row] = [acme_row]"
    by (simp_all add: acme_row_def)
  with saml_admin_keeps_tenant [of "[acme_row]" "''globex''" demo_saml "''s9''" "''iv''" evil_input "''s1''"] show ?thesis by simp
qed

lemma demo_victim:
  "find_user_email demo_db ''ann@x.io'' = Some ann" "federated_identity demo_db (''saml:'' @ ''globex'') ''mallory'' = None"
  "\<forall>x \<in> set (oauth_identities demo_db). fi_id x \<noteq> fn_row demo_fed_entropy"
  by (simp_all add: find_user_email_def federated_identity_def demo_db_def ann_def)

lemma demo_profile: "jstr (jget evil_profile ''nameID'') = Some ''mallory''" "pickEmail evil_profile = Some ''ann@x.io''"
  by (simp_all add: evil_profile_def pickEmail_def with_at_def nn_def)

theorem saml_takes_any_account_witness:
  "\<exists>v t' d' target. saml_create demo_saml (Scoped ''globex'') ''s9'' ''iv'' evil_input [] = (Inr v, t')
     \<and> acs demo_saml demo_fed_entropy ''fresh'' ''globex'' (Some ''assertion'') None t' (demo_db, demo_web)
       = (Inr target, d', establishSession ''fresh'' (us_id ann) [''federated'', ''saml''] demo_web)"
proof -
  obtain v t' where made: "saml_create demo_saml (Scoped ''globex'') ''s9'' ''iv'' evil_input [] = (Inr v, t')"
    using demo_saml_created by blast
  have s: "si_slug evil_input = ''globex''" "nullish (si_enabled evil_input) True" by (simp_all add: evil_input_def)
  have c: "cipher_ok (sd_prims demo_saml) ''key''" "fc_key (sd_crypto demo_saml) = Some ''key''" "no_dot ''iv''"
    using demo_cipher_ok by (simp_all add: no_dot_def)
  from saml_takes_any_account [OF made s(2) c demo_saml_on demo_saml_simps(3) demo_profile demo_victim(1) _ _ _ demo_victim(3),
      of "''assertion''" "''fresh''" None demo_web] demo_victim(2)
  show ?thesis using made unfolding s(1) by auto
qed

theorem saml_return_stays_home_witness:
  "\<exists>target d' w'. acs demo_saml demo_fed_entropy ''fresh'' ''acme'' (Some ''assertion'') (Some ''/account'') [acme_row] (demo_db, demo_web)
       = (Inr target, d', w')
     \<and> (target = saml_login_url demo_saml \<or> target = resolved_text demo_saml ''/'' (frontend_base demo_saml)
        \<or> (\<exists>candidate origin. sd_resolve demo_saml candidate (frontend_base demo_saml) = Some (origin, target)
             \<and> Some origin = url_origin_of demo_saml))"
proof -
  obtain c where c: "findEnabledBySlug demo_saml ''acme'' [acme_row] = Inr c"
    by (simp add: findEnabledBySlug_def acme_row_def decrypt_def isEncrypted_def)
  obtain target st' where "acs demo_saml demo_fed_entropy ''fresh'' ''acme'' (Some ''assertion'') (Some ''/account'') [acme_row] (demo_db, demo_web)
       = (Inr target, st')"
    by (cases "saml_user demo_saml demo_fed_entropy c ''assertion'' demo_db"; cases "fst (saml_user demo_saml demo_fed_entropy c ''assertion'' demo_db)")
      (auto simp: acs_def demo_saml_on c)
  with saml_return_stays_home [OF this] show ?thesis by (metis surj_pair)
qed

end
