(* ===== verification/Second_Factor.thy ===== *)
theory Second_Factor
  imports Own_Account Field_Crypto
begin

text \<open>
  The authenticator app and its recovery codes: \<open>src/identity/identity-mfa.service.ts\<close> and
  \<open>src/identity/backup-codes.ts\<close>.  The check of a time-based code (speakeasy, a window of two steps),
  the hash of a recovery code and the picture of the set-up are parameters; what is drawn at random is
  an argument.
\<close>

record mfa_deps =
  mf_prims :: prims
  mf_crypto :: field_crypto
  mf_totp :: "string \<Rightarrow> string \<Rightarrow> time \<Rightarrow> bool"
  mf_compare :: "string \<Rightarrow> string \<Rightarrow> bool"
  mf_hash :: "string \<Rightarrow> string"
  mf_otpauth :: "string \<Rightarrow> string \<Rightarrow> string"
  mf_qr :: "string \<Rightarrow> string"

record mfa_entropy =
  me_iv :: string
  me_secret :: string
  me_codes :: "nat list list"

section \<open>Recovery codes\<close>

definition hex_lower :: "nat \<Rightarrow> char" where
  "hex_lower n = char_of (if n < 10 then 48 + n else 87 + n)"

text \<open>\<open>toString('hex')\<close> of bytes.\<close>

definition hex_bytes :: "nat list \<Rightarrow> string" where
  "hex_bytes bs = concat (map (\<lambda>b. [hex_lower (b div 16), hex_lower (b mod 16)]) bs)"

definition BACKUP_CODE_COUNT :: nat where "BACKUP_CODE_COUNT = 10"
definition BACKUP_CODE_BYTES :: nat where "BACKUP_CODE_BYTES = 4"

text \<open>What the random source draws: ten times four bytes.\<close>

definition draws_ok :: "nat list list \<Rightarrow> bool" where
  "draws_ok bss \<longleftrightarrow> length bss = BACKUP_CODE_COUNT \<and> (\<forall>bs \<in> set bss. length bs = BACKUP_CODE_BYTES \<and> (\<forall>b \<in> set bs. b < 256))"

definition generateBackupCodes :: "nat list list \<Rightarrow> string list" where
  "generateBackupCodes bss = map (\<lambda>bs. upper (hex_bytes bs)) bss"

definition backup_list :: "json option \<Rightarrow> json list" where
  "backup_list metadata = nullish (jarr (Option.bind metadata (\<lambda>m. jget m ''backupCodes''))) []"

definition countBackupCodes :: "json option \<Rightarrow> nat" where
  "countBackupCodes metadata = length (backup_list metadata)"

definition with_codes :: "json list \<Rightarrow> json option \<Rightarrow> json" where
  "with_codes cs m = with_member ''backupCodes'' (JArr cs) m"

definition hashed_codes :: "mfa_deps \<Rightarrow> string list \<Rightarrow> json list" where
  "hashed_codes F codes = map (\<lambda>c. JStr (mf_hash F c)) codes"

text \<open>The loop of \<open>verify2FA\<close>: the list without the first hash that matches; an entry that is not a string throws.\<close>

fun redeem_backup :: "(string \<Rightarrow> string \<Rightarrow> bool) \<Rightarrow> string \<Rightarrow> json list \<Rightarrow> error + json list option" where
  "redeem_backup cmp code [] = Inr None"
| "redeem_backup cmp code (h # hs) =
     (if js_falsy h then map_sum id (map_option (Cons h)) (redeem_backup cmp code hs)
      else (case jstr (Some h) of
              None \<Rightarrow> Inl (Server_Error ''Illegal arguments'')
            | Some x \<Rightarrow> if cmp code x then Inr (Some hs)
                        else map_sum id (map_option (Cons h)) (redeem_backup cmp code hs)))"

section \<open>Operations\<close>

record security_status =
  st_password :: bool
  st_two_factor :: bool
  st_passkeys :: nat
  st_wallets :: nat
  st_email_verified :: bool
  st_codes :: nat

definition getSecurityStatus :: "string \<Rightarrow> db \<Rightarrow> error + security_status" where
  "getSecurityStatus i d =
     (case find_user d i of
        None \<Rightarrow> Inl (Not_Found (Msg ''User not found''))
      | Some u \<Rightarrow> Inr \<lparr>st_password = truthy (us_password_hash u), st_two_factor = us_totp_enabled u,
          st_passkeys = count_where (\<lambda>p. pk_user p = i) (passkeys d),
          st_wallets = count_where (\<lambda>w. wl_user w = i) (linked_wallets d),
          st_email_verified = us_email_verified u, st_codes = countBackupCodes (us_metadata u)\<rparr>)"

definition mfa_password_wrong :: "mfa_deps \<Rightarrow> user_row \<Rightarrow> string \<Rightarrow> bool" where
  "mfa_password_wrong F u password \<longleftrightarrow>
     truthy (us_password_hash u) \<and> \<not> mf_compare F password (nullish (us_password_hash u) '''')"

definition not_enabled :: error where
  "not_enabled = Bad_Request (Msg ''2FA is not enabled'')"

definition already_enabled :: error where
  "already_enabled = Bad_Request (Msg ''2FA is already enabled'')"

definition regenerateBackupCodes ::
  "mfa_deps \<Rightarrow> mfa_entropy \<Rightarrow> string \<Rightarrow> string \<Rightarrow> db \<Rightarrow> (error + string list) \<times> db"
where
  "regenerateBackupCodes F me i password d =
     (case find_user d i of
        None \<Rightarrow> (Inl (Not_Found (Msg ''User not found'')), d)
      | Some u \<Rightarrow>
          if \<not> us_totp_enabled u then (Inl not_enabled, d)
          else if mfa_password_wrong F u password then (Inl (Unauthorized (Msg ''Invalid password'')), d)
          else (let codes = generateBackupCodes (me_codes me)
                in (Inr codes, update_user i (set_metadata (with_codes (hashed_codes F codes) (us_metadata u))) d)))"

record totp_setup =
  ts_secret :: string
  ts_qr :: string
  ts_url :: string

definition setup2FA :: "mfa_deps \<Rightarrow> mfa_entropy \<Rightarrow> string \<Rightarrow> db \<Rightarrow> (error + totp_setup) \<times> db" where
  "setup2FA F me i d =
     (case getIdentityById i d of
        Inl e \<Rightarrow> (Inl e, d)
      | Inr u \<Rightarrow>
          if us_totp_enabled u then (Inl already_enabled, d)
          else (case encrypt (mf_prims F) (mf_crypto F) (me_iv me) (me_secret me) of
                  Inl e \<Rightarrow> (Inl e, d)
                | Inr v \<Rightarrow>
                    (let url = mf_otpauth F (''INITE ('' @ js_string (jopt (us_email u)) @ '')'') (me_secret me)
                     in (Inr \<lparr>ts_secret = me_secret me, ts_qr = mf_qr F url, ts_url = url\<rparr>,
                         update_user i (\<lambda>x. x\<lparr>us_totp_secret := Some v\<rparr>) d))))"

definition enable2FA ::
  "mfa_deps \<Rightarrow> request \<Rightarrow> mfa_entropy \<Rightarrow> string \<Rightarrow> string \<Rightarrow> db \<Rightarrow> (error + string list) \<times> db"
where
  "enable2FA F rq me i code d =
     (let missing = Bad_Request (Msg ''2FA not set up. Please run setup first.'')
      in case find_user d i of
           None \<Rightarrow> (Inl missing, d)
         | Some u \<Rightarrow>
             if \<not> truthy (us_totp_secret u) then (Inl missing, d)
             else if us_totp_enabled u then (Inl already_enabled, d)
             else (case decrypt (mf_prims F) (mf_crypto F) (nullish (us_totp_secret u) '''') of
                     Inl e \<Rightarrow> (Inl e, d)
                   | Inr s \<Rightarrow>
                       if \<not> mf_totp F s code (rq_now rq) then (Inl (Bad_Request (Msg ''Invalid verification code'')), d)
                       else (let codes = generateBackupCodes (me_codes me)
                             in (Inr codes, update_user i (\<lambda>x. set_metadata
                                   (with_codes (hashed_codes F codes) (us_metadata u)) (x\<lparr>us_totp_enabled := True\<rparr>)) d))))"

definition disable2FA ::
  "mfa_deps \<Rightarrow> request \<Rightarrow> string \<Rightarrow> string \<Rightarrow> string \<Rightarrow> db \<Rightarrow> (error + unit) \<times> db"
where
  "disable2FA F rq i code password d =
     (case find_user d i of
        None \<Rightarrow> (Inl (Not_Found (Msg ''User not found'')), d)
      | Some u \<Rightarrow>
          if \<not> us_totp_enabled u then (Inl not_enabled, d)
          else if mfa_password_wrong F u password then (Inl (Unauthorized (Msg ''Invalid password'')), d)
          else (case decrypt (mf_prims F) (mf_crypto F) (nullish (us_totp_secret u) '''') of
                  Inl e \<Rightarrow> (Inl e, d)
                | Inr s \<Rightarrow>
                    if \<not> mf_totp F s code (rq_now rq) then (Inl (Bad_Request (Msg ''Invalid 2FA code'')), d)
                    else (Inr (), update_user i (\<lambda>x. set_metadata (with_codes [] (us_metadata u))
                            (x\<lparr>us_totp_enabled := False, us_totp_secret := None\<rparr>)) d)))"

definition reencryptIfLegacy :: "mfa_deps \<Rightarrow> string \<Rightarrow> string \<Rightarrow> string \<Rightarrow> db \<Rightarrow> (error + unit) \<times> db" where
  "reencryptIfLegacy F iv i stored d =
     (if isEncrypted (Some stored) then (Inr (), d)
      else (case encrypt (mf_prims F) (mf_crypto F) iv stored of
              Inl e \<Rightarrow> (Inl e, d)
            | Inr v \<Rightarrow> (Inr (), update_user i (\<lambda>x. x\<lparr>us_totp_secret := Some v\<rparr>) d)))"

text \<open>The secret of an account that has the factor, as \<open>verify2FA\<close> reads it.\<close>

definition active_secret :: "mfa_deps \<Rightarrow> string \<Rightarrow> db \<Rightarrow> error + user_row \<times> string" where
  "active_secret F i d =
     (let off = Bad_Request (Msg ''2FA is not enabled for this user'')
      in case find_user d i of
           None \<Rightarrow> Inl off
         | Some u \<Rightarrow>
             if \<not> us_totp_enabled u \<or> \<not> truthy (us_totp_secret u) then Inl off
             else (case decrypt (mf_prims F) (mf_crypto F) (nullish (us_totp_secret u) '''') of
                     Inl e \<Rightarrow> Inl e | Inr s \<Rightarrow> Inr (u, s)))"

definition verify2FA :: "mfa_deps \<Rightarrow> request \<Rightarrow> mfa_entropy \<Rightarrow> string \<Rightarrow> string \<Rightarrow> db \<Rightarrow> (error + unit) \<times> db" where
  "verify2FA F rq me i code d =
     (case active_secret F i d of
        Inl e \<Rightarrow> (Inl e, d)
      | Inr (u, s) \<Rightarrow>
          if mf_totp F s code (rq_now rq)
          then reencryptIfLegacy F (me_iv me) i (nullish (us_totp_secret u) '''') d
          else (case redeem_backup (mf_compare F) (upper code) (backup_list (us_metadata u)) of
                  Inl e \<Rightarrow> (Inl e, d)
                | Inr None \<Rightarrow> (Inl (Bad_Request (Msg ''Invalid verification code'')), d)
                | Inr (Some rest) \<Rightarrow>
                    (Inr (), update_user i (set_metadata (with_codes rest (us_metadata u))) d)))"

section \<open>Lemmas\<close>

definition code_matches :: "(string \<Rightarrow> string \<Rightarrow> bool) \<Rightarrow> string \<Rightarrow> json \<Rightarrow> bool" where
  "code_matches cmp c h \<longleftrightarrow> (case h of JStr x \<Rightarrow> x \<noteq> [] \<and> cmp c x | _ \<Rightarrow> False)"

lemma redeem_someE:
  assumes "redeem_backup cmp c hs = Inr (Some rest)"
  obtains xs h ys where "hs = xs @ h # ys" "rest = xs @ ys" "code_matches cmp c h"
  using assms
proof (induction hs arbitrary: rest thesis)
  case (Cons h hs)
  have skip: thesis if s: "map_sum id (map_option ((#) h)) (redeem_backup cmp c hs) = Inr (Some rest)"
  proof -
    from s obtain r where r: "redeem_backup cmp c hs = Inr (Some r)" "rest = h # r"
      by (cases "redeem_backup cmp c hs") auto
    show thesis
      by (rule Cons.IH [OF _ r(1)]) (rule Cons.prems(1) [of "h # _"], simp_all add: r(2))
  qed
  show thesis
  proof (cases "js_falsy h")
    case True
    then show ?thesis using Cons.prems(2) skip by simp
  next
    case False
    then obtain x where x: "h = JStr x" "x \<noteq> []"
      using Cons.prems(2) by (cases h) (auto simp: js_falsy_def)
    show ?thesis
    proof (cases "cmp c x")
      case True
      then show ?thesis using Cons.prems(2) x
        by (intro Cons.prems(1) [of "[]" h hs]) (simp_all add: js_falsy_def code_matches_def)
    next
      case False
      then show ?thesis using Cons.prems(2) x skip by (simp add: js_falsy_def)
    qed
  qed
qed simp

lemma backup_list_with [simp]: "backup_list (Some (with_codes cs m)) = cs"
  by (simp add: backup_list_def with_codes_def)

lemma count_with [simp]: "countBackupCodes (Some (with_codes cs m)) = length cs"
  by (simp add: countBackupCodes_def)

lemma length_codes [simp]: "length (hashed_codes F cs) = length cs" "length (generateBackupCodes bss) = length bss"
  by (simp_all add: hashed_codes_def generateBackupCodes_def)

text \<open>Three outcomes of a check that is accepted or not.\<close>

lemma verify2FA_cases:
  obtains (refused) e where "verify2FA F rq me i c d = (Inl e, d)"
  | (by_app) u s where "active_secret F i d = Inr (u, s)" "mf_totp F s c (rq_now rq)"
      "verify2FA F rq me i c d = (Inr (), d)"
  | (migrated) u s v where "active_secret F i d = Inr (u, s)" "mf_totp F s c (rq_now rq)"
      "verify2FA F rq me i c d = (Inr (), update_user i (\<lambda>x. x\<lparr>us_totp_secret := Some v\<rparr>) d)" "v \<noteq> []"
  | (by_code) u s rest where "active_secret F i d = Inr (u, s)" "\<not> mf_totp F s c (rq_now rq)"
      "redeem_backup (mf_compare F) (upper c) (backup_list (us_metadata u)) = Inr (Some rest)"
      "verify2FA F rq me i c d = (Inr (), update_user i (set_metadata (with_codes rest (us_metadata u))) d)"
proof (cases "active_secret F i d")
  case (Inl e)
  then show ?thesis by (intro refused) (simp add: verify2FA_def)
next
  case (Inr us)
  then obtain u s where a: "active_secret F i d = Inr (u, s)" by (cases us) simp
  show ?thesis
  proof (cases "mf_totp F s c (rq_now rq)")
    case True
    have v: "encrypt P fc iv m = Inr x \<Longrightarrow> x \<noteq> []" for P fc iv m x
      by (auto simp: encrypt_def split: option.splits prod.splits)
    show ?thesis
    proof (cases "isEncrypted (Some (nullish (us_totp_secret u) ''''))")
      case True
      then show ?thesis using \<open>mf_totp F s c (rq_now rq)\<close> a
        by (intro by_app [OF a]) (simp_all add: verify2FA_def reencryptIfLegacy_def)
    next
      case False
      show ?thesis
      proof (cases "encrypt (mf_prims F) (mf_crypto F) (me_iv me) (nullish (us_totp_secret u) '''')")
        case (Inl e)
        then show ?thesis using False \<open>mf_totp F s c (rq_now rq)\<close> a
          by (intro refused) (simp add: verify2FA_def reencryptIfLegacy_def)
      next
        case (Inr x)
        then show ?thesis using False \<open>mf_totp F s c (rq_now rq)\<close> a
          by (intro migrated [OF a, of x] v [OF Inr]) (simp_all add: verify2FA_def reencryptIfLegacy_def)
      qed
    qed
  next
    case False
    have v: "verify2FA F rq me i c d = (case redeem_backup (mf_compare F) (upper c) (backup_list (us_metadata u)) of
          Inl e \<Rightarrow> (Inl e, d)
        | Inr None \<Rightarrow> (Inl (Bad_Request (Msg ''Invalid verification code'')), d)
        | Inr (Some rest) \<Rightarrow> (Inr (), update_user i (set_metadata (with_codes rest (us_metadata u))) d))"
      using a False by (simp add: verify2FA_def)
    show ?thesis
    proof (cases "redeem_backup (mf_compare F) (upper c) (backup_list (us_metadata u))")
      case (Inl e)
      then show ?thesis using v by (intro refused) simp
    next
      case (Inr r)
      then show ?thesis using v by_code [OF a False] by (cases r) (auto intro: refused)
    qed
  qed
qed

lemma active_secretD: "active_secret F i d = Inr (u, s) \<Longrightarrow> find_user d i = Some u \<and> us_totp_enabled u \<and> truthy (us_totp_secret u)"
  by (auto simp: active_secret_def Let_def split: option.splits if_splits sum.splits)

section \<open>A recovery code works once\<close>

text \<open>A try, when what accepts it is a recovery code.\<close>

definition backup_claim :: "mfa_deps \<Rightarrow> string \<Rightarrow> request \<times> mfa_entropy \<times> string \<Rightarrow> db \<Rightarrow> unit option \<times> db" where
  "backup_claim F i q d =
     (case q of (rq, me, c) \<Rightarrow>
        (case verify2FA F rq me i c d of
           (Inl e, d1) \<Rightarrow> (None, d1)
         | (Inr _, d1) \<Rightarrow>
             ((case active_secret F i d of
                 Inl _ \<Rightarrow> None | Inr (u, s) \<Rightarrow> if mf_totp F s c (rq_now rq) then None else Some ()), d1)))"

definition backup_key :: "request \<times> mfa_entropy \<times> string \<Rightarrow> string" where
  "backup_key q = upper (snd (snd q))"

definition matching :: "mfa_deps \<Rightarrow> string \<Rightarrow> string \<Rightarrow> db \<Rightarrow> json list" where
  "matching F i k d = (case find_user d i of None \<Rightarrow> []
     | Some u \<Rightarrow> filter (code_matches (mf_compare F) k) (backup_list (us_metadata u)))"

text \<open>No two of the hashes in the row are of the same code.\<close>

definition backup_inv :: "mfa_deps \<Rightarrow> string \<Rightarrow> db \<Rightarrow> bool" where
  "backup_inv F i d \<longleftrightarrow> (\<forall>k. length (matching F i k d) \<le> 1)"

lemma backup_claim_step:
  obtains (same) "\<And>k. matching F i k (snd (backup_claim F i q d)) = matching F i k d" "fst (backup_claim F i q d) = None"
  | (used) xs h ys where "\<And>k. matching F i k d = filter (code_matches (mf_compare F) k) (xs @ h # ys)"
      "\<And>k. matching F i k (snd (backup_claim F i q d)) = filter (code_matches (mf_compare F) k) (xs @ ys)"
      "code_matches (mf_compare F) (backup_key q) h"
proof (cases q)
  case (fields rq me c)
  show ?thesis
  proof (cases rule: verify2FA_cases [of F rq me i c d])
    case (refused e)
    then show ?thesis by (intro same) (simp_all add: backup_claim_def fields)
  next
    case (by_app u s)
    then show ?thesis by (intro same) (simp_all add: backup_claim_def fields)
  next
    case (migrated u s v)
    then have "find_user d i = Some u" by (simp add: active_secretD)
    then have "find_user (update_user i (\<lambda>x. x\<lparr>us_totp_secret := Some v\<rparr>) d) i = Some (u\<lparr>us_totp_secret := Some v\<rparr>)"
      by (rule find_user_update) simp
    with \<open>find_user d i = Some u\<close> migrated show ?thesis
      by (intro same) (simp_all add: backup_claim_def fields matching_def)
  next
    case (by_code u s rest)
    then have u: "find_user d i = Some u" by (simp add: active_secretD)
    have u1: "find_user (update_user i (set_metadata (with_codes rest (us_metadata u))) d) i
        = Some (set_metadata (with_codes rest (us_metadata u)) u)"
      by (rule find_user_update [OF u]) simp
    from by_code(3) obtain xs h ys where h: "backup_list (us_metadata u) = xs @ h # ys" "rest = xs @ ys"
      "code_matches (mf_compare F) (upper c) h" by (rule redeem_someE)
    show ?thesis
      by (rule used [of xs h ys]) (use u u1 h by_code(4) in \<open>simp_all add: backup_claim_def fields matching_def backup_key_def\<close>)
  qed
qed

interpretation recovery: single_use "backup_claim F i" backup_key "\<lambda>k d. matching F i k d = []" "backup_inv F i"
proof
  fix d q assume inv: "backup_inv F i d"
  show "backup_inv F i (snd (backup_claim F i q d))"
  proof (cases rule: backup_claim_step [of F i q d])
    case same
    then show ?thesis using inv by (simp add: backup_inv_def)
  next
    case (used xs h ys)
    show ?thesis unfolding backup_inv_def
    proof
      fix k show "length (matching F i k (snd (backup_claim F i q d))) \<le> 1"
        using inv [unfolded backup_inv_def, rule_format, of k] by (auto simp: used split: if_splits)
    qed
  qed
next
  fix d q r d' assume inv: "backup_inv F i d" and c: "backup_claim F i q d = (Some r, d')"
  show "matching F i (backup_key q) d' = []"
  proof (cases rule: backup_claim_step [of F i q d])
    case same
    then show ?thesis using c by simp
  next
    case (used xs h ys)
    then have "length (filter (code_matches (mf_compare F) (backup_key q)) (xs @ h # ys)) \<le> 1"
      using inv by (metis backup_inv_def)
    with used(3) have "filter (code_matches (mf_compare F) (backup_key q)) (xs @ ys) = []" by simp
    then show ?thesis using used(2) c by simp
  qed
next
  fix d q assume "matching F i (backup_key q) d = []"
  then show "fst (backup_claim F i q d) = None"
    by (cases rule: backup_claim_step [of F i q d]) auto
next
  fix d q k assume "matching F i k d = []"
  then show "matching F i k (snd (backup_claim F i q d)) = []"
    by (cases rule: backup_claim_step [of F i q d]) (auto split: if_splits)
qed

text \<open>A recovery code gets a person in once, however often it is tried.\<close>

theorem backup_code_used_once:
  assumes "backup_inv F i d"
  shows "wins backup_key k qs (fst (run_requests (backup_claim F i) qs d)) \<le> 1"
  by (rule recovery.at_most_one_win [OF assms])

section \<open>The life of the factor\<close>

text \<open>
  The contract: the factor is off, or set up and waiting for its first code, or on, each with the number of recovery
  codes that are kept.
\<close>

datatype mfa_state = Off nat | Pending nat | On nat

datatype mfa_op =
    Set_Up mfa_entropy
  | Turn_On request mfa_entropy string
  | Turn_Off request string string
  | New_Codes mfa_entropy string
  | Check request mfa_entropy string

fun mfa_next :: "mfa_op \<Rightarrow> mfa_state \<Rightarrow> mfa_state list" where
  "mfa_next (Set_Up me) s = (case s of On n \<Rightarrow> [] | Off n \<Rightarrow> [Pending n] | Pending n \<Rightarrow> [Pending n])"
| "mfa_next (Turn_On rq me c) s = (case s of Pending n \<Rightarrow> [On 10] | _ \<Rightarrow> [])"
| "mfa_next (Turn_Off rq c pw) s = (case s of On n \<Rightarrow> [Off 0] | _ \<Rightarrow> [])"
| "mfa_next (New_Codes me pw) s = (case s of On n \<Rightarrow> [On 10] | _ \<Rightarrow> [])"
| "mfa_next (Check rq me c) s = (case s of On n \<Rightarrow> On n # (case n of 0 \<Rightarrow> [] | Suc m \<Rightarrow> [On m]) | _ \<Rightarrow> [])"

fun mfa_step :: "mfa_deps \<Rightarrow> string \<Rightarrow> mfa_op \<Rightarrow> db \<Rightarrow> bool \<times> db" where
  "mfa_step F i (Set_Up me) d = (case setup2FA F me i d of (r, d1) \<Rightarrow> (ok r \<noteq> None, d1))"
| "mfa_step F i (Turn_On rq me c) d = (case enable2FA F rq me i c d of (r, d1) \<Rightarrow> (ok r \<noteq> None, d1))"
| "mfa_step F i (Turn_Off rq c pw) d = (case disable2FA F rq i c pw d of (r, d1) \<Rightarrow> (ok r \<noteq> None, d1))"
| "mfa_step F i (New_Codes me pw) d = (case regenerateBackupCodes F me i pw d of (r, d1) \<Rightarrow> (ok r \<noteq> None, d1))"
| "mfa_step F i (Check rq me c) d = (case verify2FA F rq me i c d of (r, d1) \<Rightarrow> (ok r \<noteq> None, d1))"

fun op_draws :: "mfa_op \<Rightarrow> bool" where
  "op_draws (Turn_On rq me c) = draws_ok (me_codes me)"
| "op_draws (New_Codes me pw) = draws_ok (me_codes me)"
| "op_draws _ = True"

definition mfa_state_of :: "user_row \<Rightarrow> mfa_state" where
  "mfa_state_of u =
     (let n = countBackupCodes (us_metadata u)
      in if us_totp_enabled u then On n else if truthy (us_totp_secret u) then Pending n else Off n)"

fun run_mfa :: "mfa_deps \<Rightarrow> string \<Rightarrow> mfa_op list \<Rightarrow> db \<Rightarrow> bool list \<times> db" where
  "run_mfa F i [] d = ([], d)"
| "run_mfa F i (x # xs) d =
     (case mfa_step F i x d of (b, d1) \<Rightarrow> (case run_mfa F i xs d1 of (bs, d2) \<Rightarrow> (b # bs, d2)))"

text \<open>The states the contract allows after these operations were accepted or refused.\<close>

fun mfa_paths :: "(mfa_op \<times> bool) list \<Rightarrow> mfa_state \<Rightarrow> mfa_state list" where
  "mfa_paths [] s = [s]"
| "mfa_paths ((x, b) # xs) s = (if b then concat (map (mfa_paths xs) (mfa_next x s)) else mfa_paths xs s)"

lemma mfa_state_simps [simp]:
  "us_totp_enabled u \<Longrightarrow> mfa_state_of u = On (countBackupCodes (us_metadata u))"
  "\<not> us_totp_enabled u \<Longrightarrow> truthy (us_totp_secret u) \<Longrightarrow> mfa_state_of u = Pending (countBackupCodes (us_metadata u))"
  "\<not> us_totp_enabled u \<Longrightarrow> \<not> truthy (us_totp_secret u) \<Longrightarrow> mfa_state_of u = Off (countBackupCodes (us_metadata u))"
  by (simp_all add: mfa_state_of_def)

lemma moved:
  "find_user d i = Some u \<Longrightarrow> (\<And>x. us_id (f x) = us_id x) \<Longrightarrow> P (f u)
     \<Longrightarrow> \<exists>v. find_user (update_user i f d) i = Some v \<and> P v"
  by (simp add: find_user_update)

lemma mfa_step_refines:
  assumes "find_user d i = Some u" and "op_draws x" and "mfa_step F i x d = (b, d')"
  shows "if b then \<exists>v. find_user d' i = Some v \<and> mfa_state_of v \<in> set (mfa_next x (mfa_state_of u)) else d' = d"
proof (cases x)
  case (Set_Up me)
  have enc: "e \<noteq> []" if "encrypt P fc iv m = Inr e" for P fc iv m e
    using that by (auto simp: encrypt_def split: option.splits prod.splits)
  show ?thesis
  proof (cases "us_totp_enabled u")
    case True
    then show ?thesis using assms Set_Up by (auto simp: setup2FA_def getIdentityById_def)
  next
    case False
    show ?thesis
    proof (cases "encrypt (mf_prims F) (mf_crypto F) (me_iv me) (me_secret me)")
      case (Inl e)
      then show ?thesis using assms Set_Up False by (auto simp: setup2FA_def getIdentityById_def)
    next
      case (Inr e)
      have "d' = update_user i (\<lambda>x. x\<lparr>us_totp_secret := Some e\<rparr>) d" "b"
        using assms Set_Up False Inr by (auto simp: setup2FA_def getIdentityById_def Let_def)
      then show ?thesis using enc [OF Inr] Set_Up False find_user_update [OF assms(1), of "\<lambda>x. x\<lparr>us_totp_secret := Some e\<rparr>"]
        by (simp add: mfa_state_of_def Let_def)
    qed
  qed
next
  case (Turn_On rq me c)
  then show ?thesis using assms
    by (auto simp: enable2FA_def Let_def draws_ok_def BACKUP_CODE_COUNT_def
        split: if_splits sum.splits intro!: moved)
next
  case (Turn_Off rq c pw)
  then show ?thesis using assms
    by (auto simp: disable2FA_def Let_def split: if_splits sum.splits intro!: moved)
next
  case (New_Codes me pw)
  then show ?thesis using assms
    by (auto simp: regenerateBackupCodes_def Let_def draws_ok_def
        BACKUP_CODE_COUNT_def split: if_splits intro!: moved)
next
  case (Check rq me c)
  show ?thesis
  proof (cases rule: verify2FA_cases [of F rq me i c d])
    case (refused e)
    then show ?thesis using assms Check by auto
  next
    case (by_app v s)
    then show ?thesis using assms Check active_secretD [of F i d v s] by auto
  next
    case (migrated v s w)
    then show ?thesis using assms Check active_secretD [of F i d v s]
      by (auto intro!: moved)
  next
    case (by_code v s rest)
    then obtain xs h ys where "backup_list (us_metadata v) = xs @ h # ys" "rest = xs @ ys" by (auto elim: redeem_someE)
    then show ?thesis using assms Check active_secretD [OF by_code(1)] by_code(4)
      by (auto simp: countBackupCodes_def intro!: moved)
  qed
qed

text \<open>The operations of a run that were accepted.\<close>

definition accepted :: "mfa_op list \<Rightarrow> bool list \<Rightarrow> mfa_op list" where
  "accepted xs bs = map fst (filter snd (zip xs bs))"

lemma run_refines:
  assumes "find_user d i = Some u" and "\<forall>x \<in> set xs. op_draws x" and "run_mfa F i xs d = (bs, d')"
  shows "(\<exists>v. find_user d' i = Some v \<and> mfa_state_of v \<in> set (mfa_paths (zip xs bs) (mfa_state_of u)))
    \<and> run_mfa F i (accepted xs bs) d = (map (\<lambda>_. True) (accepted xs bs), d')"
  using assms
proof (induction xs arbitrary: d u bs)
  case (Cons x xs)
  obtain b d1 where s: "mfa_step F i x d = (b, d1)" by (cases "mfa_step F i x d")
  obtain cs where r: "run_mfa F i xs d1 = (cs, d')" and bs: "bs = b # cs"
    using Cons.prems(3) s by (auto split: prod.splits)
  show ?case
  proof (cases b)
    case True
    with mfa_step_refines [OF Cons.prems(1) _ s] Cons.prems(2) obtain v where
      v: "find_user d1 i = Some v" "mfa_state_of v \<in> set (mfa_next x (mfa_state_of u))" by auto
    from Cons.IH [OF v(1) _ r] Cons.prems(2) v(2) True s show ?thesis by (auto simp: bs accepted_def)
  next
    case False
    with mfa_step_refines [OF Cons.prems(1) _ s] Cons.prems(2) have "d1 = d" by auto
    with Cons.IH [OF Cons.prems(1) _ r [unfolded \<open>d1 = d\<close>]] Cons.prems(2) False r show ?thesis by (auto simp: bs accepted_def)
  qed
qed (simp add: accepted_def)

text \<open>C22. The second factor lives by its contract: whatever is tried on an account, in any order, its state goes only
  where the accepted operations take it.  It is turned on only after a set-up and with ten recovery
  codes, a check costs no code or exactly one, and turning it off leaves no recovery code.  A refused operation
  changes nothing: the accepted ones alone, from the same database, are all accepted again and end in the same database.\<close>

theorem second_factor_refines_contract:
  assumes "find_user d i = Some u" and "\<forall>x \<in> set xs. op_draws x" and "run_mfa F i xs d = (bs, d')"
  shows "(\<exists>v. find_user d' i = Some v \<and> mfa_state_of v \<in> set (mfa_paths (zip xs bs) (mfa_state_of u)))
    \<and> run_mfa F i (accepted xs bs) d = (map (\<lambda>_. True) (accepted xs bs), d')"
  using assms by (rule run_refines)

section \<open>Who asks for it\<close>

text \<open>A database where somebody has changed the authenticator columns of the accounts.\<close>

definition with_factors :: "(string \<Rightarrow> string option \<times> bool) \<Rightarrow> db \<Rightarrow> db" where
  "with_factors f d = d\<lparr>users := map (\<lambda>u. u\<lparr>us_totp_secret := fst (f (us_id u)), us_totp_enabled := snd (f (us_id u))\<rparr>) (users d)\<rparr>"

text \<open>Signing in never asks for the second factor: a log-in with a password is accepted, refused or locked out the
  same whatever the authenticator columns of every account are, so turning the factor on protects no sign-in.\<close>

theorem login_ignores_second_factor:
  "outcome_of (fst (loginWithPassword L rq email password (with_factors f d, s)))
     = outcome_of (fst (loginWithPassword L rq email password (d, s)))"
proof -
  let ?g = "\<lambda>u. u\<lparr>us_totp_secret := fst (f (us_id u)), us_totp_enabled := snd (f (us_id u))\<rparr>"
  have find: "find_user_email (with_factors f d) e = map_option ?g (find_user_email d e)" for e
  proof -
    have "List.find (\<lambda>u. us_email u = Some e) (map ?g t) = map_option ?g (List.find (\<lambda>u. us_email u = Some e) t)" for t
      by (induction t) simp_all
    then show ?thesis by (simp add: find_user_email_def with_factors_def)
  qed
  show ?thesis
    by (cases "find_user_email d email")
       (simp_all add: loginWithPassword_def check_login_def find finish_login_def)
qed

section \<open>Witnesses\<close>

text \<open>Ann sets the factor up, turns it on, and uses a recovery code twice.\<close>

definition demo_mfa :: mfa_deps where
  "demo_mfa = \<lparr>mf_prims = P0, mf_crypto = \<lparr>fc_key = Some ''key''\<rparr>, mf_totp = (\<lambda>s c t. c = ''123456''),
     mf_compare = (\<lambda>c h. h = ''b:'' @ c), mf_hash = (\<lambda>c. ''b:'' @ c), mf_otpauth = (\<lambda>n s. s), mf_qr = (\<lambda>u. u)\<rparr>"

definition demo_me :: mfa_entropy where
  "demo_me = \<lparr>me_iv = ''iv'', me_secret = ''SECRET'', me_codes = map (\<lambda>n. [0, 0, 0, n]) [0..<10]\<rparr>"

definition coded_db :: db where
  "coded_db = demo_db\<lparr>users := [ann\<lparr>us_totp_secret := Some ''SECRET'', us_totp_enabled := True,
     us_metadata := Some (with_codes [JStr ''b:0000000A'', JStr ''b:0000000B''] None)\<rparr>]\<rparr>"

theorem backup_code_used_once_witness:
  "wins backup_key ''0000000A'' [(at_time 1, demo_me, ''0000000a''), (at_time 2, demo_me, ''0000000A'')]
     (fst (run_requests (backup_claim demo_mfa ''u1'')
       [(at_time 1, demo_me, ''0000000a''), (at_time 2, demo_me, ''0000000A'')] coded_db)) \<le> 1"
proof (rule backup_code_used_once)
  have "matching demo_mfa ''u1'' k coded_db
      = filter (code_matches (\<lambda>c h. h = ''b:'' @ c) k) [JStr ''b:0000000A'', JStr ''b:0000000B'']" for k
    by (simp add: matching_def coded_db_def find_user_def demo_db_def ann_def demo_mfa_def)
  then show "backup_inv demo_mfa ''u1'' coded_db" by (simp add: backup_inv_def code_matches_def)
qed

definition demo_mfa_ops :: "mfa_op list" where
  "demo_mfa_ops = [Set_Up demo_me, Turn_On (at_time 1) demo_me ''123456'', Check (at_time 2) demo_me ''00000003'',
     Check (at_time 3) demo_me ''00000003'']"

theorem second_factor_refines_contract_witness:
  "\<exists>d' v. run_mfa demo_mfa ''u1'' demo_mfa_ops demo_db = ([True, True, True, False], d')
     \<and> find_user d' ''u1'' = Some v \<and> mfa_state_of v \<in> {On 10, On 9}"
proof -
  let ?r = "run_mfa demo_mfa ''u1'' demo_mfa_ops demo_db"
  have bs: "fst ?r = [True, True, True, False]" by code_simp
  then obtain d' where r: "?r = ([True, True, True, False], d')" by (cases ?r) simp
  have "find_user demo_db ''u1'' = Some ann" "mfa_state_of ann = Off 0" by code_simp+
  moreover have "\<forall>x \<in> set demo_mfa_ops. op_draws x"
    by (simp add: demo_mfa_ops_def draws_ok_def demo_me_def BACKUP_CODE_COUNT_def BACKUP_CODE_BYTES_def)
  moreover have "set (mfa_paths (zip demo_mfa_ops [True, True, True, False]) (Off 0)) = {On 10, On 9}" by code_simp
  ultimately show ?thesis using second_factor_refines_contract [OF _ _ r] r by fastforce
qed

end
