(* ===== verification/Organizations.thy ===== *)
theory Organizations
  imports Admin_Access Own_Account
begin

text \<open>
  Organizations, their members and roles, and what a role permits: \<open>src/organizations/organizations.service.ts\<close>
  with its controller, \<open>src/rbac/permissions.ts\<close> and \<open>src/rbac/rbac.service.ts\<close>.
\<close>

section \<open>Permissions\<close>

definition SYSTEM_ROLE_PERMISSIONS :: "(string \<times> string list) list" where
  "SYSTEM_ROLE_PERMISSIONS =
     [(''owner'', [''org:*'']), (''admin'', [''org:read'', ''org:members:manage'', ''org:roles:manage'']),
      (''member'', [''org:read'']), (''viewer'', [''org:read'']), (''customer'', [])]"

text \<open>The members every object has: reading one of these from the table does not give \<open>undefined\<close>, nor a list.\<close>

definition object_members :: "string list" where
  "object_members = [''constructor'', ''__proto__'', ''__defineGetter__'', ''__defineSetter__'', ''__lookupGetter__'',
     ''__lookupSetter__'', ''hasOwnProperty'', ''isPrototypeOf'', ''propertyIsEnumerable'', ''toLocaleString'',
     ''toString'', ''valueOf'']"

definition reserved_role :: "string \<Rightarrow> bool" where
  "reserved_role slug \<longleftrightarrow> map_of SYSTEM_ROLE_PERMISSIONS slug \<noteq> None \<or> slug \<in> set object_members"

definition hasPermission :: "string list \<Rightarrow> string \<Rightarrow> bool" where
  "hasPermission granted required \<longleftrightarrow>
     ''*'' \<in> set granted \<or> required \<in> set granted
     \<or> list_ex (\<lambda>g. suffix '':*'' g \<and> prefix (butlast g) required) granted"

definition find_role :: "db \<Rightarrow> string \<Rightarrow> string \<Rightarrow> role_row option" where
  "find_role d org slug = List.find (\<lambda>r. ro_org r = Some org \<and> ro_slug r = slug) (org_roles d)"

definition permissionsForRole :: "string \<Rightarrow> string \<Rightarrow> db \<Rightarrow> error + string list" where
  "permissionsForRole org slug d =
     (case find_role d org slug of
        Some r \<Rightarrow> Inr (ro_permissions r)
      | None \<Rightarrow>
          (case map_of SYSTEM_ROLE_PERMISSIONS slug of
             Some ps \<Rightarrow> Inr ps
           | None \<Rightarrow> if slug \<in> set object_members then Inl (Server_Error ''object is not iterable'') else Inr []))"

definition find_member :: "db \<Rightarrow> string \<Rightarrow> string \<Rightarrow> membership_row option" where
  "find_member d org u = List.find (\<lambda>m. mb_user m = u \<and> mb_org m = org) (memberships d)"

definition resolvePermissions :: "string \<Rightarrow> string \<Rightarrow> db \<Rightarrow> error + string list" where
  "resolvePermissions userId org d =
     (case find_member d org userId of
        None \<Rightarrow> Inr []
      | Some m \<Rightarrow> if mb_status m \<noteq> ''active'' then Inr [] else permissionsForRole org (mb_role m) d)"

definition rolesForUser :: "string \<Rightarrow> db \<Rightarrow> (string \<times> string) list" where
  "rolesForUser userId d =
     map (\<lambda>m. (mb_org m, mb_role m)) (filter (\<lambda>m. mb_user m = userId \<and> mb_status m = ''active'') (memberships d))"

text \<open>\<open>OrgRbacGuard\<close>.  The organization is the route's, else the header's; the token's \<open>org_id\<close> claim is asked for last, but
  no principal carries it.\<close>

definition org_rbac_guard ::
  "(string \<Rightarrow> json option) \<Rightarrow> string option \<Rightarrow> string list \<Rightarrow> string option \<Rightarrow> string option \<Rightarrow> db \<Rightarrow> error + principal"
where
  "org_rbac_guard verify bearer required param header d =
     (case bearer_principal verify bearer d of
        Inl e \<Rightarrow> Inl e
      | Inr p \<Rightarrow>
          if required = [] \<or> resolveAdminScope p = Some Superadmin then Inr p
          else (case pr_kind p of
                  Machine _ \<Rightarrow> if resolveAdminScope p \<noteq> None then Inr p else Inl (Forbidden (Msg ''insufficient scope''))
                | Person u \<Rightarrow>
                    (let org = (case param of Some i \<Rightarrow> Some i | None \<Rightarrow> header)
                     in if \<not> truthy org then Inl (Forbidden (Msg ''organization context required''))
                        else (case resolvePermissions (us_id u) (nullish org '''') d of
                                Inl e \<Rightarrow> Inl e
                              | Inr granted \<Rightarrow> if list_all (hasPermission granted) required then Inr p
                                              else Inl (Forbidden (Msg ''insufficient permissions''))))))"

definition quote_char :: char where "quote_char = CHR 0x22"

section \<open>The service\<close>

definition org_list :: "admin_scope \<Rightarrow> db \<Rightarrow> org_row list" where
  "org_list scope d = rev (filter (\<lambda>x. in_scope scope (Some (og_company x))) (orgs d))"

definition org_create :: "admin_scope \<Rightarrow> string \<Rightarrow> string \<Rightarrow> string \<Rightarrow> string option \<Rightarrow> db \<Rightarrow> (error + org_row) \<times> db" where
  "org_create scope i name slug company d =
     (let c = nullish company slug; x = \<lparr>og_id = i, og_company = c, og_slug = slug, og_name = name, og_metadata = None\<rparr>
      in if scope \<noteq> Superadmin \<and> scope \<noteq> Scoped c
         then (Inl (Bad_Request (Msg ''cannot create an organization outside your tenant'')), d)
         else if list_ex (\<lambda>y. og_id y = i \<or> og_company y = c \<or> og_slug y = slug) (orgs d) then (Inl Db_Conflict, d)
         else (Inr x, d\<lparr>orgs := orgs d @ [x]\<rparr>))"

definition org_get :: "admin_scope \<Rightarrow> string \<Rightarrow> db \<Rightarrow> error + org_row" where
  "org_get scope i d =
     (case List.find (\<lambda>x. og_id x = i \<and> in_scope scope (Some (og_company x))) (orgs d) of
        None \<Rightarrow> Inl (Not_Found (Msg ''organization not found'')) | Some x \<Rightarrow> Inr x)"

text \<open>\<open>delete\<close> cascades to the members, the roles and the API keys.\<close>

definition org_remove :: "admin_scope \<Rightarrow> string \<Rightarrow> db \<Rightarrow> (error + unit) \<times> db" where
  "org_remove scope i d =
     (case org_get scope i d of
        Inl e \<Rightarrow> (Inl e, d)
      | Inr _ \<Rightarrow> (Inr (), d\<lparr>orgs := delete_many (\<lambda>x. og_id x = i) (orgs d),
          memberships := delete_many (\<lambda>m. mb_org m = i) (memberships d),
          org_roles := delete_many (\<lambda>r. ro_org r = Some i) (org_roles d),
          api_keys := delete_many (\<lambda>k. ak_org k = i) (api_keys d)\<rparr>))"

definition listMembers :: "admin_scope \<Rightarrow> string \<Rightarrow> db \<Rightarrow> error + membership_row list" where
  "listMembers scope i d =
     (case org_get scope i d of Inl e \<Rightarrow> Inl e | Inr _ \<Rightarrow> Inr (filter (\<lambda>m. mb_org m = i) (memberships d)))"

text \<open>The user must exist: a foreign key.\<close>

definition upsertMember ::
  "admin_scope \<Rightarrow> string \<Rightarrow> string \<Rightarrow> string \<Rightarrow> string option \<Rightarrow> db \<Rightarrow> (error + unit) \<times> db"
where
  "upsertMember scope i userId role status d =
     (case org_get scope i d of
        Inl e \<Rightarrow> (Inl e, d)
      | Inr _ \<Rightarrow>
          (case find_member d i userId of
             Some _ \<Rightarrow> (Inr (), d\<lparr>memberships := update_many (\<lambda>m. mb_user m = userId \<and> mb_org m = i)
                (\<lambda>m. m\<lparr>mb_role := role, mb_status := nullish status ''active''\<rparr>) (memberships d)\<rparr>)
           | None \<Rightarrow>
               if find_user d userId = None then (Inl Db_Missing, d)
               else (Inr (), d\<lparr>memberships := memberships d @
                 [\<lparr>mb_user = userId, mb_org = i, mb_role = role, mb_status = nullish status ''active'', mb_external = None\<rparr>]\<rparr>)))"

definition removeMember :: "admin_scope \<Rightarrow> string \<Rightarrow> string \<Rightarrow> db \<Rightarrow> (error + unit) \<times> db" where
  "removeMember scope i userId d =
     (case org_get scope i d of
        Inl e \<Rightarrow> (Inl e, d)
      | Inr _ \<Rightarrow> (Inr (), d\<lparr>memberships := delete_many (\<lambda>m. mb_org m = i \<and> mb_user m = userId) (memberships d)\<rparr>))"

record role_view =
  rv_slug :: string
  rv_name :: string
  rv_permissions :: "string list"
  rv_system :: bool

definition listRoles :: "admin_scope \<Rightarrow> string \<Rightarrow> db \<Rightarrow> error + role_view list" where
  "listRoles scope i d =
     (case org_get scope i d of
        Inl e \<Rightarrow> Inl e
      | Inr _ \<Rightarrow> Inr (map (\<lambda>(s, ps). \<lparr>rv_slug = s, rv_name = s, rv_permissions = ps, rv_system = True\<rparr>) SYSTEM_ROLE_PERMISSIONS
          @ map (\<lambda>r. \<lparr>rv_slug = ro_slug r, rv_name = ro_name r, rv_permissions = ro_permissions r, rv_system = False\<rparr>)
              (filter (\<lambda>r. ro_org r = Some i) (org_roles d))))"

definition insert_role :: "role_row \<Rightarrow> db \<Rightarrow> error + db" where
  "insert_role r d =
     (if list_ex (\<lambda>x. ro_id x = ro_id r \<or> ro_org r \<noteq> None \<and> ro_org x = ro_org r \<and> ro_slug x = ro_slug r) (org_roles d)
      then Inl Db_Conflict else Inr (d\<lparr>org_roles := org_roles d @ [r]\<rparr>))"

definition createRole ::
  "admin_scope \<Rightarrow> string \<Rightarrow> string \<Rightarrow> string \<Rightarrow> string \<Rightarrow> string list \<Rightarrow> db \<Rightarrow> (error + role_row) \<times> db"
where
  "createRole scope row i slug name permissions d =
     (case org_get scope i d of
        Inl e \<Rightarrow> (Inl e, d)
      | Inr _ \<Rightarrow>
          if reserved_role slug then (Inl (Bad_Request (Msg (quote_char # slug @ quote_char # '' is a reserved system role''))), d)
          else let r = \<lparr>ro_id = row, ro_org = Some i, ro_slug = slug, ro_name = name, ro_permissions = permissions\<rparr>
               in (case insert_role r d of Inl e \<Rightarrow> (Inl e, d) | Inr d1 \<Rightarrow> (Inr r, d1)))"

definition updateRole :: "admin_scope \<Rightarrow> string \<Rightarrow> string \<Rightarrow> string \<Rightarrow> string list \<Rightarrow> db \<Rightarrow> (error + unit) \<times> db" where
  "updateRole scope i slug name permissions d =
     (case org_get scope i d of
        Inl e \<Rightarrow> (Inl e, d)
      | Inr _ \<Rightarrow>
          if reserved_role slug then (Inl (Bad_Request (Msg (quote_char # slug @ quote_char # '' is a reserved system role and cannot be edited''))), d)
          else (case find_role d i slug of
                  None \<Rightarrow> (Inl (Not_Found (Msg ''role not found'')), d)
                | Some r \<Rightarrow> (Inr (), d\<lparr>org_roles := update_many (\<lambda>x. ro_id x = ro_id r)
                    (\<lambda>x. x\<lparr>ro_name := name, ro_permissions := permissions\<rparr>) (org_roles d)\<rparr>)))"

section \<open>The operations as one machine\<close>

datatype org_op =
    Create_Org string string string "string option"
  | Remove_Org string
  | Upsert_Member string string string "string option"
  | Remove_Member string string
  | Create_Role string string string string "string list"
  | Update_Role string string string "string list"

fun org_step :: "admin_scope \<Rightarrow> org_op \<Rightarrow> db \<Rightarrow> db" where
  "org_step sc (Create_Org i n s c) d = snd (org_create sc i n s c d)"
| "org_step sc (Remove_Org i) d = snd (org_remove sc i d)"
| "org_step sc (Upsert_Member i u r st) d = snd (upsertMember sc i u r st d)"
| "org_step sc (Remove_Member i u) d = snd (removeMember sc i u d)"
| "org_step sc (Create_Role row i s n ps) d = snd (createRole sc row i s n ps d)"
| "org_step sc (Update_Role i s n ps) d = snd (updateRole sc i s n ps d)"

text \<open>The organizations of a tenant, and what of the tables lies outside them.\<close>

definition own_orgs :: "string \<Rightarrow> db \<Rightarrow> string set" where
  "own_orgs c d = og_id ` {x \<in> set (orgs d). og_company x = c}"

definition outside :: "string set \<Rightarrow> string \<Rightarrow> db \<Rightarrow> org_row list \<times> membership_row list \<times> role_row list \<times> api_key_row list" where
  "outside I c d = (filter (\<lambda>x. og_company x \<noteq> c) (orgs d), filter (\<lambda>m. mb_org m \<notin> I) (memberships d),
     filter (\<lambda>r. \<forall>i \<in> I. ro_org r \<noteq> Some i) (org_roles d), filter (\<lambda>k. ak_org k \<notin> I) (api_keys d))"

definition org_keys :: "db \<Rightarrow> bool" where
  "org_keys d \<longleftrightarrow> distinct (map og_id (orgs d)) \<and> distinct (map ro_id (org_roles d))"

section \<open>Tenants\<close>

lemma org_getD:
  assumes "org_get (Scoped c) i d = Inr x"
  shows "x \<in> set (orgs d) \<and> og_id x = i \<and> og_company x = c \<and> i \<in> own_orgs c d"
  using assms by (auto simp: org_get_def own_orgs_def dest!: find_SomeD split: option.splits)

text \<open>C30. An operator of one tenant changes nothing of another: whatever they do to organizations, members and roles, every
  organization of another tenant, and every member, role and API key outside their own organizations, stays
  as it is, in place.\<close>

theorem org_admin_keeps_tenant:
  assumes "org_keys d"
  shows "outside (own_orgs c d) c (org_step (Scoped c) op d) = outside (own_orgs c d) c d"
proof (cases op)
  case (Create_Org i n s co)
  then show ?thesis by (simp add: org_create_def outside_def Let_def)
next
  case (Remove_Org i)
  show ?thesis
  proof (cases "org_get (Scoped c) i d")
    case (Inr x)
    note x = org_getD [OF this]
    have "filter (\<lambda>y. og_company y \<noteq> c) (delete_many (\<lambda>y. og_id y = i) (orgs d)) = filter (\<lambda>y. og_company y \<noteq> c) (orgs d)"
      by (rule filter_delete_many) (use x assms in \<open>auto simp: org_keys_def dest: distinct_mapD\<close>)
    moreover have "filter (\<lambda>m. mb_org m \<notin> own_orgs c d) (delete_many (\<lambda>m. mb_org m = i) (memberships d))
        = filter (\<lambda>m. mb_org m \<notin> own_orgs c d) (memberships d)" by (rule filter_delete_many) (use x in auto)
    moreover have "filter (\<lambda>r. \<forall>i \<in> own_orgs c d. ro_org r \<noteq> Some i) (delete_many (\<lambda>r. ro_org r = Some i) (org_roles d))
        = filter (\<lambda>r. \<forall>i \<in> own_orgs c d. ro_org r \<noteq> Some i) (org_roles d)" by (rule filter_delete_many) (use x in auto)
    moreover have "filter (\<lambda>k. ak_org k \<notin> own_orgs c d) (delete_many (\<lambda>k. ak_org k = i) (api_keys d))
        = filter (\<lambda>k. ak_org k \<notin> own_orgs c d) (api_keys d)" by (rule filter_delete_many) (use x in auto)
    ultimately show ?thesis using Remove_Org Inr by (simp add: org_remove_def outside_def)
  qed (simp add: Remove_Org org_remove_def)
next
  case (Upsert_Member i u r st)
  show ?thesis
  proof (cases "org_get (Scoped c) i d")
    case (Inr x)
    note x = org_getD [OF this]
    have "filter (\<lambda>m. mb_org m \<notin> own_orgs c d) (update_many (\<lambda>m. mb_user m = u \<and> mb_org m = i)
        (\<lambda>m. m\<lparr>mb_role := r, mb_status := nullish st ''active''\<rparr>) (memberships d)) = filter (\<lambda>m. mb_org m \<notin> own_orgs c d) (memberships d)"
      by (rule filter_update_many) (use x in auto)
    then show ?thesis using Upsert_Member Inr x by (simp add: upsertMember_def outside_def split: option.split)
  qed (simp add: Upsert_Member upsertMember_def)
next
  case (Remove_Member i u)
  show ?thesis
  proof (cases "org_get (Scoped c) i d")
    case (Inr x)
    note x = org_getD [OF this]
    have "filter (\<lambda>m. mb_org m \<notin> own_orgs c d) (delete_many (\<lambda>m. mb_org m = i \<and> mb_user m = u) (memberships d))
        = filter (\<lambda>m. mb_org m \<notin> own_orgs c d) (memberships d)" by (rule filter_delete_many) (use x in auto)
    then show ?thesis using Remove_Member Inr by (simp add: removeMember_def outside_def)
  qed (simp add: Remove_Member removeMember_def)
next
  case (Create_Role row i s n ps)
  show ?thesis
  proof (cases "org_get (Scoped c) i d")
    case (Inr x)
    note x = org_getD [OF this]
    then show ?thesis using Create_Role Inr by (auto simp: createRole_def insert_role_def outside_def Let_def)
  qed (simp add: Create_Role createRole_def)
next
  case (Update_Role i s n ps)
  show ?thesis
  proof (cases "org_get (Scoped c) i d")
    case (Inr x)
    note x = org_getD [OF this]
    have "filter (\<lambda>r. \<forall>i \<in> own_orgs c d. ro_org r \<noteq> Some i) (update_many (\<lambda>x. ro_id x = ro_id r)
        (\<lambda>x. x\<lparr>ro_name := n, ro_permissions := ps\<rparr>) (org_roles d)) = filter (\<lambda>r. \<forall>i \<in> own_orgs c d. ro_org r \<noteq> Some i) (org_roles d)"
      if "find_role d i s = Some r" for r
    proof (rule filter_update_many)
      fix y assume y: "y \<in> set (org_roles d)" "ro_id y = ro_id r"
      from that have "r \<in> set (org_roles d)" "ro_org r = Some i" by (auto simp: find_role_def dest!: find_SomeD)
      with y assms have "ro_org y = Some i" by (auto simp: org_keys_def dest: distinct_mapD)
      then show "\<not> (\<forall>i \<in> own_orgs c d. ro_org y \<noteq> Some i) \<and> \<not> (\<forall>i \<in> own_orgs c d. ro_org (y\<lparr>ro_name := n, ro_permissions := ps\<rparr>) \<noteq> Some i)"
        using x by auto
    qed
    then show ?thesis using Update_Role Inr by (simp add: updateRole_def outside_def split: option.split)
  qed (simp add: Update_Role updateRole_def)
qed

section \<open>Roles\<close>

text \<open>A permission is granted by itself, by a wildcard above it, or by the star; nothing else.\<close>

lemma hasPermission_iff:
  "hasPermission granted required \<longleftrightarrow>
     ''*'' \<in> set granted \<or> required \<in> set granted \<or> (\<exists>p. p @ '':*'' \<in> set granted \<and> prefix (p @ '':'') required)"
proof -
  have "suffix '':*'' g \<and> prefix (butlast g) required \<longleftrightarrow> (\<exists>p. g = p @ '':*'' \<and> prefix (p @ '':'') required)" for g
    by (auto simp: suffix_def butlast_append)
  then show ?thesis by (auto simp: hasPermission_def list_ex_iff)
qed

text \<open>The service that keeps roles never lets a custom role take the name of a system role, so in an organization that
  had none so far a system role permits what the code says it does, after any operations of any operator.\<close>

theorem system_roles_keep_permissions:
  assumes "\<forall>r \<in> set (org_roles d). \<not> reserved_role (ro_slug r)" and "map_of SYSTEM_ROLE_PERMISSIONS slug = Some ps"
  shows "permissionsForRole org slug (fold (\<lambda>(sc, op). org_step sc op) ops d) = Inr ps"
proof -
  have step: "\<forall>r \<in> set (org_roles (org_step sc op d)). \<not> reserved_role (ro_slug r)"
    if "\<forall>r \<in> set (org_roles d). \<not> reserved_role (ro_slug r)" for sc op d
    using that
    by (cases op) (auto simp: org_create_def org_remove_def upsertMember_def removeMember_def createRole_def updateRole_def insert_role_def
        Let_def delete_many_def update_many_def split: sum.splits option.splits)
  have "\<forall>r \<in> set (org_roles (fold (\<lambda>(sc, op). org_step sc op) ops d)). \<not> reserved_role (ro_slug r)" using assms(1)
  proof (induction ops arbitrary: d)
    case (Cons a ops)
    show ?case using Cons.IH [OF step [OF Cons.prems, of "fst a" "snd a"]] by (simp add: case_prod_beta)
  qed simp
  moreover have "reserved_role slug" using assms(2) by (simp add: reserved_role_def)
  ultimately have "find_role (fold (\<lambda>(sc, op). org_step sc op) ops d) org slug = None"
    by (auto simp: find_role_def find_None_iff)
  then show ?thesis using assms(2) by (simp add: permissionsForRole_def)
qed


text \<open>Past the guard, a person who is no superadmin is an active member whose role grants all that was asked.\<close>

lemma org_rbac_guard_person:
  assumes "org_rbac_guard verify bearer required param header d = Inr p" and "pr_kind p = Person u"
    and "resolveAdminScope p \<noteq> Some Superadmin" and "required \<noteq> []"
  shows "\<exists>org m granted. find_member d org (us_id u) = Some m \<and> mb_status m = ''active''
    \<and> permissionsForRole org (mb_role m) d = Inr granted \<and> (\<forall>r \<in> set required. hasPermission granted r)"
proof -
  obtain org granted where "resolvePermissions (us_id u) org d = Inr granted" and g: "\<forall>r \<in> set required. hasPermission granted r"
    using assms by (auto simp: org_rbac_guard_def Let_def list_all_iff split: sum.splits if_splits principal_kind.splits)
  moreover from g assms(4) have "granted \<noteq> []" by (cases required) (auto simp: hasPermission_def)
  ultimately show ?thesis by (auto simp: resolvePermissions_def split: option.splits if_splits)
qed

section \<open>Two tenants\<close>

definition globex :: org_row where
  "globex = \<lparr>og_id = ''o2'', og_company = ''globex'', og_slug = ''globex'', og_name = ''Globex'', og_metadata = None\<rparr>"

definition ann_globex :: membership_row where
  "ann_globex = ann_acme\<lparr>mb_org := ''o2'', mb_role := ''owner''\<rparr>"

definition two_tenants :: db where
  "two_tenants = demo_db\<lparr>orgs := [acme, globex], memberships := [ann_acme, ann_globex],
     org_roles := [\<lparr>ro_id = ''r1'', ro_org = Some ''o1'', ro_slug = ''auditor'', ro_name = ''Auditor'', ro_permissions = [''org:read'']\<rparr>]\<rparr>"

lemmas two_tenants_defs = two_tenants_def globex_def ann_globex_def acme_def ann_acme_def demo_db_def

theorem org_admin_keeps_tenant_witness:
  "outside (own_orgs ''acme'' two_tenants) ''acme'' (org_step (Scoped ''acme'') (Remove_Org ''o1'') two_tenants)
    = outside (own_orgs ''acme'' two_tenants) ''acme'' two_tenants"
  by (rule org_admin_keeps_tenant) (simp add: org_keys_def two_tenants_defs)

theorem system_roles_keep_permissions_witness:
  "permissionsForRole ''o1'' ''owner'' (fold (\<lambda>(sc, op). org_step sc op)
     [(Scoped ''acme'', Create_Role ''r2'' ''o1'' ''owner'' ''Owner'' [])] two_tenants) = Inr [''org:*'']"
  by (rule system_roles_keep_permissions) (simp_all add: two_tenants_defs reserved_role_def SYSTEM_ROLE_PERMISSIONS_def object_members_def)

end
