(* ===== verification/Scim.thy ===== *)
theory Scim
  imports Organizations Accounts
begin

text \<open>
  Directory provisioning (SCIM 2.0): \<open>src/scim/\<close> (\<open>scim-users.service.ts\<close>, \<open>scim-groups.service.ts\<close>,
  \<open>scim-support.ts\<close>, \<open>scim.guard.ts\<close> and the controllers' tenant).  Bodies have the types of
  \<open>scim.contracts.ts\<close>; numbers of a query are integers, and none is \<open>NaN\<close>.
\<close>

section \<open>The caller\<close>

definition scim_guard :: "config \<Rightarrow> (string \<Rightarrow> json option) \<Rightarrow> bool \<Rightarrow> string option \<Rightarrow> db \<Rightarrow> error + machine_principal" where
  "scim_guard cf verify isRead bearer d =
     (if \<not> setting_flag cf ''SCIM_ENABLED'' then Inl (Not_Found (Msg ''SCIM API is not enabled''))
      else (case bearer_principal verify bearer d of
              Inl e \<Rightarrow> Inl e
            | Inr p \<Rightarrow>
                (case pr_kind p of
                   Person _ \<Rightarrow> Inl (Forbidden (Msg ''SCIM requires a machine (client_credentials) token''))
                 | Machine m \<Rightarrow>
                     if ''admin'' \<in> set (pr_scope p) \<or> ''scim:write'' \<in> set (pr_scope p) \<or> isRead \<and> ''scim:read'' \<in> set (pr_scope p)
                     then Inr m
                     else Inl (Forbidden (Msg (if isRead then ''scim:read scope required'' else ''scim:write scope required''))))))"

definition resolveScimTenant :: "machine_principal \<Rightarrow> error + string" where
  "resolveScimTenant m =
     (if truthy (mp_company m) then Inr (nullish (mp_company m) '''')
      else Inl (Forbidden (Msg ''SCIM requires a tenant-scoped (companyId) token'')))"

section \<open>Reading a body\<close>

record scim_user_body =
  su_user_name :: "string option"
  su_emails :: "string option list"
  su_external :: "string option"
  su_formatted :: "string option"
  su_given :: "string option"
  su_family :: "string option"
  su_display :: "string option"
  su_active :: "bool option"

text \<open>\<open>/^\s*(userName|externalId)\s+eq\s+(quoted)\s*$/i\<close>; the attribute comes in lower case.\<close>

definition eq_value :: "string \<Rightarrow> string option" where
  "eq_value s =
     (let t = dropWhile is_ws s; u = dropWhile is_ws (drop 2 t)
      in if s \<noteq> [] \<and> is_ws (hd s) \<and> lower (take 2 t) = ''eq'' \<and> drop 2 t \<noteq> [] \<and> is_ws (hd (drop 2 t))
            \<and> u \<noteq> [] \<and> hd u = quote_char
         then (let v = takeWhile (\<lambda>c. c \<noteq> quote_char) (tl u); rest = drop (length v) (tl u)
               in if rest \<noteq> [] \<and> list_all is_ws (tl rest) then Some v else None)
         else None)"

definition parseEqFilter :: "string option \<Rightarrow> (string \<times> string) option" where
  "parseEqFilter f =
     (if \<not> truthy f then None
      else (let t = dropWhile is_ws (nullish f '''')
            in if lower (take 8 t) = ''username'' then map_option (Pair ''username'') (eq_value (drop 8 t))
               else if lower (take 10 t) = ''externalid'' then map_option (Pair ''externalid'') (eq_value (drop 10 t))
               else None))"

definition formatName :: "scim_user_body \<Rightarrow> string option" where
  "formatName b =
     (let formatted = trim (nullish (su_formatted b) ''''); display = trim (nullish (su_display b) '''');
          joined = trim (join_with '' '' (List.map_filter (\<lambda>p. case p of Some s \<Rightarrow> if trim s \<noteq> [] then Some s else None | None \<Rightarrow> None)
             [su_given b, su_family b]))
      in if formatted \<noteq> [] then Some formatted else if display \<noteq> [] then Some display
         else if joined \<noteq> [] then Some joined else None)"

record patch_op =
  po_op :: "string option"
  po_path :: "string option"
  po_value :: "json option"

definition coerceBool :: "json option \<Rightarrow> bool" where
  "coerceBool v \<longleftrightarrow> v \<in> {Some (JBool True), Some (JStr ''true''), Some (JStr ''True'')}"

definition activeFromOperation :: "patch_op \<Rightarrow> bool option" where
  "activeFromOperation op =
     (if map_option lower (po_op op) \<notin> {Some ''replace'', Some ''add''} then None
      else if map_option lower (po_path op) = Some ''active'' then Some (coerceBool (po_value op))
      else if \<not> truthy (po_path op)
      then map_option (\<lambda>a. coerceBool (Some a)) (Option.bind (po_value op) (\<lambda>v. jget v ''active''))
      else None)"

definition activeFromPatch :: "patch_op list \<Rightarrow> bool option" where
  "activeFromPatch ops = fold (\<lambda>op r. case activeFromOperation op of Some b \<Rightarrow> Some b | None \<Rightarrow> r) ops None"

definition memberValues :: "json option \<Rightarrow> string list" where
  "memberValues v =
     (case jarr v of None \<Rightarrow> []
      | Some xs \<Rightarrow> filter (\<lambda>s. s \<noteq> []) (List.map_filter (\<lambda>m. jstr (jget m ''value'')) xs))"

text \<open>\<open>/members\[value eq (quoted)\]/i\<close> anywhere in the path.\<close>

fun member_filter :: "string \<Rightarrow> string option" where
  "member_filter [] = None"
| "member_filter (c # s) =
     (let v = takeWhile (\<lambda>x. x \<noteq> quote_char) (drop 17 s)
      in if lower (take 17 (c # s)) = ''members[value eq '' \<and> take 1 (drop 16 s) = [quote_char] \<and> v \<noteq> []
            \<and> prefix [quote_char, CHR '']''] (drop (17 + length v) s)
         then Some v else member_filter s)"

record group_patch =
  gp_name :: "string option"
  gp_add :: "string list"
  gp_remove :: "string list"
  gp_replace :: "string list option"

definition applyMemberOp :: "string option \<Rightarrow> patch_op \<Rightarrow> group_patch \<Rightarrow> group_patch" where
  "applyMemberOp kind op p =
     (if kind = Some ''remove''
      then p\<lparr>gp_remove := gp_remove p @ (case member_filter (nullish (po_path op) '''') of Some v \<Rightarrow> [v] | None \<Rightarrow> memberValues (po_value op))\<rparr>
      else if kind = Some ''replace'' then p\<lparr>gp_replace := Some (memberValues (po_value op))\<rparr>
      else if kind = Some ''add'' then p\<lparr>gp_add := gp_add p @ memberValues (po_value op)\<rparr>
      else p)"

definition applyGroupOp :: "patch_op \<Rightarrow> group_patch \<Rightarrow> group_patch" where
  "applyGroupOp op p =
     (let kind = map_option lower (po_op op); path = lower (nullish (po_path op) '''')
      in if path = ''displayname'' \<and> kind \<in> {Some ''replace'', Some ''add''}
         then (case jstr (po_value op) of Some s \<Rightarrow> p\<lparr>gp_name := Some s\<rparr> | None \<Rightarrow> p)
         else if prefix ''members'' path then applyMemberOp kind op p else p)"

definition groupPatchFromOps :: "patch_op list \<Rightarrow> group_patch" where
  "groupPatchFromOps ops = fold applyGroupOp ops \<lparr>gp_name = None, gp_add = [], gp_remove = [], gp_replace = None\<rparr>"

definition slug_char :: "char \<Rightarrow> bool" where
  "slug_char c \<longleftrightarrow> is_lower c \<or> is_digit c"

definition slugifyGroupName :: "string \<Rightarrow> string" where
  "slugifyGroupName n =
     (let slug = join_with ''-'' (filter (\<lambda>w. w \<noteq> []) (split_by (\<lambda>c. \<not> slug_char c) (lower n)))
      in if slug \<noteq> [] then slug else ''group'')"

section \<open>Users\<close>

definition ACCOUNT_DISABLED :: string where
  "ACCOUNT_DISABLED = ''https://schemas.openid.net/secevent/risc/event-type/account-disabled''"

record scim_user =
  vu_id :: string
  vu_external :: "string option"
  vu_user_name :: string
  vu_name :: "string option"
  vu_email :: "string option"
  vu_active :: bool

definition present :: "string option \<Rightarrow> string option" where
  "present v = (if truthy v then v else None)"

definition toScimUser :: "user_row \<Rightarrow> membership_row \<Rightarrow> scim_user" where
  "toScimUser u m =
     \<lparr>vu_id = us_id u, vu_external = present (mb_external m), vu_user_name = nullish (us_email u) (us_did u),
      vu_name = present (us_name u), vu_email = present (us_email u), vu_active = (mb_status m = ''active'')\<rparr>"

definition resolveOrg :: "string \<Rightarrow> db \<Rightarrow> error + org_row" where
  "resolveOrg c d =
     (case List.find (\<lambda>x. og_company x = c) (orgs d) of
        None \<Rightarrow> Inl (Not_Found (Msg (''no organization provisioned for tenant '' @ c))) | Some x \<Rightarrow> Inr x)"

definition requireUserName :: "scim_user_body \<Rightarrow> error + string" where
  "requireUserName b =
     (let n = (case su_user_name b of Some s \<Rightarrow> Some s | None \<Rightarrow> (case List.find truthy (su_emails b) of Some e \<Rightarrow> e | None \<Rightarrow> None))
      in if truthy n then Inr (nullish n '''') else Inl (Bad_Request (Msg ''userName is required'')))"

definition update_member :: "string \<Rightarrow> string \<Rightarrow> (membership_row \<Rightarrow> membership_row) \<Rightarrow> db \<Rightarrow> db" where
  "update_member org u f d = d\<lparr>memberships := update_many (\<lambda>m. mb_user m = u \<and> mb_org m = org) f (memberships d)\<rparr>"

definition ensure_user :: "identity_entropy \<Rightarrow> string \<Rightarrow> string option \<Rightarrow> db \<Rightarrow> error + user_row \<times> db" where
  "ensure_user ie email name d =
     (case find_user_email d email of Some u \<Rightarrow> Inr (u, d) | None \<Rightarrow> createIdentity ie (Some email) name d)"

definition reactivate :: "scim_user_body \<Rightarrow> membership_row \<Rightarrow> membership_row" where
  "reactivate b m = m\<lparr>mb_status := ''active'', mb_external := (case su_external b of Some e \<Rightarrow> Some e | None \<Rightarrow> mb_external m)\<rparr>"

definition scim_createUser :: "identity_entropy \<Rightarrow> string \<Rightarrow> scim_user_body \<Rightarrow> db \<Rightarrow> (error + scim_user) \<times> db" where
  "scim_createUser ie c b d =
     (case resolveOrg c d of
        Inl e \<Rightarrow> (Inl e, d)
      | Inr org \<Rightarrow>
          (case requireUserName b of
             Inl e \<Rightarrow> (Inl e, d)
           | Inr email \<Rightarrow>
               (case ensure_user ie email (formatName b) d of
                  Inl e \<Rightarrow> (Inl e, d)
                | Inr (u, d1) \<Rightarrow>
                    (case find_member d1 (og_id org) (us_id u) of
                       Some m \<Rightarrow>
                         if mb_status m = ''active'' then (Inl Db_Conflict, d1)
                         else (Inr (toScimUser u (reactivate b m)), update_member (og_id org) (us_id u) (reactivate b) d1)
                     | None \<Rightarrow>
                         (let m = \<lparr>mb_user = us_id u, mb_org = og_id org, mb_role = ''member'', mb_status = ''active'', mb_external = su_external b\<rparr>
                          in (Inr (toScimUser u m), d1\<lparr>memberships := memberships d1 @ [m]\<rparr>))))))"

definition loadMembershipOr404 :: "string \<Rightarrow> string \<Rightarrow> db \<Rightarrow> error + membership_row \<times> user_row" where
  "loadMembershipOr404 org i d =
     (case find_member d org i of
        None \<Rightarrow> Inl (Not_Found (Msg ''user not found in this tenant''))
      | Some m \<Rightarrow> (case find_user d i of None \<Rightarrow> Inl Db_Missing | Some u \<Rightarrow> Inr (m, u)))"

definition with_state :: "bool \<Rightarrow> string option \<Rightarrow> membership_row \<Rightarrow> membership_row" where
  "with_state active external m =
     m\<lparr>mb_status := (if active then ''active'' else ''inactive''),
       mb_external := (case external of Some e \<Rightarrow> Some e | None \<Rightarrow> mb_external m)\<rparr>"

definition setActive :: "membership_row \<Rightarrow> user_row \<Rightarrow> string \<Rightarrow> bool \<Rightarrow> string option \<Rightarrow> db \<Rightarrow> db" where
  "setActive m u c active external d =
     (let d1 = update_member (mb_org m) (mb_user m) (with_state active external) d
      in if \<not> active \<and> mb_status m = ''active''
         then emit (Ssf_Event ACCOUNT_DISABLED (us_did u) (Some c) [(''reason'', JStr ''scim_deprovision'')]) d1 else d1)"

definition scim_replaceUser :: "string \<Rightarrow> string \<Rightarrow> scim_user_body \<Rightarrow> db \<Rightarrow> (error + scim_user) \<times> db" where
  "scim_replaceUser c i b d =
     (case resolveOrg c d of
        Inl e \<Rightarrow> (Inl e, d)
      | Inr org \<Rightarrow>
          (case loadMembershipOr404 (og_id org) i d of
             Inl e \<Rightarrow> (Inl e, d)
           | Inr (m, u) \<Rightarrow>
               (let name = formatName b;
                    d1 = (if name \<noteq> None \<and> name \<noteq> us_name u then update_user i (\<lambda>x. x\<lparr>us_name := name\<rparr>) d else d);
                    active = nullish (su_active b) (mb_status m = ''active'')
                in (Inr (toScimUser (u\<lparr>us_name := (if name \<noteq> None then name else us_name u)\<rparr>) (with_state active (su_external b) m)),
                    setActive m u (og_company org) active (su_external b) d1))))"

definition scim_patchUser :: "string \<Rightarrow> string \<Rightarrow> patch_op list \<Rightarrow> db \<Rightarrow> (error + scim_user) \<times> db" where
  "scim_patchUser c i ops d =
     (case resolveOrg c d of
        Inl e \<Rightarrow> (Inl e, d)
      | Inr org \<Rightarrow>
          (case loadMembershipOr404 (og_id org) i d of
             Inl e \<Rightarrow> (Inl e, d)
           | Inr (m, u) \<Rightarrow>
               (case activeFromPatch ops of
                  None \<Rightarrow> (Inr (toScimUser u m), d)
                | Some a \<Rightarrow> (Inr (toScimUser u (with_state a None m)), setActive m u (og_company org) a None d))))"

definition scim_deactivateUser :: "string \<Rightarrow> string \<Rightarrow> db \<Rightarrow> (error + unit) \<times> db" where
  "scim_deactivateUser c i d =
     (case resolveOrg c d of
        Inl e \<Rightarrow> (Inl e, d)
      | Inr org \<Rightarrow>
          (case loadMembershipOr404 (og_id org) i d of
             Inl e \<Rightarrow> (Inl e, d) | Inr (m, u) \<Rightarrow> (Inr (), setActive m u (og_company org) False None d)))"

definition scim_getUser :: "string \<Rightarrow> string \<Rightarrow> db \<Rightarrow> error + scim_user" where
  "scim_getUser c i d =
     (case resolveOrg c d of
        Inl e \<Rightarrow> Inl e
      | Inr org \<Rightarrow> (case loadMembershipOr404 (og_id org) i d of Inl e \<Rightarrow> Inl e | Inr (m, u) \<Rightarrow> Inr (toScimUser u m)))"


text \<open>The query's numbers: \<open>startIndex\<close> and \<open>count\<close> come as numbers, \<open>None\<close> where absent or not one; a zero is as absent.\<close>

record list_query =
  lq_filter :: "string option"
  lq_start :: "int option"
  lq_count :: "int option"

definition or_number :: "int option \<Rightarrow> int \<Rightarrow> int" where
  "or_number n k = (case n of None \<Rightarrow> k | Some i \<Rightarrow> if i = 0 then k else i)"

definition page_start :: "list_query \<Rightarrow> int" where
  "page_start q = max 1 (or_number (lq_start q) 1)"

definition page_of :: "list_query \<Rightarrow> 'r list \<Rightarrow> 'r list" where
  "page_of q rows = take (nat (max 0 (or_number (lq_count q) 100))) (drop (nat (page_start q - 1)) rows)"

record 'r list_response =
  lr_total :: nat
  lr_start :: int
  lr_items :: nat
  lr_resources :: "'r list"

definition member_matches :: "db \<Rightarrow> string option \<Rightarrow> membership_row \<Rightarrow> bool" where
  "member_matches d f m \<longleftrightarrow>
     (case parseEqFilter f of
        None \<Rightarrow> True
      | Some (a, v) \<Rightarrow>
          if a = ''externalid'' then mb_external m = Some v
          else if a = ''username'' then Option.bind (find_user d (mb_user m)) us_email = Some v else True)"

definition matchMemberships :: "string \<Rightarrow> string option \<Rightarrow> db \<Rightarrow> (user_row \<times> membership_row) list" where
  "matchMemberships org f d =
     List.map_filter (\<lambda>m. map_option (\<lambda>u. (u, m)) (find_user d (mb_user m)))
       (filter (\<lambda>m. mb_org m = org \<and> member_matches d f m) (memberships d))"

definition scim_listUsers :: "string \<Rightarrow> list_query \<Rightarrow> db \<Rightarrow> error + scim_user list_response" where
  "scim_listUsers c q d =
     (case resolveOrg c d of
        Inl e \<Rightarrow> Inl e
      | Inr org \<Rightarrow>
          (let rows = matchMemberships (og_id org) (lq_filter q) d;
               resources = map (\<lambda>(u, m). toScimUser u m) (page_of q rows)
           in Inr \<lparr>lr_total = length rows, lr_start = page_start q, lr_items = length resources, lr_resources = resources\<rparr>))"

section \<open>Groups\<close>

record scim_group =
  vg_id :: string
  vg_name :: string
  vg_members :: "(string \<times> string option) list"

definition toScimGroup :: "role_row \<Rightarrow> (string \<times> string option) list \<Rightarrow> scim_group" where
  "toScimGroup r ms = \<lparr>vg_id = ro_id r, vg_name = ro_name r, vg_members = map (\<lambda>(i, e). (i, present e)) ms\<rparr>"

definition render :: "string \<Rightarrow> role_row \<Rightarrow> db \<Rightarrow> scim_group" where
  "render org r d = toScimGroup r
     (map (\<lambda>m. (mb_user m, Option.bind (find_user d (mb_user m)) us_email))
       (filter (\<lambda>m. mb_org m = org \<and> mb_role m = ro_slug r) (memberships d)))"

definition loadRoleOr404 :: "string \<Rightarrow> string \<Rightarrow> db \<Rightarrow> error + role_row" where
  "loadRoleOr404 org i d =
     (case List.find (\<lambda>r. ro_id r = i \<and> ro_org r = Some org) (org_roles d) of
        None \<Rightarrow> Inl (Not_Found (Msg ''group not found in this tenant'')) | Some r \<Rightarrow> Inr r)"

text \<open>Whose filter names a display name: \<open>/displayname/i\<close> anywhere, but with a filter the user parser took.\<close>

definition names_display :: "string \<Rightarrow> bool" where
  "names_display f \<longleftrightarrow> sublist ''displayname'' (lower f)"

definition group_matches :: "string option \<Rightarrow> role_row \<Rightarrow> bool" where
  "group_matches f r \<longleftrightarrow>
     (case parseEqFilter f of None \<Rightarrow> True | Some (_, v) \<Rightarrow> names_display (nullish f '''') \<longrightarrow> ro_name r = v)"

definition set_roles :: "(membership_row \<Rightarrow> bool) \<Rightarrow> string \<Rightarrow> db \<Rightarrow> db" where
  "set_roles p slug d = d\<lparr>memberships := update_many p (\<lambda>m. m\<lparr>mb_role := slug\<rparr>) (memberships d)\<rparr>"

definition assignMembers :: "string \<Rightarrow> string \<Rightarrow> string list \<Rightarrow> db \<Rightarrow> db" where
  "assignMembers org slug us d =
     (if us = [] then d else set_roles (\<lambda>m. mb_org m = org \<and> mb_user m \<in> set us) slug d)"

definition removeMembers :: "string \<Rightarrow> string list \<Rightarrow> db \<Rightarrow> db" where
  "removeMembers org us d =
     (if us = [] then d else set_roles (\<lambda>m. mb_org m = org \<and> mb_user m \<in> set us) ''member'' d)"

definition resetRole :: "string \<Rightarrow> string \<Rightarrow> db \<Rightarrow> db" where
  "resetRole org slug d = set_roles (\<lambda>m. mb_org m = org \<and> mb_role m = slug) ''member'' d"

definition setMembers :: "string \<Rightarrow> string \<Rightarrow> string list \<Rightarrow> db \<Rightarrow> db" where
  "setMembers org slug us d = assignMembers org slug us (resetRole org slug d)"

definition rename_role :: "string \<Rightarrow> string \<Rightarrow> db \<Rightarrow> db" where
  "rename_role i name d = d\<lparr>org_roles := update_many (\<lambda>r. ro_id r = i) (\<lambda>r. r\<lparr>ro_name := name\<rparr>) (org_roles d)\<rparr>"

text \<open>\<open>row\<close> is the key the database gives the new role.\<close>

definition scim_createGroup ::
  "string \<Rightarrow> string \<Rightarrow> string option \<Rightarrow> json option \<Rightarrow> db \<Rightarrow> (error + scim_group) \<times> db"
where
  "scim_createGroup row c displayName ms d =
     (case resolveOrg c d of
        Inl e \<Rightarrow> (Inl e, d)
      | Inr org \<Rightarrow>
          (let name = trim (nullish displayName ''''); slug = slugifyGroupName name;
               r = \<lparr>ro_id = row, ro_org = Some (og_id org), ro_slug = slug, ro_name = name, ro_permissions = []\<rparr>
           in if name = [] then (Inl (Bad_Request (Msg ''displayName is required'')), d)
              else if find_role d (og_id org) slug \<noteq> None then (Inl Db_Conflict, d)
              else (case insert_role r d of
                      Inl e \<Rightarrow> (Inl e, d)
                    | Inr d1 \<Rightarrow>
                        (let d2 = assignMembers (og_id org) slug (memberValues ms) d1
                         in (Inr (render (og_id org) r d2), d2)))))"

definition scim_listGroups :: "string \<Rightarrow> list_query \<Rightarrow> db \<Rightarrow> error + scim_group list_response" where
  "scim_listGroups c q d =
     (case resolveOrg c d of
        Inl e \<Rightarrow> Inl e
      | Inr org \<Rightarrow>
          (let rows = filter (\<lambda>r. ro_org r = Some (og_id org) \<and> group_matches (lq_filter q) r) (org_roles d);
               resources = map (\<lambda>r. render (og_id org) r d) (page_of q rows)
           in Inr \<lparr>lr_total = length rows, lr_start = page_start q, lr_items = length resources, lr_resources = resources\<rparr>))"

definition scim_getGroup :: "string \<Rightarrow> string \<Rightarrow> db \<Rightarrow> error + scim_group" where
  "scim_getGroup c i d =
     (case resolveOrg c d of
        Inl e \<Rightarrow> Inl e
      | Inr org \<Rightarrow> (case loadRoleOr404 (og_id org) i d of Inl e \<Rightarrow> Inl e | Inr r \<Rightarrow> Inr (render (og_id org) r d)))"

definition scim_replaceGroup ::
  "string \<Rightarrow> string \<Rightarrow> string option \<Rightarrow> json option \<Rightarrow> db \<Rightarrow> (error + scim_group) \<times> db"
where
  "scim_replaceGroup c i displayName ms d =
     (case resolveOrg c d of
        Inl e \<Rightarrow> (Inl e, d)
      | Inr org \<Rightarrow>
          (case loadRoleOr404 (og_id org) i d of
             Inl e \<Rightarrow> (Inl e, d)
           | Inr r \<Rightarrow>
               (let name = map_option trim displayName;
                    d1 = (if truthy name \<and> name \<noteq> Some (ro_name r) then rename_role i (nullish name '''') d else d);
                    d2 = setMembers (og_id org) (ro_slug r) (memberValues ms) d1
                in (Inr (render (og_id org) (r\<lparr>ro_name := nullish name (ro_name r)\<rparr>) d2), d2))))"

definition scim_patchGroup :: "string \<Rightarrow> string \<Rightarrow> patch_op list \<Rightarrow> db \<Rightarrow> (error + scim_group) \<times> db" where
  "scim_patchGroup c i ops d =
     (case resolveOrg c d of
        Inl e \<Rightarrow> (Inl e, d)
      | Inr org \<Rightarrow>
          (case loadRoleOr404 (og_id org) i d of
             Inl e \<Rightarrow> (Inl e, d)
           | Inr r \<Rightarrow>
               (let p = groupPatchFromOps ops;
                    name = (if truthy (gp_name p) then nullish (gp_name p) '''' else ro_name r);
                    d1 = (if name \<noteq> ro_name r then rename_role i name d else d);
                    d2 = (case gp_replace p of Some us \<Rightarrow> setMembers (og_id org) (ro_slug r) us d1 | None \<Rightarrow> d1);
                    d3 = assignMembers (og_id org) (ro_slug r) (gp_add p) d2;
                    d4 = removeMembers (og_id org) (gp_remove p) d3
                in (Inr (render (og_id org) (r\<lparr>ro_name := name\<rparr>) d4), d4))))"

definition scim_deleteGroup :: "string \<Rightarrow> string \<Rightarrow> db \<Rightarrow> (error + unit) \<times> db" where
  "scim_deleteGroup c i d =
     (case resolveOrg c d of
        Inl e \<Rightarrow> (Inl e, d)
      | Inr org \<Rightarrow>
          (case loadRoleOr404 (og_id org) i d of
             Inl e \<Rightarrow> (Inl e, d)
           | Inr r \<Rightarrow>
               (let d1 = resetRole (og_id org) (ro_slug r) d
                in (Inr (), d1\<lparr>org_roles := delete_many (\<lambda>x. ro_id x = i) (org_roles d1)\<rparr>))))"

section \<open>The operations as one machine\<close>

datatype scim_op =
    Create_User identity_entropy scim_user_body
  | Replace_User string scim_user_body
  | Patch_User string "patch_op list"
  | Deactivate_User string
  | Create_Group string "string option" "json option"
  | Replace_Group string "string option" "json option"
  | Patch_Group string "patch_op list"
  | Delete_Group string

fun scim_step :: "string \<Rightarrow> scim_op \<Rightarrow> db \<Rightarrow> db" where
  "scim_step c (Create_User ie b) d = snd (scim_createUser ie c b d)"
| "scim_step c (Replace_User i b) d = snd (scim_replaceUser c i b d)"
| "scim_step c (Patch_User i ops) d = snd (scim_patchUser c i ops d)"
| "scim_step c (Deactivate_User i) d = snd (scim_deactivateUser c i d)"
| "scim_step c (Create_Group row n ms) d = snd (scim_createGroup row c n ms d)"
| "scim_step c (Replace_Group i n ms) d = snd (scim_replaceGroup c i n ms d)"
| "scim_step c (Patch_Group i ops) d = snd (scim_patchGroup c i ops d)"
| "scim_step c (Delete_Group i) d = snd (scim_deleteGroup c i d)"


section \<open>A directory writes in its own tenant\<close>

lemma resolveOrgD: "resolveOrg c d = Inr x \<Longrightarrow> x \<in> set (orgs d) \<and> og_company x = c \<and> og_id x \<in> own_orgs c d"
  by (auto simp: resolveOrg_def own_orgs_def dest!: find_SomeD split: option.splits)

text \<open>What a directory may write: members and roles of organizations in \<open>I\<close>, the names of users, new users, and events.\<close>

definition nameless :: "user_row \<Rightarrow> user_row" where
  "nameless u = u\<lparr>us_name := None\<rparr>"

definition within :: "string set \<Rightarrow> db \<Rightarrow> db \<Rightarrow> bool" where
  "within I d d' \<longleftrightarrow>
     filter (\<lambda>m. mb_org m \<notin> I) (memberships d') = filter (\<lambda>m. mb_org m \<notin> I) (memberships d)
     \<and> filter (\<lambda>r. \<forall>i \<in> I. ro_org r \<noteq> Some i) (org_roles d') = filter (\<lambda>r. \<forall>i \<in> I. ro_org r \<noteq> Some i) (org_roles d)
     \<and> prefix (map nameless (users d)) (map nameless (users d'))
     \<and> prefix (effects d) (effects d')
     \<and> d'\<lparr>memberships := memberships d, org_roles := org_roles d, users := users d, effects := effects d\<rparr> = d"

lemma within_refl [simp, intro]: "within I d d"
  by (simp add: within_def)

lemma within_trans:
  assumes "within I d e" "within I e f"
  shows "within I d f"
proof -
  have "f\<lparr>memberships := memberships d, org_roles := org_roles d, users := users d, effects := effects d\<rparr>
      = (f\<lparr>memberships := memberships e, org_roles := org_roles e, users := users e, effects := effects e\<rparr>)
          \<lparr>memberships := memberships d, org_roles := org_roles d, users := users d, effects := effects d\<rparr>" by simp
  then show ?thesis using assms unfolding within_def by (metis prefix_order.trans)
qed

lemma within_users:
  "within I d (update_user i (\<lambda>x. x\<lparr>us_name := n\<rparr>) d)"
proof -
  have "nameless (if us_id u = i then u\<lparr>us_name := n\<rparr> else u) = nameless u" for u by (simp add: nameless_def)
  then show ?thesis by (simp add: within_def update_user_def update_many_def comp_def del: if_image_distrib)
qed

lemma within_ensure: "ensure_user ie e n d = Inr (u, d') \<Longrightarrow> within I d d'"
  by (auto simp: ensure_user_def createIdentity_def insert_user_def within_def Let_def split: option.splits sum.splits if_splits)

lemma within_members:
  assumes "\<And>m. p m \<Longrightarrow> mb_org m \<in> I" and "\<And>m. mb_org (f m) = mb_org m"
  shows "within I d (d\<lparr>memberships := update_many p f (memberships d)\<rparr>)"
proof -
  have "filter (\<lambda>m. mb_org m \<notin> I) (update_many p f (memberships d)) = filter (\<lambda>m. mb_org m \<notin> I) (memberships d)"
    by (rule filter_update_many) (use assms in auto)
  then show ?thesis by (simp add: within_def)
qed

lemma within_set_roles: "(\<And>m. p m \<Longrightarrow> mb_org m \<in> I) \<Longrightarrow> within I d (set_roles p s d)"
  unfolding set_roles_def by (rule within_members) auto

lemma within_group_members:
  assumes "o' \<in> I"
  shows "within I d (assignMembers o' s us d)" "within I d (removeMembers o' us d)" "within I d (resetRole o' s d)"
    "within I d (setMembers o' s us d)"
proof -
  show a: "within I d (assignMembers o' s us d)" for d
    unfolding assignMembers_def using assms by (auto intro!: within_set_roles)
  show "within I d (removeMembers o' us d)"
    unfolding removeMembers_def using assms by (auto intro!: within_set_roles)
  show r: "within I d (resetRole o' s d)"
    unfolding resetRole_def using assms by (auto intro!: within_set_roles)
  show "within I d (setMembers o' s us d)"
    unfolding setMembers_def by (rule within_trans [OF r a])
qed

lemma within_setActive: "mb_org m \<in> I \<Longrightarrow> within I d (setActive m u c a e d)"
proof -
  assume m: "mb_org m \<in> I"
  have w: "within I d (update_member (mb_org m) (mb_user m) (with_state a e) d)"
    unfolding update_member_def by (rule within_members) (use m in \<open>auto simp: with_state_def\<close>)
  have "within I d1 (emit x d1)" for d1 x by (simp add: within_def emit_def)
  then show ?thesis unfolding setActive_def Let_def using w by (auto intro: within_trans)
qed

lemma loadMembershipD:
  "loadMembershipOr404 o' i d = Inr (m, u) \<Longrightarrow> m \<in> set (memberships d) \<and> mb_org m = o' \<and> mb_user m = i \<and> find_user d i = Some u"
  by (auto simp: loadMembershipOr404_def find_member_def dest!: find_SomeD split: option.splits)

lemma loadRoleD:
  "loadRoleOr404 o' i d = Inr r \<Longrightarrow> r \<in> set (org_roles d) \<and> ro_id r = i \<and> ro_org r = Some o'"
  by (auto simp: loadRoleOr404_def dest!: find_SomeD split: option.splits)

lemma within_rename:
  assumes "distinct (map ro_id (org_roles d))" "loadRoleOr404 o' i d = Inr r" "o' \<in> I"
  shows "within I d (rename_role i n d)" "within I d (d\<lparr>org_roles := delete_many (\<lambda>x. ro_id x = i) (org_roles d)\<rparr>)"
proof -
  have own: "ro_org y = Some o'" if "y \<in> set (org_roles d)" "ro_id y = i" for y
    using that loadRoleD [OF assms(2)] assms(1) by (auto dest: distinct_mapD)
  have "filter (\<lambda>r. \<forall>i \<in> I. ro_org r \<noteq> Some i) (update_many (\<lambda>r. ro_id r = i) (\<lambda>r. r\<lparr>ro_name := n\<rparr>) (org_roles d))
      = filter (\<lambda>r. \<forall>i \<in> I. ro_org r \<noteq> Some i) (org_roles d)" by (rule filter_update_many) (use own assms(3) in auto)
  then show "within I d (rename_role i n d)" by (simp add: within_def rename_role_def)
  have "filter (\<lambda>r. \<forall>i \<in> I. ro_org r \<noteq> Some i) (delete_many (\<lambda>x. ro_id x = i) (org_roles d))
      = filter (\<lambda>r. \<forall>i \<in> I. ro_org r \<noteq> Some i) (org_roles d)" by (rule filter_delete_many) (use own assms(3) in auto)
  then show "within I d (d\<lparr>org_roles := delete_many (\<lambda>x. ro_id x = i) (org_roles d)\<rparr>)" by (simp add: within_def)
qed


lemma within_create:
  assumes "ensure_user ie e n d = Inr (u, d')" "o' \<in> I"
  shows "mb_org m = o' \<Longrightarrow> within I d (d'\<lparr>memberships := memberships d' @ [m]\<rparr>)"
    and "within I d (update_member o' i (reactivate b) d')"
proof -
  show "mb_org m = o' \<Longrightarrow> within I d (d'\<lparr>memberships := memberships d' @ [m]\<rparr>)"
    using within_ensure [OF assms(1)] assms(2) by (auto simp: within_def)
  show "within I d (update_member o' i (reactivate b) d')"
    unfolding update_member_def
    by (rule within_trans [OF within_ensure [OF assms(1)] within_members]) (use assms(2) in \<open>auto simp: reactivate_def\<close>)
qed

text \<open>C31. A directory with a tenant's token writes in that tenant's organizations only: whatever it does, members and
  roles of every other organization stay as they are, in place; of a user that existed nothing changes but the name; only
  users and events are added; and no other table changes, so no session, code, token or credential of a user it
  deactivates is ended here.\<close>

theorem scim_writes_within_tenant:
  assumes "distinct (map ro_id (org_roles d))"
  shows "within (own_orgs c d) d (scim_step c op d)"
proof (cases op)
  case (Create_User ie b)
  show ?thesis
    using Create_User by (auto simp: scim_createUser_def Let_def dest!: resolveOrgD 
        intro: within_create within_ensure split: sum.splits option.splits)
next
  case (Replace_User i b)
  then show ?thesis
    by (auto simp: scim_replaceUser_def Let_def dest!: resolveOrgD loadMembershipD
        intro!: within_setActive within_trans [OF within_users within_setActive] split: sum.splits)
next
  case (Patch_User i ops)
  then show ?thesis
    by (auto simp: scim_patchUser_def dest!: resolveOrgD loadMembershipD intro!: within_setActive split: sum.splits option.splits)
next
  case (Deactivate_User i)
  then show ?thesis
    by (auto simp: scim_deactivateUser_def dest!: resolveOrgD loadMembershipD intro!: within_setActive split: sum.splits)
next
  case (Create_Group row n ms)
  have w: "within I d (assignMembers o' s us d1)"
    if "insert_role \<lparr>ro_id = row, ro_org = Some o', ro_slug = s, ro_name = k, ro_permissions = []\<rparr> d = Inr d1" "o' \<in> I"
    for o' s k us d1 I
    by (rule within_trans [OF _ within_group_members(1)]) (use that in \<open>auto simp: insert_role_def within_def split: if_splits\<close>)
  show ?thesis
    using Create_Group by (auto simp: scim_createGroup_def Let_def dest!: resolveOrgD intro!: w split: sum.splits)
next
  case (Replace_Group i n ms)
  then show ?thesis
    using within_rename [OF assms]
    by (auto simp: scim_replaceGroup_def Let_def dest!: resolveOrgD split: sum.splits
        intro!: within_group_members intro: within_trans [OF _ within_group_members(4)])
next
  case (Patch_Group i ops)
  have w: "within I d (let d2 = case p of Some us \<Rightarrow> setMembers o' s us d1 | None \<Rightarrow> d1 in
      removeMembers o' rs (assignMembers o' s as d2))"
    if "within I d d1" "o' \<in> I" for p o' s as rs d1 I
    unfolding Let_def
    by (rule within_trans [OF within_trans [OF _ within_group_members(1)] within_group_members(2)])
      (use that in \<open>auto intro: within_trans [OF _ within_group_members(4)] split: option.split\<close>)
  then show ?thesis
    using Patch_Group within_rename(1) [OF assms]
    by (auto simp: scim_patchGroup_def Let_def dest!: resolveOrgD split: sum.splits)
next
  case (Delete_Group i)
  have w: "within I d ((resetRole o' s d)\<lparr>org_roles := delete_many (\<lambda>x. ro_id x = i) (org_roles d)\<rparr>)"
    if "loadRoleOr404 o' i d = Inr r" "o' \<in> I" for o' r s I
  proof -
    have swap: "e\<lparr>memberships := ms, org_roles := rs\<rparr> = e\<lparr>org_roles := rs, memberships := ms\<rparr>" for e :: db and ms rs
      by (rule db.equality) simp_all
    then show ?thesis using within_trans [OF within_rename(2) [OF assms that] within_group_members(3) [OF that(2)], of s]
      by (simp add: resetRole_def set_roles_def swap)
  qed
  have "org_roles (resetRole o' s d) = org_roles d" for o' s by (simp add: resetRole_def set_roles_def)
  then show ?thesis
    using Delete_Group w by (auto simp: scim_deleteGroup_def Let_def dest!: resolveOrgD split: sum.splits)
qed


section \<open>Leaving a tenant\<close>

definition one_membership :: "db \<Rightarrow> bool" where
  "one_membership d \<longleftrightarrow> distinct (map (\<lambda>m. (mb_user m, mb_org m)) (memberships d))"

lemma find_update_many:
  "(\<And>x. P (f x) = P x) \<Longrightarrow> (\<And>x. P x \<Longrightarrow> q x) \<Longrightarrow> List.find P (update_many q f t) = map_option f (List.find P t)"
  by (induction t) (auto simp: update_many_def)

lemma find_member_update:
  "(\<And>m. mb_user (f m) = mb_user m \<and> mb_org (f m) = mb_org m)
    \<Longrightarrow> find_member (update_member org u f d) org u = map_option f (find_member d org u)"
  unfolding find_member_def update_member_def by (simp add: find_update_many)

lemma find_member_ids: "find_member d org u = Some m \<Longrightarrow> mb_user m = u \<and> mb_org m = org"
  by (auto simp: find_member_def dest!: find_SomeD)

lemma setActive_simps [simp]:
  "orgs (setActive m u c a e d) = orgs d" "users (setActive m u c a e d) = users d"
  "org_roles (setActive m u c a e d) = org_roles d"
  by (simp_all add: setActive_def update_member_def emit_def Let_def)

lemma deactivate_effects:
  assumes "scim_deactivateUser c i d = (Inr (), d')" and "resolveOrg c d = Inr org"
  shows "\<exists>m u. find_member d (og_id org) i = Some m \<and> find_user d i = Some u \<and> d' = setActive m u c False None d \<and>
      effects d' = effects d @ (if mb_status m = ''active''
        then [Ssf_Event ACCOUNT_DISABLED (us_did u) (Some c) [(''reason'', JStr ''scim_deprovision'')]] else [])"
proof -
  from assms(2) have "og_company org = c" by (auto dest: resolveOrgD)
  with assms show ?thesis
    by (auto simp: scim_deactivateUser_def loadMembershipOr404_def setActive_def emit_def update_member_def Let_def split: option.splits)
qed

text \<open>Taking a user out of the tenant ends their permissions there at once and tells the tenant's receivers exactly
  once: the member is inactive and has no permission in the organization, one account-disabled event is sent if they were
  active and none otherwise, and doing it again answers the same and changes nothing.\<close>

theorem deprovision_revokes:
  assumes "scim_deactivateUser c i d = (Inr (), d')" and "resolveOrg c d = Inr org"
  shows "map_option mb_status (find_member d' (og_id org) i) = Some ''inactive''"
    and "resolvePermissions i (og_id org) d' = Inr []"
    and "\<exists>m u. find_member d (og_id org) i = Some m \<and> find_user d i = Some u \<and>
      effects d' = effects d @ (if mb_status m = ''active''
        then [Ssf_Event ACCOUNT_DISABLED (us_did u) (Some c) [(''reason'', JStr ''scim_deprovision'')]] else [])"
    and "scim_deactivateUser c i d' = (Inr (), d')"
proof -
  from deactivate_effects [OF assms] obtain m u where m: "find_member d (og_id org) i = Some m" and u: "find_user d i = Some u"
    and d': "d' = setActive m u c False None d" by blast
  from m have ids: "mb_user m = i" "mb_org m = og_id org" by (auto dest: find_member_ids)
  from assms(2) have c: "og_company org = c" by (auto dest: resolveOrgD)
  have mem: "memberships d' = memberships (update_member (og_id org) i (with_state False None) d)"
    using d' ids by (simp add: setActive_def emit_def Let_def)
  have new: "find_member d' (og_id org) i = Some (with_state False None m)"
    using find_member_update [of "with_state False None" "og_id org" i d] m mem by (simp add: find_member_def with_state_def)
  then show "map_option mb_status (find_member d' (og_id org) i) = Some ''inactive''" by (simp add: with_state_def)
  from new show "resolvePermissions i (og_id org) d' = Inr []" by (simp add: resolvePermissions_def with_state_def)
  show "\<exists>m u. find_member d (og_id org) i = Some m \<and> find_user d i = Some u \<and>
      effects d' = effects d @ (if mb_status m = ''active''
        then [Ssf_Event ACCOUNT_DISABLED (us_did u) (Some c) [(''reason'', JStr ''scim_deprovision'')]] else [])"
    using deactivate_effects [OF assms] by blast
  have "update_member (og_id org) i (with_state False None) d' = d'"
  proof -
    have "update_many p f (update_many p f t) = update_many p f t" if "\<And>x. f (f x) = f x" for p and f :: "membership_row \<Rightarrow> _" and t
      using that by (auto simp: update_many_def)
    from this [of "with_state False None"] show ?thesis using mem by (simp add: update_member_def with_state_def)
  qed
  moreover have "resolveOrg c d' = Inr org" "find_user d' i = Some u"
    using d' assms(2) u by (simp_all add: resolveOrg_def find_user_def)
  ultimately show "scim_deactivateUser c i d' = (Inr (), d')"
    using new ids c by (simp add: scim_deactivateUser_def loadMembershipOr404_def setActive_def with_state_def)
qed


section \<open>What a directory can do to a tenant and to its users\<close>

lemma slug_owner: "slugifyGroupName ''Owner'' = ''owner''"
  by code_simp

text \<open>The group service reserves no name: a directory that creates a group called Owner gives the system role an entry of
  its own with no permissions, so from then on every owner of the tenant may do nothing in it, and the service that manages roles,
  which refuses the name, can neither change that entry nor give the role back.\<close>

theorem scim_group_strips_owners:
  assumes "resolveOrg c d = Inr org" and "find_role d (og_id org) ''owner'' = None" and "\<forall>r \<in> set (org_roles d). ro_id r \<noteq> row"
  defines "d' \<equiv> snd (scim_createGroup row c (Some ''Owner'') None d)"
  shows "find_member d (og_id org) u = Some m \<Longrightarrow> mb_role m = ''owner'' \<Longrightarrow> resolvePermissions u (og_id org) d' = Inr []"
    and "mb_status m = ''active'' \<Longrightarrow> find_member d (og_id org) u = Some m \<Longrightarrow> mb_role m = ''owner''
      \<Longrightarrow> resolvePermissions u (og_id org) d = Inr [''org:*'']"
    and "snd (updateRole sc (og_id org) ''owner'' n ps d') = d'"
    and "snd (createRole sc row' (og_id org) ''owner'' n ps d') = d'"
proof -
  let ?r = "\<lparr>ro_id = row, ro_org = Some (og_id org), ro_slug = ''owner'', ro_name = ''Owner'', ro_permissions = []\<rparr>"
  have "insert_role ?r d = Inr (d\<lparr>org_roles := org_roles d @ [?r]\<rparr>)"
    using assms(2,3) by (auto simp: insert_role_def find_role_def find_None_iff list_ex_iff)
  then have d': "d' = d\<lparr>org_roles := org_roles d @ [?r]\<rparr>"
    using assms(1,2)
    by (simp add: d'_def scim_createGroup_def slug_owner trim_def is_ws_def memberValues_def assignMembers_def Let_def)
  have "find_role d' (og_id org) ''owner'' = Some ?r" using assms(2) by (simp add: d' find_role_def find_append)
  moreover have "find_member d' = find_member d" by (simp add: find_member_def d' fun_eq_iff)
  ultimately show "find_member d (og_id org) u = Some m \<Longrightarrow> mb_role m = ''owner'' \<Longrightarrow> resolvePermissions u (og_id org) d' = Inr []"
    by (simp add: resolvePermissions_def permissionsForRole_def)
  show "mb_status m = ''active'' \<Longrightarrow> find_member d (og_id org) u = Some m \<Longrightarrow> mb_role m = ''owner''
      \<Longrightarrow> resolvePermissions u (og_id org) d = Inr [''org:*'']"
    using assms(2) by (simp add: resolvePermissions_def permissionsForRole_def SYSTEM_ROLE_PERMISSIONS_def)
  have reserved: "reserved_role ''owner''" by (simp add: reserved_role_def SYSTEM_ROLE_PERMISSIONS_def)
  show "snd (updateRole sc (og_id org) ''owner'' n ps d') = d'"
    using reserved by (simp add: updateRole_def split: sum.split)
  show "snd (createRole sc row' (og_id org) ''owner'' n ps d') = d'"
    using reserved by (simp add: createRole_def split: sum.split)
qed

text \<open>A directory takes in whoever it names: for any account with an e-mail address, not yet a member of its tenant,
  creating that user needs nobody's consent, answers with the account's key and name, and makes the name that all of the
  service shows of it the directory's to set.\<close>

theorem scim_renames_anyone:
  assumes "resolveOrg c d = Inr org" and "find_user_email d e = Some u" and "e \<noteq> []" and "find_user d (us_id u) = Some u"
    and "find_member d (og_id org) (us_id u) = None" and "n \<noteq> []" and "trim n = n" and "Some n \<noteq> us_name u"
  defines "b \<equiv> \<lparr>su_user_name = Some e, su_emails = [], su_external = None, su_formatted = Some n, su_given = None,
    su_family = None, su_display = None, su_active = None\<rparr>"
  shows "\<exists>v. fst (scim_createUser ie c b d) = Inr v \<and> vu_id v = us_id u \<and> vu_name v = present (us_name u)"
    and "find_user (scim_step c (Replace_User (us_id u) b) (scim_step c (Create_User ie b) d)) (us_id u) = Some (u\<lparr>us_name := Some n\<rparr>)"
proof -
  let ?m = "\<lparr>mb_user = us_id u, mb_org = og_id org, mb_role = ''member'', mb_status = ''active'', mb_external = None\<rparr>"
  let ?d = "d\<lparr>memberships := memberships d @ [?m]\<rparr>"
  have fn: "formatName b = Some n" using assms(6,7) by (simp add: formatName_def b_def)
  have cr: "scim_createUser ie c b d = (Inr (toScimUser u ?m), ?d)"
    using assms(1-5) by (simp add: scim_createUser_def requireUserName_def b_def ensure_user_def Let_def)
  then show "\<exists>v. fst (scim_createUser ie c b d) = Inr v \<and> vu_id v = us_id u \<and> vu_name v = present (us_name u)"
    by (simp add: toScimUser_def)
  have "find_member ?d (og_id org) (us_id u) = Some ?m" using assms(5) by (simp add: find_member_def find_append)
  moreover have "find_user ?d (us_id u) = Some u" "resolveOrg c ?d = Inr org"
    using assms(1,4) by (simp_all add: find_user_def resolveOrg_def)
  moreover have "find_user (update_user (us_id u) (\<lambda>x. x\<lparr>us_name := Some n\<rparr>) ?d) (us_id u) = Some (u\<lparr>us_name := Some n\<rparr>)"
    using assms(4) by (simp add: find_user_def update_user_def find_update_many)
  ultimately show "find_user (scim_step c (Replace_User (us_id u) b) (scim_step c (Create_User ie b) d)) (us_id u) = Some (u\<lparr>us_name := Some n\<rparr>)"
    using fn assms(8) by (simp add: cr scim_replaceUser_def loadMembershipOr404_def Let_def) (simp add: find_user_def)
qed

text \<open>A search for a group by its display name finds every group.\<close>

lemma display_filter_ignored:
  "scim_listGroups c (q\<lparr>lq_filter := Some (''displayName eq '' @ v)\<rparr>) d = scim_listGroups c (q\<lparr>lq_filter := None\<rparr>) d"
proof -
  define f where "f = ''displayName eq '' @ v"
  have "parseEqFilter (Some f) = None" by (simp add: f_def parseEqFilter_def is_ws_def lower_def lower_char_def)
  then have "group_matches (Some f) = group_matches None" by (simp add: group_matches_def parseEqFilter_def fun_eq_iff)
  then have "scim_listGroups c (q\<lparr>lq_filter := Some f\<rparr>) d = scim_listGroups c (q\<lparr>lq_filter := None\<rparr>) d"
    by (cases "resolveOrg c d") (simp_all add: scim_listGroups_def page_of_def page_start_def)
  then show ?thesis by (simp only: f_def)
qed


section \<open>Examples\<close>

definition bob_user :: user_row where
  "bob_user = ann\<lparr>us_id := ''u2'', us_did := ''did:web:bob'', us_email := Some ''bob@x.io'', us_name := Some ''Bob''\<rparr>"

definition directory_db :: db where
  "directory_db = two_tenants\<lparr>users := [ann, bob_user], memberships := [ann_acme\<lparr>mb_role := ''owner''\<rparr>, ann_globex]\<rparr>"

lemmas directory_defs = directory_db_def bob_user_def ann_def two_tenants_defs

lemma directory_org: "resolveOrg ''acme'' directory_db = Inr acme"
  by (simp add: resolveOrg_def directory_defs)

theorem scim_writes_within_tenant_witness:
  "within (own_orgs ''acme'' directory_db) directory_db (scim_step ''acme'' (Delete_Group ''r1'') directory_db)"
  by (rule scim_writes_within_tenant) (simp add: directory_defs)

theorem deprovision_revokes_witness:
  "resolvePermissions ''u1'' ''o1'' (snd (scim_deactivateUser ''acme'' ''u1'' directory_db)) = Inr []"
proof -
  have "find_member directory_db (og_id acme) ''u1'' = Some (ann_acme\<lparr>mb_role := ''owner''\<rparr>)" "find_user directory_db ''u1'' = Some ann"
    by (simp_all add: find_member_def find_user_def directory_defs)
  then have "scim_deactivateUser ''acme'' ''u1'' directory_db = (Inr (), snd (scim_deactivateUser ''acme'' ''u1'' directory_db))"
    by (simp add: scim_deactivateUser_def directory_org loadMembershipOr404_def)
  from deprovision_revokes(2) [OF this directory_org] show ?thesis by (simp add: acme_def)
qed

theorem scim_group_strips_owners_witness:
  "resolvePermissions ''u1'' ''o1'' (snd (scim_createGroup ''r9'' ''acme'' (Some ''Owner'') None directory_db)) = Inr []"
  using scim_group_strips_owners(1) [OF directory_org, of "''r9''" "''u1''" "ann_acme\<lparr>mb_role := ''owner''\<rparr>"]
  by (simp add: find_role_def find_member_def directory_defs)

theorem scim_renames_anyone_witness:
  "\<exists>b. find_user (scim_step ''acme'' (Replace_User ''u2'' b) (scim_step ''acme'' (Create_User ie b) directory_db)) ''u2''
     = Some (bob_user\<lparr>us_name := Some ''Mallory''\<rparr>)"
  using scim_renames_anyone(2) [OF directory_org, of "''bob@x.io''" bob_user "''Mallory''" ie]
  by (auto simp: find_user_email_def find_user_def find_member_def trim_def is_ws_def directory_defs)

end
