(* ===== verification/Account_System.thy ===== *)
theory Account_System
  imports Ton Saml Second_Factor Scim
begin

text \<open>
  The services that write the user table, together: every way of signing in, what a person changes of their own account,
  and the directory's provisioning, as steps of one system from any well-formed table.  The interleaving is
  of whole requests.  Signing in with Telegram ends in \<open>resolveUser\<close> with a profile of its own, which is
  the step \<open>Profile\<close> for an arbitrary profile.  The operator's console is not a step.
\<close>

datatype account_op =
    Register identity_entropy string string "string option"
  | Log_In request string string
  | Send_Link request entropy string "json option"
  | Follow_Link request identity_entropy string
  | Ask_Reset request entropy string "json option"
  | Reset request string string
  | Send_Code request string string
  | Enter_Code request identity_entropy string string
  | Callback request fed_entropy string string query discovery web
  | Profile fed_entropy provider_profile
  | Consume fed_entropy string string "string option" "string option" saml_table web
  | Sign_Challenge request string string
  | Sign_Message request wallet_entropy string string string web
  | Passkey request string webauthn_response web
  | Link_Wallet string string string string string string
  | Link_Ton request string string ton_input
  | Factor string mfa_op
  | Edit string profile_update
  | Change_Password request string string string
  | Ask_Change request string string string string
  | Cancel_Change string
  | Send_Again request string string
  | Confirm request string
  | Delete_Account string string
  | Directory string scim_op

record sign_in_deps =
  sn_accounts :: account_deps
  sn_login :: login_deps
  sn_otp :: otp_deps
  sn_fed :: fed_deps
  sn_saml :: saml_deps
  sn_wallet :: wallet_deps
  sn_passkey :: passkey_deps
  sn_ton :: ton_deps
  sn_mfa :: mfa_deps
  sn_own :: own_deps

text \<open>The user table and the keys after an operation; the browser's session, the cache of discovery and the table of
  SAML connections it meets are arguments, whatever they hold.\<close>

fun account_step :: "sign_in_deps \<Rightarrow> account_op \<Rightarrow> db \<times> redis \<Rightarrow> db \<times> redis" where
  "account_step N (Register ie email pw name) st = (snd (registerWithPassword (sn_accounts N) ie email pw name (fst st)), snd st)"
| "account_step N (Log_In rq email pw) st = snd (loginWithPassword (sn_login N) rq email pw st)"
| "account_step N (Send_Link rq en email params) st =
     (case sendMagicLink (sn_accounts N) rq en email params (fst st) of Inl _ \<Rightarrow> st | Inr d1 \<Rightarrow> (d1, snd st))"
| "account_step N (Follow_Link rq ie token) st = (snd (verifyMagicLink rq ie token (fst st)), snd st)"
| "account_step N (Ask_Reset rq en email params) st =
     (requestPasswordReset (sn_accounts N) rq en email params (fst st), snd st)"
| "account_step N (Reset rq token pw) st = (snd (resetPassword (sn_accounts N) rq token pw (fst st)), snd st)"
| "account_step N (Send_Code rq code email) st =
     (fst st, snd (requestEmailLoginCode (sn_otp N) rq code email (fst st) (snd st)))"
| "account_step N (Enter_Code rq ie email code) st = snd (verifyEmailLoginCode (sn_otp N) rq ie email code st)"
| "account_step N (Callback rq fn fresh i q cache w) st =
     (case federation_callback (sn_fed N) rq fn fresh i q ((fst st, snd st, cache), w) of (_, (d1, s1, _), _) \<Rightarrow> (d1, s1))"
| "account_step N (Profile fn p) st = (snd (resolveUser fn p (fst st)), snd st)"
| "account_step N (Consume fn fresh slug response relay t w) st =
     (fst (snd (acs (sn_saml N) fn fresh slug response relay t (fst st, w))), snd st)"
| "account_step N (Sign_Challenge rq nonce address) st =
     (fst st, snd (createSiweChallenge (sn_wallet N) rq nonce address (snd st)))"
| "account_step N (Sign_Message rq we fresh m sig w) st =
     (case siweVerify (sn_wallet N) rq we fresh m sig (fst st, snd st, w) of (_, d1, s1, _) \<Rightarrow> (d1, s1))"
| "account_step N (Passkey rq fresh r w) st =
     (case verifyAuthentication (sn_passkey N) rq fresh r (fst st, snd st, w) of (_, d1, s1, _) \<Rightarrow> (d1, s1))"
| "account_step N (Link_Wallet row i address chain m sig) st =
     (snd (linkWallet (sn_wallet N) row i address chain m sig (fst st)), snd st)"
| "account_step N (Link_Ton rq row i x) st = snd (linkWithProof (sn_ton N) rq row i x st)"
| "account_step N (Factor i op) st = (snd (mfa_step (sn_mfa N) i op (fst st)), snd st)"
| "account_step N (Edit i p) st = (snd (updateProfile i p (fst st)), snd st)"
| "account_step N (Change_Password rq i old new) st = (snd (changePassword (sn_own N) rq i old new (fst st)), snd st)"
| "account_step N (Ask_Change rq token i email pw) st = (snd (requestEmailChange (sn_own N) rq token i email pw (fst st)), snd st)"
| "account_step N (Cancel_Change i) st = (snd (cancelEmailChange i (fst st)), snd st)"
| "account_step N (Send_Again rq token i) st = (snd (resendEmailVerification (sn_own N) rq token i (fst st)), snd st)"
| "account_step N (Confirm rq token) st = (snd (verifyEmail (sn_own N) rq token (fst st)), snd st)"
| "account_step N (Delete_Account i pw) st = (snd (deleteAccount (sn_own N) i pw (fst st)), snd st)"
| "account_step N (Directory c op) st = (scim_step c op (fst st), snd st)"

inductive reaches :: "sign_in_deps \<Rightarrow> db \<times> redis \<Rightarrow> db \<times> redis \<Rightarrow> bool" for N st where
  start: "reaches N st st"
| step: "reaches N st st1 \<Longrightarrow> reaches N st (account_step N op st1)"

section \<open>Well-formed tables\<close>

definition row_ok :: "user_row \<Rightarrow> bool" where
  "row_ok u \<longleftrightarrow> 0 \<le> us_failed_logins u \<and> (us_lockout_until u = None \<longleftrightarrow> us_failed_logins u < 5)"

definition keys_ok :: "user_row list \<Rightarrow> bool" where
  "keys_ok t \<longleftrightarrow> distinct (map us_id t) \<and> distinct (map us_did t)
     \<and> distinct (filter (\<lambda>e. e \<noteq> None) (map us_email t))"

definition users_ok :: "user_row list \<Rightarrow> bool" where
  "users_ok t \<longleftrightarrow> keys_ok t \<and> (\<forall>u \<in> set t. row_ok u)"

text \<open>An update that keeps the three keys of a row.\<close>

definition keeps_keys :: "(user_row \<Rightarrow> user_row) \<Rightarrow> bool" where
  "keeps_keys f \<longleftrightarrow> (\<forall>u. us_id (f u) = us_id u \<and> us_did (f u) = us_did u \<and> us_email (f u) = us_email u)"

lemma user_keys_update: "keeps_keys f \<Longrightarrow> keys_ok (update_many p f t) = keys_ok t"
  by (simp add: keys_ok_def map_update_many keeps_keys_def)

lemma users_update:
  assumes "keeps_keys f" and "\<And>u. u \<in> set t \<Longrightarrow> p u \<Longrightarrow> row_ok u \<Longrightarrow> row_ok (f u)" and "users_ok t"
  shows "users_ok (update_many p f t)"
  using assms by (auto simp: users_ok_def user_keys_update elim!: update_manyE)

lemma users_insert:
  assumes "insert_user u d = Inr d1" and "users_ok (users d)" and "row_ok u"
  shows "users_ok (users d1)"
  using assms by (fastforce simp: insert_user_def users_ok_def keys_ok_def list_ex_iff split: if_splits)

lemma row_ok_new [simp]: "row_ok (new_identity ie e n)"
  by (simp add: row_ok_def new_identity_def)

lemma lock_until_none: "lock_until t n = None \<longleftrightarrow> n < 5"
  by (auto simp: lock_until_def lockoutSchedule_def)

lemma users_frame [simp]:
  "users (send_welcome u d) = users d" "users (spend_magic rq m d) = users d"
  by (simp_all add: send_welcome_def spend_magic_def)

lemma users_create:
  assumes "createIdentity ie e n d = Inr (u, d1)" and "users_ok (users d)"
  shows "users_ok (users d1)"
  using assms by (auto simp: createIdentity_def Let_def intro: users_insert split: sum.splits)

lemma users_verify_email:
  assumes "verify_email u d = (u1, d1)" and "users_ok (users d)"
  shows "users_ok (users d1)"
  using assms
  by (auto simp: verify_email_def update_user_def keeps_keys_def row_ok_def intro!: users_update split: if_splits)

lemma users_login:
  assumes "loginWithPassword L rq e pw st = (r, st1)" and "users_ok (users (fst st))"
  shows "users_ok (users (fst st1))"
proof -
  let ?c = "check_login L rq e pw (fst st)"
  have st1: "st1 = snd (finish_login L rq ?c st)" using assms(1) by (simp add: loginWithPassword_def)
  have row: "0 \<le> us_failed_logins u" if "?c = Wrong u" for u
    using that assms(2) find_SomeD [of _ "users (fst st)" u]
    by (auto simp: check_login_def users_ok_def row_ok_def find_user_email_def split: option.splits if_splits)
  show ?thesis
  proof (cases ?c)
    case (Wrong u)
    then show ?thesis using assms(2) row
      by (auto simp: st1 users_after_wrong keeps_keys_def row_ok_def lock_until_none intro!: users_update)
  next
    case (Right u)
    then show ?thesis using assms(2)
      by (auto simp: st1 users_after_right keeps_keys_def row_ok_def intro!: users_update)
  qed (use assms(2) in \<open>simp_all add: st1 finish_login_def\<close>)
qed

lemma users_magic:
  assumes "verifyMagicLink rq ie token d = (r, d1)" and "users_ok (users d)"
  shows "users_ok (users d1)"
  using assms
  by (auto simp: verifyMagicLink_def finish_magic_def Let_def
      split: sum.splits prod.splits option.splits if_splits dest!: users_create users_verify_email)

lemma users_register:
  assumes "registerWithPassword A ie e pw n d = (r, d1)" and "users_ok (users d)"
  shows "users_ok (users d1)"
  using assms
  by (auto simp: registerWithPassword_def Let_def update_user_def keeps_keys_def row_ok_def
      split: sum.splits prod.splits if_splits dest!: users_create intro!: users_update)

lemma users_reset:
  assumes "resetPassword A rq token pw d = (r, d1)" and "users_ok (users d)"
  shows "users_ok (users d1)"
  using assms
  by (auto simp: resetPassword_def Let_def update_user_def keeps_keys_def row_ok_def
      split: sum.splits option.splits if_splits intro!: users_update)

lemma users_ask_reset: "users_ok (users d) \<Longrightarrow> users_ok (users (requestPasswordReset A rq en e params d))"
  by (auto simp: requestPasswordReset_def update_user_def keeps_keys_def row_ok_def intro!: users_update split: option.splits)

lemma users_send_link: "sendMagicLink A rq en e params d = Inr d1 \<Longrightarrow> users d1 = users d"
  by (auto simp: sendMagicLink_def generateMagicLink_def insert_magic_def Let_def split: sum.splits prod.splits if_splits)

lemma users_otp:
  assumes "verifyEmailLoginCode D rq ie e code st = (r, st1)" and "users_ok (users (fst st))"
  shows "users_ok (users (fst st1))"
  using assms
  by (auto simp: verifyEmailLoginCode_def resolveOrCreateUser_def update_user_def keeps_keys_def row_ok_def
      split: sum.splits prod.splits option.splits if_splits dest!: users_create users_verify_email intro!: users_update)

text \<open>Signing in through others.\<close>

lemma users_link_identity [simp]: "linkIdentity row i p d = Inr d1 \<Longrightarrow> users d1 = users d"
  by (auto simp: linkIdentity_def insert_identity_def split: if_splits)

lemma users_resolve:
  assumes "resolveUser fn p d = (r, d1)" and "users_ok (users d)"
  shows "users_ok (users d1)"
proof -
  have up: "users_ok (update_many q (shape_new p) t)" if "users_ok t" for q t
    using that by (auto simp: keeps_keys_def row_ok_def shape_new_def intro!: users_update)
  show ?thesis using assms
    by (auto simp: resolveUser_def Let_def update_user_def up users_create split: option.splits sum.splits if_splits)
qed

lemma users_callback:
  assumes "handleCallback W rq fn i q (d, s, cache) = (r, d1, s1, cache1)" and "users_ok (users d)"
  shows "users_ok (users d1)"
  using assms
  by (auto simp: handleCallback_def split: sum.splits option.splits if_splits prod.splits dest: users_resolve)

lemma users_saml:
  assumes "users_ok (users (fst st))"
  shows "users_ok (users (fst (snd (acs S fn fresh slug response relay t st))))"
proof -
  have r: "users_ok (users (snd (resolveUser fn p (fst st))))" for p using users_resolve [of fn p "fst st"] assms by (metis surj_pair snd_conv)
  have "users_ok (users (snd (saml_user S fn c x (fst st))))" for c x
    using r assms by (auto simp: saml_user_def split: sum.split option.split)
  then have "users_ok (users d1)" if "saml_user S fn c x (fst st) = (y, d1)" for c x y d1 using that by (metis snd_conv)
  then show ?thesis using assms by (auto simp: acs_def split: sum.split prod.split)
qed

lemma users_wallet:
  assumes "resolveOrCreateWalletUser we a m sig d = (r, d1)" and "users_ok (users d)"
  shows "users_ok (users d1)"
  using assms
  by (auto simp: resolveOrCreateWalletUser_def insert_wallet_def users_create split: option.splits sum.splits if_splits)

lemma users_siwe:
  assumes "siweVerify W rq we fresh m sig (d, s, w) = (r, d1, s1, w1)" and "users_ok (users d)"
  shows "users_ok (users d1)"
  using assms users_wallet
  by (auto simp: siweVerify_def verifySiweLogin_def Let_def prod_eq_iff split: sum.splits prod.splits)

lemma users_passkey:
  assumes "verifyAuthentication W rq fresh r (d, s, w) = (x, d1, s1, w1)"
  shows "users d1 = users d"
proof -
  have "users (snd (check_assertion W rq r c d)) = users d" for c
    by (simp add: check_assertion_def split: option.split)
  then have "users (fst (snd (verifyAuthenticationResponse W rq r (d, s)))) = users d"
    by (simp add: verifyAuthenticationResponse_def Let_def split: sum.split)
  moreover have "users (notifyNewDeviceIfNeeded L rq i e) = users e" for L i e
    by (simp add: notifyNewDeviceIfNeeded_def emit_def Let_def split: option.split)
  ultimately show ?thesis using assms by (auto simp: verifyAuthentication_def split: sum.splits prod.splits)
qed

lemma users_persist: "users (snd (persistWallet row i a chain m sig d)) = users d"
  by (simp add: persistWallet_def insert_wallet_def Let_def split: option.split sum.split)

lemma users_link: "users (snd (linkWallet W row i a chain m sig d)) = users d"
  by (simp add: linkWallet_def users_persist split: sum.split)

lemma users_ton: "users (fst (snd (linkWithProof T rq row i x st))) = users (fst st)"
  by (simp add: linkWithProof_def users_persist Let_def split: sum.split ton_result.split)

text \<open>One's own account.\<close>

lemma users_own_update:
  assumes "users_ok t" and "keeps_keys f" and "\<And>u. row_ok (f u) = row_ok u"
  shows "users_ok (update_many p f t)"
  using assms by (auto intro!: users_update)

lemma keeps_rows [simp]:
  "keeps_keys (set_metadata m)" "row_ok (set_metadata m u) = row_ok u"
  "keeps_keys (apply_profile p)" "row_ok (apply_profile p u) = row_ok u"
  by (simp_all add: keeps_keys_def row_ok_def set_metadata_def apply_profile_def)

lemma users_factor: "users_ok (users d) \<Longrightarrow> users_ok (users (snd (mfa_step F i op d)))"
  by (cases op)
    (simp_all add: setup2FA_def enable2FA_def disable2FA_def regenerateBackupCodes_def verify2FA_def reencryptIfLegacy_def Let_def
       update_user_def users_own_update keeps_keys_def row_ok_def set_metadata_def split: sum.split option.split prod.split)

lemma users_emit [simp]: "users (emit x d) = users d"
  by (simp add: emit_def)

lemma users_own:
  assumes "users_ok (users d)"
  shows "users_ok (users (snd (updateProfile i p d)))" "users_ok (users (snd (changePassword W rq i old new d)))"
    "users_ok (users (snd (requestEmailChange W rq token i email pw d)))" "users_ok (users (snd (cancelEmailChange i d)))"
    "users_ok (users (snd (resendEmailVerification W rq token i d)))"
  using assms
  by (simp_all add: updateProfile_def changePassword_def requestEmailChange_def cancelEmailChange_def resendEmailVerification_def
      update_user_def users_own_update keeps_keys_def row_ok_def set_metadata_def apply_profile_def Let_def split: sum.split option.split)

text \<open>Addresses are unique: two rows with one address are one.\<close>

definition one_address :: "user_row list \<Rightarrow> bool" where
  "one_address t \<longleftrightarrow> (\<forall>x \<in> set t. \<forall>y \<in> set t. \<forall>a. us_email x = Some a \<and> us_email y = Some a \<longrightarrow> us_id x = us_id y)"

lemma one_address_Cons:
  assumes "us_id u \<notin> us_id ` set t"
  shows "one_address (u # t) \<longleftrightarrow> (us_email u = None \<or> us_email u \<notin> us_email ` set t) \<and> one_address t"
proof -
  have id: "us_id u \<noteq> us_id x" "us_id x \<noteq> us_id u" if "x \<in> set t" for x using assms imageI [OF that, of us_id] by metis+
  show ?thesis
  proof (cases "us_email u")
    case None
    then show ?thesis by (simp add: one_address_def)
  next
    case (Some a)
    have "us_email u \<notin> us_email ` set t \<longleftrightarrow> (\<forall>x \<in> set t. us_email x \<noteq> Some a)"
      by (simp add: image_iff Some eq_commute [of "Some a"])
    then show ?thesis using id unfolding one_address_def by (simp add: Some) blast
  qed
qed

lemma one_address_distinct:
  "distinct (map us_id t) \<Longrightarrow> distinct (filter (\<lambda>e. e \<noteq> None) (map us_email t)) \<longleftrightarrow> one_address t"
proof (induction t)
  case Nil
  show ?case by (simp add: one_address_def)
next
  case (Cons u t)
  then show ?case by (cases "us_email u") (simp_all add: one_address_Cons)
qed

lemma keys_ok_iff: "keys_ok t \<longleftrightarrow> distinct (map us_id t) \<and> distinct (map us_did t) \<and> one_address t"
  using one_address_distinct by (auto simp: keys_ok_def)

lemma users_change_email:
  assumes "users_ok t" and "list_all (\<lambda>x. us_id x = i \<or> e = None \<or> us_email x \<noteq> e) t"
    and f: "\<And>x. us_id (f x) = us_id x \<and> us_did (f x) = us_did x \<and> us_email (f x) = e" "\<And>x. row_ok (f x) = row_ok x"
  shows "users_ok (update_many (\<lambda>x. us_id x = i) f t)"
proof -
  have "keys_ok (update_many (\<lambda>x. us_id x = i) f t)"
  proof -
    define g where "g x = (if us_id x = i then f x else x)" for x
    have g: "update_many (\<lambda>x. us_id x = i) f t = map g t" "us_id (g x) = us_id x" "us_did (g x) = us_did x"
      "us_email (g x) = (if us_id x = i then e else us_email x)" for x
      by (simp_all add: update_many_def g_def f(1))
    have u: "us_id x = us_id y" if "x \<in> set t" "y \<in> set t" "us_email x = Some a" "us_email y = Some a" for x y a
      using that assms(1) unfolding users_ok_def keys_ok_iff one_address_def by blast
    have e: "us_email x \<noteq> Some a" if "x \<in> set t" "us_id x \<noteq> i" "e = Some a" for x a
      using that assms(2) by (auto simp: list_all_iff)
    have "us_id x = us_id y" if "x \<in> set t" "y \<in> set t" "us_email (g x) = Some a" "us_email (g y) = Some a" for x y a
      using that u [OF that(1,2), of a] e [OF that(1), of a] e [OF that(2), of a] by (cases "us_id x = i"; cases "us_id y = i") (simp_all add: g(4))
    then have "one_address (map g t)" unfolding one_address_def set_map by (blast intro: g(2) [THEN trans] g(2) [THEN sym, THEN [2] trans])
    then show ?thesis using assms(1) by (simp add: g(1-3) keys_ok_iff users_ok_def comp_def)
  qed
  moreover have "row_ok x" if "x \<in> set (update_many (\<lambda>x. us_id x = i) f t)" for x
    using that assms(1) f(2) by (auto simp: users_ok_def elim!: update_manyE)
  ultimately show ?thesis by (simp add: users_ok_def)
qed

lemma users_confirm:
  assumes "users_ok (users d)"
  shows "users_ok (users (snd (verifyEmail W rq token d)))"
proof -
  let ?v = "\<lambda>u x. set_metadata (with_member ''pendingEmailChange'' JNull (us_metadata u)) (x\<lparr>us_email_verified := True\<rparr>)"
  have e: "users_ok (update_many (\<lambda>x. us_id x = us_id u) (\<lambda>x. (?v u x)\<lparr>us_email := e\<rparr>) (users d))"
    if "\<forall>x \<in> set (users d). us_id x = us_id u \<or> e = None \<or> us_email x \<noteq> e" for u e
    by (rule users_change_email [OF assms, of _ e]) (use that in \<open>simp_all add: list_all_iff set_metadata_def row_ok_def\<close>)
  have n: "users_ok (update_many p (?v u) (users d))" for p u
    using assms by (rule users_own_update) (simp_all add: keeps_keys_def row_ok_def set_metadata_def)
  have "users_ok (users (snd (change_email u e d)))" for u e
  proof (cases "\<exists>a. e = Some (JStr a)")
    case True
    then show ?thesis using assms e [of u]
      by (auto simp: change_email_def Let_def update_user_def list_ex_iff)
  next
    case False
    then show ?thesis using assms n e [of u None]
      by (auto simp: change_email_def Let_def update_user_def split: option.split json.split)
  qed
  then have "users_ok (users d1)" if "change_email u e d = (r, d1)" for u e r d1 using that by (metis snd_conv)
  with assms show ?thesis
    by (auto simp: verifyEmail_def keeps_keys_def row_ok_def intro!: users_own_update split: option.split sum.split prod.split)
qed

lemma users_delete: "users_ok (users d) \<Longrightarrow> users_ok (users (snd (deleteAccount W i pw d)))"
proof -
  assume "users_ok (users d)"
  then have "users_ok (delete_many p (users d))" for p
    unfolding users_ok_def keys_ok_iff one_address_def by (auto simp: delete_many_def distinct_map_filter)
  with \<open>users_ok (users d)\<close> show ?thesis
    by (auto simp: deleteAccount_def delete_user_def Let_def split: option.split)
qed

text \<open>A directory.\<close>

lemma users_role: "insert_role r d = Inr d1 \<Longrightarrow> users d1 = users d"
  by (auto simp: insert_role_def split: if_splits)

lemma users_groups [simp]:
  "users (assignMembers o1 s us d) = users d" "users (removeMembers o1 us d) = users d" "users (resetRole o1 s d) = users d"
  "users (setMembers o1 s us d) = users d" "users (rename_role i n d) = users d" "users (setActive m u c a e d) = users d"
  "users (update_member o1 i f d) = users d"
  by (simp_all add: assignMembers_def removeMembers_def resetRole_def setMembers_def rename_role_def setActive_def update_member_def
      set_roles_def Let_def)

lemma users_directory: "users_ok (users d) \<Longrightarrow> users_ok (users (scim_step c op d))"
proof -
  assume u: "users_ok (users d)"
  have name: "users_ok (update_many p (\<lambda>x. x\<lparr>us_name := n\<rparr>) (users d))" for p n
    using u by (auto simp: keeps_keys_def row_ok_def intro!: users_own_update)
  have "users_ok (users d1)" if "ensure_user ie e n d = Inr (v, d1)" for ie e n v d1
    using that u users_create by (auto simp: ensure_user_def split: option.splits)
  with u name show ?thesis
    by (cases op)
      (auto simp: scim_createUser_def scim_replaceUser_def scim_patchUser_def scim_deactivateUser_def scim_createGroup_def
        scim_replaceGroup_def scim_patchGroup_def scim_deleteGroup_def update_user_def users_role Let_def split: sum.split option.split)
qed

lemma step_ok:
  assumes "users_ok (users (fst st))"
  shows "users_ok (users (fst (account_step N op st)))"
proof -
  note pair = prod.collapse [symmetric]
  have "users_ok (users (snd (registerWithPassword A ie e pw n (fst st))))" "users_ok (users (snd (verifyMagicLink rq ie e (fst st))))"
    "users_ok (users (snd (resetPassword A rq e pw (fst st))))" "users_ok (users (snd (resolveUser fn p (fst st))))"
    "users_ok (users (fst (snd (loginWithPassword L rq e pw st))))" "users_ok (users (fst (snd (verifyEmailLoginCode D rq ie e pw st))))"
    for A ie e pw n rq fn p L D
    using users_register [OF pair assms] users_magic [OF pair assms] users_reset [OF pair assms] users_resolve [OF pair assms]
      users_login [OF pair assms] users_otp [OF pair assms] by simp_all
  moreover have "users_ok (users (fst (account_step N (Callback rq fn fresh i q cache w) st)))" for rq fn fresh i q cache w
    using assms by (auto simp: federation_callback_def split: prod.split sum.split dest!: users_callback)
  moreover have "users_ok (users (fst (account_step N (Sign_Message rq we fresh m sig w) st)))" for rq we fresh m sig w
    using assms by (auto split: prod.split dest!: users_siwe)
  moreover have "users_ok (users (fst (account_step N (Passkey rq fresh r w) st)))" for rq fresh r w
    using assms by (auto split: prod.split dest!: users_passkey)
  ultimately show ?thesis using assms
    by (cases op)
      (auto simp: users_saml users_link users_ton users_factor users_own users_confirm users_delete users_directory users_ask_reset
        dest: users_send_link simp del: account_step.simps(9,13,14) split: sum.split)
qed

text \<open>C18. Whatever people do to sign in, by any of the ways of this service, to change their account or to leave, and
  whatever a directory provisions, in any order, the table stays well-formed: identifiers, decentralised
  identifiers and addresses stay unique, no count of misses is negative, and an account carries a lock exactly
  when it has five misses or more.  (An operator's emergency lock, which is set without misses, is outside.)\<close>

theorem accounts_well_formed:
  assumes "reaches N st st'" and "users_ok (users (fst st))"
  shows "users_ok (users (fst st'))"
  using assms by (induction rule: reaches.induct) (auto intro: step_ok)

text \<open>The witness: Ann guesses wrong, and a person nobody knows comes from a provider.\<close>

definition demo_sign_in :: sign_in_deps where
  "demo_sign_in = \<lparr>sn_accounts = demo_accounts, sn_login = demo_login, sn_otp = demo_otp, sn_fed = demo_fed, sn_saml = demo_saml,
     sn_wallet = demo_wallets, sn_passkey = demo_passkeys, sn_ton = demo_ton, sn_mfa = demo_mfa, sn_own = demo_own\<rparr>"

lemma demo_users_ok: "users_ok (users demo_db)"
  by (simp add: users_ok_def keys_ok_def row_ok_def demo_db_def ann_def)

theorem accounts_well_formed_witness:
  "\<exists>st'. st' = account_step demo_sign_in (Profile demo_fed_entropy (google_profile\<lparr>np_email := Some ''new@x.io''\<rparr>))
       (account_step demo_sign_in (Log_In (at_time 0) ''ann@x.io'' ''guess'') (demo_db, []))
     \<and> users_ok (users (fst st'))"
proof -
  have "reaches demo_sign_in (demo_db, []) (account_step demo_sign_in (Profile demo_fed_entropy (google_profile\<lparr>np_email := Some ''new@x.io''\<rparr>))
       (account_step demo_sign_in (Log_In (at_time 0) ''ann@x.io'' ''guess'') (demo_db, [])))"
    by (intro reaches.step reaches.start)
  from accounts_well_formed [OF this] show ?thesis by (simp add: demo_users_ok)
qed

end
