(* ===== verification/Did.thy ===== *)
theory Did
  imports Own_Account "HOL-Library.While_Combinator"
begin

text \<open>
  Decentralised identifiers and verifiable credentials: \<open>src/identity/did.service.ts\<close> and
  \<open>issueCredential\<close> of \<open>identity.service.ts\<close>.  A \<open>Buffer\<close> is a string, one byte a character.  The key pair
  a generation draws, the signature primitives of Node and the text of an instant are parameters.
\<close>

section \<open>Base 58\<close>

definition ALPHABET :: string where
  "ALPHABET = ''123456789ABCDEFGHJKLMNPQRSTUVWXYZabcdefghijkmnopqrstuvwxyz''"

definition byte_value :: "char \<Rightarrow> nat" where
  "byte_value c = of_char c"

text \<open>\<open>BigInt('0x' + buffer.toString('hex'))\<close>, and the bytes of the padded hexadecimal text of a number.\<close>

definition bytes_value :: "string \<Rightarrow> nat" where
  "bytes_value bs = foldl (\<lambda>n b. 256 * n + byte_value b) 0 bs"

fun number_bytes :: "nat \<Rightarrow> string" where
  "number_bytes n = (if n < 256 then [char_of n] else number_bytes (n div 256) @ [char_of (n mod 256)])"

declare number_bytes.simps [simp del]

function base58_loop :: "nat \<Rightarrow> string \<Rightarrow> string" where
  "base58_loop num result =
     (if 0 < num then base58_loop (num div 58) (ALPHABET ! (num mod 58) # result) else result)"
  by pat_completeness auto
termination by (relation "measure fst") auto

declare base58_loop.simps [simp del]

definition leading_zeros :: "string \<Rightarrow> nat" where
  "leading_zeros bs = length (takeWhile (\<lambda>b. byte_value b = 0) bs)"

definition toBase58 :: "string \<Rightarrow> error + string" where
  "toBase58 buffer =
     (if buffer = [] then Inl (Server_Error ''Cannot convert 0x to a BigInt'')
      else Inr (replicate (leading_zeros buffer) (ALPHABET ! 0) @ base58_loop (bytes_value buffer) []))"

fun index_of :: "string \<Rightarrow> char \<Rightarrow> nat option" where
  "index_of [] c = None"
| "index_of (x # xs) c = (if x = c then Some 0 else map_option Suc (index_of xs c))"

fun base58_value :: "nat \<Rightarrow> string \<Rightarrow> error + nat" where
  "base58_value num [] = Inr num"
| "base58_value num (c # cs) =
     (case index_of ALPHABET c of
        None \<Rightarrow> Inl (Server_Error ''Invalid base58 character'')
      | Some i \<Rightarrow> base58_value (num * 58 + i) cs)"

definition fromBase58 :: "string \<Rightarrow> error + string" where
  "fromBase58 s = (case base58_value 0 s of Inl e \<Rightarrow> Inl e | Inr n \<Rightarrow> Inr (number_bytes n))"

section \<open>Identifiers\<close>

record key_pair =
  kp_public :: string
  kp_private :: string

text \<open>
  \<open>dd_sign\<close> and \<open>dd_verify\<close> are Node's over SHA-256: a key in DER, the text, the signature in base64; none
  where they throw.
\<close>

record did_deps =
  dd_config :: config
  dd_prims :: prims
  dd_iso :: "time \<Rightarrow> string"
  dd_sign :: "string \<Rightarrow> string \<Rightarrow> string option"
  dd_verify :: "string \<Rightarrow> string \<Rightarrow> string \<Rightarrow> bool option"
  dd_issuer_key :: string

definition generateDidKey :: "key_pair \<Rightarrow> error + string \<times> string \<times> string" where
  "generateDidKey k =
     (case toBase58 (kp_public k) of
        Inl e \<Rightarrow> Inl e
      | Inr p \<Rightarrow> Inr (''did:key:z'' @ p, p, kp_private k))"

definition generateDid :: "did_deps \<Rightarrow> key_pair \<Rightarrow> error + string \<times> string \<times> string" where
  "generateDid D k =
     (let m = nullish (cf_env (dd_config D) ''DID_METHOD'') ''key''
      in if m = ''key'' then generateDidKey k else Inl (Server_Error (''Unsupported DID method: '' @ m)))"

text \<open>\<open>^did:key:z[1-9A-HJ-NP-Za-km-z]+$\<close>: the classes are the alphabet.\<close>

definition verifyDidKey :: "string \<Rightarrow> bool" where
  "verifyDidKey did \<longleftrightarrow> prefix ''did:key:z'' did \<and> drop 9 did \<noteq> [] \<and> list_all (\<lambda>c. c \<in> set ALPHABET) (drop 9 did)"

definition verifyDid :: "string \<Rightarrow> bool" where
  "verifyDid did \<longleftrightarrow> did \<noteq> [] \<and> prefix ''did:'' did
     \<and> (case split_by (\<lambda>c. c = CHR '':'') did of _ # m # _ \<Rightarrow> m = ''key'' \<and> verifyDidKey did | _ \<Rightarrow> False)"

definition extractPublicKeyFromDid :: "string \<Rightarrow> string option" where
  "extractPublicKeyFromDid did = (if prefix ''did:key:z'' did then Some (drop 9 did) else None)"

definition resolveDidDocument :: "string \<Rightarrow> error + json" where
  "resolveDidDocument did =
     (if \<not> prefix ''did:key:'' did then Inl (Server_Error ''Only did:key method is supported'')
      else if \<not> truthy (extractPublicKeyFromDid did) then Inl (Server_Error ''Invalid DID format'')
      else let p = nullish (extractPublicKeyFromDid did) ''''; ref = JArr [JStr (did @ ''#'' @ p)]
           in Inr (JObj
                [(''@context'', JArr [JStr ''https://www.w3.org/ns/did/v1'', JStr ''https://w3id.org/security/suites/ed25519-2020/v1'']),
                 (''id'', JStr did),
                 (''verificationMethod'', JArr [JObj [(''id'', JStr (did @ ''#'' @ p)), (''type'', JStr ''Ed25519VerificationKey2020''),
                    (''controller'', JStr did), (''publicKeyBase58'', JStr p)]]),
                 (''authentication'', ref), (''assertionMethod'', ref), (''capabilityDelegation'', ref), (''capabilityInvocation'', ref)]))"

section \<open>Credentials\<close>

definition signWithDid :: "did_deps \<Rightarrow> string \<Rightarrow> string \<Rightarrow> error + string" where
  "signWithDid D key data =
     (case dd_sign D key data of None \<Rightarrow> Inl (Server_Error ''sign'') | Some s \<Rightarrow> Inr s)"

definition verifySignature :: "did_deps \<Rightarrow> string \<Rightarrow> string \<Rightarrow> string \<Rightarrow> error + bool" where
  "verifySignature D did data signature =
     (if \<not> truthy (extractPublicKeyFromDid did) then Inr False
      else (case fromBase58 (nullish (extractPublicKeyFromDid did) '''') of
              Inl e \<Rightarrow> Inl e
            | Inr key \<Rightarrow> (case dd_verify D key data signature of None \<Rightarrow> Inl (Server_Error ''verify'') | Some b \<Rightarrow> Inr b)))"

definition credential_members ::
  "did_deps \<Rightarrow> request \<Rightarrow> string \<Rightarrow> string \<Rightarrow> (string \<times> json) list \<Rightarrow> string \<Rightarrow> (string \<times> json) list"
where
  "credential_members D rq issuerDid subjectDid claims credentialType =
     [(''@context'', JArr [JStr ''https://www.w3.org/2018/credentials/v1'',
         JStr (nullish (cf_env (dd_config D) ''VC_CONTEXT_URL'') ''https://example.com/credentials/v1'')]),
      (''type'', JArr [JStr ''VerifiableCredential'', JStr credentialType]),
      (''issuer'', JStr issuerDid),
      (''issuanceDate'', JStr (dd_iso D (rq_now rq))),
      (''credentialSubject'', mk_obj ((''id'', JStr subjectDid) # claims))]"

definition issueVerifiableCredential ::
  "did_deps \<Rightarrow> request \<Rightarrow> string \<Rightarrow> string \<Rightarrow> string \<Rightarrow> (string \<times> json) list \<Rightarrow> string \<Rightarrow> error + json"
where
  "issueVerifiableCredential D rq issuerDid issuerPrivateKey subjectDid claims credentialType =
     (let credential = credential_members D rq issuerDid subjectDid claims credentialType
      in case signWithDid D issuerPrivateKey (p_stringify (dd_prims D) (JObj credential)) of
           Inl e \<Rightarrow> Inl e
         | Inr signature \<Rightarrow>
             Inr (JObj (credential @ [(''proof'', JObj
               [(''type'', JStr ''Ed25519Signature2020''), (''created'', JStr (dd_iso D (rq_now rq))),
                (''verificationMethod'', JStr (issuerDid @ ''#'' @ nullish (extractPublicKeyFromDid issuerDid) ''null'')),
                (''proofPurpose'', JStr ''assertionMethod''), (''proofValue'', JStr signature)])])))"

definition verifyVerifiableCredential :: "did_deps \<Rightarrow> (string \<times> json) list \<Rightarrow> error + bool" where
  "verifyVerifiableCredential D credential =
     (case (map_of credential ''proof'', map_of credential ''issuer'') of
        (Some proof, Some issuer) \<Rightarrow>
          if js_falsy proof \<or> js_falsy issuer then Inr False
          else (case (issuer, jget proof ''proofValue'') of
                  (JStr did, Some (JStr v)) \<Rightarrow>
                     verifySignature D did (p_stringify (dd_prims D) (JObj (filter (\<lambda>(k, _). k \<noteq> ''proof'') credential))) v
                | (JStr did, _) \<Rightarrow>
                     if \<not> truthy (extractPublicKeyFromDid did) then Inr False else Inl (Server_Error ''Buffer.from'')
                | _ \<Rightarrow> Inl (Server_Error ''did.startsWith is not a function''))
      | _ \<Rightarrow> Inr False)"

definition ISSUER_DID :: string where
  "ISSUER_DID = ''did:key:z6MkhaXgBZDvotDkL5257faiztiGiC2QtKLGpbnnEGta2doK''"

definition issueCredential ::
  "did_deps \<Rightarrow> request \<Rightarrow> string \<Rightarrow> string \<Rightarrow> (string \<times> json) list \<Rightarrow> db \<Rightarrow> error + json"
where
  "issueCredential D rq userId credentialType claims d =
     (case getIdentityById userId d of
        Inl e \<Rightarrow> Inl e
      | Inr u \<Rightarrow> issueVerifiableCredential D rq ISSUER_DID (dd_issuer_key D) (us_did u) claims credentialType)"

definition getDidDocument :: "string \<Rightarrow> db \<Rightarrow> error + json" where
  "getDidDocument userId d =
     (case getIdentityById userId d of Inl e \<Rightarrow> Inl e | Inr u \<Rightarrow> resolveDidDocument (us_did u))"

section \<open>Lemmas\<close>

lemma alphabet_length [simp]: "length ALPHABET = 58"
  by (simp add: ALPHABET_def)

lemma index_of_nth: "distinct xs \<Longrightarrow> i < length xs \<Longrightarrow> index_of xs (xs ! i) = Some i"
  by (induction xs arbitrary: i) (auto simp: less_Suc_eq_0_disj in_set_conv_nth)

lemma index_of_digit [simp]: "i < 58 \<Longrightarrow> index_of ALPHABET (ALPHABET ! i) = Some i"
  by (rule index_of_nth) (simp_all, simp add: ALPHABET_def)

lemma base58_loop_step: "0 < n \<Longrightarrow> base58_loop n r = base58_loop (n div 58) (ALPHABET ! (n mod 58) # r)"
  by (simp add: base58_loop.simps [of n r])

lemma base58_loop_append: "base58_loop n r = base58_loop n [] @ r"
proof (induction n arbitrary: r rule: less_induct)
  case (less n)
  show ?case
  proof (cases "0 < n")
    case True
    then have small: "n div 58 < n" by simp
    let ?d = "ALPHABET ! (n mod 58)"
    have "base58_loop n r = base58_loop (n div 58) [] @ ?d # r"
      unfolding base58_loop_step [OF True, of r] by (rule less [OF small])
    moreover have "base58_loop n [] = base58_loop (n div 58) [] @ [?d]"
      unfolding base58_loop_step [OF True, of "[]"] by (rule less [OF small])
    ultimately show ?thesis by simp
  qed (simp add: base58_loop.simps)
qed

lemma base58_loop_snoc: "0 < n \<Longrightarrow> base58_loop n [] = base58_loop (n div 58) [] @ [ALPHABET ! (n mod 58)]"
  by (simp only: base58_loop_step [of n "[]"]) (rule base58_loop_append)

lemma base58_loop_0 [simp]: "base58_loop 0 r = r"
  by (simp add: base58_loop.simps)

lemma base58_value_append:
  "base58_value m (xs @ ys) = (case base58_value m xs of Inl e \<Rightarrow> Inl e | Inr v \<Rightarrow> base58_value v ys)"
  by (induction xs arbitrary: m) (auto split: option.splits)

lemma base58_value_loop:
  "base58_value m (base58_loop n []) = Inr (m * 58 ^ length (base58_loop n []) + n)"
proof (induction n rule: less_induct)
  case (less n)
  show ?case
  proof (cases "0 < n")
    case True
    then have "n div 58 < n" by simp
    from less [OF this] show ?thesis
      using True by (simp add: base58_loop_snoc base58_value_append algebra_simps)
  qed simp
qed

lemma base58_value_zeros: "base58_value 0 (replicate k (ALPHABET ! 0) @ xs) = base58_value 0 xs"
  by (induction k) simp_all

lemma base58_loop_length: "n < 58 ^ k \<Longrightarrow> length (base58_loop n []) \<le> k"
proof (induction k arbitrary: n)
  case (Suc k)
  show ?case
  proof (cases "0 < n")
    case True
    from Suc.prems have "n div 58 < 58 ^ k" by (simp add: less_mult_imp_div_less mult.commute)
    from Suc.IH [OF this] show ?thesis using True by (simp add: base58_loop_snoc)
  qed simp
qed simp

lemma bytes_value_snoc: "bytes_value (bs @ [b]) = 256 * bytes_value bs + byte_value b"
  by (simp add: bytes_value_def)

lemma byte_bound [simp]: "byte_value b < 256"
  by (simp add: byte_value_def)

lemma char_of_byte [simp]: "char_of (byte_value b) = b"
  by (simp add: byte_value_def)

lemma bytes_value_bound: "bytes_value bs < 256 ^ length bs"
proof (induction bs rule: rev_induct)
  case (snoc b bs)
  have "256 * bytes_value bs + byte_value b < 256 * (bytes_value bs + 1)" using byte_bound [of b] by simp
  also have "\<dots> \<le> 256 * 256 ^ length bs" using snoc by (simp only: mult_le_mono2 Suc_eq_plus1 [symmetric] Suc_leI)
  finally show ?case by (simp add: bytes_value_snoc)
qed (simp add: bytes_value_def)

lemma bytes_value_pos: "bs \<noteq> [] \<Longrightarrow> byte_value (hd bs) \<noteq> 0 \<Longrightarrow> 0 < bytes_value bs"
proof (induction bs rule: rev_induct)
  case (snoc b bs)
  then have "0 < 256 * bytes_value bs + byte_value b" by (cases "bs = []") (simp_all add: bytes_value_def)
  then show ?case by (simp only: bytes_value_snoc)
qed simp

lemma number_bytes_value:
  "bs \<noteq> [] \<Longrightarrow> byte_value (hd bs) \<noteq> 0 \<Longrightarrow> number_bytes (bytes_value bs) = bs"
proof (induction bs rule: rev_induct)
  case (snoc b bs)
  show ?case
  proof (cases "bs = []")
    case True
    then show ?thesis by (simp add: bytes_value_def number_bytes.simps)
  next
    case False
    with snoc.prems have h: "byte_value (hd bs) \<noteq> 0" by simp
    from bytes_value_pos [OF False h] have big: "\<not> bytes_value (bs @ [b]) < 256" by (simp add: bytes_value_snoc)
    have "(256 * bytes_value bs + byte_value b) div 256 = bytes_value bs"
      "(256 * bytes_value bs + byte_value b) mod 256 = byte_value b" by simp_all
    with snoc.IH [OF False h] big show ?thesis
      by (subst number_bytes.simps) (simp only: bytes_value_snoc if_False char_of_byte)
  qed
qed simp

lemma bytes_value_skip: "bytes_value (dropWhile (\<lambda>b. byte_value b = 0) bs) = bytes_value bs"
  by (induction bs) (simp_all add: bytes_value_def)

lemma toBase58_value:
  assumes "toBase58 bs = Inr s"
  shows "base58_value 0 s = Inr (bytes_value bs)"
  using assms by (auto simp: toBase58_def base58_value_zeros base58_value_loop split: if_splits)

text \<open>C29. The encoding loop ends whatever the bytes, with the digits the model gives, and writes at most two
  characters a byte.\<close>

theorem base58_loop_ends:
  "while_option (\<lambda>(n, r). 0 < n) (\<lambda>(n, r). (n div 58, ALPHABET ! (n mod 58) # r)) (bytes_value bs, [])
     = Some (0, base58_loop (bytes_value bs) [])
   \<and> length (base58_loop (bytes_value bs) []) \<le> 2 * length bs"
proof
  have "while_option (\<lambda>(n, r). 0 < n) (\<lambda>(n, r). (n div 58, ALPHABET ! (n mod 58) # r)) (n, r) = Some (0, base58_loop n r)" for n r
  proof (induction n r rule: base58_loop.induct)
    case (1 n r)
    then show ?case by (subst while_option_unfold, subst base58_loop.simps) auto
  qed
  then show "while_option (\<lambda>(n, r). 0 < n) (\<lambda>(n, r). (n div 58, ALPHABET ! (n mod 58) # r)) (bytes_value bs, [])
     = Some (0, base58_loop (bytes_value bs) [])" .
  have "(256 :: nat) ^ length bs \<le> (58 ^ 2) ^ length bs" by (rule power_mono) simp_all
  also have "\<dots> = 58 ^ (2 * length bs)" by (simp only: power_mult)
  finally show "length (base58_loop (bytes_value bs) []) \<le> 2 * length bs"
    by (intro base58_loop_length less_le_trans [OF bytes_value_bound])
qed

text \<open>C28. Decoding what was encoded gives the bytes back, except that zeros in front are lost: the encoder writes
  them and the decoder does not read them.\<close>

theorem base58_round_trip:
  assumes "bs \<noteq> []"
  shows "\<exists>s. toBase58 bs = Inr s \<and> fromBase58 s =
    Inr (if list_all (\<lambda>b. byte_value b = 0) bs then [CHR 0x00] else dropWhile (\<lambda>b. byte_value b = 0) bs)"
proof -
  let ?z = "\<lambda>b. byte_value b = 0"
  obtain s where s: "toBase58 bs = Inr s" using assms by (simp add: toBase58_def)
  have d: "fromBase58 s = Inr (number_bytes (bytes_value bs))" by (simp add: fromBase58_def toBase58_value [OF s])
  show ?thesis
  proof (cases "list_all ?z bs")
    case True
    then have "dropWhile ?z bs = []" by (simp add: list_all_iff)
    with bytes_value_skip [of bs] have "bytes_value bs = bytes_value []" by simp
    then have "bytes_value bs = 0" by (simp add: bytes_value_def)
    with s d True show ?thesis by (simp add: number_bytes.simps) (simp add: char_of_def)
  next
    case False
    then have ne: "dropWhile ?z bs \<noteq> []" by (simp add: list_all_iff)
    with hd_dropWhile [OF this] number_bytes_value [OF this] s d False show ?thesis by (simp add: bytes_value_skip)
  qed
qed

lemma number_bytes_ne [simp]: "number_bytes n \<noteq> []"
  by (subst number_bytes.simps) simp

lemma hd_number_bytes:
  "n div 256 ^ k < 256 \<Longrightarrow> 0 < n div 256 ^ k \<Longrightarrow> hd (number_bytes n) = char_of (n div 256 ^ k)"
proof (induction k arbitrary: n)
  case 0
  then show ?case by (simp add: number_bytes.simps)
next
  case (Suc k)
  have "n div 256 div 256 ^ k = n div 256 ^ Suc k" by (simp only: power_Suc div_mult2_eq)
  moreover have "\<not> n < 256"
  proof
    assume "n < 256"
    also have "256 \<le> (256 :: nat) ^ Suc k" by simp
    finally show False using Suc.prems(2) by simp
  qed
  ultimately show ?case using Suc.IH [of "n div 256"] Suc.prems by (subst number_bytes.simps) simp
qed

section \<open>What a credential proves\<close>

lemma issueVerifiableCredential_okE:
  assumes "issueVerifiableCredential D rq idid key subject claims t = Inr c"
  obtains s p where "dd_sign D key (p_stringify (dd_prims D) (JObj (credential_members D rq idid subject claims t))) = Some s"
    "c = JObj (credential_members D rq idid subject claims t @ [(''proof'', p)])" "jget p ''proofValue'' = Some (JStr s)"
    "\<not> js_falsy p"
  using assms by (auto simp: issueVerifiableCredential_def signWithDid_def Let_def js_falsy_def split: sum.splits option.splits)

lemma credential_lookup [simp]:
  "map_of (credential_members D rq idid subject claims t) ''proof'' = None"
  "map_of (credential_members D rq idid subject claims t) ''issuer'' = Some (JStr idid)"
  "map_of (credential_members D rq idid subject claims t) ''credentialSubject'' = Some (mk_obj ((''id'', JStr subject) # claims))"
  "filter (\<lambda>(k, _). k \<noteq> ''proof'') (credential_members D rq idid subject claims t) = credential_members D rq idid subject claims t"
  by (simp_all add: credential_members_def)

lemma verify_issued:
  assumes "issueVerifiableCredential D rq idid key subject claims t = Inr (JObj c)" and "idid \<noteq> []"
  shows "\<exists>s. dd_sign D key (p_stringify (dd_prims D) (JObj (credential_members D rq idid subject claims t))) = Some s
    \<and> verifyVerifiableCredential D c
      = verifySignature D idid (p_stringify (dd_prims D) (JObj (credential_members D rq idid subject claims t))) s"
proof -
  let ?m = "credential_members D rq idid subject claims t"
  obtain s p where i: "dd_sign D key (p_stringify (dd_prims D) (JObj ?m)) = Some s" "c = ?m @ [(''proof'', p)]"
    "jget p ''proofValue'' = Some (JStr s)" "\<not> js_falsy p"
    by (rule issueVerifiableCredential_okE [OF assms(1)]) simp
  have "\<not> js_falsy (JStr idid)" using assms(2) by (simp add: js_falsy_def)
  with i show ?thesis unfolding verifyVerifiableCredential_def i(2) by (simp add: map_add_def)
qed

text \<open>A credential issued under an identifier this service generates verifies under it, if the signature primitive
  accepts what the private half of the pair signed.\<close>

theorem issued_credential_verifies:
  assumes did: "generateDid D k = Inr (did, p, private)"
    and der: "byte_value (hd (kp_public k)) \<noteq> 0"
    and pair: "\<And>m s. dd_sign D (kp_private k) m = Some s \<Longrightarrow> dd_verify D (kp_public k) m s = Some True"
    and issued: "issueVerifiableCredential D rq did private subject claims t = Inr (JObj c)"
  shows "verifyVerifiableCredential D c = Inr True \<and> verifyDid did"
proof -
  from did have p: "toBase58 (kp_public k) = Inr p" "did = ''did:key:z'' @ p" "private = kp_private k"
    by (auto simp: generateDid_def generateDidKey_def Let_def split: if_splits sum.splits)
  then have ne: "kp_public k \<noteq> []" by (auto simp: toBase58_def)
  have key: "fromBase58 p = Inr (kp_public k)"
    by (simp add: fromBase58_def toBase58_value [OF p(1)] number_bytes_value ne der)
  have letters: "set (base58_loop n []) \<subseteq> set ALPHABET" for n
  proof (induction n rule: less_induct)
    case (less n)
    then show ?case by (cases "0 < n") (auto simp: base58_loop_snoc)
  qed
  have "base58_value 0 p = Inr (bytes_value (kp_public k))" by (rule toBase58_value [OF p(1)])
  with bytes_value_pos [OF ne der] have "p \<noteq> []" by auto
  moreover have "set p \<subseteq> set ALPHABET"
    using p(1) letters [of "bytes_value (kp_public k)"] by (auto simp: toBase58_def ALPHABET_def split: if_splits)
  ultimately have "verifyDid did" by (auto simp: p(2) verifyDid_def verifyDidKey_def list_all_iff)
  moreover from \<open>p \<noteq> []\<close> have "extractPublicKeyFromDid did = Some p" "truthy (Some p)"
    by (auto simp: p(2) extractPublicKeyFromDid_def neq_Nil_conv)
  moreover have "did \<noteq> []" by (simp add: p(2))
  ultimately show ?thesis
    using verify_issued [OF issued] pair key by (auto simp: verifySignature_def nullish_def p(3))
qed

text \<open>The credentials the service issues never verify with its own verifier: its issuer is fixed to an identifier
  whose bytes are a multicodec key, and the verifier hands those bytes to a parser of DER, which begins with
  a sequence tag.  And the one who asks names the subject: a claim called id replaces the identifier of the
  person the credential is issued to.\<close>

theorem issued_credential_is_void:
  assumes issued: "issueCredential D rq u t claims d = Inr (JObj c)"
    and der: "\<And>key m s. key \<noteq> [] \<Longrightarrow> byte_value (hd key) \<noteq> 48 \<Longrightarrow> dd_verify D key m s = None"
  shows "verifyVerifiableCredential D c = Inl (Server_Error ''verify'')
    \<and> (\<forall>v. map_of (rev claims) ''id'' = Some v \<longrightarrow>
        (\<exists>subject. map_of c ''credentialSubject'' = Some subject \<and> jget subject ''id'' = Some v))"
proof -
  from issued obtain s where i: "issueVerifiableCredential D rq ISSUER_DID (dd_issuer_key D) s claims t = Inr (JObj c)"
    by (auto simp: issueCredential_def split: sum.splits)
  have "base58_value 0 (drop 9 ISSUER_DID) = Inr 0xed012e6fcce36701dc791488e0d0b1745cc1e33a4c1c9fcc41c63bd343dbbe0970e6"
    by (simp add: ISSUER_DID_def ALPHABET_def)
  then have key: "fromBase58 (drop 9 ISSUER_DID) = Inr (number_bytes 0xed012e6fcce36701dc791488e0d0b1745cc1e33a4c1c9fcc41c63bd343dbbe0970e6)"
    by (simp add: fromBase58_def)
  have top: "(0xed012e6fcce36701dc791488e0d0b1745cc1e33a4c1c9fcc41c63bd343dbbe0970e6 :: nat) div 256 ^ 33 = 0xed" by simp
  have "byte_value (hd (number_bytes 0xed012e6fcce36701dc791488e0d0b1745cc1e33a4c1c9fcc41c63bd343dbbe0970e6)) = 0xed"
    using hd_number_bytes [of "0xed012e6fcce36701dc791488e0d0b1745cc1e33a4c1c9fcc41c63bd343dbbe0970e6" 33] unfolding top by (simp add: byte_value_def)
  moreover have issuer_key: "extractPublicKeyFromDid ISSUER_DID = Some (drop 9 ISSUER_DID)" "truthy (Some (drop 9 ISSUER_DID))"
    by (simp_all add: extractPublicKeyFromDid_def ISSUER_DID_def)
  ultimately have "verifySignature D ISSUER_DID m sig = Inl (Server_Error ''verify'')" for m sig
    using der key by (simp add: verifySignature_def nullish_def)
  moreover have "ISSUER_DID \<noteq> []" by (simp add: ISSUER_DID_def)
  ultimately have "verifyVerifiableCredential D c = Inl (Server_Error ''verify'')"
    using verify_issued [OF i] by auto
  moreover have "map_of c ''credentialSubject'' = Some (mk_obj ((''id'', JStr s) # claims))"
    using i by (auto elim!: issueVerifiableCredential_okE simp: map_add_def)
  ultimately show ?thesis by (simp add: jget_mk_obj map_add_def)
qed

section \<open>Witnesses\<close>

definition demo_did :: did_deps where
  "demo_did = \<lparr>dd_config = demo_config, dd_prims = P0, dd_iso = (\<lambda>_. ''now''), dd_sign = (\<lambda>_ m. Some m),
     dd_verify = (\<lambda>k m s. if k = [] \<or> byte_value (hd k) \<noteq> 48 then None else Some (s = m)), dd_issuer_key = ''issuer''\<rparr>"

definition demo_pair :: key_pair where
  "demo_pair = \<lparr>kp_public = ''0key'', kp_private = ''private''\<rparr>"

theorem base58_round_trip_witness:
  "\<exists>s. toBase58 [CHR 0x00, CHR ''0''] = Inr s \<and> fromBase58 s = Inr ''0''"
  using base58_round_trip [of "[CHR 0x00, CHR ''0'']"] by (simp add: byte_value_def)

theorem issued_credential_verifies_witness:
  "\<exists>did p sk c. generateDid demo_did demo_pair = Inr (did, p, sk)
     \<and> issueVerifiableCredential demo_did demo_rq did sk ''did:key:zann'' [] ''Member'' = Inr (JObj c)
     \<and> verifyVerifiableCredential demo_did c = Inr True"
proof -
  have k: "kp_public demo_pair = ''0key''" "kp_private demo_pair = ''private''" by (simp_all add: demo_pair_def)
  obtain did p sk where g: "generateDid demo_did demo_pair = Inr (did, p, sk)"
    by (simp add: generateDid_def generateDidKey_def demo_did_def demo_config_def nullish_def toBase58_def Let_def k)
  obtain c where c: "issueVerifiableCredential demo_did demo_rq did sk ''did:key:zann'' [] ''Member'' = Inr (JObj c)"
    by (simp add: issueVerifiableCredential_def signWithDid_def Let_def demo_did_def)
  have "byte_value (hd (kp_public demo_pair)) \<noteq> 0" by (simp add: k byte_value_def)
  moreover have "dd_sign demo_did (kp_private demo_pair) m = Some s \<Longrightarrow> dd_verify demo_did (kp_public demo_pair) m s = Some True" for m s
    by (simp add: k demo_did_def byte_value_def)
  ultimately show ?thesis using issued_credential_verifies [OF g _ _ c] g c by blast
qed

theorem issued_credential_is_void_witness:
  "\<exists>c subject. issueCredential demo_did demo_rq ''u1'' ''Member'' [(''id'', JStr ''did:key:zbob'')] demo_db = Inr (JObj c)
     \<and> verifyVerifiableCredential demo_did c = Inl (Server_Error ''verify'')
     \<and> map_of c ''credentialSubject'' = Some subject \<and> jget subject ''id'' = Some (JStr ''did:key:zbob'')"
proof -
  have "find_user demo_db ''u1'' = Some ann" by (simp add: find_user_def demo_db_def ann_def)
  then obtain c where c: "issueCredential demo_did demo_rq ''u1'' ''Member'' [(''id'', JStr ''did:key:zbob'')] demo_db = Inr (JObj c)"
    by (simp add: issueCredential_def getIdentityById_def issueVerifiableCredential_def signWithDid_def Let_def demo_did_def)
  have "key \<noteq> [] \<Longrightarrow> byte_value (hd key) \<noteq> 48 \<Longrightarrow> dd_verify demo_did key m s = None" for key m s by (simp add: demo_did_def)
  from issued_credential_is_void [OF c this] c show ?thesis by simp
qed

end
