(* ===== verification/Shared_Signals.thy ===== *)
theory Shared_Signals
  imports Scim M2M
begin

text \<open>
  Shared signals (SSF/CAEP): \<open>src/ssf/\<close> (\<open>caep-event-types.ts\<close>, \<open>set-builder.service.ts\<close>, \<open>ssf-emitter.service.ts\<close>,
  \<open>set-push.service.ts\<close>, \<open>ssf-delivery.service.ts\<close>, \<open>ssf-stream.service.ts\<close>).  The streams and the outbox are kept beside
  the database; a row read without an order comes in the table's.  A push that has left and not yet come back is a
  \<open>push_job\<close>.
\<close>

section \<open>Streams and the outbox\<close>

record stream_row =
  ss_id :: string
  ss_stream_id :: string
  ss_company :: "string option"
  ss_status :: string
  ss_method :: string
  ss_url :: "string option"
  ss_auth :: "string option"
  ss_events :: "string list"
  ss_aud :: "string list"

record delivery_row =
  sd_id :: string
  sd_stream :: string
  sd_jti :: string
  sd_event :: string
  sd_sub :: string
  sd_set :: string
  sd_status :: string
  sd_attempts :: nat
  sd_next :: "int option"
  sd_error :: "string option"
  sd_delivered :: "int option"

record push_job =
  pj_delivery :: string
  pj_url :: string
  pj_auth :: "string option"
  pj_set :: string

record ssf =
  streams :: "stream_row list"
  deliveries :: "delivery_row list"
  jobs :: "push_job list"

definition CREDENTIAL_CHANGE :: string where
  "CREDENTIAL_CHANGE = ''https://schemas.openid.net/secevent/caep/event-type/credential-change''"

definition ALL_CAEP_EVENTS :: "string list" where
  "ALL_CAEP_EVENTS = [SESSION_REVOKED, CREDENTIAL_CHANGE, TOKEN_CLAIMS_CHANGE, ACCOUNT_DISABLED, ACCOUNT_PURGED]"

definition SSF_VERIFICATION_EVENT :: string where
  "SSF_VERIFICATION_EVENT = ''https://schemas.openid.net/secevent/ssf/event-type/verification''"

section \<open>Streams of an operator\<close>

record stream_dto =
  sm_method :: string
  sm_url :: "string option"
  sm_auth :: "string option"
  sm_events :: "string list option"
  sm_aud :: "string list option"
  sm_company :: "string option"

text \<open>\<open>i\<close> is the row's key, \<open>uuid\<close> the stream's.\<close>

definition stream_create :: "admin_scope \<Rightarrow> string \<Rightarrow> string \<Rightarrow> stream_dto \<Rightarrow> ssf \<Rightarrow> (error + stream_row) \<times> ssf" where
  "stream_create scope i uuid dto st =
     (let s = \<lparr>ss_id = i, ss_stream_id = uuid,
            ss_company = (case scope of Scoped c \<Rightarrow> Some c | Superadmin \<Rightarrow> sm_company dto), ss_status = ''enabled'',
            ss_method = sm_method dto, ss_url = sm_url dto, ss_auth = sm_auth dto,
            ss_events = (case sm_events dto of Some (e # es) \<Rightarrow> e # es | _ \<Rightarrow> ALL_CAEP_EVENTS), ss_aud = nullish (sm_aud dto) []\<rparr>
      in if list_ex (\<lambda>x. ss_id x = i \<or> ss_stream_id x = uuid) (streams st) then (Inl Db_Conflict, st)
         else (Inr s, st\<lparr>streams := streams st @ [s]\<rparr>))"

definition stream_list :: "admin_scope \<Rightarrow> ssf \<Rightarrow> stream_row list" where
  "stream_list scope st = rev (filter (\<lambda>s. in_scope scope (ss_company s)) (streams st))"

definition stream_get :: "admin_scope \<Rightarrow> string \<Rightarrow> ssf \<Rightarrow> error + stream_row" where
  "stream_get scope sid st =
     (case List.find (\<lambda>s. ss_stream_id s = sid \<and> in_scope scope (ss_company s)) (streams st) of
        None \<Rightarrow> Inl (Not_Found (Msg ''stream not found'')) | Some s \<Rightarrow> Inr s)"

definition stream_remove :: "admin_scope \<Rightarrow> string \<Rightarrow> ssf \<Rightarrow> (error + unit) \<times> ssf" where
  "stream_remove scope sid st =
     (case stream_get scope sid st of
        Inl e \<Rightarrow> (Inl e, st)
      | Inr s \<Rightarrow> (Inr (), st\<lparr>streams := delete_many (\<lambda>x. ss_id x = ss_id s) (streams st),
                           deliveries := delete_many (\<lambda>x. sd_stream x = ss_id s) (deliveries st)\<rparr>))"

definition setStatus :: "admin_scope \<Rightarrow> string \<Rightarrow> string \<Rightarrow> ssf \<Rightarrow> (error + unit) \<times> ssf" where
  "setStatus scope sid status st =
     (case stream_get scope sid st of
        Inl e \<Rightarrow> (Inl e, st)
      | Inr s \<Rightarrow> (Inr (), st\<lparr>streams := update_many (\<lambda>x. ss_id x = ss_id s) (\<lambda>x. x\<lparr>ss_status := status\<rparr>) (streams st)\<rparr>))"

section \<open>Signing an event\<close>

text \<open>\<open>sign\<close> stands for \<open>importPKCS8\<close> and \<open>SignJWT\<close>: a key, the header and the claims; nothing where the key cannot be read.\<close>

type_synonym set_signer = "string \<Rightarrow> json \<Rightarrow> json \<Rightarrow> string option"

definition JWKS_KID :: string where
  "JWKS_KID = ''auth-rs256-key-1''"

definition set_header :: json where
  "set_header = JObj [(''alg'', JStr ''RS256''), (''kid'', JStr JWKS_KID), (''typ'', JStr ''secevent+jwt'')]"

definition set_claims :: "config \<Rightarrow> int \<Rightarrow> string \<Rightarrow> string \<Rightarrow> string \<Rightarrow> string list \<Rightarrow> (string \<times> json) list \<Rightarrow> json" where
  "set_claims cf now jti event sub aud claims = JObj
     [(''sub_id'', JObj [(''format'', JStr ''iss_sub''), (''iss'', JStr (jwt_issuer cf)), (''sub'', JStr sub)]),
      (''events'', JObj [(event, JObj claims)]), (''iss'', JStr (jwt_issuer cf)), (''sub'', JStr sub),
      (''aud'', JArr (map JStr aud)), (''iat'', JNum (now div 1000)), (''jti'', JStr jti)]"

definition set_build ::
  "config \<Rightarrow> set_signer \<Rightarrow> int \<Rightarrow> string \<Rightarrow> string \<Rightarrow> string \<Rightarrow> string list \<Rightarrow> (string \<times> json) list \<Rightarrow> error + string option"
where
  "set_build cf sign now jti event sub aud claims =
     (if \<not> truthy (cf_env cf ''JWT_PRIVATE_KEY'') then Inr None
      else (case sign (normalizePem (nullish (cf_env cf ''JWT_PRIVATE_KEY'') '''') ''PRIVATE KEY'') set_header
                   (set_claims cf now jti event sub aud claims) of
              None \<Rightarrow> Inl (Server_Error ''importPKCS8'') | Some jwt \<Rightarrow> Inr (Some jwt)))"

section \<open>Fan-out\<close>

record security_event =
  ev_type :: string
  ev_subject :: string
  ev_company :: "string option"
  ev_claims :: "(string \<times> json) list"

definition wants :: "security_event \<Rightarrow> stream_row \<Rightarrow> bool" where
  "wants ev s \<longleftrightarrow> ss_status s = ''enabled'' \<and> ev_type ev \<in> set (ss_events s)
     \<and> (if truthy (ev_company ev) then ss_company s = None \<or> ss_company s = ev_company ev else ss_company s = None)"

definition queued :: "stream_row \<Rightarrow> string \<Rightarrow> string \<Rightarrow> security_event \<Rightarrow> string \<Rightarrow> delivery_row" where
  "queued s i jti ev jwt =
     \<lparr>sd_id = i, sd_stream = ss_id s, sd_jti = jti, sd_event = ev_type ev, sd_sub = ev_subject ev, sd_set = jwt,
      sd_status = ''pending'', sd_attempts = 0, sd_next = None, sd_error = None, sd_delivered = None\<rparr>"

definition pushes :: "stream_row \<Rightarrow> bool" where
  "pushes s \<longleftrightarrow> ss_method s = ''push'' \<and> truthy (ss_url s)"

definition push_job_of :: "stream_row \<Rightarrow> string \<Rightarrow> string \<Rightarrow> push_job" where
  "push_job_of s i jwt = \<lparr>pj_delivery = i, pj_url = nullish (ss_url s) '''', pj_auth = ss_auth s, pj_set = jwt\<rparr>"

text \<open>\<open>i\<close> is the key of the row, \<open>jti\<close> the identifier drawn for the event; a key already taken is a failed insert.\<close>

definition emitToStream ::
  "config \<Rightarrow> set_signer \<Rightarrow> int \<Rightarrow> string \<times> string \<Rightarrow> stream_row \<Rightarrow> security_event \<Rightarrow> ssf \<Rightarrow> error + ssf"
where
  "emitToStream cf sign now ids s ev st =
     (case set_build cf sign now (snd ids) (ev_type ev) (ev_subject ev) (ss_aud s) (ev_claims ev) of
        Inl e \<Rightarrow> Inl e
      | Inr None \<Rightarrow> Inr st
      | Inr (Some jwt) \<Rightarrow>
          if list_ex (\<lambda>x. sd_id x = fst ids \<or> sd_jti x = snd ids) (deliveries st) then Inl Db_Conflict
          else Inr (st\<lparr>deliveries := deliveries st @ [queued s (fst ids) (snd ids) ev jwt],
                       jobs := jobs st @ (if pushes s then [push_job_of s (fst ids) jwt] else [])\<rparr>))"

text \<open>A failure ends the round; whoever emits never sees it.\<close>

fun emit_each ::
  "config \<Rightarrow> set_signer \<Rightarrow> int \<Rightarrow> (nat \<Rightarrow> string \<times> string) \<Rightarrow> security_event \<Rightarrow> stream_row list \<Rightarrow> ssf \<Rightarrow> ssf"
where
  "emit_each cf sign now ids ev [] st = st"
| "emit_each cf sign now ids ev (s # ss) st =
     (case emitToStream cf sign now (ids 0) s ev st of
        Inl _ \<Rightarrow> st | Inr st1 \<Rightarrow> emit_each cf sign now (\<lambda>n. ids (Suc n)) ev ss st1)"

definition ssf_emit :: "config \<Rightarrow> set_signer \<Rightarrow> int \<Rightarrow> (nat \<Rightarrow> string \<times> string) \<Rightarrow> security_event \<Rightarrow> ssf \<Rightarrow> ssf" where
  "ssf_emit cf sign now ids ev st = emit_each cf sign now ids ev (filter (wants ev) (streams st)) st"

definition verify_stream ::
  "config \<Rightarrow> set_signer \<Rightarrow> int \<Rightarrow> string \<times> string \<Rightarrow> admin_scope \<Rightarrow> string \<Rightarrow> ssf \<Rightarrow> (error + unit) \<times> ssf"
where
  "verify_stream cf sign now ids scope sid st =
     (case stream_get scope sid st of
        Inl e \<Rightarrow> (Inl e, st)
      | Inr s \<Rightarrow>
          (case emitToStream cf sign now ids s
              \<lparr>ev_type = SSF_VERIFICATION_EVENT, ev_subject = ss_stream_id s, ev_company = None, ev_claims = [(''state'', JStr ''ok'')]\<rparr> st of
             Inl e \<Rightarrow> (Inl e, st) | Inr st1 \<Rightarrow> (Inr (), st1)))"

section \<open>Delivery\<close>

datatype push_answer = Push_Ok | Push_Status nat | Push_Error string

text \<open>\<open>show\<close> writes a number.\<close>

definition push_answered :: "(nat \<Rightarrow> string) \<Rightarrow> int \<Rightarrow> push_answer \<Rightarrow> delivery_row \<Rightarrow> delivery_row" where
  "push_answered shw now a x =
     (case a of
        Push_Ok \<Rightarrow> x\<lparr>sd_status := ''delivered'', sd_delivered := Some now\<rparr>
      | Push_Status n \<Rightarrow> x\<lparr>sd_status := ''failed'', sd_error := Some (''HTTP '' @ shw n),
                            sd_attempts := sd_attempts x + 1, sd_next := Some (now + 60000)\<rparr>
      | Push_Error e \<Rightarrow> x\<lparr>sd_status := ''failed'', sd_error := Some e,
                            sd_attempts := sd_attempts x + 1, sd_next := Some (now + 60000)\<rparr>)"

text \<open>The answer to one push; a row that is gone by then is let go.\<close>

definition deliver :: "(nat \<Rightarrow> string) \<Rightarrow> int \<Rightarrow> push_job \<Rightarrow> push_answer \<Rightarrow> ssf \<Rightarrow> ssf" where
  "deliver shw now j a st = st\<lparr>deliveries := update_many (\<lambda>x. sd_id x = pj_delivery j) (push_answered shw now a) (deliveries st),
     jobs := remove1 j (jobs st)\<rparr>"

definition ack :: "string \<Rightarrow> string list \<Rightarrow> int \<Rightarrow> delivery_row list \<Rightarrow> delivery_row list" where
  "ack sid acks now t = (if acks = [] then t
     else update_many (\<lambda>x. sd_stream x = sid \<and> sd_jti x \<in> set acks) (\<lambda>x. x\<lparr>sd_status := ''acked'', sd_delivered := Some now\<rparr>) t)"

definition unacked :: "string \<Rightarrow> delivery_row \<Rightarrow> bool" where
  "unacked sid x \<longleftrightarrow> sd_stream x = sid \<and> sd_status x \<in> {''pending'', ''failed''}"

definition ssf_poll :: "string \<Rightarrow> string list \<Rightarrow> int \<Rightarrow> int \<Rightarrow> ssf \<Rightarrow> (string \<times> string) list \<times> ssf" where
  "ssf_poll sid acks maxEvents now st =
     (let t = ack sid acks now (deliveries st);
          pending = take (nat (min (max maxEvents 1) 100)) (filter (unacked sid) t)
      in (map (\<lambda>x. (sd_jti x, sd_set x)) pending, st\<lparr>deliveries := t\<rparr>))"

definition poll_stream ::
  "admin_scope \<Rightarrow> string \<Rightarrow> string list option \<Rightarrow> int option \<Rightarrow> int \<Rightarrow> ssf \<Rightarrow> (error + (string \<times> string) list) \<times> ssf"
where
  "poll_stream scope sid acks maxEvents now st =
     (case stream_get scope sid st of
        Inl e \<Rightarrow> (Inl e, st)
      | Inr s \<Rightarrow> (let (r, st1) = ssf_poll (ss_id s) (nullish acks []) (nullish maxEvents 20) now st in (Inr r, st1)))"

definition MAX_PUSH_ATTEMPTS :: nat where
  "MAX_PUSH_ATTEMPTS = 5"

definition drain_due :: "int \<Rightarrow> delivery_row \<Rightarrow> bool" where
  "drain_due now x \<longleftrightarrow> sd_status x = ''failed'' \<and> (\<exists>t \<in> set_option (sd_next x). t \<le> now) \<and> sd_attempts x < MAX_PUSH_ATTEMPTS"

text \<open>The pushes one drain sets out on; each is answered by a \<open>deliver\<close>, while other requests come and go.\<close>

definition drain_jobs :: "int \<Rightarrow> ssf \<Rightarrow> push_job list" where
  "drain_jobs now st = List.map_filter
     (\<lambda>x. case List.find (\<lambda>s. ss_id s = sd_stream x) (streams st) of
            None \<Rightarrow> None | Some s \<Rightarrow> if pushes s then Some (push_job_of s (sd_id x) (sd_set x)) else None)
     (take 100 (filter (drain_due now) (deliveries st)))"

definition drainFailedPush :: "int \<Rightarrow> ssf \<Rightarrow> ssf" where
  "drainFailedPush now st = st\<lparr>jobs := jobs st @ drain_jobs now st\<rparr>"


text \<open>A drain on its own: its pushes one after the other, each answered.\<close>

definition drain_run :: "(nat \<Rightarrow> string) \<Rightarrow> int \<Rightarrow> (push_job \<Rightarrow> push_answer) \<Rightarrow> ssf \<Rightarrow> ssf" where
  "drain_run shw now answer st = fold (\<lambda>j. deliver shw now j (answer j)) (drain_jobs now st) (drainFailedPush now st)"

section \<open>Who hears of an event\<close>

definition signed_set :: "config \<Rightarrow> set_signer \<Rightarrow> int \<Rightarrow> security_event \<Rightarrow> stream_row \<Rightarrow> string \<Rightarrow> string option" where
  "signed_set cf sign now ev s jti = sign (normalizePem (nullish (cf_env cf ''JWT_PRIVATE_KEY'') '''') ''PRIVATE KEY'') set_header
     (set_claims cf now jti (ev_type ev) (ev_subject ev) (ss_aud s) (ev_claims ev))"

lemma emitToStream_signed:
  "emitToStream cf sign now ids s ev st =
     (if \<not> truthy (cf_env cf ''JWT_PRIVATE_KEY'') then Inr st
      else (case signed_set cf sign now ev s (snd ids) of
              None \<Rightarrow> Inl (Server_Error ''importPKCS8'')
            | Some jwt \<Rightarrow> if list_ex (\<lambda>x. sd_id x = fst ids \<or> sd_jti x = snd ids) (deliveries st) then Inl Db_Conflict
                else Inr (st\<lparr>deliveries := deliveries st @ [queued s (fst ids) (snd ids) ev jwt],
                             jobs := jobs st @ (if pushes s then [push_job_of s (fst ids) jwt] else [])\<rparr>)))"
  by (simp add: emitToStream_def set_build_def signed_set_def split: option.split)

lemma emitToStreamE:
  assumes "emitToStream cf sign now ids s ev st = Inr st'"
  obtains "st' = st" "\<not> truthy (cf_env cf ''JWT_PRIVATE_KEY'')"
  | jwt where "signed_set cf sign now ev s (snd ids) = Some jwt"
      "deliveries st' = deliveries st @ [queued s (fst ids) (snd ids) ev jwt]" "streams st' = streams st"
  using assms by (auto simp: emitToStream_signed split: if_splits option.splits)

definition addressed :: "config \<Rightarrow> set_signer \<Rightarrow> int \<Rightarrow> security_event \<Rightarrow> stream_row \<Rightarrow> delivery_row \<Rightarrow> bool" where
  "addressed cf sign now ev s x \<longleftrightarrow> sd_stream x = ss_id s \<and> sd_event x = ev_type ev \<and> sd_status x = ''pending''
     \<and> signed_set cf sign now ev s (sd_jti x) = Some (sd_set x)"

lemma addressed_queued: "signed_set cf sign now ev s jti = Some jwt \<Longrightarrow> addressed cf sign now ev s (queued s i jti ev jwt)"
  by (simp add: addressed_def queued_def)

lemma emit_each_rows:
  "\<exists>rows k. deliveries (emit_each cf sign now ids ev ss st) = deliveries st @ rows
     \<and> list_all2 (addressed cf sign now ev) (take k ss) rows"
proof (induction ss arbitrary: ids st)
  case (Cons s ss)
  show ?case
  proof (cases "emitToStream cf sign now (ids 0) s ev st")
    case (Inr st1)
    from Inr show ?thesis
    proof (cases rule: emitToStreamE)
      case 1
      then have "emitToStream cf sign now i t ev u = Inr u" for i t u by (simp add: emitToStream_signed)
      then have "emit_each cf sign now i ev us u = u" for i us u by (induction us arbitrary: i u) auto
      from this [of ids "s # ss" st] show ?thesis by (intro exI [of _ "[]"] exI [of _ 0]) (simp del: emit_each.simps)
    next
      case (2 jwt)
      obtain rows k where "deliveries (emit_each cf sign now (\<lambda>n. ids (Suc n)) ev ss st1) = deliveries st1 @ rows"
        and "list_all2 (addressed cf sign now ev) (take k ss) rows" using Cons.IH by blast
      with 2 Inr show ?thesis
        by (intro exI [of _ "queued s (fst (ids 0)) (snd (ids 0)) ev jwt # rows"] exI [of _ "Suc k"])
          (simp add: addressed_queued)
    qed
  qed (auto intro: exI [of _ 0])
qed simp

lemma emit_each_all:
  assumes "truthy (cf_env cf ''JWT_PRIVATE_KEY'')" and "\<And>h c. sign (normalizePem (nullish (cf_env cf ''JWT_PRIVATE_KEY'') '''') ''PRIVATE KEY'') h c \<noteq> None"
    and "\<And>m n. m \<noteq> n \<Longrightarrow> fst (ids m) \<noteq> fst (ids n) \<and> snd (ids m) \<noteq> snd (ids n)"
    and "\<And>n x. x \<in> set (deliveries st) \<Longrightarrow> sd_id x \<noteq> fst (ids n) \<and> sd_jti x \<noteq> snd (ids n)"
  shows "\<exists>rows. deliveries (emit_each cf sign now ids ev ss st) = deliveries st @ rows \<and> list_all2 (addressed cf sign now ev) ss rows"
  using assms(3,4)
proof (induction ss arbitrary: ids st)
  case (Cons s ss)
  obtain jwt where jwt: "signed_set cf sign now ev s (snd (ids 0)) = Some jwt" using assms(2) by (force simp: signed_set_def)
  let ?x = "queued s (fst (ids 0)) (snd (ids 0)) ev jwt"
  obtain st1 where st1: "emitToStream cf sign now (ids 0) s ev st = Inr st1" "deliveries st1 = deliveries st @ [?x]"
    using assms(1) jwt Cons.prems(2) by (auto simp: emitToStream_signed list_ex_iff)
  have "\<exists>rows. deliveries (emit_each cf sign now (\<lambda>n. ids (Suc n)) ev ss st1) = deliveries st1 @ rows \<and> list_all2 (addressed cf sign now ev) ss rows"
    by (rule Cons.IH) (use Cons.prems st1(2) in \<open>auto simp: queued_def\<close>)
  then obtain rows where "deliveries (emit_each cf sign now (\<lambda>n. ids (Suc n)) ev ss st1) = deliveries st1 @ rows"
    "list_all2 (addressed cf sign now ev) ss rows" by blast
  with st1 jwt show ?case by (intro exI [of _ "?x # rows"]) (simp add: addressed_queued)
qed simp

text \<open>A security event reaches whom it should and nobody else: with a signing key and fresh identifiers, every enabled
  stream that asked for the event and belongs to its tenant, or to no tenant, gets exactly one token, signed for that stream's
  audience, in the order of the streams; and whatever fails on the way, no stream of another tenant ever gets one.\<close>

theorem event_reaches_its_streams:
  shows "\<lbrakk>truthy (cf_env cf ''JWT_PRIVATE_KEY''); \<And>h c. sign (normalizePem (nullish (cf_env cf ''JWT_PRIVATE_KEY'') '''') ''PRIVATE KEY'') h c \<noteq> None;
      \<And>m n. m \<noteq> n \<Longrightarrow> fst (ids m) \<noteq> fst (ids n) \<and> snd (ids m) \<noteq> snd (ids n);
      \<And>n x. x \<in> set (deliveries st) \<Longrightarrow> sd_id x \<noteq> fst (ids n) \<and> sd_jti x \<noteq> snd (ids n)\<rbrakk>
      \<Longrightarrow> \<exists>rows. deliveries (ssf_emit cf sign now ids ev st) = deliveries st @ rows
          \<and> list_all2 (addressed cf sign now ev) (filter (wants ev) (streams st)) rows"
    and "x \<in> set (deliveries (ssf_emit cf sign' now ids' ev st)) \<Longrightarrow> x \<in> set (deliveries st)
      \<or> (\<exists>s \<in> set (streams st). sd_stream x = ss_id s \<and> ss_status s = ''enabled'' \<and> (ss_company s = None \<or> ss_company s = ev_company ev))"
proof -
  show "\<lbrakk>truthy (cf_env cf ''JWT_PRIVATE_KEY''); \<And>h c. sign (normalizePem (nullish (cf_env cf ''JWT_PRIVATE_KEY'') '''') ''PRIVATE KEY'') h c \<noteq> None;
      \<And>m n. m \<noteq> n \<Longrightarrow> fst (ids m) \<noteq> fst (ids n) \<and> snd (ids m) \<noteq> snd (ids n);
      \<And>n x. x \<in> set (deliveries st) \<Longrightarrow> sd_id x \<noteq> fst (ids n) \<and> sd_jti x \<noteq> snd (ids n)\<rbrakk>
      \<Longrightarrow> \<exists>rows. deliveries (ssf_emit cf sign now ids ev st) = deliveries st @ rows
          \<and> list_all2 (addressed cf sign now ev) (filter (wants ev) (streams st)) rows"
    unfolding ssf_emit_def by (rule emit_each_all)
  obtain rows k where rows: "deliveries (ssf_emit cf sign' now ids' ev st) = deliveries st @ rows"
    "list_all2 (addressed cf sign' now ev) (take k (filter (wants ev) (streams st))) rows"
    using emit_each_rows unfolding ssf_emit_def by blast
  show "x \<in> set (deliveries (ssf_emit cf sign' now ids' ev st)) \<Longrightarrow> x \<in> set (deliveries st)
      \<or> (\<exists>s \<in> set (streams st). sd_stream x = ss_id s \<and> ss_status s = ''enabled'' \<and> (ss_company s = None \<or> ss_company s = ev_company ev))"
  proof (cases "x \<in> set (deliveries st)")
    case False
    moreover assume "x \<in> set (deliveries (ssf_emit cf sign' now ids' ev st))"
    ultimately have "x \<in> set rows" using rows(1) by simp
    then obtain s where s: "s \<in> set (take k (filter (wants ev) (streams st)))" "addressed cf sign' now ev s x"
      using rows(2) by (metis in_set_conv_nth list_all2_conv_all_nth)
    from in_set_takeD [OF s(1)] s(2) show ?thesis by (auto simp: wants_def addressed_def split: if_splits)
  qed simp
qed


text \<open>C32. Leaving a tenant is heard: when a directory takes an active member out, the one event it emits, given to the transmitter,
  queues one signed token for every enabled stream of that tenant, and for every stream of none, that asked for disabled
  accounts.\<close>

theorem deprovision_is_heard:
  assumes "scim_deactivateUser c i d = (Inr (), d')" and "resolveOrg c d = Inr org" and "c \<noteq> []"
    and "map_option mb_status (find_member d (og_id org) i) = Some ''active''"
    and "truthy (cf_env cf ''JWT_PRIVATE_KEY'')" and "\<And>h c. sign (normalizePem (nullish (cf_env cf ''JWT_PRIVATE_KEY'') '''') ''PRIVATE KEY'') h c \<noteq> None"
    and "\<And>m n. m \<noteq> n \<Longrightarrow> fst (ids m) \<noteq> fst (ids n) \<and> snd (ids m) \<noteq> snd (ids n)"
    and "\<And>n x. x \<in> set (deliveries st) \<Longrightarrow> sd_id x \<noteq> fst (ids n) \<and> sd_jti x \<noteq> snd (ids n)"
  shows "\<exists>ev rows. effects d' = effects d @ [Ssf_Event (ev_type ev) (ev_subject ev) (ev_company ev) (ev_claims ev)]
    \<and> map_option us_did (find_user d i) = Some (ev_subject ev)
    \<and> deliveries (ssf_emit cf sign now ids ev st) = deliveries st @ rows
    \<and> list_all2 (addressed cf sign now ev)
        (filter (\<lambda>s. ss_status s = ''enabled'' \<and> ACCOUNT_DISABLED \<in> set (ss_events s) \<and> ss_company s \<in> {None, Some c}) (streams st)) rows"
proof -
  obtain m u where u: "find_user d i = Some u"
    and eff: "effects d' = effects d @ [Ssf_Event ACCOUNT_DISABLED (us_did u) (Some c) [(''reason'', JStr ''scim_deprovision'')]]"
    using deactivate_effects [OF assms(1,2)] assms(4) by auto
  let ?ev = "\<lparr>ev_type = ACCOUNT_DISABLED, ev_subject = us_did u, ev_company = Some c, ev_claims = [(''reason'', JStr ''scim_deprovision'')]\<rparr>"
  have "wants ?ev = (\<lambda>s. ss_status s = ''enabled'' \<and> ACCOUNT_DISABLED \<in> set (ss_events s) \<and> ss_company s \<in> {None, Some c})"
    using assms(3) by (auto simp: wants_def fun_eq_iff)
  then show ?thesis
    using emit_each_all [where ev = ?ev and cf = cf and sign = sign and ids = ids and st = st and now = now
        and ss = "filter (wants ?ev) (streams st)"] assms(5-8) eff u
    by (intro exI [of _ ?ev]) (simp add: ssf_emit_def)
qed

section \<open>Polling\<close>

lemma filter_ack:
  "filter (unacked sid) (ack sid acks now t) = filter (\<lambda>x. unacked sid x \<and> sd_jti x \<notin> set acks) t"
  by (cases "acks = []") (induction t; auto simp: ack_def update_many_def unacked_def)+

lemma filter_after_take:
  assumes "distinct (map f xs)"
  shows "filter (\<lambda>x. f x \<notin> f ` set (take k xs)) xs = drop k xs"
proof -
  have d: "distinct (map f (take k xs) @ map f (drop k xs))" using assms by (simp flip: map_append)
  have "filter (\<lambda>x. f x \<notin> f ` set (take k xs)) (take k xs) = []" by (simp add: filter_empty_conv)
  moreover have "filter (\<lambda>x. f x \<notin> f ` set (take k xs)) (drop k xs) = drop k xs"
    using d by (intro filter_True ballI) (auto simp: disjoint_iff)
  ultimately show ?thesis by (metis append_self_conv2 append_take_drop_id filter_append)
qed

lemma ack_jtis [simp]: "map sd_jti (ack sid acks now t) = map sd_jti t"
  by (induction t) (auto simp: ack_def update_many_def)

text \<open>A receiver that polls and acknowledges in the next request what the last one brought.\<close>

fun receive :: "nat \<Rightarrow> string \<Rightarrow> int \<Rightarrow> (nat \<Rightarrow> int) \<Rightarrow> string list \<Rightarrow> ssf \<Rightarrow> (string \<times> string) list \<times> ssf" where
  "receive 0 sid m clock acks st = ([], st)"
| "receive (Suc n) sid m clock acks st =
     (let (r, st1) = ssf_poll sid acks m (clock 0) st;
          (rs, st2) = receive n sid m (\<lambda>i. clock (Suc i)) (map fst r) st1
      in (r @ rs, st2))"

lemma receive_take:
  assumes "distinct (map sd_jti (deliveries st))" and "1 \<le> m" "m \<le> 100"
  shows "fst (receive n sid m clock acks st)
    = map (\<lambda>x. (sd_jti x, sd_set x)) (take (n * nat m) (filter (\<lambda>x. unacked sid x \<and> sd_jti x \<notin> set acks) (deliveries st)))"
  using assms(1)
proof (induction n arbitrary: clock acks st)
  case (Suc n)
  let ?ps = "filter (\<lambda>x. unacked sid x \<and> sd_jti x \<notin> set acks) (deliveries st)" and ?k = "nat m"
  let ?st1 = "st\<lparr>deliveries := ack sid acks (clock 0) (deliveries st)\<rparr>"
  have poll: "ssf_poll sid acks m (clock 0) st = (map (\<lambda>x. (sd_jti x, sd_set x)) (take ?k ?ps), ?st1)"
    using assms(2,3) by (simp add: ssf_poll_def filter_ack)
  have left: "filter (\<lambda>x. unacked sid x \<and> sd_jti x \<notin> set (map sd_jti (take ?k ?ps))) (deliveries ?st1) = drop ?k ?ps"
  proof -
    have "filter (\<lambda>x. unacked sid x \<and> sd_jti x \<notin> set (map sd_jti (take ?k ?ps))) (deliveries ?st1)
        = filter (\<lambda>x. sd_jti x \<notin> sd_jti ` set (take ?k ?ps)) (filter (unacked sid) (ack sid acks (clock 0) (deliveries st)))"
      by (auto intro: filter_cong)
    also have "\<dots> = filter (\<lambda>x. sd_jti x \<notin> sd_jti ` set (take ?k ?ps)) ?ps" by (simp only: filter_ack)
    also have "\<dots> = drop ?k ?ps" by (rule filter_after_take) (use Suc.prems in \<open>simp add: distinct_map_filter\<close>)
    finally show ?thesis .
  qed
  have "fst (receive n sid m (\<lambda>i. clock (Suc i)) (map sd_jti (take ?k ?ps)) ?st1)
      = map (\<lambda>x. (sd_jti x, sd_set x)) (take (n * ?k) (drop ?k ?ps))"
  proof -
    have "distinct (map sd_jti (deliveries ?st1))" using Suc.prems by simp
    from Suc.IH [OF this, of "\<lambda>i. clock (Suc i)" "map sd_jti (take ?k ?ps)"] show ?thesis by (simp only: left)
  qed
  moreover have "take (Suc n * ?k) ?ps = take ?k ?ps @ take (n * ?k) (drop ?k ?ps)" by (simp add: take_add)
  ultimately show ?case by (simp add: poll case_prod_beta Let_def comp_def del: take_add)
qed simp

text \<open>C33. Polling loses nothing and repeats nothing: a receiver that acknowledges what it got gets every token waiting on its
  stream, each once, in the order they were queued, after as many polls as their number takes.\<close>

theorem polling_delivers_in_order:
  assumes "distinct (map sd_jti (deliveries st))" and "1 \<le> m" "m \<le> 100"
    and "length (filter (unacked sid) (deliveries st)) \<le> n * nat m"
  shows "fst (receive n sid m clock [] st) = map (\<lambda>x. (sd_jti x, sd_set x)) (filter (unacked sid) (deliveries st))"
  using receive_take [OF assms(1-3), of n sid clock "[]"] assms(4) by simp

section \<open>What goes wrong\<close>

lemma update_one:
  assumes "x \<in> set t" "p x"
  shows "f x \<in> set (update_many p f t)"
  using assms by (auto simp: update_many_def)

text \<open>An acknowledgement can be lost: where a push of the token is on its way (the retry of a push stream, whose backlog may
  also be polled) and comes back failed after the receiver has acknowledged it by polling, the row, no longer waiting, is marked
  failed and waits again, to be polled and, until its attempts are spent, pushed once more.\<close>

theorem acknowledged_comes_back:
  fixes m now :: int
  assumes "x \<in> set (deliveries st)" and "sd_stream x = sid" and "pj_delivery j = sd_id x" and "distinct (map sd_jti (deliveries st))"
  defines "st1 \<equiv> snd (ssf_poll sid [sd_jti x] m now st)"
  shows "\<forall>y \<in> set (deliveries st1). sd_jti y = sd_jti x \<longrightarrow> sd_status y = ''acked''"
    and "\<exists>y \<in> set (deliveries (deliver shw now' j (Push_Error e) st1)). sd_jti y = sd_jti x \<and> sd_set y = sd_set x \<and> unacked sid y
      \<and> (sd_attempts x < 4 \<longrightarrow> drain_due (now' + 60000) y)"
proof -
  let ?a = "x\<lparr>sd_status := ''acked'', sd_delivered := Some now\<rparr>"
  have st1: "deliveries st1 = ack sid [sd_jti x] now (deliveries st)" by (simp add: st1_def ssf_poll_def Let_def)
  show "\<forall>y \<in> set (deliveries st1). sd_jti y = sd_jti x \<longrightarrow> sd_status y = ''acked''"
  proof (intro ballI impI)
    fix y assume y: "y \<in> set (deliveries st1)" "sd_jti y = sd_jti x"
    then obtain z where z: "z \<in> set (deliveries st)"
      "y = (if sd_stream z = sid \<and> sd_jti z = sd_jti x then z\<lparr>sd_status := ''acked'', sd_delivered := Some now\<rparr> else z)"
      by (auto simp: st1 ack_def update_many_def)
    with y have "sd_jti z = sd_jti x" by (auto split: if_splits)
    then have "z = x" using distinct_mapD [OF assms(4) z(1) assms(1)] by simp
    with z(2) assms(2) show "sd_status y = ''acked''" by simp
  qed
  have "?a \<in> set (deliveries st1)"
    using update_one [OF assms(1), of "\<lambda>y. sd_stream y = sid \<and> sd_jti y \<in> set [sd_jti x]"] assms(2) by (simp add: st1 ack_def)
  then have "push_answered shw now' (Push_Error e) ?a \<in> set (deliveries (deliver shw now' j (Push_Error e) st1))"
    unfolding deliver_def using assms(3) by (auto intro: update_one)
  then show "\<exists>y \<in> set (deliveries (deliver shw now' j (Push_Error e) st1)). sd_jti y = sd_jti x \<and> sd_set y = sd_set x \<and> unacked sid y
      \<and> (sd_attempts x < 4 \<longrightarrow> drain_due (now' + 60000) y)"
    by (rule rev_bexI) (use assms(2) in \<open>simp add: push_answered_def unacked_def drain_due_def MAX_PUSH_ATTEMPTS_def\<close>)
qed


text \<open>A security event names the wrong key once the operator gives the signing key a name of its own: the token is signed with
  the active key, but its header always says the default name, and whichever published key a receiver finds under
  that name is not the active one, so no token of this kind can be verified.\<close>

theorem set_names_wrong_key:
  assumes "cf_env cf ''JWT_ACTIVE_KID'' = Some k" and "k \<noteq> JWKS_KID"
    and "set_build cf sign now jti event sub aud claims = Inr (Some jwt)"
  shows "\<exists>c. sign (normalizePem (nullish (cf_env cf ''JWT_PRIVATE_KEY'') '''') ''PRIVATE KEY'') set_header c = Some jwt
      \<and> jget set_header ''kid'' = Some (JStr JWKS_KID)"
    and "\<forall>e \<in> set (loadEntries cf). ke_kid e = JWKS_KID \<longrightarrow> ke_role e \<noteq> ''active''"
  using assms
  by (auto simp: set_build_def set_header_def loadEntries_def Let_def split: if_splits option.splits)

text \<open>A first push that is lost with the process that set out on it is never made again: its row stays pending, and a drain
  takes up failed rows only.\<close>

lemma pending_never_drained:
  assumes "x \<in> set (deliveries st)" "sd_status x = ''pending''" "distinct (map sd_id (deliveries st))" "j \<in> set (drain_jobs now st)"
  shows "pj_delivery j \<noteq> sd_id x"
proof -
  have "\<exists>y \<in> set (filter (drain_due now) (deliveries st)). pj_delivery j = sd_id y"
    using assms(4) unfolding drain_jobs_def in_map_filter
    by (fastforce simp: push_job_of_def split: option.split_asm if_split_asm dest: in_set_takeD)
  then obtain y where y: "y \<in> set (deliveries st)" "sd_status y = ''failed''" "pj_delivery j = sd_id y"
    by (auto simp: drain_due_def)
  with assms(2) distinct_mapD [OF assms(3) y(1) assms(1)] show ?thesis by auto
qed

lemma deliver_other: "x \<in> set (deliveries st) \<Longrightarrow> pj_delivery j \<noteq> sd_id x \<Longrightarrow> x \<in> set (deliveries (deliver shw now j a st))"
  by (auto simp: deliver_def update_many_def image_iff intro!: bexI [of _ x])

lemma lost_push_stays:
  assumes "x \<in> set (deliveries st)" "sd_status x = ''pending''" "distinct (map sd_id (deliveries st))"
  shows "x \<in> set (deliveries (drain_run shw now answer st))"
proof -
  have "x \<in> set (deliveries (fold (\<lambda>j. deliver shw now j (answer j)) js u))"
    if "x \<in> set (deliveries u)" "\<And>j. j \<in> set js \<Longrightarrow> pj_delivery j \<noteq> sd_id x" for js u
    using that by (induction js arbitrary: u) (auto simp: deliver_other)
  then show ?thesis using pending_never_drained [OF assms] assms(1) by (simp add: drain_run_def drainFailedPush_def)
qed

section \<open>An operator's streams\<close>

lemma stream_getD: "stream_get (Scoped c) sid st = Inr s \<Longrightarrow> s \<in> set (streams st) \<and> ss_company s = Some c"
  by (auto simp: stream_get_def dest!: find_SomeD split: option.splits)

text \<open>An operator of one tenant opens streams of that tenant only, and reaches no other's.\<close>

lemma stream_operator_keeps_tenant:
  assumes "distinct (map ss_id (streams st))" and "c' \<noteq> Some c"
  defines "others \<equiv> \<lambda>st. filter (\<lambda>s. ss_company s = c') (streams st)"
  shows "others (snd (stream_create (Scoped c) i uuid dto st)) = others st"
    "others (snd (stream_remove (Scoped c) sid st)) = others st"
    "others (snd (setStatus (Scoped c) sid status st)) = others st"
proof -
  show "others (snd (stream_create (Scoped c) i uuid dto st)) = others st"
    using assms(2) by (auto simp: others_def stream_create_def Let_def)
  have own: "ss_company x = Some c" if "stream_get (Scoped c) sid st = Inr s" "x \<in> set (streams st)" "ss_id x = ss_id s" for s x
    using distinct_mapD [OF assms(1) that(2)] stream_getD [OF that(1)] that(3) by auto
  show "others (snd (stream_remove (Scoped c) sid st)) = others st"
  proof (cases "stream_get (Scoped c) sid st")
    case (Inr s)
    have "filter (\<lambda>s. ss_company s = c') (delete_many (\<lambda>x. ss_id x = ss_id s) (streams st)) = filter (\<lambda>s. ss_company s = c') (streams st)"
      by (rule filter_delete_many) (use own [OF Inr] assms(2) in auto)
    with Inr show ?thesis by (simp add: others_def stream_remove_def)
  qed (simp add: stream_remove_def)
  show "others (snd (setStatus (Scoped c) sid status st)) = others st"
  proof (cases "stream_get (Scoped c) sid st")
    case (Inr s)
    have "filter (\<lambda>s. ss_company s = c') (update_many (\<lambda>x. ss_id x = ss_id s) (\<lambda>x. x\<lparr>ss_status := status\<rparr>) (streams st))
        = filter (\<lambda>s. ss_company s = c') (streams st)"
      by (rule filter_update_many) (use own [OF Inr] assms(2) in auto)
    with Inr show ?thesis by (simp add: others_def setStatus_def)
  qed (simp add: setStatus_def)
qed


section \<open>Examples\<close>

definition push_stream :: stream_row where
  "push_stream = \<lparr>ss_id = ''s1'', ss_stream_id = ''uuid-1'', ss_company = Some ''acme'', ss_status = ''enabled'',
     ss_method = ''push'', ss_url = Some ''https://rs.example/events'', ss_auth = None, ss_events = ALL_CAEP_EVENTS, ss_aud = [''rs'']\<rparr>"

definition signing_config :: config where
  "signing_config = \<lparr>cf_store = (\<lambda>_. None), cf_env = [''JWT_PRIVATE_KEY'' \<mapsto> ''k'', ''JWT_PUBLIC_KEY'' \<mapsto> ''p'', ''JWT_ACTIVE_KID'' \<mapsto> ''key-2'']\<rparr>"

definition demo_set_signer :: set_signer where
  "demo_set_signer key h c = Some ''set''"

definition disabled_event :: security_event where
  "disabled_event = \<lparr>ev_type = ACCOUNT_DISABLED, ev_subject = ''did:web:ann'', ev_company = Some ''acme'', ev_claims = []\<rparr>"

definition waiting :: "string \<Rightarrow> string \<Rightarrow> delivery_row" where
  "waiting i jti = (queued push_stream i jti disabled_event (''set-'' @ i))\<lparr>sd_status := ''failed'', sd_attempts := 1, sd_next := Some 0\<rparr>"

definition outbox_state :: ssf where
  "outbox_state = \<lparr>streams = [push_stream], deliveries = [waiting ''d1'' ''j1'', waiting ''d2'' ''j2'', waiting ''d3'' ''j3''], jobs = []\<rparr>"

lemmas outbox_defs = outbox_state_def waiting_def queued_def push_stream_def disabled_event_def

theorem event_reaches_its_streams_witness:
  "\<exists>rows. deliveries (ssf_emit signing_config demo_set_signer 0 (\<lambda>n. (''d-'' @ replicate n CHR ''x'', ''j-'' @ replicate n CHR ''x'')) disabled_event outbox_state)
      = deliveries outbox_state @ rows
    \<and> list_all2 (addressed signing_config demo_set_signer 0 disabled_event) (filter (wants disabled_event) (streams outbox_state)) rows
    \<and> filter (wants disabled_event) (streams outbox_state) = [push_stream]"
proof -
  have r: "replicate m c = replicate n c \<longleftrightarrow> m = n" for m n and c :: char by (metis length_replicate)
  have "\<exists>rows. deliveries (ssf_emit signing_config demo_set_signer 0 (\<lambda>n. (''d-'' @ replicate n CHR ''x'', ''j-'' @ replicate n CHR ''x'')) disabled_event outbox_state)
      = deliveries outbox_state @ rows
    \<and> list_all2 (addressed signing_config demo_set_signer 0 disabled_event) (filter (wants disabled_event) (streams outbox_state)) rows"
    by (rule event_reaches_its_streams(1))
      (auto simp: signing_config_def demo_set_signer_def outbox_defs r)
  moreover have "filter (wants disabled_event) (streams outbox_state) = [push_stream]"
    by (simp add: wants_def outbox_defs ALL_CAEP_EVENTS_def)
  ultimately show ?thesis by blast
qed

theorem polling_delivers_in_order_witness:
  "fst (receive 2 ''s1'' 2 int [] outbox_state) = [(''j1'', ''set-d1''), (''j2'', ''set-d2''), (''j3'', ''set-d3'')]"
  using polling_delivers_in_order [of outbox_state 2 "''s1''" 2 int] by (simp add: outbox_defs unacked_def)

theorem acknowledged_comes_back_witness:
  "\<exists>y \<in> set (deliveries (deliver shw 60000 (push_job_of push_stream ''d1'' ''set-d1'') (Push_Error ''timeout'')
      (snd (ssf_poll ''s1'' [''j1''] 20 1000 (drainFailedPush 500 outbox_state))))). sd_jti y = ''j1'' \<and> unacked ''s1'' y"
proof -
  have "deliveries (drainFailedPush 500 outbox_state) = deliveries outbox_state" by (simp add: drainFailedPush_def)
  then show ?thesis
    using acknowledged_comes_back(2) [where x = "waiting ''d1'' ''j1''" and st = "drainFailedPush 500 outbox_state" and sid = "''s1''"
        and j = "push_job_of push_stream ''d1'' ''set-d1''" and m = 20 and now = 1000 and shw = shw and now' = 60000 and e = "''timeout''"]
    by (auto simp: outbox_defs push_job_of_def)
qed

theorem set_names_wrong_key_witness:
  "\<forall>e \<in> set (loadEntries signing_config). ke_kid e = JWKS_KID \<longrightarrow> ke_role e \<noteq> ''active''"
  by (rule set_names_wrong_key(2) [of _ "''key-2''" demo_set_signer 0 "''j''" "''e''" "''s''" "[]" "[]" "''set''"])
    (simp_all add: signing_config_def JWKS_KID_def set_build_def demo_set_signer_def)

theorem deprovision_is_heard_witness:
  "\<exists>ev rows. effects (snd (scim_deactivateUser ''acme'' ''u1'' directory_db))
      = effects directory_db @ [Ssf_Event (ev_type ev) (ev_subject ev) (ev_company ev) (ev_claims ev)]
    \<and> list_all2 (addressed signing_config demo_set_signer 0 ev) [push_stream] rows"
proof -
  have m: "find_member directory_db (og_id acme) ''u1'' = Some (ann_acme\<lparr>mb_role := ''owner''\<rparr>)" "find_user directory_db ''u1'' = Some ann"
    by (simp_all add: find_member_def find_user_def directory_defs)
  then have out: "scim_deactivateUser ''acme'' ''u1'' directory_db = (Inr (), snd (scim_deactivateUser ''acme'' ''u1'' directory_db))"
    by (simp add: scim_deactivateUser_def directory_org loadMembershipOr404_def)
  have r: "replicate m c = replicate n c \<longleftrightarrow> m = n" for m n and c :: char by (metis length_replicate)
  have "filter (\<lambda>s. ss_status s = ''enabled'' \<and> ACCOUNT_DISABLED \<in> set (ss_events s) \<and> ss_company s \<in> {None, Some ''acme''}) (streams outbox_state)
      = [push_stream]" by (simp add: outbox_defs ALL_CAEP_EVENTS_def)
  moreover have "\<exists>ev rows. effects (snd (scim_deactivateUser ''acme'' ''u1'' directory_db))
      = effects directory_db @ [Ssf_Event (ev_type ev) (ev_subject ev) (ev_company ev) (ev_claims ev)]
    \<and> map_option us_did (find_user directory_db ''u1'') = Some (ev_subject ev)
    \<and> deliveries (ssf_emit signing_config demo_set_signer 0 (\<lambda>n. (''d-'' @ replicate n CHR ''x'', ''j-'' @ replicate n CHR ''x'')) ev outbox_state)
      = deliveries outbox_state @ rows
    \<and> list_all2 (addressed signing_config demo_set_signer 0 ev)
        (filter (\<lambda>s. ss_status s = ''enabled'' \<and> ACCOUNT_DISABLED \<in> set (ss_events s) \<and> ss_company s \<in> {None, Some ''acme''}) (streams outbox_state)) rows"
    by (rule deprovision_is_heard [OF out directory_org])
      (simp_all add: m ann_acme_def signing_config_def demo_set_signer_def r, auto simp: outbox_defs)
  ultimately show ?thesis by metis
qed

end
