(* ===== verification/Manifest.thy ===== *)
theory Manifest
  imports Logout Own_Account "HOL-Library.Multiset"
begin

text \<open>
  First-party clients as files: \<open>src/clients/manifest.ts\<close> (what a manifest may say, the row it means, the plan that brings the
  database there), \<open>src/clients/load.ts\<close> and \<open>scripts/clients-apply.ts\<close>, the one way such a client is created or changed.
  A manifest has the types of its interface, with the keys of its JSON objects beside them; the URL parser, the
  random values, the hash and the delivery of a secret are parameters.
\<close>

section \<open>Manifests and rows\<close>

record manifest_secret =
  se_name :: "string option"
  se_environment :: "string option"
  se_keys :: "string list"

record overrides =
  ov_reason :: "string option"
  ov_public :: "bool option"
  ov_callback :: "string option"
  ov_extra :: "string list option"
  ov_backchannel :: "string option option"
  ov_grants :: "string list option"
  ov_scopes :: "string list option"
  ov_keys :: "string list"

record manifest =
  mf_client :: string
  mf_name :: string
  mf_repo :: "string option"
  mf_kind :: "string option"
  mf_origins :: "string list option"
  mf_scopes :: "string list option"
  mf_audiences :: "string list option"
  mf_company :: "string option"
  mf_secret :: "manifest_secret option"
  mf_outside :: "string option"
  mf_active :: "bool option"
  mf_lane :: "bool option"
  mf_overrides :: "overrides option"
  mf_keys :: "string list"

record managed_client =
  mc_client :: string
  mc_name :: string
  mc_redirects :: "string list"
  mc_scopes :: "string list"
  mc_grants :: "string list"
  mc_audiences :: "string list"
  mc_backchannel :: "string option"
  mc_first_party :: bool
  mc_public :: bool
  mc_auth :: string
  mc_company :: "string option"
  mc_active :: bool
  mc_lane :: bool

definition CALLBACK_PATH :: string where "CALLBACK_PATH = ''/callback''"

definition BASELINE_SCOPES :: "string list" where
  "BASELINE_SCOPES = [''openid'', ''profile'', ''email'', ''offline_access'']"

definition DEFAULT_GRANTS :: "string list" where
  "DEFAULT_GRANTS = [''authorization_code'', ''refresh_token'']"

definition MACHINE_GRANTS :: "string list" where "MACHINE_GRANTS = [''client_credentials'']"

definition CONFIDENTIAL_ONLY_GRANTS :: "string list" where
  "CONFIDENTIAL_ONLY_GRANTS = [''client_credentials'', ''urn:ietf:params:oauth:grant-type:token-exchange'']"

definition SYSTEM_CLIENT_IDS :: "string list" where "SYSTEM_CLIENT_IDS = [''inite-cli'']"

section \<open>The row a manifest means\<close>

text \<open>\<open>origins.map(origin)\<close>, which throws on what is no URL.\<close>

fun origins_of :: "(string \<Rightarrow> url option) \<Rightarrow> string list \<Rightarrow> string list option" where
  "origins_of pu [] = Some []"
| "origins_of pu (u # us) =
     (case pu u of None \<Rightarrow> None | Some x \<Rightarrow> map_option ((#) (url_origin x)) (origins_of pu us))"

definition backchannelOf :: "manifest \<Rightarrow> string list \<Rightarrow> string option" where
  "backchannelOf m origins =
     (case Option.bind (mf_overrides m) ov_backchannel of
        Some b \<Rightarrow> b
      | None \<Rightarrow> Some ((case origins of o1 # _ \<Rightarrow> o1 | [] \<Rightarrow> ''undefined'') @ BACKCHANNEL_LOGOUT_PATH))"

definition deriveMachine :: "manifest \<Rightarrow> managed_client" where
  "deriveMachine m =
     \<lparr>mc_client = mf_client m, mc_name = mf_name m, mc_redirects = [], mc_scopes = uniq (nullish (mf_scopes m) []),
      mc_grants = MACHINE_GRANTS, mc_audiences = uniq (nullish (mf_audiences m) []), mc_backchannel = None,
      mc_first_party = True, mc_public = False, mc_auth = ''client_secret_post'', mc_company = mf_company m,
      mc_active = nullish (mf_active m) True, mc_lane = False\<rparr>"

definition override :: "(overrides \<Rightarrow> 'a option) \<Rightarrow> manifest \<Rightarrow> 'a option" where
  "override f m = Option.bind (mf_overrides m) f"

definition deriveClient :: "(string \<Rightarrow> url option) \<Rightarrow> manifest \<Rightarrow> managed_client option" where
  "deriveClient pu m =
     (if mf_kind m = Some ''machine'' then Some (deriveMachine m)
      else (case origins_of pu (nullish (mf_origins m) []) of
              None \<Rightarrow> None
            | Some origins \<Rightarrow>
                (let callback = nullish (override ov_callback m) CALLBACK_PATH; public = override ov_public m = Some True
                 in Some \<lparr>mc_client = mf_client m, mc_name = mf_name m,
                      mc_redirects = uniq (map (\<lambda>x. x @ callback) origins @ nullish (override ov_extra m) []),
                      mc_scopes = uniq (nullish (override ov_scopes m) (BASELINE_SCOPES @ nullish (mf_scopes m) [])),
                      mc_grants = uniq (nullish (override ov_grants m) DEFAULT_GRANTS),
                      mc_audiences = uniq (nullish (mf_audiences m) []), mc_backchannel = backchannelOf m origins,
                      mc_first_party = True, mc_public = public,
                      mc_auth = (if public then ''none'' else ''client_secret_post''), mc_company = mf_company m,
                      mc_active = nullish (mf_active m) True, mc_lane = (mf_lane m = Some True)\<rparr>)))"

definition takesSecret :: "managed_client \<Rightarrow> bool" where
  "takesSecret c \<longleftrightarrow> \<not> mc_public c \<and> mc_auth c \<noteq> ''none''"

section \<open>What is wrong with a manifest\<close>

definition id_name :: "string \<Rightarrow> bool" where
  "id_name s = (case s of [] \<Rightarrow> False
     | c # cs \<Rightarrow> (is_lower c \<or> is_digit c) \<and> list_all (\<lambda>x. is_lower x \<or> is_digit x \<or> x = CHR ''-'') cs \<and> 1 \<le> length cs \<and> length cs \<le> 62)"

definition repo_name :: "string \<Rightarrow> bool" where
  "repo_name s \<longleftrightarrow> prefix ''inite-ai/'' s \<and> drop 9 s \<noteq> []
     \<and> list_all (\<lambda>c. is_lower c \<or> is_upper_ascii c \<or> is_digit c \<or> c \<in> set ''._-'') (drop 9 s)"

definition scope_word :: "string \<Rightarrow> bool" where
  "scope_word w = (case w of [] \<Rightarrow> False | c # cs \<Rightarrow> is_lower c \<and> list_all (\<lambda>x. is_lower x \<or> is_digit x \<or> x = CHR ''_'') cs)"

definition scope_name :: "string \<Rightarrow> bool" where
  "scope_name s =
     (let a = takeWhile (\<lambda>c. c \<noteq> CHR '':'') s; b = dropWhile (\<lambda>c. c \<noteq> CHR '':'') s
      in scope_word a \<and> (b = [] \<or> scope_word (tl b)))"

definition env_name :: "string \<Rightarrow> bool" where
  "env_name s = (case s of [] \<Rightarrow> False
     | c # cs \<Rightarrow> is_upper_ascii c \<and> list_all (\<lambda>x. is_upper_ascii x \<or> is_digit x \<or> x = CHR ''_'') cs \<and> 2 \<le> length cs \<and> length cs \<le> 63)"

definition MANIFEST_KEYS :: "string list" where
  "MANIFEST_KEYS = [''clientId'', ''name'', ''repo'', ''kind'', ''origins'', ''scopes'', ''audiences'', ''companyId'',
     ''secret'', ''outsideFamily'', ''active'', ''customerLane'', ''overrides'']"

definition OVERRIDE_KEYS :: "string list" where
  "OVERRIDE_KEYS = [''reason'', ''public'', ''callbackPath'', ''extraRedirectUris'', ''backchannelLogoutUri'', ''grants'', ''scopes'']"

definition SECRET_KEYS :: "string list" where "SECRET_KEYS = [''name'', ''environment'']"

definition complain :: "bool \<Rightarrow> string \<Rightarrow> string list" where
  "complain b msg = (if b then [msg] else [])"

definition idProblems :: "manifest \<Rightarrow> string \<Rightarrow> string list" where
  "idProblems m file =
     complain (\<not> id_name (mf_client m)) ''clientId must be lower-case letters, digits and dashes''
     @ complain (file \<noteq> mf_client m @ ''.json'') (''the file must be named '' @ mf_client m @ ''.json'')
     @ complain (prefix ''dcr_'' (mf_client m)) ''a self-registered client is never a manifest''
     @ complain (mf_client m \<in> set SYSTEM_CLIENT_IDS) ''a system client is seeded by the service, not a manifest''
     @ complain (mf_name m = []) ''name is required''"

definition unknownKeys :: "string list \<Rightarrow> string list \<Rightarrow> string \<Rightarrow> string list" where
  "unknownKeys ks known at = map (\<lambda>k. ''unknown key \"'' @ at @ k @ ''\"'') (filter (\<lambda>k. k \<notin> set known) ks)"

definition shapeProblems :: "manifest \<Rightarrow> string list" where
  "shapeProblems m =
     unknownKeys (mf_keys m) MANIFEST_KEYS ''''
     @ (case mf_overrides m of None \<Rightarrow> [] | Some v \<Rightarrow> unknownKeys (ov_keys v) OVERRIDE_KEYS ''overrides.'')
     @ (case mf_secret m of None \<Rightarrow> [] | Some v \<Rightarrow> unknownKeys (se_keys v) SECRET_KEYS ''secret.'')
     @ complain (mf_kind m \<noteq> None \<and> mf_kind m \<noteq> Some ''machine'') ''kind is \"machine\" or absent''"

definition identityProblems :: "manifest \<Rightarrow> string \<Rightarrow> string list" where
  "identityProblems m file =
     idProblems m file
     @ complain (\<exists>r \<in> set_option (mf_repo m). \<not> repo_name r) ''repo must be inite-ai/<name>''
     @ complain (mf_secret m \<noteq> None \<and> \<not> truthy (mf_repo m)) ''secret needs the repo it goes to''
     @ complain (\<exists>s \<in> set_option (mf_secret m). \<not> env_name (nullish (se_name s) '''')) ''secret.name must be an env-style name''"

definition familyCheck :: "string list \<Rightarrow> string \<Rightarrow> bool" where
  "familyCheck fd host = list_ex (\<lambda>d. host = d \<or> suffix (''.'' @ d) host) fd"

definition urlProblem :: "(string \<Rightarrow> url option) \<Rightarrow> string \<Rightarrow> manifest \<Rightarrow> string list \<Rightarrow> string option" where
  "urlProblem pu u m fd =
     (case pu u of
        None \<Rightarrow> Some (u @ '': not a URL'')
      | Some x \<Rightarrow>
          if url_protocol x \<noteq> ''https:'' then Some (u @ '': https only (a loopback URI belongs in a -dev client, never a prod one)'')
          else if url_username x \<noteq> [] \<or> url_password x \<noteq> [] \<or> url_hash x \<noteq> [] then Some (u @ '': no credentials or fragment'')
          else if \<not> familyCheck fd (url_hostname x) \<and> \<not> truthy (mf_outside m)
          then Some (u @ '': not on a family domain (name the reason in \"outsideFamily\")'')
          else None)"

definition machineProblems :: "(string \<Rightarrow> url option) \<Rightarrow> manifest \<Rightarrow> string list \<Rightarrow> string list" where
  "machineProblems pu m fd =
     map (\<lambda>k. ''a machine client has no '' @ k)
       (complain (mf_origins m \<noteq> None) ''origins'' @ complain (mf_overrides m \<noteq> None) ''overrides''
        @ complain (mf_outside m \<noteq> None) ''outsideFamily'' @ complain (mf_lane m \<noteq> None) ''customerLane'')
     @ complain (nullish (mf_scopes m) [] = []) ''a machine client lists its scopes (at least one)''
     @ complain (list_ex (\<lambda>s. s \<in> set BASELINE_SCOPES) (nullish (mf_scopes m) [])) ''a machine client signs no one in: no OIDC scopes''
     @ complain (nullish (mf_audiences m) [] = []) ''a machine client lists the audiences it may call (at least one)''
     @ List.map_filter (\<lambda>a. urlProblem pu a m fd) (nullish (mf_audiences m) [])"

definition urlProblems :: "(string \<Rightarrow> url option) \<Rightarrow> manifest \<Rightarrow> string list \<Rightarrow> string list" where
  "urlProblems pu m fd =
     (let os = nullish (mf_origins m) []; bc = Option.bind (override ov_backchannel m) id
      in if os = [] then [''origins: at least one'']
         else List.map_filter (\<lambda>u. urlProblem pu u m fd)
                (os @ nullish (override ov_extra m) [] @ (if truthy bc then [nullish bc ''''] else []))
              @ concat (map (\<lambda>u. complain (\<exists>x \<in> set_option (pu u). url_pathname x \<noteq> ''/'') (u @ '': an origin has no path'')) os))"

definition publicProblems :: "manifest \<Rightarrow> managed_client \<Rightarrow> string list" where
  "publicProblems m row =
     (case override ov_public m of
        None \<Rightarrow> []
      | Some False \<Rightarrow> [''overrides.public is true or absent'']
      | Some True \<Rightarrow>
          complain (mf_secret m \<noteq> None) ''a public client has no secret to deliver''
          @ map (\<lambda>g. ''a public client cannot hold '' @ g) (filter (\<lambda>g. g \<in> set CONFIDENTIAL_ONLY_GRANTS) (mc_grants row))
          @ complain (override ov_backchannel m \<noteq> Some None)
              ''a public client gets no back-channel: set overrides.backchannelLogoutUri to null'')"

definition overrideFieldProblems :: "manifest \<Rightarrow> string list" where
  "overrideFieldProblems m =
     (case mf_overrides m of
        None \<Rightarrow> []
      | Some v \<Rightarrow>
          complain (length (trim (nullish (ov_reason v) '''')) < 8) ''overrides need their reason beside them''
          @ complain (truthy (ov_callback v) \<and> \<not> prefix ''/'' (nullish (ov_callback v) '''')) ''overrides.callbackPath is a path''
          @ complain (ov_scopes v \<noteq> None \<and> mf_scopes m \<noteq> None) ''overrides.scopes replaces the scopes: not together with \"scopes\"''
          @ complain (\<exists>ss \<in> set_option (ov_scopes v). ''openid'' \<notin> set ss) ''overrides.scopes signs a person in: it keeps openid'')"

definition derivedProblems :: "(string \<Rightarrow> url option) \<Rightarrow> manifest \<Rightarrow> string list" where
  "derivedProblems pu m =
     (case deriveClient pu m of
        None \<Rightarrow> []
      | Some row \<Rightarrow>
          complain (''offline_access'' \<in> set (mc_scopes row) \<and> ''refresh_token'' \<notin> set (mc_grants row))
            ''offline_access needs the refresh_token grant''
          @ publicProblems m row)"

definition overrideProblems :: "(string \<Rightarrow> url option) \<Rightarrow> manifest \<Rightarrow> string list" where
  "overrideProblems pu m =
     (let out = map (\<lambda>s. ''scope \"'' @ s @ ''\" is not a scope name'')
            (filter (\<lambda>s. \<not> scope_name s) (nullish (mf_scopes m) [] @ nullish (override ov_scopes m) []))
      in if mf_kind m = Some ''machine'' then out else out @ overrideFieldProblems m @ derivedProblems pu m)"

definition manifestProblems :: "(string \<Rightarrow> url option) \<Rightarrow> manifest \<Rightarrow> string \<Rightarrow> string list \<Rightarrow> string list" where
  "manifestProblems pu m file fd =
     map (\<lambda>p. file @ '': '' @ p)
       (shapeProblems m @ identityProblems m file
        @ (if mf_kind m = Some ''machine'' then machineProblems pu m fd else urlProblems pu m fd)
        @ overrideProblems pu m)"

text \<open>\<open>loadManifests\<close>: a file that is no JSON is none; one problem anywhere and nothing is loaded.\<close>

definition loadManifests :: "(string \<Rightarrow> url option) \<Rightarrow> (string \<times> manifest option) list \<Rightarrow> string list + manifest list" where
  "loadManifests pu files =
     (let problems = concat (map (\<lambda>(f, m). case m of None \<Rightarrow> [f @ '': not JSON''] | Some x \<Rightarrow> manifestProblems pu x f FAMILY_DOMAINS) files)
      in if problems \<noteq> [] then Inl problems else Inr (List.map_filter snd files))"


section \<open>The plan\<close>

text \<open>A managed field of a row, and its value.\<close>

datatype field = F_name | F_redirects | F_scopes | F_grants | F_audiences | F_backchannel | F_first_party | F_public | F_auth
  | F_company | F_active | F_lane

datatype fval = V_str string | V_list "string list" | V_opt "string option" | V_bool bool

definition MANAGED_FIELDS :: "field list" where
  "MANAGED_FIELDS = [F_name, F_redirects, F_scopes, F_grants, F_audiences, F_backchannel, F_first_party, F_public, F_auth,
     F_company, F_active, F_lane]"

fun field_of :: "field \<Rightarrow> managed_client \<Rightarrow> fval" where
  "field_of F_name r = V_str (mc_name r)"
| "field_of F_redirects r = V_list (mc_redirects r)"
| "field_of F_scopes r = V_list (mc_scopes r)"
| "field_of F_grants r = V_list (mc_grants r)"
| "field_of F_audiences r = V_list (mc_audiences r)"
| "field_of F_backchannel r = V_opt (mc_backchannel r)"
| "field_of F_first_party r = V_bool (mc_first_party r)"
| "field_of F_public r = V_bool (mc_public r)"
| "field_of F_auth r = V_str (mc_auth r)"
| "field_of F_company r = V_opt (mc_company r)"
| "field_of F_active r = V_bool (mc_active r)"
| "field_of F_lane r = V_bool (mc_lane r)"

text \<open>Two lists are the same when sorting makes them equal.\<close>

fun same_value :: "fval \<Rightarrow> fval \<Rightarrow> bool" where
  "same_value (V_list a) (V_list b) \<longleftrightarrow> mset a = mset b"
| "same_value a b \<longleftrightarrow> a = b"

type_synonym field_change = "field \<times> fval \<times> fval"

record plan =
  pn_create :: "managed_client list"
  pn_update :: "(string \<times> field_change list) list"
  pn_unmanaged :: "string list"

definition changes_of :: "managed_client \<Rightarrow> managed_client \<Rightarrow> field_change list" where
  "changes_of row w = List.map_filter
     (\<lambda>f. if same_value (field_of f row) (field_of f w) then None else Some (f, field_of f row, field_of f w)) MANAGED_FIELDS"

definition by_id :: "managed_client list \<Rightarrow> string \<Rightarrow> managed_client option" where
  "by_id t i = List.find (\<lambda>r. mc_client r = i) t"

definition planApply :: "managed_client list \<Rightarrow> managed_client list \<Rightarrow> plan" where
  "planApply wanted current =
     \<lparr>pn_create = filter (\<lambda>w. by_id current (mc_client w) = None) wanted,
      pn_update = List.map_filter
        (\<lambda>w. case by_id current (mc_client w) of
               None \<Rightarrow> None | Some row \<Rightarrow> (let cs = changes_of row w in if cs = [] then None else Some (mc_client w, cs))) wanted,
      pn_unmanaged = map mc_client
        (filter (\<lambda>r. mc_client r \<notin> set (map mc_client wanted) \<and> \<not> prefix ''dcr_'' (mc_client r) \<and> mc_client r \<notin> set SYSTEM_CLIENT_IDS) current)\<rparr>"

section \<open>Applying it\<close>

text \<open>\<open>SELECT\<close>: what the plan reads of a row of the database.\<close>

definition managed :: "client_row \<Rightarrow> managed_client" where
  "managed c =
     \<lparr>mc_client = cl_client_id c, mc_name = cl_name c, mc_redirects = cl_redirect_uris c, mc_scopes = cl_allowed_scopes c,
      mc_grants = cl_allowed_grants c, mc_audiences = cl_allowed_audiences c, mc_backchannel = cl_backchannel_uri c,
      mc_first_party = cl_first_party c, mc_public = cl_is_public c, mc_auth = cl_auth_method c, mc_company = cl_company c,
      mc_active = cl_active c, mc_lane = cl_customer_lane c\<rparr>"

definition current_clients :: "db \<Rightarrow> managed_client list" where
  "current_clients d = map managed (filter (\<lambda>c. \<not> prefix ''dcr_'' (cl_client_id c)) (clients d))"

definition new_client :: "managed_client \<Rightarrow> string \<Rightarrow> client_row" where
  "new_client c hash =
     \<lparr>cl_client_id = mc_client c, cl_name = mc_name c, cl_secret_hash = hash, cl_prev_secret_hash = None, cl_prev_secret_expires = None,
      cl_redirect_uris = mc_redirects c, cl_allowed_scopes = mc_scopes c, cl_allowed_grants = mc_grants c, cl_company = mc_company c,
      cl_allowed_audiences = mc_audiences c, cl_custom_claims = None, cl_is_public = mc_public c, cl_auth_method = mc_auth c,
      cl_jwks = None, cl_active = mc_active c, cl_first_party = mc_first_party c, cl_customer_lane = mc_lane c, cl_jwks_uri = None,
      cl_tls_subject_dn = None, cl_logo_url = None, cl_privacy_url = None, cl_terms_url = None, cl_backchannel_uri = mc_backchannel c\<rparr>"

fun set_field :: "field \<times> fval \<Rightarrow> client_row \<Rightarrow> client_row" where
  "set_field (F_name, V_str v) c = c\<lparr>cl_name := v\<rparr>"
| "set_field (F_redirects, V_list v) c = c\<lparr>cl_redirect_uris := v\<rparr>"
| "set_field (F_scopes, V_list v) c = c\<lparr>cl_allowed_scopes := v\<rparr>"
| "set_field (F_grants, V_list v) c = c\<lparr>cl_allowed_grants := v\<rparr>"
| "set_field (F_audiences, V_list v) c = c\<lparr>cl_allowed_audiences := v\<rparr>"
| "set_field (F_backchannel, V_opt v) c = c\<lparr>cl_backchannel_uri := v\<rparr>"
| "set_field (F_first_party, V_bool v) c = c\<lparr>cl_first_party := v\<rparr>"
| "set_field (F_public, V_bool v) c = c\<lparr>cl_is_public := v\<rparr>"
| "set_field (F_auth, V_str v) c = c\<lparr>cl_auth_method := v\<rparr>"
| "set_field (F_company, V_opt v) c = c\<lparr>cl_company := v\<rparr>"
| "set_field (F_active, V_bool v) c = c\<lparr>cl_active := v\<rparr>"
| "set_field (F_lane, V_bool v) c = c\<lparr>cl_customer_lane := v\<rparr>"
| "set_field _ c = c"

definition apply_changes :: "field_change list \<Rightarrow> client_row \<Rightarrow> client_row" where
  "apply_changes cs c = fold (\<lambda>(f, _, v). set_field (f, v)) cs c"

fun create_all :: "(managed_client \<times> string) list \<Rightarrow> client_row list \<Rightarrow> error + client_row list" where
  "create_all [] t = Inr t"
| "create_all ((c, h) # cs) t =
     (if list_ex (\<lambda>x. cl_client_id x = mc_client c) t then Inl Db_Conflict else create_all cs (t @ [new_client c h]))"

definition update_all :: "(string \<times> field_change list) list \<Rightarrow> client_row list \<Rightarrow> client_row list" where
  "update_all us t = fold (\<lambda>(i, cs). update_many (\<lambda>c. cl_client_id c = i) (apply_changes cs)) us t"

definition ROTATE_GRACE_MS :: int where "ROTATE_GRACE_MS = 7200000"

definition rotate_row :: "int \<Rightarrow> string \<Rightarrow> client_row \<Rightarrow> client_row" where
  "rotate_row now hash c = c\<lparr>cl_secret_hash := hash, cl_prev_secret_hash := Some (cl_secret_hash c),
     cl_prev_secret_expires := Some (now + ROTATE_GRACE_MS)\<rparr>"

text \<open>The operator's machine: the delivery of a secret to where the manifest says (whether it worked), the random values by
  number and the hash.\<close>

record apply_deps =
  ap_deliver :: "manifest \<Rightarrow> string \<Rightarrow> bool"
  ap_random :: "nat \<Rightarrow> string"
  ap_hash :: "string \<Rightarrow> string"
  ap_parse :: "string \<Rightarrow> url option"

record apply_args =
  aa_check :: bool
  aa_apply :: bool
  aa_rotate :: "string option"
  aa_file_sink :: bool

datatype apply_outcome = Exit nat | Dry_Run | Applied plan

definition deliverSecret :: "apply_deps \<Rightarrow> bool \<Rightarrow> manifest \<Rightarrow> string \<Rightarrow> error + unit" where
  "deliverSecret A file m secret =
     (if \<not> file \<and> (\<not> truthy (mf_repo m) \<or> mf_secret m = None)
      then Inl (Server_Error (mf_client m @ '': no repo/secret in the manifest, so the secret has nowhere to go''))
      else if ap_deliver A m secret then Inr () else Inl (Server_Error ''gh secret set''))"

text \<open>The secrets are made and delivered one after the other; the first failure ends it.  The list is what was delivered, the map
  what was minted, the later winning.\<close>

fun mint :: "apply_deps \<Rightarrow> bool \<Rightarrow> manifest list \<Rightarrow> nat \<Rightarrow> string list \<Rightarrow> (error + (string \<rightharpoonup> string)) \<times> (string \<times> string) list" where
  "mint A file ms n [] = (Inr Map.empty, [])"
| "mint A file ms n (i # is) =
     (case List.find (\<lambda>m. mf_client m = i) ms of
        None \<Rightarrow> (Inl (Server_Error (''--rotate '' @ i @ '': no manifest'')), [])
      | Some m \<Rightarrow>
          (case deriveClient (ap_parse A) m of
             None \<Rightarrow> (Inl (Server_Error ''Invalid URL''), [])
           | Some c \<Rightarrow>
               (let secret = ap_random A n in
                case (if takesSecret c then deliverSecret A file m secret else Inr ()) of
                  Inl e \<Rightarrow> (Inl e, [])
                | Inr _ \<Rightarrow>
                    (case mint A file ms (Suc n) is of
                       (r, out) \<Rightarrow>
                         (case r of Inl e \<Rightarrow> Inl e | Inr f \<Rightarrow> Inr (\<lambda>x. case f x of Some h \<Rightarrow> Some h | None \<Rightarrow> if x = i then Some (ap_hash A secret) else None),
                          (if takesSecret c then [(i, secret)] else []) @ out)))))"

definition rotates :: "string option \<Rightarrow> plan \<Rightarrow> string option" where
  "rotates r p = (case r of None \<Rightarrow> None | Some i \<Rightarrow> if i \<in> set (map mc_client (pn_create p)) then None else Some i)"

definition clients_tx :: "int \<Rightarrow> plan \<Rightarrow> string option \<Rightarrow> (string \<rightharpoonup> string) \<Rightarrow> client_row list \<Rightarrow> error + client_row list" where
  "clients_tx now p rot minted t =
     (case create_all (map (\<lambda>c. (c, nullish (minted (mc_client c)) '''')) (pn_create p)) t of
        Inl e \<Rightarrow> Inl e
      | Inr t1 \<Rightarrow>
          (let t2 = update_all (pn_update p) t1
           in case rotates rot p of
                None \<Rightarrow> Inr t2
              | Some i \<Rightarrow>
                  if \<not> list_ex (\<lambda>c. cl_client_id c = i) t2 then Inl Db_Missing
                  else Inr (update_many (\<lambda>c. cl_client_id c = i) (rotate_row now (nullish (minted i) '''')) t2)))"

text \<open>\<open>main\<close>, on loaded manifests: the outcome, what was delivered, and the database.\<close>

definition clients_apply ::
  "apply_deps \<Rightarrow> int \<Rightarrow> apply_args \<Rightarrow> manifest list \<Rightarrow> db \<Rightarrow> (error + apply_outcome) \<times> (string \<times> string) list \<times> db"
where
  "clients_apply A now args ms d =
     (let wanted = map (deriveClient (ap_parse A)) ms in
      if None \<in> set wanted then (Inl (Server_Error ''Invalid URL''), [], d)
      else
        (let ws = map the wanted; p = planApply ws (current_clients d);
             rotated = Option.bind (aa_rotate args) (by_id ws);
             drift = pn_create p \<noteq> [] \<or> pn_update p \<noteq> [] \<or> pn_unmanaged p \<noteq> []
         in if \<exists>c \<in> set_option rotated. \<not> takesSecret c
            then (Inl (Server_Error ''a public client has no secret to rotate''), [], d)
            else if aa_check args then (Inr (Exit (if drift then 2 else 0)), [], d)
            else if \<not> aa_apply args then (Inr Dry_Run, [], d)
            else (case mint A (aa_file_sink args) ms 0 (map mc_client (pn_create p) @ (case aa_rotate args of Some i \<Rightarrow> [i] | None \<Rightarrow> [])) of
                    (Inl e, out) \<Rightarrow> (Inl e, out, d)
                  | (Inr minted, out) \<Rightarrow>
                      (case clients_tx now p (aa_rotate args) minted (clients d) of
                         Inl e \<Rightarrow> (Inl e, out, d)
                       | Inr t \<Rightarrow> (Inr (Applied (planApply ws (current_clients (d\<lparr>clients := t\<rparr>)))), out, d\<lparr>clients := t\<rparr>)))))"


section \<open>Applying a plan settles it\<close>

lemma same_value_refl [simp]: "same_value v v"
  by (cases v) auto

definition agrees :: "managed_client \<Rightarrow> managed_client \<Rightarrow> bool" where
  "agrees w r \<longleftrightarrow> (\<forall>f. same_value (field_of f r) (field_of f w))"

lemma all_fields: "f \<in> set MANAGED_FIELDS"
  by (cases f) (auto simp: MANAGED_FIELDS_def)

lemma changes_none: "changes_of row w = [] \<longleftrightarrow> agrees w row"
  using all_fields by (auto simp: changes_of_def map_filter_empty agrees_def split: if_splits)

lemma agrees_refl [simp]: "agrees w w"
  by (simp add: agrees_def)

text \<open>Nothing is to be created or changed exactly when every wanted row is there and agrees.\<close>

lemma plan_settled:
  "pn_create (planApply ws t) = [] \<and> pn_update (planApply ws t) = []
    \<longleftrightarrow> (\<forall>w \<in> set ws. \<exists>r. by_id t (mc_client w) = Some r \<and> agrees w r)"
  by (auto simp: planApply_def map_filter_empty filter_empty_conv changes_none split: option.splits) (metis option.exhaust)+

lemma field_set_field: "field_of g (managed (set_field (f, field_of f w) c)) = (if g = f then field_of f w else field_of g (managed c))"
  by (cases f; cases g) (auto simp: managed_def)

lemma set_field_id [simp]: "cl_client_id (set_field p c) = cl_client_id c"
  by (cases "(p, c)" rule: set_field.cases) auto

text \<open>What a change never touches.\<close>

definition secret_part :: "client_row \<Rightarrow> string \<times> string option \<times> int option" where
  "secret_part c = (cl_secret_hash c, cl_prev_secret_hash c, cl_prev_secret_expires c)"

lemma set_field_secret [simp]: "secret_part (set_field p c) = secret_part c"
  by (cases "(p, c)" rule: set_field.cases) (auto simp: secret_part_def)

lemma apply_changes_id [simp]: "cl_client_id (apply_changes cs c) = cl_client_id c"
  unfolding apply_changes_def by (induction cs arbitrary: c) auto

lemma apply_changes_secret [simp]: "secret_part (apply_changes cs c) = secret_part c"
  unfolding apply_changes_def by (induction cs arbitrary: c) auto

lemma field_apply:
  assumes "\<forall>(f, _, v) \<in> set cs. v = field_of f w"
  shows "field_of g (managed (apply_changes cs c)) = (if g \<in> fst ` set cs then field_of g w else field_of g (managed c))"
  using assms unfolding apply_changes_def
  by (induction cs arbitrary: c) (auto simp: field_set_field)

lemma apply_changes_agrees: "agrees w (managed (apply_changes (changes_of (managed c) w) c))"
proof -
  have "\<forall>(f, _, v) \<in> set (changes_of (managed c) w). v = field_of f w"
    by (auto simp: changes_of_def in_map_filter split: if_splits)
  note f = field_apply [OF this]
  have "g \<in> fst ` set (changes_of (managed c) w) \<longleftrightarrow> \<not> same_value (field_of g (managed c)) (field_of g w)" for g
    using all_fields [of g] by (force simp: changes_of_def in_map_filter image_iff split: if_splits)
  then show ?thesis unfolding agrees_def f by simp
qed


lemma new_client_simps [simp]: "cl_client_id (new_client c h) = mc_client c" "cl_secret_hash (new_client c h) = h"
  by (simp_all add: new_client_def)

lemma create_allD:
  "create_all cs t = Inr t1 \<Longrightarrow> distinct (map cl_client_id t)
    \<Longrightarrow> t1 = t @ map (\<lambda>p. new_client (fst p) (snd p)) cs \<and> distinct (map cl_client_id t1)"
proof (induction cs arbitrary: t)
  case (Cons a cs)
  obtain c h where a: "a = (c, h)" by (cases a)
  from Cons.prems have c: "create_all cs (t @ [new_client c h]) = Inr t1" "mc_client c \<notin> set (map cl_client_id t)"
    by (auto simp: a list_ex_iff split: if_splits)
  have IH: "t1 = (t @ [new_client c h]) @ map (\<lambda>p. new_client (fst p) (snd p)) cs \<and> distinct (map cl_client_id t1)"
    by (rule Cons.IH [OF c(1)]) (use c(2) Cons.prems(2) in simp)
  then have "t1 = t @ map (\<lambda>p. new_client (fst p) (snd p)) (a # cs)" by (simp add: a)
  with IH show ?case by blast
qed simp

definition change_row :: "(string \<times> field_change list) list \<Rightarrow> client_row \<Rightarrow> client_row" where
  "change_row us c = (case map_of us (cl_client_id c) of None \<Rightarrow> c | Some cs \<Rightarrow> apply_changes cs c)"

lemma update_all_map: "distinct (map fst us) \<Longrightarrow> update_all us t = map (change_row us) t"
proof (induction us arbitrary: t)
  case (Cons a us)
  obtain i cs where a: "a = (i, cs)" by (cases a)
  have i: "map_of us i = None" using Cons.prems by (auto simp: a map_of_eq_None_iff)
  have "update_all (a # us) t = map (change_row us) (update_many (\<lambda>c. cl_client_id c = i) (apply_changes cs) t)"
    using Cons by (simp add: update_all_def a)
  also have "\<dots> = map (change_row (a # us)) t"
    using i by (auto simp: update_many_def change_row_def a)
  finally show ?case .
qed (simp add: update_all_def change_row_def map_idI)

lemma change_row_id [simp]: "cl_client_id (change_row us c) = cl_client_id c"
  by (simp add: change_row_def split: option.split)

lemma change_row_secret [simp]: "secret_part (change_row us c) = secret_part c"
  by (simp add: change_row_def split: option.split)

lemma in_plan_update:
  "(i, cs) \<in> set (pn_update (planApply ws t))
    \<longleftrightarrow> (\<exists>w \<in> set ws. \<exists>row. i = mc_client w \<and> by_id t i = Some row \<and> cs = changes_of row w \<and> \<not> agrees w row)"
  by (auto simp: planApply_def in_map_filter Let_def changes_none split: option.split_asm if_split_asm)
    (rule rev_bexI, assumption, simp add: changes_none)

lemma plan_update_ids: "distinct (map mc_client ws) \<Longrightarrow> distinct (map fst (pn_update (planApply ws t)))"
proof (induction ws)
  case (Cons w ws)
  have "fst ` set (pn_update (planApply ws t)) \<subseteq> set (map mc_client ws)" by (auto simp: in_plan_update)
  moreover have "pn_update (planApply (w # ws) t) = (case by_id t (mc_client w) of
      None \<Rightarrow> [] | Some row \<Rightarrow> if changes_of row w = [] then [] else [(mc_client w, changes_of row w)]) @ pn_update (planApply ws t)"
    by (simp add: planApply_def List.map_filter_simps Let_def split: option.split)
  ultimately show ?case using Cons by (auto split: option.splits)
qed (simp add: planApply_def List.map_filter_simps)

lemma by_id_current:
  assumes "distinct (map cl_client_id t)" "c \<in> set t" "\<not> prefix ''dcr_'' (cl_client_id c)"
  shows "by_id (map managed (filter (\<lambda>c. \<not> prefix ''dcr_'' (cl_client_id c)) t)) (cl_client_id c) = Some (managed c)"
  using assms
  by (induction t) (auto simp: by_id_def managed_def)

lemma by_id_managedD:
  assumes "by_id (map managed (filter p t)) i = Some r"
  obtains c where "c \<in> set t" "cl_client_id c = i" "r = managed c"
  using assms by (auto simp: by_id_def managed_def dest!: find_SomeD)

lemma plan_update_lookup:
  assumes "distinct (map mc_client ws)" "w \<in> set ws" "by_id t (mc_client w) = Some row"
  shows "map_of (pn_update (planApply ws t)) (mc_client w) = (if agrees w row then None else Some (changes_of row w))"
proof (cases "agrees w row")
  case True
  have "x = w" if "x \<in> set ws" "mc_client x = mc_client w" for x using distinct_mapD [OF assms(1) that(1) assms(2) that(2)] .
  with True assms(3) have "mc_client w \<notin> fst ` set (pn_update (planApply ws t))"
    by (auto simp: in_plan_update)
  with True show ?thesis by (simp add: map_of_eq_None_iff)
next
  case False
  then have "(mc_client w, changes_of row w) \<in> set (pn_update (planApply ws t))"
    using assms by (auto simp: in_plan_update)
  with False show ?thesis using plan_update_ids [OF assms(1)] by (simp add: map_of_is_SomeI)
qed

lemma change_row_agrees:
  assumes "distinct (map mc_client ws)" "w \<in> set ws" "by_id t (mc_client w) = Some (managed c)" "cl_client_id c = mc_client w"
  shows "agrees w (managed (change_row (pn_update (planApply ws t)) c))"
  using plan_update_lookup [OF assms(1-3)] assms(4) by (simp add: change_row_def apply_changes_agrees)

lemma managed_new [simp]: "managed (new_client c h) = c"
  by (simp add: managed_def new_client_def)

lemma managed_rotate [simp]: "managed (rotate_row now h c) = managed c"
  by (simp add: managed_def rotate_row_def)

lemma rotate_row_id [simp]: "cl_client_id (rotate_row now h c) = cl_client_id c"
  by (simp add: rotate_row_def)

text \<open>The table after the transaction: old rows as the plan changed them, then new ones, and the secret of one turned over.\<close>

definition turned :: "int \<Rightarrow> string option \<Rightarrow> plan \<Rightarrow> (string \<rightharpoonup> string) \<Rightarrow> client_row \<Rightarrow> client_row" where
  "turned now rot p minted c =
     (if rotates rot p = Some (cl_client_id c) then rotate_row now (nullish (minted (cl_client_id c)) '''') c else c)"

lemma turned_simps [simp]: "managed (turned now rot p minted c) = managed c" "cl_client_id (turned now rot p minted c) = cl_client_id c"
  by (simp_all add: turned_def)

definition rows_after :: "int \<Rightarrow> string option \<Rightarrow> plan \<Rightarrow> (string \<rightharpoonup> string) \<Rightarrow> client_row list \<Rightarrow> client_row list" where
  "rows_after now rot p minted t =
     map (turned now rot p minted)
       (map (change_row (pn_update p)) (t @ map (\<lambda>c. new_client c (nullish (minted (mc_client c)) '''')) (pn_create p)))"

lemma in_rows_after:
  "c \<in> set (rows_after now rot p minted t)
    \<longleftrightarrow> (\<exists>b. (b \<in> set t \<or> (\<exists>w \<in> set (pn_create p). b = new_client w (nullish (minted (mc_client w)) '''')))
          \<and> c = turned now rot p minted (change_row (pn_update p) b))"
  by (auto simp: rows_after_def)

lemma clients_txD:
  assumes "clients_tx now p rot minted t = Inr t'" and "distinct (map cl_client_id t)" and "distinct (map fst (pn_update p))"
  shows "t' = rows_after now rot p minted t \<and> distinct (map cl_client_id t')"
proof -
  let ?cs = "map (\<lambda>c. (c, nullish (minted (mc_client c)) '''')) (pn_create p)"
  obtain t1 where t1: "create_all ?cs t = Inr t1" using assms(1) by (auto simp: clients_tx_def split: sum.splits)
  note t1' = create_allD [OF t1 assms(2)]
  have e: "t1 = t @ map (\<lambda>c. new_client c (nullish (minted (mc_client c)) '''')) (pn_create p)" using t1' by (simp add: comp_def)
  have d: "distinct (map cl_client_id t1)" using t1' by blast
  have t': "t' = map (turned now rot p minted) (map (change_row (pn_update p)) t1)"
    using assms(1) t1 by (auto simp: clients_tx_def turned_def map_idI update_all_map [OF assms(3)] update_many_def Let_def split: option.splits if_splits)
  moreover have "map cl_client_id t' = map cl_client_id t1" unfolding t' by simp
  ultimately show ?thesis using d unfolding rows_after_def e by (simp only: conj_assoc)
qed

lemma complain_empty [simp]: "complain b msg = [] \<longleftrightarrow> \<not> b"
  by (simp add: complain_def)

lemma deriveClient_id: "deriveClient pu m = Some c \<Longrightarrow> mc_client c = mf_client m"
  by (auto simp: deriveClient_def deriveMachine_def Let_def split: if_splits option.splits)

lemma loadedD:
  assumes "loadManifests pu files = Inr ms" "m \<in> set ms"
  obtains f where "(f, Some m) \<in> set files" "manifestProblems pu m f FAMILY_DOMAINS = []"
  using assms by (fastforce simp: loadManifests_def in_map_filter Let_def split: if_splits)

lemma loaded_file: "manifestProblems pu m f fd = [] \<Longrightarrow> f = mf_client m @ ''.json'' \<and> \<not> prefix ''dcr_'' (mf_client m)"
  by (simp add: manifestProblems_def identityProblems_def idProblems_def)

lemma loaded_ids:
  assumes "loadManifests pu files = Inr ms" "distinct (map fst files)"
  shows "distinct (map mf_client ms)"
proof -
  have ms: "ms = List.map_filter snd files" using assms(1) by (auto simp: loadManifests_def Let_def split: if_splits)
  have "\<forall>(f, m) \<in> set files. \<forall>x. m = Some x \<longrightarrow> f = mf_client x @ ''.json''"
    using assms(1) by (fastforce simp: loadManifests_def Let_def dest: loaded_file split: if_splits)
  then show ?thesis unfolding ms using assms(2)
  proof (induction files)
    case (Cons a files)
    have "mf_client x @ ''.json'' \<in> fst ` set files" if "x \<in> set (List.map_filter snd files)" for x
      using that Cons.prems(1) by (force simp: in_map_filter)
    with Cons show ?case by (cases a) (auto simp: List.map_filter_simps split: option.split)
  qed (simp add: List.map_filter_simps)
qed

lemma clients_applyD:
  assumes "clients_apply A now args ms d = (Inr (Applied after), out, d')"
  obtains ws minted where "ws = map (\<lambda>m. the (deriveClient (ap_parse A) m)) ms" "\<forall>m \<in> set ms. deriveClient (ap_parse A) m \<noteq> None"
    and "mint A (aa_file_sink args) ms 0 (map mc_client (pn_create (planApply ws (current_clients d)))
      @ (case aa_rotate args of Some i \<Rightarrow> [i] | None \<Rightarrow> [])) = (Inr minted, out)"
    and "clients_tx now (planApply ws (current_clients d)) (aa_rotate args) minted (clients d) = Inr (clients d')"
    and "after = planApply ws (current_clients d')" "d' = d\<lparr>clients := clients d'\<rparr>"
proof -
  let ?ws = "map (\<lambda>m. the (deriveClient (ap_parse A) m)) ms" and ?p = "planApply (map (\<lambda>m. the (deriveClient (ap_parse A) m)) ms) (current_clients d)"
  have n: "\<forall>m \<in> set ms. deriveClient (ap_parse A) m \<noteq> None"
    using assms by (auto simp: clients_apply_def Let_def image_iff split: if_splits) (metis option.exhaust)
  obtain minted o' where m: "mint A (aa_file_sink args) ms 0 (map mc_client (pn_create ?p) @ (case aa_rotate args of Some i \<Rightarrow> [i] | None \<Rightarrow> [])) = (Inr minted, o')"
    using assms by (auto simp: clients_apply_def Let_def comp_def split: if_splits prod.splits sum.splits)
  obtain t where t: "clients_tx now ?p (aa_rotate args) minted (clients d) = Inr t"
    using assms m by (auto simp: clients_apply_def Let_def comp_def split: if_splits prod.splits sum.splits)
  have "out = o' \<and> d' = d\<lparr>clients := t\<rparr> \<and> after = planApply ?ws (current_clients d')"
    using assms m t by (auto simp: clients_apply_def Let_def comp_def split: if_splits)
  with n m t show ?thesis using that [of ?ws minted] by simp
qed

text \<open>A failed run writes nothing, wherever it fails.\<close>

lemma failed_apply_keeps: "fst (clients_apply A now args ms d) = Inl e \<Longrightarrow> snd (snd (clients_apply A now args ms d)) = d"
  by (auto simp: clients_apply_def Let_def split: if_splits prod.splits sum.splits)

lemma mint_rotate:
  "mint A file ms n is = (Inr f, out) \<Longrightarrow> i \<in> set is
    \<Longrightarrow> \<exists>m c s. m \<in> set ms \<and> mf_client m = i \<and> deriveClient (ap_parse A) m = Some c \<and> f i = Some (ap_hash A s)
      \<and> (takesSecret c \<longrightarrow> (i, s) \<in> set out)"
proof (induction "is" arbitrary: n f out)
  case (Cons j js)
  from Cons.prems(1) obtain m c f' out' where m: "List.find (\<lambda>m. mf_client m = j) ms = Some m" "deriveClient (ap_parse A) m = Some c"
    and r: "mint A file ms (Suc n) js = (Inr f', out')"
    and f: "f = (\<lambda>x. case f' x of Some h \<Rightarrow> Some h | None \<Rightarrow> if x = j then Some (ap_hash A (ap_random A n)) else None)"
    and out: "out = (if takesSecret c then [(j, ap_random A n)] else []) @ out'"
    by (auto simp: Let_def split: option.splits if_splits sum.splits prod.splits)
  show ?case
  proof (cases "i \<in> set js")
    case True
    from Cons.IH [OF r True] obtain m' c' s where "m' \<in> set ms" "mf_client m' = i" "deriveClient (ap_parse A) m' = Some c'"
      "f' i = Some (ap_hash A s)" "takesSecret c' \<longrightarrow> (i, s) \<in> set out'" by blast
    then show ?thesis using f out by (intro exI [of _ m'] exI [of _ c'] exI [of _ s]) auto
  next
    case False
    then have "i = j" using Cons.prems(2) by simp
    moreover have "f' x = None" if "x \<notin> set js" for x using r that
    proof (induction js arbitrary: n f' out')
      case (Cons k ks)
      then show ?case by (auto simp: Let_def split: option.splits if_splits sum.splits prod.splits)
    qed auto
    ultimately show ?thesis using m f out False find_SomeD [OF m(1)] by (intro exI [of _ m] exI [of _ c] exI [of _ "ap_random A n"]) auto
  qed
qed simp


lemma mint_delivered:
  "mint A file ms n is = (r, out) \<Longrightarrow> (i, s) \<in> set out
    \<Longrightarrow> \<exists>m c. m \<in> set ms \<and> mf_client m = i \<and> deriveClient (ap_parse A) m = Some c \<and> takesSecret c"
proof (induction "is" arbitrary: n r out)
  case (Cons j js)
  then show ?case
    by (auto simp: Let_def dest!: find_SomeD split: option.splits if_splits sum.splits prod.splits) blast+
qed simp

text \<open>A row of the database after a run: an old row as the plan changed it, or a new one; turned over where its secret was.\<close>

lemma applied_rows:
  assumes "clients_apply A now args ms d = (Inr (Applied after), out, d')"
    and "loadManifests (ap_parse A) files = Inr ms" and "distinct (map fst files)" and "distinct (map cl_client_id (clients d))"
    and ws: "ws = map (\<lambda>m. the (deriveClient (ap_parse A) m)) ms" and p: "p = planApply ws (current_clients d)"
  shows "\<exists>minted. clients d' = rows_after now (aa_rotate args) p minted (clients d)
    \<and> mint A (aa_file_sink args) ms 0 (map mc_client (pn_create p) @ (case aa_rotate args of Some i \<Rightarrow> [i] | None \<Rightarrow> [])) = (Inr minted, out)"
    and "distinct (map cl_client_id (clients d'))" and "map mc_client ws = map mf_client ms" and "distinct (map mc_client ws)"
    and "after = planApply ws (current_clients d')" and "d' = d\<lparr>clients := clients d'\<rparr>"
    and "\<forall>m \<in> set ms. deriveClient (ap_parse A) m \<noteq> None"
proof -
  from clients_applyD [OF assms(1)] obtain ws' minted where ws': "ws' = map (\<lambda>m. the (deriveClient (ap_parse A) m)) ms"
    and n: "\<forall>m \<in> set ms. deriveClient (ap_parse A) m \<noteq> None"
    and m: "mint A (aa_file_sink args) ms 0 (map mc_client (pn_create (planApply ws' (current_clients d)))
      @ (case aa_rotate args of Some i \<Rightarrow> [i] | None \<Rightarrow> [])) = (Inr minted, out)"
    and t: "clients_tx now (planApply ws' (current_clients d)) (aa_rotate args) minted (clients d) = Inr (clients d')"
    and a: "after = planApply ws' (current_clients d')" "d' = d\<lparr>clients := clients d'\<rparr>" .
  have e: "ws' = ws" using ws ws' by simp
  show ids: "map mc_client ws = map mf_client ms" using n deriveClient_id unfolding ws by fastforce
  then show dw: "distinct (map mc_client ws)" using loaded_ids [OF assms(2,3)] by simp
  have "distinct (map fst (pn_update p))" unfolding p by (rule plan_update_ids [OF dw])
  from clients_txD [OF t assms(4)] this have x: "clients d' = rows_after now (aa_rotate args) p minted (clients d)"
    "distinct (map cl_client_id (clients d'))" unfolding e p by blast+
  show "distinct (map cl_client_id (clients d'))" by (rule x(2))
  from x(1) m show "\<exists>minted. clients d' = rows_after now (aa_rotate args) p minted (clients d)
    \<and> mint A (aa_file_sink args) ms 0 (map mc_client (pn_create p) @ (case aa_rotate args of Some i \<Rightarrow> [i] | None \<Rightarrow> [])) = (Inr minted, out)"
    unfolding e p by blast
  show "after = planApply ws (current_clients d')" "d' = d\<lparr>clients := clients d'\<rparr>" "\<forall>m \<in> set ms. deriveClient (ap_parse A) m \<noteq> None"
    using a n e by simp_all
qed

lemma apply_settles_facts:
  assumes "clients_apply A now args ms d = (Inr (Applied after), out, d')"
    and "loadManifests (ap_parse A) files = Inr ms" and "distinct (map fst files)" and "distinct (map cl_client_id (clients d))"
  shows "pn_create after = [] \<and> pn_update after = []"
    and "\<forall>m \<in> set ms. \<exists>w c. deriveClient (ap_parse A) m = Some w \<and> c \<in> set (clients d') \<and> cl_client_id c = mf_client m \<and> agrees w (managed c)"
    and "c \<in> set (clients d) \<Longrightarrow> cl_client_id c \<notin> mf_client ` set ms \<Longrightarrow> c \<in> set (clients d')"
proof -
  define ws where "ws = map (\<lambda>m. the (deriveClient (ap_parse A) m)) ms"
  let ?p = "planApply ws (current_clients d)"
  note rows = applied_rows [OF assms ws_def refl]
  from rows(1) obtain minted where r: "clients d' = rows_after now (aa_rotate args) ?p minted (clients d)"
    and mint: "mint A (aa_file_sink args) ms 0 (map mc_client (pn_create ?p) @ (case aa_rotate args of Some i \<Rightarrow> [i] | None \<Rightarrow> [])) = (Inr minted, out)"
    by blast
  let ?rot = "turned now (aa_rotate args) ?p minted"
  note dist = rows(2) and ids = rows(3) and dw = rows(4) and after = rows(5)
  have dcr: "\<not> prefix ''dcr_'' (mc_client w)" if "w \<in> set ws" for w
  proof -
    from that ids obtain m where "m \<in> set ms" "mc_client w = mf_client m" by (metis image_eqI image_set imageE)
    then show ?thesis using loadedD [OF assms(2)] loaded_file by metis
  qed
  have found: "\<exists>c \<in> set (clients d'). cl_client_id c = mc_client w \<and> agrees w (managed c)" if w: "w \<in> set ws" for w
  proof (cases "by_id (current_clients d) (mc_client w)")
    case None
    then have "w \<in> set (pn_create ?p)" using w by (simp add: planApply_def)
    moreover have "change_row (pn_update ?p) (new_client w h) = new_client w h" for h
      using None by (force simp: change_row_def in_plan_update dest: map_of_SomeD split: option.split)
    ultimately have "?rot (new_client w (nullish (minted (mc_client w)) '''')) \<in> set (clients d')"
      unfolding r in_rows_after by (intro exI [of _ "new_client w (nullish (minted (mc_client w)) '''')"]) auto
    then show ?thesis by (rule rev_bexI) simp
  next
    case (Some row)
    then obtain c where c: "c \<in> set (clients d)" "cl_client_id c = mc_client w" "row = managed c"
      unfolding current_clients_def by (rule by_id_managedD)
    have "agrees w (managed (change_row (pn_update ?p) c))"
      using change_row_agrees [OF dw w] Some c by simp
    moreover have "?rot (change_row (pn_update ?p) c) \<in> set (clients d')" using c(1) unfolding r in_rows_after by blast
    ultimately show ?thesis using c(2) by (auto intro: rev_bexI)
  qed
  have "\<exists>r. by_id (current_clients d') (mc_client w) = Some r \<and> agrees w r" if "w \<in> set ws" for w
    using found [OF that] by_id_current [OF dist] dcr [OF that] unfolding current_clients_def by metis
  then show "pn_create after = [] \<and> pn_update after = []" unfolding after plan_settled by blast
  show "\<forall>m \<in> set ms. \<exists>w c. deriveClient (ap_parse A) m = Some w \<and> c \<in> set (clients d') \<and> cl_client_id c = mf_client m \<and> agrees w (managed c)"
  proof
    fix m assume m: "m \<in> set ms"
    obtain w where w: "deriveClient (ap_parse A) m = Some w" using rows(7) m by auto
    then have "w \<in> set ws" using m unfolding ws_def by force
    from found [OF this] deriveClient_id [OF w] w
    show "\<exists>w c. deriveClient (ap_parse A) m = Some w \<and> c \<in> set (clients d') \<and> cl_client_id c = mf_client m \<and> agrees w (managed c)" by metis
  qed
  assume c: "c \<in> set (clients d)" "cl_client_id c \<notin> mf_client ` set ms"
  then have out: "cl_client_id c \<notin> set (map mc_client ws)" using ids by simp
  then have "change_row (pn_update ?p) c = c"
    by (auto simp: change_row_def in_plan_update dest!: map_of_SomeD split: option.split)
  moreover have "rotates (aa_rotate args) ?p \<noteq> Some (cl_client_id c)"
  proof
    assume r: "rotates (aa_rotate args) ?p = Some (cl_client_id c)"
    then have "aa_rotate args = Some (cl_client_id c)" by (auto simp: rotates_def split: option.splits if_splits)
    then obtain m where "m \<in> set ms" "mf_client m = cl_client_id c" using mint_rotate [OF mint, of "cl_client_id c"] by auto
    with c(2) show False by (metis image_eqI)
  qed
  ultimately have "c = ?rot (change_row (pn_update ?p) c)" by (simp add: turned_def)
  then show "c \<in> set (clients d')" using c(1) unfolding r in_rows_after by blast
qed

text \<open>C34. Applying the manifests settles them: after a run that wrote, every client the manifests name is in the database as they
  mean it, so another run would create nothing and change nothing; and every client no manifest names, self-registered
  ones among them, is as it was.\<close>

theorem apply_settles:
  assumes "clients_apply A now args ms d = (Inr (Applied after), out, d')"
    and "loadManifests (ap_parse A) files = Inr ms" and "distinct (map fst files)" and "distinct (map cl_client_id (clients d))"
  shows "pn_create after = [] \<and> pn_update after = []
    \<and> (\<forall>m \<in> set ms. \<exists>w c. deriveClient (ap_parse A) m = Some w \<and> c \<in> set (clients d') \<and> cl_client_id c = mf_client m \<and> agrees w (managed c))
    \<and> (\<forall>c \<in> set (clients d). cl_client_id c \<notin> mf_client ` set ms \<longrightarrow> c \<in> set (clients d'))"
  using apply_settles_facts [OF assms] by blast

section \<open>What a loaded manifest may mean\<close>

definition good_url :: "(string \<Rightarrow> url option) \<Rightarrow> manifest \<Rightarrow> string \<Rightarrow> bool" where
  "good_url pu m u \<longleftrightarrow>
     (case pu u of None \<Rightarrow> False
      | Some x \<Rightarrow> url_protocol x = ''https:'' \<and> url_username x = [] \<and> url_password x = [] \<and> url_hash x = []
                  \<and> (familyCheck FAMILY_DOMAINS (url_hostname x) \<or> truthy (mf_outside m)))"

text \<open>Where a code may go: a redirect the manifest names, or the callback path at an origin it names.\<close>

definition safe_redirect :: "(string \<Rightarrow> url option) \<Rightarrow> manifest \<Rightarrow> string \<Rightarrow> bool" where
  "safe_redirect pu m u \<longleftrightarrow> u \<in> set (nullish (override ov_extra m) []) \<and> good_url pu m u
     \<or> (let path = nullish (override ov_callback m) CALLBACK_PATH
        in (path = [] \<or> hd path = CHR ''/'')
           \<and> (\<exists>w x. w \<in> set (nullish (mf_origins m) []) \<and> good_url pu m w \<and> pu w = Some x \<and> u = url_origin x @ path))"

text \<open>An https address on one of the family's domains, whatever the manifest says of other domains.\<close>

definition https_of_family :: "(string \<Rightarrow> url option) \<Rightarrow> string \<Rightarrow> bool" where
  "https_of_family pu u \<longleftrightarrow> (\<exists>x. pu u = Some x \<and> url_protocol x = ''https:'' \<and> url_username x = [] \<and> url_password x = [] \<and> url_hash x = []
     \<and> (\<exists>h \<in> set FAMILY_DOMAINS. url_hostname x = h \<or> suffix (''.'' @ h) (url_hostname x)))"

lemma good_family_url: "mf_outside m = None \<Longrightarrow> good_url pu m u \<Longrightarrow> https_of_family pu u"
  by (auto simp: good_url_def https_of_family_def familyCheck_def list_ex_iff split: option.splits)

lemma urlProblem_none: "urlProblem pu u m FAMILY_DOMAINS = None \<longleftrightarrow> good_url pu m u"
  by (auto simp: urlProblem_def good_url_def split: option.splits if_splits)

lemma origins_ofD: "origins_of pu os = Some xs \<Longrightarrow> x \<in> set xs \<Longrightarrow> \<exists>u y. u \<in> set os \<and> pu u = Some y \<and> x = url_origin y"
  by (induction os arbitrary: xs) (fastforce split: option.splits)+

lemma baseline_scopes: "s \<in> set BASELINE_SCOPES \<Longrightarrow> scope_name s"
  by (auto simp: BASELINE_SCOPES_def scope_name_def scope_word_def is_lower_def is_digit_def Let_def)

lemma loaded_client_facts:
  assumes "loadManifests pu files = Inr ms" and "m \<in> set ms" and "deriveClient pu m = Some c"
  shows "mf_kind m = Some ''machine'' \<Longrightarrow> mc_redirects c = [] \<and> mc_grants c = [''client_credentials''] \<and> \<not> mc_public c
      \<and> set (mc_scopes c) \<inter> set BASELINE_SCOPES = {}
      \<and> (\<forall>a \<in> set (mc_audiences c). a \<in> set (nullish (mf_audiences m) []) \<and> https_of_family pu a)"
    and "mc_public c \<Longrightarrow> mc_auth c = ''none'' \<and> mc_backchannel c = None \<and> set (mc_grants c) \<inter> set CONFIDENTIAL_ONLY_GRANTS = {}
      \<and> mf_secret m = None"
    and "''offline_access'' \<in> set (mc_scopes c) \<Longrightarrow> ''refresh_token'' \<in> set (mc_grants c)"
    and "\<forall>s \<in> set (mc_scopes c). scope_name s"
    and "\<forall>u \<in> set (mc_redirects c). safe_redirect pu m u"
    and "\<not> prefix ''dcr_'' (mc_client c) \<and> mc_client c \<notin> set SYSTEM_CLIENT_IDS"
proof -
  obtain f where "manifestProblems pu m f FAMILY_DOMAINS = []" using loadedD [OF assms(1,2)] .
  then have ip: "idProblems m f = []" and shape: "(if mf_kind m = Some ''machine'' then machineProblems pu m FAMILY_DOMAINS else urlProblems pu m FAMILY_DOMAINS) = []"
    and ov: "overrideProblems pu m = []"
    by (simp_all add: manifestProblems_def identityProblems_def)
  show machine: "mf_kind m = Some ''machine'' \<Longrightarrow> mc_redirects c = [] \<and> mc_grants c = [''client_credentials''] \<and> \<not> mc_public c
      \<and> set (mc_scopes c) \<inter> set BASELINE_SCOPES = {}
      \<and> (\<forall>a \<in> set (mc_audiences c). a \<in> set (nullish (mf_audiences m) []) \<and> https_of_family pu a)"
    using shape assms(3)
    by (auto simp: deriveClient_def deriveMachine_def machineProblems_def complain_def MACHINE_GRANTS_def list_ex_iff map_filter_empty urlProblem_none
        intro: good_family_url split: if_splits)
  show "mc_public c \<Longrightarrow> mc_auth c = ''none'' \<and> mc_backchannel c = None \<and> set (mc_grants c) \<inter> set CONFIDENTIAL_ONLY_GRANTS = {}
      \<and> mf_secret m = None"
  proof -
    assume p: "mc_public c"
    then have k: "mf_kind m \<noteq> Some ''machine''" using assms(3) by (auto simp: deriveClient_def deriveMachine_def)
    have c: "override ov_public m = Some True" "mc_auth c = ''none''"
      and b: "\<exists>os. mc_backchannel c = backchannelOf m os"
      using assms(3) p k by (auto simp: deriveClient_def Let_def split: option.splits)
    have "publicProblems m c = []" using ov k assms(3) by (simp add: overrideProblems_def derivedProblems_def Let_def)
    with c(1) have q: "mf_secret m = None" "filter (\<lambda>g. g \<in> set CONFIDENTIAL_ONLY_GRANTS) (mc_grants c) = []" "override ov_backchannel m = Some None"
      by (simp_all add: publicProblems_def)
    with b c(2) show ?thesis by (auto simp: backchannelOf_def override_def filter_empty_conv)
  qed
  show "''offline_access'' \<in> set (mc_scopes c) \<Longrightarrow> ''refresh_token'' \<in> set (mc_grants c)"
  proof (cases "mf_kind m = Some ''machine''")
    case True
    moreover assume "''offline_access'' \<in> set (mc_scopes c)"
    moreover have "''offline_access'' \<in> set BASELINE_SCOPES" by (simp add: BASELINE_SCOPES_def)
    ultimately have False using machine by blast
    then show ?thesis ..
  next
    case False
    moreover assume "''offline_access'' \<in> set (mc_scopes c)"
    ultimately show ?thesis using ov assms(3) by (simp add: overrideProblems_def derivedProblems_def Let_def)
  qed
  show "\<forall>s \<in> set (mc_scopes c). scope_name s"
  proof
    fix s assume s: "s \<in> set (mc_scopes c)"
    have listed: "\<forall>s \<in> set (nullish (mf_scopes m) []) \<union> set (nullish (override ov_scopes m) []). scope_name s"
      using ov by (auto simp: overrideProblems_def filter_empty_conv Let_def split: if_splits)
    have "s \<in> set BASELINE_SCOPES \<union> set (nullish (mf_scopes m) []) \<union> set (nullish (override ov_scopes m) [])"
      using assms(3) s by (cases "override ov_scopes m") (auto simp: deriveClient_def deriveMachine_def Let_def split: if_splits option.splits)
    with listed baseline_scopes show "scope_name s" by blast
  qed
  show "\<not> prefix ''dcr_'' (mc_client c) \<and> mc_client c \<notin> set SYSTEM_CLIENT_IDS"
    using ip deriveClient_id [OF assms(3)] by (simp add: idProblems_def)
  show "\<forall>u \<in> set (mc_redirects c). safe_redirect pu m u"
  proof (cases "mf_kind m = Some ''machine''")
    case True
    then show ?thesis using assms(3) by (auto simp: deriveClient_def deriveMachine_def)
  next
    case False
    then have urls: "\<forall>u \<in> set (nullish (mf_origins m) []) \<union> set (nullish (override ov_extra m) []). good_url pu m u"
      using shape by (auto simp: urlProblems_def map_filter_empty urlProblem_none Let_def split: if_splits)
    let ?cb = "nullish (override ov_callback m) CALLBACK_PATH"
    have cb: "?cb = [] \<or> hd ?cb = CHR ''/''"
    proof (cases "override ov_callback m")
      case (Some k)
      then obtain v where v: "mf_overrides m = Some v" "ov_callback v = Some k" by (auto simp: override_def split: bind_splits)
      then have "k = [] \<or> prefix ''/'' k" using ov False by (cases k) (auto simp: overrideProblems_def overrideFieldProblems_def Let_def split: if_splits)
      with Some show ?thesis by (cases k) auto
    qed (simp add: CALLBACK_PATH_def)
    obtain os where os: "origins_of pu (nullish (mf_origins m) []) = Some os"
      and c: "mc_redirects c = uniq (map (\<lambda>x. x @ ?cb) os @ nullish (override ov_extra m) [])"
      using assms(3) False by (auto simp: deriveClient_def Let_def split: option.splits)
    show ?thesis
    proof
      fix u assume "u \<in> set (mc_redirects c)"
      then consider "u \<in> set (nullish (override ov_extra m) [])" | x where "x \<in> set os" "u = x @ ?cb" using c by auto
      then show "safe_redirect pu m u"
        unfolding safe_redirect_def Let_def using urls cb origins_ofD [OF os] by cases blast+
    qed
  qed
qed


text \<open>C35. What the manifests load to is within the rules of the house: a machine client only calls, at https addresses its manifest
  names on the family's own domains, and has no redirect and no scope of a person; a public client cannot hold a grant that needs a secret and is told of
  no sign-out; a refresh scope comes with the refresh grant; and a code only ever goes to an https address the manifest
  names, without credentials or fragment, on the family's domains unless a reason is given, or to the callback path at such
  an origin.\<close>

theorem loaded_clients_are_safe:
  assumes "loadManifests pu files = Inr ms" and "m \<in> set ms" and "deriveClient pu m = Some c"
  shows "(if mf_kind m = Some ''machine''
      then mc_redirects c = [] \<and> mc_grants c = [''client_credentials''] \<and> \<not> mc_public c
        \<and> set (mc_scopes c) \<inter> set BASELINE_SCOPES = {}
      \<and> (\<forall>a \<in> set (mc_audiences c). a \<in> set (nullish (mf_audiences m) []) \<and> https_of_family pu a)
      else \<forall>u \<in> set (mc_redirects c). safe_redirect pu m u)
    \<and> (mc_public c \<longrightarrow> mc_auth c = ''none'' \<and> mc_backchannel c = None \<and> set (mc_grants c) \<inter> set CONFIDENTIAL_ONLY_GRANTS = {} \<and> mf_secret m = None)
    \<and> (''offline_access'' \<in> set (mc_scopes c) \<longrightarrow> ''refresh_token'' \<in> set (mc_grants c))
    \<and> (\<forall>s \<in> set (mc_scopes c). scope_name s) \<and> \<not> prefix ''dcr_'' (mc_client c) \<and> mc_client c \<notin> set SYSTEM_CLIENT_IDS"
proof -
  note facts = loaded_client_facts [OF assms]
  have "if mf_kind m = Some ''machine''
      then mc_redirects c = [] \<and> mc_grants c = [''client_credentials''] \<and> \<not> mc_public c
        \<and> set (mc_scopes c) \<inter> set BASELINE_SCOPES = {}
      \<and> (\<forall>a \<in> set (mc_audiences c). a \<in> set (nullish (mf_audiences m) []) \<and> https_of_family pu a)
      else \<forall>u \<in> set (mc_redirects c). safe_redirect pu m u"
    using facts(1,5) by (cases "mf_kind m = Some ''machine''") simp_all
  with facts(2-4,6) show ?thesis by blast
qed

section \<open>Secrets\<close>

lemma applied_rotates_secret:
  assumes "clients_apply A now args ms d = (Inr (Applied after), out, d')" and "aa_rotate args = Some i"
    and "distinct (map mc_client ws)" and ws: "ws = map (\<lambda>m. the (deriveClient (ap_parse A) m)) ms" and "w \<in> set ws" "mc_client w = i"
  shows "takesSecret w"
proof -
  have "by_id ws i = Some w"
    using assms(3,5,6) by (induction ws) (auto simp: by_id_def)
  then have "by_id (map the (map (deriveClient (ap_parse A)) ms)) i = Some w" unfolding ws by (simp add: comp_def)
  then show ?thesis using assms(1,2) by (auto simp: clients_apply_def Let_def split: if_splits)
qed

lemma find_one:
  assumes "distinct (map f t)" "c \<in> set t" "P c" "\<And>x. P x \<Longrightarrow> f x = f c"
  shows "List.find P t = Some c"
proof (rule find_unique)
  show "c \<in> set t" "P c" using assms by simp_all
  fix x assume "x \<in> set t" "P x"
  then show "x = c" using distinct_mapD [OF assms(1) _ assms(2)] assms(4) by blast
qed

lemma minted_of:
  assumes "mint A file ms 0 is = (Inr minted, out)" "i \<in> set is" "distinct (map mf_client ms)" "m \<in> set ms" "mf_client m = i"
    "deriveClient (ap_parse A) m = Some w"
  shows "\<exists>s. minted i = Some (ap_hash A s) \<and> (takesSecret w \<longrightarrow> (i, s) \<in> set out)"
proof -
  obtain m' w' s where "m' \<in> set ms" "mf_client m' = i" "deriveClient (ap_parse A) m' = Some w'" "minted i = Some (ap_hash A s)"
    "takesSecret w' \<longrightarrow> (i, s) \<in> set out" using mint_rotate [OF assms(1,2)] by blast
  moreover from this have "m' = m" using distinct_mapD [OF assms(3) _ assms(4)] assms(5) by simp
  ultimately show ?thesis using assms(6) by auto
qed

text \<open>A secret is stored only once it has been delivered, and delivered to nobody but its client: whatever is delivered is
  for a client of a manifest that takes one; a new client that takes a secret holds the hash of one that was delivered to it;
  and no row that is not turned over changes its secret.\<close>

theorem secrets_delivered_first:
  assumes "clients_apply A now args ms d = (Inr (Applied after), out, d')"
    and "loadManifests (ap_parse A) files = Inr ms" and "distinct (map fst files)" and "distinct (map cl_client_id (clients d))"
    and "c \<in> set (clients d')"
  shows "(i, s) \<in> set out \<Longrightarrow> \<exists>m w. m \<in> set ms \<and> mf_client m = i \<and> deriveClient (ap_parse A) m = Some w \<and> takesSecret w"
    and "cl_client_id c \<notin> cl_client_id ` set (clients d) \<Longrightarrow> takesSecret (managed c) \<Longrightarrow>
      \<exists>s. (cl_client_id c, s) \<in> set out \<and> cl_secret_hash c = ap_hash A s"
    and "b \<in> set (clients d) \<Longrightarrow> cl_client_id b = cl_client_id c \<Longrightarrow> aa_rotate args \<noteq> Some (cl_client_id c) \<Longrightarrow> secret_part c = secret_part b"
proof -
  define ws where "ws = map (\<lambda>m. the (deriveClient (ap_parse A) m)) ms"
  let ?p = "planApply ws (current_clients d)"
  note rows = applied_rows [OF assms(1-4) ws_def refl]
  from rows(1) obtain minted where r: "clients d' = rows_after now (aa_rotate args) ?p minted (clients d)"
    and mint: "mint A (aa_file_sink args) ms 0 (map mc_client (pn_create ?p) @ (case aa_rotate args of Some i \<Rightarrow> [i] | None \<Rightarrow> [])) = (Inr minted, out)"
    by blast
  show "(i, s) \<in> set out \<Longrightarrow> \<exists>m w. m \<in> set ms \<and> mf_client m = i \<and> deriveClient (ap_parse A) m = Some w \<and> takesSecret w"
    using mint_delivered [OF mint] by blast
  obtain b' where b': "b' \<in> set (clients d) \<or> (\<exists>w \<in> set (pn_create ?p). b' = new_client w (nullish (minted (mc_client w)) ''''))"
    and c: "c = turned now (aa_rotate args) ?p minted (change_row (pn_update ?p) b')"
    using assms(5) unfolding r in_rows_after by blast
  have id: "cl_client_id b' = cl_client_id c" by (simp add: c)
  show "\<exists>s. (cl_client_id c, s) \<in> set out \<and> cl_secret_hash c = ap_hash A s"
    if new: "cl_client_id c \<notin> cl_client_id ` set (clients d)" and secret: "takesSecret (managed c)"
  proof -
    from new id have "b' \<notin> set (clients d)" by (metis image_eqI)
    with b' obtain w where w: "w \<in> set (pn_create ?p)" "b' = new_client w (nullish (minted (mc_client w)) '''')" by blast
    then have ww: "w \<in> set ws" "by_id (current_clients d) (mc_client w) = None" by (auto simp: planApply_def)
    then have "change_row (pn_update ?p) b' = b'"
      using w(2) by (auto simp: change_row_def in_plan_update dest!: map_of_SomeD split: option.split)
    moreover have "rotates (aa_rotate args) ?p \<noteq> Some (cl_client_id b')"
      using w by (auto simp: rotates_def split: option.splits)
    ultimately have cb: "c = b'" by (simp add: c turned_def)
    from ww(1) obtain m where m: "m \<in> set ms" "deriveClient (ap_parse A) m = Some w" using rows(7) unfolding ws_def by force
    have "mc_client w = cl_client_id c" using w(2) cb by simp
    moreover obtain s where "minted (mc_client w) = Some (ap_hash A s)" "takesSecret w \<longrightarrow> (mc_client w, s) \<in> set out"
      using minted_of [OF mint _ loaded_ids [OF assms(2,3)] m(1) deriveClient_id [OF m(2), symmetric] m(2)] w(1) by auto
    ultimately show ?thesis using secret w(2) cb by auto
  qed
  show "secret_part c = secret_part b"
    if "b \<in> set (clients d)" "cl_client_id b = cl_client_id c" "aa_rotate args \<noteq> Some (cl_client_id c)"
  proof -
    have "b' = b"
      using b'
    proof
      assume "b' \<in> set (clients d)"
      then show ?thesis using distinct_mapD [OF assms(4) _ that(1)] id that(2) by simp
    next
      assume "\<exists>w \<in> set (pn_create ?p). b' = new_client w (nullish (minted (mc_client w)) '''')"
      then obtain w where w: "w \<in> set ws" "by_id (current_clients d) (mc_client w) = None" "mc_client w = cl_client_id c"
        using id by (auto simp: planApply_def)
      from w(1) rows(3) obtain m where "m \<in> set ms" "mc_client w = mf_client m" by (metis image_eqI image_set imageE)
      then have "\<not> prefix ''dcr_'' (cl_client_id b)" using loadedD [OF assms(2)] loaded_file w(3) that(2) by metis
      then show ?thesis using by_id_current [OF assms(4) that(1)] w(2,3) that(2) by (simp add: current_clients_def)
    qed
    moreover have "rotates (aa_rotate args) ?p \<noteq> Some (cl_client_id c)" using that(3) by (auto simp: rotates_def split: option.splits if_splits)
    then have "turned now (aa_rotate args) ?p minted (change_row (pn_update ?p) b') = change_row (pn_update ?p) b'" by (simp add: turned_def id)
    ultimately show ?thesis using c by simp
  qed
qed

text \<open>C36. Rotating a secret cuts nobody off: after it the client gets in with the new secret, which was delivered to it, and, for two
  hours, with the one it had.\<close>

theorem rotation_keeps_both:
  assumes "clients_apply A now args ms d = (Inr (Applied after), out, d')"
    and "loadManifests (ap_parse A) files = Inr ms" and "distinct (map fst files)" and "distinct (map cl_client_id (clients d))"
    and "aa_rotate args = Some i" and "b \<in> set (clients d)" and "cl_client_id b = i" and "cl_secret_hash b \<noteq> []"
    and "\<And>s. rd_compare R s (ap_hash A s)" and "rd_compare R old (cl_secret_hash b)"
    and "\<And>m w. m \<in> set ms \<Longrightarrow> mf_client m = i \<Longrightarrow> deriveClient (ap_parse A) m = Some w \<Longrightarrow> mc_active w"
  shows "\<exists>s c. (i, s) \<in> set out \<and> (\<forall>rq. validateClient R rq i (Some s) d' = Inr c
      \<and> (rq_now rq < now + 7200000 \<longrightarrow> validateClient R rq i (Some old) d' = Inr c))"
proof -
  define ws where "ws = map (\<lambda>m. the (deriveClient (ap_parse A) m)) ms"
  let ?p = "planApply ws (current_clients d)"
  note rows = applied_rows [OF assms(1-4) ws_def refl]
  from rows(1) obtain minted where r: "clients d' = rows_after now (aa_rotate args) ?p minted (clients d)"
    and mint: "mint A (aa_file_sink args) ms 0 (map mc_client (pn_create ?p) @ (case aa_rotate args of Some i \<Rightarrow> [i] | None \<Rightarrow> [])) = (Inr minted, out)"
    by blast
  have "i \<in> set (map mc_client (pn_create ?p) @ (case aa_rotate args of Some i \<Rightarrow> [i] | None \<Rightarrow> []))" using assms(5) by simp
  from mint_rotate [OF mint this] obtain m w s where m: "m \<in> set ms" "mf_client m = i" "deriveClient (ap_parse A) m = Some w"
    and s: "minted i = Some (ap_hash A s)" "takesSecret w \<longrightarrow> (i, s) \<in> set out" by blast
  have w: "w \<in> set ws" "mc_client w = i" using m deriveClient_id [OF m(3)] by (force simp: ws_def)+
  have out: "(i, s) \<in> set out" using applied_rotates_secret [OF assms(1,5) rows(4) ws_def w] s(2) by blast
  have "\<not> prefix ''dcr_'' i" using loadedD [OF assms(2) m(1)] loaded_file m(2) by metis
  then have id: "by_id (current_clients d) i = Some (managed b)" using by_id_current [OF assms(4,6)] assms(7) by (simp add: current_clients_def)
  then have "i \<notin> mc_client ` set (pn_create ?p)" by (auto simp: planApply_def)
  then have rot: "rotates (aa_rotate args) ?p = Some i" using assms(5) by (simp add: rotates_def)
  let ?b = "change_row (pn_update ?p) b" and ?c = "rotate_row now (ap_hash A s) (change_row (pn_update ?p) b)"
  have "turned now (aa_rotate args) ?p minted ?b = ?c" using rot s(1) assms(7) by (simp add: turned_def)
  then have c: "?c \<in> set (clients d')" using assms(6) unfolding r in_rows_after by metis
  have "agrees w (managed ?b)" by (rule change_row_agrees [OF rows(4) w(1)]) (use w(2) id assms(7) in simp_all)
  then have "same_value (field_of F_active (managed ?b)) (field_of F_active w)" unfolding agrees_def by blast
  then have act: "cl_active ?c" using assms(11) [OF m] by (simp add: managed_def rotate_row_def)
  have "find_active_client d' i = Some ?c"
    using find_one [OF rows(2) c, of "\<lambda>c. cl_client_id c = i \<and> cl_active c"] act assms(7) by (simp add: find_active_client_def)
  moreover have "secret_part ?b = secret_part b" by simp
  then have "cl_secret_hash ?b = cl_secret_hash b" by (simp add: secret_part_def)
  ultimately have "validateClient R rq i (Some s) d' = Inr ?c \<and> (rq_now rq < now + 7200000 \<longrightarrow> validateClient R rq i (Some old) d' = Inr ?c)" for rq
    using assms(8-10) by (simp add: validateClient_def rotate_row_def matches_previous_def ROTATE_GRACE_MS_def)
  with out show ?thesis by blast
qed


section \<open>Examples\<close>

definition shop_url :: url where
  "shop_url = \<lparr>url_protocol = ''https:'', url_hostname = ''shop.inite.ai'', url_port = [], url_pathname = ''/'', url_hash = [],
     url_username = [], url_password = [], url_origin = ''https://shop.inite.ai''\<rparr>"

definition shop_parse :: "string \<Rightarrow> url option" where
  "shop_parse u = (if u = ''https://shop.inite.ai'' then Some shop_url else None)"

definition shop_manifest :: manifest where
  "shop_manifest = \<lparr>mf_client = ''inite-shop'', mf_name = ''Shop'', mf_repo = Some ''inite-ai/shop'', mf_kind = None,
     mf_origins = Some [''https://shop.inite.ai''], mf_scopes = None, mf_audiences = None, mf_company = None,
     mf_secret = Some \<lparr>se_name = Some ''OAUTH_CLIENT_SECRET'', se_environment = None, se_keys = [''name'']\<rparr>,
     mf_outside = None, mf_active = None, mf_lane = None, mf_overrides = None,
     mf_keys = [''clientId'', ''name'', ''repo'', ''origins'', ''secret'']\<rparr>"

definition shop_files :: "(string \<times> manifest option) list" where
  "shop_files = [(''inite-shop.json'', Some shop_manifest)]"

definition shop_client :: managed_client where
  "shop_client = \<lparr>mc_client = ''inite-shop'', mc_name = ''Shop'', mc_redirects = [''https://shop.inite.ai/callback''],
     mc_scopes = BASELINE_SCOPES, mc_grants = DEFAULT_GRANTS, mc_audiences = [],
     mc_backchannel = Some ''https://shop.inite.ai/api/auth/backchannel-logout'', mc_first_party = True, mc_public = False,
     mc_auth = ''client_secret_post'', mc_company = None, mc_active = True, mc_lane = False\<rparr>"

definition demo_apply :: apply_deps where
  "demo_apply = \<lparr>ap_deliver = (\<lambda>_ _. True), ap_random = (\<lambda>n. ''new''), ap_hash = (\<lambda>s. ''h:'' @ s), ap_parse = shop_parse\<rparr>"

definition rotate_args :: apply_args where
  "rotate_args = \<lparr>aa_check = False, aa_apply = True, aa_rotate = Some ''inite-shop'', aa_file_sink = False\<rparr>"

text \<open>The shop as it was: an old name, an old secret.\<close>

definition old_shop :: client_row where
  "old_shop = (new_client shop_client ''h:old'')\<lparr>cl_name := ''Old shop''\<rparr>"

definition old_db :: db where
  "old_db = demo_db\<lparr>clients := [shop, old_shop]\<rparr>"

lemma shop_loads: "loadManifests shop_parse shop_files = Inr [shop_manifest]"
  by code_simp

lemma shop_derives: "deriveClient shop_parse shop_manifest = Some shop_client"
  by code_simp

lemma shop_applied:
  "case fst (clients_apply demo_apply 0 rotate_args [shop_manifest] old_db) of Inr (Applied _) \<Rightarrow> True | _ \<Rightarrow> False"
  by code_simp


lemma shop_run:
  obtains after out d' where "clients_apply demo_apply 0 rotate_args [shop_manifest] old_db = (Inr (Applied after), out, d')"
  using shop_applied by (cases "clients_apply demo_apply 0 rotate_args [shop_manifest] old_db")
    (auto split: sum.splits apply_outcome.splits)

lemma shop_distinct: "distinct (map fst shop_files)" "distinct (map cl_client_id (clients old_db))"
  by (simp_all add: shop_files_def old_db_def old_shop_def shop_def shop_client_def)

lemma demo_apply_parse: "loadManifests (ap_parse demo_apply) shop_files = Inr [shop_manifest]"
  using shop_loads by (simp add: demo_apply_def)

theorem apply_settles_witness:
  "\<exists>after out d' c. clients_apply demo_apply 0 rotate_args [shop_manifest] old_db = (Inr (Applied after), out, d')
     \<and> pn_create after = [] \<and> pn_update after = [] \<and> c \<in> set (clients d') \<and> shop \<in> set (clients d') \<and> agrees shop_client (managed c)"
proof -
  obtain after out d' where run: "clients_apply demo_apply 0 rotate_args [shop_manifest] old_db = (Inr (Applied after), out, d')"
    by (rule shop_run)
  have "shop \<in> set (clients old_db)" "cl_client_id shop \<notin> mf_client ` set [shop_manifest]"
    by (simp_all add: old_db_def shop_def shop_manifest_def)
  then show ?thesis
    using run apply_settles [OF run demo_apply_parse shop_distinct] shop_derives by (auto simp: demo_apply_def)
qed

theorem loaded_clients_are_safe_witness:
  "safe_redirect shop_parse shop_manifest ''https://shop.inite.ai/callback''"
proof -
  have "mf_kind shop_manifest = None" "mc_redirects shop_client = [''https://shop.inite.ai/callback'']"
    by (simp_all add: shop_manifest_def shop_client_def)
  then show ?thesis using loaded_clients_are_safe [OF shop_loads _ shop_derives] by simp
qed

theorem secrets_delivered_first_witness:
  "\<exists>after out d'. clients_apply demo_apply 0 rotate_args [shop_manifest] old_db = (Inr (Applied after), out, d')
     \<and> (\<forall>c \<in> set (clients d'). cl_client_id c = cl_client_id shop \<longrightarrow> secret_part c = secret_part shop)"
proof -
  obtain after out d' where run: "clients_apply demo_apply 0 rotate_args [shop_manifest] old_db = (Inr (Applied after), out, d')"
    by (rule shop_run)
  have "secret_part c = secret_part shop" if "c \<in> set (clients d')" "cl_client_id c = cl_client_id shop" for c
    by (rule secrets_delivered_first(3) [OF run demo_apply_parse shop_distinct that(1)])
      (use that(2) in \<open>simp_all add: old_db_def rotate_args_def shop_def\<close>)
  with run show ?thesis by blast
qed

definition shop_registry :: registry_deps where
  "shop_registry = \<lparr>rd_prims = demo_prims (\<lambda>_. None), rd_compare = (\<lambda>s h. h = ''h:'' @ s), rd_hash = (\<lambda>s. ''h:'' @ s)\<rparr>"

theorem rotation_keeps_both_witness:
  "\<exists>after out d' s c. clients_apply demo_apply 0 rotate_args [shop_manifest] old_db = (Inr (Applied after), out, d')
     \<and> (''inite-shop'', s) \<in> set out
     \<and> validateClient (shop_registry) (demo_rq\<lparr>rq_now := 7199999\<rparr>) ''inite-shop'' (Some ''old'') d' = Inr c
     \<and> validateClient (shop_registry) (demo_rq\<lparr>rq_now := 7199999\<rparr>) ''inite-shop'' (Some s) d' = Inr c"
proof -
  obtain after out d' where run: "clients_apply demo_apply 0 rotate_args [shop_manifest] old_db = (Inr (Applied after), out, d')"
    by (rule shop_run)
  have "\<exists>s c. (''inite-shop'', s) \<in> set out \<and> (\<forall>rq. validateClient (shop_registry) rq ''inite-shop'' (Some s) d' = Inr c
      \<and> (rq_now rq < 0 + 7200000 \<longrightarrow> validateClient (shop_registry) rq ''inite-shop'' (Some ''old'') d' = Inr c))"
    by (rule rotation_keeps_both [OF run demo_apply_parse shop_distinct, of _ old_shop])
      (use shop_derives in \<open>auto simp: old_db_def old_shop_def rotate_args_def shop_client_def shop_registry_def demo_apply_def\<close>)
  then obtain s c where sc: "(''inite-shop'', s) \<in> set out"
    "\<And>rq. validateClient (shop_registry) rq ''inite-shop'' (Some s) d' = Inr c
      \<and> (rq_now rq < 0 + 7200000 \<longrightarrow> validateClient (shop_registry) rq ''inite-shop'' (Some ''old'') d' = Inr c)" by blast
  have "rq_now (demo_rq\<lparr>rq_now := 7199999\<rparr>) < 0 + 7200000" by simp
  with sc run show ?thesis by blast
qed

end
