(* ===== verification/Spec2Isabelle.thy ===== *)
theory Spec2Isabelle
  imports Refresh_System Client_Ip Token_Endpoint Browser_Sessions Account_System Second_Factor Did Ton Saml Shared_Signals Manifest
begin

text \<open>
  A verification development for the INITE authentication service: the OAuth 2.1 / OpenID
  Connect authorization server under \<open>src/src\<close> of the repository.

  \<^bold>\<open>The program.\<close>  A NestJS service.  Controllers parse a request and call services; services read
  and write rows of a Postgres database through Prisma (\<open>src/prisma/schema.prisma\<close>), sign tokens
  with a key service, and return tokens.  The core of the program is what decides who gets a
  token, for what, and until when: the scope and resource policies, the three grants that redeem
  a one-time credential (authorization code, device code, refresh token), the token issuer, and
  the ways a session, a client or a person is signed out.  Around it stand the browser-facing
  endpoints: where an authorization request becomes a redirect, a log-in page or a code, and how a
  person signs in (password, e-mailed link, one-time code, second factor, passkey, wallet, social or SAML
  federation) and gets the browser session those endpoints read.  Beside it, a tenant is administered: its
  organization, members and roles, the directory that provisions them (SCIM), and the signals that tell resource
  servers of a change.  These parts are what is modelled.

  \<^bold>\<open>State.\<close>  The database is a record of tables (\<open>Database.db\<close>), each table a list of rows, each row a
  record with the columns of the Prisma model.  The table operations of \<open>Prelude\<close>
  (\<open>update_many\<close>, \<open>find_first\<close>, \<open>count_where\<close>, \<open>delete_many\<close>) are Prisma's.  A handler is a function from
  a request, an environment and a database to a result and a database: \<open>Inl\<close> is the exception it
  throws, \<open>Inr\<close> what it returns; the database is returned in both cases because the code keeps
  what it wrote before it threw, except inside \<open>$transaction\<close>, which the model rolls back as the
  code does.  The clock, the request metadata, fresh random values, the signing and sealing
  primitives and configuration are arguments (\<open>Environment\<close>): they are not code of the repository,
  and what the code relies on of the cipher is the named hypothesis \<open>cipher_ok\<close>, which \<open>Samples\<close>
  satisfies with a concrete instance.

  \<^bold>\<open>Theories\<close>, in import order, with the files they model (paths under \<open>src/src\<close>).
  \<^item> \<open>Prelude\<close>: errors, JavaScript string and array operations, JSON, table operations, durations, and
    the interface \<open>single_use\<close> of a one-time credential.
  \<^item> \<open>Environment\<close>: \<open>common/settings/settings.service.ts\<close>, \<open>common/device-metadata.ts\<close>, and the
    parameters standing for the crypto library and the clock.
  \<^item> \<open>Scopes\<close>: \<open>oauth/oauth-scopes.registry.ts\<close>.
  \<^item> \<open>Resources\<close>: \<open>oauth/resource-registry.ts\<close>.
  \<^item> \<open>Database\<close>: the rows of \<open>prisma/schema.prisma\<close> the core reads and writes.
  \<^item> \<open>Field_Crypto\<close>: \<open>common/field-crypto.ts\<close>.
  \<^item> \<open>Samples\<close>: concrete rows the witnesses evaluate.
  \<^item> \<open>Customer_Lane\<close>: the customer lane that enrols an end user in a tenant.
  \<^item> \<open>Claims\<close>: the operator's custom-claims column.
  \<^item> \<open>Agents\<close>: agent identity, delegation facts and
    the published DID document.
  \<^item> \<open>Workspace\<close>: the personal workspace of a person.
  \<^item> \<open>Refresh_Grace\<close>, \<open>Refresh_Store\<close>, \<open>Refresh_Grant\<close>: \<open>oauth/refresh-grace.ts\<close> and
    \<open>oauth/refresh-grant.ts\<close>, with the state transitions of a refresh row between them.
  \<^item> \<open>Token_Issuer\<close>: \<open>oauth/oauth-token-issuer.service.ts\<close>; \<open>Refresh_Props\<close>: the refresh endpoint it
    wires up, and its properties.
  \<^item> \<open>Session\<close>, \<open>Consent\<close>, \<open>Step_Up\<close>, \<open>Wallet_Grant\<close>: sign-out, consent and disconnection, step-up
    authentication, and the RFC 9396 wallet grants.
  \<^item> \<open>Auth_Code\<close>, \<open>Device_Flow\<close>: the authorization-code and device grants.
  \<^item> \<open>Refresh_System\<close>: the whole refresh table as a transition system with interleaved requests.
  \<^item> \<open>M2M\<close>: \<open>oauth/oauth-m2m.service.ts\<close> with the key selection of \<open>common/jwks.service.ts\<close>: the
    client_credentials grant and the RFC 8693 token exchange.
  \<^item> \<open>IP_Address\<close>: the addresses and block lists of Node's \<open>net\<close>; \<open>Safe_Fetch\<close>: \<open>common/safe-fetch.ts\<close> and
    \<open>safe-fetch-address.ts\<close>; \<open>Client_Ip\<close>: \<open>common/client-ip.ts\<close>.
  \<^item> \<open>Client_Registry\<close>: \<open>oauth/oauth-client-registry.service.ts\<close> and \<open>dcr-jwks.util.ts\<close>.
  \<^item> \<open>Redis\<close>: the operations of \<open>common/redis.service.ts\<close> on keys that expire.
  \<^item> \<open>Par\<close>: \<open>oauth/par.service.ts\<close>, \<open>request-object.service.ts\<close>, \<open>client-jwks.service.ts\<close> and
    \<open>authorize-params.ts\<close>: how the parameters of an authorization request are put together.
  \<^item> \<open>Client_Auth\<close>: \<open>oauth/client-auth.service.ts\<close> and the three ways a client proves itself.
  \<^item> \<open>Idempotency\<close>: \<open>common/idempotency.interceptor.ts\<close>, with the hash of a body down to its bytes.
  \<^item> \<open>Dpop\<close>: \<open>oauth/dpop.service.ts\<close>, proofs of possession and their replay guard.
  \<^item> \<open>Demo_Grant\<close>: \<open>oauth/demo-grant.ts\<close>, \<open>demo-grant.service.ts\<close> and \<open>organizations/demo-tenant.ts\<close>.
  \<^item> \<open>OAuth_Errors\<close>: \<open>oauth/oauth-errors.ts\<close> and its interceptor: the error codes endpoints answer.
  \<^item> \<open>Token_Endpoint\<close>: \<open>oauth/token.controller.ts\<close> and \<open>token-grant.service.ts\<close>, where the grants meet:
    client authentication, the grant's permission, the grant, inside the idempotency layer.
  \<^item> \<open>Authorize\<close>: \<open>oauth/oauth.controller.ts\<close>, the authorization endpoint: its checks in their order, silent
    sign-on, the account choice and the redirects, with the query strings they carry.
  \<^item> \<open>Api_Keys\<close>: \<open>oauth/api-keys.service.ts\<close>.
  \<^item> \<open>Logout\<close>: \<open>oauth/oauth-origins.service.ts\<close>, \<open>logout-redirect.ts\<close> and \<open>backchannel-logout.service.ts\<close>: the origins a browser
    may call from, where a sign-out may redirect, and who is told of it.
  \<^item> \<open>Session_Endpoints\<close>: \<open>oauth/oauth-session.controller.ts\<close> with the guards in front of it: create-code, session
    reads, connected applications, introspection, revocation, userinfo, end of session.
  \<^item> \<open>Login\<close>: the password log-in of \<open>auth/auth.service.ts\<close> and the lockout of \<open>auth/login-security.service.ts\<close>.
  \<^item> \<open>Accounts\<close>: registration, e-mailed links (\<open>auth/magic-link.service.ts\<close>) and password reset.
  \<^item> \<open>Otp\<close>: \<open>auth/otp/otp.service.ts\<close>, one-time codes for signing in and for a second factor.
  \<^item> \<open>Browser_Sessions\<close>: \<open>auth/auth.controller.ts\<close>, \<open>auth/otp/otp.controller.ts\<close> and \<open>auth/session/establish-session.ts\<close>: what a sign-in
    does to the browser's session.
  \<^item> \<open>Own_Account\<close>: \<open>identity/identity-account.service.ts\<close>, \<open>identity-email.service.ts\<close> and \<open>pending-email-change.ts\<close>: what
    people do to their own account.
  \<^item> \<open>Second_Factor\<close>: \<open>identity/identity-mfa.service.ts\<close> and \<open>backup-codes.ts\<close>.
  \<^item> \<open>Federation\<close>: \<open>auth/federation/\<close>, signing in through Google, GitHub or another OpenID provider.
  \<^item> \<open>Did\<close>: \<open>identity/did.service.ts\<close>, identifiers and credentials.
  \<^item> \<open>Passkeys\<close>: \<open>auth/passkey.service.ts\<close>; \<open>Wallets\<close>: \<open>auth/wallet/\<close> and the linking of \<open>identity/identity.service.ts\<close>;
    \<open>Ton\<close>: \<open>identity/ton-proof.ts\<close>, the bytes a wallet signs, and \<open>ton-wallet.service.ts\<close>.
  \<^item> \<open>Admin_Access\<close>: the guards of the administration and \<open>admin/admin-scope.ts\<close>; \<open>Saml\<close>: \<open>auth/saml/\<close>.
  \<^item> \<open>Organizations\<close>: \<open>organizations/organizations.service.ts\<close> and \<open>rbac/\<close>; \<open>Scim\<close>: \<open>scim/\<close>, directory provisioning.
  \<^item> \<open>Shared_Signals\<close>: \<open>ssf/\<close>, the streams, the outbox, polling and pushing of security events.
  \<^item> \<open>Manifest\<close>: \<open>clients/manifest.ts\<close>, \<open>clients/load.ts\<close> and \<open>scripts/clients-apply.ts\<close> (beside \<open>src/src\<close>): first-party
    clients as files, the plan against the database, and the run that applies it.
  \<^item> \<open>Account_System\<close>: every way of signing in, the changes of one's own account and the directory's provisioning
    as one transition system on the table of users.

  \<^bold>\<open>Interfaces.\<close>  \<open>single_use\<close> (a claim that at most one of many wins, interpreted on the rotation, the
  code, the device row, the pushed request, the signed
  assertion, the proof of possession, the e-mailed link, the recovery code, the passkey challenge, the SIWE nonce
  and the TON payload), \<open>key_giver\<close> (an endpoint that gives out a key with a time to live, interpreted on the
  passkey options, the SIWE challenge and the TON payload: in a store whose history is known, a key that is
  found was given out less than its life ago), \<open>token_issue\<close> (what a grant may assume of the issuer, interpreted on
  \<open>generateTokens\<close>), \<open>narrowing_op\<close> and \<open>revoke_op\<close> (table updates that never revive a row,
  interpreted on every revocation and expiry of the service).

  \<^bold>\<open>What the lemmas show.\<close>  One-time credentials are redeemed once, in any sequence and, for refresh
  tokens, under any interleaving of reads and commits; a rotation chain never forks; replay is
  theft and revokes the family, save the one retry the grace window admits, which gets the same
  pair; a closed scope stays closed; scopes, resources and custom claims only ever narrow what
  the policy allows; consent is asked when it must be; wallet grants are bounded; a step-up
  request is a comparison of ranks; a client proves itself by the method it registered; a
  self-registered client gets only what open registration may give; no outbound connection, after any
  redirect, goes to an address outside the policy, and what is answered is what the last peer said; the address of a caller is the first hop that is not trusted;
  the token endpoint gives a client only what its own credential stands for, and its refusals
  carry OAuth error codes; a retry with the same idempotency key gets the first answer.
  The authorization endpoint gives a code only to an exact match of a registered redirect, with the
  person, consent and strength of sign-in that were due, and does give it then; the log-in page gets
  back the request that was made.  Sign-out redirects stay within what a client registered, and
  leave nothing behind.  The lockout is a small machine that the log-in implements, and so is the
  counter of a one-time code; from them follow bounds on guessing.  The table of users stays
  well-formed under every sign-in operation and every change of an account.  The second factor implements a small
  contract of its own, the recovery codes counted.  A passkey or a
  wallet signs in its owner only, for a challenge of this service less than five minutes old, each challenge is good once, and the bytes a TON wallet signs determine what they say.
  Social federation links an account by a verified address only and returns where it started; base 58 and the credentials of a
  person's identifier round-trip, and the loop that computes base 58 ends.  An operator or a directory of one
  tenant changes nothing of another; leaving a tenant ends a member's permissions and is heard by the
  streams of that tenant and no other's; polling loses and repeats no signal.  The manifests load to clients within the
  rules, applying them settles the table and touches nothing else, and a rotated secret cuts nobody off.  Where the code does less than its comments say, the
  theorem states what it does, and the finding is in the manifest.

  \<^bold>\<open>Bounds.\<close>  No fuel is used: every recursion is structural or has a termination proof.  Strings are
  lists of code units below 256, so JavaScript's UTF-16 surrogates are outside the model.
  Instants are unbounded integers in milliseconds, where JavaScript's doubles are exact.

  \<^bold>\<open>Simplifications.\<close>  A handler runs against one database without interference, except in
  \<open>Refresh_System\<close>, which splits a refresh at its read and its commit.  The clock is read once per
  handler.  Best-effort effects whose failure the code swallows (e-mail notifications, audit lines,
  the SSF fan-out) are run at the end of the handler or dropped, and optional collaborators are
  taken as present.  The browser's session is what express-session documents: a value kept under an
  identifier, replaced by \<open>regenerate\<close>.  A code that a machine token asks for (no person) fails when its row
  is inserted.  The text of a kept one-time code must survive printing and parsing, which is the
  named hypothesis \<open>otp_json_ok\<close>, satisfied by the sample; \<open>state_json_ok\<close> is the same for the state of a federation
  request, and \<open>dates_ok\<close> says that a printed date is read back.  The columns \<open>createdAt\<close> and \<open>updatedAt\<close> are left out where
  only an order depends on them: rows stand in the order of their creation.  The tables of SAML connections and of
  signal streams are kept beside \<open>db\<close>.  Of an outbound request the resolver
  and the exchange with an address, its limits of time and size included, are parameters (\<open>fetch_deps\<close>).  In SCIM the numbers of a query are integers.

  \<^bold>\<open>Not modelled.\<close>  Signing in with Telegram, the operator's console (\<open>admin/admin.service.ts\<close> and its siblings) apart from
  who may use it, the SCIM discovery documents and error shapes, the audit log, e-mail and templates, the front end, the SDK
  packages and the deployment glue: they feed the parts above a user and a client, call them, or print what they
  answer.
\<close>

end
